(* ===== verification/Ut_Prelude.thy ===== *)
theory Ut_Prelude
  imports Main "HOL-Library.Word"
begin

text \<open>
  Shared vocabulary of the development: the fixed-width integer types of the C sources, the
  little part of the C library the sources call (C strings, \<open>snprintf\<close> truncation, number
  formatting, \<open>strtol\<close>/\<open>strtoul\<close> with base 0), a generic locale for machines that are run over
  a list of inputs, and the lemmas on lists, words and maps that the components share.

  Target: the LP64 data model (x86_64, arm64), where \<open>long\<close> has 64 bits. A \<open>long\<close> value is an
  \<open>int\<close> of the model; every conversion of one to a fixed-width type is written out
  (\<open>word_of_int\<close>), so wrap-around is never lost.
\<close>

unbundle bit_operations_syntax

type_synonym u8 = "8 word"
type_synonym u16 = "16 word"
type_synonym u32 = "32 word"
type_synonym s32 = "32 word" \<comment> \<open>a signed 32-bit value, read with \<open>sint\<close>\<close>
type_synonym u64 = "64 word"

named_theorems ut_const "numeric constants of the sources"
named_theorems ut_run "facts about folding a step function over a list"

section \<open>C strings and bounded writes\<close>

text \<open>The C view of a byte sequence: everything before the first NUL.\<close>

definition cstr :: "string \<Rightarrow> string" where
  "cstr s = takeWhile (\<lambda>c. c \<noteq> CHR 0x00) s"

text \<open>A \<open>char[n]\<close> field of a record, read as a C string.\<close>

definition bytes_cstr :: "u8 list \<Rightarrow> string" where
  "bytes_cstr bs = map (\<lambda>b. char_of (unat b)) (takeWhile (\<lambda>b. b \<noteq> 0) bs)"

text \<open>The C string a buffer of \<open>n\<close> bytes holds after \<open>snprintf(buf, n, "%s", s)\<close>.\<close>

definition snprintf_s :: "nat \<Rightarrow> string \<Rightarrow> string" where
  "snprintf_s n s = take (n - 1) s"

lemma cstr_no_nul: "CHR 0x00 \<notin> set (cstr s)"
  by (auto simp: cstr_def dest: set_takeWhileD)

lemma cstr_id [simp]: "CHR 0x00 \<notin> set s \<Longrightarrow> cstr s = s"
  by (simp add: cstr_def takeWhile_eq_all_conv) metis

lemma length_snprintf_s: "0 < n \<Longrightarrow> length (snprintf_s n s) < n"
  by (auto simp: snprintf_s_def)

section \<open>Printing and reading numbers\<close>

definition digit_char :: "nat \<Rightarrow> char" where
  "digit_char d = ''0123456789abcdefghijklmnopqrstuvwxyz'' ! d"

definition digit_val :: "char \<Rightarrow> nat option" where
  "digit_val c =
     (let n = (of_char c :: nat) in
      if 48 \<le> n \<and> n \<le> 57 then Some (n - 48)
      else if 97 \<le> n \<and> n \<le> 122 then Some (n - 87)
      else if 65 \<le> n \<and> n \<le> 90 then Some (n - 55)
      else None)"

text \<open>Digits of a number in a base, most significant first (\<open>"%u"\<close>, \<open>"%x"\<close>).\<close>

function show_base :: "nat \<Rightarrow> nat \<Rightarrow> string" where
  "show_base b n =
     (if b < 2 \<or> n < b then [digit_char n]
      else show_base b (n div b) @ [digit_char (n mod b)])"
  by pat_completeness auto
termination by (relation "measure snd") auto

declare show_base.simps [simp del]

definition show_dec :: "nat \<Rightarrow> string" where
  "show_dec n = show_base 10 n"

text \<open>\<open>"%ld"\<close>\<close>

definition show_long :: "int \<Rightarrow> string" where
  "show_long i = (if i < 0 then CHR ''-'' # show_dec (nat (- i)) else show_dec (nat i))"

text \<open>\<open>"%04x"\<close>\<close>

definition hex04 :: "u16 \<Rightarrow> string" where
  "hex04 w = (let s = show_base 16 (unat w) in replicate (4 - length s) CHR ''0'' @ s)"

text \<open>The longest run of digits of a base, accumulated: the value and what is left.\<close>

fun read_digits :: "nat \<Rightarrow> nat \<Rightarrow> string \<Rightarrow> nat \<times> string" where
  "read_digits b acc [] = (acc, [])"
| "read_digits b acc (c # cs) =
     (case digit_val c of
        None \<Rightarrow> (acc, c # cs)
      | Some d \<Rightarrow> if d < b then read_digits b (acc * b + d) cs else (acc, c # cs))"

definition is_digit :: "nat \<Rightarrow> char \<Rightarrow> bool" where
  "is_digit b c = (case digit_val c of None \<Rightarrow> False | Some d \<Rightarrow> d < b)"

definition is_space :: "char \<Rightarrow> bool" where
  "is_space c = (let n = (of_char c :: nat) in n = 32 \<or> (9 \<le> n \<and> n \<le> 13))"

text \<open>
  Base detection and magnitude of \<open>strtol(s, &end, 0)\<close> after white space and sign: a \<open>0x\<close> prefix
  counts only before a hexadecimal digit, a leading \<open>0\<close> selects octal. \<open>None\<close>: no digits, so
  no conversion is done.
\<close>

definition read_magnitude :: "string \<Rightarrow> (nat \<times> string) option" where
  "read_magnitude s =
     (case s of
        [] \<Rightarrow> None
      | c # cs \<Rightarrow>
          if c = CHR ''0'' \<and> cs \<noteq> [] \<and> (hd cs = CHR ''x'' \<or> hd cs = CHR ''X'')
             \<and> tl cs \<noteq> [] \<and> is_digit 16 (hd (tl cs))
          then Some (read_digits 16 0 (tl cs))
          else if c = CHR ''0'' then Some (read_digits 8 0 s)
          else if is_digit 10 c then Some (read_digits 10 0 s)
          else None)"

definition read_sign :: "string \<Rightarrow> bool \<times> string" where
  "read_sign s =
     (case s of
        [] \<Rightarrow> (False, [])
      | c # cs \<Rightarrow> if c = CHR ''-'' then (True, cs) else if c = CHR ''+'' then (False, cs)
                  else (False, s))"

definition LONG_MAX :: int where [ut_const]: "LONG_MAX = 2 ^ 63 - 1"
definition LONG_MIN :: int where [ut_const]: "LONG_MIN = - (2 ^ 63)"
definition ULONG_MAX :: nat where [ut_const]: "ULONG_MAX = 2 ^ 64 - 1"

definition EINTR :: int where "EINTR = 4"
definition EAGAIN :: int where "EAGAIN = 11"

text \<open>\<open>strtol(s, &end, 0)\<close>: the value, \<open>end\<close>, and whether \<open>errno\<close> is set (\<open>ERANGE\<close>).\<close>

definition strtol :: "string \<Rightarrow> int \<times> string \<times> bool" where
  "strtol s =
     (let (neg, body) = read_sign (dropWhile is_space s) in
      case read_magnitude body of
        None \<Rightarrow> (0, s, False)
      | Some (m, rest) \<Rightarrow>
          let v = (if neg then - int m else int m) in
          if v > LONG_MAX then (LONG_MAX, rest, True)
          else if v < LONG_MIN then (LONG_MIN, rest, True)
          else (v, rest, False))"

text \<open>\<open>strtoul(s, NULL, 0)\<close>: a minus sign negates in the unsigned type, overflow saturates.\<close>

definition strtoul :: "string \<Rightarrow> u64" where
  "strtoul s =
     (let (neg, body) = read_sign (dropWhile is_space s) in
      case read_magnitude body of
        None \<Rightarrow> 0
      | Some (m, rest) \<Rightarrow>
          if m > ULONG_MAX then word_of_nat ULONG_MAX
          else if neg then - word_of_nat m else word_of_nat m)"

section \<open>Round trip of the number formats\<close>

lemma less_10_cases:
  "(d::nat) < 10 \<Longrightarrow> d = 0 \<or> d = 1 \<or> d = 2 \<or> d = 3 \<or> d = 4 \<or> d = 5 \<or> d = 6 \<or> d = 7 \<or> d = 8 \<or> d = 9"
  by arith

lemma digit_val_digit_char_10 [simp]: "d < 10 \<Longrightarrow> digit_val (digit_char d) = Some d"
  by (drule less_10_cases) (auto simp: digit_val_def digit_char_def Let_def)

lemma digit_char_not_special [simp]:
  assumes "d < 10"
  shows "digit_char d \<noteq> CHR ''-''" "digit_char d \<noteq> CHR ''+''" "digit_char d \<noteq> CHR ''x''"
    "digit_char d \<noteq> CHR ''X''" "\<not> is_space (digit_char d)" "digit_char d \<noteq> CHR 0x00"
    "digit_char d \<noteq> CHR ''{''" "digit_char d \<noteq> CHR ''}''"
  using less_10_cases[OF assms]
  by (auto simp: digit_char_def is_space_def Let_def)

lemma digit_char_0_iff: "d < 10 \<Longrightarrow> digit_char d = CHR ''0'' \<longleftrightarrow> d = 0"
  by (drule less_10_cases) (auto simp: digit_char_def)

lemma show_base_nonempty [simp]: "show_base b n \<noteq> []"
  by (subst show_base.simps) simp

lemma show_base_10:
  "show_base 10 n = (if n < 10 then [digit_char n]
                     else show_base 10 (n div 10) @ [digit_char (n mod 10)])"
  by (subst show_base.simps) simp

lemma show_base_10_digits: "list_all (\<lambda>c. \<exists>d < 10. c = digit_char d) (show_base 10 n)"
proof (induction n rule: less_induct)
  case (less n)
  show ?case
  proof (cases "n < 10")
    case True
    then show ?thesis by (subst show_base_10) auto
  next
    case False
    then have "list_all (\<lambda>c. \<exists>d < 10. c = digit_char d) (show_base 10 (n div 10))"
      by (intro less) simp
    moreover have "\<exists>d < 10. digit_char (n mod 10) = digit_char d"
      by (rule exI[of _ "n mod 10"]) simp
    ultimately show ?thesis using False by (subst show_base_10) auto
  qed
qed

lemma show_dec_digits: "c \<in> set (show_dec n) \<Longrightarrow> \<exists>d < 10. c = digit_char d"
  using show_base_10_digits by (auto simp: list_all_iff show_dec_def)

lemma read_digits_append:
  "list_all (\<lambda>c. is_digit b c) xs \<Longrightarrow>
   read_digits b acc (xs @ ys) = read_digits b (fst (read_digits b acc xs)) ys"
  by (induction xs arbitrary: acc) (auto simp: is_digit_def split: option.splits)

lemma show_base_10_is_digit: "list_all (\<lambda>c. is_digit 10 c) (show_base 10 n)"
  using show_base_10_digits[of n] by (fastforce simp: list_all_iff is_digit_def)

lemma read_digits_show_base: "read_digits 10 0 (show_base 10 n) = (n, [])"
proof (induction n rule: less_induct)
  case (less n)
  show ?case
  proof (cases "n < 10")
    case True
    then show ?thesis by (subst show_base_10) simp
  next
    case False
    then have "read_digits 10 0 (show_base 10 (n div 10)) = (n div 10, [])"
      by (intro less) simp
    then have "read_digits 10 0 (show_base 10 (n div 10) @ [digit_char (n mod 10)])
        = (n div 10 * 10 + n mod 10, [])"
      by (subst read_digits_append) (simp_all add: show_base_10_is_digit)
    with False show ?thesis by (subst show_base_10) simp
  qed
qed

lemma show_base_10_hd_0: "hd (show_base 10 n) = CHR ''0'' \<longleftrightarrow> n = 0"
proof (induction n rule: less_induct)
  case (less n)
  show ?case
  proof (cases "n < 10")
    case True
    then show ?thesis by (subst show_base_10) (simp add: digit_char_0_iff)
  next
    case False
    then have "hd (show_base 10 (n div 10)) = CHR ''0'' \<longleftrightarrow> n div 10 = 0"
      by (intro less) simp
    with False show ?thesis by (subst show_base_10) (simp add: hd_append)
  qed
qed

lemma show_dec_0: "show_dec 0 = ''0''"
  by (simp add: show_dec_def show_base.simps[of 10 0] digit_char_def)

lemma show_dec_hd: "\<exists>d < 10. hd (show_dec n) = digit_char d"
  using show_dec_digits[of "hd (show_dec n)" n] by (simp add: show_dec_def)

lemma read_magnitude_show_dec: "read_magnitude (show_dec n) = Some (n, [])"
proof (cases "n = 0")
  case True
  then show ?thesis by (simp add: show_dec_0 read_magnitude_def digit_val_def)
next
  case False
  obtain c cs where c: "show_dec n = c # cs" by (cases "show_dec n") (auto simp: show_dec_def)
  obtain d where d: "d < 10" "c = digit_char d" using show_dec_hd[of n] c by auto
  have "c \<noteq> CHR ''0''" using False show_base_10_hd_0[of n] c by (simp add: show_dec_def)
  moreover have "is_digit 10 c" using d by (simp add: is_digit_def)
  moreover have "read_digits 10 0 (c # cs) = (n, [])"
    using c read_digits_show_base[of n] by (simp add: show_dec_def)
  ultimately show ?thesis by (simp add: read_magnitude_def c)
qed

lemma strtol_show_long:
  assumes "LONG_MIN \<le> i" "i \<le> LONG_MAX"
  shows "strtol (show_long i) = (i, [], False)"
proof -
  obtain d cs where d: "d < 10" "show_dec (nat i) = digit_char d # cs"
    using show_dec_hd[of "nat i"] by (cases "show_dec (nat i)") (auto simp: show_dec_def)
  show ?thesis
  proof (cases "i < 0")
    case True
    then show ?thesis using assms
      by (simp add: strtol_def show_long_def read_sign_def is_space_def read_magnitude_show_dec Let_def)
  next
    case False
    have "dropWhile is_space (show_dec (nat i)) = show_dec (nat i)" using d by simp
    moreover have "read_sign (show_dec (nat i)) = (False, show_dec (nat i))"
      using d by (simp add: read_sign_def)
    ultimately show ?thesis using assms False
      by (simp add: strtol_def show_long_def read_magnitude_show_dec Let_def)
  qed
qed

section \<open>Machines run over a list of inputs\<close>

text \<open>
  Several components are a state and a step per input (an event, a packet, a tick). The interface
  asks for an invariant that one step keeps on admissible inputs; its clients get the invariant
  after every run.
\<close>

locale step_machine =
  fixes step :: "'e \<Rightarrow> 's \<Rightarrow> 's"
    and inv :: "'s \<Rightarrow> bool"
    and ok :: "'e \<Rightarrow> bool"
  assumes step_inv: "inv s \<Longrightarrow> ok e \<Longrightarrow> inv (step e s)"
begin

lemma run_inv: "inv s \<Longrightarrow> list_all ok es \<Longrightarrow> inv (fold step es s)"
  by (induction es arbitrary: s) (auto simp: step_inv)

lemma run_prefix_inv: "inv s \<Longrightarrow> list_all ok es \<Longrightarrow> inv (fold step (take n es) s)"
  by (rule run_inv) (auto simp: list_all_iff dest: in_set_takeD)

end

section \<open>Lists, maps and words\<close>

lemma fold_invariant_set:
  "(\<And>x s. x \<in> set xs \<Longrightarrow> P s \<Longrightarrow> P (f x s)) \<Longrightarrow> P s \<Longrightarrow> P (fold f xs s)"
  by (induction xs arbitrary: s) auto

lemma find_upt_Some:
  "find P [0..<n] = Some i \<longleftrightarrow> i < n \<and> P i \<and> (\<forall>j < i. \<not> P j)"
proof -
  have "find P [0..<n] = Some i \<longleftrightarrow> (\<exists>k < n. P k \<and> i = k \<and> (\<forall>j < k. \<not> P j))"
    by (subst find_Some_iff) auto
  then show ?thesis by auto
qed

lemma find_upt_None: "find P [0..<n] = None \<longleftrightarrow> (\<forall>i < n. \<not> P i)"
  by (auto simp: find_None_iff)

lemma word_diff_le_trans:
  fixes a b :: u64
  shows "b \<le> a \<Longrightarrow> unat (a - b) = unat a - unat b"
  by (simp add: unat_sub)

lemma takeWhile_dropWhile_length: "length (dropWhile P xs) \<le> length xs"
  by (simp add: length_dropWhile_le)

end
