(* ===== verification/Diag_Model.thy ===== *)
theory Diag_Model
  imports Ut_Prelude
begin

text \<open>
  The data model of the \<open>diag\<close> rule engine (\<open>src/modules/diag/diag.h\<close>, \<open>engine.h\<close>): the normalised
  event, the device key, the fields and operators of the rule DSL, conditions and rules; and the
  per-event predicates of \<open>engine.c\<close> (\<open>ev_field_val\<close> to \<open>trigger_match\<close>).

  A C array with its element count (\<open>match[]\<close>/\<open>nmatch\<close>, \<open>status_in[]\<close>/\<open>nstatus\<close>, \<open>when[]\<close>/\<open>nwhen\<close>) is
  one list, a \<open>char *\<close> that may be NULL a \<open>string option\<close>, a \<open>long\<close> an \<open>int\<close>. The capacities are
  kept as constants; that the loader respects them is proved in \<open>Diag_Rules\<close>.
\<close>

section \<open>Limits and event kinds\<close>

definition DIAG_MAX_RULES :: nat where [ut_const]: "DIAG_MAX_RULES = 64"
definition DIAG_MAX_WHEN :: nat where [ut_const]: "DIAG_MAX_WHEN = 8"
definition DIAG_MAX_MATCH :: nat where [ut_const]: "DIAG_MAX_MATCH = 8"
definition DIAG_MAX_STATUS :: nat where [ut_const]: "DIAG_MAX_STATUS = 16"

text \<open>\<open>enum usbtrace_event_kind\<close> of \<open>common.h\<close>.\<close>

definition USBTRACE_EVT_URB :: u32 where [ut_const]: "USBTRACE_EVT_URB = 1"
definition USBTRACE_EVT_ENUM :: u32 where [ut_const]: "USBTRACE_EVT_ENUM = 2"
definition USBTRACE_EVT_POWER :: u32 where [ut_const]: "USBTRACE_EVT_POWER = 3"
definition USBTRACE_EVT_LIFECYCLE :: u32 where [ut_const]: "USBTRACE_EVT_LIFECYCLE = 4"
definition USBTRACE_EVT_CLASS :: u32 where [ut_const]: "USBTRACE_EVT_CLASS = 5"
definition USBTRACE_EVT_UVC_FRAME :: u32 where [ut_const]: "USBTRACE_EVT_UVC_FRAME = 6"
definition USBTRACE_EVT_UVC_VB2 :: u32 where [ut_const]: "USBTRACE_EVT_UVC_VB2 = 7"
definition USBTRACE_EVT_UVC_DRV :: u32 where [ut_const]: "USBTRACE_EVT_UVC_DRV = 8"
definition USBTRACE_EVT_HUB :: u32 where [ut_const]: "USBTRACE_EVT_HUB = 9"

section \<open>The normalised event\<close>

text \<open>\<open>struct diag_event\<close>, one record field per member (prefix \<open>ev_\<close>).\<close>

record diag_event =
  ev_kind :: u32
  ev_ts_ns :: u64
  ev_vid :: u16
  ev_pid :: u16
  ev_busnum :: u16
  ev_devnum :: u16
  ev_speed :: u8
  ev_portnum :: u8
  ev_status :: s32
  ev_latency_ns :: u32
  ev_actual :: u32
  ev_length :: u32
  ev_error_count :: s32
  ev_xfer_type :: u8
  ev_dir_in :: u8
  ev_ep :: u8
  ev_is_submit :: u8
  ev_cls :: u8
  ev_frame_bytes :: u32
  ev_frame_interval_ns :: u32
  ev_frame_errored :: u8
  ev_vb2_sequence :: u32
  ev_vb2_bytesused :: u32
  ev_vb2_interval_ns :: u32
  ev_wire_to_vb2_ns :: u32
  ev_vb2_seq_gap :: u8
  ev_vb2_op :: u8
  ev_vb2_starved :: u8
  ev_vb2_num_buffers :: u16
  ev_vb2_queued :: u16
  ev_vb2_drv_owned :: u16
  ev_old_state :: u8
  ev_new_state :: u8
  ev_action :: u8
  ev_reset_resume :: u8
  ev_step :: u8
  ev_has_setup :: u8
  ev_brequest :: u8
  ev_wvalue :: u16
  ev_comm :: "u8 list"
  ev_devpath :: "u8 list"

text \<open>\<open>memset(out, 0, sizeof(*out))\<close>\<close>

definition zero_event :: diag_event where
  "zero_event = \<lparr> ev_kind = 0, ev_ts_ns = 0, ev_vid = 0, ev_pid = 0, ev_busnum = 0, ev_devnum = 0,
     ev_speed = 0, ev_portnum = 0, ev_status = 0, ev_latency_ns = 0, ev_actual = 0, ev_length = 0,
     ev_error_count = 0, ev_xfer_type = 0, ev_dir_in = 0, ev_ep = 0, ev_is_submit = 0, ev_cls = 0,
     ev_frame_bytes = 0, ev_frame_interval_ns = 0, ev_frame_errored = 0, ev_vb2_sequence = 0,
     ev_vb2_bytesused = 0, ev_vb2_interval_ns = 0, ev_wire_to_vb2_ns = 0, ev_vb2_seq_gap = 0,
     ev_vb2_op = 0, ev_vb2_starved = 0, ev_vb2_num_buffers = 0, ev_vb2_queued = 0,
     ev_vb2_drv_owned = 0, ev_old_state = 0, ev_new_state = 0, ev_action = 0, ev_reset_resume = 0,
     ev_step = 0, ev_has_setup = 0, ev_brequest = 0, ev_wvalue = 0, ev_comm = replicate 16 0,
     ev_devpath = replicate 16 0 \<rparr>"

record diag_devkey =
  key_busnum :: u16
  key_devnum :: u16

definition diag_event_key :: "diag_event \<Rightarrow> diag_devkey" where
  "diag_event_key e = \<lparr> key_busnum = ev_busnum e, key_devnum = ev_devnum e \<rparr>"

section \<open>The rule DSL\<close>

datatype diag_field =
    F_NONE | F_KIND | F_IS_SUBMIT | F_STATUS | F_XFER_TYPE | F_DIR_IN | F_EP | F_ACTION
  | F_OLD_STATE | F_NEW_STATE | F_LATENCY_NS | F_ACTUAL | F_LENGTH | F_ERROR_COUNT | F_CLASS
  | F_FRAME_BYTES | F_FRAME_INTERVAL | F_FRAME_ERRORED | F_VB2_SEQUENCE | F_VB2_SEQ_GAP
  | F_VB2_BYTESUSED | F_VB2_INTERVAL | F_WIRE_TO_VB2_NS | F_VB2_OP | F_VB2_STARVED
  | F_VB2_NUM_BUFFERS | F_VB2_QUEUED | F_VB2_DRV_OWNED | F_STEP | F_BREQUEST | F_WVALUE
  | F_RESET_RESUME

datatype diag_op = OP_EQ | OP_NE | OP_GTE | OP_LTE

datatype diag_severity = SEV_INFO | SEV_WARN | SEV_ERROR

text \<open>The C enumeration orders the severities; so does the model.\<close>

fun sev_rank :: "diag_severity \<Rightarrow> nat" where
  "sev_rank SEV_INFO = 0"
| "sev_rank SEV_WARN = 1"
| "sev_rank SEV_ERROR = 2"

instantiation diag_severity :: linorder
begin

definition less_eq_diag_severity :: "diag_severity \<Rightarrow> diag_severity \<Rightarrow> bool" where
  "less_eq_diag_severity a b \<longleftrightarrow> sev_rank a \<le> sev_rank b"

definition less_diag_severity :: "diag_severity \<Rightarrow> diag_severity \<Rightarrow> bool" where
  "less_diag_severity a b \<longleftrightarrow> sev_rank a < sev_rank b"

instance
proof
  fix a b c :: diag_severity
  show "a < b \<longleftrightarrow> a \<le> b \<and> \<not> b \<le> a"
    by (auto simp: less_eq_diag_severity_def less_diag_severity_def)
  show "a \<le> a" by (simp add: less_eq_diag_severity_def)
  show "a \<le> b \<Longrightarrow> b \<le> c \<Longrightarrow> a \<le> c" by (simp add: less_eq_diag_severity_def)
  show "a \<le> b \<Longrightarrow> b \<le> a \<Longrightarrow> a = b"
    by (cases a; cases b) (auto simp: less_eq_diag_severity_def)
  show "a \<le> b \<or> b \<le> a" by (auto simp: less_eq_diag_severity_def)
qed

end

datatype diag_rule_type = RULE_EVENT | RULE_DEADLINE

record diag_match =
  m_field :: diag_field
  m_value :: int
  m_op :: diag_op

record diag_cond =
  c_has_kind :: bool
  c_kind :: u32
  c_match :: "diag_match list"
  c_status_in :: "int list"
  c_has_within_ms :: bool
  c_within_ms :: int
  c_has_count_gte :: bool
  c_count_gte :: int
  c_has_min_span_ms :: bool
  c_min_span_ms :: int
  c_has_cluster_ms :: bool
  c_cluster_ms :: int

definition zero_cond :: diag_cond where
  "zero_cond = \<lparr> c_has_kind = False, c_kind = 0, c_match = [], c_status_in = [],
     c_has_within_ms = False, c_within_ms = 0, c_has_count_gte = False, c_count_gte = 0,
     c_has_min_span_ms = False, c_min_span_ms = 0, c_has_cluster_ms = False, c_cluster_ms = 0 \<rparr>"

record diag_rule =
  r_id :: "string option"
  r_name :: "string option"
  r_conclusion :: "string option"
  r_fix :: "string option"
  r_severity :: diag_severity
  r_type :: diag_rule_type
  r_trigger :: diag_cond
  r_when :: "diag_cond list"
  r_dl_reached_state :: int
  r_dl_without_state :: int
  r_dl_timeout_ms :: int

definition zero_rule :: diag_rule where
  "zero_rule = \<lparr> r_id = None, r_name = None, r_conclusion = None, r_fix = None,
     r_severity = SEV_INFO, r_type = RULE_EVENT, r_trigger = zero_cond, r_when = [],
     r_dl_reached_state = 0, r_dl_without_state = 0, r_dl_timeout_ms = 0 \<rparr>"

section \<open>Per-event predicates\<close>

fun sev_str :: "diag_severity \<Rightarrow> string" where
  "sev_str SEV_ERROR = ''error''"
| "sev_str SEV_WARN = ''warn''"
| "sev_str SEV_INFO = ''info''"

text \<open>
  \<open>ev_field_val\<close>: every member converted to \<open>long\<close>. \<open>status\<close> and \<open>error_count\<close> are signed 32-bit;
  the setup fields are -1 when the event carries no setup packet.
\<close>

fun ev_field_val :: "diag_event \<Rightarrow> diag_field \<Rightarrow> int" where
  "ev_field_val e F_KIND = uint (ev_kind e)"
| "ev_field_val e F_IS_SUBMIT = uint (ev_is_submit e)"
| "ev_field_val e F_STATUS = sint (ev_status e)"
| "ev_field_val e F_XFER_TYPE = uint (ev_xfer_type e)"
| "ev_field_val e F_DIR_IN = uint (ev_dir_in e)"
| "ev_field_val e F_EP = uint (ev_ep e)"
| "ev_field_val e F_ACTION = uint (ev_action e)"
| "ev_field_val e F_OLD_STATE = uint (ev_old_state e)"
| "ev_field_val e F_NEW_STATE = uint (ev_new_state e)"
| "ev_field_val e F_LATENCY_NS = uint (ev_latency_ns e)"
| "ev_field_val e F_ACTUAL = uint (ev_actual e)"
| "ev_field_val e F_LENGTH = uint (ev_length e)"
| "ev_field_val e F_ERROR_COUNT = sint (ev_error_count e)"
| "ev_field_val e F_CLASS = uint (ev_cls e)"
| "ev_field_val e F_FRAME_BYTES = uint (ev_frame_bytes e)"
| "ev_field_val e F_FRAME_INTERVAL = uint (ev_frame_interval_ns e)"
| "ev_field_val e F_FRAME_ERRORED = uint (ev_frame_errored e)"
| "ev_field_val e F_VB2_SEQUENCE = uint (ev_vb2_sequence e)"
| "ev_field_val e F_VB2_SEQ_GAP = uint (ev_vb2_seq_gap e)"
| "ev_field_val e F_VB2_BYTESUSED = uint (ev_vb2_bytesused e)"
| "ev_field_val e F_VB2_INTERVAL = uint (ev_vb2_interval_ns e)"
| "ev_field_val e F_WIRE_TO_VB2_NS = uint (ev_wire_to_vb2_ns e)"
| "ev_field_val e F_VB2_OP = uint (ev_vb2_op e)"
| "ev_field_val e F_VB2_STARVED = uint (ev_vb2_starved e)"
| "ev_field_val e F_VB2_NUM_BUFFERS = uint (ev_vb2_num_buffers e)"
| "ev_field_val e F_VB2_QUEUED = uint (ev_vb2_queued e)"
| "ev_field_val e F_VB2_DRV_OWNED = uint (ev_vb2_drv_owned e)"
| "ev_field_val e F_STEP = uint (ev_step e)"
| "ev_field_val e F_BREQUEST = (if ev_has_setup e \<noteq> 0 then uint (ev_brequest e) else - 1)"
| "ev_field_val e F_WVALUE = (if ev_has_setup e \<noteq> 0 then uint (ev_wvalue e) else - 1)"
| "ev_field_val e F_RESET_RESUME = uint (ev_reset_resume e)"
| "ev_field_val e F_NONE = 0"

fun op_holds :: "diag_op \<Rightarrow> int \<Rightarrow> int \<Rightarrow> bool" where
  "op_holds OP_NE v k \<longleftrightarrow> v \<noteq> k"
| "op_holds OP_GTE v k \<longleftrightarrow> v \<ge> k"
| "op_holds OP_LTE v k \<longleftrightarrow> v \<le> k"
| "op_holds OP_EQ v k \<longleftrightarrow> v = k"

definition match_one :: "diag_match \<Rightarrow> int \<Rightarrow> bool" where
  "match_one m v = op_holds (m_op m) v (m_value m)"

text \<open>The loop over \<open>match[]\<close> stops at the first constraint that fails.\<close>

fun match_loop :: "diag_match list \<Rightarrow> diag_event \<Rightarrow> bool" where
  "match_loop [] e = True"
| "match_loop (m # ms) e =
     (let v = ev_field_val e (m_field m) in
      if \<not> match_one m v then False else match_loop ms e)"

definition match_fields :: "diag_cond \<Rightarrow> diag_event \<Rightarrow> bool" where
  "match_fields c e = match_loop (c_match c) e"

fun status_loop :: "int list \<Rightarrow> diag_event \<Rightarrow> bool" where
  "status_loop [] e = False"
| "status_loop (s # ss) e = (if sint (ev_status e) = s then True else status_loop ss e)"

definition status_ok :: "diag_cond \<Rightarrow> diag_event \<Rightarrow> bool" where
  "status_ok c e = (if length (c_status_in c) = 0 then True else status_loop (c_status_in c) e)"

definition cond_event_pred :: "diag_cond \<Rightarrow> diag_event \<Rightarrow> bool" where
  "cond_event_pred c e =
     (if c_has_kind c \<and> ev_kind e \<noteq> c_kind c then False
      else if \<not> match_fields c e then False
      else if \<not> status_ok c e then False
      else True)"

definition trigger_match :: "diag_cond \<Rightarrow> diag_event \<Rightarrow> bool" where
  "trigger_match c e =
     (if c_has_kind c \<and> ev_kind e \<noteq> c_kind c then False else match_fields c e)"

lemma match_fields_iff:
  "match_fields c e \<longleftrightarrow> (\<forall>m \<in> set (c_match c). match_one m (ev_field_val e (m_field m)))"
proof -
  have "match_loop ms e \<longleftrightarrow> (\<forall>m \<in> set ms. match_one m (ev_field_val e (m_field m)))" for ms
    by (induction ms) (auto simp: Let_def)
  then show ?thesis by (simp add: match_fields_def)
qed

lemma status_ok_iff: "status_ok c e \<longleftrightarrow> c_status_in c = [] \<or> sint (ev_status e) \<in> set (c_status_in c)"
proof -
  have "status_loop ss e \<longleftrightarrow> sint (ev_status e) \<in> set ss" for ss
    by (induction ss) auto
  then show ?thesis by (simp add: status_ok_def)
qed

lemma cond_event_pred_iff:
  "cond_event_pred c e \<longleftrightarrow> (c_has_kind c \<longrightarrow> ev_kind e = c_kind c) \<and> match_fields c e \<and> status_ok c e"
  by (auto simp: cond_event_pred_def)

lemma trigger_match_iff:
  "trigger_match c e \<longleftrightarrow> (c_has_kind c \<longrightarrow> ev_kind e = c_kind c) \<and> match_fields c e"
  by (auto simp: trigger_match_def)

text \<open>A trigger is a condition whose status list does not count.\<close>

lemma cond_event_pred_trigger: "cond_event_pred c e \<longleftrightarrow> trigger_match c e \<and> status_ok c e"
  by (auto simp: cond_event_pred_iff trigger_match_iff)

lemmas diag_pred_iffs = match_fields_iff status_ok_iff cond_event_pred_iff trigger_match_iff

end
