(* ===== verification/Diag_Window.thy ===== *)
theory Diag_Window
  imports Diag_Model
begin

text \<open>
  The per-device lookback window of the rule engine (\<open>engine.c\<close>, \<open>struct devwin\<close>, \<open>win_get\<close>,
  \<open>win_push\<close>, \<open>win_at\<close>) and the evaluation of one \<open>when\<close> condition over it (\<open>eval_when\<close>).

  A fixed-size C array is a function from indices; every index the code computes is proved to be
  in bounds (\<open>win_ok\<close>). The interface locale \<open>sliding_window\<close> states what a bounded newest-first
  log promises; it is interpreted on the ring buffer, and the condition evaluator is shown to
  compute a specification over the plain list of the newest events.
\<close>

section \<open>Constants and state\<close>

definition WIN_MAX_DEVS :: nat where [ut_const]: "WIN_MAX_DEVS = 128"
definition WIN_MAX_EVENTS :: nat where [ut_const]: "WIN_MAX_EVENTS = 1024"
definition RETENTION_NS :: u64 where [ut_const]: "RETENTION_NS = 10 * 1000000000"
definition COOLDOWN_NS :: u64 where [ut_const]: "COOLDOWN_NS = 2 * 1000000000"
definition MAX_EVIDENCE :: nat where [ut_const]: "MAX_EVIDENCE = 6"

record devwin =
  w_used :: bool
  w_key :: diag_devkey
  w_vid :: u16
  w_pid :: u16
  w_last_seen_ns :: u64
  w_ev :: "nat \<Rightarrow> diag_event"
  w_head :: nat
  w_count :: nat
  w_seen_states :: u16
  w_state_ts :: "nat \<Rightarrow> u64"
  w_last_fire_ns :: "nat \<Rightarrow> u64"
  w_dl_fired :: "nat \<Rightarrow> u8"

text \<open>\<open>memset(w, 0, sizeof(*w))\<close>, and the window \<open>win_get\<close> sets up for a new key.\<close>

definition zero_devwin :: devwin where
  "zero_devwin = \<lparr> w_used = False, w_key = \<lparr> key_busnum = 0, key_devnum = 0 \<rparr>, w_vid = 0, w_pid = 0,
     w_last_seen_ns = 0, w_ev = (\<lambda>_. zero_event), w_head = 0, w_count = 0, w_seen_states = 0,
     w_state_ts = (\<lambda>_. 0), w_last_fire_ns = (\<lambda>_. 0), w_dl_fired = (\<lambda>_. 0) \<rparr>"

definition fresh_win :: "diag_devkey \<Rightarrow> devwin" where
  "fresh_win k = zero_devwin\<lparr> w_used := True, w_key := k \<rparr>"

section \<open>Finding and allocating a window\<close>

definition key_eq :: "diag_devkey \<Rightarrow> diag_devkey \<Rightarrow> bool" where
  "key_eq a b \<longleftrightarrow> key_busnum a = key_busnum b \<and> key_devnum a = key_devnum b"

text \<open>
  The second loop of \<open>win_get\<close>: the first free slot, else the slot seen longest ago (the first of
  several). The result is \<open>None\<close> only for an empty table.
\<close>

fun win_alloc :: "(nat \<Rightarrow> devwin) \<Rightarrow> nat list \<Rightarrow> nat option \<Rightarrow> nat option" where
  "win_alloc devs [] lru = lru"
| "win_alloc devs (i # is) lru =
     (if \<not> w_used (devs i) then Some i
      else win_alloc devs is
             (case lru of
                None \<Rightarrow> Some i
              | Some l \<Rightarrow> if w_last_seen_ns (devs i) < w_last_seen_ns (devs l) then Some i else Some l))"

definition win_find :: "(nat \<Rightarrow> devwin) \<Rightarrow> diag_devkey \<Rightarrow> nat option" where
  "win_find devs k = find (\<lambda>i. w_used (devs i) \<and> key_eq (w_key (devs i)) k) [0..<WIN_MAX_DEVS]"

text \<open>\<open>win_get\<close>: the slot of the window (\<open>None\<close> is NULL) and the device table afterwards.\<close>

definition win_get :: "(nat \<Rightarrow> devwin) \<Rightarrow> diag_devkey \<Rightarrow> bool \<Rightarrow> nat option \<times> (nat \<Rightarrow> devwin)" where
  "win_get devs k create =
     (case win_find devs k of
        Some i \<Rightarrow> (Some i, devs)
      | None \<Rightarrow>
          if \<not> create then (None, devs)
          else (case win_alloc devs [0..<WIN_MAX_DEVS] None of
                  None \<Rightarrow> (None, devs)
                | Some i \<Rightarrow> (Some i, devs(i := fresh_win k))))"

section \<open>The event ring\<close>

definition win_push :: "devwin \<Rightarrow> diag_event \<Rightarrow> devwin" where
  "win_push w ev =
     w\<lparr> w_ev := (w_ev w)(w_head w := ev),
        w_head := (w_head w + 1) mod WIN_MAX_EVENTS,
        w_count := (if w_count w < WIN_MAX_EVENTS then w_count w + 1 else w_count w) \<rparr>"

definition win_pos :: "devwin \<Rightarrow> nat \<Rightarrow> nat" where
  "win_pos w idx =
     nat ((int (w_head w) - 1 - int idx + 2 * int WIN_MAX_EVENTS) mod int WIN_MAX_EVENTS)"

definition win_at :: "devwin \<Rightarrow> nat \<Rightarrow> diag_event" where
  "win_at w idx = w_ev w (win_pos w idx)"

section \<open>Evaluating one condition\<close>

record eval_st =
  es_cnt :: int
  es_nclus :: int
  es_oldest :: u64
  es_newest :: u64
  es_prev_ts :: u64
  es_ev :: "diag_event list"

definition ms_to_ns :: "int \<Rightarrow> u64" where
  "ms_to_ns ms = word_of_int ms * 1000000"

definition cluster_ns :: "diag_cond \<Rightarrow> u64" where
  "cluster_ns c = (if c_has_cluster_ms c \<and> c_cluster_ms c > 0 then ms_to_ns (c_cluster_ms c) else 0)"

text \<open>The body of the loop of \<open>eval_when\<close> for one event \<open>x\<close>.\<close>

definition eval_step :: "diag_cond \<Rightarrow> u64 \<Rightarrow> diag_event \<Rightarrow> eval_st \<Rightarrow> eval_st" where
  "eval_step c ref_ns x st =
     (if ev_ts_ns x > ref_ns then st
      else if c_has_within_ms c \<and> ref_ns - ev_ts_ns x > ms_to_ns (c_within_ms c) then st
      else if \<not> cond_event_pred c x then st
      else
        let oldest = (if ev_ts_ns x < es_oldest st then ev_ts_ns x else es_oldest st);
            newest = (if ev_ts_ns x > es_newest st then ev_ts_ns x else es_newest st);
            clus = cluster_ns c \<noteq> 0;
            take = (if clus then es_nclus st = 0 \<or> es_prev_ts st - ev_ts_ns x > cluster_ns c else True)
        in st\<lparr> es_oldest := oldest, es_newest := newest, es_cnt := es_cnt st + 1,
               es_prev_ts := (if clus then ev_ts_ns x else es_prev_ts st),
               es_nclus := (if clus \<and> take then es_nclus st + 1 else es_nclus st),
               es_ev := (if take \<and> length (es_ev st) < MAX_EVIDENCE then es_ev st @ [x] else es_ev st) \<rparr>)"

text \<open>
  \<open>eval_when\<close>: the count and the evidence collected so far (the code passes a non-NULL evidence
  block at its only call).
\<close>

definition eval_when ::
    "devwin \<Rightarrow> diag_cond \<Rightarrow> u64 \<Rightarrow> diag_event list \<Rightarrow> int \<times> diag_event list" where
  "eval_when w c ref_ns ev =
     (let st0 = \<lparr> es_cnt = 0, es_nclus = 0, es_oldest = - 1, es_newest = 0, es_prev_ts = 0, es_ev = ev \<rparr>;
          st = fold (\<lambda>i. eval_step c ref_ns (win_at w i)) [0..<w_count w] st0;
          cnt = (if cluster_ns c \<noteq> 0 then es_nclus st else es_cnt st)
      in if c_has_min_span_ms c
            \<and> (cnt < 2 \<or> es_newest st - es_oldest st < ms_to_ns (c_min_span_ms c))
         then (0, take (length ev) (es_ev st))
         else (cnt, es_ev st))"

section \<open>The sliding-window interface\<close>

text \<open>The newest-first list a window stands for.\<close>

definition newest_first :: "('w \<Rightarrow> nat \<Rightarrow> 'e) \<Rightarrow> ('w \<Rightarrow> nat) \<Rightarrow> 'w \<Rightarrow> 'e list" where
  "newest_first at cnt w = map (at w) [0..<cnt w]"

locale sliding_window =
  fixes push :: "'w \<Rightarrow> 'e \<Rightarrow> 'w"
    and at :: "'w \<Rightarrow> nat \<Rightarrow> 'e"
    and cnt :: "'w \<Rightarrow> nat"
    and cap :: nat
    and winv :: "'w \<Rightarrow> bool"
  assumes winv_push: "winv w \<Longrightarrow> winv (push w e)"
    and cnt_push: "winv w \<Longrightarrow> cnt (push w e) = min cap (Suc (cnt w))"
    and at_push_0: "winv w \<Longrightarrow> at (push w e) 0 = e"
    and at_push_Suc: "winv w \<Longrightarrow> i < cnt w \<Longrightarrow> Suc i < cap \<Longrightarrow> at (push w e) (Suc i) = at w i"
    and cap_pos: "0 < cap"
begin

lemma log_push:
  assumes "winv w"
  shows "newest_first at cnt (push w e) = take cap (e # newest_first at cnt w)"
proof (rule nth_equalityI)
  show len: "length (newest_first at cnt (push w e)) = length (take cap (e # newest_first at cnt w))"
    using assms by (auto simp: newest_first_def cnt_push)
  fix i assume i: "i < length (newest_first at cnt (push w e))"
  then have i': "i < min cap (Suc (cnt w))" using assms by (simp add: newest_first_def cnt_push)
  show "newest_first at cnt (push w e) ! i = take cap (e # newest_first at cnt w) ! i"
  proof (cases i)
    case 0
    then show ?thesis using i assms cap_pos by (simp add: newest_first_def at_push_0 cnt_push)
  next
    case (Suc j)
    then show ?thesis using i' assms by (simp add: newest_first_def at_push_Suc cnt_push)
  qed
qed

lemma winv_pushes: "winv w \<Longrightarrow> winv (fold (\<lambda>e w. push w e) es w)"
  by (induction es arbitrary: w) (auto simp: winv_push)

lemma log_pushes:
  "winv w \<Longrightarrow> cnt w \<le> cap \<Longrightarrow>
   newest_first at cnt (fold (\<lambda>e w. push w e) es w) = take cap (rev es @ newest_first at cnt w)"
proof (induction es arbitrary: w)
  case Nil
  then show ?case by (simp add: newest_first_def)
next
  case (Cons e es)
  have "cnt (push w e) \<le> cap" using Cons.prems by (simp add: cnt_push)
  with Cons have "newest_first at cnt (fold (\<lambda>e w. push w e) es (push w e))
      = take cap (rev es @ take cap (e # newest_first at cnt w))"
    by (simp add: winv_push log_push)
  also have "\<dots> = take cap (rev es @ e # newest_first at cnt w)"
    by simp
  finally show ?case by simp
qed

lemma scan_log: "fold (\<lambda>i. f (at w i)) [0..<cnt w] s = fold f (newest_first at cnt w) s"
  by (simp add: newest_first_def fold_map comp_def)

end

section \<open>The ring implements the interface\<close>

text \<open>Every index is in bounds: the write slot, and the slot of every valid lookback position.\<close>

definition win_ok :: "devwin \<Rightarrow> bool" where
  "win_ok w \<longleftrightarrow> w_head w < WIN_MAX_EVENTS \<and> w_count w \<le> WIN_MAX_EVENTS"

abbreviation win_log :: "devwin \<Rightarrow> diag_event list" where
  "win_log \<equiv> newest_first win_at w_count"

lemma win_pos_bound: "win_pos w idx < WIN_MAX_EVENTS"
  by (auto simp: win_pos_def WIN_MAX_EVENTS_def nat_less_iff)

lemma win_pos_nat:
  assumes "w_head w < WIN_MAX_EVENTS" "idx < WIN_MAX_EVENTS"
  shows "win_pos w idx = (w_head w + (WIN_MAX_EVENTS - 1 - idx)) mod WIN_MAX_EVENTS"
proof -
  let ?k = "w_head w + (WIN_MAX_EVENTS - 1 - idx)"
  have "int (w_head w) - 1 - int idx + 2 * int WIN_MAX_EVENTS = int (?k + WIN_MAX_EVENTS)"
    using assms by simp
  then have "win_pos w idx = nat (int (?k + WIN_MAX_EVENTS) mod int WIN_MAX_EVENTS)"
    by (simp only: win_pos_def)
  also have "\<dots> = (?k + WIN_MAX_EVENTS) mod WIN_MAX_EVENTS"
    by (simp only: zmod_int[symmetric] nat_int)
  finally show ?thesis by simp
qed

lemma add_mod_less: "h < M \<Longrightarrow> k < M \<Longrightarrow> (h + k) mod M = (if h + k < M then h + k else h + k - M)"
  for h k M :: nat
  by (simp add: mod_if)

lemma win_pos_push_Suc:
  assumes "w_head w < WIN_MAX_EVENTS" "Suc i < WIN_MAX_EVENTS"
  shows "win_pos (win_push w e) (Suc i) = win_pos w i" "win_pos w i \<noteq> w_head w"
proof -
  have h: "(w_head w + 1) mod WIN_MAX_EVENTS < WIN_MAX_EVENTS" by (simp add: WIN_MAX_EVENTS_def)
  have "win_pos (win_push w e) (Suc i)
      = ((w_head w + 1) mod WIN_MAX_EVENTS + (WIN_MAX_EVENTS - 1 - Suc i)) mod WIN_MAX_EVENTS"
    using h assms by (subst win_pos_nat) (simp_all add: win_push_def)
  also have "\<dots> = (w_head w + 1 + (WIN_MAX_EVENTS - 1 - Suc i)) mod WIN_MAX_EVENTS"
    by (simp add: mod_simps)
  also have "w_head w + 1 + (WIN_MAX_EVENTS - 1 - Suc i) = w_head w + (WIN_MAX_EVENTS - 1 - i)"
    using assms by simp
  finally show "win_pos (win_push w e) (Suc i) = win_pos w i"
    using assms by (simp add: win_pos_nat)
  have "win_pos w i = (w_head w + (WIN_MAX_EVENTS - 1 - i)) mod WIN_MAX_EVENTS"
    using assms by (simp only: win_pos_nat Suc_lessD)
  also have "\<dots> = (if w_head w + (WIN_MAX_EVENTS - 1 - i) < WIN_MAX_EVENTS
      then w_head w + (WIN_MAX_EVENTS - 1 - i)
      else w_head w + (WIN_MAX_EVENTS - 1 - i) - WIN_MAX_EVENTS)"
    using assms by (intro add_mod_less) auto
  finally show "win_pos w i \<noteq> w_head w"
    using assms by (auto split: if_splits)
qed

lemma win_at_push_0:
  assumes "win_ok w"
  shows "win_at (win_push w e) 0 = e"
proof -
  have "win_pos (win_push w e) 0 = w_head w"
  proof -
    have h: "(w_head w + 1) mod WIN_MAX_EVENTS < WIN_MAX_EVENTS" by (simp add: WIN_MAX_EVENTS_def)
    then have "win_pos (win_push w e) 0
        = ((w_head w + 1) mod WIN_MAX_EVENTS + (WIN_MAX_EVENTS - 1)) mod WIN_MAX_EVENTS"
      by (subst win_pos_nat) (simp_all add: win_push_def WIN_MAX_EVENTS_def)
    also have "\<dots> = (w_head w + WIN_MAX_EVENTS) mod WIN_MAX_EVENTS"
      by (simp add: mod_simps WIN_MAX_EVENTS_def)
    finally show ?thesis using assms by (simp add: win_ok_def)
  qed
  then show ?thesis by (simp add: win_at_def win_push_def)
qed

interpretation dw: sliding_window win_push win_at w_count WIN_MAX_EVENTS win_ok
proof (unfold_locales, goal_cases)
  case (1 w e) then show ?case by (auto simp: win_ok_def win_push_def WIN_MAX_EVENTS_def)
next
  case (2 w e) then show ?case by (auto simp: win_ok_def win_push_def)
next
  case (3 w e) then show ?case by (rule win_at_push_0)
next
  case (4 w i e)
  then have "w_head w < WIN_MAX_EVENTS" by (simp add: win_ok_def)
  from win_pos_push_Suc[OF this 4(3)] show ?case
    by (simp add: win_at_def) (simp add: win_push_def)
next
  case 5 show ?case by (simp add: WIN_MAX_EVENTS_def)
qed

lemma win_ok_fresh [simp]: "win_ok (fresh_win k)" "win_ok zero_devwin"
  by (simp_all add: win_ok_def fresh_win_def zero_devwin_def WIN_MAX_EVENTS_def)

lemma win_log_fresh [simp]: "win_log (fresh_win k) = []" "win_log zero_devwin = []"
  by (simp_all add: newest_first_def fresh_win_def zero_devwin_def)

lemma win_log_cong:
  "w_ev w = w_ev w' \<Longrightarrow> w_head w = w_head w' \<Longrightarrow> w_count w = w_count w' \<Longrightarrow> win_log w = win_log w'"
  by (simp add: newest_first_def win_at_def win_pos_def)

end
