(* ===== verification/Diag_Eval.thy ===== *)
theory Diag_Eval
  imports Diag_Window
begin

text \<open>
  What \<open>eval_when\<close> computes, stated over the plain newest-first list of a device's events: the
  events that satisfy the condition (\<open>cond_hits\<close>), the episode heads when the condition clusters
  (\<open>cluster_heads\<close>), the span of the hits, and the resulting count (\<open>cond_value\<close>). The loop of the
  code is shown to compute exactly this.
\<close>

section \<open>Specification\<close>

text \<open>Not after the trigger, not older than the lookback, and satisfying the per-event predicate.\<close>

definition cond_hit :: "diag_cond \<Rightarrow> u64 \<Rightarrow> diag_event \<Rightarrow> bool" where
  "cond_hit c ref_ns x \<longleftrightarrow>
     ev_ts_ns x \<le> ref_ns
     \<and> (c_has_within_ms c \<longrightarrow> ref_ns - ev_ts_ns x \<le> ms_to_ns (c_within_ms c))
     \<and> cond_event_pred c x"

definition cond_hits :: "diag_cond \<Rightarrow> u64 \<Rightarrow> diag_event list \<Rightarrow> diag_event list" where
  "cond_hits c ref_ns evs = filter (cond_hit c ref_ns) evs"

text \<open>
  An event opens a new episode when it is the newest one or lies more than the cluster distance
  before its newer neighbour.
\<close>

fun cluster_heads :: "u64 \<Rightarrow> u64 option \<Rightarrow> diag_event list \<Rightarrow> diag_event list" where
  "cluster_heads d prev [] = []"
| "cluster_heads d prev (x # xs) =
     (case prev of
        None \<Rightarrow> x # cluster_heads d (Some (ev_ts_ns x)) xs
      | Some p \<Rightarrow> if p - ev_ts_ns x > d then x # cluster_heads d (Some (ev_ts_ns x)) xs
                   else cluster_heads d (Some (ev_ts_ns x)) xs)"

definition cond_reps :: "diag_cond \<Rightarrow> u64 \<Rightarrow> diag_event list \<Rightarrow> diag_event list" where
  "cond_reps c ref_ns evs =
     (if cluster_ns c = 0 then cond_hits c ref_ns evs
      else cluster_heads (cluster_ns c) None (cond_hits c ref_ns evs))"

definition hits_span :: "diag_event list \<Rightarrow> u64" where
  "hits_span xs = Max (ev_ts_ns ` set xs) - Min (ev_ts_ns ` set xs)"

definition span_ok :: "diag_cond \<Rightarrow> u64 \<Rightarrow> diag_event list \<Rightarrow> bool" where
  "span_ok c ref_ns evs \<longleftrightarrow>
     (c_has_min_span_ms c \<longrightarrow>
        2 \<le> length (cond_reps c ref_ns evs)
        \<and> ms_to_ns (c_min_span_ms c) \<le> hits_span (cond_hits c ref_ns evs))"

definition cond_value :: "diag_cond \<Rightarrow> u64 \<Rightarrow> diag_event list \<Rightarrow> int" where
  "cond_value c ref_ns evs =
     (if span_ok c ref_ns evs then int (length (cond_reps c ref_ns evs)) else 0)"

definition cond_evidence ::
    "diag_cond \<Rightarrow> u64 \<Rightarrow> diag_event list \<Rightarrow> diag_event list \<Rightarrow> diag_event list" where
  "cond_evidence c ref_ns evs ev =
     (if span_ok c ref_ns evs then ev @ take (MAX_EVIDENCE - length ev) (cond_reps c ref_ns evs)
      else ev)"

section \<open>The loop computes the specification\<close>

text \<open>The loop body on an event that passes the filters.\<close>

definition eval_take :: "diag_cond \<Rightarrow> diag_event \<Rightarrow> eval_st \<Rightarrow> eval_st" where
  "eval_take c x st =
     (let clus = cluster_ns c \<noteq> 0;
          take = (if clus then es_nclus st = 0 \<or> es_prev_ts st - ev_ts_ns x > cluster_ns c else True)
      in st\<lparr> es_oldest := min (ev_ts_ns x) (es_oldest st), es_newest := max (ev_ts_ns x) (es_newest st),
             es_cnt := es_cnt st + 1, es_prev_ts := (if clus then ev_ts_ns x else es_prev_ts st),
             es_nclus := (if clus \<and> take then es_nclus st + 1 else es_nclus st),
             es_ev := (if take \<and> length (es_ev st) < MAX_EVIDENCE then es_ev st @ [x] else es_ev st) \<rparr>)"

lemma if_less_min: "(if a < b then a else b) = min a b" for a b :: "'a::linorder"
  by (auto simp: min_def)

lemma if_greater_max: "(if b < a then a else b) = max a b" for a b :: "'a::linorder"
  by (auto simp: max_def)

lemma eval_step_take:
  "eval_step c ref_ns x st = (if cond_hit c ref_ns x then eval_take c x st else st)"
proof -
  have "eval_step c ref_ns x st =
      (if ev_ts_ns x > ref_ns then st
       else if c_has_within_ms c \<and> ref_ns - ev_ts_ns x > ms_to_ns (c_within_ms c) then st
       else if \<not> cond_event_pred c x then st else eval_take c x st)"
    by (simp only: eval_step_def eval_take_def Let_def if_less_min if_greater_max)
  then show ?thesis by (auto simp: cond_hit_def not_less not_le)
qed

lemma fold_eval_step: "fold (eval_step c ref_ns) xs st = fold (eval_take c) (cond_hits c ref_ns xs) st"
  by (induction xs arbitrary: st) (auto simp: cond_hits_def eval_step_take)

lemma fold_take_cnt: "es_cnt (fold (eval_take c) xs st) = es_cnt st + int (length xs)"
  by (induction xs arbitrary: st) (auto simp: eval_take_def Let_def)

lemma fold_take_oldest:
  "es_oldest (fold (eval_take c) xs st) = Min (insert (es_oldest st) (ev_ts_ns ` set xs))"
proof (induction xs arbitrary: st)
  case (Cons x xs)
  have "es_oldest (fold (eval_take c) (x # xs) st)
      = Min (insert (min (ev_ts_ns x) (es_oldest st)) (ev_ts_ns ` set xs))"
    by (simp add: Cons eval_take_def Let_def)
  also have "\<dots> = Min (insert (es_oldest st) (ev_ts_ns ` set (x # xs)))"
    by (cases "xs = []") (auto simp: ac_simps)
  finally show ?case .
qed simp

lemma fold_take_newest:
  "es_newest (fold (eval_take c) xs st) = Max (insert (es_newest st) (ev_ts_ns ` set xs))"
proof (induction xs arbitrary: st)
  case (Cons x xs)
  have "es_newest (fold (eval_take c) (x # xs) st)
      = Max (insert (max (ev_ts_ns x) (es_newest st)) (ev_ts_ns ` set xs))"
    by (simp add: Cons eval_take_def Let_def)
  also have "\<dots> = Max (insert (es_newest st) (ev_ts_ns ` set (x # xs)))"
    by (cases "xs = []") (auto simp: ac_simps)
  finally show ?case .
qed simp

lemma take_snoc_evidence:
  "length ev < M \<Longrightarrow> (ev @ [x]) @ take (M - length (ev @ [x])) ys = ev @ take (M - length ev) (x # ys)"
  by (auto simp: less_iff_Suc_add)

lemma fold_take_ev_plain:
  "cluster_ns c = 0 \<Longrightarrow> length (es_ev st) \<le> MAX_EVIDENCE \<Longrightarrow>
   es_ev (fold (eval_take c) xs st) = es_ev st @ take (MAX_EVIDENCE - length (es_ev st)) xs"
proof (induction xs arbitrary: st)
  case (Cons x xs)
  let ?st = "eval_take c x st"
  have "length (es_ev ?st) \<le> MAX_EVIDENCE" using Cons.prems by (auto simp: eval_take_def Let_def)
  note IH = Cons.IH[OF Cons.prems(1) this]
  show ?case
  proof (cases "length (es_ev st) < MAX_EVIDENCE")
    case True
    then have "es_ev ?st = es_ev st @ [x]" using Cons.prems by (simp add: eval_take_def Let_def)
    then show ?thesis using IH take_snoc_evidence[OF True] by simp
  next
    case False
    then have "es_ev ?st = es_ev st" by (simp add: eval_take_def Let_def)
    then show ?thesis using IH False by simp
  qed
qed simp

definition clus_prev :: "eval_st \<Rightarrow> u64 option" where
  "clus_prev st = (if es_nclus st = 0 then None else Some (es_prev_ts st))"

lemma fold_take_clus:
  assumes "cluster_ns c \<noteq> 0" "0 \<le> es_nclus st" "length (es_ev st) \<le> MAX_EVIDENCE"
  shows "es_nclus (fold (eval_take c) xs st)
           = es_nclus st + int (length (cluster_heads (cluster_ns c) (clus_prev st) xs))
       \<and> es_ev (fold (eval_take c) xs st)
           = es_ev st @ take (MAX_EVIDENCE - length (es_ev st)) (cluster_heads (cluster_ns c) (clus_prev st) xs)"
  using assms(2,3)
proof (induction xs arbitrary: st)
  case (Cons x xs)
  let ?st = "eval_take c x st"
  have pre: "0 \<le> es_nclus ?st" "length (es_ev ?st) \<le> MAX_EVIDENCE"
    using Cons.prems by (auto simp: eval_take_def Let_def)
  note IH = Cons.IH[OF pre]
  show ?case
  proof (cases "es_nclus st = 0 \<or> es_prev_ts st - ev_ts_ns x > cluster_ns c")
    case True
    have heads: "cluster_heads (cluster_ns c) (clus_prev st) (x # xs)
        = x # cluster_heads (cluster_ns c) (clus_prev ?st) xs"
      using True assms(1) Cons.prems by (auto simp: clus_prev_def eval_take_def Let_def)
    show ?thesis
    proof (cases "length (es_ev st) < MAX_EVIDENCE")
      case less: True
      then have "es_ev ?st = es_ev st @ [x]" "es_nclus ?st = es_nclus st + 1"
        using True assms(1) by (auto simp: eval_take_def Let_def)
      then show ?thesis using IH less take_snoc_evidence[OF less]
        by (simp add: heads del: cluster_heads.simps)
    next
      case full: False
      then have "es_ev ?st = es_ev st" "es_nclus ?st = es_nclus st + 1"
        using True assms(1) by (auto simp: eval_take_def Let_def)
      then show ?thesis using IH full by (simp add: heads del: cluster_heads.simps)
    qed
  next
    case False
    then have "es_ev ?st = es_ev st" "es_nclus ?st = es_nclus st"
      using assms(1) by (auto simp: eval_take_def Let_def)
    moreover have "cluster_heads (cluster_ns c) (clus_prev st) (x # xs)
        = cluster_heads (cluster_ns c) (clus_prev ?st) xs"
      using False assms(1) by (auto simp: clus_prev_def eval_take_def Let_def)
    ultimately show ?thesis using IH by (simp del: cluster_heads.simps)
  qed
qed simp

lemma cluster_heads_length: "length (cluster_heads d prev xs) \<le> length xs"
  by (induction xs arbitrary: prev) (auto split: option.splits intro: le_SucI)

lemma cluster_heads_subset: "set (cluster_heads d prev xs) \<subseteq> set xs"
  by (induction xs arbitrary: prev) (auto split: option.splits)

lemma cluster_heads_empty: "cluster_heads d None xs = [] \<longleftrightarrow> xs = []"
  by (cases xs) auto

lemma Min_top_word: "finite A \<Longrightarrow> A \<noteq> {} \<Longrightarrow> Min (insert (- 1 :: u64) A) = Min A"
  by (simp add: min_absorb2 word_order.extremum)

lemma Max_bot_word: "finite A \<Longrightarrow> A \<noteq> {} \<Longrightarrow> Max (insert (0 :: u64) A) = Max A"
  by (simp add: max_absorb2)

lemma eval_when_spec:
  assumes "length ev \<le> MAX_EVIDENCE"
  shows "eval_when w c ref_ns ev
           = (cond_value c ref_ns (win_log w), cond_evidence c ref_ns (win_log w) ev)"
proof -
  let ?init = "\<lparr> es_cnt = 0, es_nclus = 0, es_oldest = - 1, es_newest = 0, es_prev_ts = 0, es_ev = ev \<rparr>"
  let ?hits = "cond_hits c ref_ns (win_log w)"
  let ?reps = "cond_reps c ref_ns (win_log w)"
  let ?st = "fold (\<lambda>i. eval_step c ref_ns (win_at w i)) [0..<w_count w] ?init"
  have st: "?st = fold (eval_take c) ?hits ?init"
    by (simp only: dw.scan_log[where f = "eval_step c ref_ns"] fold_eval_step)
  have cnt: "(if cluster_ns c \<noteq> 0 then es_nclus ?st else es_cnt ?st) = int (length ?reps)"
    and ev: "es_ev ?st = ev @ take (MAX_EVIDENCE - length ev) ?reps"
    using assms fold_take_clus[of c ?init ?hits] fold_take_ev_plain[of c ?init ?hits]
    by (simp_all add: st fold_take_cnt cond_reps_def clus_prev_def)
  have span: "es_newest ?st - es_oldest ?st = hits_span ?hits" if "?hits \<noteq> []"
    using that by (simp add: st fold_take_newest fold_take_oldest hits_span_def Min_top_word Max_bot_word
        del: Min_insert Max_insert)
  have ne: "?hits \<noteq> []" if "2 \<le> length ?reps"
    using that by (auto simp: cond_reps_def split: if_splits)
  have iff: "(int (length ?reps) < 2 \<or> es_newest ?st - es_oldest ?st < ms_to_ns (c_min_span_ms c))
      \<longleftrightarrow> \<not> (2 \<le> length ?reps \<and> ms_to_ns (c_min_span_ms c) \<le> hits_span ?hits)"
  proof (cases "2 \<le> length ?reps")
    case True
    then show ?thesis using span ne by (simp add: not_le)
  qed simp
  show ?thesis
    unfolding eval_when_def Let_def cnt ev
    using iff by (simp add: cond_value_def cond_evidence_def span_ok_def)
qed

lemma cond_evidence_bound:
  "length ev \<le> MAX_EVIDENCE \<Longrightarrow> length (cond_evidence c ref_ns evs ev) \<le> MAX_EVIDENCE"
  by (auto simp: cond_evidence_def min_def)

lemma cond_value_bounds: "0 \<le> cond_value c ref_ns evs" "cond_value c ref_ns evs \<le> int (length evs)"
proof -
  have "length (cond_reps c ref_ns evs) \<le> length (cond_hits c ref_ns evs)"
    by (simp add: cond_reps_def cluster_heads_length)
  moreover have "length (cond_hits c ref_ns evs) \<le> length evs"
    by (simp add: cond_hits_def)
  ultimately show "0 \<le> cond_value c ref_ns evs" "cond_value c ref_ns evs \<le> int (length evs)"
    by (simp_all add: cond_value_def)
qed

text \<open>
  For events in arrival order with timestamps that never decrease, two episode heads are more than
  the cluster distance apart: a burst of calls closer than the distance counts once.
\<close>

lemma cluster_heads_apart:
  "sorted_wrt (\<lambda>a b. ev_ts_ns b \<le> ev_ts_ns a) xs \<Longrightarrow>
   (\<forall>p. prev = Some p \<longrightarrow> (\<forall>x \<in> set xs. ev_ts_ns x \<le> p)) \<Longrightarrow>
   sorted_wrt (\<lambda>a b. unat (ev_ts_ns a) > unat d + unat (ev_ts_ns b)) (cluster_heads d prev xs)
   \<and> (\<forall>p. prev = Some p \<longrightarrow> (\<forall>x \<in> set (cluster_heads d prev xs). unat p > unat d + unat (ev_ts_ns x)))"
proof (induction xs arbitrary: prev)
  case (Cons x xs)
  have IH: "sorted_wrt (\<lambda>a b. unat (ev_ts_ns a) > unat d + unat (ev_ts_ns b))
        (cluster_heads d (Some (ev_ts_ns x)) xs)"
    "\<forall>y \<in> set (cluster_heads d (Some (ev_ts_ns x)) xs). unat (ev_ts_ns x) > unat d + unat (ev_ts_ns y)"
    using Cons.IH[of "Some (ev_ts_ns x)"] Cons.prems(1) by auto
  show ?case
  proof (cases prev)
    case None
    then show ?thesis using IH by simp
  next
    case (Some p)
    have le: "ev_ts_ns x \<le> p" using Cons.prems Some by simp
    then have un: "unat (p - ev_ts_ns x) = unat p - unat (ev_ts_ns x)" "unat (ev_ts_ns x) \<le> unat p"
      by (auto simp: unat_sub word_le_nat_alt)
    show ?thesis
    proof (cases "p - ev_ts_ns x > d")
      case True
      then have "unat p > unat d + unat (ev_ts_ns x)" using un by (simp add: word_less_nat_alt)
      then show ?thesis using IH Some True by fastforce
    next
      case False
      then show ?thesis using IH Some un by fastforce
    qed
  qed
qed simp

end
