(* ===== verification/Diag_Expand.thy ===== *)
theory Diag_Expand
  imports Diag_Window
begin

text \<open>
  Template expansion of the rule engine (\<open>expand\<close> in \<open>engine.c\<close>): \<open>{vid} {pid} {bus} {dev} {count}
  {window} {comm}\<close> are replaced in a conclusion or fix text, into a buffer of a given size. The
  buffer is modelled by the characters written so far and the code's offset \<open>o\<close>, which can run past
  the end of the buffer after a truncated \<open>snprintf\<close>. The result is shown to be the unbounded
  expansion cut to the buffer.
\<close>

text \<open>The value of a placeholder, formatted into \<open>char val[64]\<close>.\<close>

definition expand_val :: "devwin \<Rightarrow> int \<Rightarrow> int \<Rightarrow> string option \<Rightarrow> string \<Rightarrow> string" where
  "expand_val w count window_ms comm key =
     snprintf_s 64
       (if key = ''vid'' then hex04 (w_vid w)
        else if key = ''pid'' then hex04 (w_pid w)
        else if key = ''bus'' then show_dec (unat (key_busnum (w_key w)))
        else if key = ''dev'' then show_dec (unat (key_devnum (w_key w)))
        else if key = ''count'' then show_long count
        else if key = ''window'' then show_long window_ms
        else if key = ''comm'' then (case comm of None \<Rightarrow> [] | Some s \<Rightarrow> s)
        else CHR ''{'' # key @ [CHR ''}''])"

text \<open>\<open>strchr(p, '}')\<close> for a \<open>p\<close> that starts with \<open>{\<close>: the key between, if it fits \<open>char key[16]\<close>.\<close>

definition brace_key :: "string \<Rightarrow> string option" where
  "brace_key cs =
     (if CHR ''}'' \<in> set cs \<and> length (takeWhile (\<lambda>c. c \<noteq> CHR ''}'') cs) < 16
      then Some (takeWhile (\<lambda>c. c \<noteq> CHR ''}'') cs) else None)"

definition after_brace :: "string \<Rightarrow> string" where
  "after_brace cs = tl (dropWhile (\<lambda>c. c \<noteq> CHR ''}'') cs)"

lemma length_after_brace [simp]: "length (after_brace cs) \<le> length cs"
  using length_dropWhile_le[of "\<lambda>c. c \<noteq> CHR ''}''" cs] by (simp add: after_brace_def)

function expand_loop ::
    "(string \<Rightarrow> string) \<Rightarrow> nat \<Rightarrow> string \<Rightarrow> string \<Rightarrow> nat \<Rightarrow> string \<times> nat" where
  "expand_loop val n [] out off = (out, off)"
| "expand_loop val n (c # cs) out off =
     (if \<not> off + 1 < n then (out, off)
      else if c = CHR ''{'' then
        (case brace_key cs of
           Some key \<Rightarrow>
             expand_loop val n (after_brace cs) (out @ take (n - off - 1) (val key))
               (off + length (val key))
         | None \<Rightarrow> expand_loop val n cs (out @ [c]) (off + 1))
      else expand_loop val n cs (out @ [c]) (off + 1))"
  by pat_completeness auto
termination
  by (relation "measure (\<lambda>(val, n, p, out, off). length p)") (auto simp: le_imp_less_Suc)

definition expand ::
    "string option \<Rightarrow> devwin \<Rightarrow> int \<Rightarrow> int \<Rightarrow> string option \<Rightarrow> nat \<Rightarrow> string" where
  "expand tmpl w count window_ms comm outsz =
     (let p = (case tmpl of None \<Rightarrow> [] | Some t \<Rightarrow> t);
          (out, off) = expand_loop (expand_val w count window_ms comm) outsz p [] 0
      in take (if off < outsz then off else outsz - 1) out)"

text \<open>The expansion without a buffer.\<close>

function expand_full :: "(string \<Rightarrow> string) \<Rightarrow> string \<Rightarrow> string" where
  "expand_full val [] = []"
| "expand_full val (c # cs) =
     (if c = CHR ''{'' then
        (case brace_key cs of
           Some key \<Rightarrow> val key @ expand_full val (after_brace cs)
         | None \<Rightarrow> c # expand_full val cs)
      else c # expand_full val cs)"
  by pat_completeness auto
termination
  by (relation "measure (\<lambda>(val, p). length p)") (auto simp: le_imp_less_Suc)

lemma expand_loop_spec:
  assumes "0 < n" "out = take (n - 1) full" "off = length full"
  shows "(case expand_loop val n p out off of
           (out', off') \<Rightarrow> take (if off' < n then off' else n - 1) out')
         = take (n - 1) (full @ expand_full val p)"
  using assms
proof (induction val n p out off arbitrary: full rule: expand_loop.induct)
  case (1 val n out off)
  then show ?case by (cases "length full < n") auto
next
  case (2 val n c cs out off)
  show ?case
  proof (cases "off + 1 < n")
    case False
    with 2 have "n - 1 \<le> length full" by simp
    with 2 False show ?thesis by (cases "length full < n") auto
  next
    case less: True
    with 2 have out: "out = full" by simp
    show ?thesis
    proof (cases "c = CHR ''{'' \<and> brace_key cs \<noteq> None")
      case True
      then obtain key where key: "brace_key cs = Some key" and c: "c = CHR ''{''" by auto
      have "out @ take (n - off - 1) (val key) = take (n - 1) (full @ val key)"
        using less 2 out by simp
      then have "(case expand_loop val n (after_brace cs) (out @ take (n - off - 1) (val key))
                    (off + length (val key)) of
                 (out', off') \<Rightarrow> take (if off' < n then off' else n - 1) out')
          = take (n - 1) ((full @ val key) @ expand_full val (after_brace cs))"
        using less 2 c key by (intro 2(2)) auto
      then show ?thesis using less c key by simp
    next
      case False
      have "out @ [c] = take (n - 1) (full @ [c])" using less 2 out by simp
      then have "(case expand_loop val n cs (out @ [c]) (off + 1) of
                 (out', off') \<Rightarrow> take (if off' < n then off' else n - 1) out')
          = take (n - 1) ((full @ [c]) @ expand_full val cs)"
        using less 2(4-6) False
        by (cases "c = CHR ''{''"; intro 2(1) 2(3)) auto
      moreover have "expand_loop val n (c # cs) out off = expand_loop val n cs (out @ [c]) (off + 1)"
        and "expand_full val (c # cs) = c # expand_full val cs"
        using less False by (auto split: option.splits)
      ultimately show ?thesis by (simp only: append_assoc append_Cons append_Nil)
    qed
  qed
qed

lemma expand_full_plain: "CHR ''{'' \<notin> set p \<Longrightarrow> expand_full val p = p"
  by (induction p) auto

lemma expand_full_plain_append: "CHR ''{'' \<notin> set p \<Longrightarrow> expand_full val (p @ q) = p @ expand_full val q"
  by (induction p) auto

lemma expand_full_key:
  assumes "CHR ''}'' \<notin> set key" "length key < 16"
  shows "expand_full val (CHR ''{'' # key @ CHR ''}'' # rest) = val key @ expand_full val rest"
proof -
  have t: "takeWhile (\<lambda>c. c \<noteq> CHR ''}'') (key @ CHR ''}'' # rest) = key"
    and d: "dropWhile (\<lambda>c. c \<noteq> CHR ''}'') (key @ CHR ''}'' # rest) = CHR ''}'' # rest"
    using assms(1) by (induction key) auto
  show ?thesis using assms(2) by (simp add: brace_key_def after_brace_def t d)
qed

end
