(* ===== verification/Diag_Engine.thy ===== *)
theory Diag_Engine
  imports Diag_Eval Diag_Expand
begin

text \<open>
  The rule engine proper (\<open>engine.c\<close>): ingesting one event (\<open>diag_engine_ingest\<close>), the periodic tick
  (\<open>diag_engine_tick\<close>), the summary (\<open>diag_engine_report\<close>) and construction. The engine's output is
  a list of findings: what \<open>print_finding\<close> receives, with both templates expanded; the text and
  JSON line of a finding are in \<open>Diag_Text\<close>.

  The clock the cooldown reads (\<open>diag_now_ns\<close>) is a parameter: \<open>clk ri\<close> is the value returned when
  rule \<open>ri\<close> reads it during one \<open>ingest\<close>.
\<close>

section \<open>State and findings\<close>

record finding =
  fd_rule :: nat
  fd_severity :: diag_severity
  fd_id :: "string option"
  fd_vid :: u16
  fd_pid :: u16
  fd_key :: diag_devkey
  fd_ref_ns :: u64
  fd_count :: int
  fd_conclusion :: string
  fd_fix :: string
  fd_evidence :: "diag_event list"

record engine =
  g_rules :: "diag_rule list"
  g_devs :: "nat \<Rightarrow> devwin"
  g_fire_count :: "nat \<Rightarrow> u64"
  g_total_fired :: u64

text \<open>What the loop over the rules changes: the current window, the tallies, the output.\<close>

record rule_st =
  l_win :: devwin
  l_fire_count :: "nat \<Rightarrow> u64"
  l_total :: u64
  l_out :: "finding list"

definition print_finding ::
    "nat \<Rightarrow> diag_rule \<Rightarrow> devwin \<Rightarrow> u64 \<Rightarrow> int \<Rightarrow> int \<Rightarrow> string option \<Rightarrow> diag_event list \<Rightarrow> finding" where
  "print_finding ri r w ref_ns count window_ms comm ev =
     \<lparr> fd_rule = ri, fd_severity = r_severity r, fd_id = r_id r, fd_vid = w_vid w, fd_pid = w_pid w,
       fd_key = w_key w, fd_ref_ns = ref_ns, fd_count = count,
       fd_conclusion = expand (r_conclusion r) w count window_ms comm 512,
       fd_fix = expand (r_fix r) w count window_ms comm 512,
       fd_evidence = ev \<rparr>"

definition emit ::
    "nat \<Rightarrow> diag_rule \<Rightarrow> u64 \<Rightarrow> int \<Rightarrow> int \<Rightarrow> string option \<Rightarrow> diag_event list \<Rightarrow> rule_st \<Rightarrow> rule_st" where
  "emit ri r ref_ns count window_ms comm ev st =
     st\<lparr> l_fire_count := (l_fire_count st)(ri := l_fire_count st ri + 1),
         l_total := l_total st + 1,
         l_out := l_out st @ [print_finding ri r (l_win st) ref_ns count window_ms comm ev] \<rparr>"

section \<open>Ingest\<close>

definition cooldown_ok :: "devwin \<Rightarrow> nat \<Rightarrow> u64 \<Rightarrow> bool \<times> devwin" where
  "cooldown_ok w ridx now =
     (if w_last_fire_ns w ridx \<noteq> 0 \<and> now - w_last_fire_ns w ridx < COOLDOWN_NS then (False, w)
      else (True, w\<lparr> w_last_fire_ns := (w_last_fire_ns w)(ridx := now) \<rparr>))"

definition dev_reset_enum :: "devwin \<Rightarrow> devwin" where
  "dev_reset_enum w =
     w\<lparr> w_seen_states := 0, w_state_ts := (\<lambda>_. 0), w_dl_fired := (\<lambda>_. 0) \<rparr>"

text \<open>The window update at the head of \<open>diag_engine_ingest\<close>.\<close>

definition win_note :: "diag_event \<Rightarrow> devwin \<Rightarrow> devwin" where
  "win_note evt w =
     (let w1 = w\<lparr> w_last_seen_ns := ev_ts_ns evt \<rparr>;
          w2 = (if ev_vid evt \<noteq> 0 then w1\<lparr> w_vid := ev_vid evt \<rparr> else w1);
          w3 = (if ev_pid evt \<noteq> 0 then w2\<lparr> w_pid := ev_pid evt \<rparr> else w2)
      in win_push w3 evt)"

definition win_track :: "diag_event \<Rightarrow> devwin \<Rightarrow> devwin" where
  "win_track evt w =
     (if ev_kind evt = USBTRACE_EVT_ENUM \<and> ev_step evt = 0 then
        (let w1 = (if ev_new_state evt = 0 then dev_reset_enum w else w) in
         if ev_new_state evt < 9 then
           (let s = unat (ev_new_state evt);
                w2 = w1\<lparr> w_seen_states := w_seen_states w1 OR push_bit s 1 \<rparr>
            in if w_state_ts w2 s = 0 then w2\<lparr> w_state_ts := (w_state_ts w2)(s := ev_ts_ns evt) \<rparr>
               else w2)
         else w1)
      else if ev_kind evt = USBTRACE_EVT_LIFECYCLE \<and> ev_action evt = 1 then dev_reset_enum w
      else w)"

text \<open>The loop over \<open>when[]\<close>: whether all conditions hold, and the count, window and evidence.\<close>

fun eval_whens ::
    "devwin \<Rightarrow> u64 \<Rightarrow> diag_cond list \<Rightarrow> diag_event list \<Rightarrow> int \<Rightarrow> int
     \<Rightarrow> bool \<times> diag_event list \<times> int \<times> int" where
  "eval_whens w ref_ns [] ev count window_ms = (True, ev, count, window_ms)"
| "eval_whens w ref_ns (c # cs) ev count window_ms =
     (let need = (if c_has_count_gte c then c_count_gte c else 1);
          (n, ev') = eval_when w c ref_ns ev
      in if n < need then (False, ev', count, window_ms)
         else eval_whens w ref_ns cs ev'
                (if n > count then n else count)
                (if c_has_within_ms c \<and> c_within_ms c > window_ms then c_within_ms c else window_ms))"

definition ingest_rule ::
    "(nat \<Rightarrow> u64) \<Rightarrow> diag_event \<Rightarrow> diag_rule list \<Rightarrow> nat \<Rightarrow> rule_st \<Rightarrow> rule_st" where
  "ingest_rule clk evt rules ri st =
     (let r = rules ! ri in
      if r_type r \<noteq> RULE_EVENT then st
      else if \<not> trigger_match (r_trigger r) evt then st
      else
        let (ok, ev, count, window_ms) = eval_whens (l_win st) (ev_ts_ns evt) (r_when r) [] 0 0 in
        if ok then
          (let (cool, w) = cooldown_ok (l_win st) ri (clk ri) in
           if cool then
             emit ri r (ev_ts_ns evt) count window_ms (Some (bytes_cstr (ev_comm evt))) ev
               (st\<lparr> l_win := w \<rparr>)
           else st\<lparr> l_win := w \<rparr>)
        else st)"

definition diag_engine_ingest ::
    "(nat \<Rightarrow> u64) \<Rightarrow> diag_event \<Rightarrow> engine \<Rightarrow> engine \<times> finding list" where
  "diag_engine_ingest clk evt e =
     (case win_get (g_devs e) (diag_event_key evt) True of
        (None, devs) \<Rightarrow> (e, [])
      | (Some i, devs) \<Rightarrow>
          let w = win_track evt (win_note evt (devs i));
              st = fold (ingest_rule clk evt (g_rules e)) [0..<length (g_rules e)]
                     \<lparr> l_win = w, l_fire_count = g_fire_count e, l_total = g_total_fired e, l_out = [] \<rparr>
          in (e\<lparr> g_devs := devs(i := l_win st), g_fire_count := l_fire_count st,
                 g_total_fired := l_total st \<rparr>, l_out st))"

section \<open>Tick\<close>

definition state_bit :: "int \<Rightarrow> u16" where
  "state_bit s = push_bit (nat s) 1"

definition tick_rule :: "u64 \<Rightarrow> diag_rule list \<Rightarrow> nat \<Rightarrow> rule_st \<Rightarrow> rule_st" where
  "tick_rule now rules ri st =
     (let r = rules ! ri; w = l_win st in
      if r_type r \<noteq> RULE_DEADLINE then st
      else if r_dl_reached_state r < 0 \<or> r_dl_reached_state r > 8 then st
      else if w_seen_states w AND state_bit (r_dl_reached_state r) = 0 then st
      else if r_dl_without_state r \<ge> 0 \<and> r_dl_without_state r \<le> 8
              \<and> w_seen_states w AND state_bit (r_dl_without_state r) \<noteq> 0 then st
      else if now - w_state_ts w (nat (r_dl_reached_state r)) < ms_to_ns (r_dl_timeout_ms r) then st
      else if w_dl_fired w ri \<noteq> 0 then st
      else emit ri r now 0 (r_dl_timeout_ms r) None []
             (st\<lparr> l_win := w\<lparr> w_dl_fired := (w_dl_fired w)(ri := 1) \<rparr> \<rparr>))"

definition tick_dev :: "u64 \<Rightarrow> nat \<Rightarrow> engine \<times> finding list \<Rightarrow> engine \<times> finding list" where
  "tick_dev now i eo =
     (let (e, out) = eo; w = g_devs e i in
      if \<not> w_used w then (e, out)
      else
        let st = fold (tick_rule now (g_rules e)) [0..<length (g_rules e)]
                   \<lparr> l_win = w, l_fire_count = g_fire_count e, l_total = g_total_fired e, l_out = out \<rparr>;
            w1 = l_win st;
            w2 = (if now - w_last_seen_ns w1 > RETENTION_NS then w1\<lparr> w_used := False \<rparr> else w1)
        in (e\<lparr> g_devs := (g_devs e)(i := w2), g_fire_count := l_fire_count st,
               g_total_fired := l_total st \<rparr>, l_out st))"

definition diag_engine_tick :: "u64 \<Rightarrow> engine \<Rightarrow> engine \<times> finding list" where
  "diag_engine_tick now e = fold (tick_dev now) [0..<WIN_MAX_DEVS] (e, [])"

section \<open>Construction and summary\<close>

definition diag_engine_create :: "diag_rule list \<Rightarrow> engine" where
  "diag_engine_create rules =
     \<lparr> g_rules = rules, g_devs = (\<lambda>_. zero_devwin), g_fire_count = (\<lambda>_. 0), g_total_fired = 0 \<rparr>"

text \<open>The rows of the summary: JSON lists every rule, the text form only the rules that fired.\<close>

datatype summary = NoFindings | Summary u64 "(string option \<times> u64) list"

definition diag_engine_report :: "bool \<Rightarrow> engine \<Rightarrow> summary" where
  "diag_engine_report json e =
     (let rows = map (\<lambda>i. (r_id (g_rules e ! i), g_fire_count e i)) [0..<length (g_rules e)] in
      if json then Summary (g_total_fired e) rows
      else if g_total_fired e = 0 then NoFindings
      else Summary (g_total_fired e) (filter (\<lambda>(_, n). n \<noteq> 0) rows))"

end
