(* ===== verification/Diag_Engine_Facts.thy ===== *)
theory Diag_Engine_Facts
  imports Diag_Engine
begin

text \<open>
  Facts about the rule engine that its properties rest on: when a rule fires and what it reports
  (closed forms of the two loops over the rules), what \<open>win_get\<close> returns, and the invariant every
  operation keeps.
\<close>

section \<open>When an event rule fires\<close>

definition cond_need :: "diag_cond \<Rightarrow> int" where
  "cond_need c = (if c_has_count_gte c then c_count_gte c else 1)"

definition whens_hold :: "diag_cond list \<Rightarrow> u64 \<Rightarrow> diag_event list \<Rightarrow> bool" where
  "whens_hold cs ref_ns evs \<longleftrightarrow> (\<forall>c \<in> set cs. cond_need c \<le> cond_value c ref_ns evs)"

definition whens_count :: "diag_cond list \<Rightarrow> u64 \<Rightarrow> diag_event list \<Rightarrow> int" where
  "whens_count cs ref_ns evs = fold (\<lambda>c m. max (cond_value c ref_ns evs) m) cs 0"

definition whens_window :: "diag_cond list \<Rightarrow> int" where
  "whens_window cs = fold (\<lambda>c m. if c_has_within_ms c then max (c_within_ms c) m else m) cs 0"

definition whens_evidence :: "diag_cond list \<Rightarrow> u64 \<Rightarrow> diag_event list \<Rightarrow> diag_event list" where
  "whens_evidence cs ref_ns evs = fold (\<lambda>c ev. cond_evidence c ref_ns evs ev) cs []"

lemma eval_whens_spec:
  assumes "length ev \<le> MAX_EVIDENCE"
  shows "fst (eval_whens w ref_ns cs ev count window_ms) \<longleftrightarrow> whens_hold cs ref_ns (win_log w)"
    and "whens_hold cs ref_ns (win_log w) \<Longrightarrow>
      snd (eval_whens w ref_ns cs ev count window_ms) =
        (fold (\<lambda>c ev. cond_evidence c ref_ns (win_log w) ev) cs ev,
         fold (\<lambda>c m. max (cond_value c ref_ns (win_log w)) m) cs count,
         fold (\<lambda>c m. if c_has_within_ms c then max (c_within_ms c) m else m) cs window_ms)"
  using assms
proof (induction cs arbitrary: ev count window_ms)
  case (Cons c cs)
  {
    case 1
    then show ?case using Cons.IH(1)
      by (simp add: eval_when_spec cond_need_def[symmetric] whens_hold_def cond_evidence_bound not_less)
  next
    case 2
    then show ?case using Cons.IH(2)
      by (simp add: eval_when_spec cond_need_def[symmetric] whens_hold_def cond_evidence_bound not_less
          if_greater_max conj_commute split: if_splits)
  }
qed (simp_all add: whens_hold_def)

definition rule_fires ::
    "(nat \<Rightarrow> u64) \<Rightarrow> diag_event \<Rightarrow> diag_rule \<Rightarrow> nat \<Rightarrow> devwin \<Rightarrow> bool" where
  "rule_fires clk evt r ri w \<longleftrightarrow>
     r_type r = RULE_EVENT \<and> trigger_match (r_trigger r) evt
     \<and> whens_hold (r_when r) (ev_ts_ns evt) (win_log w)
     \<and> (w_last_fire_ns w ri = 0 \<or> COOLDOWN_NS \<le> clk ri - w_last_fire_ns w ri)"

definition rule_finding :: "diag_event \<Rightarrow> diag_rule \<Rightarrow> nat \<Rightarrow> devwin \<Rightarrow> finding" where
  "rule_finding evt r ri w =
     print_finding ri r w (ev_ts_ns evt)
       (whens_count (r_when r) (ev_ts_ns evt) (win_log w)) (whens_window (r_when r))
       (Some (bytes_cstr (ev_comm evt)))
       (whens_evidence (r_when r) (ev_ts_ns evt) (win_log w))"

lemma expand_val_last_fire [simp]:
  "expand_val (w\<lparr> w_last_fire_ns := f \<rparr>) = expand_val w" "expand_val (w\<lparr> w_dl_fired := g \<rparr>) = expand_val w"
  by (simp_all add: expand_val_def fun_eq_iff)

lemma win_log_last_fire [simp]:
  "win_log (w\<lparr> w_last_fire_ns := f \<rparr>) = win_log w" "win_log (w\<lparr> w_dl_fired := g \<rparr>) = win_log w"
  by (rule win_log_cong; simp)+

lemma print_finding_last_fire [simp]:
  "print_finding ri r (w\<lparr> w_last_fire_ns := f \<rparr>) = print_finding ri r w"
  "print_finding ri r (w\<lparr> w_dl_fired := g \<rparr>) = print_finding ri r w"
  by (simp_all add: print_finding_def expand_def fun_eq_iff)

lemma rule_finding_last_fire [simp]:
  "rule_finding evt r ri (w\<lparr> w_last_fire_ns := f \<rparr>) = rule_finding evt r ri w"
  by (simp add: rule_finding_def)

lemma ingest_rule_spec:
  "ingest_rule clk evt rules ri st =
     (if rule_fires clk evt (rules ! ri) ri (l_win st)
      then st\<lparr> l_win := (l_win st)\<lparr> w_last_fire_ns := (w_last_fire_ns (l_win st))(ri := clk ri) \<rparr>,
               l_fire_count := (l_fire_count st)(ri := l_fire_count st ri + 1),
               l_total := l_total st + 1,
               l_out := l_out st @ [rule_finding evt (rules ! ri) ri (l_win st)] \<rparr>
      else st)"
proof -
  let ?r = "rules ! ri" and ?w = "l_win st"
  obtain ok ev count window_ms
    where ew: "eval_whens ?w (ev_ts_ns evt) (r_when ?r) [] 0 0 = (ok, ev, count, window_ms)"
    by (cases "eval_whens ?w (ev_ts_ns evt) (r_when ?r) [] 0 0")
  have ok: "ok \<longleftrightarrow> whens_hold (r_when ?r) (ev_ts_ns evt) (win_log ?w)"
    using eval_whens_spec(1)[where ev = "[]" and w = ?w and ref_ns = "ev_ts_ns evt"
        and cs = "r_when ?r" and count = 0 and window_ms = 0] ew by simp
  have vals: "ev = whens_evidence (r_when ?r) (ev_ts_ns evt) (win_log ?w)"
    "count = whens_count (r_when ?r) (ev_ts_ns evt) (win_log ?w)"
    "window_ms = whens_window (r_when ?r)" if ok
    using eval_whens_spec(2)[where ev = "[]" and w = ?w and ref_ns = "ev_ts_ns evt"
        and cs = "r_when ?r" and count = 0 and window_ms = 0] ew ok that
    by (simp_all add: whens_evidence_def whens_count_def whens_window_def)
  show ?thesis
    using ok vals
    by (simp add: ingest_rule_def ew rule_fires_def cooldown_ok_def emit_def rule_finding_def Let_def
        not_le[symmetric])
qed

definition rule_outputs :: "(nat \<Rightarrow> u64) \<Rightarrow> diag_event \<Rightarrow> diag_rule list \<Rightarrow> devwin \<Rightarrow> nat \<Rightarrow> finding list" where
  "rule_outputs clk evt rules w ri =
     (if rule_fires clk evt (rules ! ri) ri w then [rule_finding evt (rules ! ri) ri w] else [])"

lemma rule_fires_other:
  "j \<noteq> ri \<Longrightarrow> rule_fires clk evt r ri (w\<lparr> w_last_fire_ns := (w_last_fire_ns w)(j := t) \<rparr>)
     = rule_fires clk evt r ri w"
  by (simp add: rule_fires_def)

lemma fold_ingest_rules_all:
  "distinct ris \<Longrightarrow>
   l_out (fold (ingest_rule clk evt rules) ris st)
     = l_out st @ concat (map (rule_outputs clk evt rules (l_win st)) ris)
   \<and> l_win (fold (ingest_rule clk evt rules) ris st)
     = (l_win st)\<lparr> w_last_fire_ns := (\<lambda>i. if i \<in> set ris \<and> rule_fires clk evt (rules ! i) i (l_win st)
                                       then clk i else w_last_fire_ns (l_win st) i) \<rparr>
   \<and> l_fire_count (fold (ingest_rule clk evt rules) ris st)
     = (\<lambda>i. l_fire_count st i + (if i \<in> set ris \<and> rule_fires clk evt (rules ! i) i (l_win st)
                                  then 1 else 0))
   \<and> l_total (fold (ingest_rule clk evt rules) ris st)
     = l_total st + of_nat (length (filter (\<lambda>i. rule_fires clk evt (rules ! i) i (l_win st)) ris))"
proof (induction ris arbitrary: st)
  case (Cons ri ris)
  let ?st = "ingest_rule clk evt rules ri st"
  have w: "l_win ?st = (if rule_fires clk evt (rules ! ri) ri (l_win st)
      then (l_win st)\<lparr> w_last_fire_ns := (w_last_fire_ns (l_win st))(ri := clk ri) \<rparr> else l_win st)"
    by (simp add: ingest_rule_spec)
  have other: "rule_fires clk evt (rules ! i) i (l_win ?st) = rule_fires clk evt (rules ! i) i (l_win st)"
    if "i \<in> set ris" for i
  proof -
    have "ri \<noteq> i" using that Cons.prems by auto
    then show ?thesis by (simp add: w rule_fires_other)
  qed
  have outs: "map (rule_outputs clk evt rules (l_win ?st)) ris
      = map (rule_outputs clk evt rules (l_win st)) ris"
    using other by (auto simp: rule_outputs_def w)
  have filt: "filter (\<lambda>i. rule_fires clk evt (rules ! i) i (l_win ?st)) ris
      = filter (\<lambda>i. rule_fires clk evt (rules ! i) i (l_win st)) ris"
    using other by (auto cong: filter_cong)
  have lf: "(\<lambda>i. if i \<in> set ris \<and> rule_fires clk evt (rules ! i) i (l_win ?st)
                  then clk i else w_last_fire_ns (l_win ?st) i)
      = (\<lambda>i. if i \<in> set (ri # ris) \<and> rule_fires clk evt (rules ! i) i (l_win st)
             then clk i else w_last_fire_ns (l_win st) i)"
    using other Cons.prems by (auto simp: fun_eq_iff w)
  have IH: "distinct ris" using Cons.prems by simp
  note IH = Cons.IH[OF IH, of ?st]
  have out1: "l_out (fold (ingest_rule clk evt rules) ris ?st)
      = l_out ?st @ concat (map (rule_outputs clk evt rules (l_win st)) ris)"
    using IH[THEN conjunct1] unfolding outs .
  have out2: "l_out ?st = l_out st @ rule_outputs clk evt rules (l_win st) ri"
    by (simp add: ingest_rule_spec rule_outputs_def)
  show ?case
  proof (intro conjI)
    show "l_out (fold (ingest_rule clk evt rules) (ri # ris) st)
        = l_out st @ concat (map (rule_outputs clk evt rules (l_win st)) (ri # ris))"
      using out1 out2 by simp
    show "l_win (fold (ingest_rule clk evt rules) (ri # ris) st)
        = (l_win st)\<lparr> w_last_fire_ns := (\<lambda>i. if i \<in> set (ri # ris) \<and> rule_fires clk evt (rules ! i) i (l_win st)
                                       then clk i else w_last_fire_ns (l_win st) i) \<rparr>"
      using IH lf w by simp
    show "l_fire_count (fold (ingest_rule clk evt rules) (ri # ris) st)
        = (\<lambda>i. l_fire_count st i + (if i \<in> set (ri # ris) \<and> rule_fires clk evt (rules ! i) i (l_win st)
                                  then 1 else 0))"
      using IH other Cons.prems by (auto simp: fun_eq_iff ingest_rule_spec[of _ _ _ ri])
    show "l_total (fold (ingest_rule clk evt rules) (ri # ris) st)
        = l_total st + of_nat (length (filter (\<lambda>i. rule_fires clk evt (rules ! i) i (l_win st)) (ri # ris)))"
      using IH filt by (simp add: ingest_rule_spec[of _ _ _ ri])
  qed
qed simp

lemmas fold_ingest_rules =
  fold_ingest_rules_all[THEN conjunct1]
  fold_ingest_rules_all[THEN conjunct2, THEN conjunct1]
  fold_ingest_rules_all[THEN conjunct2, THEN conjunct2, THEN conjunct1]
  fold_ingest_rules_all[THEN conjunct2, THEN conjunct2, THEN conjunct2]

section \<open>Which window \<open>win_get\<close> returns\<close>

lemma key_eq_iff [simp]: "key_eq a b \<longleftrightarrow> a = b"
  by (cases a; cases b) (auto simp: key_eq_def)

lemma win_alloc_free:
  "(\<exists>j \<in> set is. \<not> w_used (devs j)) \<Longrightarrow>
   \<exists>i \<in> set is. win_alloc devs is lru = Some i \<and> \<not> w_used (devs i)"
  by (induction "is" arbitrary: lru) auto

lemma win_alloc_full:
  "\<forall>j \<in> set is. w_used (devs j) \<Longrightarrow>
   win_alloc devs is (Some l) = Some i \<Longrightarrow>
   i \<in> insert l (set is) \<and> (\<forall>j \<in> insert l (set is). w_last_seen_ns (devs i) \<le> w_last_seen_ns (devs j))"
proof (induction "is" arbitrary: l)
  case (Cons x xs)
  show ?case
  proof (cases "w_last_seen_ns (devs x) < w_last_seen_ns (devs l)")
    case True
    then have "win_alloc devs xs (Some x) = Some i" using Cons.prems by simp
    with Cons have "i \<in> insert x (set xs)
        \<and> (\<forall>j \<in> insert x (set xs). w_last_seen_ns (devs i) \<le> w_last_seen_ns (devs j))" by simp
    with True show ?thesis by force
  next
    case False
    then have "win_alloc devs xs (Some l) = Some i" using Cons.prems by simp
    with Cons have "i \<in> insert l (set xs)
        \<and> (\<forall>j \<in> insert l (set xs). w_last_seen_ns (devs i) \<le> w_last_seen_ns (devs j))" by simp
    with False show ?thesis by force
  qed
qed simp

lemma win_alloc_Some: "is \<noteq> [] \<or> lru \<noteq> None \<Longrightarrow> \<exists>i. win_alloc devs is lru = Some i"
  by (induction "is" arbitrary: lru) (auto split: option.splits)

lemma win_alloc_table:
  "\<exists>i < WIN_MAX_DEVS. win_alloc devs [0..<WIN_MAX_DEVS] None = Some i
     \<and> ((\<exists>j < WIN_MAX_DEVS. \<not> w_used (devs j)) \<longrightarrow> \<not> w_used (devs i))
     \<and> ((\<forall>j < WIN_MAX_DEVS. w_used (devs j)) \<longrightarrow>
          (\<forall>j < WIN_MAX_DEVS. w_last_seen_ns (devs i) \<le> w_last_seen_ns (devs j)))"
proof (cases "\<exists>j < WIN_MAX_DEVS. \<not> w_used (devs j)")
  case True
  then have "\<exists>j \<in> set [0..<WIN_MAX_DEVS]. \<not> w_used (devs j)" by auto
  from win_alloc_free[OF this, of None] True show ?thesis by auto
next
  case False
  have upt: "[0..<WIN_MAX_DEVS] = 0 # [1..<WIN_MAX_DEVS]"
    by (simp add: WIN_MAX_DEVS_def upt_rec[of 0])
  obtain i where i: "win_alloc devs [1..<WIN_MAX_DEVS] (Some 0) = Some i"
    using win_alloc_Some by blast
  have "w_used (devs 0)" using False by (auto simp: WIN_MAX_DEVS_def)
  then have "win_alloc devs [0..<WIN_MAX_DEVS] None = Some i"
    using i by (simp add: upt)
  moreover have "\<forall>j \<in> set [1..<WIN_MAX_DEVS]. w_used (devs j)" using False by auto
  from win_alloc_full[OF this i] have "i \<in> set [0..<WIN_MAX_DEVS]
      \<and> (\<forall>j \<in> set [0..<WIN_MAX_DEVS]. w_last_seen_ns (devs i) \<le> w_last_seen_ns (devs j))"
    unfolding upt list.set .
  ultimately show ?thesis using False by auto
qed

definition win_uniq :: "(nat \<Rightarrow> devwin) \<Rightarrow> bool" where
  "win_uniq devs \<longleftrightarrow>
     (\<forall>i < WIN_MAX_DEVS. \<forall>j < WIN_MAX_DEVS.
        w_used (devs i) \<longrightarrow> w_used (devs j) \<longrightarrow> w_key (devs i) = w_key (devs j) \<longrightarrow> i = j)"

lemma win_find_Some:
  "win_find devs k = Some i \<Longrightarrow> i < WIN_MAX_DEVS \<and> w_used (devs i) \<and> w_key (devs i) = k"
  by (simp add: win_find_def find_upt_Some)

lemma win_find_None:
  "win_find devs k = None \<longleftrightarrow> (\<forall>i < WIN_MAX_DEVS. w_used (devs i) \<longrightarrow> w_key (devs i) \<noteq> k)"
  by (auto simp: win_find_def find_upt_None)

lemma win_find_uniq:
  assumes "win_uniq devs" "i < WIN_MAX_DEVS" "w_used (devs i)" "w_key (devs i) = k"
  shows "win_find devs k = Some i"
proof (cases "win_find devs k")
  case None
  then show ?thesis using assms by (simp add: win_find_None)
next
  case (Some j)
  then show ?thesis using assms win_find_Some[OF Some] by (auto simp: win_uniq_def)
qed

text \<open>What a creating \<open>win_get\<close> promises its caller.\<close>

lemma win_get_create:
  obtains i devs' where "win_get devs k True = (Some i, devs')" "i < WIN_MAX_DEVS"
    "w_used (devs' i)" "w_key (devs' i) = k" "\<forall>j. j \<noteq> i \<longrightarrow> devs' j = devs j"
    "devs' i = (case win_find devs k of Some _ \<Rightarrow> devs i | None \<Rightarrow> fresh_win k)"
    "\<forall>j. win_find devs k = Some j \<longrightarrow> i = j"
    "win_uniq devs \<longrightarrow> win_uniq devs'"
    "win_find devs k = None \<longrightarrow> (\<exists>j < WIN_MAX_DEVS. \<not> w_used (devs j)) \<longrightarrow> \<not> w_used (devs i)"
    "win_find devs k = None \<longrightarrow> (\<forall>j < WIN_MAX_DEVS. w_used (devs j)) \<longrightarrow>
       (\<forall>j < WIN_MAX_DEVS. w_last_seen_ns (devs i) \<le> w_last_seen_ns (devs j))"
proof (cases "win_find devs k")
  case (Some i)
  then show ?thesis using win_find_Some[OF Some]
    by (intro that[of i devs]) (auto simp: win_get_def)
next
  case None
  obtain i where i: "win_alloc devs [0..<WIN_MAX_DEVS] None = Some i" "i < WIN_MAX_DEVS"
    "(\<exists>j < WIN_MAX_DEVS. \<not> w_used (devs j)) \<longrightarrow> \<not> w_used (devs i)"
    "(\<forall>j < WIN_MAX_DEVS. w_used (devs j)) \<longrightarrow>
       (\<forall>j < WIN_MAX_DEVS. w_last_seen_ns (devs i) \<le> w_last_seen_ns (devs j))"
    using win_alloc_table[of devs] by auto
  have "win_uniq devs \<Longrightarrow> win_uniq (devs(i := fresh_win k))"
    using None by (auto simp: win_uniq_def win_find_None fresh_win_def)
  with None i show ?thesis
    by (intro that[of i "devs(i := fresh_win k)"]) (auto simp: win_get_def fresh_win_def)
qed

end
