(* ===== verification/Diag_Tick.thy ===== *)
theory Diag_Tick
  imports Diag_Engine_Facts
begin

text \<open>
  Closed forms of the engine's two entry points: what \<open>diag_engine_ingest\<close> does to the one window it
  touches and what it prints, and what \<open>diag_engine_tick\<close> does to every window and prints.
\<close>

section \<open>Ingest\<close>

definition ingest_win :: "diag_event \<Rightarrow> devwin \<Rightarrow> devwin" where
  "ingest_win evt w = win_track evt (win_note evt w)"

definition fired_win :: "(nat \<Rightarrow> u64) \<Rightarrow> diag_event \<Rightarrow> diag_rule list \<Rightarrow> devwin \<Rightarrow> devwin" where
  "fired_win clk evt rules w =
     w\<lparr> w_last_fire_ns := (\<lambda>i. if i < length rules \<and> rule_fires clk evt (rules ! i) i w
                               then clk i else w_last_fire_ns w i) \<rparr>"

definition ingest_out :: "(nat \<Rightarrow> u64) \<Rightarrow> diag_event \<Rightarrow> diag_rule list \<Rightarrow> devwin \<Rightarrow> finding list" where
  "ingest_out clk evt rules w = concat (map (rule_outputs clk evt rules w) [0..<length rules])"

definition n_fired :: "(nat \<Rightarrow> u64) \<Rightarrow> diag_event \<Rightarrow> diag_rule list \<Rightarrow> devwin \<Rightarrow> nat \<Rightarrow> nat" where
  "n_fired clk evt rules w i = (if i < length rules \<and> rule_fires clk evt (rules ! i) i w then 1 else 0)"

lemma length_filter_sum: "length (filter P xs) = (\<Sum>x\<leftarrow>xs. if P x then 1 else 0)"
  by (induction xs) auto

lemma ingest_closed:
  assumes "win_get (g_devs e) (diag_event_key evt) True = (Some i, devs)"
  shows "diag_engine_ingest clk evt e =
    (let w = ingest_win evt (devs i) in
     (e\<lparr> g_devs := devs(i := fired_win clk evt (g_rules e) w),
         g_fire_count := (\<lambda>r. g_fire_count e r + of_nat (n_fired clk evt (g_rules e) w r)),
         g_total_fired := g_total_fired e
           + of_nat (\<Sum>r\<leftarrow>[0..<length (g_rules e)]. n_fired clk evt (g_rules e) w r) \<rparr>,
      ingest_out clk evt (g_rules e) w))"
proof -
  let ?w = "ingest_win evt (devs i)"
  let ?rs = "[0..<length (g_rules e)]"
  have total: "length (filter (\<lambda>i. rule_fires clk evt (g_rules e ! i) i ?w) ?rs)
      = (\<Sum>r\<leftarrow>?rs. n_fired clk evt (g_rules e) ?w r)"
    unfolding length_filter_sum by (rule arg_cong[of _ _ sum_list]) (auto simp: n_fired_def)
  have fc: "(\<lambda>i. g_fire_count e i + (if i \<in> set ?rs \<and> rule_fires clk evt (g_rules e ! i) i ?w
                                  then 1 else 0))
      = (\<lambda>r. g_fire_count e r + of_nat (n_fired clk evt (g_rules e) ?w r))"
    by (auto simp: n_fired_def fun_eq_iff)
  define s where "s = \<lparr> l_win = ?w, l_fire_count = g_fire_count e, l_total = g_total_fired e, l_out = [] \<rparr>"
  have sel: "l_win s = ?w" "l_fire_count s = g_fire_count e" "l_total s = g_total_fired e" "l_out s = []"
    by (simp_all add: s_def)
  show ?thesis
    unfolding diag_engine_ingest_def assms prod.case option.case Let_def ingest_win_def[symmetric]
      s_def[symmetric] fold_ingest_rules[OF distinct_upt] sel fc total
    by (simp add: ingest_out_def fired_win_def)
qed

lemma ingest_elim:
  obtains i devs where
    "win_get (g_devs e) (diag_event_key evt) True = (Some i, devs)" "i < WIN_MAX_DEVS"
    "w_used (devs i)" "w_key (devs i) = diag_event_key evt" "\<forall>j. j \<noteq> i \<longrightarrow> devs j = g_devs e j"
    "devs i = (case win_find (g_devs e) (diag_event_key evt) of
                 Some _ \<Rightarrow> g_devs e i | None \<Rightarrow> fresh_win (diag_event_key evt))"
    "win_uniq (g_devs e) \<longrightarrow> win_uniq devs"
    "diag_engine_ingest clk evt e =
      (let w = ingest_win evt (devs i) in
       (e\<lparr> g_devs := devs(i := fired_win clk evt (g_rules e) w),
           g_fire_count := (\<lambda>r. g_fire_count e r + of_nat (n_fired clk evt (g_rules e) w r)),
           g_total_fired := g_total_fired e
             + of_nat (\<Sum>r\<leftarrow>[0..<length (g_rules e)]. n_fired clk evt (g_rules e) w r) \<rparr>,
        ingest_out clk evt (g_rules e) w))"
  by (rule win_get_create[of "g_devs e" "diag_event_key evt"]) (blast intro: ingest_closed)

lemma fired_win_sel [simp]:
  "w_used (fired_win clk evt rules w) = w_used w" "w_key (fired_win clk evt rules w) = w_key w"
  "w_vid (fired_win clk evt rules w) = w_vid w" "w_pid (fired_win clk evt rules w) = w_pid w"
  "w_last_seen_ns (fired_win clk evt rules w) = w_last_seen_ns w"
  "w_head (fired_win clk evt rules w) = w_head w" "w_count (fired_win clk evt rules w) = w_count w"
  "w_seen_states (fired_win clk evt rules w) = w_seen_states w"
  "w_state_ts (fired_win clk evt rules w) = w_state_ts w"
  "w_dl_fired (fired_win clk evt rules w) = w_dl_fired w"
  "win_log (fired_win clk evt rules w) = win_log w"
  by (simp_all add: fired_win_def)

lemma win_log_state [simp]:
  "win_log (w\<lparr> w_seen_states := s \<rparr>) = win_log w" "win_log (w\<lparr> w_state_ts := t \<rparr>) = win_log w"
  "win_log (w\<lparr> w_vid := v \<rparr>) = win_log w" "win_log (w\<lparr> w_pid := v \<rparr>) = win_log w"
  "win_log (w\<lparr> w_last_seen_ns := n \<rparr>) = win_log w" "win_log (w\<lparr> w_used := u \<rparr>) = win_log w"
  by (rule win_log_cong; simp)+

lemma dev_reset_enum_sel [simp]:
  "w_used (dev_reset_enum w) = w_used w" "w_key (dev_reset_enum w) = w_key w"
  "w_head (dev_reset_enum w) = w_head w" "w_count (dev_reset_enum w) = w_count w"
  "w_last_seen_ns (dev_reset_enum w) = w_last_seen_ns w"
  "w_last_fire_ns (dev_reset_enum w) = w_last_fire_ns w"
  "w_seen_states (dev_reset_enum w) = 0" "w_dl_fired (dev_reset_enum w) = (\<lambda>_. 0)"
  "w_state_ts (dev_reset_enum w) = (\<lambda>_. 0)" "win_log (dev_reset_enum w) = win_log w"
  by (simp_all add: dev_reset_enum_def)

lemma win_track_sel [simp]:
  "w_used (win_track evt w) = w_used w" "w_key (win_track evt w) = w_key w"
  "w_head (win_track evt w) = w_head w" "w_count (win_track evt w) = w_count w"
  "w_last_seen_ns (win_track evt w) = w_last_seen_ns w"
  "w_last_fire_ns (win_track evt w) = w_last_fire_ns w"
  "win_log (win_track evt w) = win_log w"
  by (simp_all add: win_track_def Let_def)

lemma win_push_sel [simp]:
  "w_used (win_push w e) = w_used w" "w_key (win_push w e) = w_key w"
  "w_last_seen_ns (win_push w e) = w_last_seen_ns w" "w_last_fire_ns (win_push w e) = w_last_fire_ns w"
  "w_dl_fired (win_push w e) = w_dl_fired w" "w_seen_states (win_push w e) = w_seen_states w"
  "w_state_ts (win_push w e) = w_state_ts w" "w_vid (win_push w e) = w_vid w"
  "w_pid (win_push w e) = w_pid w"
  by (simp_all add: win_push_def)

lemma win_note_sel [simp]:
  "w_used (win_note evt w) = w_used w" "w_key (win_note evt w) = w_key w"
  "w_last_seen_ns (win_note evt w) = ev_ts_ns evt"
  "w_last_fire_ns (win_note evt w) = w_last_fire_ns w"
  "w_dl_fired (win_note evt w) = w_dl_fired w" "w_seen_states (win_note evt w) = w_seen_states w"
  "w_state_ts (win_note evt w) = w_state_ts w"
  by (simp_all add: win_note_def Let_def)

lemma win_note_ok: "win_ok w \<Longrightarrow> win_ok (win_note evt w)"
  unfolding win_note_def Let_def
  by (rule dw.winv_push) (simp add: win_ok_def)

lemma win_note_log:
  assumes "win_ok w"
  shows "win_log (win_note evt w) = take WIN_MAX_EVENTS (evt # win_log w)"
  unfolding win_note_def Let_def
  by (subst dw.log_push) (use assms in \<open>simp_all add: win_ok_def\<close>)

lemma ingest_win_sel [simp]:
  "w_used (ingest_win evt w) = w_used w" "w_key (ingest_win evt w) = w_key w"
  "w_last_seen_ns (ingest_win evt w) = ev_ts_ns evt"
  "w_last_fire_ns (ingest_win evt w) = w_last_fire_ns w"
  by (simp_all add: ingest_win_def)

lemma ingest_win_ok: "win_ok w \<Longrightarrow> win_ok (ingest_win evt w)"
  using win_note_ok[of w evt] by (simp add: ingest_win_def win_ok_def)

lemma ingest_win_log: "win_ok w \<Longrightarrow> win_log (ingest_win evt w) = take WIN_MAX_EVENTS (evt # win_log w)"
  by (simp add: ingest_win_def win_note_log)

section \<open>Tick\<close>

text \<open>When a deadline rule reports a device: the reached state was seen, the awaited one was not, the
  time since is up, and the rule has not reported this episode.\<close>

definition dl_fires :: "u64 \<Rightarrow> diag_rule \<Rightarrow> nat \<Rightarrow> devwin \<Rightarrow> bool" where
  "dl_fires now r ri w \<longleftrightarrow>
     r_type r = RULE_DEADLINE \<and> 0 \<le> r_dl_reached_state r \<and> r_dl_reached_state r \<le> 8
     \<and> bit (w_seen_states w) (nat (r_dl_reached_state r))
     \<and> \<not> (0 \<le> r_dl_without_state r \<and> r_dl_without_state r \<le> 8
           \<and> bit (w_seen_states w) (nat (r_dl_without_state r)))
     \<and> ms_to_ns (r_dl_timeout_ms r) \<le> now - w_state_ts w (nat (r_dl_reached_state r))
     \<and> w_dl_fired w ri = 0"

definition dl_finding :: "u64 \<Rightarrow> diag_rule \<Rightarrow> nat \<Rightarrow> devwin \<Rightarrow> finding" where
  "dl_finding now r ri w = print_finding ri r w now 0 (r_dl_timeout_ms r) None []"

lemma state_bit_test: "w AND state_bit s = 0 \<longleftrightarrow> \<not> bit w (nat s)"
proof -
  have "w AND push_bit n 1 = 0 \<longleftrightarrow> \<not> bit w n" for n
    unfolding push_bit_of_1 by (rule and_exp_eq_0_iff_not_bit)
  then show ?thesis by (simp add: state_bit_def)
qed

lemma dl_finding_window:
  "print_finding ri r (w\<lparr> w_dl_fired := f \<rparr>) now 0 (r_dl_timeout_ms r) None [] = dl_finding now r ri w"
  by (simp add: dl_finding_def)

lemma tick_rule_spec:
  "tick_rule now rules ri st =
     (if dl_fires now (rules ! ri) ri (l_win st)
      then st\<lparr> l_win := (l_win st)\<lparr> w_dl_fired := (w_dl_fired (l_win st))(ri := 1) \<rparr>,
               l_fire_count := (l_fire_count st)(ri := l_fire_count st ri + 1),
               l_total := l_total st + 1,
               l_out := l_out st @ [dl_finding now (rules ! ri) ri (l_win st)] \<rparr>
      else st)"
proof -
  let ?r = "rules ! ri" and ?w = "l_win st"
  have "dl_fires now ?r ri ?w \<longleftrightarrow> \<not> (r_type ?r \<noteq> RULE_DEADLINE)
      \<and> \<not> (r_dl_reached_state ?r < 0 \<or> r_dl_reached_state ?r > 8)
      \<and> \<not> (w_seen_states ?w AND state_bit (r_dl_reached_state ?r) = 0)
      \<and> \<not> (r_dl_without_state ?r \<ge> 0 \<and> r_dl_without_state ?r \<le> 8
           \<and> w_seen_states ?w AND state_bit (r_dl_without_state ?r) \<noteq> 0)
      \<and> \<not> (now - w_state_ts ?w (nat (r_dl_reached_state ?r)) < ms_to_ns (r_dl_timeout_ms ?r))
      \<and> \<not> (w_dl_fired ?w ri \<noteq> 0)"
    by (simp only: dl_fires_def state_bit_test not_less de_Morgan_disj not_not conj_assoc)
  then show ?thesis
    by (simp add: tick_rule_def Let_def emit_def dl_finding_def dl_finding_window)
qed

lemma dl_fires_other:
  "j \<noteq> ri \<Longrightarrow> dl_fires now r ri (w\<lparr> w_dl_fired := (w_dl_fired w)(j := t) \<rparr>) = dl_fires now r ri w"
  by (simp add: dl_fires_def)

lemma dl_finding_latch [simp]: "dl_finding now r ri (w\<lparr> w_dl_fired := f \<rparr>) = dl_finding now r ri w"
  by (simp add: dl_finding_def)

definition dl_outputs :: "u64 \<Rightarrow> diag_rule list \<Rightarrow> devwin \<Rightarrow> nat \<Rightarrow> finding list" where
  "dl_outputs now rules w ri =
     (if dl_fires now (rules ! ri) ri w then [dl_finding now (rules ! ri) ri w] else [])"

lemma fold_tick_rules_all:
  "distinct ris \<Longrightarrow>
   l_out (fold (tick_rule now rules) ris st)
     = l_out st @ concat (map (dl_outputs now rules (l_win st)) ris)
   \<and> l_win (fold (tick_rule now rules) ris st)
     = (l_win st)\<lparr> w_dl_fired := (\<lambda>i. if i \<in> set ris \<and> dl_fires now (rules ! i) i (l_win st)
                                       then 1 else w_dl_fired (l_win st) i) \<rparr>
   \<and> l_fire_count (fold (tick_rule now rules) ris st)
     = (\<lambda>i. l_fire_count st i + (if i \<in> set ris \<and> dl_fires now (rules ! i) i (l_win st) then 1 else 0))
   \<and> l_total (fold (tick_rule now rules) ris st)
     = l_total st + of_nat (length (filter (\<lambda>i. dl_fires now (rules ! i) i (l_win st)) ris))"
proof (induction ris arbitrary: st)
  case (Cons ri ris)
  let ?st = "tick_rule now rules ri st"
  have w: "l_win ?st = (if dl_fires now (rules ! ri) ri (l_win st)
      then (l_win st)\<lparr> w_dl_fired := (w_dl_fired (l_win st))(ri := 1) \<rparr> else l_win st)"
    by (simp add: tick_rule_spec)
  have other: "dl_fires now (rules ! i) i (l_win ?st) = dl_fires now (rules ! i) i (l_win st)"
    if "i \<in> set ris" for i
  proof -
    have "ri \<noteq> i" using that Cons.prems by auto
    then show ?thesis by (simp add: w dl_fires_other)
  qed
  have outs: "map (dl_outputs now rules (l_win ?st)) ris = map (dl_outputs now rules (l_win st)) ris"
    using other by (auto simp: dl_outputs_def w)
  have filt: "filter (\<lambda>i. dl_fires now (rules ! i) i (l_win ?st)) ris
      = filter (\<lambda>i. dl_fires now (rules ! i) i (l_win st)) ris"
    using other by (auto cong: filter_cong)
  have lf: "(\<lambda>i. if i \<in> set ris \<and> dl_fires now (rules ! i) i (l_win ?st)
                  then 1 else w_dl_fired (l_win ?st) i)
      = (\<lambda>i. if i \<in> set (ri # ris) \<and> dl_fires now (rules ! i) i (l_win st)
             then 1 else w_dl_fired (l_win st) i)"
    using other Cons.prems by (auto simp: fun_eq_iff w)
  have "distinct ris" using Cons.prems by simp
  note IH = Cons.IH[OF this, of ?st]
  have out1: "l_out (fold (tick_rule now rules) ris ?st)
      = l_out ?st @ concat (map (dl_outputs now rules (l_win st)) ris)"
    using IH[THEN conjunct1] unfolding outs .
  have out2: "l_out ?st = l_out st @ dl_outputs now rules (l_win st) ri"
    by (simp add: tick_rule_spec dl_outputs_def)
  show ?case
  proof (intro conjI)
    show "l_out (fold (tick_rule now rules) (ri # ris) st)
        = l_out st @ concat (map (dl_outputs now rules (l_win st)) (ri # ris))"
      using out1 out2 by simp
    show "l_win (fold (tick_rule now rules) (ri # ris) st)
        = (l_win st)\<lparr> w_dl_fired := (\<lambda>i. if i \<in> set (ri # ris) \<and> dl_fires now (rules ! i) i (l_win st)
                                       then 1 else w_dl_fired (l_win st) i) \<rparr>"
      using IH lf w by simp
    show "l_fire_count (fold (tick_rule now rules) (ri # ris) st)
        = (\<lambda>i. l_fire_count st i + (if i \<in> set (ri # ris) \<and> dl_fires now (rules ! i) i (l_win st)
                                  then 1 else 0))"
      using IH other Cons.prems by (auto simp: fun_eq_iff tick_rule_spec[of _ _ ri])
    show "l_total (fold (tick_rule now rules) (ri # ris) st)
        = l_total st + of_nat (length (filter (\<lambda>i. dl_fires now (rules ! i) i (l_win st)) (ri # ris)))"
      using IH filt by (simp add: tick_rule_spec[of _ _ ri])
  qed
qed simp

lemmas fold_tick_rules =
  fold_tick_rules_all[THEN conjunct1]
  fold_tick_rules_all[THEN conjunct2, THEN conjunct1]
  fold_tick_rules_all[THEN conjunct2, THEN conjunct2, THEN conjunct1]
  fold_tick_rules_all[THEN conjunct2, THEN conjunct2, THEN conjunct2]

text \<open>One device of the tick: the latched window, evicted when idle; what it prints; the tallies.\<close>

definition latched_win :: "u64 \<Rightarrow> diag_rule list \<Rightarrow> devwin \<Rightarrow> devwin" where
  "latched_win now rules w =
     w\<lparr> w_dl_fired := (\<lambda>i. if i < length rules \<and> dl_fires now (rules ! i) i w then 1 else w_dl_fired w i) \<rparr>"

definition ticked_win :: "u64 \<Rightarrow> diag_rule list \<Rightarrow> devwin \<Rightarrow> devwin" where
  "ticked_win now rules w =
     (if \<not> w_used w then w
      else if now - w_last_seen_ns w > RETENTION_NS then (latched_win now rules w)\<lparr> w_used := False \<rparr>
      else latched_win now rules w)"

definition ticked_out :: "u64 \<Rightarrow> diag_rule list \<Rightarrow> devwin \<Rightarrow> finding list" where
  "ticked_out now rules w =
     (if \<not> w_used w then [] else concat (map (dl_outputs now rules w) [0..<length rules]))"

definition n_latched :: "u64 \<Rightarrow> diag_rule list \<Rightarrow> devwin \<Rightarrow> nat \<Rightarrow> nat" where
  "n_latched now rules w r =
     (if w_used w \<and> r < length rules \<and> dl_fires now (rules ! r) r w then 1 else 0)"

lemma tick_dev_closed:
  "tick_dev now i (e, out) =
     (e\<lparr> g_devs := (g_devs e)(i := ticked_win now (g_rules e) (g_devs e i)),
         g_fire_count := (\<lambda>r. g_fire_count e r + of_nat (n_latched now (g_rules e) (g_devs e i) r)),
         g_total_fired := g_total_fired e
           + of_nat (\<Sum>r\<leftarrow>[0..<length (g_rules e)]. n_latched now (g_rules e) (g_devs e i) r) \<rparr>,
      out @ ticked_out now (g_rules e) (g_devs e i))"
proof (cases "w_used (g_devs e i)")
  case False
  then show ?thesis
    by (simp add: tick_dev_def ticked_win_def ticked_out_def n_latched_def Let_def)
next
  case True
  let ?w = "g_devs e i"
  let ?rs = "[0..<length (g_rules e)]"
  have total: "length (filter (\<lambda>i. dl_fires now (g_rules e ! i) i ?w) ?rs)
      = (\<Sum>r\<leftarrow>?rs. n_latched now (g_rules e) ?w r)"
    unfolding length_filter_sum by (rule arg_cong[of _ _ sum_list]) (auto simp: n_latched_def True)
  have fc: "(\<lambda>i. g_fire_count e i + (if i \<in> set ?rs \<and> dl_fires now (g_rules e ! i) i ?w then 1 else 0))
      = (\<lambda>r. g_fire_count e r + of_nat (n_latched now (g_rules e) ?w r))"
    using True by (auto simp: n_latched_def fun_eq_iff)
  define s where "s = \<lparr> l_win = ?w, l_fire_count = g_fire_count e, l_total = g_total_fired e, l_out = out \<rparr>"
  have sel: "l_win s = ?w" "l_fire_count s = g_fire_count e" "l_total s = g_total_fired e" "l_out s = out"
    by (simp_all add: s_def)
  show ?thesis
    unfolding tick_dev_def prod.case Let_def s_def[symmetric] fold_tick_rules[OF distinct_upt] sel fc total
    using True by (simp add: ticked_win_def ticked_out_def latched_win_def)
qed

lemma fold_tick_dev:
  "distinct is \<Longrightarrow>
   fold (tick_dev now) is (e, out) =
     (e\<lparr> g_devs := (\<lambda>i. if i \<in> set is then ticked_win now (g_rules e) (g_devs e i) else g_devs e i),
         g_fire_count := (\<lambda>r. g_fire_count e r
           + of_nat (\<Sum>i\<leftarrow>is. n_latched now (g_rules e) (g_devs e i) r)),
         g_total_fired := g_total_fired e
           + of_nat (\<Sum>i\<leftarrow>is. \<Sum>r\<leftarrow>[0..<length (g_rules e)]. n_latched now (g_rules e) (g_devs e i) r) \<rparr>,
      out @ concat (map (\<lambda>i. ticked_out now (g_rules e) (g_devs e i)) is))"
proof (induction "is" arbitrary: e out)
  case (Cons x xs)
  let ?e = "fst (tick_dev now x (e, out))"
  have x: "x \<notin> set xs" "distinct xs" using Cons.prems by auto
  have rules: "g_rules ?e = g_rules e" by (simp add: tick_dev_closed)
  have dev: "g_devs ?e i = g_devs e i" if "i \<in> set xs" for i
    using that x by (auto simp: tick_dev_closed)
  have c1: "map (\<lambda>i. n_latched now (g_rules e) (g_devs ?e i) r) xs
      = map (\<lambda>i. n_latched now (g_rules e) (g_devs e i) r) xs" for r
    using dev by auto
  have c2: "map (\<lambda>i. \<Sum>r\<leftarrow>[0..<length (g_rules e)]. n_latched now (g_rules e) (g_devs ?e i) r) xs
      = map (\<lambda>i. \<Sum>r\<leftarrow>[0..<length (g_rules e)]. n_latched now (g_rules e) (g_devs e i) r) xs"
    using dev by (auto intro!: map_cong)
  have c3: "map (\<lambda>i. ticked_out now (g_rules e) (g_devs ?e i)) xs
      = map (\<lambda>i. ticked_out now (g_rules e) (g_devs e i)) xs"
    using dev by auto
  have c4: "(\<lambda>i. if i \<in> set xs then ticked_win now (g_rules e) (g_devs ?e i) else g_devs ?e i)
      = (\<lambda>i. if i \<in> set (x # xs) then ticked_win now (g_rules e) (g_devs e i) else g_devs e i)"
    using x by (auto simp: tick_dev_closed fun_eq_iff)
  have "fold (tick_dev now) (x # xs) (e, out)
      = fold (tick_dev now) xs (?e, snd (tick_dev now x (e, out)))" by simp
  also have "\<dots> = (?e\<lparr> g_devs := (\<lambda>i. if i \<in> set (x # xs) then ticked_win now (g_rules e) (g_devs e i) else g_devs e i),
         g_fire_count := (\<lambda>r. g_fire_count ?e r
           + of_nat (\<Sum>i\<leftarrow>xs. n_latched now (g_rules e) (g_devs e i) r)),
         g_total_fired := g_total_fired ?e
           + of_nat (\<Sum>i\<leftarrow>xs. \<Sum>r\<leftarrow>[0..<length (g_rules e)]. n_latched now (g_rules e) (g_devs e i) r) \<rparr>,
      snd (tick_dev now x (e, out)) @ concat (map (\<lambda>i. ticked_out now (g_rules e) (g_devs e i)) xs))"
    unfolding Cons.IH[OF x(2)] rules c1 c2 c3 c4 ..
  finally show ?case
    by (simp add: tick_dev_closed add.assoc fun_eq_iff)
qed simp

lemma tick_closed:
  "diag_engine_tick now e =
     (e\<lparr> g_devs := (\<lambda>i. if i < WIN_MAX_DEVS then ticked_win now (g_rules e) (g_devs e i) else g_devs e i),
         g_fire_count := (\<lambda>r. g_fire_count e r
           + of_nat (\<Sum>i\<leftarrow>[0..<WIN_MAX_DEVS]. n_latched now (g_rules e) (g_devs e i) r)),
         g_total_fired := g_total_fired e
           + of_nat (\<Sum>i\<leftarrow>[0..<WIN_MAX_DEVS]. \<Sum>r\<leftarrow>[0..<length (g_rules e)].
               n_latched now (g_rules e) (g_devs e i) r) \<rparr>,
      concat (map (\<lambda>i. ticked_out now (g_rules e) (g_devs e i)) [0..<WIN_MAX_DEVS]))"
  by (simp add: diag_engine_tick_def fold_tick_dev)

lemma ticked_win_sel [simp]:
  "w_key (ticked_win now rules w) = w_key w" "w_last_fire_ns (ticked_win now rules w) = w_last_fire_ns w"
  "w_head (ticked_win now rules w) = w_head w" "w_count (ticked_win now rules w) = w_count w"
  "w_seen_states (ticked_win now rules w) = w_seen_states w"
  "w_state_ts (ticked_win now rules w) = w_state_ts w"
  "w_last_seen_ns (ticked_win now rules w) = w_last_seen_ns w"
  "win_log (ticked_win now rules w) = win_log w"
  by (simp_all add: ticked_win_def latched_win_def)

lemma ticked_win_used:
  "w_used (ticked_win now rules w) \<longleftrightarrow> w_used w \<and> now - w_last_seen_ns w \<le> RETENTION_NS"
  by (auto simp: ticked_win_def latched_win_def)

end
