(* ===== verification/Diag_Machine.thy ===== *)
theory Diag_Machine
  imports Diag_Tick
begin

text \<open>
  The rule engine as a machine: a run is a sequence of \<open>diag_engine_ingest\<close> and \<open>diag_engine_tick\<close>
  calls. The fixed table of 128 slots is abstracted to a map from device keys to windows
  (\<open>eng_win\<close>); both operations are described on that map, the engine invariant is shown to hold
  after every run, and the event counts, the cooldown and the deadline latch are stated over runs.
\<close>

section \<open>Runs\<close>

datatype engine_op = Ingest "nat \<Rightarrow> u64" diag_event | Tick u64

fun engine_step :: "engine_op \<Rightarrow> engine \<Rightarrow> engine \<times> finding list" where
  "engine_step (Ingest clk evt) e = diag_engine_ingest clk evt e"
| "engine_step (Tick now) e = diag_engine_tick now e"

definition engine_next :: "engine_op \<Rightarrow> engine \<Rightarrow> engine" where
  "engine_next op e = fst (engine_step op e)"

fun engine_outs :: "engine_op list \<Rightarrow> engine \<Rightarrow> finding list" where
  "engine_outs [] e = []"
| "engine_outs (op # ops) e = snd (engine_step op e) @ engine_outs ops (engine_next op e)"

definition engine_run :: "engine_op list \<Rightarrow> engine \<Rightarrow> engine" where
  "engine_run ops e = fold engine_next ops e"

lemma engine_run_simps [simp]:
  "engine_run [] e = e" "engine_run (op # ops) e = engine_run ops (engine_next op e)"
  by (simp_all add: engine_run_def)

section \<open>The engine invariant\<close>

definition eng_ok :: "engine \<Rightarrow> bool" where
  "eng_ok e \<longleftrightarrow> (\<forall>i. win_ok (g_devs e i)) \<and> win_uniq (g_devs e)
     \<and> g_total_fired e = (\<Sum>r<length (g_rules e). g_fire_count e r)"

lemma eng_ok_create: "eng_ok (diag_engine_create rules)"
  by (simp add: eng_ok_def diag_engine_create_def win_uniq_def zero_devwin_def win_ok_def WIN_MAX_EVENTS_def)

lemma sum_add_of_nat:
  "(\<Sum>r<n. f r + of_nat (g r)) = (\<Sum>r<n. f r) + of_nat (\<Sum>r\<leftarrow>[0..<n]. g r)" for f :: "nat \<Rightarrow> u64"
  by (simp add: sum.distrib interv_sum_list_conv_sum_set_nat atLeast0LessThan)

lemma win_uniq_cong:
  assumes "win_uniq devs" "\<forall>i. w_key (devs' i) = w_key (devs i)" "\<forall>i. w_used (devs' i) \<longrightarrow> w_used (devs i)"
  shows "win_uniq devs'"
  using assms unfolding win_uniq_def by metis

lemma eng_ok_ingest:
  assumes "eng_ok e"
  shows "eng_ok (fst (diag_engine_ingest clk evt e))"
proof -
  obtain i devs where i: "i < WIN_MAX_DEVS" "\<forall>j. j \<noteq> i \<longrightarrow> devs j = g_devs e j"
    "devs i = (case win_find (g_devs e) (diag_event_key evt) of
                 Some _ \<Rightarrow> g_devs e i | None \<Rightarrow> fresh_win (diag_event_key evt))"
    "win_uniq (g_devs e) \<longrightarrow> win_uniq devs"
    and ing: "diag_engine_ingest clk evt e =
      (let w = ingest_win evt (devs i) in
       (e\<lparr> g_devs := devs(i := fired_win clk evt (g_rules e) w),
           g_fire_count := (\<lambda>r. g_fire_count e r + of_nat (n_fired clk evt (g_rules e) w r)),
           g_total_fired := g_total_fired e
             + of_nat (\<Sum>r\<leftarrow>[0..<length (g_rules e)]. n_fired clk evt (g_rules e) w r) \<rparr>,
        ingest_out clk evt (g_rules e) w))"
    by (rule ingest_elim[of e evt clk]) (rule that, assumption+)
  let ?w = "fired_win clk evt (g_rules e) (ingest_win evt (devs i))"
  have "win_ok (devs i)" using assms i by (auto simp: eng_ok_def split: option.splits)
  then have "win_ok ?w" using ingest_win_ok[of "devs i" evt] by (simp add: win_ok_def)
  moreover have "win_uniq (devs(i := ?w))"
    by (rule win_uniq_cong[of devs]) (use assms i in \<open>auto simp: eng_ok_def\<close>)
  ultimately show ?thesis using assms i(2)
    by (auto simp: ing Let_def eng_ok_def sum_add_of_nat)
qed

lemma sum_list_swap:
  "(\<Sum>i\<leftarrow>xs. \<Sum>r\<leftarrow>ys. f i r) = (\<Sum>r\<leftarrow>ys. \<Sum>i\<leftarrow>xs. f i r)" for f :: "'a \<Rightarrow> 'b \<Rightarrow> nat"
  by (induction xs) (simp_all add: sum_list_addf)

lemma eng_ok_tick:
  assumes "eng_ok e"
  shows "eng_ok (fst (diag_engine_tick now e))"
proof -
  have "win_uniq (\<lambda>i. if i < WIN_MAX_DEVS then ticked_win now (g_rules e) (g_devs e i) else g_devs e i)"
    by (rule win_uniq_cong[of "g_devs e"]) (use assms in \<open>auto simp: eng_ok_def ticked_win_used\<close>)
  moreover have "win_ok (ticked_win now (g_rules e) (g_devs e i))" for i
    using assms by (simp add: eng_ok_def win_ok_def)
  ultimately show ?thesis using assms
    by (simp add: eng_ok_def tick_closed sum_add_of_nat
        sum_list_swap[of _ "[0..<WIN_MAX_DEVS]" "[0..<length (g_rules e)]"])
qed

interpretation engine: step_machine engine_next eng_ok "\<lambda>_. True"
proof
  fix e op assume "eng_ok e"
  then show "eng_ok (engine_next op e)"
    by (cases op) (simp_all add: engine_next_def eng_ok_ingest eng_ok_tick)
qed

lemma eng_ok_run: "eng_ok e \<Longrightarrow> eng_ok (engine_run ops e)"
  unfolding engine_run_def by (rule engine.run_inv) (simp_all add: list_all_iff)

lemma g_rules_next [simp]: "g_rules (engine_next op e) = g_rules e"
proof (cases op)
  case (Ingest clk evt)
  show ?thesis
    by (rule ingest_elim[of e evt clk]) (simp add: engine_next_def Ingest Let_def)
qed (simp add: engine_next_def tick_closed)

lemma engine_run_append: "engine_run (xs @ ys) e = engine_run ys (engine_run xs e)"
  by (simp add: engine_run_def)

lemma engine_rules [simp]: "g_rules (engine_run ops e) = g_rules e"
  by (induction ops arbitrary: e) simp_all

lemma g_rules_create [simp]: "g_rules (diag_engine_create rules) = rules"
  by (simp add: diag_engine_create_def)

section \<open>The device table as a map\<close>

definition eng_win :: "engine \<Rightarrow> diag_devkey \<Rightarrow> devwin option" where
  "eng_win e k = map_option (g_devs e) (win_find (g_devs e) k)"

text \<open>The device whose window an event of a new device takes over, when all slots are in use.\<close>

definition victim :: "engine \<Rightarrow> diag_devkey \<Rightarrow> diag_devkey option" where
  "victim e k =
     (if eng_win e k \<noteq> None then None
      else (case fst (win_get (g_devs e) k True) of
              None \<Rightarrow> None
            | Some i \<Rightarrow> if w_used (g_devs e i) then Some (w_key (g_devs e i)) else None))"

lemma eng_win_Some:
  assumes "eng_ok e"
  shows "eng_win e k = Some w \<longleftrightarrow> (\<exists>i < WIN_MAX_DEVS. w_used (g_devs e i) \<and> w_key (g_devs e i) = k \<and> g_devs e i = w)"
    (is "?l \<longleftrightarrow> ?r")
proof
  assume ?l
  then show ?r using win_find_Some[of "g_devs e" k] by (auto simp: eng_win_def)
next
  assume ?r
  then show ?l using assms win_find_uniq[of "g_devs e" _ k] by (auto simp: eng_win_def eng_ok_def)
qed

lemma eng_win_None:
  "eng_win e k = None \<longleftrightarrow> (\<forall>i < WIN_MAX_DEVS. w_used (g_devs e i) \<longrightarrow> w_key (g_devs e i) \<noteq> k)"
  by (simp add: eng_win_def win_find_None)

lemma eng_win_key: "eng_win e k = Some w \<Longrightarrow> w_key w = k \<and> w_used w"
  using win_find_Some[of "g_devs e" k] by (auto simp: eng_win_def)

lemma eng_win_ok: "eng_ok e \<Longrightarrow> eng_win e k = Some w \<Longrightarrow> win_ok w"
  by (auto simp: eng_win_Some eng_ok_def)

lemma eng_win_create [simp]: "eng_win (diag_engine_create rules) k = None"
  by (simp add: eng_win_None diag_engine_create_def zero_devwin_def)

lemma map_eq_by_Some:
  assumes "\<And>k w. f k = Some w \<longleftrightarrow> g k = Some w"
  shows "f = g"
proof
  fix k
  show "f k = g k"
  proof (cases "f k")
    case None
    then have "\<forall>w. g k \<noteq> Some w" using assms[of k] by simp
    with None show ?thesis by (cases "g k") simp_all
  next
    case (Some w)
    then show ?thesis using assms[of k w] by simp
  qed
qed

definition base_win :: "engine \<Rightarrow> diag_devkey \<Rightarrow> devwin" where
  "base_win e k = (case eng_win e k of Some w \<Rightarrow> w | None \<Rightarrow> fresh_win k)"

lemma base_win_ok: "eng_ok e \<Longrightarrow> win_ok (base_win e k)"
  using eng_win_ok by (auto simp: base_win_def split: option.splits)

lemma ingest_abs:
  assumes ok: "eng_ok e" and k: "k = diag_event_key evt"
  shows "eng_win (fst (diag_engine_ingest clk evt e)) =
           (eng_win e)(k \<mapsto> fired_win clk evt (g_rules e) (ingest_win evt (base_win e k)))
           |` (case victim e k of None \<Rightarrow> UNIV | Some v \<Rightarrow> - {v})
       \<and> snd (diag_engine_ingest clk evt e) = ingest_out clk evt (g_rules e) (ingest_win evt (base_win e k))
       \<and> victim e k \<noteq> Some k"
proof -
  obtain i devs where get: "win_get (g_devs e) k True = (Some i, devs)"
    and i: "i < WIN_MAX_DEVS" "w_used (devs i)" "w_key (devs i) = k" "\<forall>j. j \<noteq> i \<longrightarrow> devs j = g_devs e j"
    "devs i = (case win_find (g_devs e) k of Some _ \<Rightarrow> g_devs e i | None \<Rightarrow> fresh_win k)"
    and ing: "diag_engine_ingest clk evt e =
      (let w = ingest_win evt (devs i) in
       (e\<lparr> g_devs := devs(i := fired_win clk evt (g_rules e) w),
           g_fire_count := (\<lambda>r. g_fire_count e r + of_nat (n_fired clk evt (g_rules e) w r)),
           g_total_fired := g_total_fired e
             + of_nat (\<Sum>r\<leftarrow>[0..<length (g_rules e)]. n_fired clk evt (g_rules e) w r) \<rparr>,
        ingest_out clk evt (g_rules e) w))"
    by (rule ingest_elim[of e evt clk, folded k]) (rule that, assumption+)
  let ?e = "fst (diag_engine_ingest clk evt e)"
  let ?w = "fired_win clk evt (g_rules e) (ingest_win evt (devs i))"
  have base: "devs i = base_win e k"
  proof (cases "win_find (g_devs e) k")
    case (Some j)
    then have "j = i" using get by (simp add: win_get_def)
    then show ?thesis using Some i by (simp add: base_win_def eng_win_def)
  qed (use i in \<open>simp add: base_win_def eng_win_def\<close>)
  have ok': "eng_ok ?e" by (rule eng_ok_ingest[OF ok])
  have devs': "g_devs ?e = (g_devs e)(i := ?w)" using ing i(4) by (auto simp: Let_def fun_eq_iff)
  have vict: "victim e k = (if w_used (g_devs e i) \<and> w_key (g_devs e i) \<noteq> k
      then Some (w_key (g_devs e i)) else None)"
  proof (cases "win_find (g_devs e) k")
    case None
    then show ?thesis using i(1) by (auto simp: victim_def get eng_win_def win_find_None)
  next
    case (Some j)
    then have "j = i" using get by (simp add: win_get_def)
    then show ?thesis using Some win_find_Some[OF Some] by (simp add: victim_def eng_win_def)
  qed
  have "eng_win ?e k' = Some w' \<longleftrightarrow>
      ((eng_win e)(k \<mapsto> ?w) |` (case victim e k of None \<Rightarrow> UNIV | Some v \<Rightarrow> - {v})) k' = Some w'" for k' w'
  proof (cases "k' = k")
    case True
    have "eng_win ?e k = Some ?w" using i ok' by (auto simp: eng_win_Some devs')
    then show ?thesis using True vict by (auto split: if_splits)
  next
    case False
    have "eng_win ?e k' = Some w' \<longleftrightarrow>
        (\<exists>j < WIN_MAX_DEVS. j \<noteq> i \<and> w_used (g_devs e j) \<and> w_key (g_devs e j) = k' \<and> g_devs e j = w')"
      using ok' False i(3) by (auto simp: eng_win_Some devs')
    also have "\<dots> \<longleftrightarrow> eng_win e k' = Some w' \<and> victim e k \<noteq> Some k'"
      using ok False i(1) vict by (auto simp: eng_win_Some eng_ok_def win_uniq_def)
    finally show ?thesis using False vict by (auto simp: restrict_map_def split: if_splits)
  qed
  then have "eng_win ?e = (eng_win e)(k \<mapsto> ?w) |` (case victim e k of None \<Rightarrow> UNIV | Some v \<Rightarrow> - {v})"
    by (rule map_eq_by_Some)
  then show ?thesis using base ing vict by (auto simp: Let_def split: if_splits)
qed

lemma tick_abs:
  assumes "eng_ok e"
  shows "eng_win (fst (diag_engine_tick now e)) k =
     (case eng_win e k of
        None \<Rightarrow> None
      | Some w \<Rightarrow> if now - w_last_seen_ns w \<le> RETENTION_NS then Some (latched_win now (g_rules e) w) else None)"
proof -
  let ?e = "fst (diag_engine_tick now e)"
  have ok': "eng_ok ?e" by (rule eng_ok_tick[OF assms])
  have dev: "g_devs ?e i = ticked_win now (g_rules e) (g_devs e i)" if "i < WIN_MAX_DEVS" for i
    using that by (simp add: tick_closed)
  show ?thesis
  proof (cases "eng_win e k")
    case None
    then have "eng_win ?e k = None" by (auto simp: eng_win_None dev ticked_win_used)
    with None show ?thesis by simp
  next
    case (Some w)
    then obtain i where i: "i < WIN_MAX_DEVS" "w_used (g_devs e i)" "w_key (g_devs e i) = k" "g_devs e i = w"
      using assms by (auto simp: eng_win_Some)
    show ?thesis
    proof (cases "now - w_last_seen_ns w \<le> RETENTION_NS")
      case True
      then have "eng_win ?e k = Some (latched_win now (g_rules e) w)"
        unfolding eng_win_Some[OF ok'] using i
        by (intro exI[of _ i]) (auto simp: dev ticked_win_def latched_win_def not_less)
      then show ?thesis using Some True by simp
    next
      case False
      have "eng_win ?e k = None"
      proof (clarsimp simp: eng_win_None dev ticked_win_used)
        fix j assume j: "j < WIN_MAX_DEVS" "w_used (g_devs e j)" "k = w_key (g_devs e j)"
          "now - w_last_seen_ns (g_devs e j) \<le> RETENTION_NS"
        then have "j = i" using assms i unfolding eng_ok_def win_uniq_def by metis
        then show False using j False i by simp
      qed
      then show ?thesis using Some False by simp
    qed
  qed
qed

lemma set_tick_outs:
  assumes "eng_ok e"
  shows "f \<in> set (snd (diag_engine_tick now e)) \<longleftrightarrow>
     (\<exists>k w ri. eng_win e k = Some w \<and> ri < length (g_rules e)
        \<and> dl_fires now (g_rules e ! ri) ri w \<and> f = dl_finding now (g_rules e ! ri) ri w)"
proof -
  have "f \<in> set (snd (diag_engine_tick now e)) \<longleftrightarrow>
      (\<exists>i < WIN_MAX_DEVS. w_used (g_devs e i) \<and> (\<exists>ri < length (g_rules e).
         dl_fires now (g_rules e ! ri) ri (g_devs e i) \<and> f = dl_finding now (g_rules e ! ri) ri (g_devs e i)))"
    by (simp add: tick_closed ticked_out_def dl_outputs_def if_distrib[of set] Bex_def cong: if_cong)
  then show ?thesis unfolding eng_win_Some[OF assms] by blast
qed

lemma set_ingest_outs:
  "f \<in> set (ingest_out clk evt rules w) \<longleftrightarrow>
     (\<exists>ri < length rules. rule_fires clk evt (rules ! ri) ri w \<and> f = rule_finding evt (rules ! ri) ri w)"
  by (auto simp: ingest_out_def rule_outputs_def split: if_splits)

lemma finding_sel [simp]:
  "fd_rule (rule_finding evt r ri w) = ri" "fd_key (rule_finding evt r ri w) = w_key w"
  "fd_rule (dl_finding now r ri w) = ri" "fd_key (dl_finding now r ri w) = w_key w"
  "fd_count (rule_finding evt r ri w) = whens_count (r_when r) (ev_ts_ns evt) (win_log w)"
  "fd_evidence (rule_finding evt r ri w) = whens_evidence (r_when r) (ev_ts_ns evt) (win_log w)"
  by (simp_all add: rule_finding_def dl_finding_def print_finding_def)

end
