(* ===== verification/Diag_Trace.thy ===== *)
theory Diag_Trace
  imports Diag_Run
begin

text \<open>
  Facts over runs of the rule engine: what one operation can print about one device, the cooldown
  of event rules, the once-per-episode latch of deadline rules and its re-arming, and the
  enumeration states a window remembers.
\<close>

section \<open>One operation\<close>

text \<open>The device \<open>k\<close> is known before the run and after each of its operations.\<close>

fun stays_tracked :: "diag_devkey \<Rightarrow> engine_op list \<Rightarrow> engine \<Rightarrow> bool" where
  "stays_tracked k [] e \<longleftrightarrow> eng_win e k \<noteq> None"
| "stays_tracked k (op # ops) e \<longleftrightarrow> eng_win e k \<noteq> None \<and> stays_tracked k ops (engine_next op e)"

lemma stays_tracked_start: "stays_tracked k ops e \<Longrightarrow> \<exists>w. eng_win e k = Some w"
  by (cases ops) auto

lemma eng_ok_next: "eng_ok e \<Longrightarrow> eng_ok (engine_next op e)"
  by (rule engine.step_inv) simp_all

lemma ingest_other:
  assumes "eng_ok e" "eng_win (engine_next (Ingest clk evt) e) k = Some w'" "k \<noteq> diag_event_key evt"
  shows "eng_win e k = Some w'"
  using ingest_abs[OF assms(1) refl, of clk evt] assms(2,3)
  by (auto simp: engine_next_def restrict_map_def split: option.splits if_splits)

lemma ingest_own:
  assumes "eng_ok e" "eng_win e (diag_event_key evt) = Some w"
  shows "eng_win (engine_next (Ingest clk evt) e) (diag_event_key evt)
           = Some (fired_win clk evt (g_rules e) (ingest_win evt w))"
    and "snd (engine_step (Ingest clk evt) e) = ingest_out clk evt (g_rules e) (ingest_win evt w)"
proof -
  have v: "victim e (diag_event_key evt) = None" using assms(2) by (simp add: victim_def)
  have b: "base_win e (diag_event_key evt) = w" using assms(2) by (simp add: base_win_def)
  show "eng_win (engine_next (Ingest clk evt) e) (diag_event_key evt)
           = Some (fired_win clk evt (g_rules e) (ingest_win evt w))"
    by (simp add: ingest_abs_room[OF assms(1) v] b)
  show "snd (engine_step (Ingest clk evt) e) = ingest_out clk evt (g_rules e) (ingest_win evt w)"
    using ingest_abs[OF assms(1) refl, of clk evt] b by simp
qed

lemma ingest_outs_key:
  assumes "eng_ok e" "f \<in> set (snd (engine_step (Ingest clk evt) e))"
  shows "fd_key f = diag_event_key evt"
proof -
  have "w_key (base_win e (diag_event_key evt)) = diag_event_key evt"
    using eng_win_key[of e "diag_event_key evt"]
    by (auto simp: base_win_def fresh_win_def split: option.splits)
  then show ?thesis
    using ingest_abs[OF assms(1) refl, of clk evt] assms(2) by (auto simp: set_ingest_outs)
qed

lemma ingest_outs_type:
  assumes "eng_ok e" "f \<in> set (snd (engine_step (Ingest clk evt) e))"
  shows "fd_rule f < length (g_rules e) \<and> r_type (g_rules e ! fd_rule f) = RULE_EVENT"
  using ingest_abs[OF assms(1) refl, of clk evt] assms(2) by (auto simp: set_ingest_outs rule_fires_def)

lemma tick_outs_type:
  assumes "eng_ok e" "f \<in> set (snd (engine_step (Tick now) e))"
  shows "fd_rule f < length (g_rules e) \<and> r_type (g_rules e ! fd_rule f) = RULE_DEADLINE"
  using assms by (auto simp: set_tick_outs dl_fires_def)

lemma tick_tracked:
  assumes "eng_ok e" "eng_win (engine_next (Tick now) e) k = Some w'"
  shows "\<exists>w. eng_win e k = Some w \<and> w' = latched_win now (g_rules e) w"
  using assms by (auto simp: engine_next_def tick_abs split: option.splits if_splits)

section \<open>Cooldown\<close>

fun in_cooldown :: "u64 \<Rightarrow> nat \<Rightarrow> engine_op \<Rightarrow> bool" where
  "in_cooldown t ri (Ingest clk evt) \<longleftrightarrow> clk ri - t < COOLDOWN_NS"
| "in_cooldown t ri (Tick now) \<longleftrightarrow> True"

lemma cooldown_step:
  assumes ok: "eng_ok e" and w: "eng_win e k = Some w" "w_last_fire_ns w ri = t" "t \<noteq> 0"
    and w': "eng_win (engine_next op e) k = Some w'" and cool: "in_cooldown t ri op"
    and ev: "r_type (g_rules e ! ri) = RULE_EVENT"
  shows "w_last_fire_ns w' ri = t \<and> (\<forall>f \<in> set (snd (engine_step op e)). \<not> (fd_rule f = ri \<and> fd_key f = k))"
proof (cases op)
  case (Tick now)
  obtain v where v: "eng_win e k = Some v" "w' = latched_win now (g_rules e) v"
    using tick_tracked[OF ok] w' Tick by blast
  then have "w_last_fire_ns w' ri = t" using w by (simp add: latched_win_def)
  moreover have "fd_rule f \<noteq> ri" if "f \<in> set (snd (engine_step op e))" for f
    using tick_outs_type[OF ok] that ev Tick by auto
  ultimately show ?thesis by blast
next
  case (Ingest clk evt)
  show ?thesis
  proof (cases "k = diag_event_key evt")
    case False
    then have "w' = w" using ingest_other[OF ok] w' w(1) Ingest by auto
    moreover have "fd_key f \<noteq> k" if "f \<in> set (snd (engine_step op e))" for f
      using ingest_outs_key[OF ok] that False Ingest by blast
    ultimately show ?thesis using w by blast
  next
    case True
    have nofire: "\<not> rule_fires clk evt (g_rules e ! ri) ri (ingest_win evt w)"
      using w cool Ingest by (auto simp: rule_fires_def not_le)
    have "eng_win (engine_next op e) k = Some (fired_win clk evt (g_rules e) (ingest_win evt w))"
      using ingest_own(1)[OF ok] w(1) True Ingest by blast
    then have "w' = fired_win clk evt (g_rules e) (ingest_win evt w)" using w' by simp
    then have "w_last_fire_ns w' ri = t" using nofire w by (simp add: fired_win_def)
    moreover have "snd (engine_step op e) = ingest_out clk evt (g_rules e) (ingest_win evt w)"
      using ingest_own(2)[OF ok] w(1) True Ingest by blast
    ultimately show ?thesis using nofire by (auto simp: set_ingest_outs)
  qed
qed

lemma cooldown_run:
  "eng_ok e \<Longrightarrow> eng_win e k = Some w \<Longrightarrow> w_last_fire_ns w ri = t \<Longrightarrow> t \<noteq> 0 \<Longrightarrow>
   stays_tracked k ops e \<Longrightarrow> list_all (in_cooldown t ri) ops \<Longrightarrow>
   r_type (g_rules e ! ri) = RULE_EVENT \<Longrightarrow>
   \<forall>f \<in> set (engine_outs ops e). \<not> (fd_rule f = ri \<and> fd_key f = k)"
proof (induction ops arbitrary: e w)
  case (Cons op ops)
  obtain w' where w': "eng_win (engine_next op e) k = Some w'"
    using stays_tracked_start[of k ops "engine_next op e"] Cons.prems(5) by auto
  note step = cooldown_step[OF Cons.prems(1-4) w' _ Cons.prems(7)]
  have "\<forall>f \<in> set (engine_outs ops (engine_next op e)). \<not> (fd_rule f = ri \<and> fd_key f = k)"
    by (rule Cons.IH[OF eng_ok_next w']) (use Cons.prems step in auto)
  then show ?case using step Cons.prems(6) by auto
qed simp

section \<open>Deadline latch\<close>

text \<open>The events that start a new enumeration episode: \<open>NOTATTACHED\<close>, and a disconnect.\<close>

definition starts_episode :: "diag_event \<Rightarrow> bool" where
  "starts_episode evt \<longleftrightarrow>
     (ev_kind evt = USBTRACE_EVT_ENUM \<and> ev_step evt = 0 \<and> ev_new_state evt = 0)
     \<or> (ev_kind evt = USBTRACE_EVT_LIFECYCLE \<and> ev_action evt = 1)"

fun resets_dev :: "diag_devkey \<Rightarrow> engine_op \<Rightarrow> bool" where
  "resets_dev k (Ingest clk evt) \<longleftrightarrow> diag_event_key evt = k \<and> starts_episode evt"
| "resets_dev k (Tick now) \<longleftrightarrow> False"

lemma win_track_latch:
  "w_dl_fired (win_track evt w) = (if starts_episode evt then (\<lambda>_. 0) else w_dl_fired w)"
  by (auto simp: win_track_def starts_episode_def Let_def USBTRACE_EVT_ENUM_def USBTRACE_EVT_LIFECYCLE_def)

lemma ingest_win_latch [simp]:
  "w_dl_fired (ingest_win evt w) = (if starts_episode evt then (\<lambda>_. 0) else w_dl_fired w)"
  by (simp add: ingest_win_def win_track_latch)

lemma latch_step:
  assumes ok: "eng_ok e" and w: "eng_win e k = Some w" "w_dl_fired w ri \<noteq> 0"
    and w': "eng_win (engine_next op e) k = Some w'" and nr: "\<not> resets_dev k op"
    and dl: "r_type (g_rules e ! ri) = RULE_DEADLINE"
  shows "w_dl_fired w' ri \<noteq> 0 \<and> (\<forall>f \<in> set (snd (engine_step op e)). \<not> (fd_rule f = ri \<and> fd_key f = k))"
proof (cases op)
  case (Tick now)
  obtain v where v: "eng_win e k = Some v" "w' = latched_win now (g_rules e) v"
    using tick_tracked[OF ok] w' Tick by blast
  then have "w_dl_fired w' ri \<noteq> 0" using w by (simp add: latched_win_def)
  moreover have "\<not> (fd_rule f = ri \<and> fd_key f = k)" if f: "f \<in> set (snd (engine_step op e))" for f
  proof
    assume fd: "fd_rule f = ri \<and> fd_key f = k"
    obtain k' v r where r: "eng_win e k' = Some v" "dl_fires now (g_rules e ! r) r v"
      "f = dl_finding now (g_rules e ! r) r v"
      using f Tick set_tick_outs[OF ok] by auto
    then have "r = ri" "k' = k" using fd eng_win_key[OF r(1)] by auto
    then show False using r w by (simp add: dl_fires_def)
  qed
  ultimately show ?thesis by blast
next
  case (Ingest clk evt)
  have "fd_rule f \<noteq> ri" if "f \<in> set (snd (engine_step op e))" for f
    using ingest_outs_type[OF ok] that dl Ingest by fastforce
  moreover have "w_dl_fired w' ri \<noteq> 0"
  proof (cases "k = diag_event_key evt")
    case False
    then show ?thesis using ingest_other[OF ok] w' w Ingest by auto
  next
    case True
    then have "w' = fired_win clk evt (g_rules e) (ingest_win evt w)"
      using ingest_own(1)[OF ok] w' w(1) Ingest by auto
    then show ?thesis using True nr w(2) Ingest by auto
  qed
  ultimately show ?thesis by blast
qed

text \<open>The operations that make the engine forget a device: a tick more than the retention after its last
  event, and an event of a new device when all slots are in use and this device was seen longest ago.\<close>

fun drops_dev :: "diag_devkey \<Rightarrow> engine_op \<Rightarrow> engine \<Rightarrow> bool" where
  "drops_dev k (Tick now) e \<longleftrightarrow> (\<exists>w. eng_win e k = Some w \<and> RETENTION_NS < now - w_last_seen_ns w)"
| "drops_dev k (Ingest clk evt) e \<longleftrightarrow>
     k \<noteq> diag_event_key evt \<and> eng_win e (diag_event_key evt) = None
     \<and> (\<forall>j < WIN_MAX_DEVS. w_used (g_devs e j))
     \<and> (\<exists>i < WIN_MAX_DEVS. w_key (g_devs e i) = k
          \<and> (\<forall>j < WIN_MAX_DEVS. w_last_seen_ns (g_devs e i) \<le> w_last_seen_ns (g_devs e j)))"

lemma drops_exact:
  assumes ok: "eng_ok e" and w: "eng_win e k = Some w" and gone: "eng_win (engine_next op e) k = None"
  shows "drops_dev k op e"
proof (cases op)
  case (Tick now)
  then show ?thesis using gone w
    by (simp add: engine_next_def tick_abs[OF ok] not_le split: if_splits)
next
  case (Ingest clk evt)
  have v: "victim e (diag_event_key evt) = Some k" "k \<noteq> diag_event_key evt"
    using gone w ingest_abs[OF ok refl, of clk evt]
    by (auto simp: Ingest engine_next_def restrict_map_def split: option.splits if_splits)
  then show ?thesis using victim_all_used[OF v(1)] by (simp add: Ingest)
qed

lemma latch_kept:
  "eng_ok e \<Longrightarrow> eng_win e k = Some w \<Longrightarrow> w_dl_fired w ri \<noteq> 0 \<Longrightarrow> r_type (g_rules e ! ri) = RULE_DEADLINE \<Longrightarrow>
   \<forall>pre op post. ops = pre @ op # post \<longrightarrow> \<not> resets_dev k op \<and> \<not> drops_dev k op (engine_run pre e) \<Longrightarrow>
   \<exists>w'. eng_win (engine_run ops e) k = Some w' \<and> w_dl_fired w' ri \<noteq> 0"
proof (induction ops arbitrary: e w)
  case (Cons op ops)
  have now: "\<not> resets_dev k op" "\<not> drops_dev k op e"
    using Cons.prems(5)[THEN spec, of "[]", THEN spec, of op, THEN spec, of ops] by simp_all
  then obtain w' where w': "eng_win (engine_next op e) k = Some w'"
    using drops_exact[OF Cons.prems(1,2), of op] by fastforce
  have later: "\<not> resets_dev k op' \<and> \<not> drops_dev k op' (engine_run pre (engine_next op e))"
    if "ops = pre @ op' # post" for pre op' post
    using Cons.prems(5)[THEN spec, of "op # pre", THEN spec, of op', THEN spec, of post] that by simp
  from latch_step[OF Cons.prems(1-3) w' now(1) Cons.prems(4)]
  have "w_dl_fired w' ri \<noteq> 0" by blast
  from Cons.IH[OF eng_ok_next[OF Cons.prems(1)] w' this] Cons.prems(4) later show ?case by simp
qed auto

text \<open>What a latched rule needs to report the device once more.\<close>

lemma latch_cleared:
  assumes ok: "eng_ok e" and w: "eng_win e k = Some w" "w_dl_fired w ri \<noteq> 0" and dl: "r_type (g_rules e ! ri) = RULE_DEADLINE"
    and f: "f \<in> set (snd (engine_step op (engine_run ops e)))" "fd_rule f = ri" "fd_key f = k"
  shows "\<exists>pre op' post. ops = pre @ op' # post \<and> (resets_dev k op' \<or> drops_dev k op' (engine_run pre e))"
proof (rule ccontr)
  assume none: "\<nexists>pre op' post. ops = pre @ op' # post \<and> (resets_dev k op' \<or> drops_dev k op' (engine_run pre e))"
  obtain w' where w': "eng_win (engine_run ops e) k = Some w'" "w_dl_fired w' ri \<noteq> 0"
    using latch_kept[OF ok w dl] none by blast
  have ok': "eng_ok (engine_run ops e)" by (rule eng_ok_run[OF ok])
  show False
  proof (cases op)
    case (Tick now)
    then obtain k' v r where r: "eng_win (engine_run ops e) k' = Some v" "dl_fires now (g_rules e ! r) r v"
      "f = dl_finding now (g_rules e ! r) r v"
      using f(1) set_tick_outs[OF ok'] by auto
    then have "r = ri" "k' = k" using f eng_win_key[OF r(1)] by auto
    then show False using r w' by (simp add: dl_fires_def)
  next
    case (Ingest clk evt)
    then show False using ingest_outs_type[OF ok', of f clk evt] f dl by simp
  qed
qed

section \<open>Enumeration states\<close>

text \<open>The events since the newest one that starts an episode; a disconnect itself is not part of
  the new episode, a \<open>NOTATTACHED\<close> event is its first state.\<close>

definition is_state :: "diag_event \<Rightarrow> bool" where
  "is_state x \<longleftrightarrow> ev_kind x = USBTRACE_EVT_ENUM \<and> ev_step x = 0"

definition episode_step :: "diag_event \<Rightarrow> diag_event list \<Rightarrow> diag_event list" where
  "episode_step x acc = (if starts_episode x then [x] else acc @ [x])"

definition episode :: "diag_event list \<Rightarrow> diag_event list" where
  "episode es = fold episode_step es []"

definition state_seen :: "diag_event list \<Rightarrow> nat \<Rightarrow> bool" where
  "state_seen es s \<longleftrightarrow> (\<exists>x \<in> set es. is_state x \<and> unat (ev_new_state x) = s)"

lemma bit_or_exp: "bit (w OR 2 ^ n) m \<longleftrightarrow> bit w m \<or> (m = n \<and> m < 16)" for w :: u16
  by (auto simp: bit_or_iff bit_exp_iff)

lemma win_track_states:
  "s < 9 \<Longrightarrow> bit (w_seen_states (win_track evt w)) s \<longleftrightarrow>
     (\<not> starts_episode evt \<and> bit (w_seen_states w) s) \<or> (is_state evt \<and> unat (ev_new_state evt) = s)"
  by (auto simp: win_track_def is_state_def starts_episode_def Let_def bit_or_exp word_less_nat_alt
      USBTRACE_EVT_ENUM_def USBTRACE_EVT_LIFECYCLE_def unat_eq_0 bit_1_iff)

lemma fold_episode_states:
  "s < 9 \<Longrightarrow> bit (w_seen_states w) s \<longleftrightarrow> state_seen acc s \<Longrightarrow>
   bit (w_seen_states (fold ingest_win es w)) s \<longleftrightarrow> state_seen (fold episode_step es acc) s"
proof (induction es arbitrary: w acc)
  case (Cons x xs)
  have "bit (w_seen_states (ingest_win x w)) s \<longleftrightarrow> state_seen (episode_step x acc) s"
    using Cons.prems win_track_states[of s x "win_note x w"]
    by (auto simp: ingest_win_def episode_step_def state_seen_def)
  then show ?case using Cons by simp
qed simp

lemma episode_states:
  "s < 9 \<Longrightarrow> bit (w_seen_states (fold ingest_win es (fresh_win k))) s \<longleftrightarrow> state_seen (episode es) s"
  unfolding episode_def
  by (rule fold_episode_states) (simp_all add: fresh_win_def zero_devwin_def state_seen_def)

end
