(* ===== verification/Diag_Props.thy ===== *)
theory Diag_Props
  imports Diag_Trace
begin

text \<open>
  The properties of the \<open>diag\<close> rule engine, with witnesses on a small rule set: an event rule that
  reports a second failed URB, and a deadline rule on the enumeration states.
\<close>

section \<open>A small rule set\<close>

definition demo_cond :: diag_cond where
  "demo_cond = zero_cond\<lparr> c_has_kind := True, c_kind := USBTRACE_EVT_URB, c_status_in := [-71],
     c_has_within_ms := True, c_within_ms := 3000 \<rparr>"

definition demo_event_rule :: diag_rule where
  "demo_event_rule = zero_rule\<lparr> r_id := Some ''proto'', r_conclusion := Some ''{count} errors'',
     r_trigger := zero_cond\<lparr> c_has_kind := True, c_kind := USBTRACE_EVT_URB \<rparr>, r_when := [demo_cond] \<rparr>"

definition demo_deadline_rule :: diag_rule where
  "demo_deadline_rule = zero_rule\<lparr> r_id := Some ''stuck'', r_type := RULE_DEADLINE,
     r_dl_reached_state := 5, r_dl_without_state := 7, r_dl_timeout_ms := 2000 \<rparr>"

definition demo_urb :: "u64 \<Rightarrow> diag_event" where
  "demo_urb ts = zero_event\<lparr> ev_kind := USBTRACE_EVT_URB, ev_ts_ns := ts, ev_status := - 71,
     ev_busnum := 1, ev_devnum := 4 \<rparr>"

definition demo_state :: "u64 \<Rightarrow> u8 \<Rightarrow> diag_event" where
  "demo_state ts s = zero_event\<lparr> ev_kind := USBTRACE_EVT_ENUM, ev_ts_ns := ts, ev_new_state := s,
     ev_busnum := 1, ev_devnum := 4 \<rparr>"

definition demo_engine :: engine where
  "demo_engine = diag_engine_create [demo_event_rule, demo_deadline_rule]"

definition demo_key :: diag_devkey where
  "demo_key = \<lparr> key_busnum = 1, key_devnum = 4 \<rparr>"

lemmas demo_defs = demo_cond_def demo_event_rule_def demo_deadline_rule_def demo_urb_def demo_state_def
  demo_key_def zero_cond_def zero_rule_def zero_event_def ut_const

lemma demo_keys [simp]: "diag_event_key (demo_urb ts) = demo_key" "diag_event_key (demo_state ts s) = demo_key"
  by (simp_all add: diag_event_key_def demo_defs)

lemma demo_ok [simp]: "eng_ok demo_engine" "eng_win demo_engine k = None"
  "g_rules demo_engine = [demo_event_rule, demo_deadline_rule]"
  by (simp_all add: demo_engine_def eng_ok_create)

lemma ingest_tracks: "eng_ok e \<Longrightarrow> eng_win (engine_next (Ingest clk evt) e) (diag_event_key evt) =
    Some (fired_win clk evt (g_rules e) (ingest_win evt (base_win e (diag_event_key evt))))"
  using ingest_abs[OF _ refl, of e clk evt]
  by (auto simp: engine_next_def restrict_map_def split: option.splits)

lemma base_win_log: "win_log (base_win e k) = dev_log e k"
  by (simp add: base_win_def dev_log_def split: option.split)

section \<open>Conditions over the lookback window\<close>

text \<open>C2: Evaluating a rule condition over a device's ring buffer (kind, match and status filters,
  lookback, clustering into episodes, minimum span, at most six evidence entries) yields exactly the
  count and the evidence that the specification computes on the plain newest-first list of the
  device's events.\<close>

theorem eval_when_refines:
  assumes "length ev \<le> MAX_EVIDENCE"
  shows "eval_when w c ref_ns ev =
    (cond_value c ref_ns (win_log w), cond_evidence c ref_ns (win_log w) ev)"
  by (rule eval_when_spec[OF assms])

theorem eval_when_refines_witness:
  "eval_when (win_push (win_push (fresh_win demo_key) (demo_urb 5)) (demo_urb 9)) demo_cond 9 []
     = (2, [demo_urb 9, demo_urb 5])"
proof -
  have log: "win_log (win_push (win_push (fresh_win demo_key) (demo_urb 5)) (demo_urb 9))
      = [demo_urb 9, demo_urb 5]"
    by (simp add: dw.log_push dw.winv_push WIN_MAX_EVENTS_def)
  have hits: "cond_hits demo_cond 9 [demo_urb 9, demo_urb 5] = [demo_urb 9, demo_urb 5]"
    by (simp add: cond_hits_def cond_hit_def diag_pred_iffs demo_defs ms_to_ns_def)
  have clus: "cluster_ns demo_cond = 0" by (simp add: cluster_ns_def demo_defs)
  have span: "\<not> c_has_min_span_ms demo_cond" by (simp add: demo_defs)
  show ?thesis
    by (simp add: eval_when_refines MAX_EVIDENCE_def log cond_value_def cond_evidence_def span_ok_def
        cond_reps_def hits clus span)
qed

text \<open>When the timestamps of a device never decrease, a clustering condition counts episodes
  that are pairwise more than the cluster distance apart, each represented by one of the hits.\<close>

theorem clustered_hits_apart:
  assumes "cluster_ns c \<noteq> 0" "sorted_wrt (\<lambda>a b. ev_ts_ns b \<le> ev_ts_ns a) evs"
  shows "sorted_wrt (\<lambda>a b. unat (ev_ts_ns a) > unat (cluster_ns c) + unat (ev_ts_ns b))
           (cond_reps c ref_ns evs)
    \<and> set (cond_reps c ref_ns evs) \<subseteq> set (cond_hits c ref_ns evs)
    \<and> (cond_reps c ref_ns evs = [] \<longleftrightarrow> cond_hits c ref_ns evs = [])"
proof -
  have "sorted_wrt (\<lambda>a b. ev_ts_ns b \<le> ev_ts_ns a) (cond_hits c ref_ns evs)"
    using assms(2) by (simp add: cond_hits_def sorted_wrt_filter)
  from cluster_heads_apart[OF this, of None "cluster_ns c"] show ?thesis
    using assms(1) by (simp add: cond_reps_def cluster_heads_subset cluster_heads_empty)
qed

theorem clustered_hits_apart_witness:
  "sorted_wrt (\<lambda>a b. unat (ev_ts_ns a) > unat (cluster_ns (demo_cond\<lparr> c_has_cluster_ms := True, c_cluster_ms := 1 \<rparr>)) + unat (ev_ts_ns b))
     (cond_reps (demo_cond\<lparr> c_has_cluster_ms := True, c_cluster_ms := 1 \<rparr>) 2000009 [demo_urb 2000009, demo_urb 5, demo_urb 2])"
proof -
  have "cluster_ns (demo_cond\<lparr> c_has_cluster_ms := True, c_cluster_ms := 1 \<rparr>) \<noteq> 0"
    by (simp add: cluster_ns_def demo_cond_def ms_to_ns_def)
  moreover have "sorted_wrt (\<lambda>a b. ev_ts_ns b \<le> ev_ts_ns a) [demo_urb 2000009, demo_urb 5, demo_urb 2]"
    by (simp add: demo_urb_def)
  ultimately show ?thesis using clustered_hits_apart by blast
qed

section \<open>Event rules\<close>

definition last_fire :: "engine \<Rightarrow> diag_devkey \<Rightarrow> nat \<Rightarrow> u64" where
  "last_fire e k ri = (case eng_win e k of None \<Rightarrow> 0 | Some w \<Rightarrow> w_last_fire_ns w ri)"

lemma ingest_win_base:
  assumes "eng_ok e"
  shows "win_log (ingest_win evt (base_win e k)) = take WIN_MAX_EVENTS (evt # dev_log e k)"
    and "w_last_fire_ns (ingest_win evt (base_win e k)) ri = last_fire e k ri"
proof -
  show "win_log (ingest_win evt (base_win e k)) = take WIN_MAX_EVENTS (evt # dev_log e k)"
    by (simp add: ingest_win_log[OF base_win_ok[OF assms]] base_win_log)
  show "w_last_fire_ns (ingest_win evt (base_win e k)) ri = last_fire e k ri"
    by (simp add: last_fire_def base_win_def fresh_win_def zero_devwin_def split: option.split)
qed

lemma ingest_fires:
  assumes "eng_ok e" "ri < length (g_rules e)"
  shows "(\<exists>f \<in> set (snd (diag_engine_ingest clk evt e)). fd_rule f = ri) \<longleftrightarrow>
    r_type (g_rules e ! ri) = RULE_EVENT \<and> trigger_match (r_trigger (g_rules e ! ri)) evt
    \<and> (\<forall>c \<in> set (r_when (g_rules e ! ri)). cond_need c \<le>
          cond_value c (ev_ts_ns evt) (take WIN_MAX_EVENTS (evt # dev_log e (diag_event_key evt))))
    \<and> (last_fire e (diag_event_key evt) ri = 0
       \<or> COOLDOWN_NS \<le> clk ri - last_fire e (diag_event_key evt) ri)"
proof -
  have "snd (diag_engine_ingest clk evt e)
      = ingest_out clk evt (g_rules e) (ingest_win evt (base_win e (diag_event_key evt)))"
    using ingest_abs[OF assms(1) refl, of clk evt] by blast
  then have "(\<exists>f \<in> set (snd (diag_engine_ingest clk evt e)). fd_rule f = ri)
      \<longleftrightarrow> rule_fires clk evt (g_rules e ! ri) ri (ingest_win evt (base_win e (diag_event_key evt)))"
    using assms(2) by (auto simp: Bex_def set_ingest_outs)
  then show ?thesis
    by (simp only: rule_fires_def ingest_win_base[OF assms(1)] whens_hold_def)
qed

text \<open>C1: Ingesting an event makes event rule \<open>ri\<close> report exactly when the event matches the rule's
  trigger, every \<open>when\<close> condition reaches its required count over the newest 1024 events of that
  device (this one included), and the rule has never reported for this device or its last report is
  at least the cooldown ago.\<close>

theorem ingest_fires_iff:
  assumes "eng_ok e" "ri < length (g_rules e)"
  shows "(\<exists>f \<in> set (snd (diag_engine_ingest clk evt e)). fd_rule f = ri) \<longleftrightarrow>
    r_type (g_rules e ! ri) = RULE_EVENT \<and> trigger_match (r_trigger (g_rules e ! ri)) evt
    \<and> (\<forall>c \<in> set (r_when (g_rules e ! ri)). cond_need c \<le>
          cond_value c (ev_ts_ns evt) (take WIN_MAX_EVENTS (evt # dev_log e (diag_event_key evt))))
    \<and> (last_fire e (diag_event_key evt) ri = 0
       \<or> COOLDOWN_NS \<le> clk ri - last_fire e (diag_event_key evt) ri)"
  by (rule ingest_fires[OF assms])

lemma demo_value: "cond_value demo_cond 9 [demo_urb 9] = 1"
  by (simp add: cond_value_def span_ok_def cond_reps_def cluster_ns_def cond_hits_def cond_hit_def
      diag_pred_iffs demo_defs ms_to_ns_def)

lemma demo_dev_log: "dev_log demo_engine k = []"
  by (simp add: dev_log_def)

theorem ingest_fires_iff_witness:
  "\<exists>f \<in> set (snd (diag_engine_ingest (\<lambda>_. 12) (demo_urb 9) demo_engine)). fd_rule f = 0"
proof -
  have ts: "ev_ts_ns (demo_urb 9) = 9" by (simp add: demo_urb_def)
  have r: "r_type demo_event_rule = RULE_EVENT" "r_when demo_event_rule = [demo_cond]"
    "trigger_match (r_trigger demo_event_rule) (demo_urb 9)" "cond_need demo_cond = 1"
    by (simp_all add: demo_defs diag_pred_iffs cond_need_def)
  show ?thesis
    by (subst ingest_fires_iff)
      (simp_all add: demo_dev_log last_fire_def WIN_MAX_EVENTS_def ts r demo_value)
qed

lemma fold_max_ge: "x \<le> fold (\<lambda>c m. max (f c) m) cs (x::int)"
proof (induction cs arbitrary: x)
  case (Cons a cs)
  have "x \<le> max (f a) x" by simp
  also have "\<dots> \<le> fold (\<lambda>c m. max (f c) m) (a # cs) x" using Cons[of "max (f a) x"] by simp
  finally show ?case .
qed simp

lemma fold_max_mem: "c \<in> set cs \<Longrightarrow> f c \<le> fold (\<lambda>c m. max (f c) m) cs (x::int)"
proof (induction cs arbitrary: x)
  case (Cons a cs)
  then show ?case using fold_max_ge[of "max (f a) x" f cs] by auto
qed simp

lemma whens_evidence_bound:
  "length ev \<le> MAX_EVIDENCE \<Longrightarrow>
   length (fold (\<lambda>c ev. cond_evidence c ref_ns evs ev) cs ev) \<le> MAX_EVIDENCE"
  by (induction cs arbitrary: ev) (auto simp: cond_evidence_bound)

lemma cond_reps_subset: "set (cond_reps c ref_ns evs) \<subseteq> set (cond_hits c ref_ns evs)"
  by (simp add: cond_reps_def cluster_heads_subset)

lemma whens_evidence_hits:
  "x \<in> set (fold (\<lambda>c ev. cond_evidence c ref_ns evs ev) cs ev) \<Longrightarrow>
   x \<in> set ev \<or> (\<exists>c \<in> set cs. x \<in> set (cond_hits c ref_ns evs))"
proof (induction cs arbitrary: ev)
  case (Cons c cs)
  then have "x \<in> set (cond_evidence c ref_ns evs ev) \<or> (\<exists>c \<in> set cs. x \<in> set (cond_hits c ref_ns evs))"
    by simp
  then show ?case using cond_reps_subset[of c ref_ns evs]
    by (auto simp: cond_evidence_def split: if_splits dest!: in_set_takeD)
qed simp

lemma ingest_out_rules: "map fd_rule (ingest_out clk evt rules w) = filter (\<lambda>ri. rule_fires clk evt (rules ! ri) ri w) [0..<length rules]"
proof -
  have "map fd_rule (concat (map (rule_outputs clk evt rules w) is))
      = filter (\<lambda>ri. rule_fires clk evt (rules ! ri) ri w) is" for "is"
    by (induction "is") (simp_all add: rule_outputs_def)
  then show ?thesis by (simp add: ingest_out_def)
qed

lemma rule_finding_facts:
  assumes "rule_fires clk evt r ri w" "f = rule_finding evt r ri w"
  shows "fd_ref_ns f = ev_ts_ns evt" "\<forall>c \<in> set (r_when r). cond_need c \<le> fd_count f"
    "length (fd_evidence f) \<le> MAX_EVIDENCE"
    "\<forall>x \<in> set (fd_evidence f). \<exists>c \<in> set (r_when r). x \<in> set (cond_hits c (ev_ts_ns evt) (win_log w))"
proof -
  show "fd_ref_ns f = ev_ts_ns evt" by (simp add: assms rule_finding_def print_finding_def)
  show "\<forall>c \<in> set (r_when r). cond_need c \<le> fd_count f"
    using assms fold_max_mem[of _ "r_when r" "\<lambda>c. cond_value c (ev_ts_ns evt) (win_log w)" 0]
    by (force simp: rule_fires_def whens_hold_def whens_count_def)
  show "length (fd_evidence f) \<le> MAX_EVIDENCE"
    by (simp add: assms whens_evidence_def whens_evidence_bound)
  show "\<forall>x \<in> set (fd_evidence f). \<exists>c \<in> set (r_when r). x \<in> set (cond_hits c (ev_ts_ns evt) (win_log w))"
    using whens_evidence_hits[of _ "ev_ts_ns evt" "win_log w" "r_when r" "[]"]
    by (auto simp: assms whens_evidence_def)
qed

lemma Max_insert_max: "finite A \<Longrightarrow> Max (insert (max a x) A) = Max (insert x (insert a A))" for x :: int
  by (cases "A = {}") (auto simp: max.assoc max.commute max.left_commute)

lemma fold_max_Max: "fold (\<lambda>c m. max (f c) m) cs x = Max (insert x (f ` set cs))" for x :: int
  by (induction cs arbitrary: x) (simp_all add: Max_insert_max del: Max_insert)

lemma fold_within_Max:
  "fold (\<lambda>c m. if P c then max (f c) m else m) cs x = Max (insert x (f ` set (filter P cs)))" for x :: int
proof (induction cs arbitrary: x)
  case (Cons c cs)
  show ?case
  proof (cases "P c")
    case True
    have "Max (insert (max (f c) x) (f ` set (filter P cs))) = Max (insert x (insert (f c) (f ` set (filter P cs))))"
      by (rule Max_insert_max) simp
    moreover have "f ` set (filter P (c # cs)) = insert (f c) (f ` set (filter P cs))" using True by simp
    ultimately show ?thesis using Cons.IH[of "max (f c) x"] True by (simp only: fold_Cons comp_def if_True)
  qed (use Cons.IH in \<open>simp del: Max_insert\<close>)
qed simp

lemma take_take_append: "take n (take n a @ b) = take n (a @ b)"
  by (cases "length a \<le> n") auto

lemma fold_evidence_take:
  "length ev \<le> MAX_EVIDENCE \<Longrightarrow> fold (\<lambda>c ev. cond_evidence c ref_ns evs ev) cs ev
     = take MAX_EVIDENCE (ev @ concat (map (\<lambda>c. if span_ok c ref_ns evs then cond_reps c ref_ns evs else []) cs))"
proof (induction cs arbitrary: ev)
  case (Cons c cs)
  have ce: "cond_evidence c ref_ns evs ev
      = take MAX_EVIDENCE (ev @ (if span_ok c ref_ns evs then cond_reps c ref_ns evs else []))"
    using Cons.prems by (simp add: cond_evidence_def)
  show ?case
    using Cons.IH[OF cond_evidence_bound[OF Cons.prems, of c ref_ns evs]]
    unfolding fold_Cons comp_def ce list.map concat.simps append_assoc[symmetric] take_take_append .
qed simp

text \<open>C14: What one ingested event makes the engine report: at most one finding per rule, in the order of the
  rules. Each carries the id and severity of its rule, the event's device and time, the vendor and product
  known for the device, as count the largest value any condition of the rule has over the newest 1024 events of
  the device (none falls short of its required count), as evidence the first six of the events the conditions
  count, in the order of the conditions and newest first, and as texts the templates of the rule expanded with
  that count, the longest lookback of the conditions and the comm of the event.\<close>

theorem ingest_findings_sound:
  assumes "eng_ok e" "f \<in> set (snd (diag_engine_ingest clk evt e))"
  shows "let r = g_rules e ! fd_rule f; now = ev_ts_ns evt;
            evs = take WIN_MAX_EVENTS (evt # dev_log e (diag_event_key evt));
            within = Max (insert 0 (c_within_ms ` set (filter c_has_within_ms (r_when r)))) in
    sorted_wrt (<) (map fd_rule (snd (diag_engine_ingest clk evt e)))
    \<and> fd_rule f < length (g_rules e) \<and> fd_id f = r_id r \<and> fd_severity f = r_severity r
    \<and> fd_key f = diag_event_key evt \<and> fd_ref_ns f = now
    \<and> fd_count f = Max (insert 0 ((\<lambda>c. cond_value c now evs) ` set (r_when r)))
    \<and> (\<forall>c \<in> set (r_when r). cond_need c \<le> fd_count f)
    \<and> fd_evidence f = take MAX_EVIDENCE (concat (map (\<lambda>c. if span_ok c now evs then cond_reps c now evs else []) (r_when r)))
    \<and> length (fd_evidence f) \<le> MAX_EVIDENCE
    \<and> (\<forall>x \<in> set (fd_evidence f). \<exists>c \<in> set (r_when r). x \<in> set (cond_hits c now evs))
    \<and> (\<exists>w. eng_win (fst (diag_engine_ingest clk evt e)) (diag_event_key evt) = Some w
         \<and> fd_vid f = w_vid w \<and> fd_pid f = w_pid w
         \<and> fd_conclusion f = expand (r_conclusion r) w (fd_count f) within (Some (bytes_cstr (ev_comm evt))) 512
         \<and> fd_fix f = expand (r_fix r) w (fd_count f) within (Some (bytes_cstr (ev_comm evt))) 512)"
proof -
  let ?w = "ingest_win evt (base_win e (diag_event_key evt))"
  have out: "snd (diag_engine_ingest clk evt e) = ingest_out clk evt (g_rules e) ?w"
    using ingest_abs[OF assms(1) refl, of clk evt] by blast
  then obtain ri where ri: "ri < length (g_rules e)" "rule_fires clk evt (g_rules e ! ri) ri ?w"
    "f = rule_finding evt (g_rules e ! ri) ri ?w"
    using assms(2) by (auto simp: set_ingest_outs)
  have sorted: "sorted_wrt (<) (map fd_rule (snd (diag_engine_ingest clk evt e)))"
    by (simp add: out ingest_out_rules sorted_wrt_filter)
  have key: "fd_key f = diag_event_key evt"
    using ingest_outs_key[of e f clk evt] assms by simp
  note log = ingest_win_base(1)[OF assms(1)]
  have win: "eng_win (fst (diag_engine_ingest clk evt e)) (diag_event_key evt) = Some (fired_win clk evt (g_rules e) ?w)"
    using ingest_tracks[OF assms(1)] by (simp add: engine_next_def)
  have texts: "expand t (fired_win clk evt (g_rules e) ?w) = expand t ?w" for t
    by (simp add: fired_win_def expand_def fun_eq_iff)
  have vals: "fd_count f = Max (insert 0 ((\<lambda>c. cond_value c (ev_ts_ns evt) (win_log ?w)) ` set (r_when (g_rules e ! ri))))"
    "fd_evidence f = take MAX_EVIDENCE (concat (map (\<lambda>c. if span_ok c (ev_ts_ns evt) (win_log ?w)
        then cond_reps c (ev_ts_ns evt) (win_log ?w) else []) (r_when (g_rules e ! ri))))"
    "whens_window (r_when (g_rules e ! ri)) = Max (insert 0 (c_within_ms ` set (filter c_has_within_ms (r_when (g_rules e ! ri)))))"
    using fold_evidence_take[of "[]"]
    by (simp_all add: ri(3) rule_finding_def print_finding_def whens_count_def fold_max_Max whens_evidence_def
        whens_window_def fold_within_Max MAX_EVIDENCE_def)
  have rule: "fd_rule f = ri" "fd_id f = r_id (g_rules e ! ri)" "fd_severity f = r_severity (g_rules e ! ri)"
    "fd_vid f = w_vid ?w" "fd_pid f = w_pid ?w"
    "fd_conclusion f = expand (r_conclusion (g_rules e ! ri)) ?w (fd_count f) (whens_window (r_when (g_rules e ! ri)))
       (Some (bytes_cstr (ev_comm evt))) 512"
    "fd_fix f = expand (r_fix (g_rules e ! ri)) ?w (fd_count f) (whens_window (r_when (g_rules e ! ri)))
       (Some (bytes_cstr (ev_comm evt))) 512"
    by (simp_all add: ri(3) rule_finding_def print_finding_def)
  note facts = rule_finding_facts[OF ri(2,3)]
  show ?thesis
    unfolding Let_def rule(1) log[symmetric]
    by (intro conjI exI[of _ "fired_win clk evt (g_rules e) ?w"] sorted ri(1) rule(2,3) key facts vals(1,2) win)
      (simp_all add: rule texts vals(3))
qed

lemma demo_fire:
  "rule_finding (demo_urb 9) demo_event_rule 0 (ingest_win (demo_urb 9) (fresh_win demo_key))
     \<in> set (snd (diag_engine_ingest (\<lambda>_. 12) (demo_urb 9) demo_engine))"
proof -
  have base: "base_win demo_engine demo_key = fresh_win demo_key" by (simp add: base_win_def)
  have ts: "ev_ts_ns (demo_urb 9) = 9" by (simp add: demo_urb_def)
  have r: "r_type demo_event_rule = RULE_EVENT" "r_when demo_event_rule = [demo_cond]"
    "trigger_match (r_trigger demo_event_rule) (demo_urb 9)" "cond_need demo_cond = 1"
    by (simp_all add: demo_defs diag_pred_iffs cond_need_def)
  have log: "win_log (ingest_win (demo_urb 9) (fresh_win demo_key)) = [demo_urb 9]"
    by (simp add: ingest_win_log WIN_MAX_EVENTS_def)
  have "w_last_fire_ns (fresh_win demo_key) 0 = 0" by (simp add: fresh_win_def zero_devwin_def)
  then have "rule_fires (\<lambda>_. 12) (demo_urb 9) demo_event_rule 0 (ingest_win (demo_urb 9) (fresh_win demo_key))"
    by (simp add: rule_fires_def r ts log whens_hold_def demo_value)
  then show ?thesis
    using ingest_abs[of demo_engine demo_key "demo_urb 9" "\<lambda>_. 12"]
    by (auto simp: set_ingest_outs base)
qed

lemma demo_reps: "span_ok demo_cond 9 [demo_urb 9]" "cond_reps demo_cond 9 [demo_urb 9] = [demo_urb 9]"
  by (simp_all add: span_ok_def cond_reps_def cluster_ns_def cond_hits_def cond_hit_def diag_pred_iffs demo_defs ms_to_ns_def)

theorem ingest_findings_sound_witness:
  "\<exists>f \<in> set (snd (diag_engine_ingest (\<lambda>_. 12) (demo_urb 9) demo_engine)).
     fd_key f = demo_key \<and> fd_ref_ns f = 9 \<and> fd_count f = 1 \<and> fd_evidence f = [demo_urb 9] \<and> fd_id f = Some ''proto''"
proof (rule bexI[OF _ demo_fire])
  have ts: "ev_ts_ns (demo_urb 9) = 9" by (simp add: demo_urb_def)
  have r: "r_when demo_event_rule = [demo_cond]" "r_id demo_event_rule = Some ''proto''" by (simp_all add: demo_event_rule_def zero_rule_def)
  have z: "fd_rule (rule_finding evt r 0 w) = 0" for evt r w by (simp add: rule_finding_def print_finding_def)
  let ?f = "rule_finding (demo_urb 9) demo_event_rule 0 (ingest_win (demo_urb 9) (fresh_win demo_key))"
  show "fd_key ?f = demo_key \<and> fd_ref_ns ?f = 9 \<and> fd_count ?f = 1 \<and> fd_evidence ?f = [demo_urb 9] \<and> fd_id ?f = Some ''proto''"
    using ingest_findings_sound[OF demo_ok(1) demo_fire]
    by (simp add: Let_def ts r z demo_dev_log WIN_MAX_EVENTS_def MAX_EVIDENCE_def demo_value demo_reps)
qed

text \<open>C6: After an event rule reported a device, it does not report that device again through any
  sequence of events and ticks that keeps the device tracked, as long as the clock read at each
  ingest is less than the cooldown of two seconds past the report.\<close>

theorem cooldown_holds:
  assumes "eng_ok e" "f \<in> set (snd (diag_engine_ingest clk evt e))" "clk (fd_rule f) \<noteq> 0"
    and "stays_tracked (diag_event_key evt) ops (fst (diag_engine_ingest clk evt e))"
    and "list_all (in_cooldown (clk (fd_rule f)) (fd_rule f)) ops"
  shows "\<forall>f' \<in> set (engine_outs ops (fst (diag_engine_ingest clk evt e))).
    \<not> (fd_rule f' = fd_rule f \<and> fd_key f' = diag_event_key evt)"
proof -
  let ?e = "engine_next (Ingest clk evt) e"
  let ?w = "ingest_win evt (base_win e (diag_event_key evt))"
  have win: "eng_win ?e (diag_event_key evt) = Some (fired_win clk evt (g_rules e) ?w)"
    by (rule ingest_tracks[OF assms(1)])
  have "snd (diag_engine_ingest clk evt e) = ingest_out clk evt (g_rules e) ?w"
    using ingest_abs[OF assms(1) refl, of clk evt] by blast
  then obtain ri where ri: "ri < length (g_rules e)" "rule_fires clk evt (g_rules e ! ri) ri ?w"
    "fd_rule f = ri"
    using assms(2) by (auto simp: set_ingest_outs)
  have "w_last_fire_ns (fired_win clk evt (g_rules e) ?w) ri = clk ri"
    using ri by (simp add: fired_win_def)
  from cooldown_run[OF eng_ok_next[OF assms(1)] win this] show ?thesis
    using assms ri g_rules_next[of "Ingest clk evt" e] by (simp add: engine_next_def rule_fires_def)
qed

theorem cooldown_holds_witness:
  "filter (\<lambda>f. fd_rule f = 0 \<and> fd_key f = demo_key)
     (engine_outs [Ingest (\<lambda>_. 13) (demo_urb 10)] (fst (diag_engine_ingest (\<lambda>_. 12) (demo_urb 9) demo_engine))) = []"
proof -
  let ?e = "fst (diag_engine_ingest (\<lambda>_. 12) (demo_urb 9) demo_engine)"
  have ok: "eng_ok ?e" by (rule eng_ok_ingest) simp
  have "eng_win ?e demo_key \<noteq> None"
    using ingest_tracks[of demo_engine "\<lambda>_. 12" "demo_urb 9"] by (simp add: engine_next_def)
  moreover have "eng_win (engine_next (Ingest (\<lambda>_. 13) (demo_urb 10)) ?e) demo_key \<noteq> None"
    using ingest_tracks[OF ok, of "\<lambda>_. 13" "demo_urb 10"] by simp
  ultimately show ?thesis
    using cooldown_holds[OF demo_ok(1) demo_fire, of "[Ingest (\<lambda>_. 13) (demo_urb 10)]"]
    by (simp add: COOLDOWN_NS_def filter_empty_conv)
qed

section \<open>Device windows\<close>

text \<open>C3: After ingesting any sequence of events from at most 128 distinct devices, in any
  interleaving, the engine's window of a device holds exactly the newest 1024 events of that device,
  newest first; and the window remembers a device state exactly when an enumeration event of the
  current episode (since the last \<open>NOTATTACHED\<close> or disconnect) reported it.\<close>

theorem device_window_correct:
  assumes "card (keys_of xs) \<le> WIN_MAX_DEVS" "events_of k xs \<noteq> []"
  shows "\<exists>w. eng_win (engine_run (ingests xs) (diag_engine_create rules)) k = Some w
    \<and> win_log w = take WIN_MAX_EVENTS (rev (events_of k xs))
    \<and> (\<forall>s<9. bit (w_seen_states w) s \<longleftrightarrow> state_seen (episode (events_of k xs)) s)"
proof -
  obtain w where w: "eng_win (engine_run (ingests xs) (diag_engine_create rules)) k = Some w"
    "win_core w = fold ingest_win (events_of k xs) (fresh_win k)"
    using ingest_run_core[OF assms(1), of rules k] assms(2) by auto
  have "win_log w = take WIN_MAX_EVENTS (rev (events_of k xs))"
    using win_log_core[of w] by (simp add: w(2) fold_ingest_win_log)
  moreover have "w_seen_states w = w_seen_states (win_core w)" by (simp add: win_core_def)
  ultimately show ?thesis using w episode_states[of _ "events_of k xs" k] by auto
qed

theorem device_window_correct_witness:
  "\<exists>w. eng_win (engine_run (ingests [(\<lambda>_. 1, demo_state 3 1), (\<lambda>_. 2, demo_state 5 0), (\<lambda>_. 3, demo_state 9 5)])
        (diag_engine_create [])) demo_key = Some w
     \<and> win_log w = [demo_state 9 5, demo_state 5 0, demo_state 3 1]
     \<and> bit (w_seen_states w) 5 \<and> \<not> bit (w_seen_states w) 1"
proof -
  let ?xs = "[(\<lambda>_. 1, demo_state 3 1), (\<lambda>_. 2, demo_state 5 0), (\<lambda>_. 3, demo_state 9 5)]
    :: ((nat \<Rightarrow> u64) \<times> diag_event) list"
  have ev: "events_of demo_key ?xs = [demo_state 3 1, demo_state 5 0, demo_state 9 5]"
    by (simp add: events_of_def)
  have "card (keys_of ?xs) \<le> WIN_MAX_DEVS" by (simp add: keys_of_def WIN_MAX_DEVS_def)
  from device_window_correct[OF this, of demo_key "[]"]
  obtain w where w: "eng_win (engine_run (ingests ?xs) (diag_engine_create [])) demo_key = Some w"
    "win_log w = take WIN_MAX_EVENTS (rev (events_of demo_key ?xs))"
    "\<forall>s<9. bit (w_seen_states w) s \<longleftrightarrow> state_seen (episode (events_of demo_key ?xs)) s"
    by (auto simp: ev)
  have ep: "episode (events_of demo_key ?xs) = [demo_state 5 0, demo_state 9 5]"
    unfolding ev by (simp add: episode_def episode_step_def starts_episode_def demo_state_def)
      (simp add: ut_const zero_event_def)
  have "state_seen [demo_state 5 0, demo_state 9 5] 5" "\<not> state_seen [demo_state 5 0, demo_state 9 5] 1"
    by (simp_all add: state_seen_def is_state_def demo_state_def zero_event_def)
  then show ?thesis using w ev ep by (auto simp: WIN_MAX_EVENTS_def)
qed

text \<open>Ingesting an event changes no other device's window, with one exception: when the event's
  device is new and all 128 slots are in use, the device that was seen longest ago is dropped.\<close>

theorem ingest_frame:
  assumes "eng_ok e" "k \<noteq> diag_event_key evt"
  shows "eng_win (fst (diag_engine_ingest clk evt e)) k = eng_win e k
    \<or> eng_win (fst (diag_engine_ingest clk evt e)) k = None \<and> eng_win e (diag_event_key evt) = None
      \<and> (\<forall>j < WIN_MAX_DEVS. w_used (g_devs e j))
      \<and> (\<exists>i < WIN_MAX_DEVS. w_key (g_devs e i) = k
           \<and> (\<forall>j < WIN_MAX_DEVS. w_last_seen_ns (g_devs e i) \<le> w_last_seen_ns (g_devs e j)))"
proof -
  note abs = ingest_abs[OF assms(1) refl, of clk evt, THEN conjunct1]
  show ?thesis
  proof (cases "victim e (diag_event_key evt) = Some k")
    case True
    then show ?thesis using victim_all_used[OF True] by (simp add: abs)
  next
    case False
    then have "eng_win (fst (diag_engine_ingest clk evt e)) k = eng_win e k"
      using assms(2) by (auto simp: abs restrict_map_def split: option.split)
    then show ?thesis by blast
  qed
qed

theorem ingest_frame_witness:
  "eng_win (fst (diag_engine_ingest (\<lambda>_. 1) (demo_urb 9) demo_engine)) \<lparr> key_busnum = 2, key_devnum = 2 \<rparr> = None"
  using ingest_frame[OF demo_ok(1), of "\<lparr> key_busnum = 2, key_devnum = 2 \<rparr>" "demo_urb 9" "\<lambda>_. 1"]
  by (auto simp: demo_key_def)

section \<open>Deadline rules and the tick\<close>

text \<open>C7: A tick reports a deadline rule for a device exactly when the device has reached the rule's
  state in this episode, has not reached the awaited one, the timeout has passed since the state was
  first reached, and the rule has not yet reported this episode; the finding names device and rule.\<close>

theorem tick_fires_iff:
  assumes "eng_ok e" "ri < length (g_rules e)"
  shows "(\<exists>f \<in> set (snd (diag_engine_tick now e)). fd_rule f = ri \<and> fd_key f = k) \<longleftrightarrow>
    (\<exists>w. eng_win e k = Some w \<and> r_type (g_rules e ! ri) = RULE_DEADLINE
      \<and> 0 \<le> r_dl_reached_state (g_rules e ! ri) \<and> r_dl_reached_state (g_rules e ! ri) \<le> 8
      \<and> bit (w_seen_states w) (nat (r_dl_reached_state (g_rules e ! ri)))
      \<and> \<not> (0 \<le> r_dl_without_state (g_rules e ! ri) \<and> r_dl_without_state (g_rules e ! ri) \<le> 8
            \<and> bit (w_seen_states w) (nat (r_dl_without_state (g_rules e ! ri))))
      \<and> ms_to_ns (r_dl_timeout_ms (g_rules e ! ri))
          \<le> now - w_state_ts w (nat (r_dl_reached_state (g_rules e ! ri)))
      \<and> w_dl_fired w ri = 0)"
proof -
  have "(\<exists>f \<in> set (snd (diag_engine_tick now e)). fd_rule f = ri \<and> fd_key f = k) \<longleftrightarrow>
      (\<exists>w. eng_win e k = Some w \<and> dl_fires now (g_rules e ! ri) ri w)"
    using assms eng_win_key unfolding Bex_def set_tick_outs[OF assms(1)] by fastforce
  then show ?thesis by (simp only: dl_fires_def)
qed

definition demo_stuck :: engine where
  "demo_stuck = engine_next (Ingest (\<lambda>_. 1) (demo_state 7 5)) demo_engine"

lemma demo_stuck_facts:
  "eng_ok demo_stuck" "g_rules demo_stuck = [demo_event_rule, demo_deadline_rule]"
  "eng_win demo_stuck demo_key = Some (fired_win (\<lambda>_. 1) (demo_state 7 5) (g_rules demo_engine)
     (ingest_win (demo_state 7 5) (fresh_win demo_key)))"
  using ingest_tracks[of demo_engine "\<lambda>_. 1" "demo_state 7 5"]
  by (simp_all add: demo_stuck_def eng_ok_next base_win_def)

lemma demo_stuck_fires:
  "dl_fires 2000000007 demo_deadline_rule 1 (fired_win (\<lambda>_. 1) (demo_state 7 5) rs (ingest_win (demo_state 7 5) (fresh_win demo_key)))"
  by (simp add: dl_fires_def ingest_win_def win_track_def win_note_def fresh_win_def zero_devwin_def
      demo_deadline_rule_def demo_state_def zero_rule_def zero_event_def ut_const Let_def ms_to_ns_def)

theorem tick_fires_iff_witness:
  "\<exists>f \<in> set (snd (diag_engine_tick 2000000007 demo_stuck)). fd_rule f = 1 \<and> fd_key f = demo_key"
  using demo_stuck_fires[of "g_rules demo_engine"] demo_stuck_facts
  by (subst tick_fires_iff) (auto simp: dl_fires_def)

text \<open>C8: Between two reports of a deadline rule for the same device, either a new enumeration episode of the
  device began (\<open>NOTATTACHED\<close> or a disconnect), or the engine had forgotten the device: a tick found its last
  event more than ten seconds old (the reporting tick itself may be that one), or an event of a new device took
  over its slot because all 128 were in use and it had been silent longest. So a device that is neither
  forgotten nor enumerated anew is reported at most once.\<close>

theorem deadline_once_per_episode:
  assumes "eng_ok e" "f \<in> set (snd (diag_engine_tick now e))"
    and "f' \<in> set (snd (engine_step op (engine_run (Tick now # ops) e)))" "fd_rule f' = fd_rule f" "fd_key f' = fd_key f"
  shows "\<exists>pre op' post. Tick now # ops = pre @ op' # post
    \<and> (resets_dev (fd_key f) op' \<or> drops_dev (fd_key f) op' (engine_run pre e))"
proof -
  let ?e = "engine_next (Tick now) e"
  obtain k w ri where r: "eng_win e k = Some w" "ri < length (g_rules e)"
    "dl_fires now (g_rules e ! ri) ri w" "f = dl_finding now (g_rules e ! ri) ri w"
    using assms(2) set_tick_outs[OF assms(1)] by blast
  have key: "fd_key f = k" "fd_rule f = ri" using r eng_win_key[OF r(1)] by simp_all
  show ?thesis
  proof (cases "eng_win ?e k")
    case None
    then have "drops_dev k (Tick now) (engine_run [] e)"
      unfolding engine_run_simps by (rule drops_exact[OF assms(1) r(1)])
    then show ?thesis unfolding key by blast
  next
    case (Some w')
    then have "w' = latched_win now (g_rules e) w"
      using tick_tracked[OF assms(1)] r(1) by fastforce
    then have l: "w_dl_fired w' ri \<noteq> 0" using r by (simp add: latched_win_def)
    have dl: "r_type (g_rules ?e ! ri) = RULE_DEADLINE" using r(3) by (simp add: dl_fires_def)
    obtain pre op' post where p: "ops = pre @ op' # post" "resets_dev k op' \<or> drops_dev k op' (engine_run pre ?e)"
      using latch_cleared[OF eng_ok_next[OF assms(1)] Some l dl, of f' op ops] assms(3-5) key by auto
    then have "Tick now # ops = (Tick now # pre) @ op' # post"
      "resets_dev k op' \<or> drops_dev k op' (engine_run (Tick now # pre) e)" by simp_all
    then show ?thesis unfolding key by blast
  qed
qed

text \<open>A device reported at 2 s, forgotten by the tick at 11 s, seen again at 12 s in the same state without a new
  episode, and reported again at 14 s.\<close>

definition demo_again :: engine where
  "demo_again = engine_run [Tick 2000000007, Tick 11000000000, Ingest (\<lambda>_. 2) (demo_state 12000000000 5)] demo_stuck"

lemma demo_again_win:
  "eng_ok demo_again"
  "eng_win demo_again demo_key = Some (fired_win (\<lambda>_. 2) (demo_state 12000000000 5) (g_rules demo_engine)
     (ingest_win (demo_state 12000000000 5) (fresh_win demo_key)))"
proof -
  let ?e1 = "engine_next (Tick 2000000007) demo_stuck"
  let ?e2 = "engine_next (Tick 11000000000) ?e1"
  have ok: "eng_ok ?e1" "eng_ok ?e2" by (intro eng_ok_next demo_stuck_facts(1))+
  then show "eng_ok demo_again" by (simp add: demo_again_def eng_ok_next)
  have seen: "w_last_seen_ns (fired_win (\<lambda>_. 1) (demo_state 7 5) (g_rules demo_engine)
      (ingest_win (demo_state 7 5) (fresh_win demo_key))) = 7" by (simp add: demo_state_def)
  have "eng_win ?e1 demo_key = Some (latched_win 2000000007 (g_rules demo_stuck) (fired_win (\<lambda>_. 1) (demo_state 7 5)
      (g_rules demo_engine) (ingest_win (demo_state 7 5) (fresh_win demo_key))))"
    unfolding engine_next_def engine_step.simps tick_abs[OF demo_stuck_facts(1)] demo_stuck_facts(3)
    using seen by (simp add: RETENTION_NS_def)
  then have "eng_win ?e2 demo_key = None"
    using seen by (simp add: engine_next_def[of "Tick 11000000000"] tick_abs[OF ok(1)] latched_win_def RETENTION_NS_def)
  then have "base_win ?e2 demo_key = fresh_win demo_key" by (simp add: base_win_def)
  then show "eng_win demo_again demo_key = Some (fired_win (\<lambda>_. 2) (demo_state 12000000000 5) (g_rules demo_engine)
     (ingest_win (demo_state 12000000000 5) (fresh_win demo_key)))"
    using ingest_tracks[OF ok(2), of "\<lambda>_. 2" "demo_state 12000000000 5"] demo_stuck_facts(2)
    by (simp add: demo_again_def)
qed

lemma demo_again_fires:
  "dl_fires 14000000000 demo_deadline_rule 1
     (fired_win (\<lambda>_. 2) (demo_state 12000000000 5) rs (ingest_win (demo_state 12000000000 5) (fresh_win demo_key)))"
  by (simp add: dl_fires_def ingest_win_def win_track_def win_note_def fresh_win_def zero_devwin_def
      demo_deadline_rule_def demo_state_def zero_rule_def zero_event_def ut_const Let_def ms_to_ns_def)

lemma demo_reports:
  "dl_finding 2000000007 demo_deadline_rule 1 (fired_win (\<lambda>_. 1) (demo_state 7 5) (g_rules demo_engine)
      (ingest_win (demo_state 7 5) (fresh_win demo_key))) \<in> set (snd (diag_engine_tick 2000000007 demo_stuck))"
  "dl_finding 14000000000 demo_deadline_rule 1 (fired_win (\<lambda>_. 2) (demo_state 12000000000 5) (g_rules demo_engine)
      (ingest_win (demo_state 12000000000 5) (fresh_win demo_key))) \<in> set (snd (diag_engine_tick 14000000000 demo_again))"
proof -
  have rules: "g_rules demo_again = [demo_event_rule, demo_deadline_rule]"
    by (simp add: demo_again_def demo_stuck_facts(2))
  show "dl_finding 2000000007 demo_deadline_rule 1 (fired_win (\<lambda>_. 1) (demo_state 7 5) (g_rules demo_engine)
      (ingest_win (demo_state 7 5) (fresh_win demo_key))) \<in> set (snd (diag_engine_tick 2000000007 demo_stuck))"
    unfolding set_tick_outs[OF demo_stuck_facts(1)]
    using demo_stuck_facts demo_stuck_fires[of "g_rules demo_engine"]
    by (intro CollectI exI[of _ demo_key] exI[of _ "fired_win (\<lambda>_. 1) (demo_state 7 5) (g_rules demo_engine)
      (ingest_win (demo_state 7 5) (fresh_win demo_key))"] exI[of _ 1]) simp
  show "dl_finding 14000000000 demo_deadline_rule 1 (fired_win (\<lambda>_. 2) (demo_state 12000000000 5) (g_rules demo_engine)
      (ingest_win (demo_state 12000000000 5) (fresh_win demo_key))) \<in> set (snd (diag_engine_tick 14000000000 demo_again))"
    unfolding set_tick_outs[OF demo_again_win(1)]
    using demo_again_win(2) demo_again_fires[of "g_rules demo_engine"] rules
    by (intro CollectI exI[of _ demo_key] exI[of _ "fired_win (\<lambda>_. 2) (demo_state 12000000000 5) (g_rules demo_engine)
      (ingest_win (demo_state 12000000000 5) (fresh_win demo_key))"] exI[of _ 1]) simp
qed

theorem deadline_once_per_episode_witness:
  "\<exists>pre op post. [Tick 2000000007, Tick 11000000000, Ingest (\<lambda>_. 2) (demo_state 12000000000 5)] = pre @ op # post
     \<and> (resets_dev demo_key op \<or> drops_dev demo_key op (engine_run pre demo_stuck))"
proof -
  let ?f = "dl_finding 2000000007 demo_deadline_rule 1 (fired_win (\<lambda>_. 1) (demo_state 7 5) (g_rules demo_engine)
      (ingest_win (demo_state 7 5) (fresh_win demo_key)))"
  let ?f' = "dl_finding 14000000000 demo_deadline_rule 1 (fired_win (\<lambda>_. 2) (demo_state 12000000000 5)
      (g_rules demo_engine) (ingest_win (demo_state 12000000000 5) (fresh_win demo_key)))"
  have "?f' \<in> set (snd (engine_step (Tick 14000000000) (engine_run (Tick 2000000007
      # [Tick 11000000000, Ingest (\<lambda>_. 2) (demo_state 12000000000 5)]) demo_stuck)))"
    using demo_reports(2) by (simp only: engine_step.simps demo_again_def)
  from deadline_once_per_episode[OF demo_stuck_facts(1) demo_reports(1) this]
  show ?thesis by (simp add: fresh_win_def)
qed

text \<open>A new enumeration episode re-arms the deadline rules: an event with state
  \<open>NOTATTACHED\<close> or a disconnect clears every latch of its device and all states it remembered but the
  one the event itself reports; other events of the device leave the latches as they are.\<close>

theorem episode_rearms:
  assumes "eng_ok e" "eng_win e (diag_event_key evt) = Some w"
  shows "\<exists>w'. eng_win (fst (diag_engine_ingest clk evt e)) (diag_event_key evt) = Some w'
    \<and> w_dl_fired w' = (if starts_episode evt then (\<lambda>_. 0) else w_dl_fired w)
    \<and> (\<forall>s<9. bit (w_seen_states w') s \<longleftrightarrow>
         (\<not> starts_episode evt \<and> bit (w_seen_states w) s) \<or> (is_state evt \<and> unat (ev_new_state evt) = s))"
  using ingest_own(1)[OF assms, of clk] win_track_states[of _ evt "win_note evt w"]
  by (simp add: engine_next_def ingest_win_def[symmetric])

theorem episode_rearms_witness:
  "\<exists>w'. eng_win (fst (diag_engine_ingest (\<lambda>_. 1) (demo_state 9 0) demo_stuck)) demo_key = Some w'
    \<and> w_dl_fired w' = (\<lambda>_. 0)"
proof -
  have "starts_episode (demo_state 9 0)"
    by (simp add: starts_episode_def demo_state_def zero_event_def)
  then show ?thesis
    using episode_rearms[OF demo_stuck_facts(1), of "demo_state 9 0" _ "\<lambda>_. 1"] demo_stuck_facts(3) by auto
qed

lemma engine_ticks_silent:
  "eng_ok e \<Longrightarrow> eng_win e k = None \<Longrightarrow>
   \<forall>f \<in> set (engine_outs (map Tick ts) e). fd_key f \<noteq> k"
proof (induction ts arbitrary: e)
  case (Cons t ts)
  have "eng_win (engine_next (Tick t) e) k = None"
    using Cons.prems by (simp add: engine_next_def tick_abs)
  from Cons.IH[OF eng_ok_next[OF Cons.prems(1)] this]
  have "\<forall>f \<in> set (engine_outs (map Tick ts) (engine_next (Tick t) e)). fd_key f \<noteq> k" .
  moreover have "fd_key f \<noteq> k" if "f \<in> set (snd (diag_engine_tick t e))" for f
    using that Cons.prems eng_win_key[of e] unfolding set_tick_outs[OF Cons.prems(1)] by fastforce
  ultimately show ?case by auto
qed simp

text \<open>A tick forgets a device exactly when the device has been silent for more than ten seconds,
  and a forgotten device is never reported by a later deadline: a deadline rule whose timeout has not
  passed at the tick that drops the device stays silent for it through all later ticks.\<close>

theorem tick_retention:
  assumes "eng_ok e" "eng_win e k = Some w"
  shows "(eng_win (fst (diag_engine_tick now e)) k = None \<longleftrightarrow> RETENTION_NS < now - w_last_seen_ns w)
    \<and> (RETENTION_NS < now - w_last_seen_ns w \<longrightarrow>
       (\<forall>f \<in> set (engine_outs (map Tick ts) (fst (diag_engine_tick now e))). fd_key f \<noteq> k))"
  using assms engine_ticks_silent[OF eng_ok_tick[OF assms(1)], of now k ts] by (auto simp: tick_abs not_le)

theorem tick_retention_witness:
  "eng_win (fst (diag_engine_tick 10000000008 demo_stuck)) demo_key = None"
proof -
  have "w_last_seen_ns (fired_win (\<lambda>_. 1) (demo_state 7 5) (g_rules demo_engine)
      (ingest_win (demo_state 7 5) (fresh_win demo_key))) = 7" by (simp add: demo_state_def)
  then show ?thesis
    using tick_retention[OF demo_stuck_facts(1,3), of 10000000008 "[]"] by (simp add: RETENTION_NS_def)
qed

section \<open>Whole runs\<close>

lemma sum_list_filter_nonzero: "(\<Sum>x\<leftarrow>filter (\<lambda>(_, n). n \<noteq> 0) rows. snd x) = (\<Sum>x\<leftarrow>rows. snd (x :: 'a \<times> u64))"
  by (induction rows) auto

lemma report_total:
  assumes "eng_ok e"
  shows "case diag_engine_report json e of
           NoFindings \<Rightarrow> (\<Sum>r<length (g_rules e). g_fire_count e r) = 0
         | Summary t rows \<Rightarrow> t = (\<Sum>x\<leftarrow>rows. snd x)"
proof -
  have "(\<Sum>x\<leftarrow>map (\<lambda>i. (r_id (g_rules e ! i), g_fire_count e i)) [0..<length (g_rules e)]. snd x)
      = (\<Sum>r<length (g_rules e). g_fire_count e r)"
    by (simp add: interv_sum_list_conv_sum_set_nat atLeast0LessThan comp_def)
  then show ?thesis using assms
    by (simp add: diag_engine_report_def eng_ok_def Let_def sum_list_filter_nonzero)
qed

text \<open>C13: After any sequence of ingests and ticks, every ring index the code computes is inside the
  1024 entries, no two live slots hold the same device, and the summary's total is the sum of its
  per-rule hits, in both output formats.\<close>

theorem engine_run_invariant:
  "(\<forall>i idx. w_head (g_devs (engine_run ops (diag_engine_create rules)) i) < WIN_MAX_EVENTS
      \<and> w_count (g_devs (engine_run ops (diag_engine_create rules)) i) \<le> WIN_MAX_EVENTS
      \<and> win_pos (g_devs (engine_run ops (diag_engine_create rules)) i) idx < WIN_MAX_EVENTS)
   \<and> win_uniq (g_devs (engine_run ops (diag_engine_create rules)))
   \<and> (case diag_engine_report json (engine_run ops (diag_engine_create rules)) of
        NoFindings \<Rightarrow> (\<Sum>r<length rules. g_fire_count (engine_run ops (diag_engine_create rules)) r) = 0
      | Summary t rows \<Rightarrow> t = (\<Sum>x\<leftarrow>rows. snd x))"
proof -
  have ok: "eng_ok (engine_run ops (diag_engine_create rules))"
    by (rule eng_ok_run[OF eng_ok_create])
  then show ?thesis using report_total[OF ok, of json, unfolded engine_rules g_rules_create] win_pos_bound
    by (simp add: eng_ok_def win_ok_def)
qed

section \<open>Texts\<close>

text \<open>Expanding a conclusion or fix template into a buffer gives the full expansion cut to the
  buffer: plain text is copied, a known placeholder is replaced by its value, an unknown or overlong
  one is kept, and at most size minus one characters are written.\<close>

theorem expand_correct:
  assumes "0 < outsz"
  shows "expand (Some tmpl) w count window_ms comm outsz
      = take (outsz - 1) (expand_full (expand_val w count window_ms comm) tmpl)
    \<and> length (expand (Some tmpl) w count window_ms comm outsz) < outsz"
proof -
  have "expand (Some tmpl) w count window_ms comm outsz
      = take (outsz - 1) (expand_full (expand_val w count window_ms comm) tmpl)"
    using expand_loop_spec[OF assms, of "[]" "[]" 0 "expand_val w count window_ms comm" tmpl]
    by (simp add: expand_def split: prod.split)
  then show ?thesis using assms by simp
qed

theorem expand_correct_witness:
  "expand (Some ''{count} errors on {bus}'') (fresh_win demo_key) 3 0 None 12 = ''3 errors on''"
proof -
  have "expand_full (expand_val (fresh_win demo_key) 3 0 None) ''{count} errors on {bus}'' = ''3 errors on 1''"
    by (simp add: brace_key_def after_brace_def expand_val_def fresh_win_def demo_key_def snprintf_s_def
        show_long_def show_dec_def show_base_10 digit_char_def)
  then show ?thesis using expand_correct[of 12 "''{count} errors on {bus}''" "fresh_win demo_key" 3 0 None]
    by simp
qed

end
