(* ===== verification/Ut_Wire.thy ===== *)
theory Ut_Wire
  imports Ut_Prelude
begin

text \<open>
  The records the BPF programs put on the ring buffers, as the bytes user space reads: the structs of
  \<open>urb.h\<close>, \<open>enum.h\<close>, \<open>power.h\<close>, \<open>lifecycle.h\<close>, \<open>hub.h\<close>, \<open>class.h\<close> and \<open>uvc.h\<close> with the common envelope of
  \<open>common.h\<close>. Members are at the offsets the C ABI gives them (natural alignment, little endian, tail
  padding to a multiple of eight); \<open>enc_x\<close> is what the producer writes, \<open>dec_x\<close> what a consumer reads
  through a struct pointer. The interface locale \<open>record_codec\<close> states that the two agree.
\<close>

section \<open>Little-endian members\<close>

fun le_bytes :: "nat \<Rightarrow> ('a::len) word \<Rightarrow> u8 list" where
  "le_bytes 0 w = []"
| "le_bytes (Suc k) w = ucast w # le_bytes k (drop_bit 8 w)"

definition le16 :: "u16 \<Rightarrow> u8 list" where
  "le16 w = le_bytes 2 w"

definition le32 :: "u32 \<Rightarrow> u8 list" where
  "le32 w = le_bytes 4 w"

definition le64 :: "u64 \<Rightarrow> u8 list" where
  "le64 w = le_bytes 8 w"

definition pad :: "nat \<Rightarrow> u8 list" where
  "pad n = replicate n 0"

definition get8 :: "nat \<Rightarrow> u8 list \<Rightarrow> u8" where
  "get8 n bs = hd (drop n bs)"

text \<open>The value of a little-endian byte sequence.\<close>

fun le_val :: "u8 list \<Rightarrow> ('a::len) word" where
  "le_val [] = 0"
| "le_val (b # bs) = ucast b OR push_bit 8 (le_val bs)"

definition get16 :: "nat \<Rightarrow> u8 list \<Rightarrow> u16" where
  "get16 n bs = le_val (take 2 (drop n bs))"

definition get32 :: "nat \<Rightarrow> u8 list \<Rightarrow> u32" where
  "get32 n bs = le_val (take 4 (drop n bs))"

definition get64 :: "nat \<Rightarrow> u8 list \<Rightarrow> u64" where
  "get64 n bs = le_val (take 8 (drop n bs))"

definition get_bytes :: "nat \<Rightarrow> nat \<Rightarrow> u8 list \<Rightarrow> u8 list" where
  "get_bytes n k bs = take k (drop n bs)"

lemma length_le_bytes [simp]: "length (le_bytes k w) = k"
  by (induction k arbitrary: w) simp_all

lemma length_le [simp]: "length (le16 w) = 2" "length (le32 v) = 4" "length (le64 u) = 8" "length (pad n) = n"
  by (simp_all add: le16_def le32_def le64_def pad_def)

lemma bit_le_val: "bit (le_val (le_bytes k w) :: ('a::len) word) n \<longleftrightarrow> n < 8 * k \<and> bit (w :: 'a word) n"
proof (induction k arbitrary: w n)
  case (Suc k)
  have "bit (le_val (le_bytes (Suc k) w) :: 'a word) n
      \<longleftrightarrow> (n < 8 \<and> bit w n) \<or> (8 \<le> n \<and> n < LENGTH('a) \<and> n - 8 < 8 * k \<and> bit w (8 + (n - 8)))"
    using bit_imp_le_length[of w n] by (auto simp: bit_simps Suc)
  also have "\<dots> \<longleftrightarrow> n < 8 * Suc k \<and> bit w n"
    using bit_imp_le_length[of w n] by auto
  finally show ?case .
qed simp

lemma le_val_le: "le_val (le16 w) = w" "le_val (le32 v) = v" "le_val (le64 u) = u"
  unfolding le16_def le32_def le64_def
  by (rule bit_word_eqI; simp add: bit_le_val)+

text \<open>Reading a member: what precedes it is skipped, then it is read.\<close>

lemma get_own [simp]:
  "get8 0 (b # bs) = b" "get16 0 (le16 w @ bs) = w" "get32 0 (le32 v @ bs) = v" "get64 0 (le64 u @ bs) = u"
  by (simp_all add: get8_def get16_def get32_def get64_def le_val_le)

lemma get_bytes_own: "length xs = k \<Longrightarrow> get_bytes 0 k (xs @ bs) = xs"
  by (simp add: get_bytes_def)

lemma get_skip:
  assumes "length xs \<le> n"
  shows "get8 n (xs @ bs) = get8 (n - length xs) bs" "get16 n (xs @ bs) = get16 (n - length xs) bs"
    "get32 n (xs @ bs) = get32 (n - length xs) bs" "get64 n (xs @ bs) = get64 (n - length xs) bs"
    "get_bytes n k (xs @ bs) = get_bytes (n - length xs) k bs"
  using assms by (simp_all add: get8_def get16_def get32_def get64_def get_bytes_def)

lemma get_skip_cons:
  assumes "0 < n"
  shows "get8 n (b # bs) = get8 (n - 1) bs" "get16 n (b # bs) = get16 (n - 1) bs"
    "get32 n (b # bs) = get32 (n - 1) bs" "get64 n (b # bs) = get64 (n - 1) bs"
    "get_bytes n k (b # bs) = get_bytes (n - 1) k bs"
  using get_skip[where xs = "[b]" and n = n and bs = bs] assms by simp_all

lemmas wire_simps = get_skip get_skip_cons

section \<open>The envelope\<close>

record usbtrace_event_hdr =
  h_kind :: u32
  h_size :: u32
  h_ts_ns :: u64

definition enc_hdr :: "usbtrace_event_hdr \<Rightarrow> u8 list" where
  "enc_hdr h = le32 (h_kind h) @ le32 (h_size h) @ le64 (h_ts_ns h)"

definition dec_hdr :: "u8 list \<Rightarrow> usbtrace_event_hdr" where
  "dec_hdr bs = \<lparr> h_kind = get32 0 bs, h_size = get32 4 bs, h_ts_ns = get64 8 bs \<rparr>"

lemma length_enc_hdr [simp]: "length (enc_hdr h) = 16"
  by (simp add: enc_hdr_def)

lemma dec_hdr_append: "dec_hdr (enc_hdr h @ bs) = h"
  by (simp add: dec_hdr_def enc_hdr_def get_skip)

section \<open>The interface of a record codec\<close>

text \<open>
  What producer and consumer of a record agree on: its size, and that the consumer reads back every
  member, also when the ring buffer pads the record.
\<close>

locale record_codec =
  fixes enc :: "'r \<Rightarrow> u8 list"
    and dec :: "u8 list \<Rightarrow> 'r"
    and size_of :: nat
    and wf :: "'r \<Rightarrow> bool"
  assumes enc_length: "wf r \<Longrightarrow> length (enc r) = size_of"
    and dec_enc_append: "wf r \<Longrightarrow> dec (enc r @ bs) = r"
begin

lemma dec_enc: "wf r \<Longrightarrow> dec (enc r) = r"
  using dec_enc_append[of r "[]"] by simp

lemma enc_inj: "inj_on enc {r. wf r}"
  by (rule inj_onI) (metis dec_enc mem_Collect_eq)

lemma enc_long_enough: "wf r \<Longrightarrow> \<not> length (enc r @ bs) < size_of"
  by (simp add: enc_length)

end

section \<open>The records\<close>

record urb_event =
  ue_hdr :: usbtrace_event_hdr
  ue_latency_ns :: u64
  ue_pid :: u32
  ue_length :: u32
  ue_actual :: u32
  ue_status :: s32
  ue_vid :: u16
  ue_product :: u16
  ue_busnum :: u16
  ue_devnum :: u16
  ue_ep :: u8
  ue_dir_in :: u8
  ue_xfer_type :: u8
  ue_is_submit :: u8
  ue_comm :: "u8 list"
  ue_has_setup :: u8
  ue_setup :: "u8 list"

definition enc_urb_event :: "urb_event \<Rightarrow> u8 list" where
  "enc_urb_event e =
     enc_hdr (ue_hdr e) @ le64 (ue_latency_ns e) @ le32 (ue_pid e) @ le32 (ue_length e) @ le32
     (ue_actual e) @ le32 (ue_status e) @ le16 (ue_vid e) @ le16 (ue_product e) @ le16
     (ue_busnum e) @ le16 (ue_devnum e) @ [ue_ep e] @ [ue_dir_in e] @ [ue_xfer_type e] @
     [ue_is_submit e] @ ue_comm e @ [ue_has_setup e] @ ue_setup e @ pad 3"

definition dec_urb_event :: "u8 list \<Rightarrow> urb_event" where
  "dec_urb_event bs =
     \<lparr> ue_hdr = dec_hdr bs, ue_latency_ns = get64 16 bs, ue_pid = get32 24 bs, ue_length =
       get32 28 bs, ue_actual = get32 32 bs, ue_status = get32 36 bs, ue_vid = get16 40 bs,
       ue_product = get16 42 bs, ue_busnum = get16 44 bs, ue_devnum = get16 46 bs, ue_ep = get8
       48 bs, ue_dir_in = get8 49 bs, ue_xfer_type = get8 50 bs, ue_is_submit = get8 51 bs,
       ue_comm = get_bytes 52 16 bs, ue_has_setup = get8 68 bs, ue_setup = get_bytes 69 8 bs \<rparr>"

definition wf_urb_event :: "urb_event \<Rightarrow> bool" where
  "wf_urb_event e \<longleftrightarrow> length (ue_comm e) = 16 \<and> length (ue_setup e) = 8"

record enum_event =
  ee_hdr :: usbtrace_event_hdr
  ee_pid :: u32
  ee_vid :: u16
  ee_product :: u16
  ee_busnum :: u16
  ee_devnum :: u16
  ee_old_state :: u8
  ee_new_state :: u8
  ee_speed :: u8
  ee_portnum :: u8
  ee_devpath :: "u8 list"
  ee_comm :: "u8 list"
  ee_status :: s32
  ee_step :: u8

definition enc_enum_event :: "enum_event \<Rightarrow> u8 list" where
  "enc_enum_event e =
     enc_hdr (ee_hdr e) @ le32 (ee_pid e) @ le16 (ee_vid e) @ le16 (ee_product e) @ le16
     (ee_busnum e) @ le16 (ee_devnum e) @ [ee_old_state e] @ [ee_new_state e] @ [ee_speed e] @
     [ee_portnum e] @ ee_devpath e @ ee_comm e @ le32 (ee_status e) @ [ee_step e] @ pad 3"

definition dec_enum_event :: "u8 list \<Rightarrow> enum_event" where
  "dec_enum_event bs =
     \<lparr> ee_hdr = dec_hdr bs, ee_pid = get32 16 bs, ee_vid = get16 20 bs, ee_product = get16 22
       bs, ee_busnum = get16 24 bs, ee_devnum = get16 26 bs, ee_old_state = get8 28 bs,
       ee_new_state = get8 29 bs, ee_speed = get8 30 bs, ee_portnum = get8 31 bs, ee_devpath =
       get_bytes 32 16 bs, ee_comm = get_bytes 48 16 bs, ee_status = get32 64 bs, ee_step =
       get8 68 bs \<rparr>"

definition wf_enum_event :: "enum_event \<Rightarrow> bool" where
  "wf_enum_event e \<longleftrightarrow> length (ee_devpath e) = 16 \<and> length (ee_comm e) = 16"

record power_rec =
  pe_hdr :: usbtrace_event_hdr
  pe_pid :: u32
  pe_vid :: u16
  pe_product :: u16
  pe_busnum :: u16
  pe_devnum :: u16
  pe_action :: u8
  pe_speed :: u8
  pe_portnum :: u8
  pe_devpath :: "u8 list"
  pe_comm :: "u8 list"

definition enc_power_rec :: "power_rec \<Rightarrow> u8 list" where
  "enc_power_rec e =
     enc_hdr (pe_hdr e) @ le32 (pe_pid e) @ le16 (pe_vid e) @ le16 (pe_product e) @ le16
     (pe_busnum e) @ le16 (pe_devnum e) @ [pe_action e] @ [pe_speed e] @ [pe_portnum e] @ pad 1
     @ pe_devpath e @ pe_comm e"

definition dec_power_rec :: "u8 list \<Rightarrow> power_rec" where
  "dec_power_rec bs =
     \<lparr> pe_hdr = dec_hdr bs, pe_pid = get32 16 bs, pe_vid = get16 20 bs, pe_product = get16 22
       bs, pe_busnum = get16 24 bs, pe_devnum = get16 26 bs, pe_action = get8 28 bs, pe_speed =
       get8 29 bs, pe_portnum = get8 30 bs, pe_devpath = get_bytes 32 16 bs, pe_comm =
       get_bytes 48 16 bs \<rparr>"

definition wf_power_rec :: "power_rec \<Rightarrow> bool" where
  "wf_power_rec e \<longleftrightarrow> length (pe_devpath e) = 16 \<and> length (pe_comm e) = 16"

record lifecycle_event =
  le_hdr :: usbtrace_event_hdr
  le_pid :: u32
  le_vid :: u16
  le_product :: u16
  le_busnum :: u16
  le_devnum :: u16
  le_action :: u8
  le_speed :: u8
  le_portnum :: u8
  le_reset_resume :: u8
  le_devpath :: "u8 list"
  le_comm :: "u8 list"

definition enc_lifecycle_event :: "lifecycle_event \<Rightarrow> u8 list" where
  "enc_lifecycle_event e =
     enc_hdr (le_hdr e) @ le32 (le_pid e) @ le16 (le_vid e) @ le16 (le_product e) @ le16
     (le_busnum e) @ le16 (le_devnum e) @ [le_action e] @ [le_speed e] @ [le_portnum e] @
     [le_reset_resume e] @ le_devpath e @ le_comm e"

definition dec_lifecycle_event :: "u8 list \<Rightarrow> lifecycle_event" where
  "dec_lifecycle_event bs =
     \<lparr> le_hdr = dec_hdr bs, le_pid = get32 16 bs, le_vid = get16 20 bs, le_product = get16 22
       bs, le_busnum = get16 24 bs, le_devnum = get16 26 bs, le_action = get8 28 bs, le_speed =
       get8 29 bs, le_portnum = get8 30 bs, le_reset_resume = get8 31 bs, le_devpath =
       get_bytes 32 16 bs, le_comm = get_bytes 48 16 bs \<rparr>"

definition wf_lifecycle_event :: "lifecycle_event \<Rightarrow> bool" where
  "wf_lifecycle_event e \<longleftrightarrow> length (le_devpath e) = 16 \<and> length (le_comm e) = 16"

record hub_event =
  he_hdr :: usbtrace_event_hdr
  he_pid :: u32
  he_oc_count :: u32
  he_vid :: u16
  he_product :: u16
  he_busnum :: u16
  he_devnum :: u16
  he_action :: u8
  he_speed :: u8
  he_portnum :: u8
  he_warm :: u8
  he_devpath :: "u8 list"
  he_comm :: "u8 list"

definition enc_hub_event :: "hub_event \<Rightarrow> u8 list" where
  "enc_hub_event e =
     enc_hdr (he_hdr e) @ le32 (he_pid e) @ le32 (he_oc_count e) @ le16 (he_vid e) @ le16
     (he_product e) @ le16 (he_busnum e) @ le16 (he_devnum e) @ [he_action e] @ [he_speed e] @
     [he_portnum e] @ [he_warm e] @ he_devpath e @ he_comm e @ pad 4"

definition dec_hub_event :: "u8 list \<Rightarrow> hub_event" where
  "dec_hub_event bs =
     \<lparr> he_hdr = dec_hdr bs, he_pid = get32 16 bs, he_oc_count = get32 20 bs, he_vid = get16 24
       bs, he_product = get16 26 bs, he_busnum = get16 28 bs, he_devnum = get16 30 bs,
       he_action = get8 32 bs, he_speed = get8 33 bs, he_portnum = get8 34 bs, he_warm = get8
       35 bs, he_devpath = get_bytes 36 16 bs, he_comm = get_bytes 52 16 bs \<rparr>"

definition wf_hub_event :: "hub_event \<Rightarrow> bool" where
  "wf_hub_event e \<longleftrightarrow> length (he_devpath e) = 16 \<and> length (he_comm e) = 16"

record class_urb_event =
  ce_hdr :: usbtrace_event_hdr
  ce_status :: s32
  ce_error_count :: s32
  ce_number_of_packets :: u32
  ce_actual_length :: u32
  ce_start_frame :: s32
  ce_pid :: u32
  ce_vid :: u16
  ce_product :: u16
  ce_busnum :: u16
  ce_devnum :: u16
  ce_klass :: u8
  ce_ep :: u8
  ce_dir_in :: u8
  ce_xfer_type :: u8
  ce_comm :: "u8 list"

definition enc_class_urb_event :: "class_urb_event \<Rightarrow> u8 list" where
  "enc_class_urb_event e =
     enc_hdr (ce_hdr e) @ le32 (ce_status e) @ le32 (ce_error_count e) @ le32
     (ce_number_of_packets e) @ le32 (ce_actual_length e) @ le32 (ce_start_frame e) @ le32
     (ce_pid e) @ le16 (ce_vid e) @ le16 (ce_product e) @ le16 (ce_busnum e) @ le16 (ce_devnum
     e) @ [ce_klass e] @ [ce_ep e] @ [ce_dir_in e] @ [ce_xfer_type e] @ ce_comm e @ pad 4"

definition dec_class_urb_event :: "u8 list \<Rightarrow> class_urb_event" where
  "dec_class_urb_event bs =
     \<lparr> ce_hdr = dec_hdr bs, ce_status = get32 16 bs, ce_error_count = get32 20 bs,
       ce_number_of_packets = get32 24 bs, ce_actual_length = get32 28 bs, ce_start_frame =
       get32 32 bs, ce_pid = get32 36 bs, ce_vid = get16 40 bs, ce_product = get16 42 bs,
       ce_busnum = get16 44 bs, ce_devnum = get16 46 bs, ce_klass = get8 48 bs, ce_ep = get8 49
       bs, ce_dir_in = get8 50 bs, ce_xfer_type = get8 51 bs, ce_comm = get_bytes 52 16 bs \<rparr>"

definition wf_class_urb_event :: "class_urb_event \<Rightarrow> bool" where
  "wf_class_urb_event e \<longleftrightarrow> length (ce_comm e) = 16"

record uvc_frame_event =
  fe_hdr :: usbtrace_event_hdr
  fe_bytes :: u32
  fe_packets :: u32
  fe_err_packets :: u32
  fe_duration_ns :: u32
  fe_interval_ns :: u32
  fe_pts :: u32
  fe_scr_stc :: u32
  fe_scr_sof :: u16
  fe_vid :: u16
  fe_product :: u16
  fe_busnum :: u16
  fe_devnum :: u16
  fe_ep :: u8
  fe_errored :: u8
  fe_eof :: u8
  fe_fid :: u8
  fe_comm :: "u8 list"

definition enc_uvc_frame_event :: "uvc_frame_event \<Rightarrow> u8 list" where
  "enc_uvc_frame_event e =
     enc_hdr (fe_hdr e) @ le32 (fe_bytes e) @ le32 (fe_packets e) @ le32 (fe_err_packets e) @
     le32 (fe_duration_ns e) @ le32 (fe_interval_ns e) @ le32 (fe_pts e) @ le32 (fe_scr_stc e)
     @ le16 (fe_scr_sof e) @ le16 (fe_vid e) @ le16 (fe_product e) @ le16 (fe_busnum e) @ le16
     (fe_devnum e) @ [fe_ep e] @ [fe_errored e] @ [fe_eof e] @ [fe_fid e] @ fe_comm e @ pad 6"

definition dec_uvc_frame_event :: "u8 list \<Rightarrow> uvc_frame_event" where
  "dec_uvc_frame_event bs =
     \<lparr> fe_hdr = dec_hdr bs, fe_bytes = get32 16 bs, fe_packets = get32 20 bs, fe_err_packets =
       get32 24 bs, fe_duration_ns = get32 28 bs, fe_interval_ns = get32 32 bs, fe_pts = get32
       36 bs, fe_scr_stc = get32 40 bs, fe_scr_sof = get16 44 bs, fe_vid = get16 46 bs,
       fe_product = get16 48 bs, fe_busnum = get16 50 bs, fe_devnum = get16 52 bs, fe_ep = get8
       54 bs, fe_errored = get8 55 bs, fe_eof = get8 56 bs, fe_fid = get8 57 bs, fe_comm =
       get_bytes 58 16 bs \<rparr>"

definition wf_uvc_frame_event :: "uvc_frame_event \<Rightarrow> bool" where
  "wf_uvc_frame_event e \<longleftrightarrow> length (fe_comm e) = 16"

record uvc_vb2_event =
  ve_hdr :: usbtrace_event_hdr
  ve_sequence :: u32
  ve_bytesused :: u32
  ve_vb2_timestamp :: u64
  ve_state :: u8
  ve_interval_ns :: u32
  ve_buf_index :: u8
  ve_seq_gap :: u8
  ve_vb2_op :: u8
  ve_starved :: u8
  ve_num_buffers :: u16
  ve_queued :: u16
  ve_drv_owned :: u16
  ve_wire_to_vb2_ns :: u32
  ve_vid :: u16
  ve_product :: u16
  ve_busnum :: u16
  ve_devnum :: u16
  ve_comm :: "u8 list"

definition enc_uvc_vb2_event :: "uvc_vb2_event \<Rightarrow> u8 list" where
  "enc_uvc_vb2_event e =
     enc_hdr (ve_hdr e) @ le32 (ve_sequence e) @ le32 (ve_bytesused e) @ le64 (ve_vb2_timestamp
     e) @ [ve_state e] @ pad 3 @ le32 (ve_interval_ns e) @ [ve_buf_index e] @ [ve_seq_gap e] @
     [ve_vb2_op e] @ [ve_starved e] @ le16 (ve_num_buffers e) @ le16 (ve_queued e) @ le16
     (ve_drv_owned e) @ pad 2 @ le32 (ve_wire_to_vb2_ns e) @ le16 (ve_vid e) @ le16 (ve_product
     e) @ le16 (ve_busnum e) @ le16 (ve_devnum e) @ ve_comm e"

definition dec_uvc_vb2_event :: "u8 list \<Rightarrow> uvc_vb2_event" where
  "dec_uvc_vb2_event bs =
     \<lparr> ve_hdr = dec_hdr bs, ve_sequence = get32 16 bs, ve_bytesused = get32 20 bs,
       ve_vb2_timestamp = get64 24 bs, ve_state = get8 32 bs, ve_interval_ns = get32 36 bs,
       ve_buf_index = get8 40 bs, ve_seq_gap = get8 41 bs, ve_vb2_op = get8 42 bs, ve_starved =
       get8 43 bs, ve_num_buffers = get16 44 bs, ve_queued = get16 46 bs, ve_drv_owned = get16
       48 bs, ve_wire_to_vb2_ns = get32 52 bs, ve_vid = get16 56 bs, ve_product = get16 58 bs,
       ve_busnum = get16 60 bs, ve_devnum = get16 62 bs, ve_comm = get_bytes 64 16 bs \<rparr>"

definition wf_uvc_vb2_event :: "uvc_vb2_event \<Rightarrow> bool" where
  "wf_uvc_vb2_event e \<longleftrightarrow> length (ve_comm e) = 16"

record uvc_drv_event =
  de_hdr :: usbtrace_event_hdr
  de_drv_op :: u8
  de_reason :: u8
  de_vid :: u16
  de_product :: u16
  de_busnum :: u16
  de_devnum :: u16

definition enc_uvc_drv_event :: "uvc_drv_event \<Rightarrow> u8 list" where
  "enc_uvc_drv_event e =
     enc_hdr (de_hdr e) @ [de_drv_op e] @ [de_reason e] @ le16 (de_vid e) @ le16 (de_product e)
     @ le16 (de_busnum e) @ le16 (de_devnum e) @ pad 6"

definition dec_uvc_drv_event :: "u8 list \<Rightarrow> uvc_drv_event" where
  "dec_uvc_drv_event bs =
     \<lparr> de_hdr = dec_hdr bs, de_drv_op = get8 16 bs, de_reason = get8 17 bs, de_vid = get16 18
       bs, de_product = get16 20 bs, de_busnum = get16 22 bs, de_devnum = get16 24 bs \<rparr>"

definition wf_uvc_drv_event :: "uvc_drv_event \<Rightarrow> bool" where
  "wf_uvc_drv_event e \<longleftrightarrow> True"

section \<open>The records implement the interface\<close>

interpretation ue: record_codec enc_urb_event dec_urb_event 80 wf_urb_event
  by unfold_locales
    (simp_all add: enc_urb_event_def dec_urb_event_def wf_urb_event_def wire_simps dec_hdr_append get_bytes_own)

interpretation ee: record_codec enc_enum_event dec_enum_event 72 wf_enum_event
  by unfold_locales
    (simp_all add: enc_enum_event_def dec_enum_event_def wf_enum_event_def wire_simps dec_hdr_append get_bytes_own)

interpretation pe: record_codec enc_power_rec dec_power_rec 64 wf_power_rec
  by unfold_locales
    (simp_all add: enc_power_rec_def dec_power_rec_def wf_power_rec_def wire_simps dec_hdr_append get_bytes_own)

interpretation le: record_codec enc_lifecycle_event dec_lifecycle_event 64 wf_lifecycle_event
  by unfold_locales
    (simp_all add: enc_lifecycle_event_def dec_lifecycle_event_def wf_lifecycle_event_def wire_simps dec_hdr_append get_bytes_own)

interpretation he: record_codec enc_hub_event dec_hub_event 72 wf_hub_event
  by unfold_locales
    (simp_all add: enc_hub_event_def dec_hub_event_def wf_hub_event_def wire_simps dec_hdr_append get_bytes_own)

interpretation ce: record_codec enc_class_urb_event dec_class_urb_event 72 wf_class_urb_event
  by unfold_locales
    (simp_all add: enc_class_urb_event_def dec_class_urb_event_def wf_class_urb_event_def wire_simps dec_hdr_append get_bytes_own)

interpretation fe: record_codec enc_uvc_frame_event dec_uvc_frame_event 80 wf_uvc_frame_event
  by unfold_locales
    (simp_all add: enc_uvc_frame_event_def dec_uvc_frame_event_def wf_uvc_frame_event_def wire_simps dec_hdr_append get_bytes_own)

interpretation ve: record_codec enc_uvc_vb2_event dec_uvc_vb2_event 80 wf_uvc_vb2_event
  by unfold_locales
    (simp_all add: enc_uvc_vb2_event_def dec_uvc_vb2_event_def wf_uvc_vb2_event_def wire_simps dec_hdr_append get_bytes_own)

interpretation de: record_codec enc_uvc_drv_event dec_uvc_drv_event 32 wf_uvc_drv_event
  by unfold_locales
    (simp_all add: enc_uvc_drv_event_def dec_uvc_drv_event_def wf_uvc_drv_event_def wire_simps dec_hdr_append get_bytes_own)

end
