(* ===== verification/Diag_Normalize.thy ===== *)
theory Diag_Normalize
  imports Diag_Trace Ut_Wire
begin

text \<open>
  The consumer side of \<open>diag.c\<close>: a raw ring-buffer record is flattened into a \<open>diag_event\<close>
  (\<open>normalize\<close>, one definition per record kind), fed to the engine (\<open>on_event\<close>), and the poll loop of
  \<open>diag_run\<close> alternates event delivery with ticks. A record is the list of its bytes; the length test
  of every case comes before any member is read.
\<close>

section \<open>One record kind at a time\<close>

text \<open>An assignment to a narrower unsigned member truncates (\<open>latency_ns\<close>: 64 to 32 bits).\<close>

definition norm_urb :: "u8 list \<Rightarrow> diag_event \<Rightarrow> diag_event option" where
  "norm_urb data out =
     (if length data < 80 then None
      else let e = dec_urb_event data;
               o1 = out\<lparr> ev_vid := ue_vid e, ev_pid := ue_product e, ev_busnum := ue_busnum e,
                      ev_devnum := ue_devnum e, ev_status := ue_status e,
                      ev_latency_ns := ucast (ue_latency_ns e), ev_actual := ue_actual e,
                      ev_length := ue_length e, ev_xfer_type := ue_xfer_type e,
                      ev_dir_in := ue_dir_in e, ev_ep := ue_ep e, ev_is_submit := ue_is_submit e,
                      ev_has_setup := ue_has_setup e \<rparr>;
               o2 = (if ue_has_setup e \<noteq> 0
                     then o1\<lparr> ev_brequest := ue_setup e ! 1,
                              ev_wvalue := ucast (ue_setup e ! 2) OR push_bit 8 (ucast (ue_setup e ! 3)) \<rparr>
                     else o1)
           in Some (o2\<lparr> ev_comm := ue_comm e \<rparr>))"

definition norm_enum :: "u8 list \<Rightarrow> diag_event \<Rightarrow> diag_event option" where
  "norm_enum data out =
     (if length data < 72 then None
      else let e = dec_enum_event data
           in Some (out\<lparr> ev_vid := ee_vid e, ev_pid := ee_product e, ev_busnum := ee_busnum e,
                        ev_devnum := ee_devnum e, ev_speed := ee_speed e, ev_portnum := ee_portnum e,
                        ev_old_state := ee_old_state e, ev_new_state := ee_new_state e,
                        ev_step := ee_step e, ev_status := ee_status e,
                        ev_devpath := ee_devpath e, ev_comm := ee_comm e \<rparr>))"

definition norm_power :: "u8 list \<Rightarrow> diag_event \<Rightarrow> diag_event option" where
  "norm_power data out =
     (if length data < 64 then None
      else let e = dec_power_rec data
           in Some (out\<lparr> ev_vid := pe_vid e, ev_pid := pe_product e, ev_busnum := pe_busnum e,
                        ev_devnum := pe_devnum e, ev_speed := pe_speed e, ev_portnum := pe_portnum e,
                        ev_action := pe_action e, ev_devpath := pe_devpath e, ev_comm := pe_comm e \<rparr>))"

definition norm_lifecycle :: "u8 list \<Rightarrow> diag_event \<Rightarrow> diag_event option" where
  "norm_lifecycle data out =
     (if length data < 64 then None
      else let e = dec_lifecycle_event data
           in Some (out\<lparr> ev_vid := le_vid e, ev_pid := le_product e, ev_busnum := le_busnum e,
                        ev_devnum := le_devnum e, ev_speed := le_speed e, ev_portnum := le_portnum e,
                        ev_action := le_action e, ev_reset_resume := le_reset_resume e,
                        ev_devpath := le_devpath e, ev_comm := le_comm e \<rparr>))"

definition norm_hub :: "u8 list \<Rightarrow> diag_event \<Rightarrow> diag_event option" where
  "norm_hub data out =
     (if length data < 72 then None
      else let e = dec_hub_event data
           in Some (out\<lparr> ev_vid := he_vid e, ev_pid := he_product e, ev_busnum := he_busnum e,
                        ev_devnum := he_devnum e, ev_speed := he_speed e, ev_portnum := he_portnum e,
                        ev_action := he_action e, ev_devpath := he_devpath e, ev_comm := he_comm e \<rparr>))"

definition norm_class :: "u8 list \<Rightarrow> diag_event \<Rightarrow> diag_event option" where
  "norm_class data out =
     (if length data < 72 then None
      else let e = dec_class_urb_event data
           in Some (out\<lparr> ev_vid := ce_vid e, ev_pid := ce_product e, ev_busnum := ce_busnum e,
                        ev_devnum := ce_devnum e, ev_status := ce_status e,
                        ev_error_count := ce_error_count e, ev_actual := ce_actual_length e,
                        ev_length := ce_actual_length e, ev_xfer_type := ce_xfer_type e,
                        ev_dir_in := ce_dir_in e, ev_ep := ce_ep e, ev_cls := ce_klass e,
                        ev_is_submit := 0, ev_comm := ce_comm e \<rparr>))"

definition USBTRACE_CLASS_VIDEO :: u8 where "USBTRACE_CLASS_VIDEO = 0"

definition norm_uvc_frame :: "u8 list \<Rightarrow> diag_event \<Rightarrow> diag_event option" where
  "norm_uvc_frame data out =
     (if length data < 80 then None
      else let e = dec_uvc_frame_event data
           in Some (out\<lparr> ev_vid := fe_vid e, ev_pid := fe_product e, ev_busnum := fe_busnum e,
                        ev_devnum := fe_devnum e, ev_ep := fe_ep e, ev_cls := USBTRACE_CLASS_VIDEO,
                        ev_actual := fe_bytes e, ev_frame_bytes := fe_bytes e,
                        ev_frame_interval_ns := fe_interval_ns e, ev_frame_errored := fe_errored e,
                        ev_comm := fe_comm e \<rparr>))"

definition norm_uvc_vb2 :: "u8 list \<Rightarrow> diag_event \<Rightarrow> diag_event option" where
  "norm_uvc_vb2 data out =
     (if length data < 80 then None
      else let e = dec_uvc_vb2_event data
           in Some (out\<lparr> ev_vid := ve_vid e, ev_pid := ve_product e, ev_busnum := ve_busnum e,
                        ev_devnum := ve_devnum e, ev_cls := USBTRACE_CLASS_VIDEO,
                        ev_actual := ve_bytesused e, ev_vb2_sequence := ve_sequence e,
                        ev_vb2_bytesused := ve_bytesused e, ev_vb2_interval_ns := ve_interval_ns e,
                        ev_vb2_seq_gap := ve_seq_gap e, ev_wire_to_vb2_ns := ve_wire_to_vb2_ns e,
                        ev_vb2_op := ve_vb2_op e, ev_vb2_starved := ve_starved e,
                        ev_vb2_num_buffers := ve_num_buffers e, ev_vb2_queued := ve_queued e,
                        ev_vb2_drv_owned := ve_drv_owned e, ev_comm := ve_comm e \<rparr>))"

section \<open>normalize, on_event\<close>

definition normalize_ev :: "u8 list \<Rightarrow> diag_event option" where
  "normalize_ev data =
     (if length data < 16 then None
      else let h = dec_hdr data;
               out = zero_event\<lparr> ev_kind := h_kind h, ev_ts_ns := h_ts_ns h \<rparr>
           in if h_kind h = USBTRACE_EVT_URB then norm_urb data out
              else if h_kind h = USBTRACE_EVT_ENUM then norm_enum data out
              else if h_kind h = USBTRACE_EVT_POWER then norm_power data out
              else if h_kind h = USBTRACE_EVT_LIFECYCLE then norm_lifecycle data out
              else if h_kind h = USBTRACE_EVT_HUB then norm_hub data out
              else if h_kind h = USBTRACE_EVT_CLASS then norm_class data out
              else if h_kind h = USBTRACE_EVT_UVC_FRAME then norm_uvc_frame data out
              else if h_kind h = USBTRACE_EVT_UVC_VB2 then norm_uvc_vb2 data out
              else None)"

definition on_event :: "(nat \<Rightarrow> u64) \<Rightarrow> u8 list \<Rightarrow> engine \<times> finding list \<Rightarrow> engine \<times> finding list" where
  "on_event clk data eo =
     (case normalize_ev data of
        Some ev \<Rightarrow> (let (e', out) = diag_engine_ingest clk ev (fst eo) in (e', snd eo @ out))
      | None \<Rightarrow> eo)"

section \<open>The poll loop\<close>

definition TICK_INTERVAL_NS :: u64 where [ut_const]: "TICK_INTERVAL_NS = 500 * 1000000"

text \<open>
  One iteration of the loop: what \<open>usbtrace_evmux_poll\<close> delivered (each record with the clock values
  the rules read while it is ingested), the value it returned, and the clock read afterwards. The
  loop ends when a poll fails with another error, or when the list of iterations ends because
  \<open>*running\<close> was cleared.
\<close>

record poll_result =
  pl_records :: "((nat \<Rightarrow> u64) \<times> u8 list) list"
  pl_err :: int
  pl_now :: u64

record run_st =
  rs_engine :: engine
  rs_out :: "finding list"
  rs_last_tick :: u64
  rs_err :: int

definition deliver :: "((nat \<Rightarrow> u64) \<times> u8 list) list \<Rightarrow> run_st \<Rightarrow> run_st" where
  "deliver recs st =
     (let (e, out) = fold (\<lambda>(clk, data). on_event clk data) recs (rs_engine st, rs_out st)
      in st\<lparr> rs_engine := e, rs_out := out \<rparr>)"

fun poll_loop :: "poll_result list \<Rightarrow> run_st \<Rightarrow> run_st" where
  "poll_loop [] st = st"
| "poll_loop (p # ps) st =
     (let st1 = (deliver (pl_records p) st)\<lparr> rs_err := pl_err p \<rparr> in
      if pl_err p < 0 then
        (if pl_err p = - EINTR \<or> pl_err p = - EAGAIN then poll_loop ps (st1\<lparr> rs_err := 0 \<rparr>)
         else st1)
      else if pl_now p - rs_last_tick st1 \<ge> TICK_INTERVAL_NS then
        (let (e, out) = diag_engine_tick (pl_now p) (rs_engine st1)
         in poll_loop ps (st1\<lparr> rs_engine := e, rs_out := rs_out st1 @ out, rs_last_tick := pl_now p \<rparr>))
      else poll_loop ps st1)"

text \<open>From the first clock read to the exit code, with the summary printed at the end.\<close>

definition diag_session ::
    "diag_rule list \<Rightarrow> u64 \<Rightarrow> bool \<Rightarrow> poll_result list \<Rightarrow> finding list \<times> summary \<times> int" where
  "diag_session rules now0 json ps =
     (let st = poll_loop ps \<lparr> rs_engine = diag_engine_create rules, rs_out = [], rs_last_tick = now0, rs_err = 0 \<rparr>;
          err = (if rs_err st > 0 then 0 else rs_err st)
      in (rs_out st, diag_engine_report json (rs_engine st), if err \<noteq> 0 then 1 else 0))"

section \<open>Properties\<close>

text \<open>The size of the record a kind announces.\<close>

definition rec_size :: "u32 \<Rightarrow> nat option" where
  "rec_size k =
     map_of [(USBTRACE_EVT_URB, 80), (USBTRACE_EVT_ENUM, 72), (USBTRACE_EVT_POWER, 64),
             (USBTRACE_EVT_LIFECYCLE, 64), (USBTRACE_EVT_CLASS, 72), (USBTRACE_EVT_UVC_FRAME, 80),
             (USBTRACE_EVT_UVC_VB2, 80), (USBTRACE_EVT_HUB, 72)] k"

lemmas norm_defs = norm_urb_def norm_enum_def norm_power_def norm_lifecycle_def norm_hub_def
  norm_class_def norm_uvc_frame_def norm_uvc_vb2_def

lemma kinds_distinct:
  "distinct [USBTRACE_EVT_URB, USBTRACE_EVT_ENUM, USBTRACE_EVT_POWER, USBTRACE_EVT_LIFECYCLE,
     USBTRACE_EVT_CLASS, USBTRACE_EVT_UVC_FRAME, USBTRACE_EVT_UVC_VB2, USBTRACE_EVT_HUB]"
  by (simp add: ut_const)

text \<open>Every record the tracer's BPF programs can emit is read back by user space exactly as it
  was written, at the struct sizes of the C ABI, whatever padding follows it on the ring.\<close>

theorem wire_round_trip:
  "(wf_urb_event e1 \<longrightarrow> length (enc_urb_event e1) = 80 \<and> dec_urb_event (enc_urb_event e1 @ bs) = e1)
   \<and> (wf_enum_event e2 \<longrightarrow> length (enc_enum_event e2) = 72 \<and> dec_enum_event (enc_enum_event e2 @ bs) = e2)
   \<and> (wf_power_rec e3 \<longrightarrow> length (enc_power_rec e3) = 64 \<and> dec_power_rec (enc_power_rec e3 @ bs) = e3)
   \<and> (wf_lifecycle_event e4 \<longrightarrow> length (enc_lifecycle_event e4) = 64
        \<and> dec_lifecycle_event (enc_lifecycle_event e4 @ bs) = e4)
   \<and> (wf_hub_event e5 \<longrightarrow> length (enc_hub_event e5) = 72 \<and> dec_hub_event (enc_hub_event e5 @ bs) = e5)
   \<and> (wf_class_urb_event e6 \<longrightarrow> length (enc_class_urb_event e6) = 72
        \<and> dec_class_urb_event (enc_class_urb_event e6 @ bs) = e6)
   \<and> (wf_uvc_frame_event e7 \<longrightarrow> length (enc_uvc_frame_event e7) = 80
        \<and> dec_uvc_frame_event (enc_uvc_frame_event e7 @ bs) = e7)
   \<and> (wf_uvc_vb2_event e8 \<longrightarrow> length (enc_uvc_vb2_event e8) = 80
        \<and> dec_uvc_vb2_event (enc_uvc_vb2_event e8 @ bs) = e8)
   \<and> (wf_uvc_drv_event e9 \<longrightarrow> length (enc_uvc_drv_event e9) = 32
        \<and> dec_uvc_drv_event (enc_uvc_drv_event e9 @ bs) = e9)"
  by (intro conjI impI ue.enc_length ue.dec_enc_append ee.enc_length ee.dec_enc_append
      pe.enc_length pe.dec_enc_append le.enc_length le.dec_enc_append he.enc_length he.dec_enc_append
      ce.enc_length ce.dec_enc_append fe.enc_length fe.dec_enc_append ve.enc_length ve.dec_enc_append
      de.enc_length de.dec_enc_append)

definition demo_hdr :: usbtrace_event_hdr where
  "demo_hdr = \<lparr> h_kind = USBTRACE_EVT_URB, h_size = 80, h_ts_ns = 77 \<rparr>"

definition demo_urb_rec :: urb_event where
  "demo_urb_rec = \<lparr> ue_hdr = demo_hdr, ue_latency_ns = 5000000000, ue_pid = 1, ue_length = 18, ue_actual = 18,
     ue_status = - 110, ue_vid = 0x0403, ue_product = 0x6001, ue_busnum = 1, ue_devnum = 4, ue_ep = 0,
     ue_dir_in = 1, ue_xfer_type = 2, ue_is_submit = 0, ue_comm = replicate 16 65, ue_has_setup = 1,
     ue_setup = [0x80, 6, 0, 1, 0, 0, 18, 0] \<rparr>"

theorem wire_round_trip_witness:
  "dec_urb_event (enc_urb_event demo_urb_rec @ [1, 2, 3]) = demo_urb_rec"
  using wire_round_trip[of demo_urb_rec "[1, 2, 3]"] by (simp add: wf_urb_event_def demo_urb_rec_def)

lemma norm_kind:
  assumes "norm_urb data out = Some ev \<or> norm_enum data out = Some ev \<or> norm_power data out = Some ev
    \<or> norm_lifecycle data out = Some ev \<or> norm_hub data out = Some ev \<or> norm_class data out = Some ev
    \<or> norm_uvc_frame data out = Some ev \<or> norm_uvc_vb2 data out = Some ev"
  shows "ev_kind ev = ev_kind out \<and> ev_ts_ns ev = ev_ts_ns out"
  using assms by (auto simp: norm_defs Let_def split: if_splits)

lemma norm_None:
  "norm_urb data out = None \<longleftrightarrow> length data < 80" "norm_enum data out = None \<longleftrightarrow> length data < 72"
  "norm_power data out = None \<longleftrightarrow> length data < 64" "norm_lifecycle data out = None \<longleftrightarrow> length data < 64"
  "norm_hub data out = None \<longleftrightarrow> length data < 72" "norm_class data out = None \<longleftrightarrow> length data < 72"
  "norm_uvc_frame data out = None \<longleftrightarrow> length data < 80" "norm_uvc_vb2 data out = None \<longleftrightarrow> length data < 80"
  by (simp_all add: norm_defs Let_def)

lemma normalize_None_iff:
  "normalize_ev data = None \<longleftrightarrow> length data < 16 \<or> rec_size (h_kind (dec_hdr data)) = None
     \<or> (\<exists>n. rec_size (h_kind (dec_hdr data)) = Some n \<and> length data < n)"
proof (cases "length data < 16")
  case False
  let ?k = "h_kind (dec_hdr data)"
  have "normalize_ev data = None \<longleftrightarrow> (case rec_size ?k of None \<Rightarrow> True | Some n \<Rightarrow> length data < n)"
    using False kinds_distinct
    by (simp add: normalize_ev_def rec_size_def Let_def norm_None del: distinct.simps) (auto simp: norm_None)
  then show ?thesis using False by (simp split: option.split)
qed (simp add: normalize_ev_def)

lemma normalize_Some_kind:
  assumes "normalize_ev data = Some ev"
  shows "ev_kind ev = h_kind (dec_hdr data) \<and> ev_ts_ns ev = h_ts_ns (dec_hdr data)"
proof -
  let ?out = "zero_event\<lparr> ev_kind := h_kind (dec_hdr data), ev_ts_ns := h_ts_ns (dec_hdr data) \<rparr>"
  have "ev_kind ev = ev_kind ?out \<and> ev_ts_ns ev = ev_ts_ns ?out"
    by (rule norm_kind) (use assms in \<open>auto simp: normalize_ev_def Let_def split: if_splits\<close>)
  then show ?thesis by simp
qed

text \<open>C19: A raw record is ignored exactly when it is shorter than the envelope, of a kind the engine
  does not know (the driver recv/drop records included), or shorter than the struct of its kind; every
  other record becomes an event with the record's kind and timestamp.\<close>

theorem normalize_total:
  "(case normalize_ev data of
      None \<Rightarrow> length data < 16 \<or> rec_size (h_kind (dec_hdr data)) = None
              \<or> (\<exists>n. rec_size (h_kind (dec_hdr data)) = Some n \<and> length data < n)
    | Some ev \<Rightarrow> ev_kind ev = h_kind (dec_hdr data) \<and> ev_ts_ns ev = h_ts_ns (dec_hdr data)
              \<and> (\<exists>n. rec_size (h_kind (dec_hdr data)) = Some n \<and> n \<le> length data))"
proof (cases "normalize_ev data")
  case None
  then show ?thesis using normalize_None_iff[of data] by simp
next
  case (Some ev)
  then have "normalize_ev data \<noteq> None" by simp
  then show ?thesis using normalize_None_iff[of data] normalize_Some_kind[OF Some] Some
    by (auto simp: not_less)
qed

lemma normalize_urb_fields:
  assumes "wf_urb_event e" "h_kind (ue_hdr e) = USBTRACE_EVT_URB"
  shows "\<exists>ev. normalize_ev (enc_urb_event e @ tail) = Some ev
    \<and> diag_event_key ev = \<lparr> key_busnum = ue_busnum e, key_devnum = ue_devnum e \<rparr>
    \<and> ev_kind ev = USBTRACE_EVT_URB \<and> ev_ts_ns ev = h_ts_ns (ue_hdr e)
    \<and> ev_vid ev = ue_vid e \<and> ev_pid ev = ue_product e \<and> ev_status ev = ue_status e
    \<and> ev_actual ev = ue_actual e \<and> ev_length ev = ue_length e \<and> ev_ep ev = ue_ep e
    \<and> ev_xfer_type ev = ue_xfer_type e \<and> ev_is_submit ev = ue_is_submit e \<and> ev_comm ev = ue_comm e
    \<and> (ue_has_setup e \<noteq> 0 \<longrightarrow> ev_brequest ev = ue_setup e ! 1
         \<and> unat (ev_wvalue ev) = unat (ue_setup e ! 2) + 256 * unat (ue_setup e ! 3))
    \<and> unat (ev_latency_ns ev) = unat (ue_latency_ns e) mod 2 ^ 32"
proof -
  have len: "\<not> length (enc_urb_event e @ tail) < 80" by (rule ue.enc_long_enough[OF assms(1)])
  then have len16: "\<not> length (enc_urb_event e @ tail) < 16" by simp
  have hdr: "dec_hdr (enc_urb_event e @ tail) = ue_hdr e"
    by (simp add: enc_urb_event_def dec_hdr_append)
  have dec: "dec_urb_event (enc_urb_event e @ tail) = e" by (rule ue.dec_enc_append[OF assms(1)])
  have wv: "unat (ucast a OR push_bit 8 (ucast b) :: u16) = unat a + 256 * unat b" for a b :: u8
  proof -
    have disj: "ucast a AND push_bit 8 (ucast b :: u16) = 0"
      by (rule bit_word_eqI) (auto simp: bit_simps dest: bit_imp_le_length)
    have "unat a < 2 ^ LENGTH(8)" "unat b < 2 ^ LENGTH(8)" by (rule unsigned_less)+
    then have lt: "unat a + 256 * unat b < 2 ^ 16" by simp
    have "ucast a OR push_bit 8 (ucast b) = ucast a + push_bit 8 (ucast b :: u16)"
      using disj by (simp add: disjunctive_add_eq_or)
    moreover have "ucast a + push_bit 8 (ucast b :: u16) = word_of_nat (unat a + 256 * unat b)"
      by (simp add: push_bit_eq_mult mult.commute)
    ultimately have eq: "ucast a OR push_bit 8 (ucast b :: u16) = word_of_nat (unat a + 256 * unat b)"
      by (rule trans)
    show ?thesis unfolding eq using lt by (subst unsigned_of_nat) (simp add: take_bit_nat_eq_self)
  qed
  have lat: "unat (ucast (ue_latency_ns e) :: u32) = unat (ue_latency_ns e) mod 2 ^ 32"
    by (simp add: unsigned_ucast_eq take_bit_eq_mod)
  show ?thesis
    unfolding normalize_ev_def norm_urb_def Let_def hdr dec assms(2) if_not_P[OF len] if_not_P[OF len16]
    using wv lat by (simp add: diag_event_key_def)
qed

text \<open>What the rules see of a URB completion or submission the probe wrote: the device, the
  status, the lengths, the endpoint and the setup request arrive unchanged, the setup value is read
  little endian, but the latency only modulo 2^32 nanoseconds, so a transfer that took 4.3 seconds or
  longer shows a short latency.\<close>

theorem normalize_urb_record:
  assumes "wf_urb_event e" "h_kind (ue_hdr e) = USBTRACE_EVT_URB"
  shows "\<exists>ev. normalize_ev (enc_urb_event e @ tail) = Some ev
    \<and> diag_event_key ev = \<lparr> key_busnum = ue_busnum e, key_devnum = ue_devnum e \<rparr>
    \<and> ev_kind ev = USBTRACE_EVT_URB \<and> ev_ts_ns ev = h_ts_ns (ue_hdr e)
    \<and> ev_vid ev = ue_vid e \<and> ev_pid ev = ue_product e \<and> ev_status ev = ue_status e
    \<and> ev_actual ev = ue_actual e \<and> ev_length ev = ue_length e \<and> ev_ep ev = ue_ep e
    \<and> ev_xfer_type ev = ue_xfer_type e \<and> ev_is_submit ev = ue_is_submit e \<and> ev_comm ev = ue_comm e
    \<and> (ue_has_setup e \<noteq> 0 \<longrightarrow> ev_brequest ev = ue_setup e ! 1
         \<and> unat (ev_wvalue ev) = unat (ue_setup e ! 2) + 256 * unat (ue_setup e ! 3))
    \<and> unat (ev_latency_ns ev) = unat (ue_latency_ns e) mod 2 ^ 32"
  using assms by (rule normalize_urb_fields)

theorem normalize_urb_record_witness:
  "\<exists>ev. normalize_ev (enc_urb_event demo_urb_rec) = Some ev \<and> ev_brequest ev = 6 \<and> unat (ev_wvalue ev) = 256
    \<and> unat (ev_latency_ns ev) = 705032704"
proof -
  have wf: "wf_urb_event demo_urb_rec" "h_kind (ue_hdr demo_urb_rec) = USBTRACE_EVT_URB"
    by (simp_all add: wf_urb_event_def demo_urb_rec_def demo_hdr_def)
  obtain ev where ev: "normalize_ev (enc_urb_event demo_urb_rec @ []) = Some ev"
    "ue_has_setup demo_urb_rec \<noteq> 0 \<longrightarrow> ev_brequest ev = ue_setup demo_urb_rec ! 1
         \<and> unat (ev_wvalue ev) = unat (ue_setup demo_urb_rec ! 2) + 256 * unat (ue_setup demo_urb_rec ! 3)"
    "unat (ev_latency_ns ev) = unat (ue_latency_ns demo_urb_rec) mod 2 ^ 32"
    using normalize_urb_record[OF wf, of "[]"] by blast
  then show ?thesis by (intro exI[of _ ev]) (simp add: demo_urb_rec_def)
qed

text \<open>The operations a session performs on the engine.\<close>

definition ops_of :: "((nat \<Rightarrow> u64) \<times> u8 list) list \<Rightarrow> engine_op list" where
  "ops_of recs = concat (map (\<lambda>(clk, data). case normalize_ev data of Some ev \<Rightarrow> [Ingest clk ev] | None \<Rightarrow> []) recs)"

fun poll_ops :: "poll_result list \<Rightarrow> u64 \<Rightarrow> engine_op list" where
  "poll_ops [] t = []"
| "poll_ops (p # ps) t =
     ops_of (pl_records p) @
     (if pl_err p < 0 then (if pl_err p = - EINTR \<or> pl_err p = - EAGAIN then poll_ops ps t else [])
      else if TICK_INTERVAL_NS \<le> pl_now p - t then Tick (pl_now p) # poll_ops ps (pl_now p)
      else poll_ops ps t)"

fun tick_times :: "engine_op list \<Rightarrow> u64 list" where
  "tick_times [] = []"
| "tick_times (Tick t # ops) = t # tick_times ops"
| "tick_times (Ingest clk ev # ops) = tick_times ops"

lemma engine_outs_append: "engine_outs (xs @ ys) e = engine_outs xs e @ engine_outs ys (engine_run xs e)"
  by (induction xs arbitrary: e) simp_all

lemma deliver_spec:
  "deliver recs st = st\<lparr> rs_engine := engine_run (ops_of recs) (rs_engine st),
                        rs_out := rs_out st @ engine_outs (ops_of recs) (rs_engine st) \<rparr>"
proof -
  have "fold (\<lambda>(clk, data). on_event clk data) recs (e, out)
      = (engine_run (ops_of recs) e, out @ engine_outs (ops_of recs) e)" for e out
  proof (induction recs arbitrary: e out)
    case (Cons r recs)
    obtain clk data where r: "r = (clk, data)" by (cases r)
    have one: "on_event clk data (e, out) = (engine_run (ops_of [r]) e, out @ engine_outs (ops_of [r]) e)"
      by (cases "normalize_ev data")
        (simp_all add: r ops_of_def on_event_def engine_next_def split: prod.split)
    have "ops_of (r # recs) = ops_of [r] @ ops_of recs" by (simp add: ops_of_def)
    then show ?case
      using one Cons[of "engine_run (ops_of [r]) e" "out @ engine_outs (ops_of [r]) e"]
      by (simp add: r engine_run_append engine_outs_append)
  qed (simp add: ops_of_def)
  then show ?thesis by (simp add: deliver_def)
qed

lemma poll_loop_spec:
  "rs_engine (poll_loop ps st) = engine_run (poll_ops ps (rs_last_tick st)) (rs_engine st)
   \<and> rs_out (poll_loop ps st) = rs_out st @ engine_outs (poll_ops ps (rs_last_tick st)) (rs_engine st)"
proof (induction ps arbitrary: st)
  case (Cons p ps)
  show ?case
    by (simp add: Cons deliver_spec engine_run_append engine_outs_append engine_next_def Let_def split: prod.split)
qed simp

lemma tick_times_append: "tick_times (xs @ ys) = tick_times xs @ tick_times ys"
  by (induction xs rule: tick_times.induct) simp_all

lemma tick_times_ops_of: "tick_times (ops_of recs) = []"
  by (induction recs) (auto simp: ops_of_def split: option.split)

lemma poll_ops_spaced: "successively (\<lambda>a b. TICK_INTERVAL_NS \<le> b - a) (t # tick_times (poll_ops ps t))"
  by (induction ps arbitrary: t) (simp_all add: tick_times_append tick_times_ops_of)

lemma poll_loop_err:
  "0 \<le> rs_err st \<Longrightarrow>
   rs_err (poll_loop ps st) < 0 \<longleftrightarrow>
     (\<exists>p \<in> set ps. pl_err p < 0 \<and> pl_err p \<noteq> - EINTR \<and> pl_err p \<noteq> - EAGAIN)"
  by (induction ps arbitrary: st) (auto simp: Let_def EINTR_def EAGAIN_def split: prod.split)

text \<open>A \<open>diag\<close> session is a run of the engine: whatever the polls deliver, the findings printed
  and the final summary are those of the sequence of ingests (one per record that normalises, in
  order of delivery) and ticks, with ticks at least half a second apart and no tick after an
  interrupted poll; the exit code is 1 exactly when a poll failed for another reason than an
  interruption.\<close>

theorem diag_session_runs_engine:
  "diag_session rules now0 json ps =
     (engine_outs (poll_ops ps now0) (diag_engine_create rules),
      diag_engine_report json (engine_run (poll_ops ps now0) (diag_engine_create rules)),
      if list_ex (\<lambda>p. pl_err p < 0 \<and> pl_err p \<noteq> - EINTR \<and> pl_err p \<noteq> - EAGAIN) ps then 1 else 0)
   \<and> successively (\<lambda>a b. TICK_INTERVAL_NS \<le> b - a) (now0 # tick_times (poll_ops ps now0))"
proof -
  let ?st = "\<lparr> rs_engine = diag_engine_create rules, rs_out = [], rs_last_tick = now0, rs_err = 0 \<rparr>"
  have "rs_err (poll_loop ps ?st) < 0 \<longleftrightarrow>
      list_ex (\<lambda>p. pl_err p < 0 \<and> pl_err p \<noteq> - EINTR \<and> pl_err p \<noteq> - EAGAIN) ps"
    using poll_loop_err[of ?st ps] by (simp add: list_ex_iff)
  then show ?thesis
    using poll_loop_spec[of ps ?st] poll_ops_spaced[of now0 ps] by (auto simp: diag_session_def Let_def)
qed

end
