(* ===== verification/Diag_Rules.thy ===== *)
theory Diag_Rules
  imports Diag_Model
begin

text \<open>
  The rule loader (\<open>src/modules/diag/rules.c\<close>): from a YAML document to the engine's rules. libyaml is
  a parameter: a loaded document is a function from node numbers to nodes (\<open>yaml_document_get_node\<close>,
  \<open>None\<close> is NULL). An error is the message the code formats, cut to the caller's buffer at the top.
  The element counts the code checks against its arrays (\<open>nmatch\<close>, \<open>nstatus\<close>, \<open>nwhen\<close>, \<open>n\<close>) are the
  lengths of the lists. \<open>strdup\<close> is taken to succeed.
\<close>

section \<open>Symbols\<close>

definition kind_syms :: "(string \<times> int) list" where
  "kind_syms = [(''urb'', 1), (''enum'', 2), (''power'', 3), (''lifecycle'', 4), (''class'', 5),
     (''uvc_frame'', 6), (''uvc_vb2'', 7), (''hub'', 9)]"

definition enum_syms :: "(string \<times> int) list" where
  "enum_syms =
    [(''connect'', 0), (''disconnect'', 1), (''reset'', 2),
     (''autosuspend'', 0), (''autoresume'', 1), (''port_suspend'', 2), (''port_resume'', 3),
     (''hub_reset'', 0), (''hub_disable'', 1), (''hub_power_off'', 2), (''hub_power_on'', 3),
     (''hub_overcurrent'', 4),
     (''enum_state'', 0), (''get_descriptor'', 1), (''set_address'', 2), (''set_configuration'', 3),
     (''GET_STATUS'', 0), (''CLEAR_FEATURE'', 1), (''SET_FEATURE'', 3), (''SET_ADDRESS'', 5),
     (''GET_DESCRIPTOR'', 6), (''SET_CONFIGURATION'', 9), (''GET_INTERFACE'', 10), (''SET_INTERFACE'', 11),
     (''NOTATTACHED'', 0), (''ATTACHED'', 1), (''POWERED'', 2), (''RECONNECTING'', 3), (''UNAUTHED'', 4),
     (''DEFAULT'', 5), (''ADDRESS'', 6), (''CONFIGURED'', 7), (''SUSPENDED'', 8),
     (''video'', 0), (''audio'', 1), (''hid'', 2), (''storage'', 3),
     (''vb2_done'', 0), (''vb2_queue'', 1), (''vb2_qbuf'', 2), (''vb2_dqbuf'', 3), (''vb2_starved'', 4),
     (''isoc'', 0), (''int'', 1), (''control'', 2), (''bulk'', 3)]"

definition field_syms :: "(string \<times> diag_field) list" where
  "field_syms =
    [(''kind'', F_KIND), (''is_submit'', F_IS_SUBMIT), (''status'', F_STATUS), (''xfer_type'', F_XFER_TYPE),
     (''dir_in'', F_DIR_IN), (''ep'', F_EP), (''action'', F_ACTION), (''old_state'', F_OLD_STATE),
     (''new_state'', F_NEW_STATE), (''latency_ns'', F_LATENCY_NS), (''actual'', F_ACTUAL),
     (''length'', F_LENGTH), (''error_count'', F_ERROR_COUNT), (''class'', F_CLASS),
     (''frame_bytes'', F_FRAME_BYTES), (''frame_interval_ns'', F_FRAME_INTERVAL),
     (''frame_errored'', F_FRAME_ERRORED), (''vb2_sequence'', F_VB2_SEQUENCE),
     (''vb2_seq_gap'', F_VB2_SEQ_GAP), (''vb2_bytesused'', F_VB2_BYTESUSED),
     (''vb2_interval_ns'', F_VB2_INTERVAL), (''wire_to_vb2_ns'', F_WIRE_TO_VB2_NS),
     (''vb2_op'', F_VB2_OP), (''vb2_starved'', F_VB2_STARVED), (''vb2_num_buffers'', F_VB2_NUM_BUFFERS),
     (''vb2_queued'', F_VB2_QUEUED), (''vb2_drv_owned'', F_VB2_DRV_OWNED), (''step'', F_STEP),
     (''brequest'', F_BREQUEST), (''wvalue'', F_WVALUE), (''reset_resume'', F_RESET_RESUME)]"

fun sym_lookup :: "(string \<times> 'a) list \<Rightarrow> string \<Rightarrow> 'a option" where
  "sym_lookup [] name = None"
| "sym_lookup ((n, v) # tab) name = (if n = name then Some v else sym_lookup tab name)"

definition resolve_value :: "string \<Rightarrow> int option" where
  "resolve_value s =
     (if s = [] then None
      else let (v, rest, range_err) = strtol s in
        if \<not> range_err \<and> rest = [] then Some v
        else (case sym_lookup kind_syms s of
                Some k \<Rightarrow> Some k
              | None \<Rightarrow> (case sym_lookup enum_syms s of Some k \<Rightarrow> Some k | None \<Rightarrow> None)))"

section \<open>Documents\<close>

datatype yaml_node =
    YAML_SCALAR_NODE string
  | YAML_SEQUENCE_NODE "int list"
  | YAML_MAPPING_NODE "(int \<times> int) list"

type_synonym yaml_doc = "int \<Rightarrow> yaml_node option"

definition node_scalar :: "yaml_node option \<Rightarrow> string option" where
  "node_scalar n = (case n of Some (YAML_SCALAR_NODE s) \<Rightarrow> Some (cstr s) | _ \<Rightarrow> None)"

fun pairs_get :: "yaml_doc \<Rightarrow> (int \<times> int) list \<Rightarrow> string \<Rightarrow> yaml_node option" where
  "pairs_get doc [] key = None"
| "pairs_get doc ((k, v) # ps) key =
     (case node_scalar (doc k) of
        Some ks \<Rightarrow> if ks = key then doc v else pairs_get doc ps key
      | None \<Rightarrow> pairs_get doc ps key)"

definition map_get :: "yaml_doc \<Rightarrow> yaml_node option \<Rightarrow> string \<Rightarrow> yaml_node option" where
  "map_get doc mp key =
     (case mp of Some (YAML_MAPPING_NODE ps) \<Rightarrow> pairs_get doc ps key | _ \<Rightarrow> None)"

section \<open>Conditions\<close>

fun status_items :: "yaml_doc \<Rightarrow> int list \<Rightarrow> diag_cond \<Rightarrow> string + diag_cond" where
  "status_items doc [] c = Inr c"
| "status_items doc (it # its) c =
     (case Option.bind (node_scalar (doc it)) resolve_value of
        None \<Rightarrow> Inl ''bad status_in entry''
      | Some v \<Rightarrow>
          if length (c_status_in c) \<ge> DIAG_MAX_STATUS then Inl ''too many status_in entries''
          else status_items doc its (c\<lparr> c_status_in := c_status_in c @ [v] \<rparr>))"

definition parse_status_in :: "yaml_doc \<Rightarrow> yaml_node option \<Rightarrow> diag_cond \<Rightarrow> string + diag_cond" where
  "parse_status_in doc seq c =
     (case seq of
        Some (YAML_SEQUENCE_NODE its) \<Rightarrow> status_items doc its c
      | _ \<Rightarrow> Inl ''status_in must be a list'')"

text \<open>The operator a value prefix selects, and the value after it.\<close>

definition op_prefix :: "string \<Rightarrow> diag_op \<times> string" where
  "op_prefix s =
     (case s of
        [] \<Rightarrow> (OP_EQ, s)
      | c # cs \<Rightarrow>
          if c = CHR ''!'' then (OP_NE, cs)
          else if c = CHR ''>'' \<and> cs \<noteq> [] \<and> hd cs = CHR ''='' then (OP_GTE, tl cs)
          else if c = CHR ''<'' \<and> cs \<noteq> [] \<and> hd cs = CHR ''='' then (OP_LTE, tl cs)
          else (OP_EQ, s))"

definition add_match :: "diag_cond \<Rightarrow> string \<Rightarrow> string \<Rightarrow> string + diag_cond" where
  "add_match c field valstr =
     (case sym_lookup field_syms field of
        None \<Rightarrow> Inl (''unknown field '' @ [CHR 0x27] @ field @ [CHR 0x27])
      | Some fid \<Rightarrow>
          let (op, val) = op_prefix valstr in
          case resolve_value val of
            None \<Rightarrow> Inl (''bad value '' @ [CHR 0x27] @ val @ [CHR 0x27] @ '' for field '' @ [CHR 0x27] @ field @ [CHR 0x27])
          | Some v \<Rightarrow>
              if length (c_match c) \<ge> DIAG_MAX_MATCH then Inl ''too many match fields''
              else Inr (c\<lparr> c_match := c_match c @ [\<lparr> m_field = fid, m_value = v, m_op = op \<rparr>] \<rparr>))"

fun match_pairs :: "yaml_doc \<Rightarrow> (int \<times> int) list \<Rightarrow> diag_cond \<Rightarrow> string + diag_cond" where
  "match_pairs doc [] c = Inr c"
| "match_pairs doc ((k, v) # ps) c =
     (case (node_scalar (doc k), node_scalar (doc v)) of
        (Some ks, Some vs) \<Rightarrow>
          (case add_match c ks vs of Inl e \<Rightarrow> Inl e | Inr c' \<Rightarrow> match_pairs doc ps c')
      | _ \<Rightarrow> Inl ''match entries must be scalars'')"

definition parse_match_map :: "yaml_doc \<Rightarrow> yaml_node option \<Rightarrow> diag_cond \<Rightarrow> string + diag_cond" where
  "parse_match_map doc mp c =
     (case mp of
        Some (YAML_MAPPING_NODE ps) \<Rightarrow> match_pairs doc ps c
      | _ \<Rightarrow> Inl ''match must be a mapping'')"

definition bad_kind :: "string \<Rightarrow> string" where
  "bad_kind s = ''bad kind '' @ [CHR 0x27] @ s @ [CHR 0x27]"

text \<open>The four optional numbers of a \<open>when\<close> item, read by \<open>strtol\<close> without a check.\<close>

definition when_numbers :: "yaml_doc \<Rightarrow> yaml_node option \<Rightarrow> diag_cond \<Rightarrow> diag_cond" where
  "when_numbers doc item c =
     (let c1 = (case node_scalar (map_get doc item ''within_ms'') of None \<Rightarrow> c
                | Some s \<Rightarrow> c\<lparr> c_has_within_ms := True, c_within_ms := fst (strtol s) \<rparr>);
          c2 = (case node_scalar (map_get doc item ''count_gte'') of None \<Rightarrow> c1
                | Some s \<Rightarrow> c1\<lparr> c_has_count_gte := True, c_count_gte := fst (strtol s) \<rparr>);
          c3 = (case node_scalar (map_get doc item ''min_span_ms'') of None \<Rightarrow> c2
                | Some s \<Rightarrow> c2\<lparr> c_has_min_span_ms := True, c_min_span_ms := fst (strtol s) \<rparr>)
      in (case node_scalar (map_get doc item ''cluster_ms'') of None \<Rightarrow> c3
          | Some s \<Rightarrow> c3\<lparr> c_has_cluster_ms := True, c_cluster_ms := fst (strtol s) \<rparr>))"

definition when_kind :: "yaml_doc \<Rightarrow> yaml_node option \<Rightarrow> diag_cond \<Rightarrow> string + diag_cond" where
  "when_kind doc item c =
     (case node_scalar (map_get doc item ''kind'') of
        None \<Rightarrow> Inr c
      | Some s \<Rightarrow> (case resolve_value s of
                     None \<Rightarrow> Inl (bad_kind s)
                   | Some v \<Rightarrow> Inr (c\<lparr> c_has_kind := True, c_kind := word_of_int v \<rparr>)))"

definition when_match :: "yaml_doc \<Rightarrow> yaml_node option \<Rightarrow> diag_cond \<Rightarrow> string + diag_cond" where
  "when_match doc item c =
     (case map_get doc item ''match'' of None \<Rightarrow> Inr c | Some n \<Rightarrow> parse_match_map doc (Some n) c)"

definition when_status :: "yaml_doc \<Rightarrow> yaml_node option \<Rightarrow> diag_cond \<Rightarrow> string + diag_cond" where
  "when_status doc item c =
     (case map_get doc item ''status_in'' of None \<Rightarrow> Inr c | Some n \<Rightarrow> parse_status_in doc (Some n) c)"

definition parse_when :: "yaml_doc \<Rightarrow> yaml_node option \<Rightarrow> diag_cond \<Rightarrow> string + diag_cond" where
  "parse_when doc item c =
     (case item of
        Some (YAML_MAPPING_NODE _) \<Rightarrow>
          (case when_kind doc item c of
             Inl e \<Rightarrow> Inl e
           | Inr c1 \<Rightarrow>
               (case when_match doc item c1 of
                  Inl e \<Rightarrow> Inl e
                | Inr c2 \<Rightarrow>
                    (case when_status doc item c2 of
                       Inl e \<Rightarrow> Inl e
                     | Inr c3 \<Rightarrow> Inr (when_numbers doc item c3))))
      | _ \<Rightarrow> Inl ''when item must be a mapping'')"

fun trigger_pairs :: "yaml_doc \<Rightarrow> (int \<times> int) list \<Rightarrow> diag_cond \<Rightarrow> string + diag_cond" where
  "trigger_pairs doc [] c = Inr c"
| "trigger_pairs doc ((k, v) # ps) c =
     (case (node_scalar (doc k), node_scalar (doc v)) of
        (Some ks, Some vs) \<Rightarrow>
          if ks = ''kind'' then
            (case resolve_value vs of
               None \<Rightarrow> Inl (bad_kind vs)
             | Some v2 \<Rightarrow> trigger_pairs doc ps (c\<lparr> c_has_kind := True, c_kind := word_of_int v2 \<rparr>))
          else (case add_match c ks vs of Inl e \<Rightarrow> Inl e | Inr c' \<Rightarrow> trigger_pairs doc ps c')
      | _ \<Rightarrow> Inl ''trigger entries must be scalars'')"

definition parse_trigger :: "yaml_doc \<Rightarrow> yaml_node option \<Rightarrow> diag_cond \<Rightarrow> string + diag_cond" where
  "parse_trigger doc mp c =
     (case mp of
        Some (YAML_MAPPING_NODE ps) \<Rightarrow>
          (case trigger_pairs doc ps c of
             Inl e \<Rightarrow> Inl e
           | Inr c' \<Rightarrow> if \<not> c_has_kind c' then Inl ''trigger requires a kind'' else Inr c')
      | _ \<Rightarrow> Inl ''trigger must be a mapping'')"

section \<open>Rules\<close>

definition parse_severity :: "string option \<Rightarrow> diag_severity" where
  "parse_severity s =
     (case s of
        None \<Rightarrow> SEV_INFO
      | Some s \<Rightarrow> if s = ''warn'' \<or> s = ''warning'' then SEV_WARN
                  else if s = ''error'' \<or> s = ''err'' then SEV_ERROR
                  else SEV_INFO)"

definition dup_scalar :: "yaml_doc \<Rightarrow> yaml_node option \<Rightarrow> string \<Rightarrow> string option" where
  "dup_scalar doc mp key = node_scalar (map_get doc mp key)"

text \<open>\<open>(int)v\<close>\<close>

definition to_int32 :: "int \<Rightarrow> int" where
  "to_int32 v = sint (word_of_int v :: s32)"

definition parse_deadline :: "yaml_doc \<Rightarrow> yaml_node option \<Rightarrow> diag_rule \<Rightarrow> string + diag_rule" where
  "parse_deadline doc dl r =
     (let r0 = r\<lparr> r_type := RULE_DEADLINE, r_dl_reached_state := - 1, r_dl_without_state := - 1 \<rparr> in
      case Option.bind (node_scalar (map_get doc dl ''reached_state'')) resolve_value of
        None \<Rightarrow> Inl ''deadline needs reached_state''
      | Some v \<Rightarrow>
          let r1 = r0\<lparr> r_dl_reached_state := to_int32 v \<rparr>;
              r2 = (case Option.bind (node_scalar (map_get doc dl ''without_state'')) resolve_value of
                      None \<Rightarrow> r1
                    | Some v2 \<Rightarrow> r1\<lparr> r_dl_without_state := to_int32 v2 \<rparr>)
          in (case node_scalar (map_get doc dl ''timeout_ms'') of
                None \<Rightarrow> Inl ''deadline needs timeout_ms''
              | Some s \<Rightarrow> Inr (r2\<lparr> r_dl_timeout_ms := fst (strtol s) \<rparr>)))"

fun when_items :: "yaml_doc \<Rightarrow> int list \<Rightarrow> diag_rule \<Rightarrow> string + diag_rule" where
  "when_items doc [] r = Inr r"
| "when_items doc (it # its) r =
     (if length (r_when r) \<ge> DIAG_MAX_WHEN then Inl ''too many when conditions''
      else (case parse_when doc (doc it) zero_cond of
              Inl e \<Rightarrow> Inl e
            | Inr c \<Rightarrow> when_items doc its (r\<lparr> r_when := r_when r @ [c] \<rparr>)))"

text \<open>The members every rule has, set before its kind is known.\<close>

definition rule_header :: "yaml_doc \<Rightarrow> yaml_node option \<Rightarrow> diag_rule" where
  "rule_header doc rn =
     zero_rule\<lparr> r_id := dup_scalar doc rn ''id'', r_name := dup_scalar doc rn ''name'',
                r_conclusion := dup_scalar doc rn ''conclusion'', r_fix := dup_scalar doc rn ''fix'',
                r_severity := parse_severity (node_scalar (map_get doc rn ''severity'')) \<rparr>"

definition parse_rule :: "yaml_doc \<Rightarrow> yaml_node option \<Rightarrow> string + diag_rule" where
  "parse_rule doc rn =
     (let r = rule_header doc rn in
      if r_id r = None then Inl ''rule missing id''
      else (case map_get doc rn ''deadline'' of
              Some n \<Rightarrow> parse_deadline doc (Some n) r
            | None \<Rightarrow>
                let r1 = r\<lparr> r_type := RULE_EVENT \<rparr> in
                (case parse_trigger doc (map_get doc rn ''trigger'') (r_trigger r1) of
                   Inl e \<Rightarrow> Inl e
                 | Inr c \<Rightarrow>
                     let r2 = r1\<lparr> r_trigger := c \<rparr> in
                     (case map_get doc rn ''when'' of
                        None \<Rightarrow> Inr r2
                      | Some (YAML_SEQUENCE_NODE its) \<Rightarrow> when_items doc its r2
                      | Some _ \<Rightarrow> Inl ''when must be a list''))))"

fun rule_items :: "yaml_doc \<Rightarrow> int list \<Rightarrow> diag_rule list \<Rightarrow> string + diag_rule list" where
  "rule_items doc [] arr = Inr arr"
| "rule_items doc (it # its) arr =
     (if length arr \<ge> DIAG_MAX_RULES then Inr arr
      else (case parse_rule doc (doc it) of
              Inl e \<Rightarrow> Inl e
            | Inr r \<Rightarrow> rule_items doc its (arr @ [r])))"

text \<open>
  What libyaml and the allocator do on one call: initialising the parser may fail, loading gives a
  document or a problem with its line, \<open>calloc\<close> may fail.
\<close>

record yaml_env =
  y_init :: bool
  y_load :: "string \<Rightarrow> (nat \<times> string option) + yaml_doc \<times> yaml_node option"
  y_calloc :: bool

definition rules_of_document ::
    "yaml_env \<Rightarrow> string \<Rightarrow> string + diag_rule list" where
  "rules_of_document env text =
     (if \<not> y_init env then Inl ''yaml init failed''
      else (case y_load env text of
              Inl (line, problem) \<Rightarrow>
                Inl (''YAML parse error at line '' @ show_dec (line + 1) @ '': ''
                     @ (case problem of None \<Rightarrow> ''?'' | Some p \<Rightarrow> p))
            | Inr (doc, root) \<Rightarrow>
                (case root of
                   None \<Rightarrow> Inl ''empty document''
                 | Some rt \<Rightarrow>
                     (case map_get doc (Some rt) ''rules'' of
                        Some (YAML_SEQUENCE_NODE its) \<Rightarrow>
                          if \<not> y_calloc env then Inl ''out of memory'' else rule_items doc its []
                      | _ \<Rightarrow> Inl (''top-level '' @ [CHR 0x27] @ ''rules:'' @ [CHR 0x27] @ '' list required'')))))"

definition diag_rules_parse :: "yaml_env \<Rightarrow> string \<Rightarrow> nat \<Rightarrow> string + diag_rule list" where
  "diag_rules_parse env text errsz =
     (case rules_of_document env text of Inl e \<Rightarrow> Inl (snprintf_s errsz e) | Inr rules \<Rightarrow> Inr rules)"

text \<open>A file as \<open>diag_rules_load_file\<close> meets it.\<close>

datatype rules_file =
    CannotOpen string    \<comment> \<open>\<open>strerror(errno)\<close>\<close>
  | CannotSize
  | NoMemory
  | Contents string

definition diag_rules_load_file ::
    "yaml_env \<Rightarrow> (string \<Rightarrow> rules_file) \<Rightarrow> string \<Rightarrow> nat \<Rightarrow> string + diag_rule list" where
  "diag_rules_load_file env fs path errsz =
     (case fs path of
        CannotOpen e \<Rightarrow> Inl (snprintf_s errsz (''cannot open '' @ path @ '': '' @ e))
      | CannotSize \<Rightarrow> Inl (snprintf_s errsz (''cannot size '' @ path))
      | NoMemory \<Rightarrow> Inl (snprintf_s errsz ''out of memory'')
      | Contents text \<Rightarrow> diag_rules_parse env text errsz)"

text \<open>The embedded knowledge base (a text generated at build time) is a parameter.\<close>

definition diag_rules_load_default :: "yaml_env \<Rightarrow> string \<Rightarrow> nat \<Rightarrow> string + diag_rule list" where
  "diag_rules_load_default env rules_default_yaml errsz = diag_rules_parse env rules_default_yaml errsz"

end
