(* ===== verification/Diag_Rules_Props.thy ===== *)
theory Diag_Rules_Props
  imports Diag_Rules
begin

text \<open>
  Properties of the rule loader: what it accepts fits the engine's arrays, the value prefixes and
  numbers round-trip, no symbol hides another, rules come out in document order, and a parsed trigger
  means what its YAML mapping says.
\<close>

section \<open>Array bounds\<close>

definition cond_fits :: "diag_cond \<Rightarrow> bool" where
  "cond_fits c \<longleftrightarrow> length (c_match c) \<le> DIAG_MAX_MATCH \<and> length (c_status_in c) \<le> DIAG_MAX_STATUS"

definition rule_fits :: "diag_rule \<Rightarrow> bool" where
  "rule_fits r \<longleftrightarrow> r_id r \<noteq> None \<and> cond_fits (r_trigger r) \<and> length (r_when r) \<le> DIAG_MAX_WHEN
     \<and> list_all cond_fits (r_when r) \<and> (r_type r = RULE_DEADLINE \<or> c_has_kind (r_trigger r))"

lemma cond_fits_zero: "cond_fits zero_cond"
  by (simp add: cond_fits_def zero_cond_def)

lemma cond_fits_update [simp]:
  "cond_fits (c\<lparr> c_has_kind := b, c_kind := k \<rparr>) = cond_fits c"
  "cond_fits (c\<lparr> c_has_within_ms := b, c_within_ms := n \<rparr>) = cond_fits c"
  "cond_fits (c\<lparr> c_has_count_gte := b, c_count_gte := n \<rparr>) = cond_fits c"
  "cond_fits (c\<lparr> c_has_min_span_ms := b, c_min_span_ms := n \<rparr>) = cond_fits c"
  "cond_fits (c\<lparr> c_has_cluster_ms := b, c_cluster_ms := n \<rparr>) = cond_fits c"
  by (simp_all add: cond_fits_def)

lemma status_items_fits: "status_items doc its c = Inr c' \<Longrightarrow> cond_fits c \<Longrightarrow> cond_fits c'"
  by (induction doc its c rule: status_items.induct)
    (auto simp: cond_fits_def split: option.splits if_splits)

lemma add_match_Inr:
  "add_match c field valstr = Inr c' \<longleftrightarrow>
     (\<exists>fid v. sym_lookup field_syms field = Some fid \<and> resolve_value (snd (op_prefix valstr)) = Some v
        \<and> length (c_match c) < DIAG_MAX_MATCH
        \<and> c' = c\<lparr> c_match := c_match c @ [\<lparr> m_field = fid, m_value = v, m_op = fst (op_prefix valstr) \<rparr>] \<rparr>)"
  by (auto simp: add_match_def split: option.split prod.split)

lemma add_match_fits: "add_match c field valstr = Inr c' \<Longrightarrow> cond_fits c \<Longrightarrow> cond_fits c'"
  by (auto simp: add_match_Inr cond_fits_def)

lemma match_pairs_fits: "match_pairs doc ps c = Inr c' \<Longrightarrow> cond_fits c \<Longrightarrow> cond_fits c'"
  by (induction doc ps c rule: match_pairs.induct)
    (auto split: option.splits sum.splits dest: add_match_fits)

lemma trigger_pairs_fits: "trigger_pairs doc ps c = Inr c' \<Longrightarrow> cond_fits c \<Longrightarrow> cond_fits c'"
  by (induction doc ps c rule: trigger_pairs.induct)
    (auto split: option.splits sum.splits if_splits dest: add_match_fits)

lemma parse_trigger_fits:
  "parse_trigger doc mp c = Inr c' \<Longrightarrow> cond_fits c \<Longrightarrow> cond_fits c' \<and> c_has_kind c'"
  by (auto simp: parse_trigger_def split: option.splits yaml_node.splits sum.splits if_splits
      dest: trigger_pairs_fits)

lemma when_numbers_fits: "cond_fits (when_numbers doc item c) = cond_fits c"
  by (simp add: when_numbers_def Let_def split: option.split)

lemma parse_when_fits: "parse_when doc item c = Inr c' \<Longrightarrow> cond_fits c \<Longrightarrow> cond_fits c'"
  by (auto simp: parse_when_def when_kind_def when_match_def when_status_def parse_match_map_def
      parse_status_in_def when_numbers_fits split: option.splits yaml_node.splits sum.splits
      dest!: match_pairs_fits status_items_fits)

lemma when_items_fits:
  "when_items doc its r = Inr r' \<Longrightarrow> length (r_when r) \<le> DIAG_MAX_WHEN \<and> list_all cond_fits (r_when r) \<Longrightarrow>
   length (r_when r') \<le> DIAG_MAX_WHEN \<and> list_all cond_fits (r_when r') \<and> r_id r' = r_id r
   \<and> r_trigger r' = r_trigger r \<and> r_type r' = r_type r"
proof (induction doc its r rule: when_items.induct)
  case (2 doc it its r)
  then show ?case using parse_when_fits[OF _ cond_fits_zero, of doc "doc it"]
    by (auto split: if_splits sum.splits)
qed simp

lemma parse_rule_fits:
  assumes "parse_rule doc rn = Inr r"
  shows "rule_fits r"
proof -
  let ?r = "rule_header doc rn"
  have id: "r_id ?r \<noteq> None" using assms by (auto simp: parse_rule_def Let_def split: if_splits)
  have base: "r_when ?r = []" "r_trigger ?r = zero_cond" by (simp_all add: rule_header_def zero_rule_def)
  show ?thesis
  proof (cases "map_get doc rn ''deadline''")
    case (Some n)
    then have "parse_deadline doc (Some n) ?r = Inr r" using assms id by (simp add: parse_rule_def Let_def)
    then show ?thesis using id base cond_fits_zero
      by (auto simp: parse_deadline_def Let_def rule_fits_def split: option.splits)
  next
    case None
    then obtain c where c: "parse_trigger doc (map_get doc rn ''trigger'') zero_cond = Inr c"
      using assms id base by (auto simp: parse_rule_def Let_def split: sum.splits)
    let ?r2 = "?r\<lparr> r_type := RULE_EVENT, r_trigger := c \<rparr>"
    have fits: "cond_fits c" "c_has_kind c" using parse_trigger_fits[OF c cond_fits_zero] by auto
    have "r = ?r2 \<or> (\<exists>its. when_items doc its ?r2 = Inr r)"
      using assms id None c base
      by (auto simp: parse_rule_def Let_def split: option.splits yaml_node.splits)
    then show ?thesis
    proof
      assume "\<exists>its. when_items doc its ?r2 = Inr r"
      then obtain its where "when_items doc its ?r2 = Inr r" ..
      from when_items_fits[OF this] show ?thesis using fits id base by (auto simp: rule_fits_def)
    qed (use fits id base in \<open>simp add: rule_fits_def\<close>)
  qed
qed

lemma rule_items_spec:
  "rule_items doc its arr = Inr rules \<Longrightarrow> length arr \<le> DIAG_MAX_RULES \<Longrightarrow>
   (\<exists>rs. rules = arr @ rs \<and> length rs = min (DIAG_MAX_RULES - length arr) (length its)
     \<and> (\<forall>i < length rs. parse_rule doc (doc (its ! i)) = Inr (rs ! i)))"
proof (induction doc its arr rule: rule_items.induct)
  case (2 doc it its arr)
  show ?case
  proof (cases "length arr \<ge> DIAG_MAX_RULES")
    case True
    then show ?thesis using 2 by simp
  next
    case False
    then obtain r where r: "parse_rule doc (doc it) = Inr r" "rule_items doc its (arr @ [r]) = Inr rules"
      using 2(2) by (auto split: sum.splits)
    then obtain rs where rs: "rules = (arr @ [r]) @ rs"
      "length rs = min (DIAG_MAX_RULES - length (arr @ [r])) (length its)"
      "\<forall>i < length rs. parse_rule doc (doc (its ! i)) = Inr (rs ! i)"
      using 2(1)[OF False r(1)] False by (auto simp: not_le)
    have "parse_rule doc (doc ((it # its) ! i)) = Inr ((r # rs) ! i)" if "i < length (r # rs)" for i
      using that r(1) rs(3) by (cases i) auto
    moreover have "length (r # rs) = min (DIAG_MAX_RULES - length arr) (length (it # its))"
      using rs(2) False by auto
    ultimately show ?thesis using rs(1) by (intro exI[of _ "r # rs"]) auto
  qed
qed simp

lemma diag_rules_parse_Inr:
  assumes "diag_rules_parse env text errsz = Inr rules"
  shows "\<exists>doc root its. y_load env text = Inr (doc, Some root)
    \<and> map_get doc (Some root) ''rules'' = Some (YAML_SEQUENCE_NODE its) \<and> rule_items doc its [] = Inr rules"
  using assms
  by (auto simp: diag_rules_parse_def rules_of_document_def
      split: if_splits sum.splits option.splits yaml_node.splits prod.splits)

section \<open>Demonstration document\<close>

definition demo_doc :: yaml_doc where
  "demo_doc = map_of
    [(1, YAML_MAPPING_NODE [(2, 3)]), (2, YAML_SCALAR_NODE ''rules''), (3, YAML_SEQUENCE_NODE [4]),
     (4, YAML_MAPPING_NODE [(5, 6), (7, 8)]), (5, YAML_SCALAR_NODE ''id''), (6, YAML_SCALAR_NODE ''proto''),
     (7, YAML_SCALAR_NODE ''trigger''), (8, YAML_MAPPING_NODE [(9, 10), (11, 12)]),
     (9, YAML_SCALAR_NODE ''kind''), (10, YAML_SCALAR_NODE ''urb''),
     (11, YAML_SCALAR_NODE ''status''), (12, YAML_SCALAR_NODE ''!0'')]"

definition demo_env :: yaml_env where
  "demo_env = \<lparr> y_init = True, y_load = (\<lambda>_. Inr (demo_doc, demo_doc 1)), y_calloc = True \<rparr>"

definition demo_trigger :: diag_cond where
  "demo_trigger = zero_cond\<lparr> c_has_kind := True, c_kind := 1,
     c_match := [\<lparr> m_field = F_STATUS, m_value = 0, m_op = OP_NE \<rparr>] \<rparr>"

lemmas demo_doc_eval = demo_doc_def node_scalar_def cstr_def map_get_def

lemma demo_resolve: "resolve_value ''urb'' = Some 1" "resolve_value ''0'' = Some 0"
  by (simp_all add: resolve_value_def strtol_def read_sign_def read_magnitude_def is_space_def is_digit_def
      digit_val_def Let_def kind_syms_def LONG_MAX_def LONG_MIN_def)

lemma demo_parse_trigger: "parse_trigger demo_doc (demo_doc 8) zero_cond = Inr demo_trigger"
  by (simp add: parse_trigger_def demo_doc_eval demo_resolve add_match_def op_prefix_def field_syms_def
      demo_trigger_def zero_cond_def DIAG_MAX_MATCH_def)

definition demo_rule :: diag_rule where
  "demo_rule = zero_rule\<lparr> r_id := Some ''proto'', r_trigger := demo_trigger \<rparr>"

lemma demo_parse_rule: "parse_rule demo_doc (demo_doc 4) = Inr demo_rule"
proof -
  have get: "map_get demo_doc (demo_doc 4) ''trigger'' = demo_doc 8"
    "map_get demo_doc (demo_doc 4) ''deadline'' = None" "map_get demo_doc (demo_doc 4) ''when'' = None"
    "node_scalar (map_get demo_doc (demo_doc 4) ''severity'') = None"
    "dup_scalar demo_doc (demo_doc 4) ''id'' = Some ''proto''" "dup_scalar demo_doc (demo_doc 4) ''name'' = None"
    "dup_scalar demo_doc (demo_doc 4) ''conclusion'' = None" "dup_scalar demo_doc (demo_doc 4) ''fix'' = None"
    by (simp_all add: dup_scalar_def demo_doc_eval)
  have "r_trigger zero_rule = zero_cond" by (simp add: zero_rule_def)
  then show ?thesis
    by (simp add: parse_rule_def rule_header_def Let_def get demo_parse_trigger parse_severity_def)
      (simp add: demo_rule_def zero_rule_def)
qed

lemma demo_root:
  "map_get demo_doc (Some (YAML_MAPPING_NODE [(2, 3)])) ''rules'' = Some (YAML_SEQUENCE_NODE [4])"
  "y_load demo_env txt = Inr (demo_doc, Some (YAML_MAPPING_NODE [(2, 3)]))" "y_init demo_env" "y_calloc demo_env"
  by (simp_all add: demo_env_def demo_doc_eval)

lemma demo_parse: "diag_rules_parse demo_env txt n = Inr [demo_rule]"
  using demo_parse_rule by (simp add: diag_rules_parse_def rules_of_document_def demo_root DIAG_MAX_RULES_def)

section \<open>Properties\<close>

text \<open>C20: Whatever the document says, a loaded rule set fits the engine's fixed arrays: at most 64
  rules, each with an id, at most 8 \<open>when\<close> conditions, at most 8 field constraints and 16 status values
  per condition, and a kind in the trigger of every event rule.\<close>

theorem loaded_rules_fit:
  assumes "diag_rules_parse env text errsz = Inr rules"
  shows "length rules \<le> DIAG_MAX_RULES \<and> list_all rule_fits rules"
proof -
  obtain doc its where items: "rule_items doc its [] = Inr rules"
    using diag_rules_parse_Inr[OF assms] by blast
  obtain rs where "rules = rs" "length rs \<le> DIAG_MAX_RULES"
    "\<forall>i < length rs. parse_rule doc (doc (its ! i)) = Inr (rs ! i)"
    using rule_items_spec[OF items] by auto
  then show ?thesis using parse_rule_fits by (fastforce simp: list_all_length)
qed

theorem loaded_rules_fit_witness: "length [demo_rule] \<le> DIAG_MAX_RULES \<and> list_all rule_fits [demo_rule]"
  using loaded_rules_fit[OF demo_parse] by blast

lemma rule_items_error:
  "rule_items doc its arr = Inl e \<Longrightarrow> length arr \<le> DIAG_MAX_RULES \<Longrightarrow>
   \<exists>i < length its. length arr + i < DIAG_MAX_RULES \<and> parse_rule doc (doc (its ! i)) = Inl e
     \<and> (\<forall>j < i. \<exists>r. parse_rule doc (doc (its ! j)) = Inr r)"
proof (induction doc its arr rule: rule_items.induct)
  case (2 doc it its arr)
  then have less: "\<not> length arr \<ge> DIAG_MAX_RULES" by (auto split: if_splits)
  show ?case
  proof (cases "parse_rule doc (doc it)")
    case (Inl e')
    then show ?thesis using 2(2) less by (intro exI[of _ 0]) auto
  next
    case (Inr r)
    obtain i where i: "i < length its" "length (arr @ [r]) + i < DIAG_MAX_RULES"
      "parse_rule doc (doc (its ! i)) = Inl e" "\<forall>j < i. \<exists>r. parse_rule doc (doc (its ! j)) = Inr r"
      using 2(1)[OF less Inr] 2(2) less Inr by (auto simp: not_le)
    have "\<exists>r. parse_rule doc (doc ((it # its) ! j)) = Inr r" if "j < Suc i" for j
      using that i(4) Inr by (cases j) auto
    then show ?thesis using i(1-3) by (intro exI[of _ "Suc i"]) auto
  qed
qed simp

text \<open>A rule set is loaded exactly from the \<open>rules\<close> list of the document, in its order: the
  \<open>i\<close>-th rule is what the \<open>i\<close>-th item parses to, items beyond the 64th are left out, and one bad item
  among the first 64 rejects the whole set with that item's error.\<close>

theorem loaded_rules_in_order:
  assumes "y_init env" "y_calloc env" "y_load env text = Inr (doc, Some root)"
    and "map_get doc (Some root) ''rules'' = Some (YAML_SEQUENCE_NODE its)"
  shows "case diag_rules_parse env text errsz of
      Inr rules \<Rightarrow> length rules = min DIAG_MAX_RULES (length its)
        \<and> (\<forall>i < length rules. parse_rule doc (doc (its ! i)) = Inr (rules ! i))
    | Inl e \<Rightarrow> \<exists>i < min DIAG_MAX_RULES (length its). \<exists>m. parse_rule doc (doc (its ! i)) = Inl m
        \<and> e = snprintf_s errsz m \<and> (\<forall>j < i. \<exists>r. parse_rule doc (doc (its ! j)) = Inr r)"
proof (cases "rule_items doc its []")
  case (Inl e)
  then show ?thesis using assms rule_items_error[OF Inl]
    by (auto simp: diag_rules_parse_def rules_of_document_def)
next
  case (Inr rules)
  then show ?thesis using assms rule_items_spec[OF Inr]
    by (auto simp: diag_rules_parse_def rules_of_document_def)
qed

theorem loaded_rules_in_order_witness:
  "case diag_rules_parse demo_env ''x'' 256 of Inr rules \<Rightarrow> length rules = 1 | Inl e \<Rightarrow> False"
  using loaded_rules_in_order[OF demo_root(3,4,2,1)] by (simp add: demo_parse)

fun op_str :: "diag_op \<Rightarrow> string" where
  "op_str OP_EQ = []"
| "op_str OP_NE = ''!''"
| "op_str OP_GTE = ''>=''"
| "op_str OP_LTE = ''<=''"

lemma sym_lookup_distinct: "distinct (map fst tab) \<Longrightarrow> (n, v) \<in> set tab \<Longrightarrow> sym_lookup tab n = Some v"
  by (induction tab) force+

lemma field_syms_distinct: "distinct (map fst field_syms)"
  by (simp add: field_syms_def)

lemma digit_char_not_op: "d < 10 \<Longrightarrow> digit_char d \<noteq> CHR ''!'' \<and> digit_char d \<noteq> CHR ''>'' \<and> digit_char d \<noteq> CHR ''<''"
  by (drule less_10_cases) (auto simp: digit_char_def)

lemma show_long_hd: "\<exists>c cs. show_long i = c # cs \<and> c \<noteq> CHR ''!'' \<and> c \<noteq> CHR ''>'' \<and> c \<noteq> CHR ''<''"
proof (cases "i < 0")
  case False
  obtain c cs where c: "show_dec (nat i) = c # cs" by (cases "show_dec (nat i)") (auto simp: show_dec_def)
  then show ?thesis using show_dec_hd[of "nat i"] digit_char_not_op False by (auto simp: show_long_def)
qed (simp add: show_long_def)

lemma op_prefix_op_str: "op_prefix (op_str op @ show_long v) = (op, show_long v)"
  using show_long_hd[of v] by (cases op) (auto simp: op_prefix_def)

lemma resolve_show_long: "LONG_MIN \<le> v \<Longrightarrow> v \<le> LONG_MAX \<Longrightarrow> resolve_value (show_long v) = Some v"
  using show_long_hd[of v] by (auto simp: resolve_value_def strtol_show_long)

text \<open>Every number in the range of \<open>long\<close> can be written in a rule: a field constraint spelled as
  an operator prefix followed by the printed number is parsed back to that field, operator and value,
  for every field name of the DSL.\<close>

theorem field_constraint_round_trip:
  assumes "(field, f) \<in> set field_syms" "LONG_MIN \<le> v" "v \<le> LONG_MAX" "length (c_match c) < DIAG_MAX_MATCH"
  shows "add_match c field (op_str op @ show_long v)
    = Inr (c\<lparr> c_match := c_match c @ [\<lparr> m_field = f, m_value = v, m_op = op \<rparr>] \<rparr>)"
  using assms by (simp add: add_match_Inr op_prefix_op_str resolve_show_long
      sym_lookup_distinct[OF field_syms_distinct])

theorem field_constraint_round_trip_witness:
  "add_match zero_cond ''status'' (op_str OP_GTE @ show_long (- 71))
    = Inr (zero_cond\<lparr> c_match := [\<lparr> m_field = F_STATUS, m_value = - 71, m_op = OP_GTE \<rparr>] \<rparr>)"
  using field_constraint_round_trip[of "''status''" F_STATUS "- 71" zero_cond OP_GTE]
  by (simp add: field_syms_def LONG_MIN_def LONG_MAX_def zero_cond_def DIAG_MAX_MATCH_def)

lemma strtol_alpha:
  assumes "s = c # cs" "\<not> is_space c" "c \<noteq> CHR ''-''" "c \<noteq> CHR ''+''" "\<not> is_digit 10 c"
  shows "strtol s = (0, s, False)"
proof -
  have "c \<noteq> CHR ''0''" using assms(5) by (auto simp: is_digit_def digit_val_def)
  then show ?thesis using assms by (simp add: strtol_def read_sign_def read_magnitude_def)
qed

definition sym_initials :: string where
  "sym_initials = ''ACDGNPRSUabcdeghilprsuv''"

lemma alpha_initials:
  "c \<in> set sym_initials \<Longrightarrow> \<not> is_space c \<and> c \<noteq> CHR ''-'' \<and> c \<noteq> CHR ''+'' \<and> \<not> is_digit 10 c"
proof -
  have "list_all (\<lambda>c. \<not> is_space c \<and> c \<noteq> CHR ''-'' \<and> c \<noteq> CHR ''+'' \<and> \<not> is_digit 10 c) sym_initials"
    by code_simp
  then show "c \<in> set sym_initials \<Longrightarrow> ?thesis" unfolding list_all_iff by blast
qed

lemma syms_initials: "(n, v) \<in> set (kind_syms @ enum_syms) \<Longrightarrow> n \<noteq> [] \<and> hd n \<in> set sym_initials"
proof -
  have "list_all (\<lambda>(n, v). n \<noteq> [] \<and> hd n \<in> set sym_initials) (kind_syms @ enum_syms)"
    by (simp add: kind_syms_def enum_syms_def sym_initials_def)
  then show "(n, v) \<in> set (kind_syms @ enum_syms) \<Longrightarrow> ?thesis" unfolding list_all_iff by blast
qed

lemma syms_lookup:
  "list_all (\<lambda>(n, v). sym_lookup kind_syms n = Some v) kind_syms"
  "list_all (\<lambda>(n, v). sym_lookup kind_syms n = None \<and> sym_lookup enum_syms n = Some v) enum_syms"
  by (simp_all add: kind_syms_def enum_syms_def)

text \<open>No symbol of the DSL hides another: every kind, action, state, request, class, operation and
  transfer name stands for its own number, and every field name for its own field.\<close>

lemma symbols_unambiguous:
  "list_all (\<lambda>(n, v). resolve_value n = Some v) (kind_syms @ enum_syms)
   \<and> list_all (\<lambda>(n, f). sym_lookup field_syms n = Some f) field_syms"
proof -
  have "resolve_value n = Some v" if mem: "(n, v) \<in> set (kind_syms @ enum_syms)" for n v
  proof -
    obtain c cs where c: "n = c # cs" "\<not> is_space c" "c \<noteq> CHR ''-''" "c \<noteq> CHR ''+''" "\<not> is_digit 10 c"
      using syms_initials[OF mem] alpha_initials[of "hd n"] by (cases n) auto
    have "sym_lookup kind_syms n = Some v \<or> sym_lookup kind_syms n = None \<and> sym_lookup enum_syms n = Some v"
      using syms_lookup mem unfolding list_all_iff set_append by blast
    then show ?thesis using c using strtol_alpha[OF c] by (auto simp: resolve_value_def)
  qed
  then show ?thesis
    using sym_lookup_distinct[OF field_syms_distinct] by (auto simp: list_all_iff)
qed

definition entry_holds :: "yaml_doc \<Rightarrow> diag_event \<Rightarrow> int \<times> int \<Rightarrow> bool" where
  "entry_holds doc e kv =
     (case (node_scalar (doc (fst kv)), node_scalar (doc (snd kv))) of
        (Some ks, Some vs) \<Rightarrow>
          if ks = ''kind'' then map_option (\<lambda>v. word_of_int v = ev_kind e) (resolve_value vs) = Some True
          else (case (sym_lookup field_syms ks, resolve_value (snd (op_prefix vs))) of
                  (Some f, Some v) \<Rightarrow> op_holds (fst (op_prefix vs)) (ev_field_val e f) v
                | _ \<Rightarrow> False)
      | _ \<Rightarrow> False)"

definition entry_key :: "yaml_doc \<Rightarrow> int \<times> int \<Rightarrow> string option" where
  "entry_key doc kv = node_scalar (doc (fst kv))"

lemma trigger_pairs_meaning:
  "trigger_pairs doc ps c = Inr c' \<Longrightarrow> distinct (map (entry_key doc) ps) \<Longrightarrow>
   (Some ''kind'' \<in> set (map (entry_key doc) ps) \<longrightarrow> \<not> c_has_kind c) \<Longrightarrow>
   trigger_match c' e \<longleftrightarrow> trigger_match c e \<and> list_all (entry_holds doc e) ps"
proof (induction ps arbitrary: c)
  case (Cons kv ps)
  obtain k v where kv: "kv = (k, v)" by (cases kv)
  obtain ks vs where sc: "node_scalar (doc k) = Some ks" "node_scalar (doc v) = Some vs"
    using Cons.prems(1) kv by (auto split: option.splits)
  show ?case
  proof (cases "ks = ''kind''")
    case True
    then obtain v2 where v2: "resolve_value vs = Some v2"
      "trigger_pairs doc ps (c\<lparr> c_has_kind := True, c_kind := word_of_int v2 \<rparr>) = Inr c'"
      using Cons.prems(1) sc kv by (auto split: option.splits)
    let ?c = "c\<lparr> c_has_kind := True, c_kind := word_of_int v2 \<rparr>"
    have "trigger_match c' e \<longleftrightarrow> trigger_match ?c e \<and> list_all (entry_holds doc e) ps"
      by (rule Cons.IH[OF v2(2)]) (use Cons.prems(2) sc True kv in \<open>auto simp: entry_key_def\<close>)
    moreover have "\<not> c_has_kind c" using Cons.prems(3) sc True kv by (auto simp: entry_key_def)
    then have "trigger_match ?c e \<longleftrightarrow> trigger_match c e \<and> entry_holds doc e (k, v)"
      using sc True v2 by (auto simp: trigger_match_iff match_fields_iff entry_holds_def)
    ultimately show ?thesis using kv by auto
  next
    case False
    then obtain c1 where c1: "add_match c ks vs = Inr c1" "trigger_pairs doc ps c1 = Inr c'"
      using Cons.prems(1) sc kv by (auto split: sum.splits)
    then obtain f w where fw: "sym_lookup field_syms ks = Some f" "resolve_value (snd (op_prefix vs)) = Some w"
      "c1 = c\<lparr> c_match := c_match c @ [\<lparr> m_field = f, m_value = w, m_op = fst (op_prefix vs) \<rparr>] \<rparr>"
      by (auto simp: add_match_Inr)
    have "trigger_match c' e \<longleftrightarrow> trigger_match c1 e \<and> list_all (entry_holds doc e) ps"
      by (rule Cons.IH[OF c1(2)]) (use Cons.prems(2,3) sc fw(3) kv in \<open>auto simp: entry_key_def\<close>)
    moreover have "trigger_match c1 e \<longleftrightarrow> trigger_match c e \<and> entry_holds doc e (k, v)"
      using sc False fw by (auto simp: trigger_match_iff match_fields_iff entry_holds_def match_one_def)
    ultimately show ?thesis using kv by auto
  qed
qed simp

text \<open>A parsed trigger accepts exactly the events its YAML mapping describes: the event's kind is
  the one named under \<open>kind\<close>, and every other entry holds as "field operator value".\<close>

theorem trigger_meaning:
  assumes "parse_trigger doc (Some (YAML_MAPPING_NODE ps)) zero_cond = Inr c"
    and "distinct (map (entry_key doc) ps)"
  shows "trigger_match c e \<longleftrightarrow> list_all (entry_holds doc e) ps"
proof -
  have "trigger_pairs doc ps zero_cond = Inr c"
    using assms(1) by (auto simp: parse_trigger_def split: sum.splits if_splits)
  from trigger_pairs_meaning[OF this assms(2)] show ?thesis
    by (simp add: zero_cond_def trigger_match_def match_fields_def)
qed

theorem trigger_meaning_witness:
  "trigger_match demo_trigger (zero_event\<lparr> ev_kind := 1, ev_status := - 71 \<rparr>)
     = list_all (entry_holds demo_doc (zero_event\<lparr> ev_kind := 1, ev_status := - 71 \<rparr>)) [(9, 10), (11, 12)]"
proof (rule trigger_meaning)
  have "demo_doc 8 = Some (YAML_MAPPING_NODE [(9, 10), (11, 12)])" by (simp add: demo_doc_def)
  then show "parse_trigger demo_doc (Some (YAML_MAPPING_NODE [(9, 10), (11, 12)])) zero_cond = Inr demo_trigger"
    using demo_parse_trigger by simp
  show "distinct (map (entry_key demo_doc) [(9, 10), (11, 12)])"
    by (simp add: entry_key_def demo_doc_eval)
qed

end
