(* ===== verification/Ut_Cli.thy ===== *)
theory Ut_Cli
  imports Ut_Prelude
begin

text \<open>
  The shared user-space helpers (\<open>usbtrace_cli.c\<close>): the \<open>--vid\<close>/\<open>--pid\<close> filter options, the speed names
  and the JSON string escaping every module uses. The escape routine is shown to be a cut of the full
  escaping at a character boundary, and the escaping to be decodable.
\<close>

section \<open>Filter options\<close>

record usbtrace_filter =
  flt_vid :: u32
  flt_pid :: u32

definition USBTRACE_OPT_VID :: int where "USBTRACE_OPT_VID = 0x1001"
definition USBTRACE_OPT_PID :: int where "USBTRACE_OPT_PID = 0x1002"

definition usbtrace_filter_getopt :: "int \<Rightarrow> string \<Rightarrow> usbtrace_filter \<Rightarrow> bool \<times> usbtrace_filter" where
  "usbtrace_filter_getopt optchar arg f =
     (if optchar = USBTRACE_OPT_VID then (True, f\<lparr> flt_vid := ucast (strtoul arg) \<rparr>)
      else if optchar = USBTRACE_OPT_PID then (True, f\<lparr> flt_pid := ucast (strtoul arg) \<rparr>)
      else (False, f))"

text \<open>
  The loop over \<open>getopt_long\<close>: the option codes it returns with their arguments, in order. The result is
  the return value (0, 1 for help, -1 for an unknown option) and the filter.
\<close>

fun usbtrace_filter_parse :: "(int \<times> string) list \<Rightarrow> usbtrace_filter \<Rightarrow> int \<times> usbtrace_filter" where
  "usbtrace_filter_parse [] f = (0, f)"
| "usbtrace_filter_parse ((c, arg) # opts) f =
     (let (consumed, f') = usbtrace_filter_getopt c arg f in
      if consumed then usbtrace_filter_parse opts f'
      else if c = int (of_char CHR ''h'') then (1, f')
      else (- 1, f'))"

definition usbtrace_speed_str :: "u8 \<Rightarrow> string" where
  "usbtrace_speed_str speed =
     (if speed = 1 then ''low'' else if speed = 2 then ''full'' else if speed = 3 then ''high''
      else if speed = 4 then ''wireless'' else if speed = 5 then ''super'' else if speed = 6 then ''super+''
      else ''?'')"

section \<open>JSON escaping\<close>

definition BS :: char where "BS = CHR 0x5C"
definition DQ :: char where "DQ = CHR 0x22"

text \<open>\<open>"\\u%04x"\<close> of a character below 0x20\<close>

definition u_escape :: "char \<Rightarrow> string" where
  "u_escape c = BS # ''u00'' @ [digit_char (of_char c div 16), digit_char (of_char c mod 16)]"

fun escape_loop :: "nat \<Rightarrow> string \<Rightarrow> string \<Rightarrow> string" where
  "escape_loop dstsz [] out = out"
| "escape_loop dstsz (c # src) out =
     (if \<not> length out + 2 < dstsz then out
      else if c = DQ \<or> c = BS then escape_loop dstsz src (out @ [BS, c])
      else if c = CHR 0x0A then escape_loop dstsz src (out @ [BS, CHR ''n''])
      else if c = CHR 0x09 then escape_loop dstsz src (out @ [BS, CHR ''t''])
      else if c = CHR 0x0D then escape_loop dstsz src (out @ [BS, CHR ''r''])
      else if (of_char c :: nat) < 0x20 then
        (if length out + 6 \<ge> dstsz then out else escape_loop dstsz src (out @ u_escape c))
      else escape_loop dstsz src (out @ [c]))"

text \<open>The string in \<open>dst\<close> afterwards; \<open>None\<close>: a buffer of size 0 is left alone.\<close>

definition usbtrace_json_escape :: "string \<Rightarrow> nat \<Rightarrow> string option" where
  "usbtrace_json_escape src dstsz = (if dstsz = 0 then None else Some (escape_loop dstsz (cstr src) []))"

section \<open>The full escaping and its inverse\<close>

definition esc :: "char \<Rightarrow> string" where
  "esc c =
     (if c = DQ \<or> c = BS then [BS, c]
      else if c = CHR 0x0A then [BS, CHR ''n'']
      else if c = CHR 0x09 then [BS, CHR ''t'']
      else if c = CHR 0x0D then [BS, CHR ''r'']
      else if (of_char c :: nat) < 0x20 then u_escape c
      else [c])"

text \<open>Decoding a JSON string body; \<open>None\<close> for a bare quote, a control character or a bad escape.\<close>

fun json_decode :: "string \<Rightarrow> string option" where
  "json_decode [] = Some []"
| "json_decode (c # cs) =
     (if c = DQ \<or> (of_char c :: nat) < 0x20 then None
      else if c \<noteq> BS then map_option (\<lambda>r. c # r) (json_decode cs)
      else (case cs of
              [] \<Rightarrow> None
            | d # ds \<Rightarrow>
                if d = DQ \<or> d = BS then map_option (\<lambda>r. d # r) (json_decode ds)
                else if d = CHR ''n'' then map_option (\<lambda>r. CHR 0x0A # r) (json_decode ds)
                else if d = CHR ''t'' then map_option (\<lambda>r. CHR 0x09 # r) (json_decode ds)
                else if d = CHR ''r'' then map_option (\<lambda>r. CHR 0x0D # r) (json_decode ds)
                else if d = CHR ''u'' then
                  (case ds of
                     a # b # h # l # es \<Rightarrow>
                       (case (digit_val a, digit_val b, digit_val h, digit_val l) of
                          (Some va, Some vb, Some vh, Some vl) \<Rightarrow>
                            if va = 0 \<and> vb = 0 \<and> vh < 16 \<and> vl < 16
                            then map_option (\<lambda>r. char_of (16 * vh + vl) # r) (json_decode es)
                            else None
                        | _ \<Rightarrow> None)
                   | _ \<Rightarrow> None)
                else None))"

lemma less_16_cases:
  "(d::nat) < 16 \<Longrightarrow> d = 0 \<or> d = 1 \<or> d = 2 \<or> d = 3 \<or> d = 4 \<or> d = 5 \<or> d = 6 \<or> d = 7 \<or> d = 8 \<or> d = 9
     \<or> d = 10 \<or> d = 11 \<or> d = 12 \<or> d = 13 \<or> d = 14 \<or> d = 15"
  by arith

lemma digit_val_digit_char_16: "d < 16 \<Longrightarrow> digit_val (digit_char d) = Some d"
  by (drule less_16_cases) (auto simp: digit_val_def digit_char_def Let_def)

lemma digit_val_0: "digit_val CHR ''0'' = Some 0"
  by (simp add: digit_val_def)

lemma decode_esc: "json_decode (esc c @ cs) = map_option (\<lambda>r. c # r) (json_decode cs)"
proof (cases "(of_char c :: nat) < 0x20 \<and> c \<noteq> CHR 0x0A \<and> c \<noteq> CHR 0x09 \<and> c \<noteq> CHR 0x0D")
  case True
  have bs: "\<not> (of_char BS :: nat) < 0x20" "BS \<noteq> DQ" "CHR ''u'' \<noteq> DQ" "CHR ''u'' \<noteq> BS"
    by (simp_all add: BS_def DQ_def)
  have "c \<noteq> DQ" "c \<noteq> BS" using True by (auto simp: BS_def DQ_def)
  then have e: "esc c = u_escape c" using True by (simp add: esc_def)
  have d: "digit_val (digit_char (of_char c div 16)) = Some (of_char c div 16)"
    "digit_val (digit_char (of_char c mod 16)) = Some (of_char c mod 16)"
    "(of_char c div 16 :: nat) < 16" "(of_char c mod 16 :: nat) < 16"
    using True by (auto intro!: digit_val_digit_char_16)
  have "16 * (of_char c div 16) + of_char c mod 16 = (of_char c :: nat)" by simp
  then show ?thesis using bs d
    by (simp add: e u_escape_def digit_val_0 del: mult_div_mod_eq)
next
  case False
  have bs: "\<not> (of_char BS :: nat) < 0x20" "BS \<noteq> DQ" by (simp_all add: BS_def DQ_def)
  have ne: "CHR ''n'' \<noteq> DQ" "CHR ''n'' \<noteq> BS" "CHR ''t'' \<noteq> DQ" "CHR ''t'' \<noteq> BS" "CHR ''r'' \<noteq> DQ" "CHR ''r'' \<noteq> BS"
    "CHR 0x0A \<noteq> DQ" "CHR 0x0A \<noteq> BS" "CHR 0x09 \<noteq> DQ" "CHR 0x09 \<noteq> BS" "CHR 0x0D \<noteq> DQ" "CHR 0x0D \<noteq> BS"
    by (simp_all add: BS_def DQ_def)
  consider "c = DQ \<or> c = BS" | "c = CHR 0x0A" | "c = CHR 0x09" | "c = CHR 0x0D"
    | "c \<noteq> DQ \<and> c \<noteq> BS \<and> \<not> (of_char c :: nat) < 0x20" "c \<noteq> CHR 0x0A" "c \<noteq> CHR 0x09" "c \<noteq> CHR 0x0D"
    using False by blast
  then show ?thesis
  proof cases
    case 1
    then show ?thesis using bs by (simp add: esc_def)
  next
    case 2
    then show ?thesis using bs ne by (simp add: esc_def)
  next
    case 3
    then show ?thesis using bs ne by (simp add: esc_def)
  next
    case 4
    then show ?thesis using bs ne by (simp add: esc_def)
  next
    case 5
    then show ?thesis by (simp add: esc_def)
  qed
qed

lemma decode_escape_all: "json_decode (concat (map esc s)) = Some s"
  by (induction s) (simp_all add: decode_esc)

lemma length_esc: "length (esc c) \<le> 6" "0 < length (esc c)"
  by (simp_all add: esc_def u_escape_def)

lemma escape_loop_step:
  "escape_loop dstsz (c # src) out =
     (if \<not> length out + 2 < dstsz \<or> (length (esc c) = 6 \<and> \<not> length out + 6 < dstsz) then out
      else escape_loop dstsz src (out @ esc c))"
  by (simp add: esc_def u_escape_def not_less not_le)

lemma escape_loop_prefix:
  "\<exists>k \<le> length src. escape_loop dstsz src out = out @ concat (map esc (take k src))
     \<and> (length out < dstsz \<longrightarrow> length (escape_loop dstsz src out) < dstsz)
     \<and> (length out + length (concat (map esc src)) + 1 < dstsz \<longrightarrow> k = length src)"
proof (induction src arbitrary: out)
  case (Cons c src)
  show ?case
  proof (cases "\<not> length out + 2 < dstsz \<or> (length (esc c) = 6 \<and> \<not> length out + 6 < dstsz)")
    case True
    then have "escape_loop dstsz (c # src) out = out" by (simp only: escape_loop_step if_True)
    moreover have "\<not> length out + length (concat (map esc (c # src))) + 1 < dstsz"
      using True length_esc(2)[of c] by (simp only: list.map concat.simps length_append) linarith
    ultimately show ?thesis by (intro exI[of _ 0]) simp
  next
    case False
    then have step: "escape_loop dstsz (c # src) out = escape_loop dstsz src (out @ esc c)"
      by (simp only: escape_loop_step if_False)
    have len: "length (out @ esc c) < dstsz"
      using False by (auto simp: esc_def u_escape_def)
    obtain k where k: "k \<le> length src"
      "escape_loop dstsz src (out @ esc c) = (out @ esc c) @ concat (map esc (take k src))"
      "length (out @ esc c) < dstsz \<longrightarrow> length (escape_loop dstsz src (out @ esc c)) < dstsz"
      "length (out @ esc c) + length (concat (map esc src)) + 1 < dstsz \<longrightarrow> k = length src"
      using Cons[of "out @ esc c"] by blast
    then show ?thesis using len unfolding step by (intro exI[of _ "Suc k"]) auto
  qed
qed simp

section \<open>Properties\<close>

text \<open>Escaping a string into a buffer writes a prefix of the string, character by character fully
  escaped (never half an escape), always leaves room for the terminator, and writes the whole string
  when its escaping is at least two bytes shorter than the buffer; a JSON parser reads the written text
  back as that prefix, so no input can break out of the quotes.\<close>

theorem json_escape_safe:
  assumes "0 < dstsz" "CHR 0x00 \<notin> set src"
  shows "\<exists>out k. usbtrace_json_escape src dstsz = Some out \<and> length out < dstsz
    \<and> json_decode out = Some (take k src)
    \<and> (length (concat (map esc src)) + 1 < dstsz \<longrightarrow> json_decode out = Some src)"
proof -
  obtain k where k: "k \<le> length src" "escape_loop dstsz src [] = concat (map esc (take k src))"
    "length ([] :: string) < dstsz \<longrightarrow> length (escape_loop dstsz src []) < dstsz"
    "length (concat (map esc src)) + 1 < dstsz \<longrightarrow> k = length src"
    using escape_loop_prefix[of src dstsz "[]"] unfolding append_Nil list.size(3) add_0 by blast
  have esc: "usbtrace_json_escape src dstsz = Some (escape_loop dstsz src [])"
    using assms by (simp add: usbtrace_json_escape_def)
  have dec: "json_decode (escape_loop dstsz src []) = Some (take k src)"
    by (simp only: k(2) decode_escape_all)
  then have "length (concat (map esc src)) + 1 < dstsz \<longrightarrow> json_decode (escape_loop dstsz src []) = Some src"
    using k(4) by simp
  moreover have "length (escape_loop dstsz src []) < dstsz" using k(3) assms(1) by simp
  ultimately show ?thesis using esc dec by blast
qed

theorem json_escape_safe_witness:
  "\<exists>out. usbtrace_json_escape [CHR ''a'', DQ, CHR 0x01] 12 = Some out \<and> json_decode out = Some [CHR ''a'', DQ, CHR 0x01]"
proof -
  have nz: "CHR 0x00 \<notin> set [CHR ''a'', DQ, CHR 0x01]" by (simp add: DQ_def)
  have "length (concat (map esc [CHR ''a'', DQ, CHR 0x01])) + 1 < 12"
    by (simp add: esc_def u_escape_def DQ_def BS_def)
  then show ?thesis using json_escape_safe[OF zero_less_numeral nz] by blast
qed

lemma strtoul_show_dec: "n \<le> ULONG_MAX \<Longrightarrow> strtoul (show_dec n) = word_of_nat n"
proof -
  assume n: "n \<le> ULONG_MAX"
  obtain c cs where c: "show_dec n = c # cs" by (cases "show_dec n") (auto simp: show_dec_def)
  obtain d where d: "d < 10" "c = digit_char d" using show_dec_hd[of n] c by auto
  have "dropWhile is_space (show_dec n) = show_dec n" using d c by simp
  moreover have "read_sign (show_dec n) = (False, show_dec n)" using d c by (simp add: read_sign_def)
  ultimately show ?thesis using n by (simp add: strtoul_def read_magnitude_show_dec)
qed

text \<open>A filter option is taken modulo 2^32 and the modules store it modulo 2^16 with 0 meaning any
  device: parsing \<open>--vid\<close> with a printed 16-bit number sets exactly that id, and leaves the product filter
  alone.\<close>

theorem filter_option_round_trip:
  assumes "w < 2 ^ 16"
  shows "usbtrace_filter_parse [(USBTRACE_OPT_VID, show_dec w)] f = (0, f\<lparr> flt_vid := word_of_nat w \<rparr>)
    \<and> unat (ucast (flt_vid (snd (usbtrace_filter_parse [(USBTRACE_OPT_VID, show_dec w)] f))) :: u16) = w"
proof -
  have "strtoul (show_dec w) = word_of_nat w" using assms by (intro strtoul_show_dec) (simp add: ULONG_MAX_def)
  moreover have "ucast (word_of_nat w :: u64) = (word_of_nat w :: u32)"
    by (rule bit_word_eqI) (simp add: bit_simps)
  moreover have "ucast (word_of_nat w :: u32) = (word_of_nat w :: u16)"
    by (rule bit_word_eqI) (simp add: bit_simps)
  moreover have "unat (word_of_nat w :: u16) = w"
    using assms by (simp add: unsigned_of_nat take_bit_nat_eq_self)
  ultimately show ?thesis by (simp add: usbtrace_filter_getopt_def)
qed

theorem filter_option_round_trip_witness:
  "usbtrace_filter_parse [(USBTRACE_OPT_VID, ''1027'')] \<lparr> flt_vid = 0, flt_pid = 7 \<rparr> = (0, \<lparr> flt_vid = 1027, flt_pid = 7 \<rparr>)"
proof -
  have "show_dec 1027 = ''1027''" by (simp add: show_dec_def show_base_10 digit_char_def)
  then show ?thesis using filter_option_round_trip[of 1027 "\<lparr> flt_vid = 0, flt_pid = 7 \<rparr>"] by simp
qed

end
