(* ===== verification/Diag_Session.thy ===== *)
theory Diag_Session
  imports Diag_Normalize Diag_Rules Ut_Cli
begin

text \<open>
  The diag module from its options to its exit code (\<open>diag.c\<close>, \<open>diag_parse_args\<close>, \<open>diag_run\<close>): loading the rules, creating
  the engine, bringing up the nine event sources of which any may be missing, and the session. What libbpf answers
  for a source and the allocations are arguments.
\<close>

section \<open>Options\<close>

record diag_opts =
  do_filt :: usbtrace_filter
  do_rules_path :: "string option"

fun diag_parse_args :: "(int \<times> string) list \<Rightarrow> diag_opts \<Rightarrow> int \<times> diag_opts" where
  "diag_parse_args [] o' = (0, o')"
| "diag_parse_args ((c, optarg) # opts) o' =
     (let (used, filt') = usbtrace_filter_getopt c optarg (do_filt o') in
      if used then diag_parse_args opts (o'\<lparr> do_filt := filt' \<rparr>)
      else if c = of_char CHR ''r'' then diag_parse_args opts (o'\<lparr> do_rules_path := Some optarg \<rparr>)
      else if c = of_char CHR ''h'' then (1, o')
      else (- 1, o'))"

section \<open>Sources\<close>

text \<open>The programs diag drives, in the order of the code; the last four are the table of class sources.\<close>

definition diag_core_srcs :: "string list" where
  "diag_core_srcs = [''urb'', ''enum'', ''lifecycle'', ''power'', ''hub'']"

definition diag_class_srcs :: "string list" where
  "diag_class_srcs = [''uvc'', ''uac'', ''hid'', ''storage'']"

text \<open>What happens when a source is brought up: its skeleton opens, so many hooks are usable, the results of load and
  attach, and of adding its map to the consumer.\<close>

record diag_src_env =
  sr_open :: bool
  sr_hooks :: int
  sr_load :: int
  sr_attach :: int
  sr_add :: int

definition src_up :: "diag_src_env \<Rightarrow> bool" where
  "src_up s \<longleftrightarrow> sr_open s \<and> \<not> (sr_hooks s = 0 \<or> sr_load s \<noteq> 0 \<or> sr_attach s \<noteq> 0)"

text \<open>Every source in turn: the warnings, and the sources that are up.\<close>

fun bring_up :: "(string \<Rightarrow> diag_src_env) \<Rightarrow> string list \<Rightarrow> string list \<times> string list" where
  "bring_up env [] = ([], [])"
| "bring_up env (n # ns) =
     (let (warned, up) = bring_up env ns in
      if \<not> sr_open (env n) then (warned, up)
      else if \<not> src_up (env n) then (n # warned, up)
      else (warned, n # up))"

section \<open>The run\<close>

datatype diag_msg = RulesFailed string | OutOfMemory | NoEvmux | NoProbes | Skipped string

record diag_result =
  dg_findings :: "finding list"
  dg_summary :: "summary option"
  dg_exit :: int
  dg_msgs :: "diag_msg list"

definition diag_load :: "yaml_env \<Rightarrow> (string \<Rightarrow> rules_file) \<Rightarrow> string \<Rightarrow> diag_opts \<Rightarrow> string + diag_rule list" where
  "diag_load yenv fs builtin o' =
     (case do_rules_path o' of
        Some path \<Rightarrow> diag_rules_load_file yenv fs path 256
      | None \<Rightarrow> diag_rules_load_default yenv builtin 256)"

definition diag_run ::
  "string + diag_rule list \<Rightarrow> bool \<Rightarrow> (string \<Rightarrow> diag_src_env) \<Rightarrow> bool \<Rightarrow> u64 \<Rightarrow> bool \<Rightarrow> poll_result list \<Rightarrow> diag_result" where
  "diag_run loaded engine_mem env mux_mem now0 json ps =
     (let failed = (\<lambda>msgs. \<lparr> dg_findings = [], dg_summary = None, dg_exit = 1, dg_msgs = msgs \<rparr>) in
      case loaded of
        Inl errbuf \<Rightarrow> failed [RulesFailed errbuf]
      | Inr rules \<Rightarrow>
          if \<not> engine_mem then failed [OutOfMemory]
          else
            let (warned, up) = bring_up env (diag_core_srcs @ diag_class_srcs);
                skips = map Skipped warned
            in if \<not> mux_mem then failed (skips @ [NoEvmux])
               else if length (filter (\<lambda>n. sr_add (env n) = 0) up) = 0 then failed (skips @ [NoProbes])
               else
                 let (out, sm, rc) = diag_session rules now0 json ps
                 in \<lparr> dg_findings = out, dg_summary = Some sm, dg_exit = rc, dg_msgs = skips \<rparr>)"

section \<open>Properties\<close>

lemma bring_up_spec:
  "bring_up env ns = (filter (\<lambda>n. sr_open (env n) \<and> \<not> src_up (env n)) ns, filter (\<lambda>n. src_up (env n)) ns)"
  by (induction ns) (auto simp: src_up_def)

text \<open>The run takes place: rules and memory are there and one of the nine sources is up and added.\<close>

definition diag_active :: "bool \<Rightarrow> (string \<Rightarrow> diag_src_env) \<Rightarrow> bool \<Rightarrow> bool" where
  "diag_active engine_mem env mux_mem \<longleftrightarrow>
     engine_mem \<and> mux_mem \<and> list_ex (\<lambda>n. src_up (env n) \<and> sr_add (env n) = 0) (diag_core_srcs @ diag_class_srcs)"

text \<open>C18: A diag run is a run of the engine on the loaded rules: with at least one source up, however many are missing,
  the findings printed and the final summary are those of the sequence of ingests (one per delivered record that
  normalises, in order) and ticks, ticks at least half a second apart, and the exit code is 1 exactly when a poll
  failed for another reason than an interruption. Without rules, memory or any source nothing is printed on standard
  output and the exit code is 1.\<close>

theorem diag_run_runs_engine:
  "(case loaded of
      Inr rules \<Rightarrow>
        if diag_active engine_mem env mux_mem
        then dg_findings (diag_run loaded engine_mem env mux_mem now0 json ps) = engine_outs (poll_ops ps now0) (diag_engine_create rules)
          \<and> dg_summary (diag_run loaded engine_mem env mux_mem now0 json ps)
              = Some (diag_engine_report json (engine_run (poll_ops ps now0) (diag_engine_create rules)))
          \<and> dg_exit (diag_run loaded engine_mem env mux_mem now0 json ps)
              = (if list_ex (\<lambda>p. pl_err p < 0 \<and> pl_err p \<noteq> - EINTR \<and> pl_err p \<noteq> - EAGAIN) ps then 1 else 0)
        else dg_findings (diag_run loaded engine_mem env mux_mem now0 json ps) = []
          \<and> dg_summary (diag_run loaded engine_mem env mux_mem now0 json ps) = None
          \<and> dg_exit (diag_run loaded engine_mem env mux_mem now0 json ps) = 1
    | Inl msg \<Rightarrow> diag_run loaded engine_mem env mux_mem now0 json ps
        = \<lparr> dg_findings = [], dg_summary = None, dg_exit = 1, dg_msgs = [RulesFailed msg] \<rparr>)
   \<and> successively (\<lambda>a b. TICK_INTERVAL_NS \<le> b - a) (now0 # tick_times (poll_ops ps now0))"
proof (cases loaded)
  case (Inl msg)
  then show ?thesis using diag_session_runs_engine[of "[]" now0 json ps] by (simp add: diag_run_def)
next
  case (Inr rules)
  have n: "length (filter (\<lambda>n. sr_add (env n) = 0) (filter (\<lambda>n. src_up (env n)) ns)) = 0
      \<longleftrightarrow> \<not> list_ex (\<lambda>n. src_up (env n) \<and> sr_add (env n) = 0) ns" for ns
    by (auto simp: filter_empty_conv list_ex_iff)
  show ?thesis
    using diag_session_runs_engine[of rules now0 json ps] unfolding diag_run_def diag_active_def bring_up_spec n prod.case Let_def
    by (simp add: Inr split_beta)
qed

end
