(* ===== verification/Diag_Liveness.thy ===== *)
theory Diag_Liveness
  imports Diag_Props
begin

text \<open>
  From event history to deadline findings: which deadline rules a tick reports is a function of the events of the
  device's current enumeration episode alone. A device stuck in enumeration is reported by the first tick after the
  timeout, whatever other devices do.
\<close>

text \<open>When a state was first entered in a list of events: the first non-zero time of an event with that state.\<close>

definition entered_ts :: "nat \<Rightarrow> diag_event list \<Rightarrow> u64" where
  "entered_ts s es =
     (case filter (\<lambda>t. t \<noteq> 0) (map ev_ts_ns (filter (\<lambda>e. is_state e \<and> unat (ev_new_state e) = s) es)) of
        [] \<Rightarrow> 0 | t # _ \<Rightarrow> t)"

lemma entered_append:
  "entered_ts s (es @ fs) = (if entered_ts s es \<noteq> 0 then entered_ts s es else entered_ts s fs)"
  by (auto simp: entered_ts_def filter_empty_conv hd_append dest!: filter_eq_ConsD split: list.splits)

lemma entered_single: "entered_ts s [x] = (if is_state x \<and> unat (ev_new_state x) = s then ev_ts_ns x else 0)"
  by (simp add: entered_ts_def)

lemma win_track_ts:
  assumes "s < 9"
  shows "w_state_ts (win_track evt w) s =
    (let t = (if starts_episode evt then 0 else w_state_ts w s) in
     if t = 0 \<and> is_state evt \<and> unat (ev_new_state evt) = s then ev_ts_ns evt else t)"
proof -
  have lt: "ev_new_state evt < 9 \<longleftrightarrow> unat (ev_new_state evt) < 9" by (simp add: word_less_nat_alt)
  have z: "ev_new_state evt = 0 \<longleftrightarrow> unat (ev_new_state evt) = 0" by (simp add: unat_eq_0)
  show ?thesis
    using assms unfolding win_track_def is_state_def starts_episode_def Let_def lt z
    by (auto simp: USBTRACE_EVT_ENUM_def USBTRACE_EVT_LIFECYCLE_def)
qed

lemma win_note_ts [simp]: "w_state_ts (win_note evt w) = w_state_ts w"
  by (simp add: win_note_def win_push_def Let_def)

lemma fold_episode_ts:
  "s < 9 \<Longrightarrow> w_state_ts w s = entered_ts s acc \<Longrightarrow>
   w_state_ts (fold ingest_win es w) s = entered_ts s (fold episode_step es acc)"
proof (induction es arbitrary: w acc)
  case (Cons x xs)
  have "w_state_ts (ingest_win x w) s = entered_ts s (episode_step x acc)"
    using Cons.prems by (simp add: ingest_win_def win_track_ts episode_step_def entered_append entered_single Let_def)
  then show ?case using Cons by simp
qed simp

lemma fold_no_latch: "w_dl_fired w = (\<lambda>_. 0) \<Longrightarrow> w_dl_fired (fold ingest_win es w) = (\<lambda>_. 0)"
  by (induction es arbitrary: w) (simp_all add: ingest_win_latch)

lemma run_window:
  assumes "card (keys_of xs) \<le> WIN_MAX_DEVS" "events_of k xs \<noteq> []"
  obtains w where "eng_win (engine_run (ingests xs) (diag_engine_create rules)) k = Some w"
    "\<And>s. s < 9 \<Longrightarrow> bit (w_seen_states w) s \<longleftrightarrow> state_seen (episode (events_of k xs)) s"
    "\<And>s. s < 9 \<Longrightarrow> w_state_ts w s = entered_ts s (episode (events_of k xs))" "w_dl_fired w = (\<lambda>_. 0)"
proof -
  obtain w where w: "eng_win (engine_run (ingests xs) (diag_engine_create rules)) k = Some w"
    "win_core w = fold ingest_win (events_of k xs) (fresh_win k)"
    using ingest_run_core[OF assms(1), of rules k] assms(2) by auto
  have core: "w_seen_states w = w_seen_states (win_core w)" "w_state_ts w = w_state_ts (win_core w)"
    "w_dl_fired w = w_dl_fired (win_core w)" by (simp_all add: win_core_def)
  show ?thesis
  proof (rule that[OF w(1)])
    show "bit (w_seen_states w) s \<longleftrightarrow> state_seen (episode (events_of k xs)) s" if "s < 9" for s
      unfolding core w(2) by (rule episode_states[OF that])
    show "w_state_ts w s = entered_ts s (episode (events_of k xs))" if "s < 9" for s
      unfolding core w(2) episode_def
      by (rule fold_episode_ts[OF that]) (simp add: fresh_win_def zero_devwin_def entered_ts_def)
    show "w_dl_fired w = (\<lambda>_. 0)"
      unfolding core w(2) by (rule fold_no_latch) (simp add: fresh_win_def zero_devwin_def)
  qed
qed

lemma stuck_reported:
  assumes "card (keys_of xs) \<le> WIN_MAX_DEVS" "ri < length rules" "r_type (rules ! ri) = RULE_DEADLINE"
    and "r_dl_reached_state (rules ! ri) = int s" "s < 9" "r_dl_without_state (rules ! ri) = int u" "u < 9"
  shows "(\<exists>f \<in> set (snd (diag_engine_tick now (engine_run (ingests xs) (diag_engine_create rules)))).
      fd_rule f = ri \<and> fd_key f = k) \<longleftrightarrow>
    state_seen (episode (events_of k xs)) s \<and> \<not> state_seen (episode (events_of k xs)) u
    \<and> ms_to_ns (r_dl_timeout_ms (rules ! ri)) \<le> now - entered_ts s (episode (events_of k xs))"
proof -
  let ?e = "engine_run (ingests xs) (diag_engine_create rules)"
  have ok: "eng_ok ?e" "ri < length (g_rules ?e)" using assms(2) by (simp_all add: eng_ok_run eng_ok_create)
  show ?thesis
  proof (cases "events_of k xs = []")
    case True
    then have "eng_win ?e k = None" using ingest_run_core[OF assms(1), of rules k] by simp
    then have "\<not> (\<exists>f \<in> set (snd (diag_engine_tick now ?e)). fd_rule f = ri \<and> fd_key f = k)"
      using eng_win_key unfolding Bex_def set_tick_outs[OF ok(1)] by fastforce
    then show ?thesis using True by (simp add: episode_def state_seen_def)
  next
    case False
    obtain w where w: "eng_win ?e k = Some w"
      "\<And>s. s < 9 \<Longrightarrow> bit (w_seen_states w) s \<longleftrightarrow> state_seen (episode (events_of k xs)) s"
      "\<And>s. s < 9 \<Longrightarrow> w_state_ts w s = entered_ts s (episode (events_of k xs))" "w_dl_fired w = (\<lambda>_. 0)"
      using run_window[OF assms(1) False, of rules] by blast
    have "(\<exists>f \<in> set (snd (diag_engine_tick now ?e)). fd_rule f = ri \<and> fd_key f = k) \<longleftrightarrow> dl_fires now (rules ! ri) ri w"
      using w(1) ok(2) eng_win_key unfolding Bex_def set_tick_outs[OF ok(1)] by fastforce
    also have "\<dots> \<longleftrightarrow> state_seen (episode (events_of k xs)) s \<and> \<not> state_seen (episode (events_of k xs)) u
        \<and> ms_to_ns (r_dl_timeout_ms (rules ! ri)) \<le> now - entered_ts s (episode (events_of k xs))"
      using assms(3-7) w(2)[OF assms(5)] w(2)[OF assms(7)] w(3)[OF assms(5)] w(4) by (simp add: dl_fires_def)
    finally show ?thesis .
  qed
qed

text \<open>C10: A device stuck in enumeration is reported. After any history of events of at most 128 devices, the first tick
  reports a deadline rule for a device exactly when, in the device's current enumeration episode, the rule's state was
  entered and at least the timeout ago, and the awaited state was not. Other devices play no part.\<close>

theorem stuck_device_reported:
  assumes "card (keys_of xs) \<le> WIN_MAX_DEVS" "ri < length rules" "r_type (rules ! ri) = RULE_DEADLINE"
    and "r_dl_reached_state (rules ! ri) = int s" "s < 9" "r_dl_without_state (rules ! ri) = int u" "u < 9"
  shows "(\<exists>f \<in> set (snd (diag_engine_tick now (engine_run (ingests xs) (diag_engine_create rules)))).
      fd_rule f = ri \<and> fd_key f = k) \<longleftrightarrow>
    state_seen (episode (events_of k xs)) s \<and> \<not> state_seen (episode (events_of k xs)) u
    \<and> ms_to_ns (r_dl_timeout_ms (rules ! ri)) \<le> now - entered_ts s (episode (events_of k xs))"
  by (rule stuck_reported[OF assms])

theorem stuck_device_reported_witness:
  "\<exists>f \<in> set (snd (diag_engine_tick 2000000007 (engine_run (ingests [(\<lambda>_. 1, demo_state 7 5)])
      (diag_engine_create [demo_event_rule, demo_deadline_rule])))). fd_rule f = 1 \<and> fd_key f = demo_key"
proof -
  let ?xs = "[(\<lambda>_. 1, demo_state 7 5)] :: ((nat \<Rightarrow> u64) \<times> diag_event) list"
  let ?rs = "[demo_event_rule, demo_deadline_rule]"
  have ep: "episode (events_of demo_key ?xs) = [demo_state 7 5]"
    by (simp add: episode_def events_of_def episode_step_def)
  have st: "state_seen [demo_state 7 5] 5" "\<not> state_seen [demo_state 7 5] 7" "entered_ts 5 [demo_state 7 5] = 7"
    by (simp_all add: state_seen_def entered_single is_state_def demo_defs)
  have card: "card (keys_of ?xs) \<le> WIN_MAX_DEVS" by (simp add: keys_of_def WIN_MAX_DEVS_def)
  have r: "r_type (?rs ! 1) = RULE_DEADLINE" "r_dl_reached_state (?rs ! 1) = int 5" "r_dl_without_state (?rs ! 1) = int 7"
    "ms_to_ns (r_dl_timeout_ms demo_deadline_rule) = 2000000000"
    by (simp_all add: demo_deadline_rule_def zero_rule_def ms_to_ns_def)
  show ?thesis
    by (subst stuck_device_reported[OF card _ r(1,2) _ r(3)]) (simp_all add: ep st r(4) del: One_nat_def)
qed

end
