(* ===== verification/Module_Core.thy ===== *)
theory Module_Core
  imports Ut_Prelude
begin

text \<open>
  The program around the modules: the registry (\<open>module.c\<close>), the command line (\<open>main.c\<close>) and the run
  harness every tracing module uses (\<open>run.c\<close>). What libbpf, the kernel and a module's own callbacks
  answer are parameters; what the program prints is a list of actions.
\<close>

section \<open>Registry\<close>

text \<open>
  A registered module. Its callbacks work on the static variables \<open>'g\<close> of the module files: the option parser sets
  them and a run reads them together with the switches of \<open>main\<close>; a run gives its exit code and what it writes, \<open>'o\<close>.
  The linked list through \<open>next\<close>, to which every module's constructor appends once, is a list.
\<close>

record main_flags =
  mf_verbose :: bool
  mf_json :: bool

record ('g, 'o) usbtrace_module =
  md_name :: string
  md_summary :: "string option"
  md_parse_args :: "(string list \<Rightarrow> 'g \<Rightarrow> int \<times> 'g) option"
  md_usage :: "string option"
  md_run :: "main_flags \<Rightarrow> 'g \<Rightarrow> int \<times> 'o"

definition usbtrace_register_module :: "('g, 'o) usbtrace_module \<Rightarrow> ('g, 'o) usbtrace_module list \<Rightarrow> ('g, 'o) usbtrace_module list" where
  "usbtrace_register_module md mods = mods @ [md]"

fun usbtrace_find_module :: "('g, 'o) usbtrace_module list \<Rightarrow> string \<Rightarrow> ('g, 'o) usbtrace_module option" where
  "usbtrace_find_module [] name = None"
| "usbtrace_find_module (m # mods) name =
     (if md_name m = name then Some m else usbtrace_find_module mods name)"

section \<open>Command line\<close>

datatype main_act =
    PrintVersion
  | Usage
  | PrintModules
  | UnknownOption string
  | UnknownModule string
  | ModuleUsage string
  | ModuleSummary string string
  | RunModule string main_flags "string list"

text \<open>The loop over the global options: an exit with its output, or the flags and the remaining
  arguments.\<close>

fun main_globals :: "string list \<Rightarrow> main_flags \<Rightarrow> (main_act list \<times> int) + (main_flags \<times> string list)" where
  "main_globals [] fl = Inr (fl, [])"
| "main_globals (a # args) fl =
     (if a = [] \<or> hd a \<noteq> CHR ''-'' then Inr (fl, a # args)
      else if a = ''-v'' \<or> a = ''--verbose'' then main_globals args (fl\<lparr> mf_verbose := True \<rparr>)
      else if a = ''-j'' \<or> a = ''--json'' then main_globals args (fl\<lparr> mf_json := True \<rparr>)
      else if a = ''-V'' \<or> a = ''--version'' then Inl ([PrintVersion], 0)
      else if a = ''-h'' \<or> a = ''--help'' then Inl ([Usage], 0)
      else Inl ([UnknownOption a, Usage], 2))"

definition main_help :: "('g, 'o) usbtrace_module list \<Rightarrow> string list \<Rightarrow> main_act list \<times> int" where
  "main_help mods rest =
     (case rest of
        [] \<Rightarrow> ([Usage], 0)
      | n # _ \<Rightarrow>
          (case usbtrace_find_module mods n of
             None \<Rightarrow> ([UnknownModule n], 2)
           | Some m \<Rightarrow>
               (case md_usage m of
                  Some u \<Rightarrow> ([ModuleUsage u], 0)
                | None \<Rightarrow> ([ModuleSummary n (case md_summary m of Some s \<Rightarrow> s | None \<Rightarrow> ''(no help)'')], 0))))"

definition main_module :: "('g, 'o) usbtrace_module list \<Rightarrow> 'g \<Rightarrow> main_flags \<Rightarrow> string \<Rightarrow> string list \<Rightarrow> main_act list \<times> int \<times> 'o option" where
  "main_module mods g fl cmd rest =
     (case usbtrace_find_module mods cmd of
        None \<Rightarrow> ([UnknownModule cmd, PrintModules], 2, None)
      | Some m \<Rightarrow>
          let (rc, g') = (case md_parse_args m of None \<Rightarrow> (0, g) | Some p \<Rightarrow> p (cmd # rest) g) in
          if rc > 0 then ((case md_usage m of Some u \<Rightarrow> [ModuleUsage u] | None \<Rightarrow> []), 0, None)
          else if rc < 0 then ([], 2, None)
          else let (code, out) = md_run m fl g' in ([RunModule cmd fl (cmd # rest)], code, Some out))"

text \<open>\<open>main\<close>, without \<open>argv[0]\<close>: the actions, the exit code and what the module wrote, if one ran.\<close>

definition ut_main :: "('g, 'o) usbtrace_module list \<Rightarrow> 'g \<Rightarrow> string list \<Rightarrow> main_act list \<times> int \<times> 'o option" where
  "ut_main mods g args =
     (case main_globals args \<lparr> mf_verbose = False, mf_json = False \<rparr> of
        Inl (acts, code) \<Rightarrow> (acts, code, None)
      | Inr (fl, []) \<Rightarrow> ([Usage], 2, None)
      | Inr (fl, cmd # rest) \<Rightarrow>
          if cmd = ''list'' then ([PrintModules], 0, None)
          else if cmd = ''help'' then (let (acts, code) = main_help mods rest in (acts, code, None))
          else main_module mods g fl cmd rest)"

section \<open>Run harness\<close>

datatype run_act =
    OnStart
  | OnStop
  | NoHooks
  | LoadError int
  | AttachError int
  | NoConsumer
  | MapError int
  | PollInterrupted int
  | PollError int

text \<open>What the environment answers during one \<open>usbtrace_run\<close>: how many hooks are usable, the results of
  load and attach, of the event consumer, and each poll with the records it delivers.\<close>

record 'r run_env =
  re_hooks :: int
  re_load :: int
  re_attach :: int
  re_mux :: bool
  re_add :: int
  re_polls :: "('r list \<times> int) list"

fun run_loop :: "('r \<Rightarrow> 'c \<Rightarrow> 'c) \<Rightarrow> ('r list \<times> int) list \<Rightarrow> int \<Rightarrow> 'c \<Rightarrow> int \<times> 'c \<times> run_act list" where
  "run_loop on_event [] err ctx = (err, ctx, [])"
| "run_loop on_event ((recs, err') # polls) err ctx =
     (let ctx' = fold on_event recs ctx in
      if err' < 0 then
        (if err' = - EINTR \<or> err' = - EAGAIN then
           let (e, c, acts) = run_loop on_event polls 0 ctx' in (e, c, PollInterrupted err' # acts)
         else (err', ctx', [PollError err']))
      else run_loop on_event polls err' ctx')"

definition usbtrace_run :: "('r \<Rightarrow> 'c \<Rightarrow> 'c) \<Rightarrow> 'r run_env \<Rightarrow> 'c \<Rightarrow> int \<times> 'c \<times> run_act list" where
  "usbtrace_run on_event env ctx =
     (if re_hooks env = 0 then (1, ctx, [NoHooks])
      else if re_load env \<noteq> 0 then (1, ctx, [LoadError (re_load env)])
      else if re_attach env \<noteq> 0 then (1, ctx, [AttachError (re_attach env)])
      else if \<not> re_mux env then (1, ctx, [NoConsumer])
      else if re_add env \<noteq> 0 then (1, ctx, [MapError (re_add env)])
      else
        let (err, ctx', acts) = run_loop on_event (re_polls env) (re_add env) ctx;
            err1 = (if err > 0 then 0 else err)
        in (if err1 \<noteq> 0 then 1 else 0, ctx', [OnStart] @ acts @ [OnStop]))"

text \<open>The log lines (\<open>log.h\<close>) of the harness, on standard error.\<close>

definition NL :: char where "NL = CHR 0x0A"

definition ut_err :: "string \<Rightarrow> string" where "ut_err s = ''[usbtrace] ERROR: '' @ s @ [NL]"
definition ut_warn :: "string \<Rightarrow> string" where "ut_warn s = ''[usbtrace] WARN: '' @ s @ [NL]"
definition ut_info :: "string \<Rightarrow> string" where "ut_info s = ''[usbtrace] '' @ s @ [NL]"

definition ut_dbg :: "bool \<Rightarrow> string \<Rightarrow> string" where
  "ut_dbg verbose s = (if verbose then ''[usbtrace] DEBUG: '' @ s @ [NL] else [])"

fun run_log :: "bool \<Rightarrow> run_act \<Rightarrow> string" where
  "run_log verbose OnStart = []"
| "run_log verbose OnStop = []"
| "run_log verbose NoHooks = ut_err ''no supported hooks on this kernel for this module''"
| "run_log verbose (LoadError e) = ut_err (''failed to load BPF skeleton: '' @ show_long e @ '' (need root + BTF?)'')"
| "run_log verbose (AttachError e) = ut_err (''failed to attach BPF programs: '' @ show_long e)"
| "run_log verbose NoConsumer = ut_err ''failed to allocate event consumer''"
| "run_log verbose (MapError e) = ut_err (''failed to open the events map: '' @ show_long e)"
| "run_log verbose (PollInterrupted e) = ut_dbg verbose (''event poll interrupted: '' @ show_long e)"
| "run_log verbose (PollError e) = ut_err (''event poll error: '' @ show_long e)"

section \<open>Properties\<close>

lemma ex_prefix_Cons:
  "(\<exists>gs. a # args = gs @ rest \<and> Q gs) \<longleftrightarrow> (rest = a # args \<and> Q []) \<or> (\<exists>gs. args = gs @ rest \<and> Q (a # gs))"
proof
  assume "\<exists>gs. a # args = gs @ rest \<and> Q gs"
  then obtain gs where "a # args = gs @ rest" "Q gs" by blast
  then show "(rest = a # args \<and> Q []) \<or> (\<exists>gs. args = gs @ rest \<and> Q (a # gs))"
    by (cases gs) auto
qed (auto intro: exI[of _ "a # _"] exI[of _ "[]"])

lemma find_module_Some:
  "usbtrace_find_module mods n = Some m \<longleftrightarrow>
     (\<exists>ys xs. mods = xs @ m # ys \<and> md_name m = n \<and> n \<notin> md_name ` set xs)"
proof (induction mods)
  case (Cons a mods)
  show ?case
    unfolding ex_prefix_Cons[where Q = "\<lambda>xs. md_name m = n \<and> n \<notin> md_name ` set xs"]
    using Cons by auto
qed simp

lemma find_module_None: "usbtrace_find_module mods n = None \<longleftrightarrow> n \<notin> md_name ` set mods"
  by (induction mods) auto

lemma register_all: "fold usbtrace_register_module ms [] = ms"
proof -
  have "fold usbtrace_register_module ms acc = acc @ ms" for acc
    by (induction ms arbitrary: acc) (simp_all add: usbtrace_register_module_def)
  then show ?thesis by simp
qed

text \<open>After the constructors have registered the modules, each module is found under its name, an
  unregistered name finds nothing, and of two modules with one name the one registered first wins.\<close>

theorem registry_finds_first:
  "(usbtrace_find_module (fold usbtrace_register_module ms []) n = None \<longleftrightarrow> n \<notin> md_name ` set ms)
   \<and> (usbtrace_find_module (fold usbtrace_register_module ms []) n = Some m \<longleftrightarrow>
        (\<exists>ys xs. ms = xs @ m # ys \<and> md_name m = n \<and> n \<notin> md_name ` set xs))"
  by (simp add: register_all find_module_None find_module_Some)

definition global_flag :: "string \<Rightarrow> bool" where
  "global_flag a \<longleftrightarrow> a \<in> {''-v'', ''--verbose'', ''-j'', ''--json''}"

definition flags_after :: "main_flags \<Rightarrow> string list \<Rightarrow> main_flags" where
  "flags_after fl gs =
     \<lparr> mf_verbose = (mf_verbose fl \<or> list_ex (\<lambda>g. g = ''-v'' \<or> g = ''--verbose'') gs),
       mf_json = (mf_json fl \<or> list_ex (\<lambda>g. g = ''-j'' \<or> g = ''--json'') gs) \<rparr>"

lemma flags_after_simps:
  "flags_after fl [] = fl"
  "g = ''-v'' \<or> g = ''--verbose'' \<Longrightarrow> flags_after fl (g # gs) = flags_after (fl\<lparr> mf_verbose := True \<rparr>) gs"
  "g = ''-j'' \<or> g = ''--json'' \<Longrightarrow> flags_after fl (g # gs) = flags_after (fl\<lparr> mf_json := True \<rparr>) gs"
  by (auto simp: flags_after_def)

lemma main_globals_step:
  "a = [] \<or> hd a \<noteq> CHR ''-'' \<Longrightarrow> main_globals (a # args) fl = Inr (fl, a # args)"
  "a = ''-v'' \<or> a = ''--verbose'' \<Longrightarrow> main_globals (a # args) fl = main_globals args (fl\<lparr> mf_verbose := True \<rparr>)"
  "a = ''-j'' \<or> a = ''--json'' \<Longrightarrow> main_globals (a # args) fl = main_globals args (fl\<lparr> mf_json := True \<rparr>)"
  "\<not> (a = [] \<or> hd a \<noteq> CHR ''-'') \<Longrightarrow> \<not> global_flag a \<Longrightarrow> \<exists>acts code. main_globals (a # args) fl = Inl (acts, code)"
  by (auto simp: global_flag_def)

lemma global_flag_dash: "global_flag a \<Longrightarrow> a \<noteq> [] \<and> hd a = CHR ''-''"
  by (auto simp: global_flag_def)

lemma main_globals_Inr:
  "main_globals args fl = Inr (fl', rest) \<longleftrightarrow>
     (\<exists>gs. args = gs @ rest \<and> list_all global_flag gs \<and> (rest = [] \<or> hd rest = [] \<or> hd (hd rest) \<noteq> CHR ''-'')
        \<and> fl' = flags_after fl gs)"
proof (induction args arbitrary: fl)
  case Nil
  show ?case by (auto simp: flags_after_simps)
next
  case (Cons a args)
  note pre = ex_prefix_Cons[where a = a and args = args and rest = rest
      and Q = "\<lambda>gs. list_all global_flag gs \<and> (rest = [] \<or> hd rest = [] \<or> hd (hd rest) \<noteq> CHR ''-'') \<and> fl' = flags_after fl gs"]
  consider (cmd) "a = [] \<or> hd a \<noteq> CHR ''-''" | (v) "a = ''-v'' \<or> a = ''--verbose''" | (j) "a = ''-j'' \<or> a = ''--json''"
    | (other) "\<not> (a = [] \<or> hd a \<noteq> CHR ''-'')" "\<not> global_flag a"
    by (auto simp: global_flag_def)
  then show ?case
  proof cases
    case cmd
    then have "\<not> global_flag a" using global_flag_dash by blast
    then show ?thesis unfolding pre main_globals_step(1)[OF cmd]
      using cmd by (auto simp: flags_after_simps(1))
  next
    case v
    then have "global_flag a" by (auto simp: global_flag_def)
    then show ?thesis unfolding pre main_globals_step(2)[OF v] Cons
      using flags_after_simps(2)[OF v] global_flag_dash[of a] by auto
  next
    case j
    then have "global_flag a" by (auto simp: global_flag_def)
    then show ?thesis unfolding pre main_globals_step(3)[OF j] Cons
      using flags_after_simps(3)[OF j] global_flag_dash[of a] by auto
  next
    case other
    then show ?thesis unfolding pre using main_globals_step(4)[OF other, of args fl] by fastforce
  qed
qed

lemma ut_main_run:
  "ut_main mods g args = ([RunModule cmd fl margs], code, Some out) \<longleftrightarrow>
     (\<exists>rest. main_globals args \<lparr> mf_verbose = False, mf_json = False \<rparr> = Inr (fl, cmd # rest)
        \<and> cmd \<noteq> ''list'' \<and> cmd \<noteq> ''help'' \<and> main_module mods g fl cmd rest = ([RunModule cmd fl margs], code, Some out))"
proof (cases "main_globals args \<lparr> mf_verbose = False, mf_json = False \<rparr>")
  case (Inl r)
  obtain acts c where "r = (acts, c)" by (cases r)
  then show ?thesis using Inl by (simp add: ut_main_def)
next
  case (Inr r)
  obtain fl' rest where r: "r = (fl', rest)" by (cases r)
  have mm: "main_module mods g f c rs = ([RunModule cmd fl margs], code, Some out) \<Longrightarrow> f = fl \<and> c = cmd" for f c rs
    by (auto simp: main_module_def Let_def split: option.splits if_splits prod.splits)
  show ?thesis
  proof (cases rest)
    case (Cons c rs)
    then show ?thesis using Inr r mm[of fl' c rs] by (auto simp: ut_main_def split_beta)
  qed (use Inr r in \<open>simp add: ut_main_def\<close>)
qed

text \<open>What the option parser of a module answers; a module without one takes no options.\<close>

definition parse_module :: "('g, 'o) usbtrace_module \<Rightarrow> string list \<Rightarrow> 'g \<Rightarrow> int \<times> 'g" where
  "parse_module m args g = (case md_parse_args m of None \<Rightarrow> (0, g) | Some p \<Rightarrow> p args g)"

lemma main_module_run:
  "main_module mods g fl cmd rest = ([RunModule cmd fl margs], code, Some out) \<longleftrightarrow>
     (\<exists>m g'. usbtrace_find_module mods cmd = Some m \<and> parse_module m (cmd # rest) g = (0, g')
        \<and> margs = cmd # rest \<and> md_run m fl g' = (code, out))"
  by (auto simp: main_module_def parse_module_def Let_def split_beta prod_eq_iff split: option.split)

definition not_option :: "string \<Rightarrow> bool" where
  "not_option a \<longleftrightarrow> a = [] \<or> hd a \<noteq> CHR ''-''"

text \<open>C21: A module runs exactly when the command line is a sequence of verbose/json flags followed by
  the name of a registered module (not \<open>list\<close> or \<open>help\<close>, not starting with a dash) whose option parser
  accepts the rest; it then runs with the options as the parser leaves them, the json and verbose switches are set
  exactly when their flag was given, and the program writes what the module writes and exits with its code.\<close>

theorem main_runs_module_iff:
  "ut_main mods g args = ([RunModule cmd fl margs], code, Some out) \<longleftrightarrow>
     (\<exists>gs rest m g'. args = gs @ cmd # rest \<and> list_all global_flag gs
        \<and> not_option cmd \<and> cmd \<noteq> ''list'' \<and> cmd \<noteq> ''help''
        \<and> usbtrace_find_module mods cmd = Some m
        \<and> parse_module m (cmd # rest) g = (0, g')
        \<and> margs = cmd # rest \<and> md_run m fl g' = (code, out)
        \<and> mf_verbose fl = list_ex (\<lambda>g. g = ''-v'' \<or> g = ''--verbose'') gs
        \<and> mf_json fl = list_ex (\<lambda>g. g = ''-j'' \<or> g = ''--json'') gs)"
proof -
  have flags: "fl = flags_after \<lparr> mf_verbose = False, mf_json = False \<rparr> gs \<longleftrightarrow>
      mf_verbose fl = list_ex (\<lambda>g. g = ''-v'' \<or> g = ''--verbose'') gs
      \<and> mf_json fl = list_ex (\<lambda>g. g = ''-j'' \<or> g = ''--json'') gs" for gs
    by (cases fl) (simp add: flags_after_def)
  show ?thesis
    unfolding ut_main_run main_module_run main_globals_Inr flags list.sel not_option_def by (simp; blast)
qed

definition fatal_poll :: "'r list \<times> int \<Rightarrow> bool" where
  "fatal_poll p \<longleftrightarrow> snd p < 0 \<and> snd p \<noteq> - EINTR \<and> snd p \<noteq> - EAGAIN"

text \<open>The polls of a run: up to the first that fails for good, which still delivers its records.\<close>

definition polls_done :: "('r list \<times> int) list \<Rightarrow> ('r list \<times> int) list" where
  "polls_done ps = takeWhile (\<lambda>p. \<not> fatal_poll p) ps @ take 1 (dropWhile (\<lambda>p. \<not> fatal_poll p) ps)"

text \<open>What a poll leaves in the log.\<close>

definition poll_note :: "'r list \<times> int \<Rightarrow> run_act list" where
  "poll_note p =
     (if fatal_poll p then [PollError (snd p)] else if snd p < 0 then [PollInterrupted (snd p)] else [])"

lemma poll_note_none: "filter (\<lambda>a. a = OnStart \<or> a = OnStop) (poll_note p) = []"
  by (simp add: poll_note_def)

lemma poll_notes_none: "filter (\<lambda>a. a = OnStart \<or> a = OnStop) (concat (map poll_note ps)) = []"
  by (simp add: filter_concat comp_def poll_note_none)

lemma run_loop_spec:
  "0 \<le> err \<Longrightarrow>
   (case run_loop on_event ps err ctx of (err', ctx', acts) \<Rightarrow>
      ctx' = fold on_event (concat (map fst (polls_done ps))) ctx
      \<and> acts = concat (map poll_note (polls_done ps))
      \<and> (err' < 0 \<longleftrightarrow> list_ex fatal_poll ps))"
proof (induction ps arbitrary: err ctx)
  case (Cons p ps)
  obtain recs e where p: "p = (recs, e)" by (cases p)
  show ?case
  proof (cases "fatal_poll p")
    case True
    then show ?thesis by (simp add: p fatal_poll_def polls_done_def poll_note_def)
  next
    case False
    then have "run_loop on_event (p # ps) err ctx
        = (let (e', c, acts) = run_loop on_event ps (if e < 0 then 0 else e) (fold on_event recs ctx)
           in (e', c, poll_note p @ acts))"
      by (auto simp: p fatal_poll_def poll_note_def split_beta Let_def)
    moreover have "polls_done (p # ps) = p # polls_done ps" using False by (simp add: polls_done_def)
    ultimately show ?thesis
      using Cons.IH[of "if e < 0 then 0 else e" "fold on_event recs ctx"] False p
      by (auto split: prod.splits)
  qed
qed (simp add: polls_done_def)

text \<open>Hooks, loading, attaching and the event buffer are all there.\<close>

definition run_ready :: "'r run_env \<Rightarrow> bool" where
  "run_ready env \<longleftrightarrow> re_hooks env \<noteq> 0 \<and> re_load env = 0 \<and> re_attach env = 0 \<and> re_mux env \<and> re_add env = 0"

text \<open>The records the polls of a run deliver.\<close>

definition delivered :: "'r run_env \<Rightarrow> 'r list" where
  "delivered env = concat (map fst (polls_done (re_polls env)))"

lemma usbtrace_run_ready:
  assumes "run_ready env"
  shows "usbtrace_run on_event env ctx =
     (if list_ex fatal_poll (re_polls env) then 1 else 0, fold on_event (delivered env) ctx,
      OnStart # concat (map poll_note (polls_done (re_polls env))) @ [OnStop])"
proof -
  obtain err' ctx' acts where l: "run_loop on_event (re_polls env) 0 ctx = (err', ctx', acts)"
    by (cases "run_loop on_event (re_polls env) 0 ctx")
  then have "ctx' = fold on_event (delivered env) ctx"
    "acts = concat (map poll_note (polls_done (re_polls env)))"
    "err' < 0 \<longleftrightarrow> list_ex fatal_poll (re_polls env)"
    using run_loop_spec[of 0 on_event "re_polls env" ctx] by (auto simp: delivered_def)
  then show ?thesis using assms l by (auto simp: usbtrace_run_def run_ready_def)
qed

lemma usbtrace_run_not_ready:
  "\<not> run_ready env \<Longrightarrow> \<exists>a. usbtrace_run on_event env ctx = (1, ctx, [a]) \<and> a \<noteq> OnStart \<and> a \<noteq> OnStop"
  by (auto simp: usbtrace_run_def run_ready_def)

text \<open>C24: A module's run fails with exit code 1 before any callback when no hook is usable or loading,
  attaching or opening the event buffer fails; otherwise its start callback runs before and its stop
  callback after all events, every record delivered up to the first fatal poll error reaches the
  module in order, interruptions do not end the run, and the exit code is 1 exactly on a fatal error.\<close>

theorem run_harness_correct:
  "usbtrace_run on_event env ctx =
     (if re_hooks env \<noteq> 0 \<and> re_load env = 0 \<and> re_attach env = 0 \<and> re_mux env \<and> re_add env = 0
      then (if list_ex fatal_poll (re_polls env) then 1 else 0,
            fold on_event (concat (map fst (polls_done (re_polls env)))) ctx,
            OnStart # concat (map poll_note (polls_done (re_polls env))) @ [OnStop])
      else (1, ctx, snd (snd (usbtrace_run on_event env ctx))))
   \<and> filter (\<lambda>a. a = OnStart \<or> a = OnStop) (snd (snd (usbtrace_run on_event env ctx)))
      = (if re_hooks env \<noteq> 0 \<and> re_load env = 0 \<and> re_attach env = 0 \<and> re_mux env \<and> re_add env = 0
         then [OnStart, OnStop] else [])"
proof (cases "run_ready env")
  case True
  then show ?thesis
    using usbtrace_run_ready[OF True, of on_event ctx]
    by (simp add: run_ready_def delivered_def poll_notes_none)
next
  case False
  then show ?thesis
    using usbtrace_run_not_ready[OF False, of on_event ctx] by (auto simp: run_ready_def)
qed

end
