(* ===== verification/Hook_Probe.thy ===== *)
theory Hook_Probe
  imports Ut_Prelude
begin

text \<open>
  Feature probing of kernel hooks (\<open>probe.c\<close>): whether a function or tracepoint a BPF program attaches
  to exists on the running kernel, answered yes, no or unknown, and the per-program filter that
  switches off exactly the programs whose hook is known to be absent. The file system (contents,
  existence, directory listings) is a parameter.
\<close>

section \<open>Environment\<close>

record probe_fs =
  fs_read :: "string \<Rightarrow> string option"       \<comment> \<open>contents of a file that opens for reading\<close>
  fs_access :: "string \<Rightarrow> bool"              \<comment> \<open>\<open>access(path, F_OK) == 0\<close>\<close>
  fs_dir :: "string \<Rightarrow> string list option"   \<comment> \<open>names of a directory that opens\<close>

definition TRACEFS :: "string list" where
  "TRACEFS = [''/sys/kernel/tracing'', ''/sys/kernel/debug/tracing'']"

datatype verdict = Present | Absent | Unknown

section \<open>Symbols in a file\<close>

text \<open>The pieces successive \<open>fgets(line, 512, f)\<close> calls return.\<close>

fun fgets_one :: "nat \<Rightarrow> string \<Rightarrow> string \<times> string" where
  "fgets_one 0 s = ([], s)"
| "fgets_one (Suc n) [] = ([], [])"
| "fgets_one (Suc n) (c # cs) =
     (if c = CHR 0x0A then ([c], cs) else (let (l, r) = fgets_one n cs in (c # l, r)))"

lemma fgets_one_split: "fst (fgets_one n s) @ snd (fgets_one n s) = s"
  by (induction n s rule: fgets_one.induct) (auto split: prod.splits)

lemma fgets_one_nonempty: "0 < n \<Longrightarrow> s \<noteq> [] \<Longrightarrow> fst (fgets_one n s) \<noteq> []"
  by (cases n; cases s) (auto split: prod.splits)

function fgets_all :: "nat \<Rightarrow> string \<Rightarrow> string list" where
  "fgets_all n s =
     (if n = 0 \<or> s = [] then [] else fst (fgets_one n s) # fgets_all n (snd (fgets_one n s)))"
  by pat_completeness auto
termination
proof (relation "measure (\<lambda>(n, s). length s)")
  fix n :: nat and s :: string
  assume "\<not> (n = 0 \<or> s = [])"
  then have "length (fst (fgets_one n s)) > 0" using fgets_one_nonempty[of n s] by auto
  moreover have "length (fst (fgets_one n s)) + length (snd (fgets_one n s)) = length s"
    using arg_cong[OF fgets_one_split[of n s], of length] by simp
  ultimately have "length (snd (fgets_one n s)) < length s" by linarith
  then show "((n, snd (fgets_one n s)), n, s) \<in> measure (\<lambda>(n, s). length s)" by simp
qed simp

declare fgets_all.simps [simp del]

text \<open>The tokens \<open>strtok_r(line, " \t\n")\<close> yields.\<close>

definition is_sep :: "char \<Rightarrow> bool" where
  "is_sep c \<longleftrightarrow> c = CHR '' '' \<or> c = CHR 0x09 \<or> c = CHR 0x0A"

function tokens :: "string \<Rightarrow> string list" where
  "tokens s =
     (case dropWhile is_sep s of
        [] \<Rightarrow> []
      | c # cs \<Rightarrow> takeWhile (\<lambda>x. \<not> is_sep x) (c # cs) # tokens (dropWhile (\<lambda>x. \<not> is_sep x) (c # cs)))"
  by pat_completeness auto
termination
proof (relation "measure length")
  fix s c cs
  assume d: "dropWhile is_sep s = c # cs"
  then have "\<not> is_sep c" using hd_dropWhile[of is_sep s] by simp
  then have "length (dropWhile (\<lambda>x. \<not> is_sep x) (c # cs)) < length (c # cs)"
    using length_dropWhile_le[of "\<lambda>x. \<not> is_sep x" cs] by simp
  also have "length (c # cs) \<le> length s" using length_dropWhile_le[of is_sep s] by (simp add: d)
  finally show "(dropWhile (\<lambda>x. \<not> is_sep x) (c # cs), s) \<in> measure length" by simp
qed simp

declare tokens.simps [simp del]

definition line_has :: "string \<Rightarrow> nat \<Rightarrow> string \<Rightarrow> bool" where
  "line_has name field line =
     (let ts = tokens (cstr line) in field < length ts \<and> ts ! field = name)"

definition symbol_in_file :: "probe_fs \<Rightarrow> string \<Rightarrow> string \<Rightarrow> nat \<Rightarrow> verdict" where
  "symbol_in_file fs path name sym_field =
     (case fs_read fs path of
        None \<Rightarrow> Unknown
      | Some text \<Rightarrow> if list_ex (line_has name sym_field) (fgets_all 511 text) then Present else Absent)"

section \<open>Functions and tracepoints\<close>

fun tracefs_loop :: "(string \<Rightarrow> verdict) \<Rightarrow> string list \<Rightarrow> bool \<Rightarrow> verdict" where
  "tracefs_loop look [] readable = (if readable then Absent else Unknown)"
| "tracefs_loop look (t # ts) readable =
     (case look t of
        Present \<Rightarrow> Present
      | Absent \<Rightarrow> tracefs_loop look ts True
      | Unknown \<Rightarrow> tracefs_loop look ts readable)"

definition usbtrace_kfunc_available :: "probe_fs \<Rightarrow> string \<Rightarrow> verdict" where
  "usbtrace_kfunc_available fs name =
     (if name = [] then Unknown
      else (case symbol_in_file fs ''/proc/kallsyms'' name 2 of
              Present \<Rightarrow> Present
            | r \<Rightarrow> tracefs_loop (\<lambda>t. symbol_in_file fs (snprintf_s 256 (t @ ''/available_filter_functions'')) name 0)
                     TRACEFS (r = Absent)))"

definition tracepoint_at :: "probe_fs \<Rightarrow> string \<Rightarrow> string \<Rightarrow> string \<Rightarrow> verdict" where
  "tracepoint_at fs subsys event t =
     (if fs_access fs (snprintf_s 256 (t @ ''/events/'' @ subsys @ ''/'' @ event)) then Present
      else if fs_access fs (snprintf_s 256 (t @ ''/events'')) then Absent else Unknown)"

definition usbtrace_tracepoint_available :: "probe_fs \<Rightarrow> string \<Rightarrow> string \<Rightarrow> verdict" where
  "usbtrace_tracepoint_available fs subsys event = tracefs_loop (tracepoint_at fs subsys event) TRACEFS False"

definition PATH_MAX :: nat where "PATH_MAX = 4096"

definition event_entry :: "probe_fs \<Rightarrow> string \<Rightarrow> string \<Rightarrow> string \<Rightarrow> bool" where
  "event_entry fs path event d =
     (let p = path @ ''/'' @ d @ ''/'' @ event in
      \<not> (d \<noteq> [] \<and> hd d = CHR ''.'') \<and> length p < PATH_MAX \<and> fs_access fs p)"

definition event_in_tracefs :: "probe_fs \<Rightarrow> string \<Rightarrow> string \<Rightarrow> verdict" where
  "event_in_tracefs fs event t =
     (let path = snprintf_s 256 (t @ ''/events'') in
      case fs_dir fs path of
        None \<Rightarrow> Unknown
      | Some ds \<Rightarrow> if list_ex (event_entry fs path event) ds then Present else Absent)"

definition usbtrace_tracepoint_event_available :: "probe_fs \<Rightarrow> string \<Rightarrow> verdict" where
  "usbtrace_tracepoint_event_available fs event =
     (if event = [] then Unknown else tracefs_loop (event_in_tracefs fs event) TRACEFS False)"

section \<open>Section names and the program filter\<close>

definition starts_with :: "string \<Rightarrow> string \<Rightarrow> bool" where
  "starts_with p s \<longleftrightarrow> take (length p) s = p"

text \<open>What follows the first slash.\<close>

definition after_slash :: "string \<Rightarrow> string option" where
  "after_slash s = (if CHR ''/'' \<in> set s then Some (tl (dropWhile (\<lambda>c. c \<noteq> CHR ''/'') s)) else None)"

definition before_slash :: "string \<Rightarrow> string" where
  "before_slash s = takeWhile (\<lambda>c. c \<noteq> CHR ''/'') s"

definition sec_available :: "probe_fs \<Rightarrow> string option \<Rightarrow> verdict" where
  "sec_available fs sec =
     (case sec of
        None \<Rightarrow> Unknown
      | Some s \<Rightarrow>
          (case after_slash s of
             None \<Rightarrow> Unknown
           | Some target \<Rightarrow>
               if list_ex (\<lambda>p. starts_with p s)
                    [''kprobe/'', ''kretprobe/'', ''fentry/'', ''fexit/'', ''fmod_ret/'']
               then usbtrace_kfunc_available fs target
               else if starts_with ''tracepoint/'' s \<or> starts_with ''tp/'' s then
                 (case after_slash target of
                    None \<Rightarrow> Unknown
                  | Some event \<Rightarrow>
                      if length (before_slash target) \<ge> 64 then Unknown
                      else usbtrace_tracepoint_available fs (before_slash target) event)
               else if list_ex (\<lambda>p. starts_with p s) [''raw_tracepoint/'', ''raw_tp/'', ''tp_btf/'']
               then usbtrace_tracepoint_event_available fs target
               else Unknown))"

text \<open>Over the section names of an object's programs: the number left enabled, and per program whether
  it still loads (\<open>bpf_program__set_autoload(prog, false)\<close> switches one off).\<close>

definition usbtrace_autoload_filter :: "probe_fs \<Rightarrow> string option list \<Rightarrow> nat \<times> bool list" where
  "usbtrace_autoload_filter fs secs =
     fold (\<lambda>sec (enabled, loads).
             if sec_available fs sec = Absent then (enabled, loads @ [False])
             else (enabled + 1, loads @ [True])) secs (0, [])"

section \<open>Properties\<close>

lemma tracefs_loop_spec:
  "tracefs_loop look ts readable = Present \<longleftrightarrow> (\<exists>t \<in> set ts. look t = Present)"
  "tracefs_loop look ts readable = Absent \<longleftrightarrow>
     (\<forall>t \<in> set ts. look t \<noteq> Present) \<and> (readable \<or> (\<exists>t \<in> set ts. look t = Absent))"
  by (induction ts arbitrary: readable) (auto split: verdict.splits)

lemma autoload_filter_spec:
  "usbtrace_autoload_filter fs secs =
     (length (filter (\<lambda>sec. sec_available fs sec \<noteq> Absent) secs),
      map (\<lambda>sec. sec_available fs sec \<noteq> Absent) secs)"
proof -
  have "fold (\<lambda>sec (enabled, loads).
             if sec_available fs sec = Absent then (enabled, loads @ [False])
             else (enabled + 1, loads @ [True])) secs (n, ls)
    = (n + length (filter (\<lambda>sec. sec_available fs sec \<noteq> Absent) secs),
       ls @ map (\<lambda>sec. sec_available fs sec \<noteq> Absent) secs)" for n ls
    by (induction secs arbitrary: n ls) auto
  from this[of 0 "[]"] show ?thesis by (simp add: usbtrace_autoload_filter_def)
qed

text \<open>What the three listings and the tracepoint directories say, without the verdicts of the code.\<close>

definition listed_in :: "probe_fs \<Rightarrow> string \<Rightarrow> nat \<Rightarrow> string \<Rightarrow> bool" where
  "listed_in fs path field name \<longleftrightarrow>
     (\<exists>text line. fs_read fs path = Some text \<and> line \<in> set (fgets_all 511 text)
        \<and> field < length (tokens (cstr line)) \<and> tokens (cstr line) ! field = name)"

definition events_dir :: "string \<Rightarrow> string" where
  "events_dir t = snprintf_s 256 (t @ ''/events'')"

definition functions_file :: "string \<Rightarrow> string" where
  "functions_file t = snprintf_s 256 (t @ ''/available_filter_functions'')"

definition func_listed :: "probe_fs \<Rightarrow> string \<Rightarrow> bool" where
  "func_listed fs f \<longleftrightarrow> listed_in fs ''/proc/kallsyms'' 2 f \<or> (\<exists>t \<in> set TRACEFS. listed_in fs (functions_file t) 0 f)"

definition listing_readable :: "probe_fs \<Rightarrow> bool" where
  "listing_readable fs \<longleftrightarrow>
     fs_read fs ''/proc/kallsyms'' \<noteq> None \<or> (\<exists>t \<in> set TRACEFS. fs_read fs (functions_file t) \<noteq> None)"

definition tp_listed :: "probe_fs \<Rightarrow> string \<Rightarrow> string \<Rightarrow> bool" where
  "tp_listed fs subsys event \<longleftrightarrow>
     (\<exists>t \<in> set TRACEFS. fs_access fs (snprintf_s 256 (t @ ''/events/'' @ subsys @ ''/'' @ event)))"

text \<open>Some category directory other than a hidden one holds the event.\<close>

definition event_listed :: "probe_fs \<Rightarrow> string \<Rightarrow> bool" where
  "event_listed fs event \<longleftrightarrow>
     (\<exists>t \<in> set TRACEFS. \<exists>ds. fs_dir fs (events_dir t) = Some ds \<and>
        (\<exists>d \<in> set ds. take 1 d \<noteq> ''.'' \<and> length (events_dir t @ ''/'' @ d @ ''/'' @ event) < PATH_MAX
           \<and> fs_access fs (events_dir t @ ''/'' @ d @ ''/'' @ event)))"

text \<open>The hooks known to be absent, by the form of the section name: functions, tracepoints with and without a
  category; no other name is known to be absent.\<close>

definition known_absent :: "probe_fs \<Rightarrow> string option \<Rightarrow> bool" where
  "known_absent fs sec \<longleftrightarrow>
     (\<exists>kind f. sec = Some (kind @ ''/'' @ f) \<and> kind \<in> {''kprobe'', ''kretprobe'', ''fentry'', ''fexit'', ''fmod_ret''}
        \<and> f \<noteq> [] \<and> \<not> func_listed fs f \<and> listing_readable fs)
   \<or> (\<exists>kind subsys event. sec = Some (kind @ ''/'' @ subsys @ ''/'' @ event) \<and> kind \<in> {''tracepoint'', ''tp''}
        \<and> CHR ''/'' \<notin> set subsys \<and> length subsys < 64 \<and> \<not> tp_listed fs subsys event
        \<and> (\<exists>t \<in> set TRACEFS. fs_access fs (events_dir t)))
   \<or> (\<exists>kind event. sec = Some (kind @ ''/'' @ event) \<and> kind \<in> {''raw_tracepoint'', ''raw_tp'', ''tp_btf''}
        \<and> event \<noteq> [] \<and> \<not> event_listed fs event \<and> (\<exists>t \<in> set TRACEFS. fs_dir fs (events_dir t) \<noteq> None))"

lemma symbol_verdict:
  "symbol_in_file fs p name k = Present \<longleftrightarrow> listed_in fs p k name"
  "symbol_in_file fs p name k = Absent \<longleftrightarrow> fs_read fs p \<noteq> None \<and> \<not> listed_in fs p k name"
  by (auto simp: symbol_in_file_def listed_in_def line_has_def list_ex_iff Let_def split: option.splits)

lemma kfunc_absent:
  "usbtrace_kfunc_available fs f = Absent \<longleftrightarrow> f \<noteq> [] \<and> \<not> func_listed fs f \<and> listing_readable fs"
proof -
  have "usbtrace_kfunc_available fs f = Absent \<longleftrightarrow> f \<noteq> []
     \<and> symbol_in_file fs ''/proc/kallsyms'' f 2 \<noteq> Present
     \<and> (\<forall>t \<in> set TRACEFS. symbol_in_file fs (functions_file t) f 0 \<noteq> Present)
     \<and> (symbol_in_file fs ''/proc/kallsyms'' f 2 = Absent
        \<or> (\<exists>t \<in> set TRACEFS. symbol_in_file fs (functions_file t) f 0 = Absent))"
    by (auto simp: usbtrace_kfunc_available_def tracefs_loop_spec functions_file_def split: verdict.split)
  then show ?thesis
    unfolding symbol_verdict func_listed_def listing_readable_def by blast
qed

lemma tracepoint_absent:
  "usbtrace_tracepoint_available fs subsys event = Absent \<longleftrightarrow>
     \<not> tp_listed fs subsys event \<and> (\<exists>t \<in> set TRACEFS. fs_access fs (events_dir t))"
  by (auto simp: usbtrace_tracepoint_available_def tracefs_loop_spec tracepoint_at_def tp_listed_def events_dir_def)

lemma event_absent:
  "usbtrace_tracepoint_event_available fs event = Absent \<longleftrightarrow>
     event \<noteq> [] \<and> \<not> event_listed fs event \<and> (\<exists>t \<in> set TRACEFS. fs_dir fs (events_dir t) \<noteq> None)"
proof -
  have entry: "event_entry fs (events_dir t) event d \<longleftrightarrow> take 1 d \<noteq> ''.''
      \<and> length (events_dir t @ ''/'' @ d @ ''/'' @ event) < PATH_MAX
      \<and> fs_access fs (events_dir t @ ''/'' @ d @ ''/'' @ event)" for t d
    by (cases d) (auto simp: event_entry_def Let_def)
  have "event_in_tracefs fs event t = (case fs_dir fs (events_dir t) of None \<Rightarrow> Unknown
      | Some ds \<Rightarrow> if list_ex (event_entry fs (events_dir t) event) ds then Present else Absent)" for t
    unfolding event_in_tracefs_def events_dir_def Let_def by (rule refl)
  then have
    "event_in_tracefs fs event t = Present \<longleftrightarrow>
       (\<exists>ds. fs_dir fs (events_dir t) = Some ds \<and> (\<exists>d \<in> set ds. event_entry fs (events_dir t) event d))"
    "event_in_tracefs fs event t = Absent \<longleftrightarrow>
       (\<exists>ds. fs_dir fs (events_dir t) = Some ds \<and> \<not> (\<exists>d \<in> set ds. event_entry fs (events_dir t) event d))" for t
    by (auto simp: list_ex_iff split: option.splits)
  then have "usbtrace_tracepoint_event_available fs event = Absent \<longleftrightarrow> event \<noteq> []
      \<and> (\<forall>t \<in> set TRACEFS. \<not> (\<exists>ds. fs_dir fs (events_dir t) = Some ds
            \<and> (\<exists>d \<in> set ds. event_entry fs (events_dir t) event d)))
      \<and> (\<exists>t \<in> set TRACEFS. fs_dir fs (events_dir t) \<noteq> None)"
    unfolding usbtrace_tracepoint_event_available_def by (auto simp: tracefs_loop_spec) blast+
  then show ?thesis unfolding event_listed_def entry by blast
qed

lemma slash_split:
  "CHR ''/'' \<notin> set w \<Longrightarrow> s = w @ ''/'' @ f \<longleftrightarrow> before_slash s = w \<and> after_slash s = Some f"
proof
  assume "CHR ''/'' \<notin> set w" "s = w @ ''/'' @ f"
  then show "before_slash s = w \<and> after_slash s = Some f"
    by (auto simp: before_slash_def after_slash_def takeWhile_append dropWhile_append)
next
  assume r: "before_slash s = w \<and> after_slash s = Some f"
  then have "CHR ''/'' \<in> set s" by (auto simp: after_slash_def split: if_splits)
  then have "dropWhile (\<lambda>c. c \<noteq> CHR ''/'') s = CHR ''/'' # tl (dropWhile (\<lambda>c. c \<noteq> CHR ''/'') s)"
    using hd_dropWhile[of "\<lambda>c. c \<noteq> CHR ''/''" s]
    by (cases "dropWhile (\<lambda>c. c \<noteq> CHR ''/'') s") (auto simp: dropWhile_eq_Nil_conv)
  with r show "s = w @ ''/'' @ f"
    using takeWhile_dropWhile_id[of "\<lambda>c. c \<noteq> CHR ''/''" s]
    by (auto simp: before_slash_def after_slash_def split: if_splits)
qed

lemma starts_split:
  "CHR ''/'' \<notin> set w \<Longrightarrow> after_slash s = Some f \<Longrightarrow> starts_with (w @ ''/'') s \<longleftrightarrow> before_slash s = w"
proof -
  assume w: "CHR ''/'' \<notin> set w" and f: "after_slash s = Some f"
  have "starts_with (w @ ''/'') s \<longleftrightarrow> (\<exists>g. s = w @ ''/'' @ g)"
    by (auto simp: starts_with_def) (metis append.assoc append_Cons append_Nil append_take_drop_id)
  then show ?thesis unfolding slash_split[OF w] using f by auto
qed

lemma before_no_slash: "CHR ''/'' \<notin> set (before_slash s)"
  unfolding before_slash_def by (metis (mono_tags, lifting) set_takeWhileD)

lemma kind_split:
  assumes K: "\<And>k. k \<in> K \<Longrightarrow> CHR ''/'' \<notin> set k"
  shows "(\<exists>k f. s = k @ ''/'' @ f \<and> k \<in> K \<and> P f) \<longleftrightarrow> before_slash s \<in> K \<and> (\<exists>f. after_slash s = Some f \<and> P f)"
proof -
  have "s = k @ ''/'' @ f \<and> k \<in> K \<longleftrightarrow> before_slash s = k \<and> after_slash s = Some f \<and> k \<in> K" for k f
    using slash_split[OF K, of k s f] by auto
  then show ?thesis by metis
qed

lemma kind_split2:
  assumes K: "\<And>k. k \<in> K \<Longrightarrow> CHR ''/'' \<notin> set k"
  shows "(\<exists>k u e. s = k @ ''/'' @ u @ ''/'' @ e \<and> k \<in> K \<and> CHR ''/'' \<notin> set u \<and> P u e)
    \<longleftrightarrow> before_slash s \<in> K \<and> (\<exists>f e. after_slash s = Some f \<and> after_slash f = Some e \<and> P (before_slash f) e)"
proof -
  have g: "g = u @ ''/'' @ e \<and> CHR ''/'' \<notin> set u \<longleftrightarrow> before_slash g = u \<and> after_slash g = Some e" for g u e
    using slash_split[of u g e] before_no_slash[of g] by auto
  have "(\<exists>k u e. s = k @ ''/'' @ u @ ''/'' @ e \<and> k \<in> K \<and> CHR ''/'' \<notin> set u \<and> P u e)
    \<longleftrightarrow> (\<exists>k f. s = k @ ''/'' @ f \<and> k \<in> K \<and> (\<exists>u e. (f = u @ ''/'' @ e \<and> CHR ''/'' \<notin> set u) \<and> P u e))"
    by auto
  also have "\<dots> \<longleftrightarrow> before_slash s \<in> K \<and> (\<exists>f. after_slash s = Some f \<and> (\<exists>u e. (f = u @ ''/'' @ e \<and> CHR ''/'' \<notin> set u) \<and> P u e))"
    by (rule kind_split[OF K])
  finally show ?thesis unfolding g by auto
qed

lemma sec_absent: "sec_available fs sec = Absent \<longleftrightarrow> known_absent fs sec"
proof (cases sec)
  case None
  then show ?thesis by (simp add: sec_available_def known_absent_def)
next
  case (Some s)
  let ?K = "{''kprobe'', ''kretprobe'', ''fentry'', ''fexit'', ''fmod_ret''}"
  let ?T = "{''tracepoint'', ''tp''}" and ?R = "{''raw_tracepoint'', ''raw_tp'', ''tp_btf''}"
  have K: "k \<in> ?K \<Longrightarrow> CHR ''/'' \<notin> set k" and T: "k \<in> ?T \<Longrightarrow> CHR ''/'' \<notin> set k"
    and R: "k \<in> ?R \<Longrightarrow> CHR ''/'' \<notin> set k" for k :: string by auto
  have absent: "known_absent fs sec \<longleftrightarrow>
      before_slash s \<in> ?K \<and> (\<exists>f. after_slash s = Some f \<and> f \<noteq> [] \<and> \<not> func_listed fs f \<and> listing_readable fs)
    \<or> before_slash s \<in> ?T \<and> (\<exists>f e. after_slash s = Some f \<and> after_slash f = Some e
         \<and> length (before_slash f) < 64 \<and> \<not> tp_listed fs (before_slash f) e
         \<and> (\<exists>t \<in> set TRACEFS. fs_access fs (events_dir t)))
    \<or> before_slash s \<in> ?R \<and> (\<exists>e. after_slash s = Some e
         \<and> e \<noteq> [] \<and> \<not> event_listed fs e \<and> (\<exists>t \<in> set TRACEFS. fs_dir fs (events_dir t) \<noteq> None))"
    unfolding known_absent_def Some option.inject
    by (intro arg_cong2[of _ _ _ _ "(\<or>)"] kind_split kind_split2 K T R)
  show ?thesis
  proof (cases "after_slash s")
    case None
    then show ?thesis unfolding absent by (simp add: Some sec_available_def)
  next
    case (Some f)
    note st = starts_split[OF _ Some]
    have pre: "starts_with ''kprobe/'' s \<longleftrightarrow> before_slash s = ''kprobe''"
      "starts_with ''kretprobe/'' s \<longleftrightarrow> before_slash s = ''kretprobe''"
      "starts_with ''fentry/'' s \<longleftrightarrow> before_slash s = ''fentry''" "starts_with ''fexit/'' s \<longleftrightarrow> before_slash s = ''fexit''"
      "starts_with ''fmod_ret/'' s \<longleftrightarrow> before_slash s = ''fmod_ret''"
      "starts_with ''tracepoint/'' s \<longleftrightarrow> before_slash s = ''tracepoint''" "starts_with ''tp/'' s \<longleftrightarrow> before_slash s = ''tp''"
      "starts_with ''raw_tracepoint/'' s \<longleftrightarrow> before_slash s = ''raw_tracepoint''"
      "starts_with ''raw_tp/'' s \<longleftrightarrow> before_slash s = ''raw_tp''" "starts_with ''tp_btf/'' s \<longleftrightarrow> before_slash s = ''tp_btf''"
      using st[of "''kprobe''"] st[of "''kretprobe''"] st[of "''fentry''"] st[of "''fexit''"] st[of "''fmod_ret''"]
        st[of "''tracepoint''"] st[of "''tp''"] st[of "''raw_tracepoint''"] st[of "''raw_tp''"] st[of "''tp_btf''"]
      by simp_all
    have "sec_available fs sec =
      (if before_slash s \<in> ?K then usbtrace_kfunc_available fs f
       else if before_slash s \<in> ?T then
         (case after_slash f of None \<Rightarrow> Unknown
          | Some e \<Rightarrow> if length (before_slash f) \<ge> 64 then Unknown
                      else usbtrace_tracepoint_available fs (before_slash f) e)
       else if before_slash s \<in> ?R then usbtrace_tracepoint_event_available fs f else Unknown)"
      unfolding \<open>sec = Some s\<close> sec_available_def option.case Some by (simp add: pre)
    then show ?thesis
      unfolding absent using Some
      by (auto simp: kfunc_absent tracepoint_absent event_absent not_le split: option.splits if_splits)
  qed
qed

text \<open>C25: The filter switches off exactly the programs whose hook is known to be absent and counts the others.
  A function is known to be absent when at least one of the three symbol listings could be read and none lists
  it; a tracepoint named with its category when some mount of the tracing file system has an events directory
  and none has this event; a tracepoint named without one when some events directory can be listed and no
  category in any of them has it. Every other section name (none, no target, an empty one, a category of 64
  characters or more, an unknown kind) keeps its program, and so does a kernel on which nothing can be read.\<close>

theorem filter_fails_open:
  "usbtrace_autoload_filter fs secs =
     (length (filter (\<lambda>sec. \<not> known_absent fs sec) secs), map (\<lambda>sec. \<not> known_absent fs sec) secs)"
  unfolding autoload_filter_spec sec_absent by (rule refl)

text \<open>A kernel that lists one function and one tracepoint, and programs for hooks of each form, there and not.\<close>

definition demo_fs :: probe_fs where
  "demo_fs =
     \<lparr> fs_read = (\<lambda>p. if p = ''/proc/kallsyms'' then Some (''0 t usb_new_device'' @ [CHR 0x0A]) else None),
       fs_access = (\<lambda>p. p \<in> set [''/sys/kernel/tracing/events'', ''/sys/kernel/tracing/events/vb2/vb2_buf_done'']),
       fs_dir = (\<lambda>p. if p = ''/sys/kernel/tracing/events'' then Some [''.'', ''..'', ''vb2''] else None) \<rparr>"

definition demo_secs :: "string option list" where
  "demo_secs = map Some [''fentry/usb_new_device'', ''fentry/gone'', ''tp/vb2/vb2_buf_done'', ''tracepoint/vb2/gone'',
     ''raw_tp/vb2_buf_done'', ''tp_btf/gone'', ''uprobe/gone''] @ [None]"

lemma demo_filter:
  "usbtrace_autoload_filter demo_fs demo_secs = (5, [True, False, True, False, True, False, True, True])"
  by code_simp

theorem filter_fails_open_witness:
  "map (\<lambda>sec. \<not> known_absent demo_fs sec) demo_secs = [True, False, True, False, True, False, True, True]"
  using filter_fails_open[of demo_fs demo_secs] by (simp add: demo_filter)

end
