(* ===== verification/Evmux.thy ===== *)
theory Evmux
  imports Module_Core
begin

text \<open>
  The event consumer (\<open>evmux.c\<close>) with its two back-ends: one ring buffer for all sources, or one perf buffer per source
  behind a flat epoll set. What libbpf and the kernel answer is an argument: the descriptors, the results of
  creating, registering, waiting and consuming, and the records a call hands to the callback. The locale \<open>event_mux\<close>
  is what the run harness and the diag loop rely on; both back-ends are interpretations of it.
\<close>

definition EINVAL :: int where "EINVAL = 22"
definition ENOSPC :: int where "ENOSPC = 28"
definition EVMUX_MAX_SRCS :: nat where "EVMUX_MAX_SRCS = 16"

section \<open>perf back-end\<close>

text \<open>A perf buffer is known by the descriptors of its CPUs; negative ones are offline.\<close>

record perf_evmux =
  px_pbs :: "int list list"
  px_epoll :: "int list"

text \<open>\<open>calloc\<close> and \<open>epoll_create1\<close>.\<close>

definition perf_evmux_new :: "bool \<Rightarrow> int \<Rightarrow> perf_evmux option" where
  "perf_evmux_new alloc epfd = (if \<not> alloc \<or> epfd < 0 then None else Some \<lparr> px_pbs = [], px_epoll = [] \<rparr>)"

text \<open>Registering the descriptors of a source; \<open>ctl\<close> is 0 or the error number of \<open>epoll_ctl\<close>. The error, or the set.\<close>

fun perf_register :: "(int \<Rightarrow> int) \<Rightarrow> int list \<Rightarrow> int list \<Rightarrow> int + int list" where
  "perf_register ctl [] ep = Inr ep"
| "perf_register ctl (fd # fds) ep =
     (if fd < 0 then perf_register ctl fds ep
      else if ctl fd \<noteq> 0 then Inl (- ctl fd)
      else perf_register ctl fds (ep @ [fd]))"

text \<open>Freeing the perf buffer on the error path closes its descriptors, which leave the epoll set. \<open>fd\<close>: the map's
  descriptor; \<open>pb\<close>: the new perf buffer, or the error number.\<close>

definition perf_evmux_add :: "(int \<Rightarrow> int) \<Rightarrow> int \<Rightarrow> (int + int list) \<Rightarrow> perf_evmux \<Rightarrow> int \<times> perf_evmux" where
  "perf_evmux_add ctl fd pb m =
     (if fd < 0 then (- EINVAL, m)
      else if length (px_pbs m) \<ge> EVMUX_MAX_SRCS then (- ENOSPC, m)
      else (case pb of
              Inl err \<Rightarrow> (- err, m)
            | Inr fds \<Rightarrow>
                (case perf_register ctl fds (px_epoll m) of
                   Inl err \<Rightarrow> (err, m)
                 | Inr ep \<Rightarrow> (0, \<lparr> px_pbs = px_pbs m @ [fds], px_epoll = ep \<rparr>))))"

text \<open>One poll: the result of \<open>epoll_wait\<close>, and per source the records consuming it delivers and its result.\<close>

record 'r perf_poll_env =
  pp_wait :: int
  pp_consume :: "nat \<Rightarrow> 'r list \<times> int"

fun perf_drain :: "('r \<Rightarrow> 'c \<Rightarrow> 'c) \<Rightarrow> ('r list \<times> int) list \<Rightarrow> 'c \<times> u32 \<Rightarrow> 'c \<times> int" where
  "perf_drain f [] (c, n) = (c, sint n)"
| "perf_drain f ((recs, err) # rest) (c, n) =
     (let (c', n') = fold (\<lambda>r (c, n). (f r c, n + 1)) recs (c, n) in
      if err < 0 then (if err = - EINTR \<or> err = - EAGAIN then perf_drain f rest (c', n') else (c', err))
      else perf_drain f rest (c', n'))"

definition perf_evmux_poll :: "('r \<Rightarrow> 'c \<Rightarrow> 'c) \<Rightarrow> perf_evmux \<Rightarrow> 'r perf_poll_env \<Rightarrow> 'c \<Rightarrow> 'c \<times> int" where
  "perf_evmux_poll f m env c =
     (if px_pbs m = [] then (c, - EINVAL)
      else if pp_wait env < 0 then (c, pp_wait env)
      else perf_drain f (map (pp_consume env) [0..<length (px_pbs m)]) (c, 0))"

section \<open>Ring buffer back-end\<close>

text \<open>The maps that joined the ring buffer; \<open>None\<close> before the first.\<close>

type_synonym rb_evmux = "int list option"

definition rb_evmux_new :: "bool \<Rightarrow> rb_evmux option" where
  "rb_evmux_new alloc = (if \<not> alloc then None else Some None)"

text \<open>\<open>res\<close>: the result of \<open>ring_buffer__add\<close>, or 0 or the negated error of \<open>ring_buffer__new\<close>.\<close>

definition rb_evmux_add :: "int \<Rightarrow> int \<Rightarrow> rb_evmux \<Rightarrow> int \<times> rb_evmux" where
  "rb_evmux_add fd res m =
     (if fd < 0 then (- EINVAL, m)
      else (case m of
              Some fds \<Rightarrow> (res, if res = 0 then Some (fds @ [fd]) else m)
            | None \<Rightarrow> (res, if res = 0 then Some [fd] else None)))"

text \<open>\<open>ring_buffer__poll\<close>: the records handed over and its result.\<close>

definition rb_evmux_poll :: "('r \<Rightarrow> 'c \<Rightarrow> 'c) \<Rightarrow> rb_evmux \<Rightarrow> 'r list \<times> int \<Rightarrow> 'c \<Rightarrow> 'c \<times> int" where
  "rb_evmux_poll f m env c =
     (case m of
        None \<Rightarrow> (c, - EINVAL)
      | Some fds \<Rightarrow> (fold f (fst env) c, snd env))"

section \<open>The interface\<close>

text \<open>Polling hands the records of \<open>out\<close> to the callback, in order and once each; where the environment keeps to its
  documented behaviour (\<open>ok\<close>), a result that is no error is their number.\<close>

locale event_mux =
  fixes poll :: "('r \<Rightarrow> 'c \<Rightarrow> 'c) \<Rightarrow> 'm \<Rightarrow> 'env \<Rightarrow> 'c \<Rightarrow> 'c \<times> int"
    and out :: "'m \<Rightarrow> 'env \<Rightarrow> 'r list"
    and ok :: "'m \<Rightarrow> 'env \<Rightarrow> bool"
  assumes poll_out: "fst (poll f m env c) = fold f (out m env) c"
    and poll_count: "ok m env \<Longrightarrow> 0 \<le> snd (poll f m env c) \<Longrightarrow> snd (poll f m env c) = int (length (out m env))"
begin

text \<open>Repeated polls: the context after each, and the results.\<close>

definition polls :: "('r \<Rightarrow> 'c \<Rightarrow> 'c) \<Rightarrow> 'm \<Rightarrow> 'env list \<Rightarrow> 'c \<Rightarrow> 'c \<times> int list" where
  "polls f m envs c = fold (\<lambda>env (c, rs). let (c', r) = poll f m env c in (c', rs @ [r])) envs (c, [])"

lemma polls_ctx: "fst (polls f m envs c) = fold f (concat (map (out m) envs)) c"
proof (induction envs rule: rev_induct)
  case (snoc env envs)
  obtain c1 rs where p: "polls f m envs c = (c1, rs)" by fastforce
  have "fst (poll f m env c1) = fold f (out m env) c1" by (rule poll_out)
  then show ?case using snoc p by (simp add: polls_def split_beta)
qed (simp add: polls_def)

lemma polls_total:
  "list_all (ok m) envs \<Longrightarrow> list_all (\<lambda>r. 0 \<le> r) (snd (polls f m envs c)) \<Longrightarrow>
   sum_list (snd (polls f m envs c)) = int (length (concat (map (out m) envs)))"
proof (induction envs rule: rev_induct)
  case (snoc env envs)
  obtain c1 rs where p: "polls f m envs c = (c1, rs)" by fastforce
  obtain c2 r where q: "poll f m env c1 = (c2, r)" by fastforce
  have s: "polls f m (envs @ [env]) c = (c2, rs @ [r])" using p q by (simp add: polls_def)
  have "r = int (length (out m env))" using poll_count[of m env f c1] snoc.prems q s by simp
  moreover have "sum_list rs = int (length (concat (map (out m) envs)))" using snoc.IH snoc.prems p s by simp
  ultimately show ?case using s by simp
qed (simp add: polls_def)

end

section \<open>Both back-ends implement it\<close>

definition fatal_consume :: "'r list \<times> int \<Rightarrow> bool" where
  "fatal_consume p \<longleftrightarrow> snd p < 0 \<and> snd p \<noteq> - EINTR \<and> snd p \<noteq> - EAGAIN"

text \<open>Sources are drained in order, up to and including the first that fails.\<close>

fun drained :: "('r list \<times> int) list \<Rightarrow> 'r list" where
  "drained [] = []"
| "drained (p # ps) = fst p @ (if fatal_consume p then [] else drained ps)"

definition perf_out :: "perf_evmux \<Rightarrow> 'r perf_poll_env \<Rightarrow> 'r list" where
  "perf_out m env =
     (if pp_wait env < 0 then [] else drained (map (pp_consume env) [0..<length (px_pbs m)]))"

definition perf_ok :: "perf_evmux \<Rightarrow> 'r perf_poll_env \<Rightarrow> bool" where
  "perf_ok m env \<longleftrightarrow> length (perf_out m env) < 2 ^ 31"

lemma fold_count: "fold (\<lambda>r (c, n). (f r c, n + 1)) recs (c, n :: u32) = (fold f recs c, n + of_nat (length recs))"
  by (induction recs arbitrary: c n) simp_all

lemma perf_drain_spec:
  "perf_drain f ps (c, n) =
     (fold f (drained ps) c,
      case find fatal_consume ps of None \<Rightarrow> sint (n + of_nat (length (drained ps))) | Some p \<Rightarrow> snd p)"
proof (induction ps arbitrary: c n)
  case (Cons p ps)
  obtain recs err where p: "p = (recs, err)" by (cases p)
  show ?case
  proof (cases "fatal_consume p")
    case True
    then show ?thesis by (simp add: p fold_count fatal_consume_def)
  next
    case False
    then have "perf_drain f (p # ps) (c, n) = perf_drain f ps (fold f recs c, n + of_nat (length recs))"
      by (auto simp: p fold_count fatal_consume_def)
    then show ?thesis using False Cons.IH[of "fold f recs c"] by (simp add: p add.assoc split: option.split)
  qed
qed simp

lemma find_fatal: "find fatal_consume ps = Some p \<Longrightarrow> snd p < 0"
  by (auto simp: find_Some_iff fatal_consume_def)

lemma sint_of_count: "k < 2 ^ 31 \<Longrightarrow> sint (of_nat k :: u32) = int k"
proof -
  assume k: "k < 2 ^ 31"
  have "int k < 2 ^ 31" using k by (metis of_nat_less_iff of_nat_numeral of_nat_power)
  then have "signed_take_bit 31 (int k) = int k" by (intro signed_take_bit_int_eq_self) simp_all
  then show ?thesis by (simp add: signed_of_nat)
qed

interpretation perf: event_mux perf_evmux_poll perf_out perf_ok
proof unfold_locales
  fix f m c and env :: "'a perf_poll_env"
  show "fst (perf_evmux_poll f m env c) = fold f (perf_out m env) c"
    by (cases "px_pbs m = []") (simp_all add: perf_evmux_poll_def perf_out_def perf_drain_spec)
  assume "perf_ok m env" "0 \<le> snd (perf_evmux_poll f m env c)"
  then show "snd (perf_evmux_poll f m env c) = int (length (perf_out m env))"
    by (auto simp: perf_evmux_poll_def perf_out_def perf_ok_def perf_drain_spec EINVAL_def sint_of_count
        dest: find_fatal split: if_splits option.splits)
qed

definition rb_out :: "rb_evmux \<Rightarrow> 'r list \<times> int \<Rightarrow> 'r list" where
  "rb_out m env = (case m of None \<Rightarrow> [] | Some _ \<Rightarrow> fst env)"

text \<open>\<open>ring_buffer__poll\<close> is documented to return the number of records consumed.\<close>

definition rb_ok :: "rb_evmux \<Rightarrow> 'r list \<times> int \<Rightarrow> bool" where
  "rb_ok m env \<longleftrightarrow> snd env < 0 \<or> snd env = int (length (fst env))"

interpretation rb: event_mux rb_evmux_poll rb_out rb_ok
  by unfold_locales (auto simp: rb_evmux_poll_def rb_out_def rb_ok_def EINVAL_def split: option.splits)

section \<open>Properties\<close>

lemma perf_add_bound: "length (px_pbs m) \<le> EVMUX_MAX_SRCS \<Longrightarrow> length (px_pbs (snd (perf_evmux_add ctl fd pb m))) \<le> EVMUX_MAX_SRCS"
  by (auto simp: perf_evmux_add_def split: sum.splits)

lemma register_ok: "perf_register ctl fds ep = Inr ep' \<Longrightarrow> ep' = ep @ filter (\<lambda>fd. 0 \<le> fd) fds"
proof (induction fds arbitrary: ep)
  case (Cons fd fds)
  then show ?case using Cons.IH[of "ep @ [fd]"] by (auto split: if_splits)
qed simp

text \<open>The perf consumer is well formed: at most 16 sources, and the epoll set is exactly their online CPUs.\<close>

definition perf_wf :: "perf_evmux \<Rightarrow> bool" where
  "perf_wf m \<longleftrightarrow> length (px_pbs m) \<le> EVMUX_MAX_SRCS \<and> px_epoll m = filter (\<lambda>fd. 0 \<le> fd) (concat (px_pbs m))"

lemma perf_add_wf: "perf_wf m \<Longrightarrow> perf_wf (snd (perf_evmux_add ctl fd pb m))"
  by (auto simp: perf_evmux_add_def perf_wf_def dest: register_ok split: sum.splits)

text \<open>C35: Whatever sources are added, with whatever errors, the perf consumer never holds more than 16, waits on exactly
  the online CPUs of the sources it holds, and a failed addition changes nothing. With either back-end a sequence of
  polls hands every record the transport gave out to the callback exactly once and in order.\<close>

theorem event_consumer_delivers:
  "perf_wf (fold (\<lambda>(ctl, fd, pb) m. snd (perf_evmux_add ctl fd pb m)) adds \<lparr> px_pbs = [], px_epoll = [] \<rparr>)
   \<and> (fst (perf_evmux_add ctl fd pb m) = 0 \<or> snd (perf_evmux_add ctl fd pb m) = m)
   \<and> fst (perf.polls f m envs c) = fold f (concat (map (perf_out m) envs)) c
   \<and> fst (rb.polls f m' envs' c) = fold f (concat (map (rb_out m') envs')) c"
proof (intro conjI)
  have "perf_wf m0 \<Longrightarrow> perf_wf (fold (\<lambda>(ctl, fd, pb) m. snd (perf_evmux_add ctl fd pb m)) adds m0)" for m0
    by (induction adds arbitrary: m0) (auto simp: perf_add_wf)
  then show "perf_wf (fold (\<lambda>(ctl, fd, pb) m. snd (perf_evmux_add ctl fd pb m)) adds \<lparr> px_pbs = [], px_epoll = [] \<rparr>)"
    by (simp add: perf_wf_def)
  show "fst (perf_evmux_add ctl fd pb m) = 0 \<or> snd (perf_evmux_add ctl fd pb m) = m"
    by (auto simp: perf_evmux_add_def EINVAL_def ENOSPC_def split: sum.splits)
qed (rule perf.polls_ctx rb.polls_ctx)+

end
