(* ===== verification/Bpf_Core.thy ===== *)
theory Bpf_Core
  imports Ut_Wire Diag_Model
begin

text \<open>
  What the kernel-side programs share: \<open>include/usbtrace/pt_regs.bpf.h\<close> (pointer arguments and
  return values on 32-bit and 64-bit targets), \<open>include/usbtrace/filter.bpf.h\<close> (the device filter),
  \<open>include/usbtrace/class_urb.bpf.h\<close> (the record of a class driver's completion), and the two things the
  programs use of the kernel: its memory and the BPF hash maps.

  Kernel memory is a parameter: \<open>bpf_env\<close> holds, for one program run, the clock, the current task, and
  what a read of a \<open>struct usb_device\<close> or \<open>struct urb\<close> at an address yields; the records list the members
  the programs read. A failed read of a member yields zero, which is one of the possible values, and a failed
  \<open>bpf_probe_read_kernel\<close> is \<open>None\<close>. A program run returns the records it submits; the transport may
  drop them.

  A hash map is a partial function. An update of a present key stores; an update of a new key stores
  when the map has room, and leaves the map alone otherwise: \<open>en_room\<close> tells it for the name of the map
  and the new key.
\<close>

section \<open>Kernel data the programs read\<close>

record usb_device =
  ud_id_vendor :: u16
  ud_id_product :: u16
  ud_busnum :: u32
  ud_devnum :: u32
  ud_state :: u32
  ud_speed :: u32
  ud_portnum :: u8
  ud_reset_resume :: u8
  ud_devpath :: "u8 list"

record usb_iso_packet_descriptor =
  d_offset :: u32
  d_actual_length :: u32
  d_status :: s32

record urb =
  urb_dev :: u64
  urb_pipe :: u32
  urb_status :: s32
  urb_error_count :: s32
  urb_number_of_packets :: s32
  urb_actual_length :: u32
  urb_transfer_buffer_length :: u32
  urb_start_frame :: s32
  urb_transfer_buffer :: u64
  urb_setup_packet :: u64
  urb_iso_frame_desc :: "nat \<Rightarrow> usb_iso_packet_descriptor option"

record bpf_env =
  en_arch32 :: bool
  en_ktime :: u64
  en_pid_tgid :: u64
  en_comm :: "u8 list"
  en_room :: "string \<Rightarrow> u64 \<Rightarrow> bool"
  en_usb_device :: "u64 \<Rightarrow> usb_device"
  en_urb :: "u64 \<Rightarrow> urb"
  en_probe_read :: "u64 \<Rightarrow> nat \<Rightarrow> u8 list option"

definition env_pid :: "'x bpf_env_scheme \<Rightarrow> u32" where
  "env_pid en = ucast (drop_bit 32 (en_pid_tgid en))"

section \<open>Hash maps\<close>

definition bpf_map_update_elem :: "bool \<Rightarrow> 'k \<Rightarrow> 'v \<Rightarrow> ('k \<rightharpoonup> 'v) \<Rightarrow> ('k \<rightharpoonup> 'v)" where
  "bpf_map_update_elem room k v m = (if room \<or> m k \<noteq> None then m(k \<mapsto> v) else m)"

definition bpf_map_delete_elem :: "'k \<Rightarrow> ('k \<rightharpoonup> 'v) \<Rightarrow> ('k \<rightharpoonup> 'v)" where
  "bpf_map_delete_elem k m = m(k := None)"

lemma update_room [simp]: "bpf_map_update_elem True k v m = m(k \<mapsto> v)"
  by (simp add: bpf_map_update_elem_def)

lemma update_other [simp]: "k' \<noteq> k \<Longrightarrow> bpf_map_update_elem room k v m k' = m k'"
  by (simp add: bpf_map_update_elem_def)

lemma update_present: "m k = Some w \<Longrightarrow> bpf_map_update_elem room k v m = m(k \<mapsto> v)"
  by (simp add: bpf_map_update_elem_def)

section \<open>Arguments and return values (pt_regs.bpf.h)\<close>

text \<open>\<open>arch32\<close>: built for arm or i386, where registers are read as 32-bit slots.\<close>

definition USBTRACE_PTR_KEY :: "bool \<Rightarrow> u64 \<Rightarrow> u64" where
  "USBTRACE_PTR_KEY arch32 p = (if arch32 then ucast (ucast p :: u32) else p)"

definition USBTRACE_KPTR :: "bool \<Rightarrow> u64 \<Rightarrow> u64" where
  "USBTRACE_KPTR arch32 p = USBTRACE_PTR_KEY arch32 p"

definition usbtrace_kret_sx :: "bool \<Rightarrow> u64 \<Rightarrow> u64" where
  "usbtrace_kret_sx arch32 rc = (if arch32 then scast (ucast rc :: s32) else rc)"

definition usbtrace_kret_int :: "bool \<Rightarrow> u64 \<Rightarrow> s32" where
  "usbtrace_kret_int arch32 rc = ucast (usbtrace_kret_sx arch32 rc)"

definition usbtrace_kret_ptr_or_int :: "bool \<Rightarrow> u64 \<Rightarrow> s32" where
  "usbtrace_kret_ptr_or_int arch32 rc =
     (let v = usbtrace_kret_sx arch32 rc in
      if v \<ge> - 4095 then ucast v
      else if v < 4096 then ucast v
      else 0)"

section \<open>The device filter (filter.bpf.h)\<close>

definition usbtrace_dev_match :: "usb_device \<Rightarrow> u16 \<Rightarrow> u16 \<Rightarrow> (u16 \<times> u16) option" where
  "usbtrace_dev_match dev fvid fpid =
     (let vid = ud_id_vendor dev; pid = ud_id_product dev in
      if fvid \<noteq> 0 \<and> vid \<noteq> fvid then None
      else if fpid \<noteq> 0 \<and> pid \<noteq> fpid then None
      else Some (vid, pid))"

lemma dev_match_Some:
  "usbtrace_dev_match dev fvid fpid = Some (vid, pid) \<longleftrightarrow>
     vid = ud_id_vendor dev \<and> pid = ud_id_product dev \<and> (fvid = 0 \<or> vid = fvid) \<and> (fpid = 0 \<or> pid = fpid)"
  by (auto simp: usbtrace_dev_match_def Let_def)

section \<open>Pipes and the class record (class_urb.bpf.h)\<close>

definition pipe_endpoint :: "u32 \<Rightarrow> u8" where
  "pipe_endpoint pipe = ucast (drop_bit 15 pipe AND 0xf)"

definition pipe_is_in :: "u32 \<Rightarrow> u8" where
  "pipe_is_in pipe = (if pipe AND 0x80 \<noteq> 0 then 1 else 0)"

definition pipe_type :: "u32 \<Rightarrow> u8" where
  "pipe_type pipe = ucast (drop_bit 30 pipe AND 0x3)"

definition usbtrace_class_urb_emit :: "'x bpf_env_scheme \<Rightarrow> u64 \<Rightarrow> u16 \<Rightarrow> u16 \<Rightarrow> u8 \<Rightarrow> class_urb_event list" where
  "usbtrace_class_urb_emit en urbp0 fvid fpid klass =
     (let urbp = USBTRACE_KPTR (en_arch32 en) urbp0 in
      if urbp = 0 then []
      else
        let u = en_urb en urbp; dev = en_usb_device en (urb_dev u) in
        case usbtrace_dev_match dev fvid fpid of
          None \<Rightarrow> []
        | Some (vid, pid) \<Rightarrow>
            [\<lparr> ce_hdr = \<lparr> h_kind = USBTRACE_EVT_CLASS, h_size = 72, h_ts_ns = en_ktime en \<rparr>,
               ce_status = urb_status u, ce_error_count = urb_error_count u,
               ce_number_of_packets = urb_number_of_packets u, ce_actual_length = urb_actual_length u,
               ce_start_frame = urb_start_frame u, ce_pid = env_pid en, ce_vid = vid, ce_product = pid,
               ce_busnum = ucast (ud_busnum dev), ce_devnum = ucast (ud_devnum dev), ce_klass = klass,
               ce_ep = pipe_endpoint (urb_pipe u), ce_dir_in = pipe_is_in (urb_pipe u),
               ce_xfer_type = pipe_type (urb_pipe u), ce_comm = en_comm en \<rparr>])"

end
