(* ===== verification/Uvc_Vb2.thy ===== *)
theory Uvc_Vb2
  imports Bpf_Core
begin

text \<open>
  The videobuf2 layer of \<open>modules/uvc/uvc.bpf.c\<close>: the maps of the program, the correlation of wire
  frames with buffer completions, the state kept per queue, and the handlers of the vb2 tracepoints.
  Addresses are \<open>u64\<close>; the members read at an address and the BTF offsets come with the environment.
\<close>

section \<open>Kernel data\<close>

record vb2_queue =
  vq_drv_priv :: u64
  vq_num_buffers :: u32
  vq_queued_count :: u32
  vq_owned_by_drv_count :: s32

record vb2_buffer =
  vb_vb2_queue :: u64
  vb_index :: u32
  vb_type :: u32
  vb_timestamp :: u64
  vb_bytesused :: u32 \<comment> \<open>\<open>planes[0].bytesused\<close>\<close>

record uvc_env = bpf_env +
  ux_vb2_queue :: "u64 \<Rightarrow> vb2_queue"
  ux_vb2_buffer :: "u64 \<Rightarrow> vb2_buffer"
  ux_off_vb2_buf :: u64 \<comment> \<open>offset of \<open>vb2_buf\<close> in \<open>struct vb2_v4l2_buffer\<close>\<close>
  ux_v4l2_sequence :: "u64 \<Rightarrow> u32"
  ux_frame_ktime :: u64 \<comment> \<open>the clock when \<open>uvc_parse_frames\<close> reads it\<close>

definition VB2_BUF_STATE_DEQUEUED :: u8 where [ut_const]: "VB2_BUF_STATE_DEQUEUED = 0"
definition VB2_BUF_STATE_QUEUED :: u8 where [ut_const]: "VB2_BUF_STATE_QUEUED = 3"
definition VB2_BUF_STATE_ACTIVE :: u8 where [ut_const]: "VB2_BUF_STATE_ACTIVE = 4"
definition VB2_BUF_STATE_DONE :: u8 where [ut_const]: "VB2_BUF_STATE_DONE = 5"
definition VB2_TYPE_VIDEO_CAPTURE :: u32 where [ut_const]: "VB2_TYPE_VIDEO_CAPTURE = 1"
definition VB2_TYPE_VIDEO_CAPTURE_MPLANE :: u32 where [ut_const]: "VB2_TYPE_VIDEO_CAPTURE_MPLANE = 9"
definition UVC_VB2_DONE :: u8 where [ut_const]: "UVC_VB2_DONE = 0"
definition UVC_VB2_QUEUE :: u8 where [ut_const]: "UVC_VB2_QUEUE = 1"
definition UVC_VB2_QBUF :: u8 where [ut_const]: "UVC_VB2_QBUF = 2"
definition UVC_VB2_DQBUF :: u8 where [ut_const]: "UVC_VB2_DQBUF = 3"
definition UVC_VB2_STARVED :: u8 where [ut_const]: "UVC_VB2_STARVED = 4"
definition VB2_MIN_BYTES :: u32 where [ut_const]: "VB2_MIN_BYTES = 100000"
definition VB2_MAX_BYTES :: u32 where [ut_const]: "VB2_MAX_BYTES = 32 * 1024 * 1024"
definition VB2_STARVE_COOLDOWN_NS :: u64 where [ut_const]: "VB2_STARVE_COOLDOWN_NS = 100000000"
definition WIRE_VB2_MAX_NS :: u64 where [ut_const]: "WIRE_VB2_MAX_NS = 100000000"

section \<open>Program state\<close>

record uvc_config =
  uc_filter_vid :: u16
  uc_filter_pid :: u16
  uc_no_frames :: u8
  uc_no_vb2 :: u8
  uc_fps_target :: u32

text \<open>Per-stream (bus,dev,ep) frame-assembly state.\<close>

record uvc_stream_state =
  ss_frame_start_ts :: u64
  ss_last_frame_end_ts :: u64
  ss_cur_bytes :: u32
  ss_cur_packets :: u32
  ss_cur_err_packets :: u32
  ss_cur_pts :: u32
  ss_cur_scr_stc :: u32
  ss_cur_scr_sof :: u16
  ss_cur_fid :: u8
  ss_have_fid :: bool
  ss_saw_err :: bool
  ss_active :: bool

record vb2_qstate =
  qs_done_count :: u32
  qs_last_done_ns :: u64
  qs_last_starve_ns :: u64
  qs_last_sequence :: u32
  qs_have_last_seq :: bool

record stream_corr =
  sc_last_wire_done_ns :: u64
  sc_last_wire_bytes :: u32
  sc_vid :: u16
  sc_pid :: u16
  sc_busnum :: u16
  sc_devnum :: u16

record uvc_maps =
  um_streams :: "u32 \<rightharpoonup> uvc_stream_state"
  um_stream_corr :: "u32 \<rightharpoonup> stream_corr"
  um_vb2_dev_queue :: "u32 \<rightharpoonup> u64"
  um_vb2_queues :: "u64 \<rightharpoonup> vb2_qstate"
  um_drv_drop_cause :: "u64 \<rightharpoonup> u8"

definition uvc_maps0 :: uvc_maps where
  "uvc_maps0 = \<lparr> um_streams = Map.empty, um_stream_corr = Map.empty, um_vb2_dev_queue = Map.empty,
     um_vb2_queues = Map.empty, um_drv_drop_cause = Map.empty \<rparr>"

datatype uvc_out =
    ClassRec class_urb_event
  | FrameRec uvc_frame_event
  | Vb2Rec uvc_vb2_event
  | DrvRec uvc_drv_event

section \<open>Helpers\<close>

text \<open>The sequence number of a buffer; \<open>None\<close> when the kernel's types do not give it.\<close>

definition vb2_kernel_sequence :: "'x uvc_env_scheme \<Rightarrow> u64 \<Rightarrow> u32 option" where
  "vb2_kernel_sequence en b =
     (if b = 0 then None
      else let off = ux_off_vb2_buf en in
        if sint off < 0 then None else Some (ux_v4l2_sequence en (b - off)))"

definition vb2_seq_gap :: "u32 \<Rightarrow> u32 \<Rightarrow> u8" where
  "vb2_seq_gap prev cur =
     (if cur = prev then 0
      else let expected = (if prev = 0xffffffff then 0 else prev + 1) in
        if cur \<noteq> expected then 1 else 0)"

definition uvc_wire_to_vb2_ns :: "uvc_maps \<Rightarrow> u64 \<Rightarrow> u32 \<Rightarrow> u32" where
  "uvc_wire_to_vb2_ns ms now bytesused =
     (case um_stream_corr ms 0 of
        None \<Rightarrow> 0
      | Some corr \<Rightarrow>
          if sc_last_wire_done_ns corr = 0 \<or> bytesused = 0 then 0
          else if bytesused \<noteq> sc_last_wire_bytes corr then 0
          else let delta = now - sc_last_wire_done_ns corr in
            if delta > WIRE_VB2_MAX_NS then 0 else ucast delta)"

text \<open>The zeroed entry is inserted first and filled in through the pointer the lookup returns.\<close>

definition uvc_corr_store ::
  "'x uvc_env_scheme \<Rightarrow> u32 \<Rightarrow> u16 \<Rightarrow> u16 \<Rightarrow> u16 \<Rightarrow> u16 \<Rightarrow> u32 \<Rightarrow> u64 \<Rightarrow> uvc_maps \<Rightarrow> uvc_maps" where
  "uvc_corr_store en key vid pid bus devnum bytes now ms =
     (let init = \<lparr> sc_last_wire_done_ns = 0, sc_last_wire_bytes = 0, sc_vid = 0, sc_pid = 0, sc_busnum = 0,
                   sc_devnum = 0 \<rparr>;
          m = bpf_map_update_elem (en_room en ''stream_corr'' (ucast key)) key init (um_stream_corr ms)
      in case m key of
           None \<Rightarrow> ms\<lparr> um_stream_corr := m \<rparr>
         | Some c \<Rightarrow>
             ms\<lparr> um_stream_corr := m(key \<mapsto> c\<lparr> sc_last_wire_done_ns := now, sc_last_wire_bytes := bytes,
                   sc_vid := vid, sc_pid := pid, sc_busnum := bus, sc_devnum := devnum \<rparr>) \<rparr>)"

definition dev_key :: "u16 \<Rightarrow> u16 \<Rightarrow> u32" where
  "dev_key bus devnum = push_bit 16 (ucast bus) OR ucast devnum"

definition uvc_note_wire_frame ::
  "'x uvc_env_scheme \<Rightarrow> u16 \<Rightarrow> u16 \<Rightarrow> u16 \<Rightarrow> u16 \<Rightarrow> u32 \<Rightarrow> u64 \<Rightarrow> uvc_maps \<Rightarrow> uvc_maps" where
  "uvc_note_wire_frame en bus devnum vid pid bytes now ms =
     uvc_corr_store en (dev_key bus devnum) vid pid bus devnum bytes now
       (uvc_corr_store en 0 vid pid bus devnum bytes now ms)"

definition vb2_is_capture :: "'x uvc_env_scheme \<Rightarrow> u64 \<Rightarrow> bool" where
  "vb2_is_capture en b =
     (if b = 0 then False
      else let t = vb_type (ux_vb2_buffer en b) in
        t = VB2_TYPE_VIDEO_CAPTURE \<or> t = VB2_TYPE_VIDEO_CAPTURE_MPLANE)"

definition vb2_read_pool :: "'x uvc_env_scheme \<Rightarrow> u64 \<Rightarrow> u16 \<times> u16 \<times> u16" where
  "vb2_read_pool en q =
     (if q = 0 then (0, 0, 0)
      else let v = ux_vb2_queue en q in
        (ucast (vq_num_buffers v), ucast (vq_queued_count v), ucast (vq_owned_by_drv_count v)))"

text \<open>The state of a queue, inserted zeroed when absent; \<open>None\<close> when the map is full.\<close>

definition qstate0 :: vb2_qstate where
  "qstate0 = \<lparr> qs_done_count = 0, qs_last_done_ns = 0, qs_last_starve_ns = 0, qs_last_sequence = 0,
     qs_have_last_seq = False \<rparr>"

definition uvc_vb2_qstate :: "'x uvc_env_scheme \<Rightarrow> u64 \<Rightarrow> uvc_maps \<Rightarrow> uvc_maps \<times> vb2_qstate option" where
  "uvc_vb2_qstate en key ms =
     (case um_vb2_queues ms key of
        Some st \<Rightarrow> (ms, Some st)
      | None \<Rightarrow>
          let m = bpf_map_update_elem (en_room en ''vb2_queues'' key) key qstate0 (um_vb2_queues ms)
          in (ms\<lparr> um_vb2_queues := m \<rparr>, m key))"

text \<open>A write through the pointer to a queue's entry.\<close>

definition put_qstate :: "u64 \<Rightarrow> vb2_qstate \<Rightarrow> uvc_maps \<Rightarrow> uvc_maps" where
  "put_qstate key st ms = ms\<lparr> um_vb2_queues := (um_vb2_queues ms)(key \<mapsto> st) \<rparr>"

section \<open>Submitting a vb2 record\<close>

text \<open>The device the latest wire frame came from, when that is recent.\<close>

definition uvc_vb2_fill_device :: "uvc_maps \<Rightarrow> u64 \<Rightarrow> uvc_vb2_event \<Rightarrow> uvc_vb2_event" where
  "uvc_vb2_fill_device ms now ve =
     (case um_stream_corr ms 0 of
        None \<Rightarrow> ve
      | Some corr \<Rightarrow>
          if sc_last_wire_done_ns corr = 0 then ve
          else if now - sc_last_wire_done_ns corr > WIRE_VB2_MAX_NS then ve
          else ve\<lparr> ve_vid := sc_vid corr, ve_product := sc_pid corr, ve_busnum := sc_busnum corr,
                   ve_devnum := sc_devnum corr \<rparr>)"

definition uvc_vb2_bind_dev :: "'x uvc_env_scheme \<Rightarrow> u64 \<Rightarrow> u16 \<Rightarrow> u16 \<Rightarrow> uvc_maps \<Rightarrow> uvc_maps" where
  "uvc_vb2_bind_dev en q bus dev ms =
     (if bus = 0 \<and> dev = 0 then ms
      else ms\<lparr> um_vb2_dev_queue :=
             bpf_map_update_elem (en_room en ''vb2_dev_queue'' (ucast (dev_key bus dev))) (dev_key bus dev) q
               (um_vb2_dev_queue ms) \<rparr>)"

definition vb2_record ::
  "'x uvc_env_scheme \<Rightarrow> u64 \<Rightarrow> u64 \<Rightarrow> u8 \<Rightarrow> u8 \<Rightarrow> u8 \<Rightarrow> u64 \<Rightarrow> u32 \<Rightarrow> u8 \<Rightarrow> u32 \<Rightarrow> u32 \<Rightarrow> uvc_vb2_event" where
  "vb2_record en q b op state starved now seq seq_gap interval wire_to_vb2 =
     (let (nb, qu, drv) = vb2_read_pool en q; v = ux_vb2_buffer en b in
      \<lparr> ve_hdr = \<lparr> h_kind = USBTRACE_EVT_UVC_VB2, h_size = 80, h_ts_ns = now \<rparr>,
        ve_sequence = seq, ve_bytesused = (if b \<noteq> 0 then vb_bytesused v else 0),
        ve_vb2_timestamp = (if b \<noteq> 0 then vb_timestamp v else 0), ve_state = state,
        ve_interval_ns = interval, ve_buf_index = (if b \<noteq> 0 then ucast (vb_index v) else 0),
        ve_seq_gap = seq_gap, ve_vb2_op = op, ve_starved = starved, ve_num_buffers = nb, ve_queued = qu,
        ve_drv_owned = drv, ve_wire_to_vb2_ns = wire_to_vb2, ve_vid = 0, ve_product = 0, ve_busnum = 0,
        ve_devnum = 0, ve_comm = en_comm en \<rparr>)"

definition uvc_vb2_submit ::
  "'x uvc_env_scheme \<Rightarrow> u64 \<Rightarrow> u64 \<Rightarrow> u8 \<Rightarrow> u8 \<Rightarrow> u8 \<Rightarrow> u64 \<Rightarrow> u32 \<Rightarrow> u8 \<Rightarrow> u32 \<Rightarrow> u32 \<Rightarrow> uvc_maps
   \<Rightarrow> uvc_maps \<times> uvc_out list" where
  "uvc_vb2_submit en q b op state starved now seq seq_gap interval wire_to_vb2 ms =
     (let ve = uvc_vb2_fill_device ms now (vb2_record en q b op state starved now seq seq_gap interval wire_to_vb2);
          ms' = (if ve_busnum ve \<noteq> 0 \<or> ve_devnum ve \<noteq> 0
                 then uvc_vb2_bind_dev en q (ve_busnum ve) (ve_devnum ve) ms else ms)
      in (ms', [Vb2Rec ve]))"

section \<open>Starvation and completion\<close>

definition uvc_check_starvation ::
  "'x uvc_env_scheme \<Rightarrow> u16 \<Rightarrow> u16 \<Rightarrow> u64 \<Rightarrow> uvc_maps \<Rightarrow> uvc_maps \<times> uvc_out list" where
  "uvc_check_starvation en bus dev now ms =
     (if bus = 0 \<and> dev = 0 then (ms, [])
      else case um_vb2_dev_queue ms (dev_key bus dev) of
        None \<Rightarrow> (ms, [])
      | Some q \<Rightarrow>
          if q = 0 then (ms, [])
          else
            let (nb, qu, drv) = vb2_read_pool en q in
            if qu > 0 then (ms, [])
            else case uvc_vb2_qstate en q ms of
              (ms1, None) \<Rightarrow> (ms1, [])
            | (ms1, Some st) \<Rightarrow>
                if qs_last_starve_ns st \<noteq> 0 \<and> now - qs_last_starve_ns st < VB2_STARVE_COOLDOWN_NS
                then (ms1, [])
                else uvc_vb2_submit en q 0 UVC_VB2_STARVED 0 1 now 0 0 0 0
                       (put_qstate q (st\<lparr> qs_last_starve_ns := now \<rparr>) ms1))"

text \<open>The sequence, the gap flag and the interval of a completion, and the queue's state after it.\<close>

definition vb2_done_step ::
  "'x uvc_env_scheme \<Rightarrow> u64 \<Rightarrow> u64 \<Rightarrow> vb2_qstate \<Rightarrow> vb2_qstate \<times> u32 \<times> u8 \<times> u32" where
  "vb2_done_step en b now st =
     (let st1 = st\<lparr> qs_done_count := qs_done_count st + 1 \<rparr>;
          (st2, seq, gap) =
            (case vb2_kernel_sequence en b of
               Some s \<Rightarrow> (st1\<lparr> qs_last_sequence := s, qs_have_last_seq := True \<rparr>, s,
                          if qs_have_last_seq st1 then vb2_seq_gap (qs_last_sequence st1) s else 0)
             | None \<Rightarrow> (st1, qs_done_count st1, 0));
          interval = (if qs_last_done_ns st2 \<noteq> 0 then ucast (now - qs_last_done_ns st2) else 0)
      in (st2\<lparr> qs_last_done_ns := now \<rparr>, seq, gap, interval))"

definition uvc_emit_vb2_done :: "'x uvc_env_scheme \<Rightarrow> u64 \<Rightarrow> u8 \<Rightarrow> uvc_maps \<Rightarrow> uvc_maps \<times> uvc_out list" where
  "uvc_emit_vb2_done en b state ms =
     (if state \<noteq> VB2_BUF_STATE_DONE then (ms, [])
      else
        let bytesused = vb_bytesused (ux_vb2_buffer en b) in
        if bytesused \<noteq> 0 \<and> (bytesused < VB2_MIN_BYTES \<or> bytesused > VB2_MAX_BYTES) then (ms, [])
        else
          let q = vb_vb2_queue (ux_vb2_buffer en b) in
          if q = 0 then (ms, [])
          else case uvc_vb2_qstate en q ms of
            (ms1, None) \<Rightarrow> (ms1, [])
          | (ms1, Some st) \<Rightarrow>
              let now = en_ktime en;
                  (st', seq, gap, interval) = vb2_done_step en b now st;
                  ms2 = put_qstate q st' ms1;
                  wire = uvc_wire_to_vb2_ns ms2 now bytesused
              in uvc_vb2_submit en q b UVC_VB2_DONE state 0 now seq gap interval wire ms2)"

definition uvc_emit_vb2_xact ::
  "'x uvc_env_scheme \<Rightarrow> u64 \<Rightarrow> u64 \<Rightarrow> u8 \<Rightarrow> u8 \<Rightarrow> uvc_maps \<Rightarrow> uvc_maps \<times> uvc_out list" where
  "uvc_emit_vb2_xact en q b op state ms =
     (let now = en_ktime en in
      if q = 0 \<or> b = 0 \<or> \<not> vb2_is_capture en b then (ms, [])
      else uvc_vb2_submit en q b op state 0 now 0 0 0 0 ms)"

section \<open>Tracepoints\<close>

text \<open>The two arguments of a vb2 tracepoint: queue and buffer.\<close>

definition uvc_vb2_raw_done :: "uvc_config \<Rightarrow> 'x uvc_env_scheme \<Rightarrow> u64 \<Rightarrow> uvc_maps \<Rightarrow> uvc_maps \<times> uvc_out list" where
  "uvc_vb2_raw_done cfg en arg1 ms =
     (if uc_no_vb2 cfg \<noteq> 0 then (ms, [])
      else if arg1 = 0 then (ms, [])
      else uvc_emit_vb2_done en arg1 VB2_BUF_STATE_DONE ms)"

definition uvc_vb2_raw_qvb ::
  "uvc_config \<Rightarrow> 'x uvc_env_scheme \<Rightarrow> u64 \<Rightarrow> u64 \<Rightarrow> u8 \<Rightarrow> u8 \<Rightarrow> uvc_maps \<Rightarrow> uvc_maps \<times> uvc_out list" where
  "uvc_vb2_raw_qvb cfg en arg0 arg1 op state ms =
     (if uc_no_vb2 cfg \<noteq> 0 then (ms, [])
      else if arg0 = 0 \<or> arg1 = 0 then (ms, [])
      else uvc_emit_vb2_xact en arg0 arg1 op state ms)"

datatype vb2_tracepoint = Raw_vb2_buf_done | Raw_vb2_v4l2_buf_done | Raw_vb2_buf_queue | Raw_vb2_qbuf | Raw_vb2_dqbuf

fun vb2_tracepoint_hit ::
  "vb2_tracepoint \<Rightarrow> uvc_config \<Rightarrow> 'x uvc_env_scheme \<Rightarrow> u64 \<Rightarrow> u64 \<Rightarrow> uvc_maps \<Rightarrow> uvc_maps \<times> uvc_out list" where
  "vb2_tracepoint_hit Raw_vb2_buf_done cfg en q b ms = uvc_vb2_raw_done cfg en b ms"
| "vb2_tracepoint_hit Raw_vb2_v4l2_buf_done cfg en q b ms = uvc_vb2_raw_done cfg en b ms"
| "vb2_tracepoint_hit Raw_vb2_buf_queue cfg en q b ms =
     uvc_vb2_raw_qvb cfg en q b UVC_VB2_QUEUE VB2_BUF_STATE_ACTIVE ms"
| "vb2_tracepoint_hit Raw_vb2_qbuf cfg en q b ms =
     uvc_vb2_raw_qvb cfg en q b UVC_VB2_QBUF VB2_BUF_STATE_QUEUED ms"
| "vb2_tracepoint_hit Raw_vb2_dqbuf cfg en q b ms =
     uvc_vb2_raw_qvb cfg en q b UVC_VB2_DQBUF VB2_BUF_STATE_DEQUEUED ms"

end
