(* ===== verification/Uvc_Frames.thy ===== *)
theory Uvc_Frames
  imports Uvc_Vb2
begin

text \<open>
  Frame reconstruction of \<open>modules/uvc/uvc.bpf.c\<close>: \<open>uvc_parse_frames\<close> walks the isochronous packets of
  a completed URB, reads the UVC payload header of each and assembles video frames per stream;
  \<open>uvc_emit_frame\<close> submits a frame, notes it for the vb2 layer and resets the assembly state;
  \<open>on_video_complete\<close> is the program.
\<close>

definition UVC_MAX_ISOC_PKTS :: nat where "UVC_MAX_ISOC_PKTS = 32"
definition UVC_FID :: u8 where [ut_const]: "UVC_FID = 0x01"
definition UVC_EOF :: u8 where [ut_const]: "UVC_EOF = 0x02"
definition UVC_PTS :: u8 where [ut_const]: "UVC_PTS = 0x04"
definition UVC_SCR :: u8 where [ut_const]: "UVC_SCR = 0x08"
definition UVC_ERR :: u8 where [ut_const]: "UVC_ERR = 0x40"
definition USBTRACE_CLASS_VIDEO :: u8 where [ut_const]: "USBTRACE_CLASS_VIDEO = 0"

definition uvc_load_le32 :: "u8 list \<Rightarrow> nat \<Rightarrow> u32" where
  "uvc_load_le32 p i =
     ucast (p ! i) OR push_bit 8 (ucast (p ! (i + 1))) OR push_bit 16 (ucast (p ! (i + 2)))
       OR push_bit 24 (ucast (p ! (i + 3)))"

definition uvc_load_le16 :: "u8 list \<Rightarrow> nat \<Rightarrow> u16" where
  "uvc_load_le16 p i = ucast (p ! i) OR push_bit 8 (ucast (p ! (i + 1)))"

definition stream0 :: uvc_stream_state where
  "stream0 = \<lparr> ss_frame_start_ts = 0, ss_last_frame_end_ts = 0, ss_cur_bytes = 0, ss_cur_packets = 0,
     ss_cur_err_packets = 0, ss_cur_pts = 0, ss_cur_scr_stc = 0, ss_cur_scr_sof = 0, ss_cur_fid = 0,
     ss_have_fid = False, ss_saw_err = False, ss_active = False \<rparr>"

text \<open>The device and endpoint a URB belongs to, as \<open>uvc_parse_frames\<close> reads them.\<close>

record uvc_ids =
  ui_vid :: u16
  ui_pid :: u16
  ui_bus :: u16
  ui_dev :: u16
  ui_ep :: u8

definition frame_record :: "'x uvc_env_scheme \<Rightarrow> uvc_ids \<Rightarrow> bool \<Rightarrow> u64 \<Rightarrow> uvc_stream_state \<Rightarrow> uvc_frame_event" where
  "frame_record en ids eof now st =
     \<lparr> fe_hdr = \<lparr> h_kind = USBTRACE_EVT_UVC_FRAME, h_size = 80, h_ts_ns = now \<rparr>,
       fe_bytes = ss_cur_bytes st, fe_packets = ss_cur_packets st, fe_err_packets = ss_cur_err_packets st,
       fe_duration_ns = ucast (now - ss_frame_start_ts st),
       fe_interval_ns = (if ss_last_frame_end_ts st \<noteq> 0 then ucast (now - ss_last_frame_end_ts st) else 0),
       fe_pts = ss_cur_pts st, fe_scr_stc = ss_cur_scr_stc st, fe_scr_sof = ss_cur_scr_sof st,
       fe_vid = ui_vid ids, fe_product = ui_pid ids, fe_busnum = ui_bus ids, fe_devnum = ui_dev ids,
       fe_ep = ui_ep ids, fe_errored = (if \<not> eof \<or> ss_saw_err st then 1 else 0),
       fe_eof = (if eof then 1 else 0), fe_fid = ss_cur_fid st, fe_comm = en_comm en \<rparr>"

definition reset_stream :: "u64 \<Rightarrow> uvc_stream_state \<Rightarrow> uvc_stream_state" where
  "reset_stream now st =
     st\<lparr> ss_last_frame_end_ts := now, ss_cur_bytes := 0, ss_cur_packets := 0, ss_cur_err_packets := 0,
         ss_cur_pts := 0, ss_cur_scr_stc := 0, ss_cur_scr_sof := 0, ss_saw_err := False, ss_active := False \<rparr>"

definition uvc_emit_frame ::
  "'x uvc_env_scheme \<Rightarrow> uvc_ids \<Rightarrow> bool \<Rightarrow> u64 \<Rightarrow> uvc_stream_state \<times> uvc_maps \<times> uvc_out list
   \<Rightarrow> uvc_stream_state \<times> uvc_maps \<times> uvc_out list" where
  "uvc_emit_frame en ids eof now = (\<lambda>(st, ms, out).
     let ms1 = uvc_note_wire_frame en (ui_bus ids) (ui_dev ids) (ui_vid ids) (ui_pid ids) (ss_cur_bytes st) now ms;
         (ms2, out2) = uvc_check_starvation en (ui_bus ids) (ui_dev ids) now ms1
     in (reset_stream now st, ms2, out @ [FrameRec (frame_record en ids eof now st)] @ out2))"

text \<open>\<open>bpf_probe_read_kernel\<close> into the zeroed 12-byte header: what is read comes first.\<close>

definition read_hdr :: "'x uvc_env_scheme \<Rightarrow> u64 \<Rightarrow> nat \<Rightarrow> u8 list option" where
  "read_hdr en addr n =
     (case en_probe_read en addr n of
        None \<Rightarrow> None
      | Some bs \<Rightarrow> Some (take 12 (bs @ replicate 12 0)))"

text \<open>The payload header of a packet: \<open>None\<close> for an empty packet, one outside the buffer, an unreadable or
  a malformed one.\<close>

definition packet_header :: "'x uvc_env_scheme \<Rightarrow> u64 \<Rightarrow> u32 \<Rightarrow> usb_iso_packet_descriptor \<Rightarrow> u8 list option" where
  "packet_header en tbuf tblen d =
     (if d_actual_length d = 0 then None
      else let off = d_offset d in
        if off + 2 > tblen then None
        else case read_hdr en (tbuf + ucast off) (if off + 12 \<le> tblen then 12 else 2) of
          None \<Rightarrow> None
        | Some hdr \<Rightarrow>
            let hlen = hdr ! 0 in
            if hlen < 2 \<or> ucast hlen > d_actual_length d then None else Some hdr)"

definition open_frame :: "u8 \<Rightarrow> u64 \<Rightarrow> uvc_stream_state \<Rightarrow> uvc_stream_state" where
  "open_frame fid now st =
     st\<lparr> ss_active := True, ss_have_fid := True, ss_cur_fid := fid, ss_frame_start_ts := now \<rparr>"

definition add_payload :: "u8 list \<Rightarrow> u32 \<Rightarrow> uvc_stream_state \<Rightarrow> uvc_stream_state" where
  "add_payload hdr alen st =
     (let hlen = hdr ! 0; bfh = hdr ! 1; pbytes = alen - ucast hlen;
          st1 = st\<lparr> ss_cur_bytes := ss_cur_bytes st + pbytes, ss_cur_packets := ss_cur_packets st + 1 \<rparr>;
          st2 = (if bfh AND UVC_ERR \<noteq> 0 then st1\<lparr> ss_saw_err := True \<rparr> else st1);
          st3 = (if bfh AND UVC_PTS \<noteq> 0 \<and> hlen \<ge> 6 then st2\<lparr> ss_cur_pts := uvc_load_le32 hdr 2 \<rparr> else st2)
      in if bfh AND UVC_PTS \<noteq> 0 \<and> bfh AND UVC_SCR \<noteq> 0 \<and> hlen \<ge> 12
         then st3\<lparr> ss_cur_scr_stc := uvc_load_le32 hdr 6, ss_cur_scr_sof := uvc_load_le16 hdr 10 \<rparr>
         else st3)"

text \<open>The part of the loop after the header checks.\<close>

definition uvc_payload ::
  "'x uvc_env_scheme \<Rightarrow> uvc_ids \<Rightarrow> u64 \<Rightarrow> u8 list \<Rightarrow> u32
   \<Rightarrow> uvc_stream_state \<times> uvc_maps \<times> uvc_out list \<Rightarrow> uvc_stream_state \<times> uvc_maps \<times> uvc_out list" where
  "uvc_payload en ids now hdr alen = (\<lambda>(st, ms, out).
     let bfh = hdr ! 1; fid = bfh AND UVC_FID;
         (st1, ms1, out1) =
           (if \<not> ss_active st then (open_frame fid now st, ms, out)
            else if ss_have_fid st \<and> fid \<noteq> ss_cur_fid st then
              let (st', ms', out') = uvc_emit_frame en ids False now (st, ms, out)
              in (open_frame fid now st', ms', out')
            else (st, ms, out));
         s2 = (add_payload hdr alen st1, ms1, out1)
     in if bfh AND UVC_EOF \<noteq> 0 then uvc_emit_frame en ids True now s2 else s2)"

text \<open>One packet of the loop; \<open>None\<close>: its descriptor could not be read.\<close>

definition uvc_packet ::
  "'x uvc_env_scheme \<Rightarrow> uvc_ids \<Rightarrow> u64 \<Rightarrow> u64 \<Rightarrow> u32 \<Rightarrow> usb_iso_packet_descriptor option
   \<Rightarrow> uvc_stream_state \<times> uvc_maps \<times> uvc_out list \<Rightarrow> uvc_stream_state \<times> uvc_maps \<times> uvc_out list" where
  "uvc_packet en ids now tbuf tblen od = (\<lambda>(st0, ms, out).
     case od of
       None \<Rightarrow> (st0, ms, out)
     | Some d \<Rightarrow>
         let st = (if d_status d \<noteq> 0
                   then st0\<lparr> ss_saw_err := True, ss_cur_err_packets := ss_cur_err_packets st0 + 1 \<rparr>
                   else st0)
         in case packet_header en tbuf tblen d of
           None \<Rightarrow> (st, ms, out)
         | Some hdr \<Rightarrow> uvc_payload en ids now hdr (d_actual_length d) (st, ms, out))"

definition stream_key :: "u16 \<Rightarrow> u16 \<Rightarrow> u8 \<Rightarrow> u32" where
  "stream_key bus devnum ep = push_bit 16 (ucast bus) OR push_bit 8 (ucast devnum) OR ucast ep"

text \<open>The packet indices the loop visits: at most 32, and fewer than the URB has.\<close>

definition packet_range :: "s32 \<Rightarrow> nat list" where
  "packet_range npkts = takeWhile (\<lambda>i. int i < sint npkts) [0..<UVC_MAX_ISOC_PKTS]"

definition ids_key :: "uvc_ids \<Rightarrow> u32" where
  "ids_key ids = stream_key (ui_bus ids) (ui_dev ids) (ui_ep ids)"

text \<open>The stream of a URB; \<open>None\<close>: its device does not pass the filter.\<close>

definition urb_ids :: "uvc_config \<Rightarrow> 'x uvc_env_scheme \<Rightarrow> u64 \<Rightarrow> uvc_ids option" where
  "urb_ids cfg en urbp =
     (let u = en_urb en urbp; dev = en_usb_device en (urb_dev u) in
      map_option (\<lambda>(vid, pid). \<lparr> ui_vid = vid, ui_pid = pid, ui_bus = ucast (ud_busnum dev),
                                 ui_dev = ucast (ud_devnum dev), ui_ep = pipe_endpoint (urb_pipe u) \<rparr>)
        (usbtrace_dev_match dev (uc_filter_vid cfg) (uc_filter_pid cfg)))"

text \<open>The map with an entry for the stream, when there is room for one.\<close>

definition with_stream :: "'x uvc_env_scheme \<Rightarrow> u32 \<Rightarrow> (u32 \<rightharpoonup> uvc_stream_state) \<Rightarrow> (u32 \<rightharpoonup> uvc_stream_state)" where
  "with_stream en k m =
     (if m k = None then bpf_map_update_elem (en_room en ''streams'' (ucast k)) k stream0 m else m)"

definition uvc_parse_frames :: "uvc_config \<Rightarrow> 'x uvc_env_scheme \<Rightarrow> u64 \<Rightarrow> uvc_maps \<Rightarrow> uvc_maps \<times> uvc_out list" where
  "uvc_parse_frames cfg en urbp ms =
     (case urb_ids cfg en urbp of
        None \<Rightarrow> (ms, [])
      | Some ids \<Rightarrow>
          let u = en_urb en urbp; m = with_stream en (ids_key ids) (um_streams ms);
              ms1 = ms\<lparr> um_streams := m \<rparr> in
          case m (ids_key ids) of
            None \<Rightarrow> (ms1, [])
          | Some st \<Rightarrow>
              if urb_transfer_buffer u = 0 then (ms1, [])
              else let (st', ms', out) =
                     fold (\<lambda>i. uvc_packet en ids (ux_frame_ktime en) (urb_transfer_buffer u)
                                 (urb_transfer_buffer_length u) (urb_iso_frame_desc u i))
                       (packet_range (urb_number_of_packets u)) (st, ms1, [])
                   in (ms'\<lparr> um_streams := (um_streams ms')(ids_key ids \<mapsto> st') \<rparr>, out))"

definition on_video_complete :: "uvc_config \<Rightarrow> 'x uvc_env_scheme \<Rightarrow> u64 \<Rightarrow> uvc_maps \<Rightarrow> uvc_maps \<times> uvc_out list" where
  "on_video_complete cfg en arg1 ms =
     (let urbp = USBTRACE_KPTR (en_arch32 en) arg1 in
      if urbp = 0 then (ms, [])
      else
        let cls = map ClassRec (usbtrace_class_urb_emit en urbp (uc_filter_vid cfg)
                                  (uc_filter_pid cfg) USBTRACE_CLASS_VIDEO)
        in if uc_no_frames cfg \<noteq> 0 then (ms, cls)
           else let (ms', out) = uvc_parse_frames cfg en urbp ms in (ms', cls @ out))"

end
