(* ===== verification/Uvc_Drv.thy ===== *)
theory Uvc_Drv
  imports Uvc_Frames
begin

text \<open>
  The driver layer of \<open>modules/uvc/uvc.bpf.c\<close>: frames the uvcvideo driver received, the drops it
  decides when a buffer completes, and the map in which the cause seen while decoding waits for the
  completion of the buffer. The last part puts all hooks of the program together.
\<close>

record uvc_buffer =
  ub_type :: u32
  ub_error :: u32
  ub_bytesused :: u32

record uvc_streaming =
  us_dev :: u64
  us_dwMaxVideoFrameSize :: u32
  us_cur_format :: u64

record uvc_urb =
  uu_urb :: u64
  uu_stream :: u64

record drv_env = uvc_env +
  dx_uvc_buffer :: "u64 \<Rightarrow> uvc_buffer"
  dx_uvc_streaming :: "u64 \<Rightarrow> uvc_streaming"
  dx_uvc_device_udev :: "u64 \<Rightarrow> u64"
  dx_uvc_queue_flags :: "u64 \<Rightarrow> u32"
  dx_uvc_format_flags :: "u64 \<Rightarrow> u32"
  dx_uvc_urb :: "u64 \<Rightarrow> uvc_urb"
  dx_off_ref :: u64 \<comment> \<open>of \<open>ref\<close> in \<open>struct uvc_buffer\<close>\<close>
  dx_off_buf :: u64 \<comment> \<open>of \<open>buf\<close> in \<open>struct uvc_buffer\<close>\<close>
  dx_off_queue :: u64 \<comment> \<open>of \<open>queue\<close> in \<open>struct uvc_streaming\<close>\<close>

definition UVC_DRV_RECV :: u8 where [ut_const]: "UVC_DRV_RECV = 0"
definition UVC_DRV_DROP :: u8 where [ut_const]: "UVC_DRV_DROP = 1"
definition UVC_DROP_SHORT :: u8 where [ut_const]: "UVC_DROP_SHORT = 1"
definition UVC_DROP_ISO :: u8 where [ut_const]: "UVC_DROP_ISO = 2"
definition UVC_DROP_OTHER :: u8 where [ut_const]: "UVC_DROP_OTHER = 4"
definition UVC_QUEUE_DROP_CORRUPTED :: u32 where [ut_const]: "UVC_QUEUE_DROP_CORRUPTED = 2"
definition UVC_FMT_FLAG_COMPRESSED :: u32 where [ut_const]: "UVC_FMT_FLAG_COMPRESSED = 1"

definition uvc_buf_is_video :: "'x drv_env_scheme \<Rightarrow> u64 \<Rightarrow> bool" where
  "uvc_buf_is_video en buf =
     (if buf = 0 then False
      else let t = ub_type (dx_uvc_buffer en buf) in
        t = VB2_TYPE_VIDEO_CAPTURE \<or> t = VB2_TYPE_VIDEO_CAPTURE_MPLANE)"

text \<open>The vendor, product, bus and device number of a stream whose device passes the filter.\<close>

definition uvc_stream_usb :: "uvc_config \<Rightarrow> 'x drv_env_scheme \<Rightarrow> u64 \<Rightarrow> (u16 \<times> u16 \<times> u16 \<times> u16) option" where
  "uvc_stream_usb cfg en stream =
     (if stream = 0 then None
      else let dev = us_dev (dx_uvc_streaming en stream) in
        if dev = 0 then None
        else let udev = en_usb_device en (dx_uvc_device_udev en dev) in
          case usbtrace_dev_match udev (uc_filter_vid cfg) (uc_filter_pid cfg) of
            None \<Rightarrow> None
          | Some (vid, pid) \<Rightarrow> Some (vid, pid, ucast (ud_busnum udev), ucast (ud_devnum udev)))"

text \<open>Address 0 stands for a null result.\<close>

definition uvc_buf_from_ref :: "'x drv_env_scheme \<Rightarrow> u64 \<Rightarrow> u64" where
  "uvc_buf_from_ref en ref =
     (if ref = 0 then 0
      else let off = dx_off_ref en in if sint off < 0 then 0 else ref - off)"

definition uvc_buf_video_queue :: "'x drv_env_scheme \<Rightarrow> u64 \<Rightarrow> u64" where
  "uvc_buf_video_queue en buf =
     (if buf = 0 then 0
      else if sint (dx_off_buf en) < 0 then 0
      else let vbuf = buf + dx_off_buf en in
        if sint (ux_off_vb2_buf en) < 0 then 0
        else let vb = vbuf + ux_off_vb2_buf en; vq = vb_vb2_queue (ux_vb2_buffer en vb) in
          if vq = 0 then 0 else vq_drv_priv (ux_vb2_queue en vq))"

definition uvc_drop_cause_add :: "'x bpf_env_scheme \<Rightarrow> u64 \<Rightarrow> u8 \<Rightarrow> uvc_maps \<Rightarrow> uvc_maps" where
  "uvc_drop_cause_add en buf cause ms =
     (let m = um_drv_drop_cause ms in
      case m buf of
        Some cur \<Rightarrow> ms\<lparr> um_drv_drop_cause := m(buf \<mapsto> cur OR cause) \<rparr>
      | None \<Rightarrow> ms\<lparr> um_drv_drop_cause := bpf_map_update_elem (en_room en ''drv_drop_cause'' buf) buf cause m \<rparr>)"

definition uvc_drop_cause_take :: "u64 \<Rightarrow> uvc_maps \<Rightarrow> uvc_maps \<times> u8" where
  "uvc_drop_cause_take buf ms =
     (case um_drv_drop_cause ms buf of
        Some v \<Rightarrow> (ms\<lparr> um_drv_drop_cause := bpf_map_delete_elem buf (um_drv_drop_cause ms) \<rparr>, v)
      | None \<Rightarrow> (ms, 0))"

definition uvc_drv_emit :: "u8 \<Rightarrow> u8 \<Rightarrow> u16 \<Rightarrow> u16 \<Rightarrow> u16 \<Rightarrow> u16 \<Rightarrow> u64 \<Rightarrow> uvc_out" where
  "uvc_drv_emit op reason vid pid bus devnum now =
     DrvRec \<lparr> de_hdr = \<lparr> h_kind = USBTRACE_EVT_UVC_DRV, h_size = 32, h_ts_ns = now \<rparr>, de_drv_op = op,
              de_reason = reason, de_vid = vid, de_product = pid, de_busnum = bus, de_devnum = devnum \<rparr>"

definition on_queue_next :: "uvc_config \<Rightarrow> 'x drv_env_scheme \<Rightarrow> u64 \<Rightarrow> u64 \<Rightarrow> uvc_maps \<Rightarrow> uvc_maps \<times> uvc_out list" where
  "on_queue_next cfg en arg1 arg2 ms =
     (let queue = USBTRACE_KPTR (en_arch32 en) arg1; buf = USBTRACE_KPTR (en_arch32 en) arg2 in
      if queue = 0 \<or> buf = 0 \<or> \<not> uvc_buf_is_video en buf then (ms, [])
      else if sint (dx_off_queue en) < 0 then (ms, [])
      else case uvc_stream_usb cfg en (queue - dx_off_queue en) of
        None \<Rightarrow> (ms, [])
      | Some (vid, pid, bus, devnum) \<Rightarrow>
          (ms, [uvc_drv_emit UVC_DRV_RECV 0 vid pid bus devnum (en_ktime en)]))"

text \<open>Whether the loop finds a readable packet descriptor with a negative status.\<close>

definition iso_loss :: "urb \<Rightarrow> bool" where
  "iso_loss u =
     list_ex (\<lambda>i. case urb_iso_frame_desc u i of None \<Rightarrow> False | Some d \<Rightarrow> sint (d_status d) < 0)
       (packet_range (urb_number_of_packets u))"

definition on_decode_isoc :: "uvc_config \<Rightarrow> 'x drv_env_scheme \<Rightarrow> u64 \<Rightarrow> u64 \<Rightarrow> uvc_maps \<Rightarrow> uvc_maps \<times> uvc_out list" where
  "on_decode_isoc cfg en arg1 arg2 ms =
     (let uu = USBTRACE_KPTR (en_arch32 en) arg1; buf = USBTRACE_KPTR (en_arch32 en) arg2 in
      if uu = 0 \<or> buf = 0 \<or> \<not> uvc_buf_is_video en buf then (ms, [])
      else case uvc_stream_usb cfg en (uu_stream (dx_uvc_urb en uu)) of
        None \<Rightarrow> (ms, [])
      | Some _ \<Rightarrow>
          let urbp = uu_urb (dx_uvc_urb en uu) in
          if urbp = 0 then (ms, [])
          else if iso_loss (en_urb en urbp) then (uvc_drop_cause_add en buf UVC_DROP_ISO ms, [])
          else (ms, []))"

text \<open>The reason a drop reports, from the cause gathered while decoding.\<close>

definition drop_reason :: "'x drv_env_scheme \<Rightarrow> u64 \<Rightarrow> u64 \<Rightarrow> u8 \<Rightarrow> u8" where
  "drop_reason en buf stream cause =
     (let s = dx_uvc_streaming en stream; maxsize = us_dwMaxVideoFrameSize s;
          fmtflags = (if us_cur_format s \<noteq> 0 then dx_uvc_format_flags en (us_cur_format s) else 0);
          reason = (if fmtflags AND UVC_FMT_FLAG_COMPRESSED = 0 \<and> maxsize \<noteq> 0
                       \<and> ub_bytesused (dx_uvc_buffer en buf) \<noteq> maxsize
                    then cause OR UVC_DROP_SHORT else cause)
      in if reason = 0 then UVC_DROP_OTHER else reason)"

definition on_queue_complete :: "uvc_config \<Rightarrow> 'x drv_env_scheme \<Rightarrow> u64 \<Rightarrow> uvc_maps \<Rightarrow> uvc_maps \<times> uvc_out list" where
  "on_queue_complete cfg en arg1 ms =
     (let buf = uvc_buf_from_ref en (USBTRACE_KPTR (en_arch32 en) arg1) in
      if buf = 0 \<or> \<not> uvc_buf_is_video en buf then (fst (uvc_drop_cause_take buf ms), [])
      else
        let queue = uvc_buf_video_queue en buf in
        if queue = 0 then (fst (uvc_drop_cause_take buf ms), [])
        else if sint (dx_off_queue en) < 0 then (ms, [])
        else
          let stream = queue - dx_off_queue en in
          case uvc_stream_usb cfg en stream of
            None \<Rightarrow> (fst (uvc_drop_cause_take buf ms), [])
          | Some (vid, pid, bus, devnum) \<Rightarrow>
              let (ms', cause) = uvc_drop_cause_take buf ms;
                  err = (ucast (ub_error (dx_uvc_buffer en buf)) :: u8)
              in if dx_uvc_queue_flags en queue AND UVC_QUEUE_DROP_CORRUPTED = 0 \<or> err = 0 then (ms', [])
                 else (ms', [uvc_drv_emit UVC_DRV_DROP (drop_reason en buf stream cause) vid pid bus devnum
                               (en_ktime en)]))"

section \<open>The program\<close>

text \<open>One hit of one of the program's hooks, with the environment it ran in and its arguments.\<close>

datatype uvc_hook =
    Video_complete u64
  | Vb2_tracepoint vb2_tracepoint u64 u64
  | Queue_next u64 u64
  | Decode_isoc u64 u64
  | Queue_complete u64

fun uvc_hit :: "uvc_config \<Rightarrow> drv_env \<times> uvc_hook \<Rightarrow> uvc_maps \<Rightarrow> uvc_maps \<times> uvc_out list" where
  "uvc_hit cfg (en, Video_complete a) ms = on_video_complete cfg en a ms"
| "uvc_hit cfg (en, Vb2_tracepoint tp q b) ms = vb2_tracepoint_hit tp cfg en q b ms"
| "uvc_hit cfg (en, Queue_next q b) ms = on_queue_next cfg en q b ms"
| "uvc_hit cfg (en, Decode_isoc u b) ms = on_decode_isoc cfg en u b ms"
| "uvc_hit cfg (en, Queue_complete r) ms = on_queue_complete cfg en r ms"

fun uvc_run :: "uvc_config \<Rightarrow> (drv_env \<times> uvc_hook) list \<Rightarrow> uvc_maps \<Rightarrow> uvc_maps \<times> uvc_out list" where
  "uvc_run cfg [] ms = (ms, [])"
| "uvc_run cfg (h # hs) ms =
     (let (ms1, out) = uvc_hit cfg h ms; (ms2, outs) = uvc_run cfg hs ms1 in (ms2, out @ outs))"

end
