(* ===== verification/Uvc_Frame_Spec.thy ===== *)
theory Uvc_Frame_Spec
  imports Uvc_Drv
begin

text \<open>
  What a video frame is, without the assembly state: the packets of a stream are a sequence of tokens
  (an error status, a payload), and a frame is a maximal run of them, cut after a payload with the EOF
  bit and before a payload whose frame id differs. The lemmas show that the state machine of
  \<open>uvc_parse_frames\<close> computes exactly these frames, over any interleaving of streams and hooks.
\<close>

section \<open>The reference\<close>

record payload =
  p_ids :: uvc_ids
  p_comm :: "u8 list"
  p_now :: u64
  p_hdr :: "u8 list"
  p_alen :: u32

datatype tok = Err | Pay payload

fun pays :: "tok list \<Rightarrow> payload list" where
  "pays [] = []"
| "pays (Err # ts) = pays ts"
| "pays (Pay p # ts) = p # pays ts"

definition errs :: "tok list \<Rightarrow> nat" where
  "errs g = length (filter (\<lambda>t. t = Err) g)"

definition p_fid :: "payload \<Rightarrow> u8" where "p_fid p = p_hdr p ! 1 AND UVC_FID"
definition p_eof :: "payload \<Rightarrow> bool" where "p_eof p \<longleftrightarrow> p_hdr p ! 1 AND UVC_EOF \<noteq> 0"
definition p_err :: "payload \<Rightarrow> bool" where "p_err p \<longleftrightarrow> p_hdr p ! 1 AND UVC_ERR \<noteq> 0"
definition p_len :: "payload \<Rightarrow> u32" where "p_len p = p_alen p - ucast (p_hdr p ! 0)"
definition p_has_pts :: "payload \<Rightarrow> bool" where
  "p_has_pts p \<longleftrightarrow> p_hdr p ! 1 AND UVC_PTS \<noteq> 0 \<and> p_hdr p ! 0 \<ge> 6"
definition p_has_scr :: "payload \<Rightarrow> bool" where
  "p_has_scr p \<longleftrightarrow> p_hdr p ! 1 AND UVC_PTS \<noteq> 0 \<and> p_hdr p ! 1 AND UVC_SCR \<noteq> 0 \<and> p_hdr p ! 0 \<ge> 12"

text \<open>A closed frame: its tokens, whether it ended with EOF, and the payload that closed it.\<close>

type_synonym closed = "tok list \<times> bool \<times> payload"

definition cut_before :: "payload \<Rightarrow> tok list \<Rightarrow> closed list \<times> tok list" where
  "cut_before p g =
     (case pays g of [] \<Rightarrow> ([], g) | q # _ \<Rightarrow> if p_fid p \<noteq> p_fid q then ([(g, False, p)], []) else ([], g))"

definition cut_after :: "payload \<Rightarrow> tok list \<Rightarrow> closed list \<times> tok list" where
  "cut_after p g = (if p_eof p then ([(g, True, p)], []) else ([], g))"

fun split_frames :: "tok list \<Rightarrow> tok list \<Rightarrow> closed list \<times> tok list" where
  "split_frames g [] = ([], g)"
| "split_frames g (Err # ts) = split_frames (g @ [Err]) ts"
| "split_frames g (Pay p # ts) =
     (let (c1, g1) = cut_before p g;
          (c2, g2) = cut_after p (g1 @ [Pay p]);
          (cs, gf) = split_frames g2 ts
      in (c1 @ c2 @ cs, gf))"

definition last_with :: "(payload \<Rightarrow> bool) \<Rightarrow> (payload \<Rightarrow> 'a::zero) \<Rightarrow> tok list \<Rightarrow> 'a" where
  "last_with P f g = (case filter P (pays g) of [] \<Rightarrow> 0 | ps \<Rightarrow> f (last ps))"

definition group_err :: "tok list \<Rightarrow> bool" where
  "group_err g \<longleftrightarrow> errs g \<noteq> 0 \<or> list_ex p_err (pays g)"

definition frame_of :: "u64 \<Rightarrow> closed \<Rightarrow> uvc_frame_event" where
  "frame_of prev c =
     (case c of (g, eof, p) \<Rightarrow>
       \<lparr> fe_hdr = \<lparr> h_kind = USBTRACE_EVT_UVC_FRAME, h_size = 80, h_ts_ns = p_now p \<rparr>,
         fe_bytes = sum_list (map p_len (pays g)), fe_packets = of_nat (length (pays g)),
         fe_err_packets = of_nat (errs g), fe_duration_ns = ucast (p_now p - p_now (hd (pays g))),
         fe_interval_ns = (if prev \<noteq> 0 then ucast (p_now p - prev) else 0),
         fe_pts = last_with p_has_pts (\<lambda>q. uvc_load_le32 (p_hdr q) 2) g,
         fe_scr_stc = last_with p_has_scr (\<lambda>q. uvc_load_le32 (p_hdr q) 6) g,
         fe_scr_sof = last_with p_has_scr (\<lambda>q. uvc_load_le16 (p_hdr q) 10) g,
         fe_vid = ui_vid (p_ids p), fe_product = ui_pid (p_ids p), fe_busnum = ui_bus (p_ids p),
         fe_devnum = ui_dev (p_ids p), fe_ep = ui_ep (p_ids p),
         fe_errored = (if \<not> eof \<or> group_err g then 1 else 0), fe_eof = (if eof then 1 else 0),
         fe_fid = p_fid (hd (pays g)), fe_comm = p_comm p \<rparr>)"

text \<open>The frames in order, each with the end of the one before it.\<close>

fun frames_of :: "u64 \<Rightarrow> closed list \<Rightarrow> uvc_frame_event list" where
  "frames_of prev [] = []"
| "frames_of prev (c # cs) = frame_of prev c # frames_of (p_now (snd (snd c))) cs"

definition end_of :: "u64 \<Rightarrow> closed list \<Rightarrow> u64" where
  "end_of prev cs = (if cs = [] then prev else p_now (snd (snd (last cs))))"

definition packet_toks ::
  "'x uvc_env_scheme \<Rightarrow> uvc_ids \<Rightarrow> u64 \<Rightarrow> u64 \<Rightarrow> u32 \<Rightarrow> usb_iso_packet_descriptor option \<Rightarrow> tok list" where
  "packet_toks en ids now tbuf tblen od =
     (case od of
        None \<Rightarrow> []
      | Some d \<Rightarrow>
          (if d_status d \<noteq> 0 then [Err] else []) @
          (case packet_header en tbuf tblen d of
             None \<Rightarrow> []
           | Some hdr \<Rightarrow> [Pay \<lparr> p_ids = ids, p_comm = en_comm en, p_now = now, p_hdr = hdr,
                               p_alen = d_actual_length d \<rparr>]))"

section \<open>The assembly state represents the open frame\<close>

definition stream_rep :: "u64 \<Rightarrow> tok list \<Rightarrow> uvc_stream_state \<Rightarrow> bool" where
  "stream_rep prev g st \<longleftrightarrow>
     ss_last_frame_end_ts st = prev
     \<and> ss_cur_bytes st = sum_list (map p_len (pays g)) \<and> ss_cur_packets st = of_nat (length (pays g))
     \<and> ss_cur_err_packets st = of_nat (errs g)
     \<and> ss_cur_pts st = last_with p_has_pts (\<lambda>q. uvc_load_le32 (p_hdr q) 2) g
     \<and> ss_cur_scr_stc st = last_with p_has_scr (\<lambda>q. uvc_load_le32 (p_hdr q) 6) g
     \<and> ss_cur_scr_sof st = last_with p_has_scr (\<lambda>q. uvc_load_le16 (p_hdr q) 10) g
     \<and> (ss_saw_err st \<longleftrightarrow> group_err g) \<and> (ss_active st \<longleftrightarrow> pays g \<noteq> [])
     \<and> (pays g \<noteq> [] \<longrightarrow>
          ss_have_fid st \<and> ss_cur_fid st = p_fid (hd (pays g)) \<and> ss_frame_start_ts st = p_now (hd (pays g)))"

lemma pays_append [simp]: "pays (g @ h) = pays g @ pays h"
  by (induction g rule: pays.induct) auto

lemma errs_simps [simp]: "errs [] = 0" "errs (g @ [Err]) = Suc (errs g)" "errs (g @ [Pay p]) = errs g"
  by (simp_all add: errs_def)

lemma last_with_simps [simp]:
  "last_with P f [] = 0" "last_with P f (g @ [Err]) = last_with P f g"
  "last_with P f (g @ [Pay p]) = (if P p then f p else last_with P f g)"
  by (simp_all add: last_with_def) (cases "filter P (pays g)"; auto)

lemma group_err_simps [simp]:
  "\<not> group_err []" "group_err (g @ [Err])" "group_err (g @ [Pay p]) \<longleftrightarrow> group_err g \<or> p_err p"
  by (auto simp: group_err_def)

lemma rep_start: "stream_rep 0 [] stream0"
  by (simp add: stream_rep_def stream0_def)

lemma rep_err:
  "stream_rep prev g st \<Longrightarrow>
   stream_rep prev (g @ [Err]) (st\<lparr> ss_saw_err := True, ss_cur_err_packets := ss_cur_err_packets st + 1 \<rparr>)"
  by (simp add: stream_rep_def add.commute)

lemma rep_reset: "stream_rep prev g st \<Longrightarrow> stream_rep now [] (reset_stream now st)"
  by (simp add: stream_rep_def reset_stream_def)

lemma add_payload_sel:
  fixes st :: uvc_stream_state and p :: payload
  defines "st' \<equiv> add_payload (p_hdr p) (p_alen p) st"
  shows "ss_frame_start_ts st' = ss_frame_start_ts st" "ss_last_frame_end_ts st' = ss_last_frame_end_ts st"
    "ss_cur_bytes st' = ss_cur_bytes st + p_len p" "ss_cur_packets st' = ss_cur_packets st + 1"
    "ss_cur_err_packets st' = ss_cur_err_packets st"
    "ss_cur_pts st' = (if p_has_pts p then uvc_load_le32 (p_hdr p) 2 else ss_cur_pts st)"
    "ss_cur_scr_stc st' = (if p_has_scr p then uvc_load_le32 (p_hdr p) 6 else ss_cur_scr_stc st)"
    "ss_cur_scr_sof st' = (if p_has_scr p then uvc_load_le16 (p_hdr p) 10 else ss_cur_scr_sof st)"
    "ss_cur_fid st' = ss_cur_fid st" "ss_have_fid st' = ss_have_fid st" "ss_active st' = ss_active st"
    "ss_saw_err st' \<longleftrightarrow> ss_saw_err st \<or> p_err p"
  unfolding st'_def add_payload_def Let_def p_len_def p_has_pts_def p_has_scr_def p_err_def
  by simp_all

lemma rep_pay:
  assumes "stream_rep prev g st"
  shows "stream_rep prev (g @ [Pay p])
     (add_payload (p_hdr p) (p_alen p) (if ss_active st then st else open_frame (p_fid p) (p_now p) st))"
  using assms by (auto simp: stream_rep_def add_payload_sel open_frame_def add.commute)

section \<open>Runs of tokens\<close>

lemma split_append:
  "split_frames g (xs @ ys) =
     (let (c1, g1) = split_frames g xs; (c2, g2) = split_frames g1 ys in (c1 @ c2, g2))"
  by (induction g xs rule: split_frames.induct) (auto simp: Let_def split: prod.splits)

lemma frames_of_append: "frames_of prev (a @ b) = frames_of prev a @ frames_of (end_of prev a) b"
  by (induction a arbitrary: prev) (auto simp: end_of_def)

lemma end_of_append: "end_of prev (a @ b) = end_of (end_of prev a) b"
  by (simp add: end_of_def)

section \<open>What the other maps are used for\<close>

fun frames_in :: "uvc_out list \<Rightarrow> uvc_frame_event list" where
  "frames_in [] = []"
| "frames_in (FrameRec f # os) = f # frames_in os"
| "frames_in (ClassRec c # os) = frames_in os"
| "frames_in (Vb2Rec v # os) = frames_in os"
| "frames_in (DrvRec d # os) = frames_in os"

lemma frames_in_append [simp]: "frames_in (a @ b) = frames_in a @ frames_in b"
  by (induction a rule: frames_in.induct) auto

lemma frames_in_ClassRec [simp]: "frames_in (map ClassRec cs) = []"
  by (induction cs) auto

text \<open>What an operation of the vb2 layer leaves alone: the assembly states, and it emits no frame.\<close>

definition no_frames :: "uvc_maps \<Rightarrow> uvc_maps \<times> uvc_out list \<Rightarrow> bool" where
  "no_frames ms r \<longleftrightarrow> um_streams (fst r) = um_streams ms \<and> frames_in (snd r) = []"

lemma corr_store_streams [simp]:
  "um_streams (uvc_corr_store en key vid pid bus dev bytes now ms) = um_streams ms"
  by (simp add: uvc_corr_store_def Let_def split: option.splits)

lemma note_wire_streams [simp]:
  "um_streams (uvc_note_wire_frame en bus dev vid pid bytes now ms) = um_streams ms"
  by (simp add: uvc_note_wire_frame_def)

lemma qstate_streams: "uvc_vb2_qstate en q ms = (ms', r) \<Longrightarrow> um_streams ms' = um_streams ms"
  by (auto simp: uvc_vb2_qstate_def Let_def split: option.splits)

lemma submit_no_frames:
  "um_streams ms' = um_streams ms \<Longrightarrow>
   no_frames ms (uvc_vb2_submit en q b op state starved now seq gap interval wire ms')"
  by (simp add: no_frames_def uvc_vb2_submit_def uvc_vb2_bind_dev_def Let_def)

lemma put_qstate_streams [simp]: "um_streams (put_qstate q st ms) = um_streams ms"
  by (simp add: put_qstate_def)

lemma starvation_no_frames: "no_frames ms (uvc_check_starvation en bus dev now ms)"
  unfolding uvc_check_starvation_def Let_def
  by (auto simp: no_frames_def submit_no_frames[unfolded no_frames_def] qstate_streams
      split: option.splits prod.splits)

lemma vb2_no_frames: "no_frames ms (vb2_tracepoint_hit tp cfg en q b ms)"
proof (cases tp)
qed (auto simp: no_frames_def submit_no_frames[unfolded no_frames_def] qstate_streams uvc_vb2_raw_done_def
    uvc_vb2_raw_qvb_def uvc_emit_vb2_done_def uvc_emit_vb2_xact_def Let_def split: option.splits prod.splits)

lemma drv_no_frames:
  "no_frames ms (on_queue_next cfg en a b ms)" "no_frames ms (on_decode_isoc cfg en a b ms)"
  "no_frames ms (on_queue_complete cfg en a ms)"
  unfolding on_queue_next_def on_decode_isoc_def on_queue_complete_def
  by (auto simp: no_frames_def uvc_drop_cause_add_def uvc_drop_cause_take_def uvc_drv_emit_def Let_def
      split: option.splits prod.splits)

section \<open>One packet, one URB\<close>

lemma emit_frame_spec:
  assumes "uvc_emit_frame en ids eof now (st, ms, out) = (st', ms', out')"
  shows "st' = reset_stream now st" "um_streams ms' = um_streams ms"
    "frames_in out' = frames_in out @ [frame_record en ids eof now st]"
proof -
  define ms1 where "ms1 = uvc_note_wire_frame en (ui_bus ids) (ui_dev ids) (ui_vid ids) (ui_pid ids)
    (ss_cur_bytes st) now ms"
  have nf: "no_frames ms1 (uvc_check_starvation en (ui_bus ids) (ui_dev ids) now ms1)"
    by (rule starvation_no_frames)
  have "um_streams ms1 = um_streams ms" by (simp add: ms1_def)
  then show "st' = reset_stream now st" "um_streams ms' = um_streams ms"
    "frames_in out' = frames_in out @ [frame_record en ids eof now st]"
    using assms nf
    by (auto simp: uvc_emit_frame_def no_frames_def ms1_def[symmetric] Let_def split: prod.splits)
qed

lemma frame_record_rep:
  assumes "stream_rep prev g st" "pays g \<noteq> []" "p_ids p = ids" "p_now p = now" "p_comm p = en_comm en"
  shows "frame_record en ids eof now st = frame_of prev (g, eof, p)"
  using assms by (auto simp: stream_rep_def frame_record_def frame_of_def)

text \<open>A state of the loop: assembly state, other maps and output, against tokens seen and frames closed.\<close>

definition loop_rep ::
  "(u32 \<rightharpoonup> uvc_stream_state) \<Rightarrow> uvc_frame_event list \<Rightarrow> u64 \<Rightarrow> tok list \<Rightarrow> uvc_stream_state \<times> uvc_maps \<times> uvc_out list \<Rightarrow> bool"
  where
  "loop_rep m fs prev g s \<longleftrightarrow>
     (case s of (st, ms, out) \<Rightarrow> stream_rep prev g st \<and> um_streams ms = m \<and> frames_in out = fs)"

lemma emit_frame_rep:
  assumes "loop_rep m fs prev g s" "pays g \<noteq> []" "p_ids p = ids" "p_now p = now" "p_comm p = en_comm en"
  shows "loop_rep m (fs @ [frame_of prev (g, eof, p)]) now [] (uvc_emit_frame en ids eof now s)"
proof -
  obtain st ms out where s: "s = (st, ms, out)" by (cases s)
  obtain st' ms' out' where r: "uvc_emit_frame en ids eof now s = (st', ms', out')"
    by (cases "uvc_emit_frame en ids eof now s")
  from assms s have rep: "stream_rep prev g st" "um_streams ms = m" "frames_in out = fs"
    by (auto simp: loop_rep_def)
  note spec = emit_frame_spec[OF r[unfolded s]]
  show ?thesis
    unfolding r loop_rep_def
    using spec rep rep_reset[OF rep(1)] frame_record_rep[OF rep(1) assms(2-5)] by simp
qed

lemma payload_rep:
  assumes rep: "loop_rep m fs prev g s"
    and p: "p_ids p = ids" "p_now p = now" "p_comm p = en_comm en" "p_hdr p = hdr" "p_alen p = alen"
    and split: "split_frames g [Pay p] = (cs, g')"
  shows "loop_rep m (fs @ frames_of prev cs) (end_of prev cs) g' (uvc_payload en ids now hdr alen s)"
proof -
  obtain st ms out where s: "s = (st, ms, out)" by (cases s)
  from rep s have st: "stream_rep prev g st" "um_streams ms = m" "frames_in out = fs"
    by (auto simp: loop_rep_def)
  define r1 where "r1 = (if \<not> ss_active st then (open_frame (p_fid p) now st, ms, out)
     else if ss_have_fid st \<and> p_fid p \<noteq> ss_cur_fid st then
       let (st', ms', out') = uvc_emit_frame en ids False now (st, ms, out)
       in (open_frame (p_fid p) now st', ms', out')
     else (st, ms, out))"
  define s2 where "s2 = (case r1 of (st1, ms1, out1) \<Rightarrow> (add_payload hdr alen st1, ms1, out1))"
  obtain c1 g1 where c1: "cut_before p g = (c1, g1)" by (cases "cut_before p g")
  obtain c2 g2 where c2: "cut_after p (g1 @ [Pay p]) = (c2, g2)" by (cases "cut_after p (g1 @ [Pay p])")
  have cs: "cs = c1 @ c2" "g' = g2" using split by (simp_all add: c1 c2)
  have run: "uvc_payload en ids now hdr alen s = (if p_eof p then uvc_emit_frame en ids True now s2 else s2)"
    using p by (auto simp: uvc_payload_def s r1_def s2_def p_fid_def p_eof_def Let_def split: prod.splits)
  have s2: "loop_rep m (fs @ frames_of prev c1) (end_of prev c1) (g1 @ [Pay p]) s2"
  proof (cases "ss_active st \<and> ss_have_fid st \<and> p_fid p \<noteq> ss_cur_fid st")
    case True
    with st have "c1 = [(g, False, p)]" "g1 = []" "pays g \<noteq> []"
      using c1 by (auto simp: cut_before_def stream_rep_def split: list.splits)
    moreover obtain st' ms' out' where e: "uvc_emit_frame en ids False now (st, ms, out) = (st', ms', out')"
      by (cases "uvc_emit_frame en ids False now (st, ms, out)")
    moreover have "loop_rep m (fs @ [frame_of prev (g, False, p)]) now [] (st', ms', out')"
      using emit_frame_rep[OF rep \<open>pays g \<noteq> []\<close> p(1-3), of False] e s by simp
    ultimately show ?thesis
      using True rep_pay[of now "[]" st' p] p
      by (simp add: s2_def r1_def loop_rep_def end_of_def stream_rep_def[of now "[]"])
  next
    case False
    with st have "c1 = []" "g1 = g"
      using c1 by (auto simp: cut_before_def stream_rep_def split: list.splits if_splits)
    moreover have "r1 = ((if ss_active st then st else open_frame (p_fid p) now st), ms, out)"
      using False by (auto simp: r1_def)
    ultimately show ?thesis
      using rep_pay[OF st(1), of p] st p
      by (cases "ss_active st") (simp_all add: s2_def loop_rep_def end_of_def)
  qed
  show ?thesis
  proof (cases "p_eof p")
    case True
    then have "c2 = [(g1 @ [Pay p], True, p)]" "g2 = []" using c2 by (auto simp: cut_after_def)
    then show ?thesis
      using emit_frame_rep[OF s2 _ p(1-3), of True] True p
      by (simp add: run cs frames_of_append end_of_append end_of_def)
  next
    case False
    then have "c2 = []" "g2 = g1 @ [Pay p]" using c2 by (auto simp: cut_after_def)
    with s2 False show ?thesis by (simp add: run cs)
  qed
qed

lemma packet_rep:
  assumes rep: "loop_rep m fs prev g s"
    and split: "split_frames g (packet_toks en ids now tbuf tblen od) = (cs, g')"
  shows "loop_rep m (fs @ frames_of prev cs) (end_of prev cs) g' (uvc_packet en ids now tbuf tblen od s)"
proof (cases od)
  case None
  then show ?thesis using assms by (cases s) (simp add: packet_toks_def uvc_packet_def end_of_def)
next
  case (Some d)
  obtain st ms out where s: "s = (st, ms, out)" by (cases s)
  define g0 where "g0 = (if d_status d \<noteq> 0 then g @ [Err] else g)"
  define st1 where "st1 = (if d_status d \<noteq> 0
     then st\<lparr> ss_saw_err := True, ss_cur_err_packets := ss_cur_err_packets st + 1 \<rparr> else st)"
  have rep1: "loop_rep m fs prev g0 (st1, ms, out)"
    using rep rep_err[of prev g st] by (auto simp: s loop_rep_def g0_def st1_def)
  show ?thesis
  proof (cases "packet_header en tbuf tblen d")
    case None
    with Some split have "cs = []" "g' = g0" by (auto simp: packet_toks_def g0_def split: if_splits)
    then show ?thesis using rep1 None Some by (simp add: s uvc_packet_def st1_def Let_def end_of_def)
  next
    case (Some hdr)
    define p where "p = \<lparr> p_ids = ids, p_comm = en_comm en, p_now = now, p_hdr = hdr, p_alen = d_actual_length d \<rparr>"
    have "split_frames g0 [Pay p] = (cs, g')"
      using split Some \<open>od = Some d\<close> by (auto simp: packet_toks_def g0_def p_def split: if_splits)
    from payload_rep[OF rep1 _ _ _ _ _ this, of ids now en hdr "d_actual_length d"]
    show ?thesis using Some \<open>od = Some d\<close> by (simp add: s uvc_packet_def st1_def p_def Let_def)
  qed
qed

section \<open>Whole runs\<close>

definition fe_key :: "uvc_frame_event \<Rightarrow> u32" where
  "fe_key f = stream_key (fe_busnum f) (fe_devnum f) (fe_ep f)"

definition urb_toks :: "'x uvc_env_scheme \<Rightarrow> uvc_ids \<Rightarrow> urb \<Rightarrow> tok list" where
  "urb_toks en ids u =
     (if urb_transfer_buffer u = 0 then []
      else concat (map (\<lambda>i. packet_toks en ids (ux_frame_ktime en) (urb_transfer_buffer u)
                              (urb_transfer_buffer_length u) (urb_iso_frame_desc u i))
                     (packet_range (urb_number_of_packets u))))"

text \<open>The tokens a hook adds to the stream with key \<open>k\<close>.\<close>

fun hook_toks :: "uvc_config \<Rightarrow> u32 \<Rightarrow> drv_env \<times> uvc_hook \<Rightarrow> tok list" where
  "hook_toks cfg k (en, Video_complete a) =
     (let urbp = USBTRACE_KPTR (en_arch32 en) a in
      if urbp = 0 \<or> uc_no_frames cfg \<noteq> 0 then []
      else case urb_ids cfg en urbp of
        None \<Rightarrow> []
      | Some ids \<Rightarrow> if ids_key ids = k then urb_toks en ids (en_urb en urbp) else [])"
| "hook_toks cfg k (en, Vb2_tracepoint tp q b) = []"
| "hook_toks cfg k (en, Queue_next q b) = []"
| "hook_toks cfg k (en, Decode_isoc u b) = []"
| "hook_toks cfg k (en, Queue_complete r) = []"

lemma fold_packet_rep:
  assumes "loop_rep m fs prev g s"
    and "split_frames g (concat (map (\<lambda>i. packet_toks en ids now tbuf tblen (ds i)) is)) = (cs, g')"
  shows "loop_rep m (fs @ frames_of prev cs) (end_of prev cs) g'
     (fold (\<lambda>i. uvc_packet en ids now tbuf tblen (ds i)) is s)"
  using assms
proof (induction "is" arbitrary: fs prev g s cs)
  case Nil
  then show ?case by (simp add: end_of_def)
next
  case (Cons i "is")
  obtain c1 g1 where 1: "split_frames g (packet_toks en ids now tbuf tblen (ds i)) = (c1, g1)"
    by (cases "split_frames g (packet_toks en ids now tbuf tblen (ds i))")
  obtain c2 where 2: "split_frames g1 (concat (map (\<lambda>i. packet_toks en ids now tbuf tblen (ds i)) is)) = (c2, g')"
    and cs: "cs = c1 @ c2"
    using Cons.prems(2) by (auto simp: split_append 1 split: prod.splits)
  from Cons.IH[OF packet_rep[OF Cons.prems(1) 1] 2]
  show ?case by (simp add: cs frames_of_append end_of_append)
qed

text \<open>All frames a URB emits carry its stream.\<close>

definition all_key :: "u32 \<Rightarrow> uvc_out list \<Rightarrow> bool" where
  "all_key k out \<longleftrightarrow> list_all (\<lambda>f. fe_key f = k) (frames_in out)"

lemma emit_frame_key:
  assumes "all_key (ids_key ids) out" "uvc_emit_frame en ids eof now (st, ms, out) = (st', ms', out')"
  shows "all_key (ids_key ids) out'"
  using assms(1) emit_frame_spec(3)[OF assms(2)]
  by (simp add: all_key_def fe_key_def ids_key_def frame_record_def)

lemma payload_key:
  assumes "all_key (ids_key ids) out" "uvc_payload en ids now hdr alen (st, ms, out) = (st', ms', out')"
  shows "all_key (ids_key ids) out'"
  using assms
  by (auto simp: uvc_payload_def Let_def split: prod.splits if_splits dest: emit_frame_key)

lemma packet_key:
  assumes "all_key (ids_key ids) out" "uvc_packet en ids now tbuf tblen od (st, ms, out) = (st', ms', out')"
  shows "all_key (ids_key ids) out'"
  using assms
  by (auto simp: uvc_packet_def Let_def split: option.splits dest: payload_key)

lemma fold_packet_key:
  assumes "all_key (ids_key ids) out"
    "fold (\<lambda>i. uvc_packet en ids now tbuf tblen (ds i)) is (st, ms, out) = (st', ms', out')"
  shows "all_key (ids_key ids) out'"
  using assms
proof (induction "is" arbitrary: st ms out)
  case (Cons i "is")
  obtain s1 m1 o1 where 1: "uvc_packet en ids now tbuf tblen (ds i) (st, ms, out) = (s1, m1, o1)"
    by (cases "uvc_packet en ids now tbuf tblen (ds i) (st, ms, out)")
  show ?case
    using Cons.IH[OF packet_key[OF Cons.prems(1) 1]] Cons.prems(2) by (simp add: 1)
qed simp

definition key_rep :: "u32 \<Rightarrow> u64 \<Rightarrow> tok list \<Rightarrow> uvc_maps \<Rightarrow> bool" where
  "key_rep k prev g ms \<longleftrightarrow>
     (case um_streams ms k of None \<Rightarrow> prev = 0 \<and> g = [] | Some st \<Rightarrow> stream_rep prev g st)"

lemma parse_frames_key:
  assumes ids: "urb_ids cfg en urbp = Some ids" and run: "uvc_parse_frames cfg en urbp ms = (ms', out)"
  shows "all_key (ids_key ids) out"
proof -
  have "all_key (ids_key ids) []" by (simp add: all_key_def)
  from fold_packet_key[OF this] show ?thesis
    using run unfolding uvc_parse_frames_def ids
    by (auto simp: Let_def all_key_def split: option.splits prod.splits if_splits)
qed

lemma with_stream_other: "k \<noteq> k' \<Longrightarrow> with_stream en k' m k = m k"
  by (simp add: with_stream_def)

lemma packet_streams:
  "uvc_packet en ids now tbuf tblen od (st, ms, out) = (st', ms', out') \<Longrightarrow> um_streams ms' = um_streams ms"
  by (auto simp: uvc_packet_def uvc_payload_def Let_def split: option.splits prod.splits if_splits
      dest!: emit_frame_spec(2))

lemma fold_packet_streams:
  "fold (\<lambda>i. uvc_packet en ids now tbuf tblen (ds i)) is (st, ms, out) = (st', ms', out') \<Longrightarrow>
   um_streams ms' = um_streams ms"
proof (induction "is" arbitrary: st ms out)
  case (Cons i "is")
  obtain s1 m1 o1 where 1: "uvc_packet en ids now tbuf tblen (ds i) (st, ms, out) = (s1, m1, o1)"
    by (cases "uvc_packet en ids now tbuf tblen (ds i) (st, ms, out)")
  show ?case using Cons.IH[of s1 m1 o1] Cons.prems packet_streams[OF 1] by (simp add: 1)
qed simp

lemma parse_frames_other:
  assumes ids: "urb_ids cfg en urbp = Some ids" "ids_key ids \<noteq> k"
    and run: "uvc_parse_frames cfg en urbp ms = (ms', out)"
  shows "um_streams ms' k = um_streams ms k"
  using run ids(2) unfolding uvc_parse_frames_def ids(1)
  by (auto simp: Let_def with_stream_other dest!: fold_packet_streams
      split: option.splits prod.splits if_splits)

lemma parse_frames_own:
  assumes ids: "urb_ids cfg en urbp = Some ids" and room: "en_room en ''streams'' (ucast (ids_key ids))"
    and rep: "key_rep (ids_key ids) prev g ms"
    and run: "uvc_parse_frames cfg en urbp ms = (ms', out)"
    and split: "split_frames g (urb_toks en ids (en_urb en urbp)) = (cs, g')"
  shows "key_rep (ids_key ids) (end_of prev cs) g' ms' \<and> frames_in out = frames_of prev cs"
proof -
  define u where "u = en_urb en urbp"
  define m where "m = with_stream en (ids_key ids) (um_streams ms)"
  obtain st where st: "m (ids_key ids) = Some st" "stream_rep prev g st"
    using rep room rep_start
    by (cases "um_streams ms (ids_key ids)") (auto simp: m_def with_stream_def key_rep_def)
  show ?thesis
  proof (cases "urb_transfer_buffer u = 0")
    case True
    then have "ms' = ms\<lparr> um_streams := m \<rparr>" "out = []" "cs = []" "g' = g"
      using run split st(1) unfolding uvc_parse_frames_def ids
      by (simp_all add: m_def u_def urb_toks_def)
    then show ?thesis using st by (simp add: key_rep_def end_of_def)
  next
    case False
    obtain st2 ms2 out2 where r:
      "fold (\<lambda>i. uvc_packet en ids (ux_frame_ktime en) (urb_transfer_buffer u)
               (urb_transfer_buffer_length u) (urb_iso_frame_desc u i))
         (packet_range (urb_number_of_packets u)) (st, ms\<lparr> um_streams := m \<rparr>, []) = (st2, ms2, out2)"
      by (metis prod_cases3)
    have "ms' = ms2\<lparr> um_streams := (um_streams ms2)(ids_key ids \<mapsto> st2) \<rparr>" "out = out2"
      using run st(1) False r unfolding uvc_parse_frames_def ids by (simp_all add: Let_def m_def u_def)
    moreover have "loop_rep m [] prev g (st, ms\<lparr> um_streams := m \<rparr>, [])"
      using st by (simp add: loop_rep_def)
    from fold_packet_rep[OF this, of en ids] split False
    have "loop_rep m (frames_of prev cs) (end_of prev cs) g' (st2, ms2, out2)"
      by (simp add: urb_toks_def u_def[symmetric] flip: r)
    ultimately show ?thesis by (simp add: loop_rep_def key_rep_def)
  qed
qed

lemma vb2_hit_frames:
  "uvc_hit cfg (en, Vb2_tracepoint tp q b) ms = (ms', out) \<Longrightarrow> um_streams ms' = um_streams ms \<and> frames_in out = []"
  using vb2_no_frames[of ms tp cfg en q b] by (simp add: no_frames_def)

lemma drv_hit_frames:
  "uvc_hit cfg (en, Queue_next q b) ms = (ms', out) \<Longrightarrow> um_streams ms' = um_streams ms \<and> frames_in out = []"
  "uvc_hit cfg (en, Decode_isoc q b) ms = (ms', out) \<Longrightarrow> um_streams ms' = um_streams ms \<and> frames_in out = []"
  "uvc_hit cfg (en, Queue_complete q) ms = (ms', out) \<Longrightarrow> um_streams ms' = um_streams ms \<and> frames_in out = []"
proof -
  show "uvc_hit cfg (en, Queue_next q b) ms = (ms', out) \<Longrightarrow> um_streams ms' = um_streams ms \<and> frames_in out = []"
    using drv_no_frames(1)[of ms cfg en q b] by (simp add: no_frames_def)
  show "uvc_hit cfg (en, Decode_isoc q b) ms = (ms', out) \<Longrightarrow> um_streams ms' = um_streams ms \<and> frames_in out = []"
    using drv_no_frames(2)[of ms cfg en q b] by (simp add: no_frames_def)
  show "uvc_hit cfg (en, Queue_complete q) ms = (ms', out) \<Longrightarrow> um_streams ms' = um_streams ms \<and> frames_in out = []"
    using drv_no_frames(3)[of ms cfg en q] by (simp add: no_frames_def)
qed

lemma key_rep_cong: "um_streams ms' k = um_streams ms k \<Longrightarrow> key_rep k prev g ms \<Longrightarrow> key_rep k prev g ms'"
  by (simp add: key_rep_def)

lemma filter_all_key:
  "all_key k out \<Longrightarrow> filter (\<lambda>f. fe_key f = k') (frames_in out) = (if k = k' then frames_in out else [])"
  by (auto simp: all_key_def list_all_iff filter_empty_conv filter_id_conv)

lemma hit_rep:
  assumes room: "en_room en ''streams'' (ucast k)" and rep: "key_rep k prev g ms"
    and split: "split_frames g (hook_toks cfg k (en, h)) = (cs, g')" and run: "uvc_hit cfg (en, h) ms = (ms', out)"
  shows "key_rep k (end_of prev cs) g' ms' \<and> filter (\<lambda>f. fe_key f = k) (frames_in out) = frames_of prev cs"
proof -
  have idle: ?thesis if "um_streams ms' k = um_streams ms k" "filter (\<lambda>f. fe_key f = k) (frames_in out) = []"
      "hook_toks cfg k (en, h) = []"
    using that rep split key_rep_cong[OF that(1)] by (simp add: end_of_def)
  show ?thesis
  proof (cases h)
    case (Video_complete a)
    define urbp where "urbp = USBTRACE_KPTR (en_arch32 en) a"
    show ?thesis
    proof (cases "urbp = 0 \<or> uc_no_frames cfg \<noteq> 0 \<or> urb_ids cfg en urbp = None")
      case True
      then show ?thesis
        using run Video_complete
        by (intro idle) (auto simp: on_video_complete_def urbp_def[symmetric] uvc_parse_frames_def Let_def
            split: if_splits)
    next
      case False
      then obtain ids where ids: "urb_ids cfg en urbp = Some ids" by auto
      obtain ms2 out2 where p: "uvc_parse_frames cfg en urbp ms = (ms2, out2)"
        by (cases "uvc_parse_frames cfg en urbp ms")
      have out: "ms' = ms2" "frames_in out = frames_in out2"
        using run Video_complete False p by (auto simp: on_video_complete_def urbp_def[symmetric] Let_def)
      note key = filter_all_key[OF parse_frames_key[OF ids p]]
      show ?thesis
      proof (cases "ids_key ids = k")
        case True
        then have "split_frames g (urb_toks en ids (en_urb en urbp)) = (cs, g')"
          using split False ids Video_complete by (simp add: urbp_def[symmetric])
        from parse_frames_own[OF ids _ _ p this] room rep True key show ?thesis by (simp add: out)
      next
        case other: False
        have "um_streams ms2 k = um_streams ms k" by (rule parse_frames_other[OF ids other p])
        moreover have "hook_toks cfg k (en, h) = []"
          using False ids other Video_complete by (simp add: urbp_def[symmetric])
        ultimately show ?thesis using key other by (intro idle) (simp_all add: out)
      qed
    qed
  next
    case (Vb2_tracepoint tp q b)
    with run vb2_hit_frames[of cfg en tp q b ms] show ?thesis by (intro idle) auto
  next
    case (Queue_next q b)
    with run drv_hit_frames(1)[of cfg en q b ms] show ?thesis by (intro idle) auto
  next
    case (Decode_isoc u b)
    with run drv_hit_frames(2)[of cfg en u b ms] show ?thesis by (intro idle) auto
  next
    case (Queue_complete r)
    with run drv_hit_frames(3)[of cfg en r ms] show ?thesis by (intro idle) auto
  qed
qed

lemma run_rep:
  assumes "list_all (\<lambda>h. en_room (fst h) ''streams'' (ucast k)) hs" "key_rep k prev g ms"
    "split_frames g (concat (map (hook_toks cfg k) hs)) = (cs, g')" "uvc_run cfg hs ms = (ms', out)"
  shows "key_rep k (end_of prev cs) g' ms' \<and> filter (\<lambda>f. fe_key f = k) (frames_in out) = frames_of prev cs"
  using assms
proof (induction hs arbitrary: prev g ms cs out)
  case Nil
  then show ?case by (simp add: end_of_def)
next
  case (Cons h hs)
  obtain c1 g1 where 1: "split_frames g (hook_toks cfg k h) = (c1, g1)"
    by (cases "split_frames g (hook_toks cfg k h)")
  obtain c2 where 2: "split_frames g1 (concat (map (hook_toks cfg k) hs)) = (c2, g')" and cs: "cs = c1 @ c2"
    using Cons.prems(3) by (auto simp: split_append 1 split: prod.splits)
  obtain ms1 out1 where 3: "uvc_hit cfg h ms = (ms1, out1)" by (cases "uvc_hit cfg h ms")
  obtain out2 where 4: "uvc_run cfg hs ms1 = (ms', out2)" and out: "out = out1 @ out2"
    using Cons.prems(4) by (auto simp: 3 split: prod.splits)
  have h: "key_rep k (end_of prev c1) g1 ms1 \<and> filter (\<lambda>f. fe_key f = k) (frames_in out1) = frames_of prev c1"
    using hit_rep[of "fst h" k prev g ms cfg "snd h"] Cons.prems 1 3 by simp
  with Cons.IH[OF _ _ 2 4] Cons.prems(1)
  show ?case by (simp add: cs out frames_of_append end_of_append)
qed

section \<open>The reference partitions the packets\<close>

definition one_fid :: "tok list \<Rightarrow> bool" where
  "one_fid g \<longleftrightarrow> list_all (\<lambda>q. p_fid q = p_fid (hd (pays g))) (pays g)"

text \<open>A closed frame: payloads of one frame id, EOF at most on the last; it was closed by that EOF or by a
  payload of the other frame id.\<close>

definition frame_wf :: "closed \<Rightarrow> bool" where
  "frame_wf c =
     (case c of (g, eof, p) \<Rightarrow>
        pays g \<noteq> [] \<and> one_fid g \<and> list_all (\<lambda>q. \<not> p_eof q) (butlast (pays g)) \<and> (eof = p_eof (last (pays g)))
        \<and> (if eof then p = last (pays g) else p_fid p \<noteq> p_fid (hd (pays g))))"

definition open_wf :: "tok list \<Rightarrow> bool" where
  "open_wf g \<longleftrightarrow> one_fid g \<and> list_all (\<lambda>q. \<not> p_eof q) (pays g)"

lemma open_wf_simps [simp]: "one_fid []" "open_wf []" "open_wf (g @ [Err]) = open_wf g"
  by (simp_all add: open_wf_def one_fid_def)

lemma cut_before_wf:
  assumes "open_wf g" "cut_before p g = (c, g1)"
  shows "list_all frame_wf c \<and> open_wf g1 \<and> concat (map fst c) @ g1 = g \<and> (pays g1 \<noteq> [] \<longrightarrow> p_fid p = p_fid (hd (pays g1)))"
proof (cases "pays g = [] \<or> p_fid p = p_fid (hd (pays g))")
  case True
  then have "c = []" "g1 = g" using assms(2) by (auto simp: cut_before_def split: list.splits)
  with True assms(1) show ?thesis by auto
next
  case False
  then have "c = [(g, False, p)]" "g1 = []" using assms(2) by (auto simp: cut_before_def split: list.splits)
  moreover have "list_all (\<lambda>q. \<not> p_eof q) (butlast (pays g))" "\<not> p_eof (last (pays g))"
    using assms(1) False by (auto simp: open_wf_def list_all_iff dest: in_set_butlastD)
  ultimately show ?thesis using assms(1) False by (simp add: frame_wf_def open_wf_def)
qed

lemma one_fid_snoc:
  assumes "one_fid g" "pays g \<noteq> [] \<longrightarrow> p_fid p = p_fid (hd (pays g))"
  shows "one_fid (g @ [Pay p])"
proof (cases "pays g = []")
  case False
  with assms show ?thesis by (simp add: one_fid_def hd_append)
qed (simp add: one_fid_def)

lemma cut_after_wf:
  assumes "open_wf g" "pays g \<noteq> [] \<longrightarrow> p_fid p = p_fid (hd (pays g))" "cut_after p (g @ [Pay p]) = (c, g2)"
  shows "list_all frame_wf c \<and> open_wf g2 \<and> concat (map fst c) @ g2 = g @ [Pay p]"
proof -
  have fid: "one_fid (g @ [Pay p])" using assms(1,2) by (intro one_fid_snoc) (simp_all add: open_wf_def)
  show ?thesis
  proof (cases "p_eof p")
    case True
    then have "c = [(g @ [Pay p], True, p)]" "g2 = []" using assms(3) by (auto simp: cut_after_def)
    with fid True assms(1) show ?thesis by (simp add: frame_wf_def open_wf_def)
  next
    case False
    then have "c = []" "g2 = g @ [Pay p]" using assms(3) by (auto simp: cut_after_def)
    with fid False assms(1) show ?thesis by (simp add: open_wf_def)
  qed
qed

lemma split_wf:
  assumes "open_wf g" "split_frames g ts = (cs, g')"
  shows "list_all frame_wf cs \<and> open_wf g' \<and> concat (map fst cs) @ g' = g @ ts"
  using assms
proof (induction g ts arbitrary: cs rule: split_frames.induct)
  case (3 g p ts)
  obtain c1 g1 where 1: "cut_before p g = (c1, g1)" by (cases "cut_before p g")
  obtain c2 g2 where 2: "cut_after p (g1 @ [Pay p]) = (c2, g2)" by (cases "cut_after p (g1 @ [Pay p])")
  obtain c3 where 3: "split_frames g2 ts = (c3, g')" and cs: "cs = c1 @ c2 @ c3"
    using "3.prems"(2) by (auto simp: 1 2 split: prod.splits)
  note w1 = cut_before_wf[OF "3.prems"(1) 1]
  with cut_after_wf[OF _ _ 2] have w2: "list_all frame_wf c2 \<and> open_wf g2 \<and> concat (map fst c2) @ g2 = g1 @ [Pay p]"
    by blast
  with "3.IH"[OF 1[symmetric] refl 2[symmetric] refl _ 3]
  have w3: "list_all frame_wf c3 \<and> open_wf g' \<and> concat (map fst c3) @ g' = g2 @ ts" by blast
  have "concat (map fst cs) @ g' = concat (map fst c1) @ (concat (map fst c2) @ g2) @ ts"
    using w3 by (simp add: cs)
  also have "\<dots> = (concat (map fst c1) @ g1) @ Pay p # ts" using w2 by simp
  also have "\<dots> = g @ Pay p # ts" using w1 by simp
  finally show ?case using w1 w2 w3 by (simp add: cs)
qed simp_all

lemma pays_concat: "pays (concat gs) = concat (map pays gs)"
  by (induction gs) simp_all

lemma errs_append [simp]: "errs (g @ h) = errs g + errs h"
  by (simp add: errs_def)

lemma frames_sums:
  "sum_list (map fe_bytes (frames_of prev cs)) = sum_list (map p_len (pays (concat (map fst cs))))"
  "sum_list (map fe_packets (frames_of prev cs)) = of_nat (length (pays (concat (map fst cs))))"
  "sum_list (map fe_err_packets (frames_of prev cs)) = of_nat (errs (concat (map fst cs)))"
  by (induction prev cs rule: frames_of.induct) (auto simp: frame_of_def)

lemma frames_status:
  "list_all frame_wf cs \<Longrightarrow>
   list_all (\<lambda>f. (fe_eof f = 0 \<longrightarrow> fe_errored f = 1) \<and> fe_eof f \<le> 1 \<and> fe_fid f \<le> 1) (frames_of prev cs)"
proof (induction prev cs rule: frames_of.induct)
  case (2 prev c cs)
  have "p_fid q \<le> 1" for q
    unfolding p_fid_def UVC_FID_def by (rule word_and_le1)
  with 2 show ?case by (auto simp: frame_of_def split: prod.splits)
qed simp

end
