(* ===== verification/Uvc_Props.thy ===== *)
theory Uvc_Props
  imports Uvc_Frame_Spec
begin

text \<open>
  The properties of the uvc program: reconstructed frames are the frames of the packet stream, they
  account for every payload, drop causes are used once, completions and starvation are reported as the
  queue's history demands.
\<close>

section \<open>Frames\<close>

text \<open>A run with two URBs of one stream: a frame of two packets ending with EOF, an isochronous error,
  then a frame that loses its EOF.\<close>

definition demo_dev :: usb_device where
  "demo_dev = \<lparr> ud_id_vendor = 0x046d, ud_id_product = 0x0825, ud_busnum = 1, ud_devnum = 5, ud_state = 7,
     ud_speed = 3, ud_portnum = 1, ud_reset_resume = 0, ud_devpath = replicate 16 0 \<rparr>"

definition demo_desc :: "u32 \<Rightarrow> s32 \<Rightarrow> usb_iso_packet_descriptor" where
  "demo_desc off status = \<lparr> d_offset = off, d_actual_length = 100, d_status = status \<rparr>"

definition demo_urb :: "usb_iso_packet_descriptor list \<Rightarrow> urb" where
  "demo_urb ds = \<lparr> urb_dev = 1, urb_pipe = 0x8080, urb_status = 0, urb_error_count = 0,
     urb_number_of_packets = of_nat (length ds), urb_actual_length = 0, urb_transfer_buffer_length = 1000,
     urb_start_frame = 0, urb_transfer_buffer = 0x1000, urb_setup_packet = 0,
     urb_iso_frame_desc = (\<lambda>i. if i < length ds then Some (ds ! i) else None) \<rparr>"

text \<open>Offsets 0 and 100 hold payloads of frame id 0, the second with EOF; 200 one of frame id 1.\<close>

definition demo_bytes :: "u64 \<Rightarrow> nat \<Rightarrow> u8 list option" where
  "demo_bytes a n =
     Some (if a = 0x1000 then [2, 0] else if a = 0x1064 then [2, 2] else if a = 0x10c8 then [2, 1] else [2, 0])"

definition demo_env :: "u64 \<Rightarrow> usb_iso_packet_descriptor list \<Rightarrow> drv_env" where
  "demo_env now ds =
     \<lparr> en_arch32 = False, en_ktime = now, en_pid_tgid = 0, en_comm = replicate 16 0, en_room = (\<lambda>_ _. True),
       en_usb_device = (\<lambda>_. demo_dev), en_urb = (\<lambda>_. demo_urb ds), en_probe_read = demo_bytes,
       ux_vb2_queue = (\<lambda>_. \<lparr> vq_drv_priv = 0x5000, vq_num_buffers = 4, vq_queued_count = 0, vq_owned_by_drv_count = 4 \<rparr>),
       ux_vb2_buffer = (\<lambda>_. \<lparr> vb_vb2_queue = 0x4000, vb_index = 0, vb_type = 1, vb_timestamp = now, vb_bytesused = 0 \<rparr>),
       ux_off_vb2_buf = 0, ux_v4l2_sequence = (\<lambda>a. ucast a), ux_frame_ktime = now,
       dx_uvc_buffer = (\<lambda>_. \<lparr> ub_type = 1, ub_error = 1, ub_bytesused = 50 \<rparr>),
       dx_uvc_streaming = (\<lambda>_. \<lparr> us_dev = 1, us_dwMaxVideoFrameSize = 50, us_cur_format = 0 \<rparr>),
       dx_uvc_device_udev = (\<lambda>_. 1), dx_uvc_queue_flags = (\<lambda>_. 2), dx_uvc_format_flags = (\<lambda>_. 0),
       dx_uvc_urb = (\<lambda>_. \<lparr> uu_urb = 1, uu_stream = 1 \<rparr>), dx_off_ref = 8, dx_off_buf = 0, dx_off_queue = 16 \<rparr>"

definition demo_cfg :: uvc_config where
  "demo_cfg = \<lparr> uc_filter_vid = 0x046d, uc_filter_pid = 0, uc_no_frames = 0, uc_no_vb2 = 0, uc_fps_target = 0 \<rparr>"

definition demo_hooks :: "(drv_env \<times> uvc_hook) list" where
  "demo_hooks =
     [(demo_env 1000 [demo_desc 0 0, demo_desc 100 0], Video_complete 1),
      (demo_env 2000 [], Decode_isoc 1 0x7000),
      (demo_env 3000 [demo_desc 200 (- 71), demo_desc 0 0], Video_complete 1)]"

lemmas demo_defs = demo_dev_def demo_desc_def demo_urb_def demo_bytes_def demo_env_def demo_cfg_def demo_hooks_def

lemma demo_toks:
  "concat (map (hook_toks demo_cfg (stream_key 1 5 1)) demo_hooks) =
     (let p = (\<lambda>now h. Pay \<lparr> p_ids = \<lparr> ui_vid = 0x046d, ui_pid = 0x0825, ui_bus = 1, ui_dev = 5, ui_ep = 1 \<rparr>,
                p_comm = replicate 16 0, p_now = now, p_hdr = h @ replicate 10 0, p_alen = 100 \<rparr>)
      in [p 1000 [2, 0], p 1000 [2, 2], Err, p 3000 [2, 1], p 3000 [2, 0]])"
  by (simp add: demo_defs USBTRACE_KPTR_def USBTRACE_PTR_KEY_def urb_ids_def usbtrace_dev_match_def ids_key_def
      pipe_endpoint_def urb_toks_def packet_range_def UVC_MAX_ISOC_PKTS_def packet_toks_def packet_header_def
      read_hdr_def upt_rec Let_def)

text \<open>C26: For every stream, the frames the program submits over any run of its hooks are exactly the frames
  of the stream's packets: cut after EOF and where the frame id toggles, with the bytes, packets, errors,
  timestamps, PTS/SCR and intervals of the packets they are made of.\<close>

theorem uvc_frames_refine:
  assumes "list_all (\<lambda>h. en_room (fst h) ''streams'' (ucast k)) hs"
  shows "filter (\<lambda>f. fe_key f = k) (frames_in (snd (uvc_run cfg hs uvc_maps0)))
     = frames_of 0 (fst (split_frames [] (concat (map (hook_toks cfg k) hs))))"
proof -
  have "key_rep k 0 [] uvc_maps0" by (simp add: key_rep_def uvc_maps0_def)
  from run_rep[OF assms this] show ?thesis by (metis prod.collapse)
qed

theorem uvc_frames_refine_witness:
  "map (\<lambda>f. (fe_bytes f, fe_packets f, fe_err_packets f, fe_errored f, fe_interval_ns f))
     (filter (\<lambda>f. fe_key f = stream_key 1 5 1) (frames_in (snd (uvc_run demo_cfg demo_hooks uvc_maps0))))
   = [(196, 2, 0, 0, 0), (98, 1, 1, 1, 2000)]"
  by (subst uvc_frames_refine)
    (simp_all add: demo_toks, simp_all add: demo_hooks_def demo_env_def Let_def cut_before_def cut_after_def
      p_fid_def p_eof_def UVC_FID_def UVC_EOF_def frame_of_def p_len_def errs_def group_err_def p_err_def UVC_ERR_def)

text \<open>The frames of a stream account for its packets: over any run, the payload bytes, packets and
  packet errors of the submitted frames and of the frame still open add up to those of the stream; a
  frame without EOF is marked errored, and every submitted frame is a run of payloads of one frame id that
  contains no EOF before its end.\<close>

theorem uvc_frames_account:
  assumes "list_all (\<lambda>h. en_room (fst h) ''streams'' (ucast k)) hs"
  shows "let ts = concat (map (hook_toks cfg k) hs);
             fs = filter (\<lambda>f. fe_key f = k) (frames_in (snd (uvc_run cfg hs uvc_maps0)));
             (cs, g) = split_frames [] ts
         in sum_list (map fe_bytes fs) + sum_list (map p_len (pays g)) = sum_list (map p_len (pays ts))
            \<and> sum_list (map fe_packets fs) + of_nat (length (pays g)) = of_nat (length (pays ts))
            \<and> sum_list (map fe_err_packets fs) + of_nat (errs g) = of_nat (errs ts)
            \<and> list_all (\<lambda>f. (fe_eof f = 0 \<longrightarrow> fe_errored f = 1) \<and> fe_eof f \<le> 1 \<and> fe_fid f \<le> 1) fs
            \<and> length fs = length cs \<and> list_all frame_wf cs \<and> concat (map fst cs) @ g = ts"
proof -
  define ts where "ts = concat (map (hook_toks cfg k) hs)"
  obtain cs g where s: "split_frames [] ts = (cs, g)" by (cases "split_frames [] ts")
  have "key_rep k 0 [] uvc_maps0" by (simp add: key_rep_def uvc_maps0_def)
  from run_rep[OF assms this] s have fs: "filter (\<lambda>f. fe_key f = k) (frames_in (snd (uvc_run cfg hs uvc_maps0))) = frames_of 0 cs"
    unfolding ts_def by (metis prod.collapse)
  have w: "list_all frame_wf cs \<and> open_wf g \<and> concat (map fst cs) @ g = ts"
    using split_wf[OF _ s] by simp
  then have ts: "ts = concat (map fst cs) @ g" by simp
  have sums: "pays ts = pays (concat (map fst cs)) @ pays g" "errs ts = errs (concat (map fst cs)) + errs g"
    by (simp_all add: ts)
  have "length (frames_of prev cs) = length cs" for prev by (induction prev cs rule: frames_of.induct) auto
  then show ?thesis
    unfolding ts_def[symmetric] fs Let_def
    using w frames_status[of cs] by (simp add: s frames_sums sums)
qed

theorem uvc_frames_account_witness:
  "sum_list (map fe_bytes (filter (\<lambda>f. fe_key f = stream_key 1 5 1) (frames_in (snd (uvc_run demo_cfg demo_hooks uvc_maps0)))))
     + 98 = (392 :: u32)"
  using uvc_frames_account[of "stream_key 1 5 1" demo_hooks demo_cfg, unfolded demo_toks]
  by (simp add: demo_hooks_def demo_env_def Let_def cut_before_def cut_after_def p_fid_def p_eof_def
      UVC_FID_def UVC_EOF_def p_len_def)

section \<open>Drop causes\<close>

definition same_causes :: "uvc_maps \<Rightarrow> uvc_maps \<Rightarrow> bool" where
  "same_causes ms ms' \<longleftrightarrow> um_drv_drop_cause ms' = um_drv_drop_cause ms"

lemma qstate_causes: "uvc_vb2_qstate en q ms = (ms', r) \<Longrightarrow> same_causes ms ms'"
  by (auto simp: same_causes_def uvc_vb2_qstate_def Let_def split: option.splits)

lemma submit_causes: "um_drv_drop_cause (fst (uvc_vb2_submit en q b op state starved now seq gap interval wire ms))
    = um_drv_drop_cause ms"
  by (simp add: uvc_vb2_submit_def uvc_vb2_bind_dev_def Let_def)

lemma put_qstate_causes [simp]: "um_drv_drop_cause (put_qstate q st ms) = um_drv_drop_cause ms"
  by (simp add: put_qstate_def)

lemma corr_store_causes [simp]:
  "um_drv_drop_cause (uvc_corr_store en key vid pid bus dev bytes now ms) = um_drv_drop_cause ms"
  by (simp add: uvc_corr_store_def Let_def split: option.splits)

lemma starvation_causes: "same_causes ms (fst (uvc_check_starvation en bus dev now ms))"
  unfolding uvc_check_starvation_def Let_def
  by (auto simp: same_causes_def submit_causes dest!: qstate_causes split: option.splits prod.splits)

lemma vb2_causes: "same_causes ms (fst (vb2_tracepoint_hit tp cfg en q b ms))"
proof (cases tp)
qed (auto simp: same_causes_def submit_causes uvc_vb2_raw_done_def uvc_vb2_raw_qvb_def uvc_emit_vb2_done_def
    uvc_emit_vb2_xact_def Let_def dest!: qstate_causes split: option.splits prod.splits)

lemma emit_frame_causes:
  "uvc_emit_frame en ids eof now (st, ms, out) = (st', ms', out') \<Longrightarrow> same_causes ms ms'"
  using starvation_causes
    [of "uvc_note_wire_frame en (ui_bus ids) (ui_dev ids) (ui_vid ids) (ui_pid ids) (ss_cur_bytes st) now ms"
        en "ui_bus ids" "ui_dev ids" now]
  by (auto simp: uvc_emit_frame_def same_causes_def uvc_note_wire_frame_def Let_def split: prod.splits)

lemma packet_causes:
  "uvc_packet en ids now tbuf tblen od (st, ms, out) = (st', ms', out') \<Longrightarrow> same_causes ms ms'"
  by (auto simp: uvc_packet_def uvc_payload_def same_causes_def Let_def
      dest!: emit_frame_causes[unfolded same_causes_def] split: option.splits prod.splits if_splits)

lemma fold_packet_causes:
  "fold (\<lambda>i. uvc_packet en ids now tbuf tblen (ds i)) is (st, ms, out) = (st', ms', out') \<Longrightarrow> same_causes ms ms'"
proof (induction "is" arbitrary: st ms out)
  case (Cons i "is")
  obtain s1 m1 o1 where 1: "uvc_packet en ids now tbuf tblen (ds i) (st, ms, out) = (s1, m1, o1)"
    by (cases "uvc_packet en ids now tbuf tblen (ds i) (st, ms, out)")
  show ?case using Cons.IH[of s1 m1 o1] Cons.prems packet_causes[OF 1] by (simp add: 1 same_causes_def)
qed (simp add: same_causes_def)

lemma video_causes: "same_causes ms (fst (on_video_complete cfg en a ms))"
  by (auto simp: on_video_complete_def uvc_parse_frames_def same_causes_def Let_def
      dest!: fold_packet_causes[unfolded same_causes_def] split: option.splits prod.splits)

text \<open>Whether a hook records an isochronous loss for buffer \<open>b\<close>, and whether it completes \<open>b\<close>.\<close>

definition marks_loss :: "uvc_config \<Rightarrow> u64 \<Rightarrow> drv_env \<times> uvc_hook \<Rightarrow> bool" where
  "marks_loss cfg b h =
     (case h of
        (en, Decode_isoc u a) \<Rightarrow>
          (let uu = USBTRACE_KPTR (en_arch32 en) u in
           uu \<noteq> 0 \<and> USBTRACE_KPTR (en_arch32 en) a = b \<and> uvc_buf_is_video en b
           \<and> uvc_stream_usb cfg en (uu_stream (dx_uvc_urb en uu)) \<noteq> None \<and> uu_urb (dx_uvc_urb en uu) \<noteq> 0
           \<and> iso_loss (en_urb en (uu_urb (dx_uvc_urb en uu))))
      | _ \<Rightarrow> False)"

definition completes :: "u64 \<Rightarrow> drv_env \<times> uvc_hook \<Rightarrow> bool" where
  "completes b h =
     (case h of (en, Queue_complete r) \<Rightarrow> uvc_buf_from_ref en (USBTRACE_KPTR (en_arch32 en) r) = b | _ \<Rightarrow> False)"

text \<open>A loss of \<open>b\<close> since \<open>b\<close> was last completed.\<close>

definition loss_step :: "uvc_config \<Rightarrow> u64 \<Rightarrow> drv_env \<times> uvc_hook \<Rightarrow> bool \<Rightarrow> bool" where
  "loss_step cfg b h p = (if marks_loss cfg b h then True else if completes b h then False else p)"

definition loss_pending :: "uvc_config \<Rightarrow> u64 \<Rightarrow> (drv_env \<times> uvc_hook) list \<Rightarrow> bool" where
  "loss_pending cfg b hs =
     fold (loss_step cfg b) hs False"

text \<open>The driver drops the frame of \<open>b\<close>.\<close>

definition drops_frame :: "uvc_config \<Rightarrow> drv_env \<Rightarrow> u64 \<Rightarrow> bool" where
  "drops_frame cfg en b \<longleftrightarrow>
     (let q = uvc_buf_video_queue en b in
      uvc_buf_is_video en b \<and> q \<noteq> 0 \<and> uvc_stream_usb cfg en (q - dx_off_queue en) \<noteq> None
      \<and> dx_uvc_queue_flags en q AND UVC_QUEUE_DROP_CORRUPTED \<noteq> 0
      \<and> (ucast (ub_error (dx_uvc_buffer en b)) :: u8) \<noteq> 0)"

definition drv_ok :: "u64 \<Rightarrow> drv_env \<times> uvc_hook \<Rightarrow> bool" where
  "drv_ok b h \<longleftrightarrow> 0 \<le> sint (dx_off_queue (fst h)) \<and> en_room (fst h) ''drv_drop_cause'' b"

definition cause_rep :: "u64 \<Rightarrow> bool \<Rightarrow> uvc_maps \<Rightarrow> bool" where
  "cause_rep b p ms \<longleftrightarrow> um_drv_drop_cause ms b = (if p then Some UVC_DROP_ISO else None)"

lemma cause_rep_cong: "same_causes ms ms' \<Longrightarrow> cause_rep b p ms \<Longrightarrow> cause_rep b p ms'"
  by (simp add: cause_rep_def same_causes_def)

lemma take_cause:
  "um_drv_drop_cause (fst (uvc_drop_cause_take a ms)) = (um_drv_drop_cause ms)(a := None)"
  "snd (uvc_drop_cause_take a ms) = (case um_drv_drop_cause ms a of None \<Rightarrow> 0 | Some v \<Rightarrow> v)"
  by (auto simp: uvc_drop_cause_take_def bpf_map_delete_elem_def fun_upd_idem split: option.splits)

lemma complete_causes:
  assumes "0 \<le> sint (dx_off_queue en)"
  shows "um_drv_drop_cause (fst (on_queue_complete cfg en r ms))
     = (um_drv_drop_cause ms)(uvc_buf_from_ref en (USBTRACE_KPTR (en_arch32 en) r) := None)"
  using assms take_cause(1)
  by (auto simp: on_queue_complete_def Let_def split_def split: option.splits)

lemma decode_causes:
  "um_drv_drop_cause (fst (on_decode_isoc cfg en u a ms))
     = (let b = USBTRACE_KPTR (en_arch32 en) a in
        if b \<noteq> 0 \<and> marks_loss cfg b (en, Decode_isoc u a)
        then um_drv_drop_cause (uvc_drop_cause_add en b UVC_DROP_ISO ms) else um_drv_drop_cause ms)"
  by (auto simp: on_decode_isoc_def marks_loss_def Let_def split: option.splits)

lemma hit_cause:
  assumes b: "b \<noteq> 0" and ok: "drv_ok b h" and rep: "cause_rep b p ms" and run: "uvc_hit cfg h ms = (ms', out)"
  shows "cause_rep b (loss_step cfg b h p) ms'"
  unfolding loss_step_def
proof -
  obtain en hk where h: "h = (en, hk)" by (cases h)
  have keep: "cause_rep b (if marks_loss cfg b h then True else if completes b h then False else p) ms'" if "same_causes ms ms'" "\<not> marks_loss cfg b h" "\<not> completes b h"
    using that rep cause_rep_cong by simp
  show "cause_rep b (if marks_loss cfg b h then True else if completes b h then False else p) ms'"
  proof (cases hk)
    case (Video_complete a)
    then show ?thesis using run video_causes[of ms cfg en a]
      by (intro keep) (auto simp: h marks_loss_def completes_def)
  next
    case (Vb2_tracepoint tp q a)
    then show ?thesis using run vb2_causes[of ms tp cfg en q a]
      by (intro keep) (auto simp: h marks_loss_def completes_def)
  next
    case (Queue_next q a)
    then show ?thesis using run
      by (intro keep) (auto simp: h marks_loss_def completes_def same_causes_def on_queue_next_def Let_def
          split: if_splits option.splits)
  next
    case (Decode_isoc u a)
    define k where "k = USBTRACE_KPTR (en_arch32 en) a"
    have m: "marks_loss cfg b h \<Longrightarrow> k = b" by (simp add: h Decode_isoc marks_loss_def k_def Let_def)
    have c: "\<not> completes b h" by (simp add: h Decode_isoc completes_def)
    have ms': "um_drv_drop_cause ms' = (if k \<noteq> 0 \<and> marks_loss cfg k h
        then um_drv_drop_cause (uvc_drop_cause_add en k UVC_DROP_ISO ms) else um_drv_drop_cause ms)"
      using run decode_causes[of cfg en u a ms] by (simp add: h Decode_isoc k_def Let_def)
    have room: "en_room en ''drv_drop_cause'' b" using ok by (simp add: drv_ok_def h)
    show ?thesis
    proof (cases "marks_loss cfg b h")
      case True
      with m b have "um_drv_drop_cause ms' = um_drv_drop_cause (uvc_drop_cause_add en b UVC_DROP_ISO ms)"
        by (simp add: ms')
      then show ?thesis using True rep room
        by (auto simp: cause_rep_def uvc_drop_cause_add_def Let_def split: if_splits)
    next
      case False
      then have "um_drv_drop_cause ms' b = um_drv_drop_cause ms b"
        by (cases "k = b")
          (auto simp: ms' uvc_drop_cause_add_def Let_def bpf_map_update_elem_def split: option.splits)
      with False c rep show ?thesis by (simp add: cause_rep_def)
    qed
  next
    case (Queue_complete r)
    have "um_drv_drop_cause ms' = (um_drv_drop_cause ms)(uvc_buf_from_ref en (USBTRACE_KPTR (en_arch32 en) r) := None)"
      using run ok complete_causes[of en cfg r ms] by (simp add: h Queue_complete drv_ok_def)
    then show ?thesis using rep by (simp add: cause_rep_def h Queue_complete marks_loss_def completes_def)
  qed
qed

lemma run_cause:
  assumes "b \<noteq> 0" "list_all (drv_ok b) hs" "cause_rep b p ms"
  shows "cause_rep b (fold (loss_step cfg b) hs p) (fst (uvc_run cfg hs ms))"
  using assms(2,3)
proof (induction hs arbitrary: p ms)
  case (Cons h hs)
  obtain ms1 out1 where 1: "uvc_hit cfg h ms = (ms1, out1)" by (cases "uvc_hit cfg h ms")
  have "cause_rep b (loss_step cfg b h p) ms1"
    using hit_cause[OF assms(1) _ _ 1] Cons.prems by simp
  from Cons.IH[OF _ this] Cons.prems(1) show ?case by (simp add: 1 split_def Let_def)
qed simp

text \<open>C28: When a buffer completes after any run, the program reports a drop exactly when the driver drops
  the frame; the reason names an isochronous loss exactly when one was seen for this buffer since its last
  completion, a short frame exactly when an uncompressed frame has the wrong size, and the other cause only
  when neither holds. The cause is gone afterwards.\<close>

theorem drop_cause_exact:
  assumes "b \<noteq> 0" "list_all (drv_ok b) (hs @ [(en, Queue_complete r)])"
    and "uvc_buf_from_ref en (USBTRACE_KPTR (en_arch32 en) r) = b"
  shows "let (ms', out) = uvc_hit cfg (en, Queue_complete r) (fst (uvc_run cfg hs uvc_maps0));
             s = dx_uvc_streaming en (uvc_buf_video_queue en b - dx_off_queue en);
             compressed = us_cur_format s \<noteq> 0 \<and> dx_uvc_format_flags en (us_cur_format s) AND UVC_FMT_FLAG_COMPRESSED \<noteq> 0;
             short = (\<not> compressed \<and> us_dwMaxVideoFrameSize s \<noteq> 0
                      \<and> ub_bytesused (dx_uvc_buffer en b) \<noteq> us_dwMaxVideoFrameSize s)
         in um_drv_drop_cause ms' b = None
            \<and> (if drops_frame cfg en b
               then \<exists>d. out = [DrvRec d] \<and> de_drv_op d = UVC_DRV_DROP
                    \<and> de_reason d = (if loss_pending cfg b hs \<or> short
                                     then (if loss_pending cfg b hs then UVC_DROP_ISO else 0) OR (if short then UVC_DROP_SHORT else 0)
                                     else UVC_DROP_OTHER)
               else out = [])"
proof -
  define ms where "ms = fst (uvc_run cfg hs uvc_maps0)"
  have "cause_rep b (loss_pending cfg b hs) ms"
    unfolding ms_def loss_pending_def using assms(2)
    by (intro run_cause[OF assms(1)]) (simp_all add: cause_rep_def uvc_maps0_def)
  then have cause: "snd (uvc_drop_cause_take b ms) = (if loss_pending cfg b hs then UVC_DROP_ISO else 0)"
    by (simp add: take_cause cause_rep_def)
  have gone: "um_drv_drop_cause (fst (on_queue_complete cfg en r ms)) b = None"
    using complete_causes[of en cfg r ms] assms(2,3) by (simp add: drv_ok_def)
  have out: "snd (on_queue_complete cfg en r ms) =
      (if drops_frame cfg en b
       then (let st = uvc_buf_video_queue en b - dx_off_queue en in
             case uvc_stream_usb cfg en st of None \<Rightarrow> [] | Some (vid, pid, bus, dn) \<Rightarrow>
               [uvc_drv_emit UVC_DRV_DROP (drop_reason en b st (snd (uvc_drop_cause_take b ms))) vid pid bus dn (en_ktime en)])
       else [])"
    using assms
    by (auto simp: on_queue_complete_def drops_frame_def drv_ok_def Let_def split_def split: option.splits)
  have st: "drops_frame cfg en b \<Longrightarrow> uvc_stream_usb cfg en (uvc_buf_video_queue en b - dx_off_queue en) \<noteq> None"
    by (simp add: drops_frame_def Let_def)
  show ?thesis
    unfolding ms_def[symmetric] uvc_hit.simps Let_def split_def
    using gone out st
    by (auto simp: cause drop_reason_def uvc_drv_emit_def Let_def UVC_DROP_ISO_def UVC_DROP_SHORT_def
        UVC_DROP_OTHER_def)
qed

definition demo_loss :: "drv_env \<times> uvc_hook" where
  "demo_loss = (demo_env 2 [demo_desc 0 (- 71)], Decode_isoc 1 0x7000)"

lemma demo_loss_facts:
  "loss_pending demo_cfg 0x7000 [demo_loss]" "drops_frame demo_cfg (demo_env 9 []) 0x7000"
  "drv_ok 0x7000 demo_loss" "drv_ok 0x7000 (demo_env 9 [], Queue_complete 0x7008)"
  "uvc_buf_from_ref (demo_env 9 []) (USBTRACE_KPTR (en_arch32 (demo_env 9 [])) 0x7008) = 0x7000"
  by (simp_all add: demo_loss_def demo_defs loss_pending_def loss_step_def marks_loss_def drops_frame_def drv_ok_def
      uvc_buf_from_ref_def USBTRACE_KPTR_def USBTRACE_PTR_KEY_def uvc_buf_is_video_def VB2_TYPE_VIDEO_CAPTURE_def
      uvc_stream_usb_def usbtrace_dev_match_def iso_loss_def packet_range_def UVC_MAX_ISOC_PKTS_def upt_rec
      uvc_buf_video_queue_def UVC_QUEUE_DROP_CORRUPTED_def Let_def)

theorem drop_cause_exact_witness:
  "\<exists>d. snd (uvc_hit demo_cfg (demo_env 9 [], Queue_complete 0x7008) (fst (uvc_run demo_cfg [demo_loss] uvc_maps0)))
       = [DrvRec d] \<and> de_reason d = UVC_DROP_ISO"
  using drop_cause_exact[where b = "0x7000" and hs = "[demo_loss]" and en = "demo_env 9 []" and r = "0x7008" and cfg = demo_cfg]
    demo_loss_facts
  by (auto simp: Let_def split_def demo_env_def)

end
