(* ===== verification/Uvc_Vb2_Props.thy ===== *)
theory Uvc_Vb2_Props
  imports Uvc_Props
begin

text \<open>
  Properties of the vb2 layer: over any run, the completions of a queue carry the sequence, gap and interval its
  own history demands, whatever else the program does in between.
\<close>

section \<open>Completions of one queue\<close>

text \<open>The buffer completed on queue \<open>q\<close> by a hook the program acts on.\<close>

definition done_buf :: "uvc_config \<Rightarrow> u64 \<Rightarrow> drv_env \<times> uvc_hook \<Rightarrow> u64 option" where
  "done_buf cfg q h =
     (case h of
        (en, Vb2_tracepoint tp a b) \<Rightarrow>
          (let used = vb_bytesused (ux_vb2_buffer en b) in
           if (tp = Raw_vb2_buf_done \<or> tp = Raw_vb2_v4l2_buf_done) \<and> uc_no_vb2 cfg = 0 \<and> b \<noteq> 0
              \<and> (used = 0 \<or> VB2_MIN_BYTES \<le> used \<and> used \<le> VB2_MAX_BYTES)
              \<and> vb_vb2_queue (ux_vb2_buffer en b) = q \<and> q \<noteq> 0
           then Some b else None)
      | _ \<Rightarrow> None)"

fun vb2_in :: "uvc_out list \<Rightarrow> uvc_vb2_event list" where
  "vb2_in [] = []"
| "vb2_in (Vb2Rec v # os) = v # vb2_in os"
| "vb2_in (ClassRec c # os) = vb2_in os"
| "vb2_in (FrameRec f # os) = vb2_in os"
| "vb2_in (DrvRec d # os) = vb2_in os"

text \<open>The records of the completions of \<open>q\<close> in a run.\<close>

fun done_recs :: "uvc_config \<Rightarrow> u64 \<Rightarrow> (drv_env \<times> uvc_hook) list \<Rightarrow> uvc_maps \<Rightarrow> uvc_vb2_event list" where
  "done_recs cfg q [] ms = []"
| "done_recs cfg q (h # hs) ms =
     (let (ms1, out) = uvc_hit cfg h ms in
      (if done_buf cfg q h \<noteq> None then vb2_in out else []) @ done_recs cfg q hs ms1)"

text \<open>The history of a queue: kernel sequence (when available) and time of each completion.\<close>

definition done_hist :: "uvc_config \<Rightarrow> u64 \<Rightarrow> (drv_env \<times> uvc_hook) list \<Rightarrow> (u32 option \<times> u64) list" where
  "done_hist cfg q hs =
     concat (map (\<lambda>h. case done_buf cfg q h of None \<Rightarrow> []
                    | Some b \<Rightarrow> [(vb2_kernel_sequence (fst h) b, en_ktime (fst h))]) hs)"

definition seqs :: "(u32 option \<times> u64) list \<Rightarrow> u32 list" where
  "seqs hist = concat (map (\<lambda>x. case fst x of None \<Rightarrow> [] | Some s \<Rightarrow> [s]) hist)"

definition done_info :: "(u32 option \<times> u64) list \<Rightarrow> u32 option \<times> u64 \<Rightarrow> u32 \<times> u8 \<times> u32" where
  "done_info hist x =
     ((case fst x of Some s \<Rightarrow> s | None \<Rightarrow> of_nat (length hist + 1)),
      (case fst x of
         None \<Rightarrow> 0
       | Some s \<Rightarrow> if seqs hist \<noteq> [] \<and> s \<noteq> last (seqs hist) \<and> s \<noteq> last (seqs hist) + 1 then 1 else 0),
      (if hist \<noteq> [] \<and> snd (last hist) \<noteq> 0 then ucast (snd x - snd (last hist)) else 0))"

fun done_infos :: "(u32 option \<times> u64) list \<Rightarrow> (u32 option \<times> u64) list \<Rightarrow> (u32 \<times> u8 \<times> u32) list" where
  "done_infos hist [] = []"
| "done_infos hist (x # xs) = done_info hist x # done_infos (hist @ [x]) xs"

text \<open>The state of a queue represents its history; the starvation stamp is not part of it.\<close>

definition q_state :: "u64 \<Rightarrow> uvc_maps \<Rightarrow> vb2_qstate" where
  "q_state q ms = (case um_vb2_queues ms q of None \<Rightarrow> qstate0 | Some st \<Rightarrow> st\<lparr> qs_last_starve_ns := 0 \<rparr>)"

definition q_rep :: "(u32 option \<times> u64) list \<Rightarrow> vb2_qstate \<Rightarrow> bool" where
  "q_rep hist st \<longleftrightarrow>
     qs_done_count st = of_nat (length hist)
     \<and> qs_last_done_ns st = (if hist = [] then 0 else snd (last hist))
     \<and> (qs_have_last_seq st \<longleftrightarrow> seqs hist \<noteq> [])
     \<and> (seqs hist \<noteq> [] \<longrightarrow> qs_last_sequence st = last (seqs hist))"

lemma seqs_snoc [simp]: "seqs [] = []" "seqs (hist @ [(s, t)]) = seqs hist @ (case s of None \<Rightarrow> [] | Some n \<Rightarrow> [n])"
  by (simp_all add: seqs_def)

lemma seq_gap_spec: "vb2_seq_gap p s = (if s \<noteq> p \<and> s \<noteq> p + 1 then 1 else 0)"
  by (auto simp: vb2_seq_gap_def Let_def)

lemma done_step_rep:
  assumes "q_rep hist (st\<lparr> qs_last_starve_ns := 0 \<rparr>)"
    and "vb2_done_step en b now st = (st', seq, gap, iv)"
  shows "q_rep (hist @ [(vb2_kernel_sequence en b, now)]) (st'\<lparr> qs_last_starve_ns := 0 \<rparr>)
    \<and> (seq, gap, iv) = done_info hist (vb2_kernel_sequence en b, now)"
  using assms
  by (cases "vb2_kernel_sequence en b")
    (auto simp: q_rep_def vb2_done_step_def done_info_def seq_gap_spec Let_def add.commute)

section \<open>What leaves the queue's state alone\<close>

definition keeps_q :: "u64 \<Rightarrow> uvc_maps \<Rightarrow> uvc_maps \<Rightarrow> bool" where
  "keeps_q q ms ms' \<longleftrightarrow> q_state q ms' = q_state q ms"

lemma keeps_q_cong: "um_vb2_queues ms' = um_vb2_queues ms \<Longrightarrow> keeps_q q ms ms'"
  by (simp add: keeps_q_def q_state_def)

lemma keeps_q_trans: "keeps_q q a b \<Longrightarrow> keeps_q q b c \<Longrightarrow> keeps_q q a c"
  by (simp add: keeps_q_def)

lemma qstate_queues:
  assumes "uvc_vb2_qstate en q0 ms = (ms1, r)"
  shows "keeps_q q ms ms1" "r = um_vb2_queues ms1 q0"
proof -
  have "q_state q (ms\<lparr> um_vb2_queues := bpf_map_update_elem room q0 qstate0 (um_vb2_queues ms) \<rparr>) = q_state q ms"
    if "um_vb2_queues ms q0 = None" for room
    using that by (cases "q = q0") (auto simp: q_state_def bpf_map_update_elem_def qstate0_def)
  then show "keeps_q q ms ms1" "r = um_vb2_queues ms1 q0"
    using assms by (auto simp: keeps_q_def uvc_vb2_qstate_def Let_def split: option.splits)
qed

lemma submit_queues:
  "um_vb2_queues (fst (uvc_vb2_submit en q b op state starved now seq gap interval wire ms)) = um_vb2_queues ms"
  by (simp add: uvc_vb2_submit_def uvc_vb2_bind_dev_def Let_def)

lemma starve_stamp_keeps:
  assumes "um_vb2_queues ms q0 = Some st"
  shows "keeps_q q ms (put_qstate q0 (st\<lparr> qs_last_starve_ns := now \<rparr>) ms)"
  using assms by (cases "q = q0") (auto simp: keeps_q_def q_state_def put_qstate_def)

lemma corr_store_queues [simp]:
  "um_vb2_queues (uvc_corr_store en key vid pid bus dev bytes now ms) = um_vb2_queues ms"
  by (simp add: uvc_corr_store_def Let_def split: option.splits)

lemma starvation_keeps: "keeps_q q ms (fst (uvc_check_starvation en bus dev now ms))"
proof -
  have "keeps_q q ms (fst (uvc_vb2_submit en q0 0 UVC_VB2_STARVED 0 1 now 0 0 0 0
      (put_qstate q0 (st\<lparr> qs_last_starve_ns := now \<rparr>) ms1)))"
    if "uvc_vb2_qstate en q0 ms = (ms1, Some st)" for q0 ms1 st
    using qstate_queues(1)[OF that, of q] starve_stamp_keeps[of ms1 q0 st q now] qstate_queues(2)[OF that]
      keeps_q_cong[OF submit_queues] by (metis keeps_q_trans)
  then show ?thesis
    unfolding uvc_check_starvation_def Let_def
    by (auto simp: keeps_q_cong dest: qstate_queues(1) split: option.splits prod.splits)
qed

lemma emit_frame_keeps:
  "uvc_emit_frame en ids eof now (st, ms, out) = (st', ms', out') \<Longrightarrow> keeps_q q ms ms'"
proof -
  define ms1 where "ms1 = uvc_note_wire_frame en (ui_bus ids) (ui_dev ids) (ui_vid ids) (ui_pid ids) (ss_cur_bytes st) now ms"
  assume "uvc_emit_frame en ids eof now (st, ms, out) = (st', ms', out')"
  then have "ms' = fst (uvc_check_starvation en (ui_bus ids) (ui_dev ids) now ms1)"
    by (auto simp: uvc_emit_frame_def ms1_def Let_def split: prod.splits)
  moreover have "keeps_q q ms ms1" by (rule keeps_q_cong) (simp add: ms1_def uvc_note_wire_frame_def)
  ultimately show "keeps_q q ms ms'" using starvation_keeps keeps_q_trans by metis
qed

lemma packet_keeps:
  assumes "uvc_packet en ids now tbuf tblen od (st, ms, out) = (st', ms', out')"
  shows "keeps_q q ms ms'"
proof -
  have refl: "keeps_q q m m" for m by (simp add: keeps_q_def)
  show ?thesis
    using assms
    by (auto simp: uvc_packet_def uvc_payload_def Let_def refl
        dest!: emit_frame_keeps[where q = q] intro: keeps_q_trans split: option.splits prod.splits if_splits)
qed

lemma fold_packet_keeps:
  "fold (\<lambda>i. uvc_packet en ids now tbuf tblen (ds i)) is (st, ms, out) = (st', ms', out') \<Longrightarrow> keeps_q q ms ms'"
proof (induction "is" arbitrary: st ms out)
  case (Cons i "is")
  obtain s1 m1 o1 where 1: "uvc_packet en ids now tbuf tblen (ds i) (st, ms, out) = (s1, m1, o1)"
    by (cases "uvc_packet en ids now tbuf tblen (ds i) (st, ms, out)")
  show ?case using Cons.IH[of s1 m1 o1] Cons.prems packet_keeps[OF 1] by (auto simp: 1 intro: keeps_q_trans)
qed (simp add: keeps_q_def)

lemma video_keeps: "keeps_q q ms (fst (on_video_complete cfg en a ms))"
proof -
  have refl: "um_vb2_queues m' = um_vb2_queues m \<Longrightarrow> keeps_q q m m'" for m m' by (rule keeps_q_cong)
  have "keeps_q q ms (fst (uvc_parse_frames cfg en u ms))" for u
    unfolding uvc_parse_frames_def Let_def
    by (auto simp: keeps_q_def q_state_def dest!: fold_packet_keeps[where q = q]
        split: option.splits prod.splits)
  then show ?thesis by (auto simp: on_video_complete_def Let_def split_def intro: refl)
qed

lemma drv_keeps:
  "keeps_q q ms (fst (on_queue_next cfg en a b ms))" "keeps_q q ms (fst (on_decode_isoc cfg en a b ms))"
  "keeps_q q ms (fst (on_queue_complete cfg en a ms))"
  unfolding on_queue_next_def on_decode_isoc_def on_queue_complete_def
  by (auto simp: uvc_drop_cause_add_def uvc_drop_cause_take_def uvc_drv_emit_def Let_def
      intro!: keeps_q_cong split: option.splits prod.splits)

lemma xact_keeps: "keeps_q q ms (fst (uvc_emit_vb2_xact en q0 b op state ms))"
  unfolding uvc_emit_vb2_xact_def Let_def
  by (auto intro!: keeps_q_cong simp: submit_queues)

section \<open>A completion\<close>

definition accepted :: "'x uvc_env_scheme \<Rightarrow> u64 \<Rightarrow> bool" where
  "accepted en b \<longleftrightarrow>
     (let used = vb_bytesused (ux_vb2_buffer en b) in
      (used = 0 \<or> VB2_MIN_BYTES \<le> used \<and> used \<le> VB2_MAX_BYTES) \<and> vb_vb2_queue (ux_vb2_buffer en b) \<noteq> 0)"

lemma emit_done_rejected: "\<not> accepted en b \<Longrightarrow> uvc_emit_vb2_done en b VB2_BUF_STATE_DONE ms = (ms, [])"
  by (auto simp: accepted_def uvc_emit_vb2_done_def Let_def not_less)

lemma vb2_in_submit:
  assumes "uvc_vb2_submit en q b op state starved now seq gap iv wire ms = (ms', out)"
  shows "\<exists>v. vb2_in out = [v] \<and> ve_sequence v = seq \<and> ve_seq_gap v = gap \<and> ve_interval_ns v = iv
     \<and> um_vb2_queues ms' = um_vb2_queues ms"
proof -
  define v where "v = uvc_vb2_fill_device ms now (vb2_record en q b op state starved now seq gap iv wire)"
  have "out = [Vb2Rec v]" "um_vb2_queues ms' = um_vb2_queues ms"
    using assms by (auto simp: uvc_vb2_submit_def v_def Let_def uvc_vb2_bind_dev_def split: if_splits)
  moreover have "ve_sequence v = seq" "ve_seq_gap v = gap" "ve_interval_ns v = iv"
    by (auto simp: v_def uvc_vb2_fill_device_def vb2_record_def Let_def split: option.splits prod.splits)
  ultimately show ?thesis by simp
qed

lemma emit_done_accepted:
  assumes acc: "accepted en b" and q: "q0 = vb_vb2_queue (ux_vb2_buffer en b)" and room: "en_room en ''vb2_queues'' q0"
    and run: "uvc_emit_vb2_done en b VB2_BUF_STATE_DONE ms = (ms', out)"
  obtains st st' seq gap iv v where
    "q_state q0 ms = st\<lparr> qs_last_starve_ns := 0 \<rparr>" "vb2_done_step en b (en_ktime en) st = (st', seq, gap, iv)"
    "q_state q0 ms' = st'\<lparr> qs_last_starve_ns := 0 \<rparr>" "q0 \<noteq> q \<Longrightarrow> keeps_q q ms ms'"
    "vb2_in out = [v]" "ve_sequence v = seq" "ve_seq_gap v = gap" "ve_interval_ns v = iv"
proof -
  obtain ms1 r where g: "uvc_vb2_qstate en q0 ms = (ms1, r)" by (cases "uvc_vb2_qstate en q0 ms")
  obtain st where st: "r = Some st"
    using g room by (cases "um_vb2_queues ms q0") (auto simp: uvc_vb2_qstate_def Let_def dest: sym[of "Some _"])
  obtain st' seq gap iv where step: "vb2_done_step en b (en_ktime en) st = (st', seq, gap, iv)"
    by (metis prod_cases4)
  define ms2 where "ms2 = put_qstate q0 st' ms1"
  have used: "\<not> (vb_bytesused (ux_vb2_buffer en b) \<noteq> 0 \<and> (vb_bytesused (ux_vb2_buffer en b) < VB2_MIN_BYTES
      \<or> vb_bytesused (ux_vb2_buffer en b) > VB2_MAX_BYTES))" and q0: "q0 \<noteq> 0"
    using acc q by (auto simp: accepted_def Let_def not_less)
  obtain wire where sub: "uvc_vb2_submit en q0 b UVC_VB2_DONE VB2_BUF_STATE_DONE 0 (en_ktime en) seq gap iv wire ms2 = (ms', out)"
    using run g st step q0
    by (simp add: uvc_emit_vb2_done_def Let_def if_not_P[OF used] q[symmetric] ms2_def)
  obtain v where v: "vb2_in out = [v]" "ve_sequence v = seq" "ve_seq_gap v = gap" "ve_interval_ns v = iv"
    and same: "um_vb2_queues ms' = um_vb2_queues ms2"
    using vb2_in_submit[OF sub] by blast
  note qs = qstate_queues[OF g]
  have 1: "q_state q0 ms = st\<lparr> qs_last_starve_ns := 0 \<rparr>"
    using qs(1)[of q0] qs(2) st by (simp add: keeps_q_def q_state_def split: option.splits)
  have 2: "q_state q0 ms' = st'\<lparr> qs_last_starve_ns := 0 \<rparr>"
    by (simp add: q_state_def same ms2_def put_qstate_def)
  have 3: "keeps_q q ms ms'" if "q0 \<noteq> q"
  proof -
    have "q_state q ms' = q_state q ms1" using that by (simp add: q_state_def same ms2_def put_qstate_def)
    with qs(1)[of q] show ?thesis by (simp add: keeps_q_def)
  qed
  show ?thesis by (rule that[OF 1 step 2 3 v])
qed

lemma hit_done:
  assumes room: "\<And>q. en_room (fst h) ''vb2_queues'' q" and rep: "q_rep hist (q_state q ms)"
    and run: "uvc_hit cfg h ms = (ms', out)"
  shows "case done_buf cfg q h of
      None \<Rightarrow> q_rep hist (q_state q ms')
    | Some b \<Rightarrow>
        let x = (vb2_kernel_sequence (fst h) b, en_ktime (fst h)) in
        q_rep (hist @ [x]) (q_state q ms')
        \<and> map (\<lambda>v. (ve_sequence v, ve_seq_gap v, ve_interval_ns v)) (vb2_in out) = [done_info hist x]"
proof -
  obtain en hk where h: "h = (en, hk)" by (cases h)
  have keep: ?thesis if "keeps_q q ms ms'" "done_buf cfg q h = None"
    using that rep by (simp add: keeps_q_def)
  show ?thesis
  proof (cases hk)
    case (Vb2_tracepoint tp a b)
    define fin where "fin = (tp = Raw_vb2_buf_done \<or> tp = Raw_vb2_v4l2_buf_done)"
    show ?thesis
    proof (cases "fin \<and> uc_no_vb2 cfg = 0 \<and> b \<noteq> 0 \<and> accepted en b")
      case False
      have "keeps_q q ms ms'"
        using run False h Vb2_tracepoint xact_keeps[of q ms en]
        by (cases tp) (auto simp: fin_def uvc_vb2_raw_done_def uvc_vb2_raw_qvb_def emit_done_rejected
            intro: keeps_q_cong split: if_splits, (metis fst_conv xact_keeps)+)
      moreover have "done_buf cfg q h = None"
        using False by (auto simp: h Vb2_tracepoint done_buf_def fin_def accepted_def Let_def)
      ultimately show ?thesis by (rule keep)
    next
      case True
      define q0 where "q0 = vb_vb2_queue (ux_vb2_buffer en b)"
      have r: "uvc_emit_vb2_done en b VB2_BUF_STATE_DONE ms = (ms', out)"
        using run True h Vb2_tracepoint by (cases tp) (auto simp: fin_def uvc_vb2_raw_done_def)
      have room': "en_room en ''vb2_queues'' q0" using room by (simp add: h)
      have d: "done_buf cfg q h = (if q0 = q then Some b else None)"
        using True by (auto simp: h Vb2_tracepoint done_buf_def fin_def accepted_def q0_def Let_def)
      from True have acc: "accepted en b" by simp
      obtain st st' seq gap iv v where e:
        "q_state q0 ms = st\<lparr> qs_last_starve_ns := 0 \<rparr>" "vb2_done_step en b (en_ktime en) st = (st', seq, gap, iv)"
        "q_state q0 ms' = st'\<lparr> qs_last_starve_ns := 0 \<rparr>" "q0 \<noteq> q \<Longrightarrow> keeps_q q ms ms'"
        "vb2_in out = [v]" "ve_sequence v = seq" "ve_seq_gap v = gap" "ve_interval_ns v = iv"
        using emit_done_accepted[OF acc q0_def room' r] by metis
      show ?thesis
      proof (cases "q0 = q")
        case True
        with rep e(1) have "q_rep hist (st\<lparr> qs_last_starve_ns := 0 \<rparr>)" by simp
        from done_step_rep[OF this e(2)] have
          "q_rep (hist @ [(vb2_kernel_sequence en b, en_ktime en)]) (q_state q ms')"
          "(seq, gap, iv) = done_info hist (vb2_kernel_sequence en b, en_ktime en)"
          using True e(3) by simp_all
        moreover have "done_buf cfg q h = Some b" using True by (simp add: d)
        ultimately show ?thesis using e(5-8) by (simp add: h)
      next
        case False
        then show ?thesis using e(4) by (intro keep) (simp_all add: d)
      qed
    qed
  next
    case (Video_complete a)
    then show ?thesis using run video_keeps[of q ms cfg en a] by (intro keep) (auto simp: h done_buf_def)
  next
    case (Queue_next u a)
    then show ?thesis using run drv_keeps(1)[of q ms cfg en u a] by (intro keep) (auto simp: h done_buf_def)
  next
    case (Decode_isoc u a)
    then show ?thesis using run drv_keeps(2)[of q ms cfg en u a] by (intro keep) (auto simp: h done_buf_def)
  next
    case (Queue_complete u)
    then show ?thesis using run drv_keeps(3)[of q ms cfg en u] by (intro keep) (auto simp: h done_buf_def)
  qed
qed

lemma done_recs_rep:
  assumes "list_all (\<lambda>h. \<forall>q. en_room (fst h) ''vb2_queues'' q) hs" "q_rep hist (q_state q ms)"
  shows "map (\<lambda>v. (ve_sequence v, ve_seq_gap v, ve_interval_ns v)) (done_recs cfg q hs ms)
     = done_infos hist (done_hist cfg q hs)"
  using assms
proof (induction hs arbitrary: hist ms)
  case Nil
  then show ?case by (simp add: done_hist_def)
next
  case (Cons h hs)
  obtain ms1 out where 1: "uvc_hit cfg h ms = (ms1, out)" by (cases "uvc_hit cfg h ms")
  have room: "en_room (fst h) ''vb2_queues'' q" for q using Cons.prems(1) by simp
  note hit = hit_done[OF room Cons.prems(2) 1]
  show ?case
  proof (cases "done_buf cfg q h")
    case None
    with hit Cons.IH[of hist ms1] Cons.prems(1) show ?thesis by (simp add: 1 done_hist_def)
  next
    case (Some b)
    define x where "x = (vb2_kernel_sequence (fst h) b, en_ktime (fst h))"
    from hit Some have "q_rep (hist @ [x]) (q_state q ms1)"
      "map (\<lambda>v. (ve_sequence v, ve_seq_gap v, ve_interval_ns v)) (vb2_in out) = [done_info hist x]"
      by (simp_all add: x_def Let_def)
    with Cons.IH[of "hist @ [x]" ms1] Cons.prems(1) Some show ?thesis
      by (simp add: 1 done_hist_def x_def[symmetric])
  qed
qed

section \<open>Properties\<close>

text \<open>C29: Over any run of the program's hooks, the completions of a queue report the kernel's sequence
  number (or, without it, their ordinal), a gap exactly when the number is neither the previous one nor its
  successor (modulo 2^32), and the time since the previous completion; nothing the other hooks or other queues
  do changes this.\<close>

theorem vb2_completions_exact:
  assumes "list_all (\<lambda>h. \<forall>q. en_room (fst h) ''vb2_queues'' q) hs"
  shows "map (\<lambda>v. (ve_sequence v, ve_seq_gap v, ve_interval_ns v)) (done_recs cfg q hs uvc_maps0)
     = done_infos [] (done_hist cfg q hs)"
proof -
  have "q_rep [] (q_state q uvc_maps0)"
    by (simp add: q_rep_def q_state_def uvc_maps0_def qstate0_def)
  from done_recs_rep[OF assms this] show ?thesis .
qed

text \<open>Sequence numbers are the low bits of the buffer's address here: 1, 2, then 5.\<close>

definition demo_done :: "(drv_env \<times> uvc_hook) list" where
  "demo_done = [(demo_env 1000 [], Vb2_tracepoint Raw_vb2_buf_done 0 1), (demo_env 1300 [], Vb2_tracepoint Raw_vb2_buf_done 0 2),
     (demo_env 1400 [], Vb2_tracepoint Raw_vb2_qbuf 0x4000 3), (demo_env 1700 [], Vb2_tracepoint Raw_vb2_buf_done 0 5)]"

lemma demo_done_hist:
  "done_hist demo_cfg 0x4000 demo_done = [(Some 1, 1000), (Some 2, 1300), (Some 5, 1700)]"
  by (simp add: done_hist_def demo_done_def demo_defs done_buf_def vb2_kernel_sequence_def Let_def)

theorem vb2_completions_exact_witness:
  "map (\<lambda>v. (ve_sequence v, ve_seq_gap v, ve_interval_ns v)) (done_recs demo_cfg 0x4000 demo_done uvc_maps0)
     = [(1, 0, 0), (2, 0, 300), (5, 1, 400)]"
  by (subst vb2_completions_exact)
    (simp add: demo_done_def demo_env_def, simp add: demo_done_hist done_info_def seqs_def)

end
