(* ===== verification/Uvc_Starvation.thy ===== *)
theory Uvc_Starvation
  imports Uvc_Vb2_Props
begin

text \<open>
  Starvation over whole runs. What the program should report is computed from its inputs and the frame and
  buffer records it submitted, without its maps: each wire frame of a device whose queue has no buffer queued
  for the driver is a check, a device's queue is the one of the latest buffer record that named the device,
  and a check is reported unless the latest report for the same queue is less than a cooldown old. The
  starvation records of any run are exactly these reports.
\<close>

section \<open>What should be reported\<close>

text \<open>Each hook of a run with the records it submitted.\<close>

fun uvc_trace :: "uvc_config \<Rightarrow> (drv_env \<times> uvc_hook) list \<Rightarrow> uvc_maps \<Rightarrow> ((drv_env \<times> uvc_hook) \<times> uvc_out list) list" where
  "uvc_trace cfg [] ms = []"
| "uvc_trace cfg (h # hs) ms = (let (ms1, out) = uvc_hit cfg h ms in (h, out) # uvc_trace cfg hs ms1)"

text \<open>The queue of each device: that of the latest buffer record carrying the device's numbers.\<close>

definition hit_queue :: "drv_env \<Rightarrow> vb2_tracepoint \<Rightarrow> u64 \<Rightarrow> u64 \<Rightarrow> u64" where
  "hit_queue en tp a b =
     (if tp = Raw_vb2_buf_done \<or> tp = Raw_vb2_v4l2_buf_done then vb_vb2_queue (ux_vb2_buffer en b) else a)"

definition bind_queue :: "drv_env \<times> uvc_hook \<Rightarrow> uvc_out list \<Rightarrow> (u32 \<rightharpoonup> u64) \<Rightarrow> (u32 \<rightharpoonup> u64)" where
  "bind_queue h out m =
     (case h of
        (en, Vb2_tracepoint tp a b) \<Rightarrow>
          (case vb2_in out of
             [] \<Rightarrow> m
           | v # vs \<Rightarrow> if ve_busnum v = 0 \<and> ve_devnum v = 0 then m
                       else m(dev_key (ve_busnum v) (ve_devnum v) \<mapsto> hit_queue en tp a b))
      | _ \<Rightarrow> m)"

text \<open>The check made for a wire frame: the empty queue of its device and the time.\<close>

definition frame_check :: "drv_env \<Rightarrow> (u32 \<rightharpoonup> u64) \<Rightarrow> uvc_frame_event \<Rightarrow> (u64 \<times> u64) list" where
  "frame_check en m f =
     (if fe_busnum f = 0 \<and> fe_devnum f = 0 then []
      else case m (dev_key (fe_busnum f) (fe_devnum f)) of
        None \<Rightarrow> []
      | Some q \<Rightarrow> if q \<noteq> 0 \<and> (ucast (vq_queued_count (ux_vb2_queue en q)) :: u16) = 0
                  then [(q, h_ts_ns (fe_hdr f))] else [])"

fun starve_checks :: "(u32 \<rightharpoonup> u64) \<Rightarrow> ((drv_env \<times> uvc_hook) \<times> uvc_out list) list \<Rightarrow> (u64 \<times> u64) list" where
  "starve_checks m [] = []"
| "starve_checks m ((h, out) # tr) =
     concat (map (frame_check (fst h) m) (frames_in out)) @ starve_checks (bind_queue h out m) tr"

text \<open>The checks reported, given the reports before them (the latest first).\<close>

definition cooling :: "(u64 \<times> u64) list \<Rightarrow> u64 \<Rightarrow> u64 \<Rightarrow> bool" where
  "cooling past q t \<longleftrightarrow> (case map_of past q of None \<Rightarrow> False | Some l \<Rightarrow> l \<noteq> 0 \<and> t - l < VB2_STARVE_COOLDOWN_NS)"

fun starve_reports :: "(u64 \<times> u64) list \<Rightarrow> (u64 \<times> u64) list \<Rightarrow> (u64 \<times> u64) list" where
  "starve_reports past [] = []"
| "starve_reports past ((q, t) # cs) =
     (if cooling past q t then starve_reports past cs else (q, t) # starve_reports ((q, t) # past) cs)"

text \<open>The starvation records of an output, and what one says.\<close>

definition starved_in :: "uvc_out list \<Rightarrow> uvc_vb2_event list" where
  "starved_in out = filter (\<lambda>v. ve_vb2_op v = UVC_VB2_STARVED) (vb2_in out)"

definition tells_starved :: "uvc_vb2_event \<Rightarrow> u64 \<times> u64 \<Rightarrow> bool" where
  "tells_starved v = (\<lambda>(q, t). h_ts_ns (ve_hdr v) = t \<and> ve_starved v = 1 \<and> ve_queued v = 0)"

lemma reports_append:
  "starve_reports past (a @ b) = starve_reports past a @ starve_reports (rev (starve_reports past a) @ past) b"
  by (induction past a rule: starve_reports.induct) auto

lemma vb2_in_append [simp]: "vb2_in (a @ b) = vb2_in a @ vb2_in b"
  by (induction a rule: vb2_in.induct) auto

lemma vb2_in_ClassRec [simp]: "vb2_in (map ClassRec cs) = []"
  by (induction cs) auto

lemma starved_in_simps [simp]:
  "starved_in [] = []" "starved_in (a @ b) = starved_in a @ starved_in b" "starved_in (map ClassRec cs) = []"
  "starved_in [FrameRec f] = []" "starved_in (FrameRec f # out) = starved_in out"
  by (simp_all add: starved_in_def)

lemma vb2_in_run: "concat (map (starved_in \<circ> snd) (uvc_trace cfg hs ms)) = starved_in (snd (uvc_run cfg hs ms))"
  by (induction hs arbitrary: ms) (auto simp: Let_def split: prod.splits)

section \<open>The maps hold the latest report of each queue\<close>

definition starve_stamp :: "u64 \<Rightarrow> uvc_maps \<Rightarrow> u64" where
  "starve_stamp q ms = (case um_vb2_queues ms q of None \<Rightarrow> 0 | Some st \<Rightarrow> qs_last_starve_ns st)"

definition starve_rep :: "(u64 \<times> u64) list \<Rightarrow> (u32 \<rightharpoonup> u64) \<Rightarrow> uvc_maps \<Rightarrow> bool" where
  "starve_rep past m ms \<longleftrightarrow>
     um_vb2_dev_queue ms = m
     \<and> (\<forall>q. starve_stamp q ms = (case map_of past q of None \<Rightarrow> 0 | Some l \<Rightarrow> l))"

lemma starve_rep_cong:
  "um_vb2_dev_queue ms' = um_vb2_dev_queue ms \<Longrightarrow> um_vb2_queues ms' = um_vb2_queues ms
   \<Longrightarrow> starve_rep past m ms \<Longrightarrow> starve_rep past m ms'"
  by (simp add: starve_rep_def starve_stamp_def)

lemma corr_store_dev_queue [simp]:
  "um_vb2_dev_queue (uvc_corr_store en key vid pid bus dev bytes now ms) = um_vb2_dev_queue ms"
  by (simp add: uvc_corr_store_def Let_def split: option.splits)

lemma qstate_starve:
  assumes "uvc_vb2_qstate en q0 ms = (ms1, r)" "en_room en ''vb2_queues'' q0"
  shows "starve_stamp q ms1 = starve_stamp q ms" "um_vb2_dev_queue ms1 = um_vb2_dev_queue ms"
    "um_stream_corr ms1 = um_stream_corr ms"
    "\<exists>st. r = Some st \<and> um_vb2_queues ms1 q0 = Some st \<and> qs_last_starve_ns st = starve_stamp q0 ms"
proof -
  show "starve_stamp q ms1 = starve_stamp q ms"
    using assms by (cases "q = q0")
      (auto simp: uvc_vb2_qstate_def starve_stamp_def qstate0_def Let_def split: option.splits)
  show "um_vb2_dev_queue ms1 = um_vb2_dev_queue ms" "um_stream_corr ms1 = um_stream_corr ms"
    "\<exists>st. r = Some st \<and> um_vb2_queues ms1 q0 = Some st \<and> qs_last_starve_ns st = starve_stamp q0 ms"
    using assms by (cases "um_vb2_queues ms q0";
      auto simp: uvc_vb2_qstate_def starve_stamp_def qstate0_def Let_def)+
qed

lemma cooling_stamp:
  assumes "starve_rep past m ms"
  shows "cooling past q t \<longleftrightarrow> starve_stamp q ms \<noteq> 0 \<and> t - starve_stamp q ms < VB2_STARVE_COOLDOWN_NS"
  using assms by (auto simp: cooling_def starve_rep_def split: option.splits)

text \<open>The latest wire frame, if the map holds one, is of this device.\<close>

definition corr_names :: "u16 \<Rightarrow> u16 \<Rightarrow> uvc_maps \<Rightarrow> bool" where
  "corr_names bus dev ms \<longleftrightarrow>
     (case um_stream_corr ms 0 of None \<Rightarrow> True | Some c \<Rightarrow> sc_busnum c = bus \<and> sc_devnum c = dev)"

lemma note_wire_names: "corr_names bus dev (uvc_note_wire_frame en bus dev vid pid bytes now ms)"
  by (auto simp: uvc_note_wire_frame_def uvc_corr_store_def corr_names_def bpf_map_update_elem_def Let_def
      split: option.splits if_splits)

lemma submit_out:
  assumes "uvc_vb2_submit en q b op state starved now seq gap iv wire ms = (ms', out)"
  shows "\<exists>v. out = [Vb2Rec v] \<and> ve_vb2_op v = op \<and> ve_starved v = starved \<and> h_ts_ns (ve_hdr v) = now
    \<and> (q \<noteq> 0 \<longrightarrow> ve_queued v = ucast (vq_queued_count (ux_vb2_queue en q)))
    \<and> um_vb2_queues ms' = um_vb2_queues ms
    \<and> um_vb2_dev_queue ms' = (if ve_busnum v = 0 \<and> ve_devnum v = 0 then um_vb2_dev_queue ms
         else bpf_map_update_elem (en_room en ''vb2_dev_queue'' (ucast (dev_key (ve_busnum v) (ve_devnum v))))
                (dev_key (ve_busnum v) (ve_devnum v)) q (um_vb2_dev_queue ms))
    \<and> (ve_busnum v = 0 \<and> ve_devnum v = 0
       \<or> (\<exists>c. um_stream_corr ms 0 = Some c \<and> ve_busnum v = sc_busnum c \<and> ve_devnum v = sc_devnum c))"
proof -
  define v where "v = uvc_vb2_fill_device ms now (vb2_record en q b op state starved now seq gap iv wire)"
  have "out = [Vb2Rec v]" "um_vb2_queues ms' = um_vb2_queues ms"
    "um_vb2_dev_queue ms' = (if ve_busnum v = 0 \<and> ve_devnum v = 0 then um_vb2_dev_queue ms
         else bpf_map_update_elem (en_room en ''vb2_dev_queue'' (ucast (dev_key (ve_busnum v) (ve_devnum v))))
                (dev_key (ve_busnum v) (ve_devnum v)) q (um_vb2_dev_queue ms))"
    using assms by (auto simp: uvc_vb2_submit_def v_def[symmetric] Let_def uvc_vb2_bind_dev_def split: if_splits)
  moreover have "ve_vb2_op v = op" "ve_starved v = starved" "h_ts_ns (ve_hdr v) = now"
    "q \<noteq> 0 \<longrightarrow> ve_queued v = ucast (vq_queued_count (ux_vb2_queue en q))"
    "ve_busnum v = 0 \<and> ve_devnum v = 0
       \<or> (\<exists>c. um_stream_corr ms 0 = Some c \<and> ve_busnum v = sc_busnum c \<and> ve_devnum v = sc_devnum c)"
    by (auto simp: v_def uvc_vb2_fill_device_def vb2_record_def vb2_read_pool_def Let_def split: option.splits prod.splits)
  ultimately show ?thesis by blast
qed

text \<open>The queue of a device that has no queued buffer for the driver.\<close>

definition starved_queue :: "'x uvc_env_scheme \<Rightarrow> u16 \<Rightarrow> u16 \<Rightarrow> uvc_maps \<Rightarrow> u64 option" where
  "starved_queue en bus dev ms =
     (if bus = 0 \<and> dev = 0 then None
      else case um_vb2_dev_queue ms (dev_key bus dev) of
        None \<Rightarrow> None
      | Some q \<Rightarrow> if q \<noteq> 0 \<and> (ucast (vq_queued_count (ux_vb2_queue en q)) :: u16) = 0 then Some q else None)"

lemma starvation_none:
  "starved_queue en bus dev ms = None \<Longrightarrow> snd (uvc_check_starvation en bus dev now ms) = []"
  by (auto simp: starved_queue_def uvc_check_starvation_def vb2_read_pool_def Let_def word_neq_0_conv
      split: if_splits option.splits prod.splits)

text \<open>A report stamps its queue and leaves every binding as it is: the record names the device whose queue it is.\<close>

lemma check_starves:
  assumes room: "\<And>q. en_room en ''vb2_queues'' q" and rep: "starve_rep past m ms" and names: "corr_names bus dev ms"
    and f: "fe_busnum f = bus" "fe_devnum f = dev" "h_ts_ns (fe_hdr f) = now"
    and run: "uvc_check_starvation en bus dev now ms = (ms', out)"
    and rs: "rs = starve_reports past (frame_check en m f)"
  shows "starve_rep (rev rs @ past) m ms' \<and> list_all2 tells_starved (starved_in out) rs"
proof -
  have m: "um_vb2_dev_queue ms = m" using rep by (simp add: starve_rep_def)
  show ?thesis
  proof (cases "frame_check en m f")
    case Nil
    then have "starved_queue en bus dev ms = None"
      by (auto simp: frame_check_def starved_queue_def f m split: option.splits if_splits)
    then have "out = []" using starvation_none[of en bus dev ms now] run by simp
    moreover have "starve_rep past m ms'"
      using run Nil rep room qstate_starve
      unfolding uvc_check_starvation_def Let_def
      by (auto simp: frame_check_def f m vb2_read_pool_def Let_def word_neq_0_conv split: option.splits if_splits prod.splits)
    ultimately show ?thesis using Nil by (simp add: rs)
  next
    case (Cons c cs)
    then obtain q where q: "\<not> (bus = 0 \<and> dev = 0)" "m (dev_key bus dev) = Some q" "q \<noteq> 0"
      "(ucast (vq_queued_count (ux_vb2_queue en q)) :: u16) = 0" and c: "frame_check en m f = [(q, now)]"
      by (auto simp: frame_check_def f split: option.splits if_splits)
    obtain ms1 r where g: "uvc_vb2_qstate en q ms = (ms1, r)" by (cases "uvc_vb2_qstate en q ms")
    obtain st where st: "r = Some st" "um_vb2_queues ms1 q = Some st" "qs_last_starve_ns st = starve_stamp q ms"
      using qstate_starve(4)[OF g room] by blast
    note qs = qstate_starve(1-3)[OF g room]
    have rep1: "starve_rep past m ms1" using rep qs by (simp add: starve_rep_def)
    define ms2 where "ms2 = put_qstate q (st\<lparr> qs_last_starve_ns := now \<rparr>) ms1"
    have eq: "uvc_check_starvation en bus dev now ms =
        (if cooling past q now then (ms1, []) else uvc_vb2_submit en q 0 UVC_VB2_STARVED 0 1 now 0 0 0 0 ms2)"
      unfolding uvc_check_starvation_def Let_def if_not_P[OF q(1)] m q(2)
      using q(3,4) g st by (simp add: vb2_read_pool_def Let_def cooling_stamp[OF rep] ms2_def)
    show ?thesis
    proof (cases "cooling past q now")
      case True
      then show ?thesis using run rep1 by (simp add: eq rs c)
    next
      case False
      have sub: "uvc_vb2_submit en q 0 UVC_VB2_STARVED 0 1 now 0 0 0 0 ms2 = (ms', out)"
        using False run by (simp add: eq)
      obtain v where v: "out = [Vb2Rec v]" "ve_vb2_op v = UVC_VB2_STARVED" "ve_starved v = 1" "h_ts_ns (ve_hdr v) = now"
        "q \<noteq> 0 \<longrightarrow> ve_queued v = ucast (vq_queued_count (ux_vb2_queue en q))"
        "um_vb2_queues ms' = um_vb2_queues ms2"
        "um_vb2_dev_queue ms' = (if ve_busnum v = 0 \<and> ve_devnum v = 0 then um_vb2_dev_queue ms2
         else bpf_map_update_elem (en_room en ''vb2_dev_queue'' (ucast (dev_key (ve_busnum v) (ve_devnum v))))
                (dev_key (ve_busnum v) (ve_devnum v)) q (um_vb2_dev_queue ms2))"
        "ve_busnum v = 0 \<and> ve_devnum v = 0
           \<or> (\<exists>c. um_stream_corr ms2 0 = Some c \<and> ve_busnum v = sc_busnum c \<and> ve_devnum v = sc_devnum c)"
        using submit_out[OF sub] by blast
      have same: "um_vb2_dev_queue ms2 = m" "um_stream_corr ms2 = um_stream_corr ms"
        using qs m by (simp_all add: ms2_def put_qstate_def)
      have "ve_busnum v = 0 \<and> ve_devnum v = 0 \<or> ve_busnum v = bus \<and> ve_devnum v = dev"
        using v(8) names by (auto simp: same corr_names_def)
      then have dq: "um_vb2_dev_queue ms' = m"
        using v(7) q(1,2) by (auto simp: same update_present fun_upd_idem)
      have "starve_stamp q' ms' = (if q' = q then now else starve_stamp q' ms1)" for q'
        by (simp add: starve_stamp_def v(6) ms2_def put_qstate_def)
      then have "starve_rep ((q, now) # past) m ms'" using rep1 dq by (simp add: starve_rep_def)
      then show ?thesis
        using False v q(3,4) by (simp add: rs c starved_in_def tells_starved_def)
    qed
  qed
qed

section \<open>Hooks and runs\<close>

text \<open>A state of the packet loop: its reports are those of the frames submitted so far.\<close>

definition starve_loop ::
  "(u64 \<times> u64) list \<Rightarrow> drv_env \<Rightarrow> (u32 \<rightharpoonup> u64) \<Rightarrow> uvc_stream_state \<times> uvc_maps \<times> uvc_out list \<Rightarrow> bool" where
  "starve_loop past en m s \<longleftrightarrow>
     (case s of (st, ms, out) \<Rightarrow>
       let rs = starve_reports past (concat (map (frame_check en m) (frames_in out)))
       in starve_rep (rev rs @ past) m ms \<and> list_all2 tells_starved (starved_in out) rs)"

lemma emit_frame_starves:
  assumes room: "\<And>q. en_room en ''vb2_queues'' q" and s: "starve_loop past en m s"
  shows "starve_loop past en m (uvc_emit_frame en ids eof now s)"
proof -
  obtain st ms out where s': "s = (st, ms, out)" by (cases s)
  define ms1 where "ms1 = uvc_note_wire_frame en (ui_bus ids) (ui_dev ids) (ui_vid ids) (ui_pid ids) (ss_cur_bytes st) now ms"
  obtain ms2 out2 where c: "uvc_check_starvation en (ui_bus ids) (ui_dev ids) now ms1 = (ms2, out2)"
    by (cases "uvc_check_starvation en (ui_bus ids) (ui_dev ids) now ms1")
  define f where "f = frame_record en ids eof now st"
  define rs where "rs = starve_reports past (concat (map (frame_check en m) (frames_in out)))"
  define r2 where "r2 = starve_reports (rev rs @ past) (frame_check en m f)"
  have old: "starve_rep (rev rs @ past) m ms" "list_all2 tells_starved (starved_in out) rs"
    using s by (simp_all add: s' starve_loop_def rs_def Let_def)
  have rep1: "starve_rep (rev rs @ past) m ms1"
    by (rule starve_rep_cong[OF _ _ old(1)]) (simp_all add: ms1_def uvc_note_wire_frame_def)
  have names: "corr_names (ui_bus ids) (ui_dev ids) ms1" by (simp add: ms1_def note_wire_names)
  have f: "fe_busnum f = ui_bus ids" "fe_devnum f = ui_dev ids" "h_ts_ns (fe_hdr f) = now"
    by (simp_all add: f_def frame_record_def)
  have new: "starve_rep (rev r2 @ rev rs @ past) m ms2" "list_all2 tells_starved (starved_in out2) r2"
    using check_starves[OF room rep1 names f c r2_def] by simp_all
  have nf: "frames_in out2 = []"
    using starvation_no_frames[of ms1 en "ui_bus ids" "ui_dev ids" now] by (simp add: no_frames_def c)
  have "uvc_emit_frame en ids eof now s = (reset_stream now st, ms2, out @ [FrameRec f] @ out2)"
    by (simp add: uvc_emit_frame_def s' ms1_def[symmetric] c f_def)
  then show ?thesis
    using old new
    by (simp add: starve_loop_def nf reports_append rs_def[symmetric] r2_def[symmetric] list_all2_appendI)
qed

lemma packet_starves:
  assumes room: "\<And>q. en_room en ''vb2_queues'' q" and s: "starve_loop past en m s"
  shows "starve_loop past en m (uvc_packet en ids now tbuf tblen od s)"
proof -
  have stream: "starve_loop past en m (st', ms, out)" if "starve_loop past en m (st, ms, out)" for st st' ms out
    using that by (simp add: starve_loop_def)
  have payload: "starve_loop past en m (uvc_payload en ids now hdr alen s)" if s: "starve_loop past en m s" for hdr alen s
  proof -
    obtain st ms out where s': "s = (st, ms, out)" by (cases s)
    define r1 where "r1 = (if \<not> ss_active st then (open_frame (hdr ! 1 AND UVC_FID) now st, ms, out)
       else if ss_have_fid st \<and> hdr ! 1 AND UVC_FID \<noteq> ss_cur_fid st then
         let (st', ms', out') = uvc_emit_frame en ids False now (st, ms, out)
         in (open_frame (hdr ! 1 AND UVC_FID) now st', ms', out')
       else (st, ms, out))"
    have "starve_loop past en m r1"
      using s emit_frame_starves[OF room s, of ids False now] stream
      by (auto simp: r1_def s' split: prod.split)
    moreover define s2 where "s2 = (case r1 of (st1, ms1, out1) \<Rightarrow> (add_payload hdr alen st1, ms1, out1))"
    ultimately have s2: "starve_loop past en m s2" using stream by (cases r1) auto
    have "uvc_payload en ids now hdr alen s =
        (if hdr ! 1 AND UVC_EOF \<noteq> 0 then uvc_emit_frame en ids True now s2 else s2)"
      by (auto simp: uvc_payload_def s' r1_def s2_def Let_def split: prod.splits)
    then show ?thesis using s2 emit_frame_starves[OF room s2] by simp
  qed
  obtain st ms out where s': "s = (st, ms, out)" by (cases s)
  show ?thesis
    using s payload stream by (auto simp: uvc_packet_def s' Let_def split: option.splits)
qed

lemma fold_packet_starves:
  "(\<And>q. en_room en ''vb2_queues'' q) \<Longrightarrow> starve_loop past en m s
   \<Longrightarrow> starve_loop past en m (fold (\<lambda>i. uvc_packet en ids now tbuf tblen (ds i)) is s)"
  by (induction "is" arbitrary: s) (simp_all add: packet_starves)

text \<open>What a hook has to do.\<close>

definition hook_starves ::
  "(u64 \<times> u64) list \<Rightarrow> (u32 \<rightharpoonup> u64) \<Rightarrow> drv_env \<times> uvc_hook \<Rightarrow> uvc_maps \<times> uvc_out list \<Rightarrow> bool" where
  "hook_starves past m h r \<longleftrightarrow>
     (let (ms', out) = r; rs = starve_reports past (concat (map (frame_check (fst h) m) (frames_in out)))
      in starve_rep (rev rs @ past) (bind_queue h out m) ms' \<and> list_all2 tells_starved (starved_in out) rs)"

lemma video_starves:
  assumes room: "\<And>q. en_room en ''vb2_queues'' q" and rep: "starve_rep past m ms"
  shows "hook_starves past m (en, Video_complete a) (on_video_complete cfg en a ms)"
proof -
  have quiet: "starve_loop past en m (st, ms', [])" if "starve_rep past m ms'" for st ms'
    using that by (simp add: starve_loop_def)
  have "\<exists>st. starve_loop past en m (st, uvc_parse_frames cfg en u ms)" for u
  proof -
    have str: "starve_rep past m (ms\<lparr> um_streams := x \<rparr>)" for x
      by (rule starve_rep_cong[OF _ _ rep]) simp_all
    have upd: "starve_loop past en m (st', ms'\<lparr> um_streams := x \<rparr>, out)" if "starve_loop past en m (st, ms', out)"
      for st st' ms' out x
      using that by (auto simp: starve_loop_def Let_def intro: starve_rep_cong[rotated 2])
    show ?thesis
    proof (cases "urb_ids cfg en u")
      case None
      then show ?thesis using quiet[OF rep] by (simp add: uvc_parse_frames_def)
    next
      case (Some ids)
      define ms1 where "ms1 = ms\<lparr> um_streams := with_stream en (ids_key ids) (um_streams ms) \<rparr>"
      define loop where "loop st = fold (\<lambda>i. uvc_packet en ids (ux_frame_ktime en) (urb_transfer_buffer (en_urb en u))
          (urb_transfer_buffer_length (en_urb en u)) (urb_iso_frame_desc (en_urb en u) i))
        (packet_range (urb_number_of_packets (en_urb en u))) (st, ms1, [])" for st
      have l: "starve_loop past en m (loop st)" for st
        unfolding loop_def ms1_def by (rule fold_packet_starves[OF room quiet[OF str]])
      have eq: "uvc_parse_frames cfg en u ms =
         (case with_stream en (ids_key ids) (um_streams ms) (ids_key ids) of None \<Rightarrow> (ms1, [])
          | Some st \<Rightarrow> if urb_transfer_buffer (en_urb en u) = 0 then (ms1, [])
              else (let (st', ms', out) = loop st
                    in (ms'\<lparr> um_streams := (um_streams ms')(ids_key ids \<mapsto> st') \<rparr>, out)))"
        unfolding uvc_parse_frames_def Some loop_def ms1_def by (simp add: Let_def)
      have q: "starve_loop past en m (st, ms1, [])" for st unfolding ms1_def by (rule quiet[OF str])
      show ?thesis
        unfolding eq using q l upd
        by (auto split: option.split prod.split) (metis)
    qed
  qed
  then obtain st where st: "starve_loop past en m (st, uvc_parse_frames cfg en (USBTRACE_KPTR (en_arch32 en) a) ms)"
    by blast
  then show ?thesis
    using rep
    by (auto simp: on_video_complete_def hook_starves_def starve_loop_def bind_queue_def Let_def split: prod.splits)
qed

lemma quiet_starves:
  assumes "starve_rep past m ms" "um_vb2_dev_queue ms' = um_vb2_dev_queue ms" "um_vb2_queues ms' = um_vb2_queues ms"
    "frames_in out = []" "vb2_in out = []"
  shows "hook_starves past m h (ms', out)"
  using assms starve_rep_cong[OF assms(2,3,1)]
  by (auto simp: hook_starves_def bind_queue_def starved_in_def split: prod.split uvc_hook.split)

lemma submit_starves:
  assumes sub: "uvc_vb2_submit en q b0 op state starved now seq gap iv wire ms = (ms', out)"
    and rep: "starve_rep past m ms" and op: "op \<noteq> UVC_VB2_STARVED" and q: "q = hit_queue en tp a b"
    and room: "\<And>k. en_room en ''vb2_dev_queue'' k"
  shows "hook_starves past m (en, Vb2_tracepoint tp a b) (ms', out)"
proof -
  obtain v where v: "out = [Vb2Rec v]" "ve_vb2_op v = op" "um_vb2_queues ms' = um_vb2_queues ms"
    "um_vb2_dev_queue ms' = (if ve_busnum v = 0 \<and> ve_devnum v = 0 then um_vb2_dev_queue ms
         else bpf_map_update_elem (en_room en ''vb2_dev_queue'' (ucast (dev_key (ve_busnum v) (ve_devnum v))))
                (dev_key (ve_busnum v) (ve_devnum v)) q (um_vb2_dev_queue ms))"
    using submit_out[OF sub] by blast
  have "starve_rep past (bind_queue (en, Vb2_tracepoint tp a b) out m) ms'"
    using rep v room by (simp add: starve_rep_def starve_stamp_def bind_queue_def q)
  then show ?thesis using v(1,2) op by (simp add: hook_starves_def starved_in_def)
qed

lemma done_step_stamp:
  "vb2_done_step en b now st = (st', seq, gap, iv) \<Longrightarrow> qs_last_starve_ns st' = qs_last_starve_ns st"
  by (auto simp: vb2_done_step_def Let_def split: option.splits)

lemma done_starves:
  assumes room: "\<And>k. en_room en ''vb2_queues'' k" "\<And>k. en_room en ''vb2_dev_queue'' k" and rep: "starve_rep past m ms"
    and tp: "tp = Raw_vb2_buf_done \<or> tp = Raw_vb2_v4l2_buf_done"
  shows "hook_starves past m (en, Vb2_tracepoint tp a b) (uvc_emit_vb2_done en b VB2_BUF_STATE_DONE ms)"
proof (cases "accepted en b")
  case False
  then show ?thesis using quiet_starves[OF rep] by (simp add: emit_done_rejected)
next
  case True
  define q where "q = vb_vb2_queue (ux_vb2_buffer en b)"
  obtain ms1 r where g: "uvc_vb2_qstate en q ms = (ms1, r)" by (cases "uvc_vb2_qstate en q ms")
  obtain st where st: "r = Some st" "um_vb2_queues ms1 q = Some st" "qs_last_starve_ns st = starve_stamp q ms"
    using qstate_starve(4)[OF g room(1)] by blast
  obtain st' seq gap iv where step: "vb2_done_step en b (en_ktime en) st = (st', seq, gap, iv)"
    by (metis prod_cases4)
  define ms2 where "ms2 = put_qstate q st' ms1"
  have used: "\<not> (vb_bytesused (ux_vb2_buffer en b) \<noteq> 0 \<and> (vb_bytesused (ux_vb2_buffer en b) < VB2_MIN_BYTES
      \<or> vb_bytesused (ux_vb2_buffer en b) > VB2_MAX_BYTES))" and q0: "q \<noteq> 0"
    using True by (auto simp: accepted_def q_def Let_def not_less)
  obtain wire where eq: "uvc_emit_vb2_done en b VB2_BUF_STATE_DONE ms
      = uvc_vb2_submit en q b UVC_VB2_DONE VB2_BUF_STATE_DONE 0 (en_ktime en) seq gap iv wire ms2"
    using g st step q0
    by (simp add: uvc_emit_vb2_done_def Let_def if_not_P[OF used] q_def[symmetric] ms2_def)
  have "starve_stamp q' ms2 = starve_stamp q' ms" for q'
    using st(3) done_step_stamp[OF step] qstate_starve(1)[OF g room(1), of q']
    by (auto simp: ms2_def put_qstate_def starve_stamp_def)
  then have rep2: "starve_rep past m ms2"
    using rep qstate_starve(2)[OF g room(1)] by (simp add: starve_rep_def ms2_def put_qstate_def)
  obtain ms' out where sub: "uvc_vb2_submit en q b UVC_VB2_DONE VB2_BUF_STATE_DONE 0 (en_ktime en) seq gap iv wire ms2 = (ms', out)"
    by (cases "uvc_vb2_submit en q b UVC_VB2_DONE VB2_BUF_STATE_DONE 0 (en_ktime en) seq gap iv wire ms2")
  show ?thesis
    unfolding eq sub
    by (rule submit_starves[OF sub rep2 _ _ room(2)])
      (use tp in \<open>auto simp: UVC_VB2_DONE_def UVC_VB2_STARVED_def hit_queue_def q_def\<close>)
qed

lemma xact_starves:
  assumes room: "\<And>k. en_room en ''vb2_dev_queue'' k" and rep: "starve_rep past m ms"
    and tp: "tp \<noteq> Raw_vb2_buf_done" "tp \<noteq> Raw_vb2_v4l2_buf_done" and op: "op \<noteq> UVC_VB2_STARVED"
  shows "hook_starves past m (en, Vb2_tracepoint tp a b) (uvc_emit_vb2_xact en a b op state ms)"
proof (cases "a = 0 \<or> b = 0 \<or> \<not> vb2_is_capture en b")
  case True
  then show ?thesis using quiet_starves[OF rep] by (auto simp: uvc_emit_vb2_xact_def Let_def)
next
  case False
  then have eq: "uvc_emit_vb2_xact en a b op state ms = uvc_vb2_submit en a b op state 0 (en_ktime en) 0 0 0 0 ms"
    by (simp add: uvc_emit_vb2_xact_def Let_def)
  obtain ms' out where sub: "uvc_vb2_submit en a b op state 0 (en_ktime en) 0 0 0 0 ms = (ms', out)"
    by (cases "uvc_vb2_submit en a b op state 0 (en_ktime en) 0 0 0 0 ms")
  show ?thesis unfolding eq sub using tp by (intro submit_starves[OF sub rep op _ room]) (simp add: hit_queue_def)
qed

text \<open>What the hooks of the driver layer do to the queues.\<close>

definition untouched :: "uvc_maps \<Rightarrow> uvc_maps \<times> uvc_out list \<Rightarrow> bool" where
  "untouched ms r \<longleftrightarrow>
     um_vb2_dev_queue (fst r) = um_vb2_dev_queue ms \<and> um_vb2_queues (fst r) = um_vb2_queues ms
     \<and> frames_in (snd r) = [] \<and> vb2_in (snd r) = []"

lemma untouched_starves: "untouched ms r \<Longrightarrow> starve_rep past m ms \<Longrightarrow> hook_starves past m h r"
  using quiet_starves[of past m ms "fst r" "snd r" h] by (simp add: untouched_def)

lemma drv_untouched:
  "untouched ms (on_queue_next cfg en a b ms)" "untouched ms (on_decode_isoc cfg en a b ms)"
  "untouched ms (on_queue_complete cfg en a ms)"
  unfolding on_queue_next_def on_decode_isoc_def on_queue_complete_def
  by (auto simp: untouched_def uvc_drop_cause_add_def uvc_drop_cause_take_def uvc_drv_emit_def Let_def
      split: option.splits prod.splits)

definition starve_room :: "drv_env \<times> uvc_hook \<Rightarrow> bool" where
  "starve_room h \<longleftrightarrow> (\<forall>k. en_room (fst h) ''vb2_queues'' k \<and> en_room (fst h) ''vb2_dev_queue'' k)"

lemma hit_starves:
  assumes room: "starve_room h" and rep: "starve_rep past m ms"
  shows "hook_starves past m h (uvc_hit cfg h ms)"
proof -
  obtain en hk where h: "h = (en, hk)" by (cases h)
  have r: "en_room en ''vb2_queues'' k" "en_room en ''vb2_dev_queue'' k" for k
    using room by (simp_all add: starve_room_def h)
  show ?thesis
  proof (cases hk)
    case (Vb2_tracepoint tp a b)
    then show ?thesis
      using quiet_starves[OF rep] done_starves[OF r rep, of tp a b] xact_starves[OF r(2) rep, of tp _ a b]
      by (cases tp) (auto simp: h uvc_vb2_raw_done_def uvc_vb2_raw_qvb_def UVC_VB2_STARVED_def UVC_VB2_QUEUE_def
          UVC_VB2_QBUF_def UVC_VB2_DQBUF_def)
  next
    case (Video_complete a)
    then show ?thesis using video_starves[OF r(1) rep] by (simp add: h)
  qed (simp_all add: h untouched_starves[OF drv_untouched(1) rep] untouched_starves[OF drv_untouched(2) rep]
      untouched_starves[OF drv_untouched(3) rep])
qed

lemma run_starves:
  assumes "list_all starve_room hs" "starve_rep past m ms"
  shows "list_all2 tells_starved (starved_in (snd (uvc_run cfg hs ms)))
     (starve_reports past (starve_checks m (uvc_trace cfg hs ms)))"
  using assms
proof (induction hs arbitrary: past m ms)
  case (Cons h hs)
  obtain ms1 out where 1: "uvc_hit cfg h ms = (ms1, out)" by (cases "uvc_hit cfg h ms")
  define rs where "rs = starve_reports past (concat (map (frame_check (fst h) m) (frames_in out)))"
  have "starve_rep (rev rs @ past) (bind_queue h out m) ms1" "list_all2 tells_starved (starved_in out) rs"
    using hit_starves[of h past m ms cfg] Cons.prems by (auto simp: 1 hook_starves_def rs_def Let_def)
  with Cons.IH[OF _ this(1)] Cons.prems(1) show ?case
    by (simp add: 1 reports_append rs_def[symmetric] list_all2_appendI Let_def split_def)
qed simp

section \<open>The property\<close>

lemma reports_cool:
  "starve_reports past cs = mid @ (q, t') # post \<Longrightarrow> q \<notin> fst ` set mid \<Longrightarrow> \<not> cooling past q t'"
proof (induction past cs arbitrary: mid rule: starve_reports.induct)
  case (2 past q0 t0 cs)
  show ?case
  proof (cases "cooling past q0 t0")
    case True
    then show ?thesis using 2 by simp
  next
    case False
    show ?thesis
    proof (cases mid)
      case Nil
      then show ?thesis using 2(3) False by simp
    next
      case (Cons c mid')
      then have "\<not> cooling ((q0, t0) # past) q t'" "q \<noteq> q0"
        using 2(2)[of mid'] 2(3,4) False by auto
      then show ?thesis by (simp add: cooling_def)
    qed
  qed
qed simp

lemma reports_spaced:
  "starve_reports past cs = pre @ (q, t) # mid @ (q, t') # post \<Longrightarrow> q \<notin> fst ` set mid \<Longrightarrow> t \<noteq> 0
   \<Longrightarrow> VB2_STARVE_COOLDOWN_NS \<le> t' - t"
proof (induction past cs arbitrary: pre rule: starve_reports.induct)
  case (2 past q0 t0 cs)
  show ?case
  proof (cases "cooling past q0 t0")
    case True
    then show ?thesis using 2 by simp
  next
    case False
    show ?thesis
    proof (cases pre)
      case Nil
      then have "starve_reports ((q, t) # past) cs = mid @ (q, t') # post" using 2(3) False by auto
      from reports_cool[OF this 2(4)] 2(5) show ?thesis by (simp add: cooling_def not_less)
    next
      case (Cons c pre')
      then show ?thesis using 2(2)[of pre'] 2(3-5) False by auto
    qed
  qed
qed simp

text \<open>C30: Over any run of the program's hooks, the starvation records are exactly the reports that are due: a
  wire frame is a check when the queue of its device (the one of the latest buffer record that named the
  device) has no buffer queued for the driver, and a check is reported, with its time, unless the latest report
  for the same queue is less than the cooldown old; whatever completions, buffer exchanges, frames of other
  devices and driver hooks happen in between. So two successive reports for one queue are a cooldown apart.\<close>

theorem starvation_exact:
  assumes "list_all starve_room hs"
  shows "let reports = starve_reports [] (starve_checks Map.empty (uvc_trace cfg hs uvc_maps0)) in
     list_all2 tells_starved (starved_in (snd (uvc_run cfg hs uvc_maps0))) reports
     \<and> (\<forall>pre q t mid t' post. reports = pre @ (q, t) # mid @ (q, t') # post \<longrightarrow> q \<notin> fst ` set mid \<longrightarrow> t \<noteq> 0
           \<longrightarrow> VB2_STARVE_COOLDOWN_NS \<le> t' - t)"
proof -
  have "starve_rep [] Map.empty uvc_maps0" by (simp add: starve_rep_def starve_stamp_def uvc_maps0_def)
  from run_starves[OF assms this] show ?thesis unfolding Let_def using reports_spaced by blast
qed

text \<open>Frames of a device at 1000, 2000, 4000 and 100002000, buffers completed on its queue at 1300 and 3000: the
  first frame comes before the queue is known, the third within the cooldown of the second.\<close>

definition demo_starve :: "(drv_env \<times> uvc_hook) list" where
  "demo_starve =
     (let fr = (\<lambda>t. (demo_env t [demo_desc 100 0], Video_complete 1));
          dn = (\<lambda>t b. (demo_env t [], Vb2_tracepoint Raw_vb2_buf_done 0 b))
      in [fr 1000, dn 1300 1, fr 2000, dn 3000 2, fr 4000, fr 100002000])"

lemma demo_starve_reports:
  "starve_reports [] (starve_checks Map.empty (uvc_trace demo_cfg demo_starve uvc_maps0))
     = [(0x4000, 2000), (0x4000, 100002000)]"
  by code_simp

lemma demo_starve_room: "list_all starve_room demo_starve"
  by (simp add: demo_starve_def starve_room_def demo_env_def Let_def)

theorem starvation_exact_witness:
  "map (h_ts_ns \<circ> ve_hdr) (starved_in (snd (uvc_run demo_cfg demo_starve uvc_maps0))) = [2000, 100002000]"
  using starvation_exact[OF demo_starve_room, of demo_cfg]
  by (auto simp: demo_starve_reports tells_starved_def list_all2_Cons2 Let_def)

end
