(* ===== verification/Pending_Map.thy ===== *)
theory Pending_Map
  imports Bpf_Core
begin

text \<open>
  Several programs pair the entry of a kernel function with its return (or a submission with its
  completion): the entry hook stashes a value under a key, the exit hook takes it. The interface says what the
  map they use promises, and the lemma of the interface gives what a take yields after any run: the
  value last stashed under the key since its last removal. \<open>pend\<close> is the interface on the BPF hash map.
\<close>

datatype ('k, 'v) pend_op = Stash 'k 'v | Drop 'k | Keep

text \<open>The value pending under \<open>k\<close>, from the operations alone.\<close>

fun pending_step :: "'k \<Rightarrow> ('k, 'v) pend_op \<Rightarrow> 'v option \<Rightarrow> 'v option" where
  "pending_step k (Stash k' v) p = (if k' = k then Some v else p)"
| "pending_step k (Drop k') p = (if k' = k then None else p)"
| "pending_step k Keep p = p"

definition pending :: "'k \<Rightarrow> ('k, 'v) pend_op list \<Rightarrow> 'v option" where
  "pending k ops = fold (pending_step k) ops None"

locale pending_map =
  fixes lookup :: "'m \<Rightarrow> 'k \<Rightarrow> 'v option"
    and stash :: "'k \<Rightarrow> 'v \<Rightarrow> 'm \<Rightarrow> 'm"
    and drop :: "'k \<Rightarrow> 'm \<Rightarrow> 'm"
    and empty :: 'm
  assumes lookup_empty: "lookup empty k = None"
    and lookup_stash: "lookup (stash k v m) k' = (if k' = k then Some v else lookup m k')"
    and lookup_drop: "lookup (drop k m) k' = (if k' = k then None else lookup m k')"
begin

text \<open>A state machine whose steps act on the map as the operations \<open>ops_of\<close> names.\<close>

lemma run_lookup:
  assumes step: "\<And>h m. h \<in> set hs \<Longrightarrow>
      (case ops_of h of Stash k v \<Rightarrow> step h m = stash k v m | Drop k \<Rightarrow> step h m = drop k m | Keep \<Rightarrow> step h m = m)"
  shows "lookup (fold step hs m) k = fold (pending_step k) (map ops_of hs) (lookup m k)"
  using step
proof (induction hs arbitrary: m)
  case (Cons h hs)
  have "lookup (step h m) k = pending_step k (ops_of h) (lookup m k)"
    using Cons.prems[of h m] by (cases "ops_of h") (auto simp: lookup_stash lookup_drop)
  moreover have "lookup (fold step hs (step h m)) k = fold (pending_step k) (map ops_of hs) (lookup (step h m) k)"
    by (rule Cons.IH) (use Cons.prems in auto)
  ultimately show ?case by simp
qed simp

lemma run_pending:
  assumes "\<And>h m. h \<in> set hs \<Longrightarrow>
      (case ops_of h of Stash k v \<Rightarrow> step h m = stash k v m | Drop k \<Rightarrow> step h m = drop k m | Keep \<Rightarrow> step h m = m)"
  shows "lookup (fold step hs empty) k = pending k (map ops_of hs)"
  using run_lookup[OF assms, where k = k and m = empty] by (simp add: pending_def lookup_empty)

end

interpretation pend: pending_map "\<lambda>m. m" "bpf_map_update_elem True" bpf_map_delete_elem Map.empty
  by unfold_locales (auto simp: bpf_map_delete_elem_def)

text \<open>The operations applied to the BPF map.\<close>

fun pend_apply :: "('k, 'v) pend_op \<Rightarrow> ('k \<rightharpoonup> 'v) \<Rightarrow> ('k \<rightharpoonup> 'v)" where
  "pend_apply (Stash k v) m = bpf_map_update_elem True k v m"
| "pend_apply (Drop k) m = bpf_map_delete_elem k m"
| "pend_apply Keep m = m"

lemma pend_apply_run: "fold (\<lambda>h. pend_apply (ops_of h)) hs Map.empty k = pending k (map ops_of hs)"
proof (rule pend.run_pending)
  fix h m
  show "case ops_of h of Stash k v \<Rightarrow> pend_apply (ops_of h) m = bpf_map_update_elem True k v m
    | Drop k \<Rightarrow> pend_apply (ops_of h) m = bpf_map_delete_elem k m | Keep \<Rightarrow> pend_apply (ops_of h) m = m"
    by (cases "ops_of h") simp_all
qed

text \<open>A machine over a bigger state whose map, seen through \<open>sel\<close>, moves by these operations.\<close>

lemma pend_run:
  assumes "\<And>h s. h \<in> set hs \<Longrightarrow> sel (step h s) = pend_apply (ops_of h) (sel s)" "sel s0 = Map.empty"
  shows "sel (fold step hs s0) k = pending k (map ops_of hs)"
proof -
  have "sel (fold step hs s) = fold (\<lambda>h. pend_apply (ops_of h)) hs (sel s)" for s
    using assms(1) by (induction hs arbitrary: s) auto
  then show ?thesis using pend_apply_run[of ops_of hs k] assms(2) by simp
qed

lemma delete_absent: "m k = None \<Longrightarrow> bpf_map_delete_elem k m = m"
  by (simp add: bpf_map_delete_elem_def fun_upd_idem)

lemma kptr_idem [simp]: "USBTRACE_PTR_KEY b (USBTRACE_KPTR b p) = USBTRACE_KPTR b p"
  "USBTRACE_KPTR b (USBTRACE_PTR_KEY b p) = USBTRACE_PTR_KEY b p"
  by (auto simp: USBTRACE_KPTR_def USBTRACE_PTR_KEY_def bit_simps intro!: bit_word_eqI)

end
