(* ===== verification/Urb_Probe.thy ===== *)
theory Urb_Probe
  imports Pending_Map
begin

text \<open>
  The urb program, \<open>modules/urb/urb.bpf.c\<close>: a submission stashes its time under the URB's address, the
  completion reports the latency. \<open>urb_run\<close> runs the two hooks over any sequence of hits.
\<close>

record urb_config =
  uf_filter_vid :: u16
  uf_filter_pid :: u16
  uf_emit_submit :: bool
  uf_ctrl_only :: bool

definition USBTRACE_XFER_CONTROL :: u8 where "USBTRACE_XFER_CONTROL = 2"

definition urb_passes_filter :: "urb_config \<Rightarrow> 'x bpf_env_scheme \<Rightarrow> urb \<Rightarrow> (u16 \<times> u16) option" where
  "urb_passes_filter cfg en u =
     usbtrace_dev_match (en_usb_device en (urb_dev u)) (uf_filter_vid cfg) (uf_filter_pid cfg)"

definition urb_is_control :: "urb \<Rightarrow> bool" where
  "urb_is_control u \<longleftrightarrow> pipe_type (urb_pipe u) = USBTRACE_XFER_CONTROL"

definition event0 :: urb_event where
  "event0 = \<lparr> ue_hdr = \<lparr> h_kind = 0, h_size = 0, h_ts_ns = 0 \<rparr>, ue_latency_ns = 0, ue_pid = 0, ue_length = 0,
     ue_actual = 0, ue_status = 0, ue_vid = 0, ue_product = 0, ue_busnum = 0, ue_devnum = 0, ue_ep = 0,
     ue_dir_in = 0, ue_xfer_type = 0, ue_is_submit = 0, ue_comm = replicate 16 0, ue_has_setup = 0,
     ue_setup = replicate 8 0 \<rparr>"

text \<open>A failed read leaves the setup bytes zero.\<close>

definition fill_setup :: "'x bpf_env_scheme \<Rightarrow> urb \<Rightarrow> urb_event \<Rightarrow> urb_event" where
  "fill_setup en u e =
     (if ue_xfer_type e \<noteq> USBTRACE_XFER_CONTROL then e
      else if urb_setup_packet u = 0 then e
      else case en_probe_read en (urb_setup_packet u) 8 of
        None \<Rightarrow> e
      | Some bs \<Rightarrow> e\<lparr> ue_setup := bs, ue_has_setup := 1 \<rparr>)"

definition fill_common :: "'x bpf_env_scheme \<Rightarrow> urb \<Rightarrow> u16 \<Rightarrow> u16 \<Rightarrow> urb_event \<Rightarrow> urb_event" where
  "fill_common en u vid pid e =
     (let dev = en_usb_device en (urb_dev u); pipe = urb_pipe u in
      fill_setup en u
        (e\<lparr> ue_vid := vid, ue_product := pid, ue_busnum := ucast (ud_busnum dev), ue_devnum := ucast (ud_devnum dev),
            ue_ep := pipe_endpoint pipe, ue_dir_in := pipe_is_in pipe, ue_xfer_type := pipe_type pipe,
            ue_length := urb_transfer_buffer_length u, ue_pid := env_pid en, ue_comm := en_comm en \<rparr>))"

definition on_submit :: "urb_config \<Rightarrow> 'x bpf_env_scheme \<Rightarrow> u64 \<Rightarrow> (u64 \<rightharpoonup> u64) \<Rightarrow> (u64 \<rightharpoonup> u64) \<times> urb_event list" where
  "on_submit cfg en arg1 start_ts =
     (let urbp = USBTRACE_KPTR (en_arch32 en) arg1; ts = en_ktime en in
      if urbp = 0 then (start_ts, [])
      else
        let key = USBTRACE_PTR_KEY (en_arch32 en) urbp; u = en_urb en urbp in
        if uf_ctrl_only cfg \<and> \<not> urb_is_control u then (start_ts, [])
        else case urb_passes_filter cfg en u of
          None \<Rightarrow> (start_ts, [])
        | Some (vid, pid) \<Rightarrow>
            (bpf_map_update_elem (en_room en ''start_ts'' key) key ts start_ts,
             if \<not> uf_emit_submit cfg then []
             else [fill_common en u vid pid
                     (event0\<lparr> ue_hdr := \<lparr> h_kind = USBTRACE_EVT_URB, h_size = 80, h_ts_ns = ts \<rparr>,
                              ue_is_submit := 1 \<rparr>)]))"

definition on_giveback ::
  "urb_config \<Rightarrow> 'x bpf_env_scheme \<Rightarrow> u64 \<Rightarrow> u64 \<Rightarrow> (u64 \<rightharpoonup> u64) \<Rightarrow> (u64 \<rightharpoonup> u64) \<times> urb_event list" where
  "on_giveback cfg en arg2 arg3 start_ts =
     (let urbp = USBTRACE_KPTR (en_arch32 en) arg2; status = ucast arg3; now = en_ktime en in
      if urbp = 0 then (start_ts, [])
      else
        let key = USBTRACE_PTR_KEY (en_arch32 en) urbp; u = en_urb en urbp in
        if uf_ctrl_only cfg \<and> \<not> urb_is_control u then (bpf_map_delete_elem key start_ts, [])
        else
          let tsp = start_ts key;
              after = (if tsp \<noteq> None then bpf_map_delete_elem key start_ts else start_ts)
          in case urb_passes_filter cfg en u of
            None \<Rightarrow> (after, [])
          | Some (vid, pid) \<Rightarrow>
              (after,
               [fill_common en u vid pid
                  (event0\<lparr> ue_hdr := \<lparr> h_kind = USBTRACE_EVT_URB, h_size = 80, h_ts_ns = now \<rparr>,
                           ue_is_submit := 0, ue_latency_ns := (case tsp of Some t \<Rightarrow> now - t | None \<Rightarrow> 0),
                           ue_status := status, ue_actual := urb_actual_length u \<rparr>)]))"

datatype urb_hook = Submit_urb u64 | Giveback_urb u64 u64

fun urb_hit :: "urb_config \<Rightarrow> bpf_env \<times> urb_hook \<Rightarrow> (u64 \<rightharpoonup> u64) \<Rightarrow> (u64 \<rightharpoonup> u64) \<times> urb_event list" where
  "urb_hit cfg (en, Submit_urb a) m = on_submit cfg en a m"
| "urb_hit cfg (en, Giveback_urb a s) m = on_giveback cfg en a s m"

section \<open>What is pending\<close>

text \<open>The effect of a hook on the map of submission times, from the hook alone.\<close>

fun urb_op :: "urb_config \<Rightarrow> bpf_env \<times> urb_hook \<Rightarrow> (u64, u64) pend_op" where
  "urb_op cfg (en, Submit_urb a) =
     (let p = USBTRACE_KPTR (en_arch32 en) a; u = en_urb en p in
      if p \<noteq> 0 \<and> (uf_ctrl_only cfg \<longrightarrow> urb_is_control u) \<and> urb_passes_filter cfg en u \<noteq> None
      then Stash p (en_ktime en) else Keep)"
| "urb_op cfg (en, Giveback_urb a s) =
     (let p = USBTRACE_KPTR (en_arch32 en) a in if p \<noteq> 0 then Drop p else Keep)"

lemma urb_hit_op:
  assumes "\<And>k. en_room (fst h) ''start_ts'' k"
  shows "case urb_op cfg h of
      Stash k v \<Rightarrow> fst (urb_hit cfg h m) = bpf_map_update_elem True k v m
    | Drop k \<Rightarrow> fst (urb_hit cfg h m) = bpf_map_delete_elem k m
    | Keep \<Rightarrow> fst (urb_hit cfg h m) = m"
proof -
  obtain en hk where h: "h = (en, hk)" by (cases h)
  show ?thesis
    using assms
    by (cases hk) (auto simp: h on_submit_def on_giveback_def Let_def delete_absent split: option.splits)
qed

end
