(* ===== verification/Urb_Probe_Props.thy ===== *)
theory Urb_Probe_Props
  imports Urb_Probe Diag_Normalize
begin

text \<open>
  Properties of the urb program: submissions and completions are paired by the URB's address, and what the
  probe writes about a completion is what the diagnosis rules get to see.
\<close>

definition urb_map_after :: "urb_config \<Rightarrow> (bpf_env \<times> urb_hook) list \<Rightarrow> (u64 \<rightharpoonup> u64)" where
  "urb_map_after cfg hs = fold (\<lambda>h m. fst (urb_hit cfg h m)) hs Map.empty"

definition urb_room :: "bpf_env \<times> urb_hook \<Rightarrow> bool" where
  "urb_room h \<longleftrightarrow> (\<forall>k. en_room (fst h) ''start_ts'' k)"

lemma urb_map_pending:
  assumes "list_all urb_room hs"
  shows "urb_map_after cfg hs k = pending k (map (urb_op cfg) hs)"
  unfolding urb_map_after_def
proof (rule pend.run_pending[where ops_of = "urb_op cfg"])
  fix h m assume "h \<in> set hs"
  then have "urb_room h" using assms by (simp add: list_all_iff)
  then show "case urb_op cfg h of
      Stash k v \<Rightarrow> fst (urb_hit cfg h m) = bpf_map_update_elem True k v m
    | Drop k \<Rightarrow> fst (urb_hit cfg h m) = bpf_map_delete_elem k m
    | Keep \<Rightarrow> fst (urb_hit cfg h m) = m"
    by (intro urb_hit_op) (simp add: urb_room_def)
qed

lemma fill_setup_sel [simp]:
  "ue_hdr (fill_setup en u e) = ue_hdr e" "ue_latency_ns (fill_setup en u e) = ue_latency_ns e"
  "ue_status (fill_setup en u e) = ue_status e" "ue_actual (fill_setup en u e) = ue_actual e"
  "ue_is_submit (fill_setup en u e) = ue_is_submit e" "ue_vid (fill_setup en u e) = ue_vid e"
  "ue_product (fill_setup en u e) = ue_product e" "ue_busnum (fill_setup en u e) = ue_busnum e"
  "ue_devnum (fill_setup en u e) = ue_devnum e" "ue_ep (fill_setup en u e) = ue_ep e"
  "ue_xfer_type (fill_setup en u e) = ue_xfer_type e" "ue_length (fill_setup en u e) = ue_length e"
  "ue_comm (fill_setup en u e) = ue_comm e"
  by (simp_all add: fill_setup_def split: option.splits)

text \<open>The completions the program reports.\<close>

definition reports :: "urb_config \<Rightarrow> bpf_env \<Rightarrow> u64 \<Rightarrow> bool" where
  "reports cfg en p \<longleftrightarrow>
     p \<noteq> 0 \<and> (uf_ctrl_only cfg \<longrightarrow> urb_is_control (en_urb en p)) \<and> urb_passes_filter cfg en (en_urb en p) \<noteq> None"

definition completion_of :: "bpf_env \<Rightarrow> u64 \<Rightarrow> u64 \<Rightarrow> u64 option \<Rightarrow> urb_event \<Rightarrow> bool" where
  "completion_of en p status stamp e \<longleftrightarrow>
     (let u = en_urb en p; dev = en_usb_device en (urb_dev u) in
      h_kind (ue_hdr e) = USBTRACE_EVT_URB \<and> h_ts_ns (ue_hdr e) = en_ktime en \<and> ue_is_submit e = 0
      \<and> ue_latency_ns e = (case stamp of Some t \<Rightarrow> en_ktime en - t | None \<Rightarrow> 0)
      \<and> ue_status e = ucast status \<and> ue_actual e = urb_actual_length u \<and> ue_length e = urb_transfer_buffer_length u
      \<and> ue_vid e = ud_id_vendor dev \<and> ue_product e = ud_id_product dev
      \<and> ue_busnum e = ucast (ud_busnum dev) \<and> ue_devnum e = ucast (ud_devnum dev)
      \<and> ue_ep e = pipe_endpoint (urb_pipe u) \<and> ue_xfer_type e = pipe_type (urb_pipe u) \<and> ue_comm e = en_comm en)"

lemma giveback_out:
  assumes "p = USBTRACE_KPTR (en_arch32 en) a"
  shows "if reports cfg en p
     then \<exists>e. snd (on_giveback cfg en a s m) = [e] \<and> completion_of en p s (m p) e
          \<and> (length (en_comm en) = 16 \<longrightarrow> (\<forall>bs. en_probe_read en (urb_setup_packet (en_urb en p)) 8 = Some bs \<longrightarrow> length bs = 8)
               \<longrightarrow> wf_urb_event e)
     else snd (on_giveback cfg en a s m) = []"
proof (cases "reports cfg en p")
  case True
  define u where "u = en_urb en p"
  obtain vid pid where f: "urb_passes_filter cfg en u = Some (vid, pid)"
    using True by (auto simp: reports_def u_def)
  have ids: "vid = ud_id_vendor (en_usb_device en (urb_dev u))" "pid = ud_id_product (en_usb_device en (urb_dev u))"
    using f by (simp_all add: urb_passes_filter_def dev_match_Some)
  have go: "p \<noteq> 0" "\<not> (uf_ctrl_only cfg \<and> \<not> urb_is_control u)" using True by (auto simp: reports_def u_def)
  define e where "e = fill_common en u vid pid
     (event0\<lparr> ue_hdr := \<lparr> h_kind = USBTRACE_EVT_URB, h_size = 80, h_ts_ns = en_ktime en \<rparr>, ue_is_submit := 0,
        ue_latency_ns := (case m p of Some t \<Rightarrow> en_ktime en - t | None \<Rightarrow> 0), ue_status := ucast s,
        ue_actual := urb_actual_length u \<rparr>)"
  have "snd (on_giveback cfg en a s m) = [e]"
    unfolding on_giveback_def Let_def assms[symmetric] u_def[symmetric] if_not_P[OF go(1)] if_not_P[OF go(2)]
    by (simp add: f e_def assms)
  moreover have "completion_of en p s (m p) e"
    by (simp add: completion_of_def e_def fill_common_def Let_def u_def[symmetric] ids)
  moreover have "wf_urb_event e" if "length (en_comm en) = 16"
      "\<forall>bs. en_probe_read en (urb_setup_packet u) 8 = Some bs \<longrightarrow> length bs = 8"
    using that by (auto simp: wf_urb_event_def e_def fill_common_def fill_setup_def event0_def Let_def
        split: option.splits)
  ultimately show ?thesis using True by (auto simp: u_def)
next
  case False
  then have "p = 0 \<or> uf_ctrl_only cfg \<and> \<not> urb_is_control (en_urb en p) \<or> urb_passes_filter cfg en (en_urb en p) = None"
    by (auto simp: reports_def)
  then have "snd (on_giveback cfg en a s m) = []"
    unfolding on_giveback_def Let_def assms[symmetric] by auto
  with False show ?thesis by simp
qed

lemma giveback_map:
  "fst (on_giveback cfg en a s m) (USBTRACE_KPTR (en_arch32 en) a) = None \<or> USBTRACE_KPTR (en_arch32 en) a = 0"
  by (auto simp: on_giveback_def Let_def bpf_map_delete_elem_def split: option.splits)

text \<open>C31: A completion is reported exactly when its URB passes the filters, with the status the host
  controller gave and the time since the last submission of this URB that has not been completed yet; without
  such a submission the latency is 0. The submission is used up.\<close>

theorem giveback_latency_exact:
  assumes "list_all urb_room hs"
  shows "let p = USBTRACE_KPTR (en_arch32 en) a;
             (m', out) = urb_hit cfg (en, Giveback_urb a s) (urb_map_after cfg hs)
         in (if reports cfg en p
             then \<exists>e. out = [e] \<and> completion_of en p s (pending p (map (urb_op cfg) hs)) e
             else out = [])
            \<and> (p \<noteq> 0 \<longrightarrow> m' p = None)"
  using giveback_out[of "USBTRACE_KPTR (en_arch32 en) a" en a cfg s "urb_map_after cfg hs"]
    giveback_map[of cfg en a s "urb_map_after cfg hs"] urb_map_pending[OF assms]
  by (auto simp: Let_def split_def)

definition probe_dev :: usb_device where
  "probe_dev = \<lparr> ud_id_vendor = 0x046d, ud_id_product = 0x0825, ud_busnum = 1, ud_devnum = 5, ud_state = 7,
     ud_speed = 3, ud_portnum = 1, ud_reset_resume = 0, ud_devpath = replicate 16 0 \<rparr>"

definition probe_env :: "u64 \<Rightarrow> bpf_env" where
  "probe_env now =
     \<lparr> en_arch32 = False, en_ktime = now, en_pid_tgid = 0, en_comm = replicate 16 0, en_room = (\<lambda>_ _. True),
       en_usb_device = (\<lambda>_. probe_dev),
       en_urb = (\<lambda>_. \<lparr> urb_dev = 1, urb_pipe = 0xC0008080, urb_status = 0, urb_error_count = 0,
          urb_number_of_packets = 0, urb_actual_length = 13, urb_transfer_buffer_length = 512, urb_start_frame = 0,
          urb_transfer_buffer = 0, urb_setup_packet = 0, urb_iso_frame_desc = (\<lambda>_. None) \<rparr>),
       en_probe_read = (\<lambda>_ _. None) \<rparr>"

definition probe_cfg :: urb_config where
  "probe_cfg = \<lparr> uf_filter_vid = 0x046d, uf_filter_pid = 0, uf_emit_submit = False, uf_ctrl_only = False \<rparr>"

lemma probe_facts:
  "urb_room (probe_env t, hk)" "reports probe_cfg (probe_env t) 0x9000"
  "pending 0x9000 (map (urb_op probe_cfg) [(probe_env 100, Submit_urb 0x9000)]) = Some 100"
  "USBTRACE_KPTR (en_arch32 (probe_env t)) a = a"
  by (simp_all add: urb_room_def reports_def probe_env_def probe_cfg_def probe_dev_def urb_passes_filter_def
      usbtrace_dev_match_def pending_def USBTRACE_KPTR_def USBTRACE_PTR_KEY_def Let_def)

theorem giveback_latency_exact_witness:
  "\<exists>e. snd (urb_hit probe_cfg (probe_env 350, Giveback_urb 0x9000 0) (urb_map_after probe_cfg [(probe_env 100, Submit_urb 0x9000)]))
       = [e] \<and> ue_latency_ns e = 250"
  using giveback_latency_exact[of "[(probe_env 100, Submit_urb 0x9000)]" "probe_env 350" "0x9000" probe_cfg 0]
  by (auto simp: probe_facts Let_def split_def completion_of_def simp del: urb_hit.simps list.map)
    (auto simp: probe_env_def)

text \<open>A reported completion reaches the rules: the bytes the program submits normalise to an event of the
  device the URB belongs to, with the status the controller gave and the measured latency modulo 2^32
  nanoseconds.\<close>

theorem giveback_reaches_rules:
  assumes "list_all urb_room hs" "reports cfg en (USBTRACE_KPTR (en_arch32 en) a)" "length (en_comm en) = 16"
    "\<And>x bs. en_probe_read en x 8 = Some bs \<Longrightarrow> length bs = 8"
  shows "\<exists>e ev. snd (urb_hit cfg (en, Giveback_urb a s) (urb_map_after cfg hs)) = [e]
     \<and> normalize_ev (enc_urb_event e @ tail) = Some ev
     \<and> diag_event_key ev =
         (let dev = en_usb_device en (urb_dev (en_urb en (USBTRACE_KPTR (en_arch32 en) a))) in
          \<lparr> key_busnum = ucast (ud_busnum dev), key_devnum = ucast (ud_devnum dev) \<rparr>)
     \<and> ev_kind ev = USBTRACE_EVT_URB \<and> ev_status ev = ucast s \<and> ev_ts_ns ev = en_ktime en
     \<and> unat (ev_latency_ns ev) =
         (case pending (USBTRACE_KPTR (en_arch32 en) a) (map (urb_op cfg) hs) of
            Some t \<Rightarrow> unat (en_ktime en - t) mod 2 ^ 32 | None \<Rightarrow> 0)"
proof -
  define p where "p = USBTRACE_KPTR (en_arch32 en) a"
  obtain e where e: "snd (urb_hit cfg (en, Giveback_urb a s) (urb_map_after cfg hs)) = [e]"
    "completion_of en p s (pending p (map (urb_op cfg) hs)) e" "wf_urb_event e"
    using giveback_out[OF p_def, of cfg s "urb_map_after cfg hs"] assms urb_map_pending[OF assms(1), of cfg p]
    by (auto simp: p_def[symmetric])
  then have "h_kind (ue_hdr e) = USBTRACE_EVT_URB" by (simp add: completion_of_def Let_def)
  from normalize_urb_fields[OF e(3) this, of tail] obtain ev where
    ev: "normalize_ev (enc_urb_event e @ tail) = Some ev"
    "diag_event_key ev = \<lparr> key_busnum = ue_busnum e, key_devnum = ue_devnum e \<rparr>"
    "ev_kind ev = USBTRACE_EVT_URB" "ev_ts_ns ev = h_ts_ns (ue_hdr e)" "ev_status ev = ue_status e"
    "unat (ev_latency_ns ev) = unat (ue_latency_ns e) mod 2 ^ 32"
    by blast
  show ?thesis
    unfolding p_def[symmetric]
    by (intro exI[of _ e] exI[of _ ev] conjI)
      (use e ev in \<open>auto simp: completion_of_def Let_def split: option.splits\<close>)
qed

theorem giveback_reaches_rules_witness:
  "\<exists>e ev. snd (urb_hit probe_cfg (probe_env 350, Giveback_urb 0x9000 0)
             (urb_map_after probe_cfg [(probe_env 100, Submit_urb 0x9000)])) = [e]
     \<and> normalize_ev (enc_urb_event e) = Some ev \<and> unat (ev_latency_ns ev) = 250"
proof -
  have r: "reports probe_cfg (probe_env 350) (USBTRACE_KPTR (en_arch32 (probe_env 350)) 0x9000)"
    by (simp add: probe_facts)
  have c: "length (en_comm (probe_env 350)) = 16" by (simp add: probe_env_def)
  have d: "length bs = 8" if "en_probe_read (probe_env 350) x 8 = Some bs" for x bs
    using that by (simp add: probe_env_def)
  have k: "en_ktime (probe_env 350) = 350" by (simp add: probe_env_def)
  show ?thesis
    using giveback_reaches_rules[of "[(probe_env 100, Submit_urb 0x9000)]" probe_cfg "probe_env 350" "0x9000" 0 "[]"] r c d
    unfolding probe_facts(3,4) k by (auto simp: probe_facts(1) simp del: urb_hit.simps)
qed

end
