(* ===== verification/Dev_Probes.thy ===== *)
theory Dev_Probes
  imports Pending_Map
begin

text \<open>
  The device programs: \<open>modules/enum/enum.bpf.c\<close> (state transitions and enumeration milestones),
  \<open>modules/lifecycle/lifecycle.bpf.c\<close> (connect, disconnect, reset), \<open>modules/power/power.bpf.c\<close> (suspend
  and resume) and \<open>modules/hub/hub.bpf.c\<close> (port reset, disable, power and over-current). All four report
  a \<open>struct usb_device\<close> that passes the filter; enum and lifecycle pair a function's entry with its return.
\<close>

record dev_config =
  df_filter_vid :: u16
  df_filter_pid :: u16

text \<open>Pointers read from kernel memory, and the members of hubs and ports.\<close>

record dev_env = bpf_env +
  px_read_kptr :: "u64 \<Rightarrow> u64"
  px_hub_ports :: "u64 \<Rightarrow> u64"
  px_hub_hdev :: "u64 \<Rightarrow> u64"
  px_port_child :: "u64 \<Rightarrow> u64"
  px_port_portnum :: "u64 \<Rightarrow> u8"
  px_port_over_current_count :: "u64 \<Rightarrow> u32"

definition usbtrace_read_kptr :: "'x dev_env_scheme \<Rightarrow> u64 \<Rightarrow> u64" where
  "usbtrace_read_kptr en addr = (if addr = 0 then 0 else px_read_kptr en addr)"

definition usbtrace_kptr_idx :: "'x dev_env_scheme \<Rightarrow> u64 \<Rightarrow> s32 \<Rightarrow> u64" where
  "usbtrace_kptr_idx en arr idx =
     (if arr = 0 \<or> sint idx < 0 \<or> sint idx > 15 then 0
      else usbtrace_read_kptr en (arr + of_int (sint idx * (if en_arch32 en then 4 else 8))))"

section \<open>enum\<close>

definition ENUM_STEP_STATE :: u8 where [ut_const]: "ENUM_STEP_STATE = 0"
definition ENUM_STEP_GET_DESC :: u8 where [ut_const]: "ENUM_STEP_GET_DESC = 1"
definition ENUM_STEP_SET_ADDR :: u8 where [ut_const]: "ENUM_STEP_SET_ADDR = 2"
definition ENUM_STEP_SET_CONFIG :: u8 where [ut_const]: "ENUM_STEP_SET_CONFIG = 3"

definition emit_enum :: "dev_config \<Rightarrow> 'x dev_env_scheme \<Rightarrow> u64 \<Rightarrow> u8 \<Rightarrow> u8 \<Rightarrow> u8 \<Rightarrow> s32 \<Rightarrow> enum_event list" where
  "emit_enum cfg en udev0 old_state new_state step status =
     (let udev = USBTRACE_KPTR (en_arch32 en) udev0 in
      if udev = 0 then []
      else let dev = en_usb_device en udev in
        case usbtrace_dev_match dev (df_filter_vid cfg) (df_filter_pid cfg) of
          None \<Rightarrow> []
        | Some (vid, pid) \<Rightarrow>
            [\<lparr> ee_hdr = \<lparr> h_kind = USBTRACE_EVT_ENUM, h_size = 72, h_ts_ns = en_ktime en \<rparr>, ee_pid = env_pid en,
               ee_vid = vid, ee_product = pid, ee_busnum = ucast (ud_busnum dev), ee_devnum = ucast (ud_devnum dev),
               ee_old_state = old_state, ee_new_state = new_state, ee_speed = ucast (ud_speed dev),
               ee_portnum = ud_portnum dev, ee_devpath = ud_devpath dev, ee_comm = en_comm en,
               ee_status = status, ee_step = step \<rparr>])"

text \<open>The three maps of pending calls, by the step they belong to.\<close>

record enum_maps =
  em_desc_pending :: "u64 \<rightharpoonup> u64"
  em_addr_pending :: "u64 \<rightharpoonup> u64"
  em_config_pending :: "u64 \<rightharpoonup> u64"

definition stash :: "string \<Rightarrow> 'x dev_env_scheme \<Rightarrow> u64 \<Rightarrow> (u64 \<rightharpoonup> u64) \<Rightarrow> (u64 \<rightharpoonup> u64)" where
  "stash name en arg1 m =
     (let key = en_pid_tgid en; udev = USBTRACE_PTR_KEY (en_arch32 en) arg1 in
      if udev = 0 then m else bpf_map_update_elem (en_room en name key) key udev m)"

definition pop_emit ::
  "dev_config \<Rightarrow> 'x dev_env_scheme \<Rightarrow> u64 \<Rightarrow> u8 \<Rightarrow> (u64 \<rightharpoonup> u64) \<Rightarrow> (u64 \<rightharpoonup> u64) \<times> enum_event list" where
  "pop_emit cfg en rc step m =
     (let key = en_pid_tgid en;
          ret = (if step = ENUM_STEP_GET_DESC then usbtrace_kret_ptr_or_int (en_arch32 en) rc
                 else usbtrace_kret_int (en_arch32 en) rc)
      in case m key of
           None \<Rightarrow> (m, [])
         | Some pud \<Rightarrow>
             let udev = USBTRACE_KPTR (en_arch32 en) pud; m' = bpf_map_delete_elem key m in
             if udev = 0 then (m', [])
             else let state = ucast (ud_state (en_usb_device en udev)) in
               (m', emit_enum cfg en udev state state step ret))"

definition on_set_state :: "dev_config \<Rightarrow> 'x dev_env_scheme \<Rightarrow> u64 \<Rightarrow> u64 \<Rightarrow> enum_event list" where
  "on_set_state cfg en arg1 arg2 =
     (let udev = USBTRACE_KPTR (en_arch32 en) arg1 in
      if udev = 0 then []
      else emit_enum cfg en udev (ucast (ud_state (en_usb_device en udev))) (ucast arg2) ENUM_STEP_STATE 0)"

datatype enum_call = Get_desc | Set_addr | Set_config

datatype enum_hook = Set_state u64 u64 | Call_entry enum_call u64 | Call_exit enum_call u64

fun call_step :: "enum_call \<Rightarrow> u8" where
  "call_step Get_desc = ENUM_STEP_GET_DESC"
| "call_step Set_addr = ENUM_STEP_SET_ADDR"
| "call_step Set_config = ENUM_STEP_SET_CONFIG"

fun enum_hit :: "dev_config \<Rightarrow> dev_env \<times> enum_hook \<Rightarrow> enum_maps \<Rightarrow> enum_maps \<times> enum_event list" where
  "enum_hit cfg (en, Set_state a s) ms = (ms, on_set_state cfg en a s)"
| "enum_hit cfg (en, Call_entry Get_desc a) ms =
     (ms\<lparr> em_desc_pending := stash ''desc_pending'' en a (em_desc_pending ms) \<rparr>, [])"
| "enum_hit cfg (en, Call_entry Set_addr a) ms =
     (ms\<lparr> em_addr_pending := stash ''addr_pending'' en a (em_addr_pending ms) \<rparr>, [])"
| "enum_hit cfg (en, Call_entry Set_config a) ms =
     (ms\<lparr> em_config_pending := stash ''config_pending'' en a (em_config_pending ms) \<rparr>, [])"
| "enum_hit cfg (en, Call_exit Get_desc rc) ms =
     (let (m, out) = pop_emit cfg en rc ENUM_STEP_GET_DESC (em_desc_pending ms) in (ms\<lparr> em_desc_pending := m \<rparr>, out))"
| "enum_hit cfg (en, Call_exit Set_addr rc) ms =
     (let (m, out) = pop_emit cfg en rc ENUM_STEP_SET_ADDR (em_addr_pending ms) in (ms\<lparr> em_addr_pending := m \<rparr>, out))"
| "enum_hit cfg (en, Call_exit Set_config rc) ms =
     (let (m, out) = pop_emit cfg en rc ENUM_STEP_SET_CONFIG (em_config_pending ms) in (ms\<lparr> em_config_pending := m \<rparr>, out))"

section \<open>lifecycle\<close>

definition LIFECYCLE_CONNECT :: u8 where [ut_const]: "LIFECYCLE_CONNECT = 0"
definition LIFECYCLE_DISCONNECT :: u8 where [ut_const]: "LIFECYCLE_DISCONNECT = 1"
definition LIFECYCLE_RESET :: u8 where [ut_const]: "LIFECYCLE_RESET = 2"

definition lifecycle_emit :: "dev_config \<Rightarrow> 'x dev_env_scheme \<Rightarrow> u64 \<Rightarrow> u8 \<Rightarrow> lifecycle_event list" where
  "lifecycle_emit cfg en dev0 action =
     (let dp = USBTRACE_KPTR (en_arch32 en) dev0 in
      if dp = 0 then []
      else let dev = en_usb_device en dp in
        case usbtrace_dev_match dev (df_filter_vid cfg) (df_filter_pid cfg) of
          None \<Rightarrow> []
        | Some (vid, pid) \<Rightarrow>
            [\<lparr> le_hdr = \<lparr> h_kind = USBTRACE_EVT_LIFECYCLE, h_size = 64, h_ts_ns = en_ktime en \<rparr>, le_pid = env_pid en,
               le_vid = vid, le_product = pid, le_busnum = ucast (ud_busnum dev), le_devnum = ucast (ud_devnum dev),
               le_action = action, le_speed = ucast (ud_speed dev), le_portnum = ud_portnum dev,
               le_reset_resume = (if action = LIFECYCLE_RESET then ud_reset_resume dev else 0),
               le_devpath = ud_devpath dev, le_comm = en_comm en \<rparr>])"

definition on_new_device :: "'x dev_env_scheme \<Rightarrow> u64 \<Rightarrow> (u64 \<rightharpoonup> u64) \<Rightarrow> (u64 \<rightharpoonup> u64)" where
  "on_new_device en arg1 m =
     (let key = en_pid_tgid en; udev = USBTRACE_PTR_KEY (en_arch32 en) arg1 in
      if udev = 0 then m else bpf_map_update_elem (en_room en ''new_dev_pending'' key) key udev m)"

definition on_new_device_exit ::
  "dev_config \<Rightarrow> 'x dev_env_scheme \<Rightarrow> u64 \<Rightarrow> (u64 \<rightharpoonup> u64) \<Rightarrow> (u64 \<rightharpoonup> u64) \<times> lifecycle_event list" where
  "on_new_device_exit cfg en rc m =
     (let key = en_pid_tgid en; ret = usbtrace_kret_int (en_arch32 en) rc in
      case m key of
        None \<Rightarrow> (m, [])
      | Some pud \<Rightarrow>
          let udev = USBTRACE_KPTR (en_arch32 en) pud; m' = bpf_map_delete_elem key m in
          if sint ret < 0 \<or> udev = 0 then (m', []) else (m', lifecycle_emit cfg en udev LIFECYCLE_CONNECT))"

definition on_disconnect :: "dev_config \<Rightarrow> 'x dev_env_scheme \<Rightarrow> u64 \<Rightarrow> lifecycle_event list" where
  "on_disconnect cfg en arg1 =
     (let pdev = USBTRACE_KPTR (en_arch32 en) arg1 in
      if pdev = 0 then [] else lifecycle_emit cfg en (usbtrace_read_kptr en pdev) LIFECYCLE_DISCONNECT)"

definition on_reset :: "dev_config \<Rightarrow> 'x dev_env_scheme \<Rightarrow> u64 \<Rightarrow> lifecycle_event list" where
  "on_reset cfg en arg1 = lifecycle_emit cfg en arg1 LIFECYCLE_RESET"

datatype lifecycle_hook = New_device u64 | New_device_exit u64 | Usb_disconnect u64 | Usb_reset_device u64

fun lifecycle_hit :: "dev_config \<Rightarrow> dev_env \<times> lifecycle_hook \<Rightarrow> (u64 \<rightharpoonup> u64) \<Rightarrow> (u64 \<rightharpoonup> u64) \<times> lifecycle_event list" where
  "lifecycle_hit cfg (en, New_device a) m = (on_new_device en a m, [])"
| "lifecycle_hit cfg (en, New_device_exit rc) m = on_new_device_exit cfg en rc m"
| "lifecycle_hit cfg (en, Usb_disconnect a) m = (m, on_disconnect cfg en a)"
| "lifecycle_hit cfg (en, Usb_reset_device a) m = (m, on_reset cfg en a)"

section \<open>power\<close>

definition POWER_AUTOSUSPEND :: u8 where [ut_const]: "POWER_AUTOSUSPEND = 0"
definition POWER_AUTORESUME :: u8 where [ut_const]: "POWER_AUTORESUME = 1"
definition POWER_PORT_SUSPEND :: u8 where [ut_const]: "POWER_PORT_SUSPEND = 2"
definition POWER_PORT_RESUME :: u8 where [ut_const]: "POWER_PORT_RESUME = 3"

definition power_emit :: "dev_config \<Rightarrow> 'x dev_env_scheme \<Rightarrow> u64 \<Rightarrow> u8 \<Rightarrow> power_rec list" where
  "power_emit cfg en dev0 action =
     (let dp = USBTRACE_KPTR (en_arch32 en) dev0 in
      if dp = 0 then []
      else let dev = en_usb_device en dp in
        case usbtrace_dev_match dev (df_filter_vid cfg) (df_filter_pid cfg) of
          None \<Rightarrow> []
        | Some (vid, pid) \<Rightarrow>
            [\<lparr> pe_hdr = \<lparr> h_kind = USBTRACE_EVT_POWER, h_size = 64, h_ts_ns = en_ktime en \<rparr>, pe_pid = env_pid en,
               pe_vid = vid, pe_product = pid, pe_busnum = ucast (ud_busnum dev), pe_devnum = ucast (ud_devnum dev),
               pe_action = action, pe_speed = ucast (ud_speed dev), pe_portnum = ud_portnum dev,
               pe_devpath = ud_devpath dev, pe_comm = en_comm en \<rparr>])"

datatype power_hook = Autosuspend | Autoresume | Port_suspend | Port_resume

fun power_hit :: "dev_config \<Rightarrow> 'x dev_env_scheme \<Rightarrow> power_hook \<Rightarrow> u64 \<Rightarrow> power_rec list" where
  "power_hit cfg en Autosuspend a = power_emit cfg en a POWER_AUTOSUSPEND"
| "power_hit cfg en Autoresume a = power_emit cfg en a POWER_AUTORESUME"
| "power_hit cfg en Port_suspend a = power_emit cfg en a POWER_PORT_SUSPEND"
| "power_hit cfg en Port_resume a = power_emit cfg en a POWER_PORT_RESUME"

section \<open>hub\<close>

definition HUB_RESET :: u8 where [ut_const]: "HUB_RESET = 0"
definition HUB_DISABLE :: u8 where [ut_const]: "HUB_DISABLE = 1"
definition HUB_POWER_OFF :: u8 where [ut_const]: "HUB_POWER_OFF = 2"
definition HUB_POWER_ON :: u8 where [ut_const]: "HUB_POWER_ON = 3"
definition HUB_OVERCURRENT :: u8 where [ut_const]: "HUB_OVERCURRENT = 4"

definition hub_child :: "'x dev_env_scheme \<Rightarrow> u64 \<Rightarrow> s32 \<Rightarrow> u64" where
  "hub_child en hub port1 =
     (if hub = 0 \<or> sint port1 < 1 \<or> sint port1 > 16 then 0
      else let port = usbtrace_kptr_idx en (px_hub_ports en hub) (port1 - 1) in
        if port = 0 then 0 else USBTRACE_KPTR (en_arch32 en) (px_port_child en port))"

definition emit_dev :: "dev_config \<Rightarrow> 'x dev_env_scheme \<Rightarrow> u64 \<Rightarrow> s32 \<Rightarrow> u8 \<Rightarrow> u8 \<Rightarrow> u32 \<Rightarrow> hub_event list" where
  "emit_dev cfg en dev0 port1 action warm oc_count =
     (let dp = USBTRACE_KPTR (en_arch32 en) dev0 in
      if dp = 0 then []
      else let dev = en_usb_device en dp in
        case usbtrace_dev_match dev (df_filter_vid cfg) (df_filter_pid cfg) of
          None \<Rightarrow> []
        | Some (vid, pid) \<Rightarrow>
            [\<lparr> he_hdr = \<lparr> h_kind = USBTRACE_EVT_HUB, h_size = 72, h_ts_ns = en_ktime en \<rparr>, he_pid = env_pid en,
               he_oc_count = oc_count, he_vid = vid, he_product = pid, he_busnum = ucast (ud_busnum dev),
               he_devnum = ucast (ud_devnum dev), he_action = action, he_speed = ucast (ud_speed dev),
               he_portnum = (if sint port1 > 0 then ucast port1 else ud_portnum dev), he_warm = warm,
               he_devpath = ud_devpath dev, he_comm = en_comm en \<rparr>])"

definition emit_hub_port ::
  "dev_config \<Rightarrow> 'x dev_env_scheme \<Rightarrow> u64 \<Rightarrow> s32 \<Rightarrow> u64 \<Rightarrow> u8 \<Rightarrow> u8 \<Rightarrow> u32 \<Rightarrow> hub_event list" where
  "emit_hub_port cfg en hub0 port1 udev0 action warm oc_count =
     (let hub = USBTRACE_KPTR (en_arch32 en) hub0; udev = USBTRACE_KPTR (en_arch32 en) udev0;
          dev = (if udev \<noteq> 0 then udev else hub_child en hub port1);
          dev' = (if dev = 0 \<and> hub \<noteq> 0 then px_hub_hdev en hub else dev)
      in emit_dev cfg en dev' port1 action warm oc_count)"

definition on_port_reset :: "dev_config \<Rightarrow> 'x dev_env_scheme \<Rightarrow> u64 \<Rightarrow> u64 \<Rightarrow> u64 \<Rightarrow> hub_event list" where
  "on_port_reset cfg en arg1 arg2 arg3 = emit_hub_port cfg en arg1 (ucast arg2) arg3 HUB_RESET 0 0"

definition on_port_disable :: "dev_config \<Rightarrow> 'x dev_env_scheme \<Rightarrow> u64 \<Rightarrow> u64 \<Rightarrow> hub_event list" where
  "on_port_disable cfg en arg1 arg2 = emit_hub_port cfg en arg1 (ucast arg2) 0 HUB_DISABLE 0 0"

definition on_set_port_power :: "dev_config \<Rightarrow> 'x dev_env_scheme \<Rightarrow> u64 \<Rightarrow> u64 \<Rightarrow> u64 \<Rightarrow> u64 \<Rightarrow> hub_event list" where
  "on_set_port_power cfg en arg1 arg2 arg3 arg4 =
     (let port1 = ucast arg3; set = (ucast arg4 :: s32);
          action = (if set \<noteq> 0 then HUB_POWER_ON else HUB_POWER_OFF);
          hub = USBTRACE_KPTR (en_arch32 en) arg2; hdev = USBTRACE_KPTR (en_arch32 en) arg1;
          child0 = hub_child en hub port1; child = (if child0 = 0 then hdev else child0)
      in emit_dev cfg en child port1 action 0 0)"

definition on_overcurrent :: "dev_config \<Rightarrow> 'x dev_env_scheme \<Rightarrow> u64 \<Rightarrow> hub_event list" where
  "on_overcurrent cfg en arg1 =
     (let port = USBTRACE_KPTR (en_arch32 en) arg1 in
      if port = 0 then []
      else
        let port1 = ucast (px_port_portnum en port); oc = px_port_over_current_count en port;
            child = USBTRACE_KPTR (en_arch32 en) (px_port_child en port)
        in if child = 0 then [] else emit_dev cfg en child port1 HUB_OVERCURRENT 0 oc)"

end
