(* ===== verification/Dev_Props.thy ===== *)
theory Dev_Props
  imports Dev_Probes
begin

text \<open>
  Properties of the device programs: how return values are read, and that enumeration milestones and
  connects are reported for the device whose call returned, with its result.
\<close>

section \<open>Return values\<close>

lemma down_of_int: "(ucast (word_of_int k :: u64) :: u32) = word_of_int k"
  by (rule bit_word_eqI) (auto simp: bit_simps dest: bit_imp_le_length)

lemma sint_of_int: "- (2 ^ 31) \<le> k \<Longrightarrow> k < 2 ^ 31 \<Longrightarrow> sint (word_of_int k :: u32) = k"
  by (simp add: signed_take_bit_int_eq_self_iff signed_of_int)

lemma uint_of_int64: "0 \<le> k \<Longrightarrow> k < 2 ^ 64 \<Longrightarrow> uint (word_of_int k :: u64) = k"
  by (simp add: uint_word_of_int)

lemma uint_of_int32: "0 \<le> k \<Longrightarrow> k < 2 ^ 32 \<Longrightarrow> uint (word_of_int k :: u32) = k"
  by (simp add: uint_word_of_int)

lemma neg64: "(word_of_int (- i) :: u64) = word_of_int (2 ^ 64 - i)"
  using word_of_int_minus[where 'a = 64, of i] by simp

text \<open>A word that holds a small positive number, its negation, and what the registers then hold.\<close>

definition small :: "u32 \<Rightarrow> int \<Rightarrow> bool" where
  "small n i \<longleftrightarrow> n = word_of_int i \<and> 1 \<le> i \<and> i \<le> 4095"

lemma small_neg:
  assumes "small n i"
  shows "- n = word_of_int (- i)" "(scast (- n) :: u64) = word_of_int (- i)" "(ucast (- n) :: u64) = word_of_int (2 ^ 32 - i)"
    "(ucast n :: u64) = word_of_int i"
proof -
  have i: "1 \<le> i" "i \<le> 4095" and n: "n = word_of_int i" using assms by (auto simp: small_def)
  show neg: "- n = word_of_int (- i)" by (simp add: n)
  have "sint (- n) = - i" unfolding neg using i by (intro sint_of_int) simp_all
  then show "(scast (- n) :: u64) = word_of_int (- i)" by (simp add: scast_eq)
  have "- n = word_of_int (2 ^ 32 - i)"
    unfolding neg using word_of_int_minus[where 'a = 32, of i] by simp
  moreover have "uint (word_of_int (2 ^ 32 - i) :: u32) = 2 ^ 32 - i" by (rule uint_of_int32; use i in simp)
  ultimately have "uint (- n) = 2 ^ 32 - i" by simp
  then show "(ucast (- n) :: u64) = word_of_int (2 ^ 32 - i)" by (simp add: ucast_eq)
  have "uint n = i" unfolding n using i by (simp add: uint_word_of_int)
  then show "(ucast n :: u64) = word_of_int i" by (simp add: ucast_eq)
qed

lemma cmp64:
  assumes "1 \<le> i" "i \<le> 4095"
  shows "(- 4095 :: u64) \<le> word_of_int (- i)" "\<not> (- 4095 :: u64) \<le> word_of_int i" "(word_of_int i :: u64) < 4096"
    "\<not> (- 4095 :: u64) \<le> word_of_int (2 ^ 32 - i)" "\<not> (word_of_int (2 ^ 32 - i) :: u64) < 4096"
proof -
  have "uint (word_of_int (- i) :: u64) = 2 ^ 64 - i" "uint (word_of_int i :: u64) = i"
    "uint (word_of_int (2 ^ 32 - i) :: u64) = 2 ^ 32 - i"
    unfolding neg64 by (rule uint_of_int64; use assms in simp)+
  moreover have "uint (- 4095 :: u64) = 2 ^ 64 - 4095" "uint (4096 :: u64) = 4096" by simp_all
  ultimately show "(- 4095 :: u64) \<le> word_of_int (- i)" "\<not> (- 4095 :: u64) \<le> word_of_int i"
    "(word_of_int i :: u64) < 4096" "\<not> (- 4095 :: u64) \<le> word_of_int (2 ^ 32 - i)"
    "\<not> (word_of_int (2 ^ 32 - i) :: u64) < 4096"
    using assms by (simp_all only: word_le_def word_less_def) simp_all
qed

lemma kret_sx_neg:
  assumes "small n i"
  shows "usbtrace_kret_sx a (scast (- n)) = word_of_int (- i)" "usbtrace_kret_sx True (ucast (- n)) = word_of_int (- i)"
    "usbtrace_kret_sx False (ucast (- n)) = word_of_int (2 ^ 32 - i)" "usbtrace_kret_sx a (ucast n) = word_of_int i"
proof -
  note sn = small_neg[OF assms]
  have i: "1 \<le> i" "i \<le> 4095" and n: "n = word_of_int i" using assms by (auto simp: small_def)
  have down: "(ucast (scast (- n) :: u64) :: u32) = - n" by (simp only: sn(2) down_of_int) (simp only: sn(1))
  have up: "(ucast (ucast (- n) :: u64) :: u32) = - n" "(ucast (ucast n :: u64) :: u32) = n"
    by (rule bit_word_eqI; simp add: bit_simps)+
  have pos: "(scast n :: u64) = word_of_int i"
    using i unfolding n by (simp add: scast_eq sint_of_int)
  show "usbtrace_kret_sx a (scast (- n)) = word_of_int (- i)" "usbtrace_kret_sx True (ucast (- n)) = word_of_int (- i)"
    "usbtrace_kret_sx False (ucast (- n)) = word_of_int (2 ^ 32 - i)" "usbtrace_kret_sx a (ucast n) = word_of_int i"
    unfolding usbtrace_kret_sx_def down up by (simp_all only: sn(2-4) pos if_True if_False if_cancel)
qed

text \<open>C32: Negative error codes, byte counts and pointers in a return register are told apart when the
  register holds them sign-extended (or as an error pointer), on both word sizes; \<open>int\<close> results are read right
  in any case. On a 64-bit target a negative \<open>int\<close> whose upper half is zero, the way a 32-bit move leaves
  it, is read as success by the pointer-or-int decoder.\<close>

theorem kret_decoding:
  fixes n :: u32
  assumes "1 \<le> n" "n \<le> 4095" "4096 \<le> p" "p < - 4095"
  shows "usbtrace_kret_int a (scast (- n)) = - n \<and> usbtrace_kret_int a (ucast (- n)) = - n
    \<and> usbtrace_kret_ptr_or_int a (scast (- n)) = - n \<and> usbtrace_kret_ptr_or_int True (ucast (- n)) = - n
    \<and> usbtrace_kret_ptr_or_int a (ucast n) = n \<and> usbtrace_kret_ptr_or_int False p = 0
    \<and> usbtrace_kret_ptr_or_int False (ucast (- n)) = 0"
proof -
  define i where "i = uint n"
  have "small n i" using assms(1,2) by (simp add: small_def i_def word_le_def)
  note sx = kret_sx_neg[OF this] and sn = small_neg(1)[OF this]
  have i: "1 \<le> i" "i \<le> 4095" and n: "n = word_of_int i" using \<open>small n i\<close> by (auto simp: small_def)
  note cmp = cmp64[OF i]
  have neg: "(ucast (word_of_int (- i) :: u64) :: u32) = - n" unfolding down_of_int sn ..
  have "word_of_int (2 ^ 32 - i) = - n" using word_of_int_minus[where 'a = 32, of i] by (simp add: n)
  then have neg': "(ucast (word_of_int (2 ^ 32 - i) :: u64) :: u32) = - n" unfolding down_of_int .
  have int: "usbtrace_kret_int a (ucast (- n)) = - n"
    by (cases a) (simp_all only: usbtrace_kret_int_def sx neg neg')
  have p: "\<not> - 4095 \<le> p" "\<not> p < 4096" using assms(3,4) by (simp_all add: not_le not_less)
  show ?thesis
    unfolding usbtrace_kret_ptr_or_int_def Let_def sx
    using int cmp p
    by (simp only: usbtrace_kret_int_def sx neg usbtrace_kret_sx_def[of False p] down_of_int n[symmetric] sn[symmetric] if_True if_False simp_thms)
qed

theorem kret_decoding_witness:
  "usbtrace_kret_ptr_or_int True (ucast (- 71 :: u32)) = - 71 \<and> usbtrace_kret_ptr_or_int False (ucast (- 71 :: u32)) = 0"
  using kret_decoding[of 71 5000] by simp

section \<open>Calls paired with their returns\<close>

lemma dev_match_SomeD:
  "usbtrace_dev_match dev f p = Some (v, q) \<Longrightarrow> v = ud_id_vendor dev \<and> q = ud_id_product dev"
  by (simp add: dev_match_Some)

definition maps0 :: enum_maps where
  "maps0 = \<lparr> em_desc_pending = Map.empty, em_addr_pending = Map.empty, em_config_pending = Map.empty \<rparr>"

fun pending_of :: "enum_call \<Rightarrow> enum_maps \<Rightarrow> (u64 \<rightharpoonup> u64)" where
  "pending_of Get_desc = em_desc_pending"
| "pending_of Set_addr = em_addr_pending"
| "pending_of Set_config = em_config_pending"

text \<open>What a hook does to the calls of kind \<open>c\<close> in progress, by thread.\<close>

fun enum_op :: "enum_call \<Rightarrow> dev_env \<times> enum_hook \<Rightarrow> (u64, u64) pend_op" where
  "enum_op c (en, Set_state a s) = Keep"
| "enum_op c (en, Call_entry c' a) =
     (let udev = USBTRACE_PTR_KEY (en_arch32 en) a in
      if c' = c \<and> udev \<noteq> 0 then Stash (en_pid_tgid en) udev else Keep)"
| "enum_op c (en, Call_exit c' rc) = (if c' = c then Drop (en_pid_tgid en) else Keep)"

definition dev_room :: "dev_env \<times> 'h \<Rightarrow> bool" where
  "dev_room h \<longleftrightarrow> (\<forall>name k. en_room (fst h) name k)"

lemma pop_emit_map: "fst (pop_emit cfg en rc step m) = bpf_map_delete_elem (en_pid_tgid en) m"
  by (auto simp: pop_emit_def Let_def delete_absent split: option.splits)

lemma enum_hit_op:
  assumes "dev_room h"
  shows "pending_of c (fst (enum_hit cfg h ms)) = pend_apply (enum_op c h) (pending_of c ms)"
proof -
  obtain en hk where h: "h = (en, hk)" by (cases h)
  have room: "en_room en name k" for name k using assms by (simp add: dev_room_def h)
  show ?thesis
  proof (cases hk)
    case (Set_state a s)
    then show ?thesis by (simp add: h)
  next
    case (Call_entry c' a)
    then show ?thesis by (cases c'; cases c) (simp_all add: h stash_def room Let_def)
  next
    case (Call_exit c' rc)
    then show ?thesis by (cases c'; cases c) (simp_all add: h pop_emit_map split_def Let_def)
  qed
qed

lemma enum_pending:
  assumes "list_all dev_room hs"
  shows "pending_of c (fold (\<lambda>h ms. fst (enum_hit cfg h ms)) hs maps0) k = pending k (map (enum_op c) hs)"
proof (rule pend_run[where sel = "pending_of c" and ops_of = "enum_op c"])
  show "pending_of c (fst (enum_hit cfg h s)) = pend_apply (enum_op c h) (pending_of c s)" if "h \<in> set hs" for h s
    using that assms by (intro enum_hit_op) (simp add: list_all_iff)
  show "pending_of c maps0 = Map.empty" by (cases c) (simp_all add: maps0_def)
qed

text \<open>The result the exit hook of a call reports.\<close>

definition call_status :: "enum_call \<Rightarrow> bool \<Rightarrow> u64 \<Rightarrow> s32" where
  "call_status c arch32 rc = (if c = Get_desc then usbtrace_kret_ptr_or_int arch32 rc else usbtrace_kret_int arch32 rc)"

lemma call_exit_out:
  "snd (enum_hit cfg (en, Call_exit c rc) ms) =
     (case pending_of c ms (en_pid_tgid en) of
        None \<Rightarrow> []
      | Some pud \<Rightarrow>
          let udev = USBTRACE_KPTR (en_arch32 en) pud; state = ucast (ud_state (en_usb_device en udev)) in
          if udev = 0 then [] else emit_enum cfg en udev state state (call_step c) (call_status c (en_arch32 en) rc))"
  by (cases c)
    (simp_all add: pop_emit_def call_status_def split_def Let_def ENUM_STEP_GET_DESC_def ENUM_STEP_SET_ADDR_def
      ENUM_STEP_SET_CONFIG_def split: option.splits)

text \<open>C33: When an enumeration call returns, the program reports exactly one milestone, for the device the same
  thread last entered this call with (its entry not yet paired), with the call's step and decoded result and
  the device's current state; without such an entry, or when that device does not pass the filter, it
  reports nothing. The entry is used up.\<close>

theorem enum_milestone_exact:
  assumes "list_all dev_room hs"
  shows "let (ms', out) = enum_hit cfg (en, Call_exit c rc) (fold (\<lambda>h ms. fst (enum_hit cfg h ms)) hs maps0)
         in pending_of c ms' (en_pid_tgid en) = None
            \<and> (case pending (en_pid_tgid en) (map (enum_op c) hs) of
                 None \<Rightarrow> out = []
               | Some pud \<Rightarrow>
                   let udev = USBTRACE_KPTR (en_arch32 en) pud; dev = en_usb_device en udev in
                   if udev \<noteq> 0 \<and> usbtrace_dev_match dev (df_filter_vid cfg) (df_filter_pid cfg) \<noteq> None
                   then \<exists>e. out = [e] \<and> ee_step e = call_step c \<and> ee_status e = call_status c (en_arch32 en) rc
                          \<and> ee_old_state e = ucast (ud_state dev) \<and> ee_new_state e = ucast (ud_state dev)
                          \<and> ee_busnum e = ucast (ud_busnum dev) \<and> ee_devnum e = ucast (ud_devnum dev)
                          \<and> ee_vid e = ud_id_vendor dev \<and> ee_product e = ud_id_product dev
                   else out = [])"
proof -
  define ms where "ms = fold (\<lambda>h ms. fst (enum_hit cfg h ms)) hs maps0"
  have p: "pending_of c ms (en_pid_tgid en) = pending (en_pid_tgid en) (map (enum_op c) hs)"
    unfolding ms_def by (rule enum_pending[OF assms])
  have "pending_of c (fst (enum_hit cfg (en, Call_exit c rc) ms)) (en_pid_tgid en) = None"
    by (cases c) (simp_all add: split_def Let_def pop_emit_map bpf_map_delete_elem_def)
  moreover have "USBTRACE_KPTR b (USBTRACE_KPTR b x) = USBTRACE_KPTR b x" for b x
    using kptr_idem(1)[of b x] by (simp add: USBTRACE_KPTR_def)
  ultimately show ?thesis
    unfolding ms_def[symmetric] Let_def split_def call_exit_out p
    by (auto simp: emit_enum_def Let_def dest: dev_match_SomeD split: option.splits)
qed

definition enum_env :: "u64 \<Rightarrow> dev_env" where
  "enum_env now =
     \<lparr> en_arch32 = False, en_ktime = now, en_pid_tgid = 77, en_comm = replicate 16 0, en_room = (\<lambda>_ _. True),
       en_usb_device = (\<lambda>_. \<lparr> ud_id_vendor = 0x046d, ud_id_product = 0x0825, ud_busnum = 1, ud_devnum = 5, ud_state = 6,
          ud_speed = 3, ud_portnum = 1, ud_reset_resume = 0, ud_devpath = replicate 16 0 \<rparr>),
       en_urb = undefined, en_probe_read = (\<lambda>_ _. None), px_read_kptr = (\<lambda>_. 0), px_hub_ports = (\<lambda>_. 0),
       px_hub_hdev = (\<lambda>_. 0), px_port_child = (\<lambda>_. 0), px_port_portnum = (\<lambda>_. 0),
       px_port_over_current_count = (\<lambda>_. 0) \<rparr>"

definition enum_cfg :: dev_config where "enum_cfg = \<lparr> df_filter_vid = 0, df_filter_pid = 0 \<rparr>"

theorem enum_milestone_exact_witness:
  "\<exists>e. snd (enum_hit enum_cfg (enum_env 9, Call_exit Set_addr (ucast (- 71 :: u32)))
         (fold (\<lambda>h ms. fst (enum_hit enum_cfg h ms)) [(enum_env 5, Call_entry Set_addr 0x8000)] maps0)) = [e]
     \<and> ee_status e = - 71 \<and> ee_step e = ENUM_STEP_SET_ADDR"
  using enum_milestone_exact[of "[(enum_env 5, Call_entry Set_addr 0x8000)]" enum_cfg "enum_env 9" Set_addr "ucast (- 71 :: u32)"]
  by (auto simp: enum_env_def enum_cfg_def dev_room_def pending_def USBTRACE_KPTR_def USBTRACE_PTR_KEY_def
      usbtrace_dev_match_def call_status_def usbtrace_kret_int_def usbtrace_kret_sx_def Let_def split_def)

section \<open>Connects\<close>

fun connect_op :: "dev_env \<times> lifecycle_hook \<Rightarrow> (u64, u64) pend_op" where
  "connect_op (en, New_device a) =
     (let udev = USBTRACE_PTR_KEY (en_arch32 en) a in if udev \<noteq> 0 then Stash (en_pid_tgid en) udev else Keep)"
| "connect_op (en, New_device_exit rc) = Drop (en_pid_tgid en)"
| "connect_op (en, Usb_disconnect a) = Keep"
| "connect_op (en, Usb_reset_device a) = Keep"

lemma new_device_exit_map: "fst (on_new_device_exit cfg en rc m) = bpf_map_delete_elem (en_pid_tgid en) m"
  by (auto simp: on_new_device_exit_def Let_def delete_absent split: option.splits)

lemma lifecycle_hit_op:
  assumes "dev_room h"
  shows "fst (lifecycle_hit cfg h m) = pend_apply (connect_op h) m"
proof -
  obtain en hk where h: "h = (en, hk)" by (cases h)
  have room: "en_room en name k" for name k using assms by (simp add: dev_room_def h)
  show ?thesis
    by (cases hk) (simp_all add: h on_new_device_def new_device_exit_map room Let_def)
qed

text \<open>When usb_new_device returns, a connect is reported exactly when the call succeeded, its thread's entry
  is known and the device passes the filter; it describes that device.\<close>

theorem connect_exact:
  assumes "list_all dev_room hs"
  shows "let (m', out) = lifecycle_hit cfg (en, New_device_exit rc) (fold (\<lambda>h m. fst (lifecycle_hit cfg h m)) hs Map.empty)
         in m' (en_pid_tgid en) = None
            \<and> (case pending (en_pid_tgid en) (map connect_op hs) of
                 None \<Rightarrow> out = []
               | Some pud \<Rightarrow>
                   let udev = USBTRACE_KPTR (en_arch32 en) pud; dev = en_usb_device en udev in
                   if 0 \<le> sint (usbtrace_kret_int (en_arch32 en) rc) \<and> udev \<noteq> 0
                      \<and> usbtrace_dev_match dev (df_filter_vid cfg) (df_filter_pid cfg) \<noteq> None
                   then \<exists>e. out = [e] \<and> le_action e = LIFECYCLE_CONNECT \<and> le_reset_resume e = 0
                          \<and> le_busnum e = ucast (ud_busnum dev) \<and> le_devnum e = ucast (ud_devnum dev)
                          \<and> le_vid e = ud_id_vendor dev \<and> le_product e = ud_id_product dev \<and> le_devpath e = ud_devpath dev
                   else out = [])"
proof -
  define m where "m = fold (\<lambda>h m. fst (lifecycle_hit cfg h m)) hs Map.empty"
  have p: "m (en_pid_tgid en) = pending (en_pid_tgid en) (map connect_op hs)"
    unfolding m_def
    by (rule pend_run[where sel = "\<lambda>m. m" and ops_of = connect_op])
      (use assms in \<open>auto simp: list_all_iff intro: lifecycle_hit_op\<close>)
  have "USBTRACE_KPTR b (USBTRACE_KPTR b x) = USBTRACE_KPTR b x" for b x
    using kptr_idem(1)[of b x] by (simp add: USBTRACE_KPTR_def)
  then have "snd (on_new_device_exit cfg en rc m) =
      (case pending (en_pid_tgid en) (map connect_op hs) of
         None \<Rightarrow> []
       | Some pud \<Rightarrow>
           let udev = USBTRACE_KPTR (en_arch32 en) pud; dev = en_usb_device en udev in
           if sint (usbtrace_kret_int (en_arch32 en) rc) < 0 \<or> udev = 0 then []
           else lifecycle_emit cfg en udev LIFECYCLE_CONNECT)"
    by (auto simp: on_new_device_exit_def p Let_def split: option.splits)
  moreover have "fst (on_new_device_exit cfg en rc m) (en_pid_tgid en) = None"
    by (simp add: new_device_exit_map bpf_map_delete_elem_def)
  moreover note \<open>USBTRACE_KPTR _ (USBTRACE_KPTR _ _) = USBTRACE_KPTR _ _\<close>
  ultimately show ?thesis
    unfolding m_def[symmetric] Let_def split_def lifecycle_hit.simps
    by (auto simp: lifecycle_emit_def LIFECYCLE_CONNECT_def LIFECYCLE_RESET_def Let_def dest: dev_match_SomeD
        split: option.splits)
qed

theorem connect_exact_witness:
  "\<exists>e. snd (lifecycle_hit enum_cfg (enum_env 9, New_device_exit 0)
         (fold (\<lambda>h m. fst (lifecycle_hit enum_cfg h m)) [(enum_env 5, New_device 0x8000)] Map.empty)) = [e]
     \<and> le_devnum e = 5"
  using connect_exact[of "[(enum_env 5, New_device 0x8000)]" enum_cfg "enum_env 9" 0]
  by (auto simp: enum_env_def enum_cfg_def dev_room_def pending_def USBTRACE_KPTR_def USBTRACE_PTR_KEY_def
      usbtrace_dev_match_def usbtrace_kret_int_def usbtrace_kret_sx_def Let_def split_def)

end
