(* ===== verification/Class_Stream.thy ===== *)
theory Class_Stream
  imports Bpf_Core Module_Core Ut_Cli
begin

text \<open>
  The class modules (uac, hid, storage): the BPF programs, which all submit the class record
  (\<open>modules/{uac,hid,storage}/*.bpf.c\<close>), and the shared consumer \<open>class_stream.c\<close> with its options, health
  tally and session. What is printed per event is the event itself; \<open>Dev_Consumer\<close> has its text and JSON line.
\<close>

section \<open>The programs\<close>

definition USBTRACE_CLASS_AUDIO :: u8 where [ut_const]: "USBTRACE_CLASS_AUDIO = 1"
definition USBTRACE_CLASS_HID :: u8 where [ut_const]: "USBTRACE_CLASS_HID = 2"
definition USBTRACE_CLASS_STORAGE :: u8 where [ut_const]: "USBTRACE_CLASS_STORAGE = 3"

record usbtrace_class_config =
  cl_filter_vid :: u16
  cl_filter_pid :: u16

definition on_irq_in :: "usbtrace_class_config \<Rightarrow> 'x bpf_env_scheme \<Rightarrow> u64 \<Rightarrow> class_urb_event list" where
  "on_irq_in cfg en arg1 =
     usbtrace_class_urb_emit en (USBTRACE_KPTR (en_arch32 en) arg1) (cl_filter_vid cfg) (cl_filter_pid cfg) USBTRACE_CLASS_HID"

definition on_irq_out :: "usbtrace_class_config \<Rightarrow> 'x bpf_env_scheme \<Rightarrow> u64 \<Rightarrow> class_urb_event list" where
  "on_irq_out cfg en arg1 =
     usbtrace_class_urb_emit en (USBTRACE_KPTR (en_arch32 en) arg1) (cl_filter_vid cfg) (cl_filter_pid cfg) USBTRACE_CLASS_HID"

definition uac_on_complete :: "usbtrace_class_config \<Rightarrow> 'x bpf_env_scheme \<Rightarrow> u64 \<Rightarrow> class_urb_event list" where
  "uac_on_complete cfg en arg1 =
     usbtrace_class_urb_emit en (USBTRACE_KPTR (en_arch32 en) arg1) (cl_filter_vid cfg) (cl_filter_pid cfg) USBTRACE_CLASS_AUDIO"

definition storage_on_complete :: "usbtrace_class_config \<Rightarrow> 'x bpf_env_scheme \<Rightarrow> u64 \<Rightarrow> class_urb_event list" where
  "storage_on_complete cfg en arg1 =
     usbtrace_class_urb_emit en (USBTRACE_KPTR (en_arch32 en) arg1) (cl_filter_vid cfg) (cl_filter_pid cfg) USBTRACE_CLASS_STORAGE"

section \<open>The consumer\<close>

definition xfer_str :: "u8 \<Rightarrow> string" where
  "xfer_str t = (if t = 0 then ''ISOC'' else if t = 1 then ''INT'' else if t = 2 then ''CTRL'' else if t = 3 then ''BULK'' else ''?'')"

definition usbtrace_class_str :: "u8 \<Rightarrow> string" where
  "usbtrace_class_str klass =
     (if klass = 0 then ''video'' else if klass = 1 then ''audio'' else if klass = 2 then ''hid''
      else if klass = 3 then ''storage'' else ''class'')"

text \<open>The results of \<open>getopt_long\<close>, in order: option and argument.\<close>

fun class_stream_parse_args :: "(int \<times> string) list \<Rightarrow> usbtrace_filter \<times> bool \<Rightarrow> int \<times> usbtrace_filter \<times> bool" where
  "class_stream_parse_args [] (filt, all) = (0, filt, all)"
| "class_stream_parse_args ((c, optarg) # opts) (filt, all) =
     (let (used, filt') = usbtrace_filter_getopt c optarg filt in
      if used then class_stream_parse_args opts (filt', all)
      else if c = of_char CHR ''a'' then class_stream_parse_args opts (filt, True)
      else if c = of_char CHR ''h'' then (1, filt, all)
      else (- 1, filt, all))"

record class_stats =
  cs_urbs :: u64
  cs_isoc_err :: u64
  cs_status_err :: u64
  cs_bytes :: u64

record class_stream_ctx =
  cx_all :: bool
  cx_stats :: class_stats

text \<open>The tally after an event, and the event when it is printed.\<close>

definition class_stream_on_event :: "u8 list \<Rightarrow> class_stream_ctx \<Rightarrow> class_stream_ctx \<times> class_urb_event list" where
  "class_stream_on_event data c =
     (let e = dec_class_urb_event data in
      if length data < 16 then (c, [])
      else if h_kind (dec_hdr data) \<noteq> USBTRACE_EVT_CLASS \<or> length data < 72 then (c, [])
      else
        let anomaly = (ce_status e \<noteq> 0 \<or> sint (ce_error_count e) > 0);
            st = cx_stats c;
            st1 = st\<lparr> cs_urbs := cs_urbs st + 1, cs_bytes := cs_bytes st + ucast (ce_actual_length e) \<rparr>;
            st2 = (if sint (ce_error_count e) > 0 then st1\<lparr> cs_isoc_err := cs_isoc_err st1 + 1 \<rparr> else st1);
            st3 = (if ce_status e \<noteq> 0 then st2\<lparr> cs_status_err := cs_status_err st2 + 1 \<rparr> else st2)
        in (c\<lparr> cx_stats := st3 \<rparr>, if cx_all c \<or> anomaly then [e] else []))"

text \<open>One event, collecting what is printed.\<close>

definition class_step :: "u8 list \<Rightarrow> class_stream_ctx \<times> class_urb_event list \<Rightarrow> class_stream_ctx \<times> class_urb_event list" where
  "class_step = (\<lambda>data (c, out). let (c', o') = class_stream_on_event data c in (c', out @ o'))"

text \<open>A session of uac or storage: open the skeleton, run the harness with the consumer, print the summary when
  polling stops. The context collects the printed events.\<close>

definition class_run :: "bool \<Rightarrow> u8 list run_env \<Rightarrow> class_stream_ctx \<Rightarrow> int \<times> class_urb_event list \<times> class_stats option" where
  "class_run opened env c =
     (if \<not> opened then (1, [], None)
      else
        let (rc, (c', out), acts) = usbtrace_run class_step env (c, [])
        in (rc, out, if OnStop \<in> set acts then Some (cx_stats c') else None))"

section \<open>Tallies\<close>

definition class_records :: "u8 list list \<Rightarrow> class_urb_event list" where
  "class_records datas =
     concat (map (\<lambda>d. if 72 \<le> length d \<and> h_kind (dec_hdr d) = USBTRACE_EVT_CLASS then [dec_class_urb_event d] else []) datas)"

definition is_anomaly :: "class_urb_event \<Rightarrow> bool" where
  "is_anomaly e \<longleftrightarrow> ce_status e \<noteq> 0 \<or> sint (ce_error_count e) > 0"

definition tally :: "class_urb_event list \<Rightarrow> class_stats \<Rightarrow> class_stats" where
  "tally es st =
     \<lparr> cs_urbs = cs_urbs st + of_nat (length es),
       cs_isoc_err = cs_isoc_err st + of_nat (length (filter (\<lambda>e. sint (ce_error_count e) > 0) es)),
       cs_status_err = cs_status_err st + of_nat (length (filter (\<lambda>e. ce_status e \<noteq> 0) es)),
       cs_bytes = cs_bytes st + sum_list (map (\<lambda>e. ucast (ce_actual_length e)) es) \<rparr>"

lemma tally_Nil [simp]: "tally [] st = st"
  by (simp add: tally_def)

lemma tally_Cons:
  "tally (e # es) st = tally es (tally [e] st)"
  by (simp add: tally_def add.assoc add.commute)

lemma class_fold:
  "fold class_step datas (c, out) =
     (c\<lparr> cx_stats := tally (class_records datas) (cx_stats c) \<rparr>,
      out @ filter (\<lambda>e. cx_all c \<or> is_anomaly e) (class_records datas))"
proof (induction datas arbitrary: c out)
  case Nil
  then show ?case by (simp add: class_records_def)
next
  case (Cons d datas)
  show ?case
  proof (cases "72 \<le> length d \<and> h_kind (dec_hdr d) = USBTRACE_EVT_CLASS")
    case True
    define e where "e = dec_class_urb_event d"
    have step: "class_step d (c, out) = (c\<lparr> cx_stats := tally [e] (cx_stats c) \<rparr>, out @ (if cx_all c \<or> is_anomaly e then [e] else []))"
      using True by (auto simp: class_step_def class_stream_on_event_def e_def[symmetric] tally_def is_anomaly_def Let_def)
    have "class_records (d # datas) = e # class_records datas" using True by (simp add: class_records_def e_def)
    then show ?thesis by (simp add: step Cons.IH tally_Cons[of e "class_records datas"])
  next
    case False
    then have "class_step d (c, out) = (c, out)" "class_records (d # datas) = class_records datas"
      by (auto simp: class_step_def class_stream_on_event_def class_records_def Let_def)
    then show ?thesis by (simp add: Cons.IH)
  qed
qed

text \<open>A session of a class module fails with exit code 1 and prints nothing when its program cannot be set up.
  Otherwise it prints exactly the delivered class records that are anomalies (all of them with --all), in
  order, and its summary counts exactly the delivered class records: their number, those with packet errors,
  those with an error status, and their bytes. Other records are ignored.\<close>

theorem class_session_report:
  "class_run opened env c =
     (if opened \<and> run_ready env
      then (if list_ex fatal_poll (re_polls env) then 1 else 0,
            filter (\<lambda>e. cx_all c \<or> is_anomaly e) (class_records (delivered env)),
            Some (tally (class_records (delivered env)) (cx_stats c)))
      else (1, [], None))"
proof (cases "opened \<and> run_ready env")
  case True
  then show ?thesis
    unfolding class_run_def Let_def
    using usbtrace_run_ready[of env class_step "(c, [])"] by (simp add: class_fold)
next
  case False
  then show ?thesis
    unfolding class_run_def Let_def
    using usbtrace_run_not_ready[of env class_step "(c, [])"] by auto
qed

end
