(* ===== verification/Json_Line.thy ===== *)
theory Json_Line
  imports Ut_Cli
begin

text \<open>
  The JSON lines the modules print: one object per line, of strings, integers, decimals, booleans and arrays of
  objects. The shapes of the \<open>printf\<close> formats are written with \<open>json_obj\<close>, \<open>json_array\<close>, \<open>jstr\<close> and the number
  formats; a reader for such lines gives the members back, so a printed line says what it was printed from.
\<close>

section \<open>Writing\<close>

definition LF :: char where "LF = CHR 0x0A"

text \<open>A quoted string, \<open>%u\<close> and \<open>%d\<close>, a field of minimal width (\<open>%-<n>s\<close>, \<open>%<n>s\<close>).\<close>

definition jstr :: "string \<Rightarrow> string" where "jstr s = DQ # s @ [DQ]"
definition fmt_u :: "'w::len word \<Rightarrow> string" where "fmt_u w = show_dec (unat w)"
definition fmt_d :: "s32 \<Rightarrow> string" where "fmt_d w = show_long (sint w)"
definition pad_right :: "nat \<Rightarrow> string \<Rightarrow> string" where "pad_right n s = s @ replicate (n - length s) CHR 0x20"
definition pad_left :: "nat \<Rightarrow> string \<Rightarrow> string" where "pad_left n s = replicate (n - length s) CHR 0x20 @ s"

fun json_members :: "(string \<times> string) list \<Rightarrow> string" where
  "json_members [] = []"
| "json_members [(k, v)] = jstr k @ CHR '':'' # v"
| "json_members ((k, v) # ms) = jstr k @ CHR '':'' # v @ CHR '','' # json_members ms"

text \<open>An object within a line, an array of objects, and a whole line.\<close>

definition json_sub :: "(string \<times> string) list \<Rightarrow> string" where
  "json_sub ms = CHR ''{'' # json_members ms @ ''}''"

fun json_elems :: "string list \<Rightarrow> string" where
  "json_elems [] = []"
| "json_elems [s] = s"
| "json_elems (s # ss) = s @ CHR '','' # json_elems ss"

definition json_array :: "string list \<Rightarrow> string" where
  "json_array ss = CHR ''['' # json_elems ss @ '']''"

definition json_obj :: "(string \<times> string) list \<Rightarrow> string" where
  "json_obj ms = CHR ''{'' # json_members ms @ [CHR ''}'', LF]"

text \<open>The last \<open>k\<close> decimal digits of a number, and \<open>n / 10^k\<close> with \<open>k\<close> decimals.\<close>

primrec dec_digits :: "nat \<Rightarrow> nat \<Rightarrow> string" where
  "dec_digits 0 n = []"
| "dec_digits (Suc k) n = dec_digits k (n div 10) @ [digit_char (n mod 10)]"

definition dec_str :: "nat \<Rightarrow> nat \<Rightarrow> string" where
  "dec_str k n = show_dec (n div 10 ^ k) @ CHR ''.'' # dec_digits k n"

text \<open>A C string escaped into a buffer of \<open>n\<close> bytes.\<close>

definition jesc_str :: "nat \<Rightarrow> string \<Rightarrow> string" where
  "jesc_str n s = (case usbtrace_json_escape s n of None \<Rightarrow> [] | Some t \<Rightarrow> t)"

text \<open>A \<open>char[]\<close> field escaped into a buffer of \<open>n\<close> bytes, between quotes.\<close>

definition jesc :: "nat \<Rightarrow> u8 list \<Rightarrow> string" where
  "jesc n bs = (case usbtrace_json_escape (bytes_cstr bs) n of None \<Rightarrow> [] | Some s \<Rightarrow> s)"

section \<open>Reading\<close>

text \<open>\<open>JF k n\<close> is the decimal \<open>n / 10^(k + 1)\<close>, written with \<open>k + 1\<close> decimals.\<close>

datatype jval = JS string | JN int | JF nat nat | JB bool | JA "(string \<times> jval) list list"

text \<open>The raw body of a string up to its closing quote, and what follows.\<close>

fun str_body :: "string \<Rightarrow> (string \<times> string) option" where
  "str_body [] = None"
| "str_body (c # cs) =
     (if c = DQ then Some ([], cs)
      else if c = BS then
        (case cs of
           [] \<Rightarrow> None
         | d # ds \<Rightarrow> map_option (\<lambda>(b, r). (c # d # b, r)) (str_body ds))
      else map_option (\<lambda>(b, r). (c # b, r)) (str_body cs))"

definition parse_str :: "string \<Rightarrow> (string \<times> string) option" where
  "parse_str s =
     (case s of
        [] \<Rightarrow> None
      | c # cs \<Rightarrow>
          if c \<noteq> DQ then None
          else (case str_body cs of
                  None \<Rightarrow> None
                | Some (b, r) \<Rightarrow> map_option (\<lambda>t. (t, r)) (json_decode b)))"

definition parse_num :: "string \<Rightarrow> (jval \<times> string) option" where
  "parse_num s =
     (let (neg, body) = (case s of c # cs \<Rightarrow> if c = CHR ''-'' then (True, cs) else (False, s) | [] \<Rightarrow> (False, [])) in
      if body \<noteq> [] \<and> is_digit 10 (hd body)
      then
        (let (m, r) = read_digits 10 0 body in
         if r \<noteq> [] \<and> hd r = CHR ''.''
         then
           (let (n, t) = read_digits 10 m (tl r); places = length (tl r) - length t in
            if neg \<or> places = 0 then None else Some (JF (places - 1) n, t))
         else Some (JN (if neg then - int m else int m), r))
      else None)"

definition parse_word :: "string \<Rightarrow> (jval \<times> string) option" where
  "parse_word s =
     (if take 4 s = ''true'' then Some (JB True, drop 4 s)
      else if take 5 s = ''false'' then Some (JB False, drop 5 s) else None)"

text \<open>A value; the members of an object up to its closing brace; the elements of an array up to its closing bracket.
  The first argument is the fuel.\<close>

fun parse_val :: "nat \<Rightarrow> string \<Rightarrow> (jval \<times> string) option"
  and parse_members :: "nat \<Rightarrow> string \<Rightarrow> ((string \<times> jval) list \<times> string) option"
  and parse_elems :: "nat \<Rightarrow> string \<Rightarrow> ((string \<times> jval) list list \<times> string) option" where
  "parse_val 0 s = None"
| "parse_val (Suc n) s =
     (if s = [] then None
      else if hd s = DQ then map_option (\<lambda>(t, r). (JS t, r)) (parse_str s)
      else if hd s = CHR ''['' then
        (if take 1 (tl s) = '']'' then Some (JA [], drop 2 s)
         else map_option (\<lambda>(os, r). (JA os, r)) (parse_elems n (tl s)))
      else if hd s = CHR ''t'' \<or> hd s = CHR ''f'' then parse_word s
      else parse_num s)"
| "parse_members 0 s = None"
| "parse_members (Suc n) s =
     (case parse_str s of
        None \<Rightarrow> None
      | Some (k, r) \<Rightarrow>
          if take 1 r \<noteq> '':'' then None
          else (case parse_val n (tl r) of
                  None \<Rightarrow> None
                | Some (v, t) \<Rightarrow>
                    if take 1 t = '','' then map_option (\<lambda>(ms, u). ((k, v) # ms, u)) (parse_members n (tl t))
                    else if take 1 t = ''}'' then Some ([(k, v)], tl t)
                    else None))"
| "parse_elems 0 s = None"
| "parse_elems (Suc n) s =
     (if take 1 s \<noteq> ''{'' then None
      else (case (if take 1 (tl s) = ''}'' then Some ([], drop 2 s) else parse_members n (tl s)) of
              None \<Rightarrow> None
            | Some (ms, r) \<Rightarrow>
                if take 1 r = '','' then map_option (\<lambda>(os, u). (ms # os, u)) (parse_elems n (tl r))
                else if take 1 r = '']'' then Some ([ms], tl r)
                else None))"

text \<open>Every call consumes a character, so the length of the line is enough fuel.\<close>

definition json_parse :: "string \<Rightarrow> (string \<times> jval) list option" where
  "json_parse s =
     (if s \<noteq> [] \<and> hd s = CHR ''{''
      then (case parse_members (length s) (tl s) of Some (ms, [c]) \<Rightarrow> if c = LF then Some ms else None | _ \<Rightarrow> None)
      else None)"

section \<open>Round trip\<close>

definition escs :: "string \<Rightarrow> string" where
  "escs s = concat (map esc s)"

fun jrender :: "jval \<Rightarrow> string"
  and jmembers :: "(string \<times> jval) list \<Rightarrow> string"
  and jelems :: "(string \<times> jval) list list \<Rightarrow> string" where
  "jrender (JS s) = jstr (escs s)"
| "jrender (JN i) = show_long i"
| "jrender (JF k n) = dec_str (Suc k) n"
| "jrender (JB b) = (if b then ''true'' else ''false'')"
| "jrender (JA os) = CHR ''['' # jelems os @ '']''"
| "jmembers [] = []"
| "jmembers [(k, v)] = jstr (escs k) @ CHR '':'' # jrender v"
| "jmembers ((k, v) # ms) = jstr (escs k) @ CHR '':'' # jrender v @ CHR '','' # jmembers ms"
| "jelems [] = []"
| "jelems [ms] = CHR ''{'' # jmembers ms @ ''}''"
| "jelems (ms # os) = CHR ''{'' # jmembers ms @ CHR ''}'' # CHR '','' # jelems os"

lemma special_chars [simp]: "DQ \<noteq> BS" "BS \<noteq> DQ" "DQ \<noteq> CHR ''-''" "CHR ''-'' \<noteq> DQ" "CHR ''n'' \<noteq> DQ" "CHR ''n'' \<noteq> BS"
  "CHR ''t'' \<noteq> DQ" "CHR ''t'' \<noteq> BS" "CHR ''r'' \<noteq> DQ" "CHR ''r'' \<noteq> BS" "CHR ''u'' \<noteq> DQ" "CHR ''u'' \<noteq> BS"
  "CHR ''0'' \<noteq> DQ" "CHR ''0'' \<noteq> BS"
  by (simp_all add: DQ_def BS_def)

lemma digit_char_16_quote: "d < 16 \<Longrightarrow> digit_char d \<noteq> DQ \<and> digit_char d \<noteq> BS"
  by (drule less_16_cases) (auto simp: digit_char_def DQ_def BS_def)

lemma str_body_esc: "str_body (esc c @ r) = map_option (\<lambda>(b, t). (esc c @ b, t)) (str_body r)"
proof (cases "c = DQ \<or> c = BS \<or> c = CHR 0x0A \<or> c = CHR 0x09 \<or> c = CHR 0x0D \<or> \<not> (of_char c :: nat) < 0x20")
  case True
  then show ?thesis by (auto simp: esc_def option.map_comp comp_def split_beta)
next
  case False
  then have e: "esc c = u_escape c" by (auto simp: esc_def)
  have "of_char c div 16 < (16::nat)" "of_char c mod 16 < (16::nat)" using False by auto
  then show ?thesis
    using digit_char_16_quote unfolding e u_escape_def
    by (cases "str_body r") (auto simp: split_beta)
qed

lemma str_body_escs: "str_body (escs s @ DQ # r) = Some (escs s, r)"
  unfolding escs_def by (induction s) (simp_all add: str_body_esc)

lemma parse_str_escs: "parse_str (jstr (escs s) @ r) = Some (s, r)"
  using decode_escape_all[of s] by (simp add: parse_str_def jstr_def str_body_escs escs_def[symmetric])

lemma read_digits_stop: "r \<noteq> [] \<Longrightarrow> digit_val (hd r) = None \<Longrightarrow> read_digits b acc r = (acc, r)"
  by (cases r) simp_all

lemma read_dec_append:
  assumes "r \<noteq> []" "digit_val (hd r) = None"
  shows "read_digits 10 0 (show_dec n @ r) = (n, r)"
  using assms read_digits_show_base[of n] show_base_10_is_digit[of n]
  by (simp add: show_dec_def read_digits_append read_digits_stop)

lemma show_dec_head: "show_dec n \<noteq> []" "is_digit 10 (hd (show_dec n))" "hd (show_dec n) \<noteq> CHR ''-''" "hd (show_dec n) \<noteq> DQ"
proof -
  show ne: "show_dec n \<noteq> []" by (simp add: show_dec_def)
  obtain d where d: "d < 10" "hd (show_dec n) = digit_char d" using show_dec_hd by blast
  then show "is_digit 10 (hd (show_dec n))" "hd (show_dec n) \<noteq> CHR ''-''" by (simp_all add: is_digit_def)
  show "hd (show_dec n) \<noteq> DQ" using d digit_char_16_quote[of d] by simp
qed

lemma dec_digits_props: "length (dec_digits k n) = k" "list_all (\<lambda>c. is_digit 10 c) (dec_digits k n)"
  by (induction k arbitrary: n) (simp_all add: is_digit_def)

lemma read_dec_digits: "read_digits 10 acc (dec_digits k n) = (acc * 10 ^ k + n mod 10 ^ k, [])"
proof (induction k arbitrary: n)
  case (Suc k)
  have "n mod 10 ^ Suc k = n mod 10 + 10 * (n div 10 mod 10 ^ k)" by (simp add: mod_mult2_eq)
  then show ?case using Suc[of "n div 10"] by (simp add: read_digits_append dec_digits_props)
qed simp

text \<open>What may follow a value: neither a digit nor a point.\<close>

definition val_end :: "string \<Rightarrow> bool" where
  "val_end r \<longleftrightarrow> r \<noteq> [] \<and> digit_val (hd r) = None \<and> hd r \<noteq> CHR ''.''"

lemma read_dec_end:
  assumes "r \<noteq> []" "digit_val (hd r) = None"
  shows "read_digits 10 m (dec_digits k n @ r) = (m * 10 ^ k + n mod 10 ^ k, r)"
  using assms read_dec_digits[of m k n] by (simp add: read_digits_append dec_digits_props read_digits_stop)

lemma parse_num_int:
  assumes "val_end r"
  shows "parse_num (show_long i @ r) = Some (JN i, r)"
proof -
  have r: "r \<noteq> []" "digit_val (hd r) = None" "hd r \<noteq> CHR ''.''" using assms by (simp_all add: val_end_def)
  show ?thesis
  proof (cases "i < 0")
    case True
    then show ?thesis using show_dec_head[of "nat (- i)"] read_dec_append[OF r(1,2), of "nat (- i)"] r(3)
      by (simp add: parse_num_def show_long_def)
  next
    case False
    obtain c cs where c: "show_dec (nat i) = c # cs" using show_dec_head(1) by (cases "show_dec (nat i)") auto
    then show ?thesis using False show_dec_head[of "nat i"] read_dec_append[OF r(1,2), of "nat i"] r(3)
      by (simp add: parse_num_def show_long_def)
  qed
qed

lemma parse_num_dec:
  assumes "val_end r"
  shows "parse_num (dec_str (Suc k) n @ r) = Some (JF k n, r)"
proof -
  have r: "r \<noteq> []" "digit_val (hd r) = None" using assms by (simp_all add: val_end_def)
  let ?f = "CHR ''.'' # dec_digits (Suc k) n @ r"
  have f: "?f \<noteq> []" "digit_val (hd ?f) = None" by (simp_all add: digit_val_def)
  obtain c cs where c: "show_dec (n div 10 ^ Suc k) = c # cs" using show_dec_head(1) by (cases "show_dec (n div 10 ^ Suc k)") auto
  have "read_digits 10 0 (c # cs @ ?f) = (n div 10 ^ Suc k, ?f)"
    using read_dec_append[OF f, of "n div 10 ^ Suc k"] c by simp
  moreover have "read_digits 10 (n div 10 ^ Suc k) (dec_digits (Suc k) n @ r) = (n, r)"
    unfolding read_dec_end[OF r] by (simp only: div_mult_mod_eq)
  moreover have "c \<noteq> CHR ''-''" "is_digit 10 c" using show_dec_head[of "n div 10 ^ Suc k"] c by auto
  moreover have "length (dec_digits (Suc k) n @ r) - length r = Suc k" using dec_digits_props(1)[of "Suc k" n] by simp
  ultimately show ?thesis unfolding parse_num_def dec_str_def c
    by (simp del: read_digits.simps dec_digits.simps length_append)
qed

lemma show_long_head: "show_long i \<noteq> []" "hd (show_long i) \<noteq> DQ"
  using show_dec_head by (simp_all add: show_long_def)

lemma digit_10_char: "is_digit 10 c \<Longrightarrow> c \<noteq> DQ \<and> c \<noteq> CHR ''['' \<and> c \<noteq> CHR ''t'' \<and> c \<noteq> CHR ''f''"
  by (auto simp: is_digit_def digit_val_def DQ_def Let_def split: if_splits)

text \<open>A number starts neither a string, nor an array, nor a word.\<close>

lemma number_head:
  "s = show_long i \<or> s = dec_str k n \<Longrightarrow>
   s \<noteq> [] \<and> hd s \<noteq> DQ \<and> hd s \<noteq> CHR ''['' \<and> hd s \<noteq> CHR ''t'' \<and> hd s \<noteq> CHR ''f''"
  using show_dec_head[of "nat (- i)"] show_dec_head[of "nat i"] show_dec_head[of "n div 10 ^ k"]
    digit_10_char[of "hd (show_dec (nat i))"] digit_10_char[of "hd (show_dec (n div 10 ^ k))"]
  by (cases "i < 0"; elim disjE) (simp_all add: show_long_def dec_str_def hd_append)

definition jmember :: "string \<times> jval \<Rightarrow> string \<times> string" where
  "jmember = (\<lambda>(k, v). (escs k, jrender v))"

lemma jmembers_eq: "jmembers ms = json_members (map jmember ms)"
  by (induction ms rule: induct_list012) (auto simp: jmember_def)

lemma jelems_eq: "jelems os = json_elems (map (\<lambda>ms. json_sub (map jmember ms)) os)"
  by (induction os rule: induct_list012) (simp_all add: json_sub_def jmembers_eq)

lemma jrender_array: "jrender (JA os) = json_array (map (\<lambda>ms. json_sub (map jmember ms)) os)"
  by (simp add: json_array_def jelems_eq)

lemma val_end_simps [simp]: "val_end (CHR '','' # r)" "val_end (CHR ''}'' # r)" "val_end (CHR '']'' # r)"
  by (simp_all add: val_end_def digit_val_def)

lemma jmembers_Cons: "jmembers ((k, v) # ms) = jstr (escs k) @ CHR '':'' # jrender v @ (if ms = [] then [] else CHR '','' # jmembers ms)"
  by (cases ms) simp_all

lemma jelems_Cons: "jelems (ms # os) = CHR ''{'' # jmembers ms @ CHR ''}'' # (if os = [] then [] else CHR '','' # jelems os)"
  by (cases os) simp_all

lemma jstr_len [simp]: "length (jstr s) = length s + 2"
  by (simp add: jstr_def)

lemma jmembers_head: "ms \<noteq> [] \<Longrightarrow> take 1 (jmembers ms @ t) = [DQ]"
  by (cases ms) (auto simp: jmembers_Cons jstr_def)

lemma DQ_brace [simp]: "DQ \<noteq> CHR ''}''"
  by (simp add: DQ_def)

lemma parse_render_all:
  "val_end r \<Longrightarrow> length (jrender v) \<le> n \<Longrightarrow> parse_val n (jrender v @ r) = Some (v, r)"
  "ms \<noteq> [] \<Longrightarrow> length (jmembers ms) \<le> n \<Longrightarrow> parse_members n (jmembers ms @ CHR ''}'' # r) = Some (ms, r)"
  "os \<noteq> [] \<Longrightarrow> length (jelems os) \<le> n \<Longrightarrow> parse_elems n (jelems os @ CHR '']'' # r) = Some (os, r)"
proof (induction v and ms and os arbitrary: n r and n r and n r rule: jrender_jmembers_jelems.induct)
  case (1 s)
  then show ?case using parse_str_escs[of s r] by (cases n) (simp_all add: jstr_def)
next
  case (2 i)
  then show ?case using number_head[of "show_long i" i] parse_num_int[of r i] by (cases n) simp_all
next
  case (3 k n')
  then show ?case using number_head[of "dec_str (Suc k) n'" 0 "Suc k" n'] parse_num_dec[of r k n']
    by (cases n) (simp_all del: dec_digits.simps)
next
  case (4 b)
  then show ?case by (cases n; cases b) (auto simp: parse_word_def DQ_def)
next
  case (5 os)
  then show ?case by (cases n; cases os) (auto simp: DQ_def jelems_Cons)
next
  case (7 k v)
  then obtain n' where n: "n = Suc n'" by (cases n) auto
  have "parse_val n' (jrender v @ CHR ''}'' # r) = Some (v, CHR ''}'' # r)" using 7 n by simp
  then show ?case by (simp add: n parse_str_escs)
next
  case (8 k v m ms)
  then obtain n' where n: "n = Suc n'" by (cases n) auto
  let ?rest = "jmembers (m # ms) @ CHR ''}'' # r"
  have "parse_val n' (jrender v @ CHR '','' # ?rest) = Some (v, CHR '','' # ?rest)" using 8 n by simp
  moreover have "parse_members n' ?rest = Some (m # ms, r)" using 8 n by simp
  ultimately show ?case by (simp add: n parse_str_escs del: jmembers.simps) (simp add: parse_str_escs)
next
  case (10 ms)
  then obtain n' where n: "n = Suc n'" by (cases n) auto
  show ?case
  proof (cases "ms = []")
    case False
    then have "parse_members n' (jmembers ms @ CHR ''}'' # CHR '']'' # r) = Some (ms, CHR '']'' # r)" using 10 n by simp
    then show ?thesis using jmembers_head[OF False] by (simp add: n)
  qed (simp add: n)
next
  case (11 ms m os)
  then obtain n' where n: "n = Suc n'" by (cases n) auto
  let ?rest = "jelems (m # os) @ CHR '']'' # r"
  have rest: "parse_elems n' ?rest = Some (m # os, r)" using 11 n by simp
  show ?case
  proof (cases "ms = []")
    case False
    then have "parse_members n' (jmembers ms @ CHR ''}'' # CHR '','' # ?rest) = Some (ms, CHR '','' # ?rest)" using 11 n by simp
    then show ?thesis using rest jmembers_head[OF False] by (simp add: n)
  qed (use rest in \<open>simp add: n\<close>)
qed simp_all

lemma json_parse_render:
  assumes "ms \<noteq> []"
  shows "json_parse (json_obj (map jmember ms)) = Some ms"
proof -
  have "length (jmembers ms) \<le> length (json_obj (map jmember ms))" by (simp add: json_obj_def jmembers_eq)
  from parse_render_all(2)[OF assms this, of "[LF]"] show ?thesis by (simp add: json_parse_def json_obj_def jmembers_eq)
qed

section \<open>What the fields print\<close>

definition plain :: "string \<Rightarrow> bool" where
  "plain s \<longleftrightarrow> list_all (\<lambda>c. 0x20 \<le> (of_char c :: nat) \<and> c \<noteq> DQ \<and> c \<noteq> BS) s"

lemma plain_simps [simp]: "plain []" "plain (c # s) \<longleftrightarrow> 0x20 \<le> (of_char c :: nat) \<and> c \<noteq> DQ \<and> c \<noteq> BS \<and> plain s"
  "plain (s @ t) \<longleftrightarrow> plain s \<and> plain t" "plain (if P then s else t) \<longleftrightarrow> (if P then plain s else plain t)"
  by (auto simp: plain_def)

lemma escs_plain: "plain s \<Longrightarrow> escs s = s"
  unfolding escs_def
proof (induction s)
  case (Cons c s)
  have "c \<noteq> CHR 0x0A" "c \<noteq> CHR 0x09" "c \<noteq> CHR 0x0D" using Cons.prems by auto
  then show ?case using Cons by (simp add: esc_def)
qed simp

lemma digit_char_plain: "d < 16 \<Longrightarrow> plain [digit_char d]"
  by (drule less_16_cases) (auto simp: digit_char_def DQ_def BS_def)

lemma show_base_plain: "2 \<le> b \<Longrightarrow> b \<le> 16 \<Longrightarrow> plain (show_base b n)"
proof (induction b n rule: show_base.induct)
  case (1 b n)
  show ?case
  proof (cases "n < b")
    case True
    then show ?thesis using 1(2,3) digit_char_plain[of n] by (subst show_base.simps) simp
  next
    case False
    have "n mod b < b" using 1(2) by simp
    then have "n mod b < 16" using 1(3) by linarith
    then show ?thesis using False 1 digit_char_plain[of "n mod b"] by (subst show_base.simps) simp
  qed
qed

lemma hex04_plain [simp]: "plain (hex04 w)"
proof -
  have "plain (replicate k CHR ''0'')" for k by (induction k) (simp_all add: DQ_def BS_def)
  then show ?thesis by (simp add: hex04_def show_base_plain Let_def)
qed

lemma plain_bytes [simp]: "plain (show_dec n)" "plain (fmt_u w)" "plain (show_long i)"
  by (simp_all add: show_dec_def fmt_u_def show_long_def show_base_plain DQ_def BS_def)

lemma fmt_u_render: "fmt_u w = jrender (JN (int (unat w)))"
  by (simp add: fmt_u_def show_long_def)

lemma jesc_spec:
  assumes "0 < n"
  obtains k where "jesc n bs = escs (take k (bytes_cstr bs))"
    "length (escs (bytes_cstr bs)) + 1 < n \<longrightarrow> take k (bytes_cstr bs) = bytes_cstr bs"
proof -
  have "CHR 0x00 \<notin> set (bytes_cstr bs)"
  proof -
    have "char_of (unat b) \<noteq> CHR 0x00" if "b \<noteq> (0 :: u8)" for b
    proof
      assume "char_of (unat b) = CHR 0x00"
      then have "of_char (char_of (unat b)) = (0 :: nat)" by simp
      then have "unat b mod 256 = 0" by simp
      moreover have "unat b < 256" using unsigned_less[of b] by simp
      ultimately show False using that by (simp add: unat_eq_0)
    qed
    then show ?thesis unfolding bytes_cstr_def set_map image_iff by (metis set_takeWhileD)
  qed
  then have "jesc n bs = escape_loop n (bytes_cstr bs) []"
    using assms by (simp add: jesc_def usbtrace_json_escape_def)
  moreover obtain k where "escape_loop n (bytes_cstr bs) [] = escs (take k (bytes_cstr bs))"
    "length (escs (bytes_cstr bs)) + 1 < n \<longrightarrow> k = length (bytes_cstr bs)"
    using escape_loop_prefix[of "bytes_cstr bs" n "[]"] unfolding escs_def by auto
  ultimately show ?thesis using that by auto
qed

end
