(* ===== verification/Ut_Float.thy ===== *)
theory Ut_Float
  imports Complex_Main Json_Line
begin

text \<open>
  The part of C's \<open>double\<close> the sources use: conversion of an unsigned integer, division, multiplication,
  comparison, conversion back, and \<open>printf\<close> with a fixed number of decimals. All the values are non-negative
  quotients of integers below 2^64 and powers of ten, so neither overflow nor subnormal numbers occur, and a double is a
  fraction of natural numbers whose denominator is a power of two. Every operation rounds its exact result to 53
  significant bits, to nearest and ties to even (IEEE 754 binary64); \<open>%.<k>f\<close> rounds the exact decimal the same
  way, as the GNU C library does. The error of a result is bounded relative to the real number it stands for.
\<close>

section \<open>Rounding\<close>

type_synonym dbl = "nat \<times> nat"

definition round_div :: "nat \<Rightarrow> nat \<Rightarrow> nat" where
  "round_div p q =
     (let d = p div q; r = p mod q in
      if 2 * r < q then d else if q < 2 * r then d + 1 else if even d then d else d + 1)"

text \<open>Bring a quotient into [2^52, 2^53) by doubling its numerator or its denominator.\<close>

function scale_up :: "nat \<Rightarrow> nat \<Rightarrow> nat \<Rightarrow> nat \<times> nat" where
  "scale_up p q k = (if p = 0 \<or> 2 ^ 52 * q \<le> p then (p, k) else scale_up (2 * p) q (k + 1))"
  by pat_completeness auto
termination by (relation "measure (\<lambda>(p, q, k). 2 ^ 52 * q - p)") auto

function scale_down :: "nat \<Rightarrow> nat \<Rightarrow> nat \<Rightarrow> nat \<times> nat" where
  "scale_down p q j = (if q = 0 \<or> p < 2 ^ 53 * q then (q, j) else scale_down p (2 * q) (j + 1))"
  by pat_completeness auto
termination by (relation "measure (\<lambda>(p, q, k). p - q)") auto

declare scale_up.simps [simp del] scale_down.simps [simp del]

text \<open>The double nearest to \<open>p / q\<close>.\<close>

definition fl :: "nat \<Rightarrow> nat \<Rightarrow> dbl" where
  "fl p q =
     (if p = 0 then (0, 1)
      else let (p', k) = scale_up p q 0; (q', j) = scale_down p' q 0 in (round_div p' q' * 2 ^ j, 2 ^ k))"

definition d_nat :: "nat \<Rightarrow> dbl" where "d_nat n = fl n 1"
definition d_div :: "dbl \<Rightarrow> dbl \<Rightarrow> dbl" where "d_div x y = fl (fst x * snd y) (snd x * fst y)"
definition d_mul :: "dbl \<Rightarrow> dbl \<Rightarrow> dbl" where "d_mul x y = fl (fst x * fst y) (snd x * snd y)"
definition d_less :: "dbl \<Rightarrow> dbl \<Rightarrow> bool" where "d_less x y \<longleftrightarrow> fst x * snd y < fst y * snd x"
definition d_trunc :: "dbl \<Rightarrow> nat" where "d_trunc x = fst x div snd x"

definition dval :: "dbl \<Rightarrow> real" where "dval x = real (fst x) / real (snd x)"

section \<open>Decimals\<close>

text \<open>\<open>"%.<k>f"\<close>\<close>

definition scaled :: "nat \<Rightarrow> dbl \<Rightarrow> nat" where
  "scaled k x = round_div (fst x * 10 ^ k) (snd x)"

definition fmt_f :: "nat \<Rightarrow> dbl \<Rightarrow> string" where
  "fmt_f k x = dec_str k (scaled k x)"

section \<open>Rounding errors\<close>

lemma round_div_error:
  assumes "0 < q"
  shows "\<bar>real (round_div p q) - real p / real q\<bar> \<le> 1 / 2"
proof -
  define d r where "d = p div q" and "r = p mod q"
  have p: "p = d * q + r" by (simp add: d_def r_def)
  have "real p / real q = real d + real r / real q" using assms by (simp add: p field_simps)
  moreover have "r < q" using assms by (simp add: r_def)
  moreover have "real r / real q \<le> 1 / 2 \<longleftrightarrow> 2 * r \<le> q" "1 / 2 \<le> real r / real q \<longleftrightarrow> q \<le> 2 * r" "real r / real q < 1"
    "0 \<le> real r / real q"
    using assms \<open>r < q\<close> by (auto simp: field_simps simp flip: of_nat_mult of_nat_add)
  ultimately show ?thesis
    unfolding round_div_def Let_def d_def[symmetric] r_def[symmetric] by (auto simp: abs_le_iff)
qed

lemma scale_up_spec:
  "0 < p \<Longrightarrow> scale_up p q k = (p', k') \<Longrightarrow>
     \<exists>i. k' = k + i \<and> p' = p * 2 ^ i \<and> 2 ^ 52 * q \<le> p' \<and> (0 < i \<longrightarrow> p' < 2 ^ 53 * q)"
proof (induction p q k arbitrary: p' k' rule: scale_up.induct)
  case (1 p q k)
  show ?case
  proof (cases "2 ^ 52 * q \<le> p")
    case True
    then show ?thesis using 1(3) by (intro exI[of _ 0]) (simp add: scale_up.simps[of p])
  next
    case False
    then have step: "scale_up (2 * p) q (k + 1) = (p', k')" using 1(2,3) by (simp add: scale_up.simps[of p])
    obtain i where i: "k' = k + 1 + i" "p' = 2 * p * 2 ^ i" "2 ^ 52 * q \<le> p'" "0 < i \<longrightarrow> p' < 2 ^ 53 * q"
      using 1(1)[OF _ _ step] 1(2) False by auto
    then show ?thesis using False by (cases i) (auto intro!: exI[of _ "Suc i"])
  qed
qed

lemma scale_down_spec:
  "0 < q \<Longrightarrow> scale_down p q j = (q', j') \<Longrightarrow>
     \<exists>i. j' = j + i \<and> q' = q * 2 ^ i \<and> p < 2 ^ 53 * q' \<and> (0 < i \<longrightarrow> 2 ^ 52 * q' \<le> p)"
proof (induction p q j arbitrary: q' j' rule: scale_down.induct)
  case (1 p q j)
  show ?case
  proof (cases "p < 2 ^ 53 * q")
    case True
    then show ?thesis using 1(3) by (intro exI[of _ 0]) (simp add: scale_down.simps[of p])
  next
    case False
    then have step: "scale_down p (2 * q) (j + 1) = (q', j')" using 1(2,3) by (simp add: scale_down.simps[of p])
    obtain i where i: "j' = j + 1 + i" "q' = 2 * q * 2 ^ i" "p < 2 ^ 53 * q'" "0 < i \<longrightarrow> 2 ^ 52 * q' \<le> p"
      using 1(1)[OF _ _ step] 1(2) False by auto
    then show ?thesis using False by (cases i) (auto intro!: exI[of _ "Suc i"])
  qed
qed

text \<open>A rounded quotient, with its scaling: the integer that is rounded has 53 bits.\<close>

lemma fl_cases:
  assumes "0 < p" "0 < q"
  obtains i j where "fl p q = (round_div (p * 2 ^ i) (q * 2 ^ j) * 2 ^ j, 2 ^ i)"
    "2 ^ 52 * (q * 2 ^ j) \<le> p * 2 ^ i" "p * 2 ^ i < 2 ^ 53 * (q * 2 ^ j)" "0 < j \<longrightarrow> i = 0"
proof -
  obtain p' k where up: "scale_up p q 0 = (p', k)" by (cases "scale_up p q 0")
  obtain q' j where down: "scale_down p' q 0 = (q', j)" by (cases "scale_down p' q 0")
  have u: "p' = p * 2 ^ k" "2 ^ 52 * q \<le> p'" "0 < k \<longrightarrow> p' < 2 ^ 53 * q" using scale_up_spec[OF assms(1) up] by auto
  have d: "q' = q * 2 ^ j" "p' < 2 ^ 53 * q'" "0 < j \<longrightarrow> 2 ^ 52 * q' \<le> p'" using scale_down_spec[OF assms(2) down] by auto
  have j: "0 < j \<longrightarrow> k = 0"
    using down u(3) by (cases "p' < 2 ^ 53 * q") (auto simp: scale_down.simps[of p'])
  have "2 ^ 52 * q' \<le> p'" using u(2) d(1,3) by (cases "0 < j") auto
  moreover have "fl p q = (round_div p' q' * 2 ^ j, 2 ^ k)" using assms(1) by (simp add: fl_def up down)
  ultimately show thesis using that[of k j] u(1) d(1,2) j by simp
qed

lemma snd_fl [simp]: "0 < snd (fl p q)"
  by (simp add: fl_def split_beta)

lemma dval_nonneg [simp]: "0 \<le> dval x"
  by (simp add: dval_def)

text \<open>Half a unit in the last place: 2^-53 relative to the exact quotient.\<close>

lemma fl_error:
  assumes "0 < q"
  shows "\<bar>dval (fl p q) - real p / real q\<bar> \<le> real p / real q / 2 ^ 53"
proof (cases "p = 0")
  case True
  then show ?thesis by (simp add: fl_def dval_def)
next
  case False
  then obtain i j where f: "fl p q = (round_div (p * 2 ^ i) (q * 2 ^ j) * 2 ^ j, 2 ^ i)"
    and lo: "2 ^ 52 * (q * 2 ^ j) \<le> p * 2 ^ i"
    using fl_cases assms by (metis neq0_conv)
  define c where "c = (2 ^ j / 2 ^ i :: real)"
  define x where "x = real (p * 2 ^ i) / real (q * 2 ^ j)"
  define n where "n = real (round_div (p * 2 ^ i) (q * 2 ^ j))"
  have c: "0 < c" by (simp add: c_def)
  have xc: "x * c = real p / real q" by (simp add: x_def c_def)
  have nc: "n * c = dval (fl p q)" by (simp add: f n_def c_def dval_def)
  have "real (2 ^ 52 * (q * 2 ^ j)) \<le> real (p * 2 ^ i)" using lo by (simp only: of_nat_le_iff)
  then have "2 ^ 52 \<le> x" using assms by (simp add: x_def field_simps)
  moreover have "\<bar>n - x\<bar> \<le> 1 / 2" using round_div_error[of "q * 2 ^ j" "p * 2 ^ i"] assms by (simp add: n_def x_def)
  ultimately have "\<bar>n - x\<bar> \<le> x / 2 ^ 53" by simp
  then have "\<bar>n - x\<bar> * c \<le> x / 2 ^ 53 * c" using c by simp
  moreover have "\<bar>n - x\<bar> * c = \<bar>n * c - x * c\<bar>" using c by (simp add: abs_mult flip: left_diff_distrib)
  ultimately show ?thesis by (simp add: nc flip: xc)
qed

lemma round_div_mult: "0 < q \<Longrightarrow> round_div (q * n) q = n"
  by (simp add: round_div_def)

text \<open>Integers below 2^53 are exact.\<close>

lemma fl_exact:
  assumes "0 < q" "n < 2 ^ 53"
  shows "dval (fl (q * n) q) = real n"
proof (cases "n = 0")
  case False
  then obtain i j where f: "fl (q * n) q = (round_div (q * n * 2 ^ i) (q * 2 ^ j) * 2 ^ j, 2 ^ i)"
    and lo: "2 ^ 52 * (q * 2 ^ j) \<le> q * n * 2 ^ i" and j: "0 < j \<longrightarrow> i = 0"
    using fl_cases[of "q * n" q] assms(1) by (metis nat_0_less_mult_iff neq0_conv)
  have "j = 0"
  proof (rule ccontr)
    assume "j \<noteq> 0"
    then have "2 ^ 52 * 2 ^ j \<le> n" using lo j assms(1) by simp
    moreover have "(2 :: nat) \<le> 2 ^ j" using \<open>j \<noteq> 0\<close> by (cases j) simp_all
    ultimately show False using assms(2) by simp
  qed
  then have "fl (q * n) q = (n * 2 ^ i, 2 ^ i)"
    using f round_div_mult[OF assms(1), of "n * 2 ^ i"] by (simp add: mult.assoc)
  then show ?thesis by (simp add: dval_def)
qed (simp add: fl_def dval_def)

lemma d_nat_exact: "n < 2 ^ 53 \<Longrightarrow> dval (d_nat n) = real n"
  using fl_exact[of 1 n] by (simp add: d_nat_def)

lemma d_nat_pos [simp]: "0 < snd (d_nat n)"
  by (simp add: d_nat_def)

lemma d_nat_error: "\<bar>dval (d_nat n) - real n\<bar> \<le> real n / 2 ^ 53"
  using fl_error[of 1 n] by (simp add: d_nat_def)

lemma d_div_error:
  assumes "0 < snd x" "0 < fst y"
  shows "\<bar>dval (d_div x y) - dval x / dval y\<bar> \<le> dval x / dval y / 2 ^ 53"
proof -
  have "real (fst x * snd y) / real (snd x * fst y) = dval x / dval y" by (simp add: dval_def)
  then show ?thesis using fl_error[of "snd x * fst y" "fst x * snd y"] assms by (simp add: d_div_def)
qed

lemma d_less_iff:
  assumes "0 < snd x" "0 < snd y"
  shows "d_less x y \<longleftrightarrow> dval x < dval y"
proof -
  have "dval x < dval y \<longleftrightarrow> real (fst x * snd y) < real (fst y * snd x)"
    using assms by (simp add: dval_def field_simps)
  then show ?thesis by (simp only: d_less_def of_nat_less_iff)
qed

lemma fl_pos:
  assumes "0 < p" "0 < q"
  shows "0 < fst (fl p q)"
proof -
  have "0 < real p / real q" using assms by simp
  moreover have "\<bar>dval (fl p q) - real p / real q\<bar> \<le> real p / real q / 2 ^ 53" using fl_error[OF assms(2)] .
  ultimately have "0 < dval (fl p q)" by (simp add: abs_le_iff)
  then show ?thesis by (simp add: dval_def zero_less_divide_iff)
qed

lemma d_nat_fst_pos [simp]: "0 < n \<Longrightarrow> 0 < fst (d_nat n)"
  by (simp add: d_nat_def fl_pos)

text \<open>A printed decimal is within half a unit of its last place.\<close>

lemma scaled_error:
  assumes "0 < snd x"
  shows "\<bar>real (scaled k x) / 10 ^ k - dval x\<bar> \<le> 1 / 2 / 10 ^ k"
proof -
  have "\<bar>real (scaled k x) - real (fst x * 10 ^ k) / real (snd x)\<bar> \<le> 1 / 2"
    using round_div_error[OF assms, of "fst x * 10 ^ k"] by (simp add: scaled_def)
  moreover have "real (fst x * 10 ^ k) / real (snd x) = dval x * 10 ^ k" by (simp add: dval_def)
  ultimately have "\<bar>real (scaled k x) - dval x * 10 ^ k\<bar> / 10 ^ k \<le> 1 / 2 / 10 ^ k" by (intro divide_right_mono) simp_all
  moreover have "real (scaled k x) / 10 ^ k - dval x = (real (scaled k x) - dval x * 10 ^ k) / 10 ^ k"
    by (simp add: diff_divide_distrib)
  ultimately show ?thesis by (simp add: abs_divide)
qed

text \<open>The quotient of two integers, both converted to double.\<close>

definition d_quot :: "nat \<Rightarrow> nat \<Rightarrow> dbl" where
  "d_quot a b = d_div (d_nat a) (d_nat b)"

lemma snd_d_div [simp]: "0 < snd (d_div x y)"
  by (simp add: d_div_def)

lemma quot_error:
  assumes "0 < b" "b < 2 ^ 53"
  shows "\<bar>dval (d_quot a b) - real a / real b\<bar> \<le> real a / real b / 2 ^ (if a < 2 ^ 53 then 53 else 51)"
proof -
  define x y d q where "x = dval (d_nat a)" and "y = dval (d_quot a b)" and "d = (1 / 2 ^ 53 :: real)" and "q = real a / real b"
  have db: "dval (d_nat b) = real b" using assms(2) by (rule d_nat_exact)
  have y: "\<bar>y - x / real b\<bar> \<le> x / real b * d"
    using d_div_error[of "d_nat a" "d_nat b"] assms(1) db by (simp add: d_quot_def x_def y_def d_def)
  show ?thesis
  proof (cases "a < 2 ^ 53")
    case True
    then show ?thesis using y d_nat_exact[of a] by (simp add: x_def y_def q_def d_def)
  next
    case False
    have x: "\<bar>x - real a\<bar> \<le> real a * d" using d_nat_error[of a] by (simp add: x_def d_def)
    then have "\<bar>x - real a\<bar> / real b \<le> real a * d / real b" by (intro divide_right_mono) simp_all
    moreover have "\<bar>x - real a\<bar> / real b = \<bar>x / real b - q\<bar>"
      using assms(1) by (simp add: q_def diff_divide_distrib abs_divide flip: diff_divide_distrib)
    ultimately have xq: "\<bar>x / real b - q\<bar> \<le> q * d" by (simp add: q_def)
    have q0: "0 \<le> q" by (simp add: q_def)
    have "x / real b \<le> q + q * d" using xq by linarith
    then have "x / real b * d \<le> (q + q * d) * d" by (intro mult_right_mono) (simp_all add: d_def)
    then have "\<bar>y - q\<bar> \<le> (q + q * d) * d + q * d" using y xq by linarith
    also have "\<dots> = q * (2 * d + d * d)" by (simp add: algebra_simps)
    also have "\<dots> \<le> q * (1 / 2 ^ 51)" using q0 by (intro mult_left_mono) (simp_all add: d_def)
    finally show ?thesis using False by (simp add: y_def q_def)
  qed
qed

text \<open>What is printed of such a quotient.\<close>

lemma printed_quot_error:
  assumes "0 < b" "b < 2 ^ 53"
  shows "\<bar>real (scaled k (d_quot a b)) / 10 ^ k - real a / real b\<bar>
    \<le> 1 / 2 / 10 ^ k + real a / real b / 2 ^ (if a < 2 ^ 53 then 53 else 51)"
  using scaled_error[of "d_quot a b" k] quot_error[OF assms, of a] by (simp add: d_quot_def)

text \<open>Such a quotient compares with an integer below 2^32 as the exact quotient does.\<close>

lemma quot_less_iff:
  assumes "0 < b" "b < 2 ^ 53" "a < 2 ^ 53" "n < 2 ^ 53"
  shows "d_less (d_quot a b) (d_nat n) \<longleftrightarrow> a < n * b"
proof -
  define y where "y = dval (d_quot a b)"
  have less: "d_less (d_quot a b) (d_nat n) \<longleftrightarrow> y < real n"
    using d_nat_exact[OF assms(4)] by (subst d_less_iff) (simp_all add: y_def d_quot_def)
  have err: "\<bar>y - real a / real b\<bar> \<le> real a / real b / 2 ^ 53"
    using quot_error[OF assms(1,2), of a] assms(3) by (simp add: y_def)
  have "real a * (1 / 2 ^ 53) < 1" using assms(3) by simp
  then have small: "real a / real b / 2 ^ 53 < 1 / real b" using assms(1) by (simp add: field_simps)
  consider "a < n * b" | "a = b * n" | "n * b < a" by (metis linorder_neqE_nat mult.commute)
  then show ?thesis
  proof cases
    case 1
    then have "real a + 1 \<le> real n * real b" by (simp flip: of_nat_mult)
    then have "real a / real b + 1 / real b \<le> real n" using assms(1) by (simp add: field_simps)
    then show ?thesis using err small 1 less by linarith
  next
    case 2
    have "dval (d_nat a) = real a" "dval (d_nat b) = real b" using assms by (simp_all add: d_nat_exact)
    have "y = real n"
    proof -
      have ab: "fst (d_nat a) * snd (d_nat b) = (snd (d_nat a) * fst (d_nat b)) * n"
      proof -
        have "real (fst (d_nat a)) = real a * real (snd (d_nat a))" "real (fst (d_nat b)) = real b * real (snd (d_nat b))"
          using \<open>dval (d_nat a) = real a\<close> \<open>dval (d_nat b) = real b\<close> d_nat_pos[of a] d_nat_pos[of b]
          by (simp_all add: dval_def divide_eq_eq)
        then have "fst (d_nat a) = a * snd (d_nat a)" "fst (d_nat b) = b * snd (d_nat b)" by (simp_all flip: of_nat_mult)
        then show ?thesis using 2 by simp
      qed
      have "0 < snd (d_nat a) * fst (d_nat b)" using assms(1) by simp
      from fl_exact[OF this assms(4)] show ?thesis by (simp add: y_def d_quot_def d_div_def ab)
    qed
    then show ?thesis using 2 less by simp
  next
    case 3
    then have "real n * real b + 1 \<le> real a" by (simp flip: of_nat_mult)
    then have "(real n * real b + 1) / real b \<le> real a / real b" by (intro divide_right_mono) simp_all
    then have "real n + 1 / real b \<le> real a / real b" using assms(1) by (simp add: add_divide_distrib)
    then show ?thesis using err small 3 less by linarith
  qed
qed

text \<open>A decimal member of a JSON line.\<close>

lemma fmt_f_render: "fmt_f (Suc k) x = jrender (JF k (scaled (Suc k) x))" "fmt_f 2 x = jrender (JF 1 (scaled 2 x))"
  by (simp_all add: fmt_f_def numeral_2_eq_2 del: dec_digits.simps)

section \<open>Chains of operations\<close>

text \<open>\<open>x\<close> is \<open>r\<close> up to \<open>k\<close> roundings.\<close>

definition near :: "nat \<Rightarrow> dbl \<Rightarrow> real \<Rightarrow> bool" where
  "near k x r \<longleftrightarrow> 0 < snd x \<and> r * (1 - 1 / 2 ^ 53) ^ k \<le> dval x \<and> dval x * (1 - 1 / 2 ^ 53) ^ k \<le> r"

lemma near_round:
  assumes "0 < snd x" "0 \<le> r" "\<bar>dval x - r\<bar> \<le> r / 2 ^ 53"
  shows "near 1 x r"
proof -
  have "dval x \<le> r + r / 2 ^ 53" using assms(3) by linarith
  then have "dval x \<le> r * (1 + 1 / 2 ^ 53)" by (simp only: distrib_left mult_1_right times_divide_eq_right)
  then have "dval x * (1 - 1 / 2 ^ 53) \<le> r * (1 + 1 / 2 ^ 53) * (1 - 1 / 2 ^ 53)" by (intro mult_right_mono) simp_all
  also have "\<dots> = r * ((1 + 1 / 2 ^ 53) * (1 - 1 / 2 ^ 53))" by (simp only: mult.assoc)
  also have "\<dots> \<le> r * 1" using assms(2) by (intro mult_left_mono) simp_all
  finally have hi: "dval x * (1 - 1 / 2 ^ 53) \<le> r" by simp
  have "r - r / 2 ^ 53 \<le> dval x" using assms(3) by linarith
  then have "r * (1 - 1 / 2 ^ 53) \<le> dval x" by (simp only: right_diff_distrib mult_1_right times_divide_eq_right)
  with hi show ?thesis using assms(1) unfolding near_def power_one_right by blast
qed

lemma near_nat: "near 1 (d_nat n) (real n)"
  using d_nat_error[of n] by (intro near_round) simp_all

lemma near_exact: "n < 2 ^ 53 \<Longrightarrow> near 0 (d_nat n) (real n)"
  by (simp add: near_def d_nat_exact)

lemma near_pos:
  assumes "near k x r"
  shows "0 < r \<longleftrightarrow> 0 < fst x"
proof -
  define c :: real where "c = (1 - 1 / 2 ^ 53) ^ k"
  have c: "0 < c" by (simp add: c_def)
  have x: "r * c \<le> dval x" "dval x * c \<le> r" "0 < snd x" using assms by (simp_all add: near_def c_def)
  have "0 < dval x \<longleftrightarrow> 0 < fst x" using x(3) by (simp add: dval_def zero_less_divide_iff)
  moreover have "0 < r \<Longrightarrow> 0 < dval x" using x(1) c mult_pos_pos[of r c] by linarith
  moreover have "0 < dval x \<Longrightarrow> 0 < r" using x(2) c mult_pos_pos[of "dval x" c] by linarith
  ultimately show ?thesis by blast
qed

lemma near_div:
  assumes x: "near k x r" and y: "near j y s" and r: "0 \<le> r" and s: "0 < s"
  shows "near (k + j + 1) (d_div x y) (r / s)"
proof -
  define u :: real where "u = 1 - 1 / 2 ^ 53"
  define q where "q = dval x / dval y"
  have u: "0 < u" by (simp add: u_def)
  have fy: "0 < fst y" using near_pos[OF y] s by simp
  have sx: "0 < snd x" "0 < snd y" using x y by (simp_all add: near_def)
  have dy: "0 < dval y" using fy sx(2) by (simp add: dval_def)
  have bx: "r * u ^ k \<le> dval x" "dval x * u ^ k \<le> r" using x by (simp_all add: near_def u_def)
  have yb: "s * u ^ j \<le> dval y" "dval y * u ^ j \<le> s" using y by (simp_all add: near_def u_def)
  have "r * u ^ k * (dval y * u ^ j) \<le> dval x * s" using bx(1) yb(2) r u dy by (intro mult_mono) simp_all
  then have lo: "r / s * u ^ (k + j) \<le> q" using s dy by (simp add: q_def power_add field_simps)
  have "dval x * u ^ k * (s * u ^ j) \<le> r * dval y" using bx(2) yb(1) r s u dy by (intro mult_mono) simp_all
  then have hi: "q * u ^ (k + j) \<le> r / s" using s dy by (simp add: q_def power_add field_simps)
  have "near 1 (d_div x y) q"
    using d_div_error[OF sx(1) fy] by (intro near_round) (simp_all add: q_def)
  then have rnd: "q * u \<le> dval (d_div x y)" "dval (d_div x y) * u \<le> q" by (simp_all add: near_def u_def)
  have "r / s * u ^ (k + j) * u \<le> q * u" using lo u by (intro mult_right_mono) simp_all
  moreover have "r / s * u ^ (k + j + 1) = r / s * u ^ (k + j) * u" by simp
  ultimately have low: "r / s * u ^ (k + j + 1) \<le> dval (d_div x y)" using rnd(1) by linarith
  have "dval (d_div x y) * u * u ^ (k + j) \<le> q * u ^ (k + j)" using rnd(2) u by (intro mult_right_mono) simp_all
  moreover have "dval (d_div x y) * u ^ (k + j + 1) = dval (d_div x y) * u * u ^ (k + j)" by simp
  ultimately have "dval (d_div x y) * u ^ (k + j + 1) \<le> r / s" using hi by linarith
  with low show ?thesis by (simp add: near_def u_def)
qed

text \<open>Up to seven roundings are a relative error of 2^-50, and what is printed is that close.\<close>

lemma near_error:
  assumes "near k x r" "k \<le> 7" "0 \<le> r"
  shows "\<bar>dval x - r\<bar> \<le> r / 2 ^ 50"
proof -
  define u :: real where "u = 1 - 1 / 2 ^ 53"
  have u: "0 < u" "u \<le> 1" by (simp_all add: u_def)
  have "u ^ 7 \<le> u ^ k" using assms(2) u by (intro power_decreasing) simp_all
  moreover have "1 + real 7 * (u - 1) \<le> (1 + (u - 1)) ^ 7" using u by (intro Bernoulli_inequality) simp
  moreover have "1 + real 7 * (u - 1) = 1 - 7 / 2 ^ 53" "1 + (u - 1) = u" by (simp_all add: u_def)
  ultimately have c: "1 - 7 / 2 ^ 53 \<le> u ^ k" by (simp only:)
  have b: "r * u ^ k \<le> dval x" "dval x * u ^ k \<le> r" using assms(1) by (simp_all add: near_def u_def)
  have "r * (1 - 7 / 2 ^ 53) \<le> r * u ^ k" using c assms(3) by (intro mult_left_mono) simp_all
  moreover have "r * (1 - 7 / 2 ^ 53) = r - 7 * (r / 2 ^ 53)" by (simp add: algebra_simps)
  ultimately have lo: "r - 7 * (r / 2 ^ 53) \<le> dval x" using b(1) by linarith
  have "dval x * (1 - 7 / 2 ^ 53) \<le> dval x * u ^ k" using c by (intro mult_left_mono) simp_all
  then have "dval x * (1 - 7 / 2 ^ 53) \<le> r" using b(2) by linarith
  then have "dval x * (1 - 7 / 2 ^ 53) * (1 + 1 / 2 ^ 50) \<le> r * (1 + 1 / 2 ^ 50)" by (intro mult_right_mono) simp_all
  moreover have "dval x * 1 \<le> dval x * ((1 - 7 / 2 ^ 53) * (1 + 1 / 2 ^ 50))" by (intro mult_left_mono) simp_all
  ultimately have "dval x \<le> r * (1 + 1 / 2 ^ 50)" by (simp only: mult.assoc mult_1_right)
  then have hi: "dval x \<le> r + r / 2 ^ 50" by (simp add: algebra_simps)
  have small: "7 * (r / 2 ^ 53) \<le> r / 2 ^ 50" using assms(3) by simp
  show ?thesis by (rule abs_leI) (use lo hi small in linarith)+
qed

lemma printed_near:
  assumes "near k x r" "k \<le> 7" "0 \<le> r"
  shows "\<bar>real (scaled d x) / 10 ^ d - r\<bar> \<le> 1 / 2 / 10 ^ d + r / 2 ^ 50"
proof -
  have "0 < snd x" using assms(1) by (simp add: near_def)
  from scaled_error[OF this, of d] near_error[OF assms] show ?thesis by linarith
qed

end
