(* ===== verification/Hid_Rate.thy ===== *)
theory Hid_Rate
  imports Class_Stream Ut_Float
begin

text \<open>
  The hid module, \<open>modules/hid/hid.c\<close>: the report-rate meter per IN endpoint on top of the shared class
  consumer. The length of a window is a double; a printed rate line is here the slot and the length of its window in
  nanoseconds, and its text is in \<open>Hid_Text\<close>.
\<close>

definition HID_RATE_SLOTS :: nat where "HID_RATE_SLOTS = 16"
definition HID_RATE_GAP_NS :: u64 where "HID_RATE_GAP_NS = 50 * 1000 * 1000"
definition HID_RATE_MIN_WIN_FRAC :: dbl where "HID_RATE_MIN_WIN_FRAC = (1, 4)"

datatype hid_role = HID_ROLE_UNK | HID_ROLE_MOUSE | HID_ROLE_KBD

record hid_rate_slot =
  hs_busnum :: u16
  hs_devnum :: u16
  hs_ep :: u8
  hs_role :: hid_role
  hs_vid :: u16
  hs_product :: u16
  hs_last_ts_ns :: u64
  hs_win_count :: u64
  hs_win_iv_count :: u64
  hs_win_sum_iv_ns :: u64
  hs_win_min_iv_ns :: u32
  hs_win_max_iv_ns :: u32
  hs_win_gaps :: u64
  hs_total_count :: u64
  hs_total_iv_count :: u64
  hs_total_sum_iv_ns :: u64
  hs_total_min_iv_ns :: u32
  hs_total_max_iv_ns :: u32
  hs_total_gaps :: u64
  hs_err_urbs :: u64
  hs_len_mouse :: u32
  hs_len_kbd :: u32
  hs_len_other :: u32

text \<open>The file's globals: \<open>g_rate\<close> and \<open>g_rate_sec\<close> are set by the options, the slots in use and the
  window start by the events.\<close>

record hid_opts =
  ho_rate :: bool
  ho_rate_sec :: u32

record hid_state =
  g_slots :: "hid_rate_slot list"
  g_window_start_ns :: u64

definition hid_state0 :: hid_state where
  "hid_state0 = \<lparr> g_slots = [], g_window_start_ns = 0 \<rparr>"

definition rate_window_ns :: "hid_opts \<Rightarrow> u64" where
  "rate_window_ns o' = ucast (ho_rate_sec o') * 1000 * 1000 * 1000"

section \<open>Options\<close>

text \<open>Over the results of \<open>getopt_long\<close>: filter, options, \<open>--all\<close>.\<close>

fun hid_parse_args ::
  "(int \<times> string) list \<Rightarrow> usbtrace_filter \<times> hid_opts \<times> bool \<Rightarrow> int \<times> usbtrace_filter \<times> hid_opts \<times> bool" where
  "hid_parse_args [] (filt, ho, all) = (0, filt, ho, all)"
| "hid_parse_args ((c, optarg) # opts) (filt, ho, all) =
     (let (used, filt') = usbtrace_filter_getopt c optarg filt in
      if used then hid_parse_args opts (filt', ho, all)
      else if c = of_char CHR ''a'' then hid_parse_args opts (filt, ho, True)
      else if c = of_char CHR ''R'' then hid_parse_args opts (filt, ho\<lparr> ho_rate := True \<rparr>, all)
      else if c = of_char CHR ''N'' then hid_parse_args opts (filt, ho\<lparr> ho_rate := False \<rparr>, all)
      else if c = of_char CHR ''I'' then
        (let v = strtoul optarg in
         if v = 0 \<or> v > 3600 then (- 1, filt, ho, all)
         else hid_parse_args opts (filt, ho\<lparr> ho_rate_sec := ucast v \<rparr>, all))
      else if c = of_char CHR ''h'' then (1, filt, ho, all)
      else (- 1, filt, ho, all))"

section \<open>Slots\<close>

definition slot0 :: hid_rate_slot where
  "slot0 = \<lparr> hs_busnum = 0, hs_devnum = 0, hs_ep = 0, hs_role = HID_ROLE_UNK, hs_vid = 0, hs_product = 0,
     hs_last_ts_ns = 0, hs_win_count = 0, hs_win_iv_count = 0, hs_win_sum_iv_ns = 0, hs_win_min_iv_ns = 0,
     hs_win_max_iv_ns = 0, hs_win_gaps = 0, hs_total_count = 0, hs_total_iv_count = 0, hs_total_sum_iv_ns = 0,
     hs_total_min_iv_ns = 0, hs_total_max_iv_ns = 0, hs_total_gaps = 0, hs_err_urbs = 0, hs_len_mouse = 0,
     hs_len_kbd = 0, hs_len_other = 0 \<rparr>"

text \<open>The index of the endpoint's slot, appended when it is new and there is room.\<close>

definition slot_get :: "u16 \<Rightarrow> u16 \<Rightarrow> u8 \<Rightarrow> u16 \<Rightarrow> u16 \<Rightarrow> hid_rate_slot list \<Rightarrow> hid_rate_slot list \<times> nat option" where
  "slot_get bus dev ep vid product slots =
     (case find (\<lambda>i. hs_busnum (slots ! i) = bus \<and> hs_devnum (slots ! i) = dev \<and> hs_ep (slots ! i) = ep) [0..<length slots] of
        Some i \<Rightarrow> (slots, Some i)
      | None \<Rightarrow>
          if length slots \<ge> HID_RATE_SLOTS then (slots, None)
          else (slots @ [slot0\<lparr> hs_busnum := bus, hs_devnum := dev, hs_ep := ep, hs_vid := vid, hs_product := product \<rparr>],
                Some (length slots)))"

definition slot_note_len :: "u32 \<Rightarrow> hid_rate_slot \<Rightarrow> hid_rate_slot" where
  "slot_note_len len s =
     (let s1 = (if len = 4 then s\<lparr> hs_len_mouse := hs_len_mouse s + 1 \<rparr>
                else if len = 8 \<or> len = 9 \<or> len = 17 then s\<lparr> hs_len_kbd := hs_len_kbd s + 1 \<rparr>
                else s\<lparr> hs_len_other := hs_len_other s + 1 \<rparr>)
      in if hs_role s1 \<noteq> HID_ROLE_UNK then s1
         else if hs_len_mouse s1 + hs_len_kbd s1 + hs_len_other s1 < 8 then s1
         else if hs_len_mouse s1 \<ge> hs_len_kbd s1 \<and> hs_len_mouse s1 \<ge> hs_len_other s1 then s1\<lparr> hs_role := HID_ROLE_MOUSE \<rparr>
         else if hs_len_kbd s1 \<ge> hs_len_other s1 then s1\<lparr> hs_role := HID_ROLE_KBD \<rparr>
         else s1)"

text \<open>The minimum and maximum are kept in 32 bits; they are compared in 64.\<close>

definition slot_note_interval :: "u64 \<Rightarrow> hid_rate_slot \<Rightarrow> hid_rate_slot" where
  "slot_note_interval iv s =
     (if iv = 0 then s
      else if iv > HID_RATE_GAP_NS then s\<lparr> hs_win_gaps := hs_win_gaps s + 1, hs_total_gaps := hs_total_gaps s + 1 \<rparr>
      else
        s\<lparr> hs_win_iv_count := hs_win_iv_count s + 1, hs_total_iv_count := hs_total_iv_count s + 1,
           hs_win_sum_iv_ns := hs_win_sum_iv_ns s + iv, hs_total_sum_iv_ns := hs_total_sum_iv_ns s + iv,
           hs_win_min_iv_ns := (if hs_win_min_iv_ns s = 0 \<or> iv < ucast (hs_win_min_iv_ns s) then ucast iv else hs_win_min_iv_ns s),
           hs_win_max_iv_ns := (if iv > ucast (hs_win_max_iv_ns s) then ucast iv else hs_win_max_iv_ns s),
           hs_total_min_iv_ns := (if hs_total_min_iv_ns s = 0 \<or> iv < ucast (hs_total_min_iv_ns s) then ucast iv else hs_total_min_iv_ns s),
           hs_total_max_iv_ns := (if iv > ucast (hs_total_max_iv_ns s) then ucast iv else hs_total_max_iv_ns s) \<rparr>)"

section \<open>Windows\<close>

text \<open>A rate line: the slot as it is when the line is printed, and the length of the window.\<close>

type_synonym rate_line = "hid_rate_slot \<times> u64"

definition win_seconds :: "u64 \<Rightarrow> dbl" where
  "win_seconds win_ns = d_quot (unat win_ns) (10 ^ 9)"

definition print_rate_line :: "hid_rate_slot \<Rightarrow> u64 \<Rightarrow> rate_line list" where
  "print_rate_line s win_ns =
     (if \<not> d_less (d_nat 0) (win_seconds win_ns) \<or> hs_win_count s = 0 then [] else [(s, win_ns)])"

definition clear_win :: "hid_rate_slot \<Rightarrow> hid_rate_slot" where
  "clear_win s = s\<lparr> hs_win_count := 0, hs_win_iv_count := 0, hs_win_sum_iv_ns := 0, hs_win_min_iv_ns := 0,
     hs_win_max_iv_ns := 0, hs_win_gaps := 0 \<rparr>"

definition rate_flush_window :: "hid_opts \<Rightarrow> u64 \<Rightarrow> bool \<Rightarrow> hid_state \<Rightarrow> hid_state \<times> rate_line list" where
  "rate_flush_window ho now_ns final st =
     (if g_window_start_ns st = 0 \<or> now_ns \<le> g_window_start_ns st then (st, [])
      else
        let win = now_ns - g_window_start_ns st in
        if final \<and> d_less (win_seconds win) (d_mul HID_RATE_MIN_WIN_FRAC (d_nat (unat (ho_rate_sec ho)))) then (st, [])
        else (\<lparr> g_slots = map clear_win (g_slots st), g_window_start_ns = now_ns \<rparr>,
              concat (map (\<lambda>s. print_rate_line s win) (g_slots st))))"

section \<open>Events\<close>

text \<open>The endpoint's slot after one of its IN completions.\<close>

definition slot_on_in :: "class_urb_event \<Rightarrow> hid_rate_slot \<Rightarrow> hid_rate_slot" where
  "slot_on_in e s =
     (let ts = h_ts_ns (ce_hdr e) in
      if ce_status e \<noteq> 0 then s\<lparr> hs_err_urbs := hs_err_urbs s + 1 \<rparr>
      else
        let s1 = slot_note_len (ce_actual_length e) s;
            s2 = (if hs_last_ts_ns s1 \<noteq> 0 \<and> ts > hs_last_ts_ns s1 then slot_note_interval (ts - hs_last_ts_ns s1) s1 else s1)
        in s2\<lparr> hs_last_ts_ns := ts, hs_win_count := hs_win_count s2 + 1, hs_total_count := hs_total_count s2 + 1 \<rparr>)"

definition rate_on_in :: "hid_opts \<Rightarrow> class_urb_event \<Rightarrow> hid_state \<Rightarrow> hid_state \<times> rate_line list" where
  "rate_on_in ho e st =
     (let ts = h_ts_ns (ce_hdr e) in
      if \<not> ho_rate ho \<or> ce_dir_in e = 0 then (st, [])
      else
        let (slots, r) = slot_get (ce_busnum e) (ce_devnum e) (ce_ep e) (ce_vid e) (ce_product e) (g_slots st);
            st1 = st\<lparr> g_slots := slots \<rparr>
        in case r of
          None \<Rightarrow> (st1, [])
        | Some i \<Rightarrow>
            let st2 = st1\<lparr> g_slots := slots[i := slot_on_in e (slots ! i)] \<rparr> in
            if ce_status e \<noteq> 0 then (st2, [])
            else
              let st3 = (if g_window_start_ns st2 = 0 then st2\<lparr> g_window_start_ns := ts \<rparr> else st2) in
              if ts - g_window_start_ns st3 \<ge> rate_window_ns ho then rate_flush_window ho ts False st3
              else (st3, []))"

definition hid_on_event ::
  "hid_opts \<Rightarrow> u8 list \<Rightarrow> hid_state \<times> class_stream_ctx \<Rightarrow> (hid_state \<times> class_stream_ctx) \<times> rate_line list \<times> class_urb_event list" where
  "hid_on_event ho data = (\<lambda>(st, c).
     let e = dec_class_urb_event data;
         (st', lines) =
           (if length data \<ge> 72 \<and> h_kind (dec_hdr data) = USBTRACE_EVT_CLASS \<and> ce_klass e = USBTRACE_CLASS_HID
            then rate_on_in ho e st else (st, []));
         (c', out) = class_stream_on_event data c
     in ((st', c'), lines, out))"

text \<open>At the end: the last partial window, then the summary with the slots.\<close>

definition hid_on_stop :: "hid_opts \<Rightarrow> hid_state \<Rightarrow> hid_state \<times> rate_line list" where
  "hid_on_stop ho st =
     (if ho_rate ho \<and> g_window_start_ns st \<noteq> 0 then
        let now = fold (\<lambda>s now. if hs_last_ts_ns s > now then hs_last_ts_ns s else now) (g_slots st) 0 in
        if now > g_window_start_ns st then rate_flush_window ho now True st else (st, [])
      else (st, []))"

definition rate_summary :: "hid_opts \<Rightarrow> hid_state \<Rightarrow> hid_rate_slot list" where
  "rate_summary ho st = (if \<not> ho_rate ho \<or> g_slots st = [] then [] else g_slots st)"

text \<open>Only an empty window has length zero.\<close>

lemma win_seconds_pos: "d_less (d_nat 0) (win_seconds w) \<longleftrightarrow> w \<noteq> 0"
proof (cases "w = 0")
  case True
  then show ?thesis by (simp add: win_seconds_def d_quot_def d_div_def d_nat_def fl_def d_less_def)
next
  case False
  then have "0 < unat w" by (simp add: unat_gt_0)
  then have "0 < fst (win_seconds w)" unfolding win_seconds_def d_quot_def d_div_def by (intro fl_pos) simp_all
  then show ?thesis using False by (simp add: d_less_def d_nat_def fl_def)
qed

lemma print_rate_line_simp: "print_rate_line s w = (if w = 0 \<or> hs_win_count s = 0 then [] else [(s, w)])"
  by (simp add: print_rate_line_def win_seconds_pos)

end
