(* ===== verification/Hid_Props.thy ===== *)
theory Hid_Props
  imports Hid_Rate
begin

text \<open>
  Properties of the report-rate meter: its table holds the first 16 endpoints, the totals of an
  endpoint are those of its own successful completions whatever arrives in between, and the printed windows
  partition the reports.
\<close>

section \<open>The reference\<close>

type_synonym ep_key = "u16 \<times> u16 \<times> u8"

definition slot_key :: "hid_rate_slot \<Rightarrow> ep_key" where
  "slot_key s = (hs_busnum s, hs_devnum s, hs_ep s)"

definition ev_ep_key :: "class_urb_event \<Rightarrow> ep_key" where
  "ev_ep_key e = (ce_busnum e, ce_devnum e, ce_ep e)"

text \<open>The intervals between consecutive reports, where time moves forward.\<close>

definition intervals :: "u64 list \<Rightarrow> u64 list" where
  "intervals ts = concat (map (\<lambda>(a, b). if a \<noteq> 0 \<and> b > a then [b - a] else []) (zip (butlast ts) (tl ts)))"

definition good_ivs :: "u64 list \<Rightarrow> u64 list" where
  "good_ivs ts = filter (\<lambda>iv. iv \<le> HID_RATE_GAP_NS) (intervals ts)"

definition report_ts :: "class_urb_event list \<Rightarrow> u64 list" where
  "report_ts es = map (\<lambda>e. h_ts_ns (ce_hdr e)) (filter (\<lambda>e. ce_status e = 0) es)"

text \<open>The totals of a slot are those of the endpoint's completions \<open>es\<close>.\<close>

definition totals_of :: "class_urb_event list \<Rightarrow> hid_rate_slot \<Rightarrow> bool" where
  "totals_of es s \<longleftrightarrow>
     (let ts = report_ts es; ok = good_ivs ts in
      hs_total_count s = of_nat (length ts)
      \<and> hs_err_urbs s = of_nat (length (filter (\<lambda>e. ce_status e \<noteq> 0) es))
      \<and> hs_last_ts_ns s = (if ts = [] then 0 else last ts)
      \<and> hs_total_iv_count s = of_nat (length ok) \<and> hs_total_sum_iv_ns s = sum_list ok
      \<and> hs_total_gaps s = of_nat (length (filter (\<lambda>iv. iv > HID_RATE_GAP_NS) (intervals ts)))
      \<and> (ucast (hs_total_min_iv_ns s) :: u64) = (if ok = [] then 0 else Min (set ok))
      \<and> (ucast (hs_total_max_iv_ns s) :: u64) = (if ok = [] then 0 else Max (set ok)))"

lemma intervals_snoc:
  "intervals (ts @ [t]) = intervals ts @ (if ts \<noteq> [] \<and> last ts \<noteq> 0 \<and> t > last ts then [t - last ts] else [])"
proof (cases "ts = []")
  case False
  then have "zip ts (tl ts @ [t]) = zip (butlast ts @ [last ts]) (tl ts @ [t])" by simp
  also have "\<dots> = zip (butlast ts) (tl ts) @ [(last ts, t)]" by (subst zip_append) simp_all
  finally show ?thesis using False by (simp add: intervals_def)
qed (simp add: intervals_def)

lemma intervals_pos: "iv \<in> set (intervals ts) \<Longrightarrow> 0 < iv"
  by (auto simp: intervals_def word_gt_0 split: if_splits)

lemma good_pos: "iv \<in> set (good_ivs ts) \<Longrightarrow> 0 < iv \<and> iv \<le> HID_RATE_GAP_NS"
  by (auto simp: good_ivs_def dest: intervals_pos)

lemma down_up: "(iv :: u64) \<le> HID_RATE_GAP_NS \<Longrightarrow> (ucast (ucast iv :: u32) :: u64) = iv"
proof -
  assume "iv \<le> HID_RATE_GAP_NS"
  then have "uint iv < 2 ^ 32" by (simp add: HID_RATE_GAP_NS_def word_le_def)
  then have "uint (ucast (ucast iv :: u32) :: u64) = uint iv"
    by (simp add: uint_up_ucast is_up unsigned_ucast_eq unsigned_take_bit_eq take_bit_int_eq_self)
  then show ?thesis by (metis word_of_int_uint)
qed

section \<open>One slot\<close>

lemma note_len_sel [simp]:
  "hs_last_ts_ns (slot_note_len l s) = hs_last_ts_ns s" "hs_total_count (slot_note_len l s) = hs_total_count s"
  "hs_total_iv_count (slot_note_len l s) = hs_total_iv_count s" "hs_total_sum_iv_ns (slot_note_len l s) = hs_total_sum_iv_ns s"
  "hs_total_min_iv_ns (slot_note_len l s) = hs_total_min_iv_ns s" "hs_total_max_iv_ns (slot_note_len l s) = hs_total_max_iv_ns s"
  "hs_total_gaps (slot_note_len l s) = hs_total_gaps s" "hs_err_urbs (slot_note_len l s) = hs_err_urbs s"
  "hs_win_count (slot_note_len l s) = hs_win_count s" "slot_key (slot_note_len l s) = slot_key s"
  by (simp_all add: slot_note_len_def slot_key_def Let_def)

lemma note_interval_sel [simp]:
  "hs_last_ts_ns (slot_note_interval iv s) = hs_last_ts_ns s" "hs_total_count (slot_note_interval iv s) = hs_total_count s"
  "hs_err_urbs (slot_note_interval iv s) = hs_err_urbs s" "hs_win_count (slot_note_interval iv s) = hs_win_count s"
  "slot_key (slot_note_interval iv s) = slot_key s"
  by (simp_all add: slot_note_interval_def slot_key_def)

lemma slot_on_in_key [simp]: "slot_key (slot_on_in e s) = slot_key s" "slot_key (clear_win s) = slot_key s"
  by (simp_all add: slot_on_in_def Let_def) (simp_all add: slot_key_def clear_win_def slot_note_len_def slot_note_interval_def Let_def)

lemma totals_start: "totals_of [] (slot0\<lparr> hs_busnum := b, hs_devnum := d, hs_ep := p, hs_vid := v, hs_product := q \<rparr>)"
  by (simp add: totals_of_def report_ts_def good_ivs_def intervals_def slot0_def)

lemma clear_win_sel [simp]: "hs_win_count (clear_win s) = 0" "hs_total_count (clear_win s) = hs_total_count s"
  by (simp_all add: clear_win_def)

lemma totals_clear [simp]: "totals_of es (clear_win s) = totals_of es s"
  by (simp add: totals_of_def clear_win_def)

lemma good_snoc:
  "good_ivs (ts @ [t]) = good_ivs ts @
     (if ts \<noteq> [] \<and> last ts \<noteq> 0 \<and> t > last ts \<and> t - last ts \<le> HID_RATE_GAP_NS then [t - last ts] else [])"
  by (simp add: good_ivs_def intervals_snoc)

lemma min_step:
  assumes ok: "\<And>x. x \<in> set ok \<Longrightarrow> 0 < x \<and> x \<le> HID_RATE_GAP_NS" and iv: "0 < iv" "iv \<le> HID_RATE_GAP_NS"
    and m: "(ucast (m :: u32) :: u64) = (if ok = [] then 0 else Min (set ok))"
  shows "(ucast (if m = 0 \<or> iv < ucast m then ucast iv else m) :: u64) = Min (set (ok @ [iv]))"
proof -
  have z: "m = 0 \<longleftrightarrow> ok = []"
  proof
    assume "m = 0"
    with m have "(if ok = [] then 0 else Min (set ok)) = 0" by simp
    moreover have "Min (set ok) \<noteq> 0" if "ok \<noteq> []"
    proof -
      have "Min (set ok) \<in> set ok" using that by simp
      from ok[OF this] have "0 < Min (set ok)" by blast
      then show ?thesis by (metis order_less_irrefl)
    qed
    ultimately show "ok = []" by (auto split: if_splits)
  next
    assume "ok = []"
    with m have "uint (ucast m :: u64) = 0" by simp
    then have "uint m = 0" by (simp add: uint_up_ucast is_up)
    then show "m = 0" by (metis word_of_int_uint of_int_0)
  qed
  show ?thesis
  proof (cases "ok = []")
    case True
    with z iv show ?thesis by (simp add: down_up)
  next
    case False
    define M where "M = Min (set ok)"
    have "Min (set (ok @ [iv])) = min iv M" using False by (simp add: M_def)
    moreover have "ucast m = M" "m \<noteq> 0" using False m z by (simp_all add: M_def)
    ultimately show ?thesis using iv by (auto simp: down_up min_def)
  qed
qed

lemma max_step:
  assumes ok: "\<And>x. x \<in> set ok \<Longrightarrow> 0 < x \<and> x \<le> HID_RATE_GAP_NS" and iv: "0 < iv" "iv \<le> HID_RATE_GAP_NS"
    and m: "(ucast (m :: u32) :: u64) = (if ok = [] then 0 else Max (set ok))"
  shows "(ucast (if iv > ucast m then ucast iv else m) :: u64) = Max (set (ok @ [iv]))"
proof (cases "ok = []")
  case True
  with m iv show ?thesis by (simp add: down_up)
next
  case False
  define M where "M = Max (set ok)"
  have "Max (set (ok @ [iv])) = max iv M" using False by (simp add: M_def)
  moreover have "ucast m = M" using False m by (simp add: M_def)
  ultimately show ?thesis using iv by (auto simp: down_up max_def)
qed

lemma totals_step:
  assumes t: "totals_of es s"
  shows "totals_of (es @ [e]) (slot_on_in e s)"
proof (cases "ce_status e = 0")
  case False
  with t show ?thesis by (simp add: totals_of_def slot_on_in_def report_ts_def Let_def add.commute)
next
  case True
  define ts where "ts = report_ts es"
  define t where "t = h_ts_ns (ce_hdr e)"
  define s1 where "s1 = slot_note_len (ce_actual_length e) s"
  have rt: "report_ts (es @ [e]) = ts @ [t]" using True by (simp add: report_ts_def ts_def t_def)
  have fe: "filter (\<lambda>e. ce_status e \<noteq> 0) (es @ [e]) = filter (\<lambda>e. ce_status e \<noteq> 0) es" using True by simp
  note T = t[unfolded totals_of_def Let_def, folded ts_def]
  have last: "hs_last_ts_ns s1 = (if ts = [] then 0 else last ts)" using T by (simp add: s1_def)
  have good: "x \<in> set (good_ivs ts) \<Longrightarrow> 0 < x \<and> x \<le> HID_RATE_GAP_NS" for x by (rule good_pos)
  show ?thesis
  proof (cases "hs_last_ts_ns s1 \<noteq> 0 \<and> t > hs_last_ts_ns s1")
    case False
    then have "intervals (ts @ [t]) = intervals ts" "good_ivs (ts @ [t]) = good_ivs ts"
      using last by (auto simp: intervals_snoc good_snoc)
    moreover have "slot_on_in e s = s1\<lparr> hs_last_ts_ns := t, hs_win_count := hs_win_count s + 1,
        hs_total_count := hs_total_count s + 1 \<rparr>"
      unfolding slot_on_in_def s1_def[symmetric] t_def[symmetric] Let_def if_not_P[OF False]
      using True by (simp add: s1_def)
    ultimately show ?thesis using T
      by (simp add: totals_of_def rt fe add.commute) (simp add: s1_def True)
  next
    case fwd: True
    define iv where "iv = t - hs_last_ts_ns s1"
    have iv: "iv \<noteq> 0" "ts \<noteq> []" "last ts \<noteq> 0" "t > last ts" "iv = t - last ts"
      using fwd last by (auto simp: iv_def split: if_splits)
    then have iv0: "0 < iv" by (simp add: word_gt_0)
    have ivs: "intervals (ts @ [t]) = intervals ts @ [iv]" using iv by (simp add: intervals_snoc)
    have step: "slot_on_in e s = (slot_note_interval iv s1)
        \<lparr> hs_last_ts_ns := t, hs_win_count := hs_win_count s + 1, hs_total_count := hs_total_count s + 1 \<rparr>"
      using True fwd by (simp add: slot_on_in_def s1_def[symmetric] t_def[symmetric] iv_def[symmetric] Let_def)
        (simp add: s1_def)
    show ?thesis
    proof (cases "iv \<le> HID_RATE_GAP_NS")
      case True
      then have g: "good_ivs (ts @ [t]) = good_ivs ts @ [iv]" using iv by (simp add: good_snoc)
      have sel: "hs_total_min_iv_ns (slot_note_interval iv s1) =
          (if hs_total_min_iv_ns s = 0 \<or> iv < ucast (hs_total_min_iv_ns s) then ucast iv else hs_total_min_iv_ns s)"
        "hs_total_max_iv_ns (slot_note_interval iv s1) =
          (if iv > ucast (hs_total_max_iv_ns s) then ucast iv else hs_total_max_iv_ns s)"
        unfolding slot_note_interval_def if_not_P[OF iv(1)] using True by (simp_all add: s1_def leD)
      have "(ucast (hs_total_min_iv_ns (slot_note_interval iv s1)) :: u64) = Min (set (good_ivs ts @ [iv]))"
        unfolding sel by (rule min_step[OF good iv0 True]) (use T in blast)+
      moreover have "(ucast (hs_total_max_iv_ns (slot_note_interval iv s1)) :: u64) = Max (set (good_ivs ts @ [iv]))"
        unfolding sel by (rule max_step[OF good iv0 True]) (use T in blast)+
      ultimately have mm: "(ucast (hs_total_min_iv_ns (slot_note_interval iv s1)) :: u64) = Min (set (good_ivs ts @ [iv]))"
        "(ucast (hs_total_max_iv_ns (slot_note_interval iv s1)) :: u64) = Max (set (good_ivs ts @ [iv]))" by simp_all
      have sums: "hs_total_iv_count (slot_note_interval iv s1) = hs_total_iv_count s + 1"
        "hs_total_sum_iv_ns (slot_note_interval iv s1) = hs_total_sum_iv_ns s + iv"
        "hs_total_gaps (slot_note_interval iv s1) = hs_total_gaps s"
        unfolding slot_note_interval_def if_not_P[OF iv(1)] using True by (simp_all add: s1_def leD)
      have app: "good_ivs ts @ [iv] \<noteq> []" by simp
      have nogap: "\<not> iv > HID_RATE_GAP_NS" using True by (simp add: leD)
      show ?thesis
        unfolding totals_of_def Let_def rt fe step ivs g mm hid_rate_slot.simps
        using T nogap by (simp add: s1_def[symmetric] sums mm del: set_append) (simp add: s1_def add.commute)
    next
      case False
      then have g: "good_ivs (ts @ [t]) = good_ivs ts" using iv by (simp add: good_snoc)
      have sel: "hs_total_min_iv_ns (slot_note_interval iv s1) = hs_total_min_iv_ns s"
        "hs_total_max_iv_ns (slot_note_interval iv s1) = hs_total_max_iv_ns s"
        "hs_total_iv_count (slot_note_interval iv s1) = hs_total_iv_count s"
        "hs_total_sum_iv_ns (slot_note_interval iv s1) = hs_total_sum_iv_ns s"
        "hs_total_gaps (slot_note_interval iv s1) = hs_total_gaps s + 1"
        unfolding slot_note_interval_def if_not_P[OF iv(1)] using False by (simp_all add: s1_def not_le)
      have gap: "iv > HID_RATE_GAP_NS" using False by simp
      show ?thesis
        unfolding totals_of_def Let_def rt fe step ivs g hid_rate_slot.simps
        using T gap by (simp add: sel) (simp add: s1_def add.commute)
    qed
  qed
qed

section \<open>The table\<close>

definition tbl_ok :: "hid_rate_slot list \<Rightarrow> bool" where
  "tbl_ok slots \<longleftrightarrow> distinct (map slot_key slots) \<and> length slots \<le> HID_RATE_SLOTS"

definition new_slot :: "class_urb_event \<Rightarrow> hid_rate_slot" where
  "new_slot e = slot0\<lparr> hs_busnum := ce_busnum e, hs_devnum := ce_devnum e, hs_ep := ce_ep e, hs_vid := ce_vid e,
     hs_product := ce_product e \<rparr>"

lemma new_slot_key [simp]: "slot_key (new_slot e) = ev_ep_key e"
  by (simp add: new_slot_def slot_key_def ev_ep_key_def)

lemma slot_get_spec:
  fixes e :: class_urb_event and slots :: "hid_rate_slot list"
  defines "r \<equiv> slot_get (ce_busnum e) (ce_devnum e) (ce_ep e) (ce_vid e) (ce_product e) slots"
  shows "(\<exists>i < length slots. slot_key (slots ! i) = ev_ep_key e \<and> r = (slots, Some i))
     \<or> (ev_ep_key e \<notin> slot_key ` set slots \<and> length slots < HID_RATE_SLOTS \<and> r = (slots @ [new_slot e], Some (length slots)))
     \<or> (ev_ep_key e \<notin> slot_key ` set slots \<and> length slots \<ge> HID_RATE_SLOTS \<and> r = (slots, None))"
proof -
  define P where "P = (\<lambda>i. hs_busnum (slots ! i) = ce_busnum e \<and> hs_devnum (slots ! i) = ce_devnum e \<and> hs_ep (slots ! i) = ce_ep e)"
  have P: "P i \<longleftrightarrow> slot_key (slots ! i) = ev_ep_key e" for i
    by (auto simp: P_def slot_key_def ev_ep_key_def)
  show ?thesis
  proof (cases "find P [0..<length slots]")
    case (Some i)
    then have "i < length slots" "P i" by (auto simp: find_upt_Some)
    moreover have "r = (slots, Some i)" unfolding r_def slot_get_def P_def[symmetric] Some by simp
    ultimately show ?thesis using P by blast
  next
    case None
    then have "ev_ep_key e \<notin> slot_key ` set slots"
      by (auto simp: find_upt_None P in_set_conv_nth)
    moreover have "r = (if length slots \<ge> HID_RATE_SLOTS then (slots, None) else (slots @ [new_slot e], Some (length slots)))"
      unfolding r_def slot_get_def P_def[symmetric] None by (simp add: new_slot_def)
    ultimately show ?thesis by (auto simp: not_le)
  qed
qed

text \<open>The events that reach the meter, and those of one endpoint.\<close>

definition metered :: "hid_opts \<Rightarrow> class_urb_event \<Rightarrow> bool" where
  "metered ho e \<longleftrightarrow> ho_rate ho \<and> ce_dir_in e \<noteq> 0"

definition own_events :: "hid_opts \<Rightarrow> class_urb_event list \<Rightarrow> ep_key \<Rightarrow> class_urb_event list" where
  "own_events ho es k = filter (\<lambda>e. metered ho e \<and> ev_ep_key e = k) es"

text \<open>The distinct elements in order of first occurrence.\<close>

definition firsts :: "'a list \<Rightarrow> 'a list" where
  "firsts xs = fold (\<lambda>x acc. if x \<in> set acc then acc else acc @ [x]) xs []"

lemma firsts_snoc [simp]: "firsts [] = []" "firsts (xs @ [x]) = (if x \<in> set (firsts xs) then firsts xs else firsts xs @ [x])"
  by (simp_all add: firsts_def)

lemma set_firsts [simp]: "set (firsts xs) = set xs"
  by (induction xs rule: rev_induct) auto

definition lines_reports :: "ep_key \<Rightarrow> rate_line list \<Rightarrow> u64" where
  "lines_reports k ls = sum_list (map (\<lambda>l. hs_win_count (fst l)) (filter (\<lambda>l. slot_key (fst l) = k) ls))"

definition hid_step :: "hid_opts \<Rightarrow> class_urb_event \<Rightarrow> hid_state \<times> rate_line list \<Rightarrow> hid_state \<times> rate_line list" where
  "hid_step ho e = (\<lambda>(st, ls). let (st', l) = rate_on_in ho e st in (st', ls @ l))"

text \<open>The invariant over a run: \<open>es\<close> events seen, state and lines printed.\<close>

definition slots_inv :: "hid_opts \<Rightarrow> class_urb_event list \<Rightarrow> hid_rate_slot list \<Rightarrow> rate_line list \<Rightarrow> bool" where
  "slots_inv ho es slots ls \<longleftrightarrow>
     tbl_ok slots
     \<and> map slot_key slots = take HID_RATE_SLOTS (firsts (map ev_ep_key (filter (metered ho) es)))
     \<and> (\<forall>s \<in> set slots. totals_of (own_events ho es (slot_key s)) s
          \<and> hs_win_count s + lines_reports (slot_key s) ls = hs_total_count s)
     \<and> (\<lambda>l. slot_key (fst l)) ` set ls \<subseteq> slot_key ` set slots"

lemma lines_none: "k \<notin> (\<lambda>l. slot_key (fst l)) ` set ls \<Longrightarrow> lines_reports k ls = 0"
  unfolding lines_reports_def by (induction ls) auto

lemma lines_append [simp]: "lines_reports k (a @ b) = lines_reports k a + lines_reports k b" "lines_reports k [] = 0"
  by (simp_all add: lines_reports_def)

lemma lines_flush:
  assumes "distinct (map slot_key slots)" "s \<in> set slots" "w \<noteq> 0"
  shows "lines_reports (slot_key s) (concat (map (\<lambda>s. print_rate_line s w) slots)) = hs_win_count s"
  using assms
proof (induction slots)
  case (Cons t slots)
  have other: "lines_reports k (concat (map (\<lambda>s. print_rate_line s w) xs)) = 0" if "k \<notin> slot_key ` set xs" for k xs
    using that by (induction xs) (auto simp: lines_reports_def print_rate_line_simp)
  have own: "lines_reports (slot_key t) (print_rate_line t w) = hs_win_count t"
    using Cons.prems(3) by (simp add: lines_reports_def print_rate_line_simp)
  show ?case
  proof (cases "s = t")
    case True
    then show ?thesis using Cons.prems own other[of "slot_key t" slots] by simp
  next
    case False
    then have "s \<in> set slots" using Cons.prems(2) by simp
    then have "slot_key s \<in> slot_key ` set slots" by (rule imageI)
    then have "slot_key s \<noteq> slot_key t" using Cons.prems(1) by (metis distinct.simps(2) list.simps(9) set_map)
    then have "lines_reports (slot_key s) (print_rate_line t w) = 0"
      by (simp add: lines_reports_def print_rate_line_simp)
    then show ?thesis using Cons.IH Cons.prems \<open>s \<in> set slots\<close> by simp
  qed
qed simp

lemma flush_inv:
  assumes inv: "slots_inv ho es (g_slots st) ls" and run: "rate_flush_window ho now final st = (st', l)"
  shows "slots_inv ho es (g_slots st') (ls @ l)"
proof (cases "g_slots st' = g_slots st \<and> l = []")
  case False
  define w where "w = now - g_window_start_ns st"
  have w: "w \<noteq> 0" and st': "g_slots st' = map clear_win (g_slots st)" "l = concat (map (\<lambda>s. print_rate_line s w) (g_slots st))"
    using run False by (auto simp: rate_flush_window_def w_def Let_def split: if_splits)
  have d: "distinct (map slot_key (g_slots st))" using inv unfolding slots_inv_def tbl_ok_def by blast
  have keys: "map slot_key (map clear_win (g_slots st)) = map slot_key (g_slots st)" by simp
  have all: "totals_of (own_events ho es (slot_key s)) s \<and> hs_win_count s + lines_reports (slot_key s) ls = hs_total_count s"
    if "s \<in> set (g_slots st)" for s using inv that unfolding slots_inv_def by blast
  have "totals_of (own_events ho es (slot_key s)) s \<and> hs_win_count s + lines_reports (slot_key s) (ls @ l) = hs_total_count s"
    if "s \<in> set (g_slots st')" for s :: hid_rate_slot
  proof -
    from that obtain s0 where s0: "s0 \<in> set (g_slots st)" "s = clear_win s0" unfolding st' set_map by blast
    then show ?thesis using all[OF s0(1)] lines_flush[OF d s0(1) w] by (simp add: st'(2) add.commute)
  qed
  moreover have "(\<lambda>l. slot_key (fst l)) ` set l \<subseteq> slot_key ` set (g_slots st)"
    by (auto simp: st'(2) print_rate_line_simp split: if_splits)
  moreover have k: "map slot_key (g_slots st') = map slot_key (g_slots st)" using keys st'(1) by simp
  then have si: "slot_key ` set (g_slots st') = slot_key ` set (g_slots st)" by (metis set_map)
  have "tbl_ok (g_slots st')"
    using inv unfolding slots_inv_def tbl_ok_def k unfolding st'(1) length_map by blast
  moreover have "(\<lambda>l. slot_key (fst l)) ` set ls \<subseteq> slot_key ` set (g_slots st)"
    and "map slot_key (g_slots st) = take HID_RATE_SLOTS (firsts (map ev_ep_key (filter (metered ho) es)))"
    using inv unfolding slots_inv_def by blast+
  ultimately show ?thesis unfolding slots_inv_def set_append image_Un si k by blast
qed (use inv in simp)

lemma own_events_snoc:
  "own_events ho (es @ [e]) k = own_events ho es k @ (if metered ho e \<and> ev_ep_key e = k then [e] else [])"
  by (simp add: own_events_def)

lemma slot_on_in_counts:
  "hs_win_count (slot_on_in e s) = hs_win_count s + (if ce_status e = 0 then 1 else 0)"
  "hs_total_count (slot_on_in e s) = hs_total_count s + (if ce_status e = 0 then 1 else 0)"
  by (simp_all add: slot_on_in_def Let_def)

text \<open>Updating the endpoint's slot keeps the invariant, with the event counted.\<close>

lemma update_inv:
  assumes ok: "tbl_ok slots" and keys: "map slot_key slots = take HID_RATE_SLOTS (firsts (map ev_ep_key (filter (metered ho) (es @ [e]))))"
    and e: "metered ho e" and i: "i < length slots" "slot_key (slots ! i) = ev_ep_key e"
    and all: "\<And>s. s \<in> set slots \<Longrightarrow> totals_of (own_events ho es (slot_key s)) s
          \<and> hs_win_count s + lines_reports (slot_key s) ls = hs_total_count s"
    and sub: "(\<lambda>l. slot_key (fst l)) ` set ls \<subseteq> slot_key ` set slots"
  shows "slots_inv ho (es @ [e]) (slots[i := slot_on_in e (slots ! i)]) ls"
proof -
  define slots2 where "slots2 = slots[i := slot_on_in e (slots ! i)]"
  have k2: "map slot_key slots2 = map slot_key slots"
    unfolding slots2_def map_update using i by (simp add: list_update_same_conv)
  have "totals_of (own_events ho (es @ [e]) (slot_key s)) s \<and> hs_win_count s + lines_reports (slot_key s) ls = hs_total_count s"
    if s: "s \<in> set slots2" for s
  proof -
    obtain j where j: "j < length slots" "s = slots2 ! j" using s by (auto simp: in_set_conv_nth slots2_def)
    show ?thesis
    proof (cases "j = i")
      case True
      then have "s = slot_on_in e (slots ! i)" using j by (simp add: slots2_def)
      moreover note all[OF nth_mem[OF i(1)]]
      ultimately show ?thesis using totals_step[of "own_events ho es (slot_key (slots ! i))" "slots ! i" e] i(2) e
        by (auto simp: own_events_snoc slot_on_in_counts)
    next
      case False
      then have sj: "s = slots ! j" using j by (simp add: slots2_def)
      have "slot_key s \<noteq> ev_ep_key e"
        using ok False j(1) i unfolding sj tbl_ok_def i(2)[symmetric]
        by (auto simp: distinct_conv_nth)
      then show ?thesis using all[of s] j(1) sj by (auto simp: own_events_snoc)
    qed
  qed
  moreover have "tbl_ok slots2" using ok k2 unfolding tbl_ok_def slots2_def by simp
  moreover have "slot_key ` set slots2 = slot_key ` set slots" using k2 by (metis set_map)
  ultimately show ?thesis using keys k2 sub unfolding slots_inv_def slots2_def[symmetric] by simp
qed

lemma rate_inv:
  assumes inv: "slots_inv ho es (g_slots st) ls" and run: "rate_on_in ho e st = (st', l)"
  shows "slots_inv ho (es @ [e]) (g_slots st') (ls @ l)"
proof (cases "metered ho e")
  case False
  then have "st' = st" "l = []" using run by (auto simp: rate_on_in_def metered_def Let_def)
  then show ?thesis using inv False by (simp add: slots_inv_def own_events_snoc)
next
  case True
  define k where "k = ev_ep_key e"
  define fs where "fs = firsts (map ev_ep_key (filter (metered ho) es))"
  have ok: "tbl_ok (g_slots st)" and keys: "map slot_key (g_slots st) = take HID_RATE_SLOTS fs"
    and all: "\<And>s. s \<in> set (g_slots st) \<Longrightarrow> totals_of (own_events ho es (slot_key s)) s
          \<and> hs_win_count s + lines_reports (slot_key s) ls = hs_total_count s"
    and sub: "(\<lambda>l. slot_key (fst l)) ` set ls \<subseteq> slot_key ` set (g_slots st)"
    using inv unfolding slots_inv_def fs_def by blast+
  have fs': "firsts (map ev_ep_key (filter (metered ho) (es @ [e]))) = (if k \<in> set fs then fs else fs @ [k])"
    using True by (simp add: fs_def k_def)
  have gate: "\<not> (\<not> ho_rate ho \<or> ce_dir_in e = 0)" using True by (simp add: metered_def)
  obtain slots r where sg: "slot_get (ce_busnum e) (ce_devnum e) (ce_ep e) (ce_vid e) (ce_product e) (g_slots st) = (slots, r)"
    by (cases "slot_get (ce_busnum e) (ce_devnum e) (ce_ep e) (ce_vid e) (ce_product e) (g_slots st)")
  have upd: "slots_inv ho (es @ [e]) (g_slots st') (ls @ l)"
    if r: "r = Some i" and u: "slots_inv ho (es @ [e]) (slots[i := slot_on_in e (slots ! i)]) ls" for i
  proof -
    define st2 where "st2 = st\<lparr> g_slots := slots[i := slot_on_in e (slots ! i)] \<rparr>"
    have "(st' = st2 \<and> l = []) \<or> (\<exists>w. st' = st2\<lparr> g_window_start_ns := w \<rparr> \<and> l = [])
       \<or> (\<exists>w. rate_flush_window ho (h_ts_ns (ce_hdr e)) False (st2\<lparr> g_window_start_ns := w \<rparr>) = (st', l))
       \<or> rate_flush_window ho (h_ts_ns (ce_hdr e)) False st2 = (st', l)"
      using run unfolding rate_on_in_def Let_def if_not_P[OF gate] sg r
      by (auto simp: st2_def split: if_splits)
    moreover have s2: "slots_inv ho (es @ [e]) (g_slots (st2\<lparr> g_window_start_ns := w \<rparr>)) ls" "slots_inv ho (es @ [e]) (g_slots st2) ls" for w
      using u by (simp_all add: st2_def)
    ultimately show ?thesis using flush_inv[OF s2(1)] flush_inv[OF s2(2)] by auto
  qed
  consider (old) i where "i < length (g_slots st)" "slot_key (g_slots st ! i) = k" "slots = g_slots st" "r = Some i"
    | (new) "k \<notin> slot_key ` set (g_slots st)" "length (g_slots st) < HID_RATE_SLOTS" "slots = g_slots st @ [new_slot e]"
        "r = Some (length (g_slots st))"
    | (full) "k \<notin> slot_key ` set (g_slots st)" "length (g_slots st) \<ge> HID_RATE_SLOTS" "slots = g_slots st" "r = None"
    using slot_get_spec[where e = e and slots = "g_slots st"] unfolding sg k_def by auto
  then show ?thesis
  proof cases
    case old
    then have "k \<in> set (map slot_key (g_slots st))" by (metis in_set_conv_nth length_map nth_map)
    then have "k \<in> set fs" unfolding keys by (rule in_set_takeD)
    then have keys': "map slot_key (g_slots st) = take HID_RATE_SLOTS (firsts (map ev_ep_key (filter (metered ho) (es @ [e]))))"
      unfolding fs' keys by simp
    show ?thesis
      using old update_inv[OF ok keys' True _ _ all sub] by (intro upd[of i]) (simp_all add: k_def)
  next
    case new
    have len: "length fs < HID_RATE_SLOTS" using new(2) keys by (metis length_map length_take min_less_iff_conj nat_less_le min_def)
    then have kf: "map slot_key (g_slots st) = fs" using keys by simp
    then have nk: "k \<notin> set fs" using new(1) by (metis image_set)
    then have none: "own_events ho es k = []"
      unfolding fs_def own_events_def k_def filter_empty_conv set_firsts by (auto simp: image_iff)
    have fresh: "totals_of [] (new_slot e)" unfolding new_slot_def by (rule totals_start)
    have c0: "hs_win_count (new_slot e) = 0" "hs_total_count (new_slot e) = 0" by (simp_all add: new_slot_def slot0_def)
    have l0: "lines_reports k ls = 0" using sub new(1) by (intro lines_none) blast
    have ok': "tbl_ok slots" using ok new(1,2) unfolding tbl_ok_def new(3) by (auto simp: k_def)
    have keys': "map slot_key slots = take HID_RATE_SLOTS (firsts (map ev_ep_key (filter (metered ho) (es @ [e]))))"
      unfolding fs' new(3) using nk kf len by (simp add: k_def)
    have all': "totals_of (own_events ho es (slot_key s)) s \<and> hs_win_count s + lines_reports (slot_key s) ls = hs_total_count s"
      if "s \<in> set slots" for s
      using that all none fresh c0 l0 unfolding new(3) by (auto simp: k_def)
    have sub': "(\<lambda>l. slot_key (fst l)) ` set ls \<subseteq> slot_key ` set slots" using sub unfolding new(3) by auto
    show ?thesis
      using update_inv[of slots ho es e "length (g_slots st)" ls] ok' keys' True all' sub' new(3,4)
      by (intro upd[of "length (g_slots st)"]) simp_all
  next
    case full
    then have "st' = st" "l = []" using run unfolding rate_on_in_def Let_def if_not_P[OF gate] sg by auto
    moreover have "HID_RATE_SLOTS \<le> length fs"
      using full(2) keys by (metis length_map length_take min.bounded_iff order_refl)
    moreover have "ev_ep_key e \<noteq> slot_key s" if "s \<in> set (g_slots st)" for s using full(1) that by (auto simp: k_def)
    ultimately show ?thesis using inv by (auto simp: slots_inv_def own_events_snoc fs'[symmetric] fs_def[symmetric] fs')
  qed
qed
section \<open>The run\<close>

lemma hid_run_inv:
  "fold (hid_step ho) es (hid_state0, []) = (st, ls) \<Longrightarrow> slots_inv ho es (g_slots st) ls"
proof (induction es arbitrary: st ls rule: rev_induct)
  case Nil
  then show ?case by (auto simp: hid_state0_def slots_inv_def tbl_ok_def)
next
  case (snoc e es)
  obtain st1 ls1 where r1: "fold (hid_step ho) es (hid_state0, []) = (st1, ls1)" by fastforce
  obtain st2 l where r2: "rate_on_in ho e st1 = (st2, l)" by fastforce
  have "st = st2" "ls = ls1 @ l" using snoc.prems[unfolded fold_append comp_apply r1] r2 by (simp_all add: hid_step_def)
  then show ?case using rate_inv[OF snoc.IH[OF r1] r2] by simp
qed

text \<open>The module's handler run over the records received: the meter sees the HID class records.\<close>

definition hid_recv ::
  "hid_opts \<Rightarrow> u8 list \<Rightarrow> (hid_state \<times> class_stream_ctx) \<times> rate_line list \<times> class_urb_event list
     \<Rightarrow> (hid_state \<times> class_stream_ctx) \<times> rate_line list \<times> class_urb_event list" where
  "hid_recv ho data = (\<lambda>(s, ls, out). let (s', l, o') = hid_on_event ho data s in (s', ls @ l, out @ o'))"

definition hid_session ::
  "hid_opts \<Rightarrow> class_stream_ctx \<Rightarrow> u8 list list \<Rightarrow> (hid_state \<times> class_stream_ctx) \<times> rate_line list \<times> class_urb_event list" where
  "hid_session ho c ds = fold (hid_recv ho) ds ((hid_state0, c), [], [])"

definition is_hid_data :: "u8 list \<Rightarrow> bool" where
  "is_hid_data data \<longleftrightarrow> length data \<ge> 72 \<and> h_kind (dec_hdr data) = USBTRACE_EVT_CLASS
     \<and> ce_klass (dec_class_urb_event data) = USBTRACE_CLASS_HID"

definition hid_events :: "u8 list list \<Rightarrow> class_urb_event list" where
  "hid_events ds = map dec_class_urb_event (filter is_hid_data ds)"

lemma hid_recv_step:
  assumes "hid_recv ho data ((st, c), ls, out) = ((st', c'), ls', out')"
  shows "(st', ls') = (if is_hid_data data then hid_step ho (dec_class_urb_event data) (st, ls) else (st, ls))"
  using assms by (auto simp: hid_recv_def hid_on_event_def hid_step_def is_hid_data_def Let_def
      split: prod.splits if_splits)

lemma hid_session_meter:
  "hid_session ho c ds = ((st, c'), ls, out) \<Longrightarrow> fold (hid_step ho) (hid_events ds) (hid_state0, []) = (st, ls)"
proof (induction ds arbitrary: st c' ls out rule: rev_induct)
  case (snoc d ds)
  obtain st1 c1 ls1 out1 where r1: "hid_session ho c ds = ((st1, c1), ls1, out1)" by (metis prod.exhaust)
  then have "hid_recv ho d ((st1, c1), ls1, out1) = ((st, c'), ls, out)"
    using snoc.prems by (simp add: hid_session_def)
  from hid_recv_step[OF this] snoc.IH[OF r1] show ?case by (simp add: hid_events_def)
qed (simp add: hid_session_def hid_events_def)

lemma hid_session_inv:
  "hid_session ho c ds = ((st, c'), ls, out) \<Longrightarrow> slots_inv ho (hid_events ds) (g_slots st) ls"
  by (rule hid_run_inv[OF hid_session_meter])

text \<open>C34: The rate meter's table is the specification's: whatever records arrive in a session, its rows are the
  first sixteen distinct IN endpoints in order of appearance, each once, and a row's totals (reports, failed URBs,
  number, sum, minimum and maximum of the report intervals, pauses over 50 ms) are those computed from the endpoint's
  own completions alone, with the minimum and maximum exact though they are kept in 32 bits.\<close>

theorem hid_totals_exact:
  "let st = fst (fst (hid_session ho c ds)); es = hid_events ds in
     map slot_key (g_slots st) = take 16 (firsts (map ev_ep_key (filter (metered ho) es)))
     \<and> list_all (\<lambda>s. totals_of (own_events ho es (slot_key s)) s) (g_slots st)"
proof -
  obtain st c' ls out where r: "hid_session ho c ds = ((st, c'), ls, out)" by (metis prod.exhaust)
  from hid_session_inv[OF r] show ?thesis
    by (simp add: r slots_inv_def HID_RATE_SLOTS_def list_all_iff Let_def)
qed

text \<open>No report is lost or counted twice between windows: whatever lines a session has printed so far, the
  reports of a row's printed lines plus those of its open window are its total, and after the final flush at the end
  of the session they still are.\<close>

theorem hid_windows_partition:
  "let ((st, _), ls, _) = hid_session ho c ds; (st', l) = hid_on_stop ho st in
     list_all (\<lambda>s. hs_win_count s + lines_reports (slot_key s) ls = hs_total_count s) (g_slots st)
     \<and> list_all (\<lambda>s. hs_win_count s + lines_reports (slot_key s) (ls @ l) = hs_total_count s) (g_slots st')"
proof -
  obtain st c' ls out where r: "hid_session ho c ds = ((st, c'), ls, out)" by (metis prod.exhaust)
  obtain st' l where s: "hid_on_stop ho st = (st', l)" by fastforce
  note inv = hid_session_inv[OF r]
  have "slots_inv ho (hid_events ds) (g_slots st') (ls @ l)"
  proof (cases "st' = st \<and> l = []")
    case False
    then obtain now where "rate_flush_window ho now True st = (st', l)"
      using s by (auto simp: hid_on_stop_def Let_def split: if_splits)
    with inv show ?thesis by (rule flush_inv)
  qed (use inv in simp)
  with inv show ?thesis by (simp add: r s slots_inv_def list_all_iff)
qed

end
