(* ===== verification/Dev_Consumer.thy ===== *)
theory Dev_Consumer
  imports Json_Line Dev_Probes Class_Stream
begin

text \<open>
  The user-space side of the enum, power, lifecycle and hub modules (\<open>modules/{enum,power,lifecycle,hub}/*.c\<close>)
  and the printers of the class consumer (\<open>class_stream.c\<close>): what a record prints, as text and as JSON, and a whole
  session over the run harness. A JSON line is read back to exactly the members it was printed from.

  Standard output is the string printed so far; log lines are in \<open>Ut_Program\<close>.
\<close>

section \<open>Names\<close>

definition enum_state_str :: "u8 \<Rightarrow> string" where
  "enum_state_str s =
     (if s = 0 then ''NOTATTACHED'' else if s = 1 then ''ATTACHED'' else if s = 2 then ''POWERED''
      else if s = 3 then ''RECONNECTING'' else if s = 4 then ''UNAUTHED'' else if s = 5 then ''DEFAULT''
      else if s = 6 then ''ADDRESS'' else if s = 7 then ''CONFIGURED'' else if s = 8 then ''SUSPENDED'' else ''?'')"

definition step_str :: "u8 \<Rightarrow> string" where
  "step_str s =
     (if s = ENUM_STEP_GET_DESC then ''GET_DESCRIPTOR'' else if s = ENUM_STEP_SET_ADDR then ''SET_ADDRESS''
      else if s = ENUM_STEP_SET_CONFIG then ''SET_CONFIGURATION'' else ''STATE'')"

definition power_action_str :: "u8 \<Rightarrow> string" where
  "power_action_str a =
     (if a = POWER_AUTOSUSPEND then ''AUTOSUSPEND'' else if a = POWER_AUTORESUME then ''AUTORESUME''
      else if a = POWER_PORT_SUSPEND then ''PORT_SUSPEND'' else if a = POWER_PORT_RESUME then ''PORT_RESUME'' else ''?'')"

definition lifecycle_action_str :: "u8 \<Rightarrow> string" where
  "lifecycle_action_str a =
     (if a = LIFECYCLE_CONNECT then ''CONNECT'' else if a = LIFECYCLE_DISCONNECT then ''DISCONNECT''
      else if a = LIFECYCLE_RESET then ''RESET'' else ''?'')"

definition hub_action_str :: "u8 \<Rightarrow> string" where
  "hub_action_str a =
     (if a = HUB_RESET then ''RESET'' else if a = HUB_DISABLE then ''DISABLE'' else if a = HUB_POWER_OFF then ''POWER_OFF''
      else if a = HUB_POWER_ON then ''POWER_ON'' else if a = HUB_OVERCURRENT then ''OVERCURRENT'' else ''?'')"

section \<open>Printing a record\<close>

text \<open>The parts the formats share: \<open>"0x%04x"\<close>, \<open>"%04x:%04x %u-%u"\<close>, \<open>"port%u"\<close>, \<open>"path=%s %s"\<close>.\<close>

definition hex_id :: "u16 \<Rightarrow> string" where "hex_id w = jstr (''0x'' @ hex04 w)"

definition dev_cols :: "u16 \<Rightarrow> u16 \<Rightarrow> u16 \<Rightarrow> u16 \<Rightarrow> string" where
  "dev_cols vid pid bus dev = hex04 vid @ '':'' @ hex04 pid @ '' '' @ fmt_u bus @ ''-'' @ fmt_u dev"

definition path_cols :: "u8 list \<Rightarrow> u8 list \<Rightarrow> string" where
  "path_cols path comm = ''path='' @ (if bytes_cstr path = [] then ''-'' else bytes_cstr path) @ '' '' @ bytes_cstr comm"

text \<open>The members after the speed are the same in all four modules, up to what a module adds.\<close>

definition dev_members :: "u8 \<Rightarrow> u16 \<Rightarrow> u16 \<Rightarrow> u16 \<Rightarrow> u16 \<Rightarrow> u8 \<Rightarrow> (string \<times> string) list" where
  "dev_members speed vid pid bus dev port =
     [(''speed'', jstr (usbtrace_speed_str speed)), (''vid'', hex_id vid), (''pid'', hex_id pid), (''bus'', fmt_u bus),
      (''dev'', fmt_u dev), (''port'', fmt_u port)]"

definition path_members :: "u8 list \<Rightarrow> u8 list \<Rightarrow> (string \<times> string) list" where
  "path_members path comm = [(''path'', jstr (jesc 33 path)), (''comm'', jstr (jesc 33 comm))]"

definition enum_print :: "bool \<Rightarrow> enum_event \<Rightarrow> string" where
  "enum_print json e =
     (if json then
        json_obj ([(''event'', jstr ''enum''), (''step'', jstr (step_str (ee_step e))),
           (''from'', jstr (enum_state_str (ee_old_state e))), (''to'', jstr (enum_state_str (ee_new_state e))),
           (''status'', fmt_d (ee_status e))]
          @ dev_members (ee_speed e) (ee_vid e) (ee_product e) (ee_busnum e) (ee_devnum e) (ee_portnum e)
          @ path_members (ee_devpath e) (ee_comm e))
      else
        (if ee_step e = ENUM_STEP_STATE
         then pad_right 12 (enum_state_str (ee_old_state e)) @ '' -> '' @ pad_right 12 (enum_state_str (ee_new_state e)) @ '' ''
         else pad_right 16 (step_str (ee_step e)) @ '' st='' @ pad_right 4 (fmt_d (ee_status e)) @ '' '')
        @ pad_right 6 (usbtrace_speed_str (ee_speed e)) @ '' ''
        @ dev_cols (ee_vid e) (ee_product e) (ee_busnum e) (ee_devnum e) @ '' port'' @ fmt_u (ee_portnum e) @ '' ''
        @ path_cols (ee_devpath e) (ee_comm e) @ [LF])"

definition power_print :: "bool \<Rightarrow> power_rec \<Rightarrow> string" where
  "power_print json e =
     (if json then
        json_obj ([(''event'', jstr ''power''), (''action'', jstr (power_action_str (pe_action e)))]
          @ dev_members (pe_speed e) (pe_vid e) (pe_product e) (pe_busnum e) (pe_devnum e) (pe_portnum e)
          @ path_members (pe_devpath e) (pe_comm e))
      else
        pad_right 11 (power_action_str (pe_action e)) @ '' '' @ pad_right 6 (usbtrace_speed_str (pe_speed e)) @ '' ''
        @ dev_cols (pe_vid e) (pe_product e) (pe_busnum e) (pe_devnum e) @ '' port'' @ fmt_u (pe_portnum e) @ '' ''
        @ path_cols (pe_devpath e) (pe_comm e) @ [LF])"

definition lifecycle_print :: "bool \<Rightarrow> lifecycle_event \<Rightarrow> string" where
  "lifecycle_print json e =
     (if json then
        json_obj ([(''event'', jstr ''lifecycle''), (''action'', jstr (lifecycle_action_str (le_action e)))]
          @ dev_members (le_speed e) (le_vid e) (le_product e) (le_busnum e) (le_devnum e) (le_portnum e)
          @ [(''reset_resume'', fmt_u (le_reset_resume e))]
          @ path_members (le_devpath e) (le_comm e))
      else
        pad_right 10 (lifecycle_action_str (le_action e)) @ '' '' @ pad_right 6 (usbtrace_speed_str (le_speed e)) @ '' ''
        @ dev_cols (le_vid e) (le_product e) (le_busnum e) (le_devnum e) @ '' port'' @ fmt_u (le_portnum e) @ '' ''
        @ path_cols (le_devpath e) (le_comm e)
        @ (if le_action e = LIFECYCLE_RESET \<and> le_reset_resume e \<noteq> 0 then '' reset_resume'' else '''') @ [LF])"

definition hub_print :: "bool \<Rightarrow> hub_event \<Rightarrow> string" where
  "hub_print json e =
     (if json then
        json_obj ([(''event'', jstr ''hub''), (''action'', jstr (hub_action_str (he_action e)))]
          @ dev_members (he_speed e) (he_vid e) (he_product e) (he_busnum e) (he_devnum e) (he_portnum e)
          @ [(''oc_count'', fmt_u (he_oc_count e)), (''warm'', fmt_u (he_warm e))]
          @ path_members (he_devpath e) (he_comm e))
      else
        pad_right 11 (hub_action_str (he_action e)) @ '' '' @ pad_right 6 (usbtrace_speed_str (he_speed e)) @ '' ''
        @ dev_cols (he_vid e) (he_product e) (he_busnum e) (he_devnum e) @ '' port'' @ fmt_u (he_portnum e) @ '' ''
        @ (if he_action e = HUB_OVERCURRENT then ''oc='' @ fmt_u (he_oc_count e) @ '' '' else '''')
        @ path_cols (he_devpath e) (he_comm e) @ [LF])"

text \<open>\<open>class_stream.c\<close>: a printed record, and the summary line in JSON.\<close>

definition class_print_event :: "bool \<Rightarrow> class_urb_event \<Rightarrow> string" where
  "class_print_event json e =
     (if json then
        json_obj [(''event'', jstr ''class''), (''class'', jstr (usbtrace_class_str (ce_klass e))),
          (''xfer'', jstr (xfer_str (ce_xfer_type e))), (''ep'', fmt_u (ce_ep e)),
          (''dir'', jstr (if ce_dir_in e \<noteq> 0 then ''in'' else ''out'')), (''status'', fmt_d (ce_status e)),
          (''error_count'', fmt_d (ce_error_count e)), (''packets'', fmt_u (ce_number_of_packets e)),
          (''bytes'', fmt_u (ce_actual_length e)), (''start_frame'', fmt_d (ce_start_frame e)), (''vid'', hex_id (ce_vid e)),
          (''pid'', hex_id (ce_product e)), (''bus'', fmt_u (ce_busnum e)), (''dev'', fmt_u (ce_devnum e)),
          (''comm'', jstr (jesc 33 (ce_comm e)))]
      else
        pad_right 7 (usbtrace_class_str (ce_klass e)) @ '' '' @ pad_right 4 (xfer_str (ce_xfer_type e)) @ '' ep''
        @ pad_right 2 (fmt_u (ce_ep e)) @ '' '' @ (if ce_dir_in e \<noteq> 0 then ''<'' else ''>'') @ '' pkts=''
        @ pad_right 3 (fmt_u (ce_number_of_packets e)) @ '' err='' @ pad_right 3 (fmt_d (ce_error_count e)) @ '' ''
        @ pad_left 7 (fmt_u (ce_actual_length e)) @ ''B st='' @ pad_right 4 (fmt_d (ce_status e)) @ '' ''
        @ dev_cols (ce_vid e) (ce_product e) (ce_busnum e) (ce_devnum e) @ '' '' @ bytes_cstr (ce_comm e) @ [LF])"

definition class_stream_summary :: "bool \<Rightarrow> string \<Rightarrow> class_stats \<Rightarrow> string" where
  "class_stream_summary json modname st =
     (if json then
        json_obj [(''event'', jstr (modname @ ''_summary'')), (''urbs'', fmt_u (cs_urbs st)),
          (''isoc_err'', fmt_u (cs_isoc_err st)), (''status_err'', fmt_u (cs_status_err st)), (''bytes'', fmt_u (cs_bytes st))]
      else '''')"

text \<open>The same summary as text, on standard error.\<close>

definition class_stream_summary_err :: "string \<Rightarrow> class_stats \<Rightarrow> string" where
  "class_stream_summary_err modname st =
     [LF] @ ''--- '' @ modname @ '' summary ---'' @ [LF]
     @ ''URBs:            '' @ fmt_u (cs_urbs st) @ [LF]
     @ ''isoc errors:     '' @ fmt_u (cs_isoc_err st) @ '' (error_count > 0)'' @ [LF]
     @ ''status errors:   '' @ fmt_u (cs_status_err st) @ '' (status != 0)'' @ [LF]
     @ ''bytes:           '' @ fmt_u (cs_bytes st) @ [LF]
     @ (if cs_urbs st = 0 then ''note: no URBs seen. Is the driver loaded and the device active?'' @ [LF] else [])"

section \<open>Events and sessions\<close>

text \<open>The four handlers differ in the kind, the size and the printer.\<close>

definition enum_handle_event :: "bool \<Rightarrow> u8 list \<Rightarrow> string \<Rightarrow> string" where
  "enum_handle_event json data out =
     (if length data < 16 then out
      else if h_kind (dec_hdr data) \<noteq> USBTRACE_EVT_ENUM \<or> length data < 72 then out
      else out @ enum_print json (dec_enum_event data))"

definition power_handle_event :: "bool \<Rightarrow> u8 list \<Rightarrow> string \<Rightarrow> string" where
  "power_handle_event json data out =
     (if length data < 16 then out
      else if h_kind (dec_hdr data) \<noteq> USBTRACE_EVT_POWER \<or> length data < 64 then out
      else out @ power_print json (dec_power_rec data))"

definition lifecycle_handle_event :: "bool \<Rightarrow> u8 list \<Rightarrow> string \<Rightarrow> string" where
  "lifecycle_handle_event json data out =
     (if length data < 16 then out
      else if h_kind (dec_hdr data) \<noteq> USBTRACE_EVT_LIFECYCLE \<or> length data < 64 then out
      else out @ lifecycle_print json (dec_lifecycle_event data))"

definition hub_handle_event :: "bool \<Rightarrow> u8 list \<Rightarrow> string \<Rightarrow> string" where
  "hub_handle_event json data out =
     (if length data < 16 then out
      else if h_kind (dec_hdr data) \<noteq> USBTRACE_EVT_HUB \<or> length data < 72 then out
      else out @ hub_print json (dec_hub_event data))"

definition enum_on_start :: "bool \<Rightarrow> string" where
  "enum_on_start json =
     (if json then '''' else pad_right 12 ''FROM'' @ ''    '' @ pad_right 12 ''TO'' @ '' '' @ pad_right 6 ''SPEED'' @ '' ''
        @ ''VID:PID  BUS-DEV PORT PATH COMM'' @ [LF])"

definition power_on_start :: "bool \<Rightarrow> string" where
  "power_on_start json =
     (if json then '''' else pad_right 11 ''ACTION'' @ '' '' @ pad_right 6 ''SPEED'' @ '' '' @ ''VID:PID  BUS-DEV PORT PATH COMM'' @ [LF])"

definition lifecycle_on_start :: "bool \<Rightarrow> string" where
  "lifecycle_on_start json =
     (if json then '''' else pad_right 10 ''ACTION'' @ '' '' @ pad_right 6 ''SPEED'' @ '' '' @ ''VID:PID  BUS-DEV PORT PATH COMM'' @ [LF])"

definition hub_on_start :: "bool \<Rightarrow> string" where
  "hub_on_start json =
     (if json then '''' else pad_right 11 ''ACTION'' @ '' '' @ pad_right 6 ''SPEED'' @ '' '' @ ''VID:PID  BUS-DEV PORT PATH COMM'' @ [LF])"

text \<open>A session: the program gets the two ids of the filter, then the harness runs; the header is printed when it
  starts polling. The result is the exit code and standard output.\<close>

definition dev_config_of :: "usbtrace_filter \<Rightarrow> dev_config" where
  "dev_config_of f = \<lparr> df_filter_vid = ucast (flt_vid f), df_filter_pid = ucast (flt_pid f) \<rparr>"

definition dev_run :: "(u8 list \<Rightarrow> string \<Rightarrow> string) \<Rightarrow> string \<Rightarrow> bool \<Rightarrow> u8 list run_env \<Rightarrow> int \<times> string" where
  "dev_run handle_event header opened env =
     (if \<not> opened then (1, [])
      else
        let (rc, out, acts) = usbtrace_run handle_event env []
        in (rc, (if OnStart \<in> set acts then header else []) @ out))"

definition enum_run where "enum_run json = dev_run (enum_handle_event json) (enum_on_start json)"
definition power_run where "power_run json = dev_run (power_handle_event json) (power_on_start json)"
definition lifecycle_run where "lifecycle_run json = dev_run (lifecycle_handle_event json) (lifecycle_on_start json)"
definition hub_run where "hub_run json = dev_run (hub_handle_event json) (hub_on_start json)"

end
