(* ===== verification/Dev_Consumer_Props.thy ===== *)
theory Dev_Consumer_Props
  imports Dev_Consumer
begin

text \<open>
  Properties of the device and class consumers: a JSON line is a well-formed object that reads back to the record's
  fields whatever bytes its strings hold, and a session prints one line for each delivered record of its kind.
\<close>

section \<open>Lines\<close>

text \<open>What a reader gets back of a byte string printed through a 33-byte escape buffer.\<close>

definition shown :: "u8 list \<Rightarrow> string" where
  "shown bs = (case json_decode (jesc 33 bs) of Some t \<Rightarrow> t | None \<Rightarrow> [])"

lemma jesc_shown: "jesc 33 bs = escs (shown bs)" "\<exists>k. shown bs = take k (bytes_cstr bs)"
proof -
  obtain k where "jesc 33 bs = escs (take k (bytes_cstr bs))" by (rule jesc_spec[of 33]) simp_all
  moreover from this have "shown bs = take k (bytes_cstr bs)"
    by (simp add: shown_def escs_def decode_escape_all)
  ultimately show "jesc 33 bs = escs (shown bs)" "\<exists>k. shown bs = take k (bytes_cstr bs)" by auto
qed

lemma shown_whole: "length (escs (bytes_cstr bs)) < 32 \<Longrightarrow> shown bs = bytes_cstr bs"
proof -
  assume "length (escs (bytes_cstr bs)) < 32"
  moreover obtain k where "jesc 33 bs = escs (take k (bytes_cstr bs))"
    "length (escs (bytes_cstr bs)) + 1 < 33 \<longrightarrow> take k (bytes_cstr bs) = bytes_cstr bs"
    by (rule jesc_spec[of 33]) simp_all
  ultimately show ?thesis by (simp add: shown_def escs_def decode_escape_all)
qed

lemma plain_names [simp]:
  "plain (step_str s)" "plain (enum_state_str s)" "plain (power_action_str s)" "plain (lifecycle_action_str s)"
  "plain (hub_action_str s)" "plain (usbtrace_speed_str s)" "plain (usbtrace_class_str s)" "plain (xfer_str s)"
  by (simp_all add: step_str_def enum_state_str_def power_action_str_def lifecycle_action_str_def hub_action_str_def
      usbtrace_speed_str_def usbtrace_class_str_def xfer_str_def DQ_def BS_def)

text \<open>A member of a line and the value it stands for.\<close>

lemma members [simp]:
  "plain k \<Longrightarrow> plain s \<Longrightarrow> (k, jstr s) = jmember (k, JS s)"
  "plain k \<Longrightarrow> (k, hex_id w) = jmember (k, JS (''0x'' @ hex04 w))"
  "plain k \<Longrightarrow> (k, fmt_u v) = jmember (k, JN (int (unat v)))"
  "plain k \<Longrightarrow> (k, fmt_d d) = jmember (k, JN (sint d))"
  "plain k \<Longrightarrow> (k, jstr (jesc 33 bs)) = jmember (k, JS (shown bs))"
  by (simp_all add: jmember_def escs_plain hex_id_def fmt_u_render fmt_d_def jesc_shown(1) DQ_def BS_def)

definition dev_vals :: "u8 \<Rightarrow> u16 \<Rightarrow> u16 \<Rightarrow> u16 \<Rightarrow> u16 \<Rightarrow> u8 \<Rightarrow> (string \<times> jval) list" where
  "dev_vals speed vid pid bus dev port =
     [(''speed'', JS (usbtrace_speed_str speed)), (''vid'', JS (''0x'' @ hex04 vid)), (''pid'', JS (''0x'' @ hex04 pid)),
      (''bus'', JN (int (unat bus))), (''dev'', JN (int (unat dev))), (''port'', JN (int (unat port)))]"

definition path_vals :: "u8 list \<Rightarrow> u8 list \<Rightarrow> (string \<times> jval) list" where
  "path_vals path comm = [(''path'', JS (shown path)), (''comm'', JS (shown comm))]"

lemma plain_keys [simp]: "CHR 0x20 \<noteq> DQ"
  by (simp add: DQ_def)

lemma vals: "dev_members s v p b d q = map jmember (dev_vals s v p b d q)" "path_members a c = map jmember (path_vals a c)"
  by (simp_all add: dev_members_def dev_vals_def path_members_def path_vals_def DQ_def BS_def)

lemma json_obj_vals: "ms = map jmember vs \<Longrightarrow> vs \<noteq> [] \<Longrightarrow> json_parse (json_obj ms) = Some vs"
  by (simp add: json_parse_render)

text \<open>A JSON line of the device and class modules is a well-formed object that reads back to the names and
  numbers of the record it was printed from, whatever bytes the device path and the command name contain: of these it
  gives back a prefix, the whole string whenever its escaping fits.\<close>

theorem device_json_reads_back:
  "json_parse (enum_print True e) =
     Some ([(''event'', JS ''enum''), (''step'', JS (step_str (ee_step e))), (''from'', JS (enum_state_str (ee_old_state e))),
        (''to'', JS (enum_state_str (ee_new_state e))), (''status'', JN (sint (ee_status e)))]
      @ dev_vals (ee_speed e) (ee_vid e) (ee_product e) (ee_busnum e) (ee_devnum e) (ee_portnum e)
      @ path_vals (ee_devpath e) (ee_comm e))
   \<and> json_parse (power_print True p) =
     Some ([(''event'', JS ''power''), (''action'', JS (power_action_str (pe_action p)))]
      @ dev_vals (pe_speed p) (pe_vid p) (pe_product p) (pe_busnum p) (pe_devnum p) (pe_portnum p)
      @ path_vals (pe_devpath p) (pe_comm p))
   \<and> json_parse (lifecycle_print True l) =
     Some ([(''event'', JS ''lifecycle''), (''action'', JS (lifecycle_action_str (le_action l)))]
      @ dev_vals (le_speed l) (le_vid l) (le_product l) (le_busnum l) (le_devnum l) (le_portnum l)
      @ [(''reset_resume'', JN (int (unat (le_reset_resume l))))] @ path_vals (le_devpath l) (le_comm l))
   \<and> json_parse (hub_print True h) =
     Some ([(''event'', JS ''hub''), (''action'', JS (hub_action_str (he_action h)))]
      @ dev_vals (he_speed h) (he_vid h) (he_product h) (he_busnum h) (he_devnum h) (he_portnum h)
      @ [(''oc_count'', JN (int (unat (he_oc_count h)))), (''warm'', JN (int (unat (he_warm h))))]
      @ path_vals (he_devpath h) (he_comm h))
   \<and> json_parse (class_print_event True c) =
     Some [(''event'', JS ''class''), (''class'', JS (usbtrace_class_str (ce_klass c))), (''xfer'', JS (xfer_str (ce_xfer_type c))),
       (''ep'', JN (int (unat (ce_ep c)))), (''dir'', JS (if ce_dir_in c \<noteq> 0 then ''in'' else ''out'')),
       (''status'', JN (sint (ce_status c))), (''error_count'', JN (sint (ce_error_count c))),
       (''packets'', JN (int (unat (ce_number_of_packets c)))), (''bytes'', JN (int (unat (ce_actual_length c)))),
       (''start_frame'', JN (sint (ce_start_frame c))), (''vid'', JS (''0x'' @ hex04 (ce_vid c))),
       (''pid'', JS (''0x'' @ hex04 (ce_product c))), (''bus'', JN (int (unat (ce_busnum c)))),
       (''dev'', JN (int (unat (ce_devnum c)))), (''comm'', JS (shown (ce_comm c)))]
   \<and> (\<exists>k. shown bs = take (if length (escs (bytes_cstr bs)) < 32 then length (bytes_cstr bs) else k) (bytes_cstr bs))"
proof (intro conjI)
  show "json_parse (enum_print True e) =
     Some ([(''event'', JS ''enum''), (''step'', JS (step_str (ee_step e))), (''from'', JS (enum_state_str (ee_old_state e))),
        (''to'', JS (enum_state_str (ee_new_state e))), (''status'', JN (sint (ee_status e)))]
      @ dev_vals (ee_speed e) (ee_vid e) (ee_product e) (ee_busnum e) (ee_devnum e) (ee_portnum e)
      @ path_vals (ee_devpath e) (ee_comm e))"
    unfolding enum_print_def if_True by (rule json_obj_vals) (simp_all add: vals DQ_def BS_def)
  show "json_parse (power_print True p) =
     Some ([(''event'', JS ''power''), (''action'', JS (power_action_str (pe_action p)))]
      @ dev_vals (pe_speed p) (pe_vid p) (pe_product p) (pe_busnum p) (pe_devnum p) (pe_portnum p)
      @ path_vals (pe_devpath p) (pe_comm p))"
    unfolding power_print_def if_True by (rule json_obj_vals) (simp_all add: vals DQ_def BS_def)
  show "json_parse (lifecycle_print True l) =
     Some ([(''event'', JS ''lifecycle''), (''action'', JS (lifecycle_action_str (le_action l)))]
      @ dev_vals (le_speed l) (le_vid l) (le_product l) (le_busnum l) (le_devnum l) (le_portnum l)
      @ [(''reset_resume'', JN (int (unat (le_reset_resume l))))] @ path_vals (le_devpath l) (le_comm l))"
    unfolding lifecycle_print_def if_True by (rule json_obj_vals) (simp_all add: vals DQ_def BS_def)
  show "json_parse (hub_print True h) =
     Some ([(''event'', JS ''hub''), (''action'', JS (hub_action_str (he_action h)))]
      @ dev_vals (he_speed h) (he_vid h) (he_product h) (he_busnum h) (he_devnum h) (he_portnum h)
      @ [(''oc_count'', JN (int (unat (he_oc_count h)))), (''warm'', JN (int (unat (he_warm h))))]
      @ path_vals (he_devpath h) (he_comm h))"
    unfolding hub_print_def if_True by (rule json_obj_vals) (simp_all add: vals DQ_def BS_def)
  show "json_parse (class_print_event True c) =
     Some [(''event'', JS ''class''), (''class'', JS (usbtrace_class_str (ce_klass c))), (''xfer'', JS (xfer_str (ce_xfer_type c))),
       (''ep'', JN (int (unat (ce_ep c)))), (''dir'', JS (if ce_dir_in c \<noteq> 0 then ''in'' else ''out'')),
       (''status'', JN (sint (ce_status c))), (''error_count'', JN (sint (ce_error_count c))),
       (''packets'', JN (int (unat (ce_number_of_packets c)))), (''bytes'', JN (int (unat (ce_actual_length c)))),
       (''start_frame'', JN (sint (ce_start_frame c))), (''vid'', JS (''0x'' @ hex04 (ce_vid c))),
       (''pid'', JS (''0x'' @ hex04 (ce_product c))), (''bus'', JN (int (unat (ce_busnum c)))),
       (''dev'', JN (int (unat (ce_devnum c)))), (''comm'', JS (shown (ce_comm c)))]"
    unfolding class_print_event_def if_True by (rule json_obj_vals) (simp_all add: DQ_def BS_def)
  show "\<exists>k. shown bs = take (if length (escs (bytes_cstr bs)) < 32 then length (bytes_cstr bs) else k) (bytes_cstr bs)"
    using jesc_shown(2)[of bs] shown_whole[of bs] by (cases "length (escs (bytes_cstr bs)) < 32") simp_all
qed

section \<open>Sessions\<close>

text \<open>The delivered records of a kind, decoded.\<close>

definition records :: "u32 \<Rightarrow> nat \<Rightarrow> (u8 list \<Rightarrow> 'e) \<Rightarrow> u8 list list \<Rightarrow> 'e list" where
  "records kind sz dec ds = map dec (filter (\<lambda>d. sz \<le> length d \<and> h_kind (dec_hdr d) = kind) ds)"

lemma print_fold:
  assumes "\<And>d out. h d out = (if sz \<le> length d \<and> h_kind (dec_hdr d) = kind then out @ pr (dec d) else out)"
  shows "fold h ds out = out @ concat (map pr (records kind sz dec ds))"
  by (induction ds arbitrary: out) (simp_all add: assms records_def)

lemma dev_session:
  assumes "\<And>d out. h d out = (if sz \<le> length d \<and> h_kind (dec_hdr d) = kind then out @ pr (dec d) else out)"
  shows "dev_run h header opened env =
    (if opened \<and> run_ready env
     then (if list_ex fatal_poll (re_polls env) then 1 else 0, header @ concat (map pr (records kind sz dec (delivered env))))
     else (1, []))"
proof (cases "opened \<and> run_ready env")
  case True
  obtain acts where "usbtrace_run h env [] =
      (if list_ex fatal_poll (re_polls env) then 1 else 0, fold h (delivered env) [], [OnStart] @ acts @ [OnStop])"
    using usbtrace_run_ready[of env h "[]"] True by auto
  then show ?thesis using True print_fold[of h sz kind pr dec, OF assms] by (simp add: dev_run_def)
next
  case False
  then show ?thesis using usbtrace_run_not_ready[of env h "[]"] by (auto simp: dev_run_def)
qed

text \<open>A session of the enum, power, lifecycle or hub module fails with exit code 1 and an empty output when its
  program cannot be set up. Otherwise it prints its header and then exactly one line for each delivered record of the
  module's kind and full size, in order of delivery, and nothing for any other record.\<close>

theorem device_sessions_report:
  "enum_run json opened env =
     (if opened \<and> run_ready env
      then (if list_ex fatal_poll (re_polls env) then 1 else 0,
            enum_on_start json @ concat (map (enum_print json) (records USBTRACE_EVT_ENUM 72 dec_enum_event (delivered env))))
      else (1, []))
   \<and> power_run json opened env =
     (if opened \<and> run_ready env
      then (if list_ex fatal_poll (re_polls env) then 1 else 0,
            power_on_start json @ concat (map (power_print json) (records USBTRACE_EVT_POWER 64 dec_power_rec (delivered env))))
      else (1, []))
   \<and> lifecycle_run json opened env =
     (if opened \<and> run_ready env
      then (if list_ex fatal_poll (re_polls env) then 1 else 0,
            lifecycle_on_start json
              @ concat (map (lifecycle_print json) (records USBTRACE_EVT_LIFECYCLE 64 dec_lifecycle_event (delivered env))))
      else (1, []))
   \<and> hub_run json opened env =
     (if opened \<and> run_ready env
      then (if list_ex fatal_poll (re_polls env) then 1 else 0,
            hub_on_start json @ concat (map (hub_print json) (records USBTRACE_EVT_HUB 72 dec_hub_event (delivered env))))
      else (1, []))"
  unfolding enum_run_def power_run_def lifecycle_run_def hub_run_def
  by (intro conjI; rule dev_session)
    (auto simp: enum_handle_event_def power_handle_event_def lifecycle_handle_event_def hub_handle_event_def)

end
