(* ===== verification/Urb_Text.thy ===== *)
theory Urb_Text
  imports Ut_Float Module_Core Ut_Wire Class_Stream
begin

text \<open>
  The user-space side of the urb module (\<open>modules/urb/urb.c\<close>): the decoder that names a control request from its
  eight setup bytes, the printed lines, the handler, the options and a session.
\<close>

section \<open>Names\<close>

definition setup_le16 :: "u8 list \<Rightarrow> nat \<Rightarrow> nat" where
  "setup_le16 s off = unat (s ! off) + 256 * unat (s ! (off + 1))"

definition std_req_name :: "u8 \<Rightarrow> string option" where
  "std_req_name req =
     map_of [(0x00, ''GET_STATUS''), (0x01, ''CLEAR_FEATURE''), (0x03, ''SET_FEATURE''), (0x05, ''SET_ADDRESS''),
       (0x06, ''GET_DESCRIPTOR''), (0x07, ''SET_DESCRIPTOR''), (0x08, ''GET_CONFIGURATION''), (0x09, ''SET_CONFIGURATION''),
       (0x0a, ''GET_INTERFACE''), (0x0b, ''SET_INTERFACE''), (0x0c, ''SYNCH_FRAME''), (0x30, ''SET_SEL''),
       (0x31, ''SET_ISOCH_DELAY'')] req"

definition desc_type_name :: "nat \<Rightarrow> string option" where
  "desc_type_name dt =
     map_of [(1, ''DEVICE''), (2, ''CONFIG''), (3, ''STRING''), (4, ''INTERFACE''), (5, ''ENDPOINT''),
       (6, ''DEVICE_QUALIFIER''), (7, ''OTHER_SPEED''), (8, ''INTERFACE_POWER''), (9, ''OTG''), (15, ''BOS''), (33, ''HID''),
       (34, ''HID_REPORT'')] dt"

definition feature_name :: "nat \<Rightarrow> nat \<Rightarrow> nat \<Rightarrow> string option" where
  "feature_name type recip value =
     (if type = 0 then
        (if recip = 0 then
           map_of [(1, ''DEVICE_REMOTE_WAKEUP''), (2, ''TEST_MODE''), (48, ''U1_ENABLE''), (49, ''U2_ENABLE''), (50, ''LTM_ENABLE'')] value
         else if recip = 1 \<and> value = 0 then Some ''FUNCTION_SUSPEND''
         else if recip = 2 \<and> value = 0 then Some ''ENDPOINT_HALT''
         else None)
      else if type = 1 \<and> recip = 3 then
        map_of [(1, ''PORT_ENABLE''), (2, ''PORT_SUSPEND''), (4, ''PORT_RESET''), (5, ''PORT_LINK_STATE''), (8, ''PORT_POWER'')] value
      else if type = 1 \<and> recip = 0 then
        (if value = 0 then Some ''C_HUB_LOCAL_POWER'' else if value = 1 then Some ''C_HUB_OVER_CURRENT'' else None)
      else None)"

definition link_state_name :: "nat \<Rightarrow> string option" where
  "link_state_name wIndex =
     (let ls = wIndex div 256 mod 4 in
      if ls = 0 then Some ''U0'' else if ls = 1 then Some ''U1'' else if ls = 2 then Some ''U2'' else if ls = 3 then Some ''U3'' else None)"

section \<open>The request text\<close>

text \<open>\<open>"%02x"\<close>\<close>

definition hex02 :: "u8 \<Rightarrow> string" where
  "hex02 w = (let s = show_base 16 (unat w) in replicate (2 - length s) CHR ''0'' @ s)"

text \<open>The name of a request, by type and recipient.\<close>

definition req_name :: "u8 \<Rightarrow> nat \<Rightarrow> nat \<Rightarrow> string option" where
  "req_name req type recip =
     (if type = 1 \<and> (req = 0x03 \<or> req = 0x01) then Some (if req = 0x03 then ''SET_FEATURE'' else ''CLEAR_FEATURE'')
      else if type = 1 \<and> req = 0x00 \<and> recip = 3 then Some ''GET_PORT_STATUS''
      else if type = 1 \<and> recip = 1 \<and> req = 0x09 then Some ''SET_REPORT''
      else if type = 1 \<and> recip = 1 \<and> req = 0x0a then Some ''SET_IDLE''
      else if type = 2 then Some ''VENDOR''
      else if type = 0 then std_req_name req else None)"

text \<open>What \<open>format_setup\<close> passes to \<open>snprintf\<close>, before it is cut to the buffer.\<close>

definition setup_text :: "u8 list \<Rightarrow> string" where
  "setup_text s =
     (let rt = s ! 0; req = s ! 1; val = setup_le16 s 2; index = setup_le16 s 4; len = setup_le16 s 6;
          type = unat rt div 32 mod 4; recip = unat rt mod 32
      in case req_name req type recip of
           None \<Rightarrow> ''rt=0x'' @ hex02 rt @ '' req=0x'' @ hex02 req @ '' val='' @ show_dec val @ '' idx='' @ show_dec index
                     @ '' len='' @ show_dec len
         | Some rname \<Rightarrow>
             rname @
             (if req = 0x03 \<or> req = 0x01 then
                (case feature_name type recip val of
                   None \<Rightarrow> '' val='' @ show_dec val @ '' idx='' @ show_dec index
                 | Some fname \<Rightarrow>
                     if val = 5 \<and> type = 1 \<and> recip = 3 then
                       (case link_state_name index of
                          Some ls \<Rightarrow> '' '' @ fname @ '' '' @ ls @ '' port'' @ show_dec (index mod 256)
                        | None \<Rightarrow> '' '' @ fname @ '' port'' @ show_dec (index mod 256))
                     else if recip = 1 \<and> val = 0 then
                       '' '' @ fname @ (if index div 256 mod 2 = 1 then ''+LP'' else '''')
                         @ (if index div 512 mod 2 = 1 then ''+RW'' else '''') @ '' iface'' @ show_dec (index mod 256)
                     else '' '' @ fname)
              else if type = 0 \<and> (req = 0x06 \<or> req = 0x07) then
                (case desc_type_name (val div 256) of
                   Some dname \<Rightarrow> '' '' @ dname
                 | None \<Rightarrow> '' dt='' @ show_dec (val div 256))
              else if type = 0 \<and> req = 0x09 then '' '' @ show_dec val
              else if type = 0 \<and> req = 0x0b then '' iface'' @ show_dec index @ '' alt'' @ show_dec val
              else if type = 0 \<and> req = 0x05 then '' '' @ show_dec val
              else if req = 0x00 \<and> recip = 3 then '' port'' @ show_dec index
              else if req = 0x00 then '' recip='' @ show_dec recip
              else '' val='' @ show_dec val @ '' idx='' @ show_dec index @ '' len='' @ show_dec len))"

definition format_setup :: "u8 list \<Rightarrow> nat \<Rightarrow> string" where
  "format_setup s n = snprintf_s n (setup_text s)"

section \<open>Printing and sessions\<close>

definition request_text :: "urb_event \<Rightarrow> string" where
  "request_text e = (if ue_has_setup e \<noteq> 0 then format_setup (ue_setup e) 96 else '''')"

text \<open>\<open>"%.1f"\<close> of \<open>latency_ns / 1000.0\<close>\<close>

definition latency_us :: "u64 \<Rightarrow> dbl" where
  "latency_us ns = d_quot (unat ns) 1000"

definition urb_print_text :: "urb_event \<Rightarrow> string" where
  "urb_print_text e =
     (let req = request_text e; dir = (if ue_dir_in e \<noteq> 0 then ''<'' else ''>'');
          r = pad_right 36 (if req \<noteq> [] then req else ''-'');
          dev = hex04 (ue_vid e) @ '':'' @ hex04 (ue_product e) @ '' '' @ fmt_u (ue_busnum e) @ ''-'' @ fmt_u (ue_devnum e) @ '' ''
                  @ bytes_cstr (ue_comm e) @ [LF]
      in if ue_is_submit e \<noteq> 0
         then pad_right 6 ''SUBMIT'' @ '' '' @ pad_right 4 (xfer_str (ue_xfer_type e)) @ '' ep'' @ pad_right 2 (fmt_u (ue_ep e))
                @ '' '' @ dir @ '' '' @ pad_left 5 (fmt_u (ue_length e)) @ '' B            '' @ r @ '' '' @ dev
         else pad_right 6 ''CMPLT'' @ '' '' @ pad_right 4 (xfer_str (ue_xfer_type e)) @ '' ep'' @ pad_right 2 (fmt_u (ue_ep e))
                @ '' '' @ dir @ '' '' @ pad_left 5 (fmt_u (ue_actual e)) @ ''/'' @ pad_right 5 (fmt_u (ue_length e))
                @ '' st='' @ pad_right 3 (fmt_d (ue_status e)) @ '' '' @ pad_left 6 (fmt_f 1 (latency_us (ue_latency_ns e))) @ ''us '' @ r @ '' '' @ dev)"

definition urb_print_json :: "urb_event \<Rightarrow> string" where
  "urb_print_json e =
     json_obj ([(''event'', jstr (if ue_is_submit e \<noteq> 0 then ''submit'' else ''complete'')), (''type'', jstr (xfer_str (ue_xfer_type e))),
        (''ep'', fmt_u (ue_ep e)), (''dir'', jstr (if ue_dir_in e \<noteq> 0 then ''in'' else ''out'')), (''actual'', fmt_u (ue_actual e)),
        (''length'', fmt_u (ue_length e)), (''status'', fmt_d (ue_status e)), (''latency_us'', fmt_f 1 (latency_us (ue_latency_ns e))),
        (''vid'', jstr (''0x'' @ hex04 (ue_vid e))), (''pid'', jstr (''0x'' @ hex04 (ue_product e))), (''bus'', fmt_u (ue_busnum e)),
        (''dev'', fmt_u (ue_devnum e)), (''comm'', jstr (jesc 33 (ue_comm e)))]
      @ (if ue_has_setup e \<noteq> 0
         then [(''bmRequestType'', jstr (''0x'' @ hex02 (ue_setup e ! 0))), (''bRequest'', fmt_u (ue_setup e ! 1)),
               (''wValue'', show_dec (setup_le16 (ue_setup e) 2)), (''wIndex'', show_dec (setup_le16 (ue_setup e) 4)),
               (''wLength'', show_dec (setup_le16 (ue_setup e) 6)),
               (''request'', jstr (jesc_str 193 (request_text e)))]
         else []))"

definition urb_handle_event :: "bool \<Rightarrow> u8 list \<Rightarrow> string \<Rightarrow> string" where
  "urb_handle_event json data out =
     (if length data < 16 then out
      else if h_kind (dec_hdr data) \<noteq> USBTRACE_EVT_URB \<or> length data < 80 then out
      else out @ (if json then urb_print_json (dec_urb_event data) else urb_print_text (dec_urb_event data)))"

record urb_opts =
  uo_filt :: usbtrace_filter
  uo_emit_submit :: bool
  uo_ctrl_only :: bool

fun urb_parse_args :: "(int \<times> string) list \<Rightarrow> urb_opts \<Rightarrow> int \<times> urb_opts" where
  "urb_parse_args [] o' = (0, o')"
| "urb_parse_args ((c, optarg) # opts) o' =
     (let (used, filt') = usbtrace_filter_getopt c optarg (uo_filt o') in
      if used then urb_parse_args opts (o'\<lparr> uo_filt := filt' \<rparr>)
      else if c = of_char CHR ''s'' then urb_parse_args opts (o'\<lparr> uo_emit_submit := True \<rparr>)
      else if c = of_char CHR ''c'' then urb_parse_args opts (o'\<lparr> uo_ctrl_only := True \<rparr>)
      else if c = of_char CHR ''h'' then (1, o')
      else (- 1, o'))"

definition urb_on_start :: "bool \<Rightarrow> string" where
  "urb_on_start json =
     (if json then '''' else pad_right 6 ''EVENT'' @ '' '' @ pad_right 4 ''TYPE'' @ '' '' @ pad_right 4 ''EP'' @ '' D BYTES ... REQUEST'' @ [LF])"

text \<open>Exit code and standard output.\<close>

definition urb_run :: "bool \<Rightarrow> bool \<Rightarrow> u8 list run_env \<Rightarrow> int \<times> string" where
  "urb_run json opened env =
     (if \<not> opened then (1, [])
      else
        let (rc, out, acts) = usbtrace_run (urb_handle_event json) env []
        in (rc, (if OnStart \<in> set acts then urb_on_start json else []) @ out))"

end
