(* ===== verification/Urb_Text_Props.thy ===== *)
theory Urb_Text_Props
  imports Urb_Text
begin

text \<open>
  Properties of the request decoder of the urb module: its text always fits the buffer it is printed into and needs
  no JSON escaping.
\<close>

section \<open>Lengths\<close>

lemma length_show_base: "n < 10 ^ Suc k \<Longrightarrow> length (show_base 10 n) \<le> Suc k"
proof (induction k arbitrary: n)
  case 0
  then show ?case by (subst show_base_10) simp
next
  case (Suc k)
  show ?case
  proof (cases "n < 10")
    case False
    then have "n div 10 < 10 ^ Suc k" using Suc.prems by (simp add: less_mult_imp_div_less)
    from Suc.IH[OF this] show ?thesis using False by (subst show_base_10) simp
  qed (subst show_base_10, simp)
qed

lemma length_dec16: "n < 65536 \<Longrightarrow> length (show_dec n) \<le> 5"
  using length_show_base[of n 4] by (simp add: show_dec_def)

lemma length_dec8: "n < 256 \<Longrightarrow> length (show_dec n) \<le> 3"
  using length_show_base[of n 2] by (simp add: show_dec_def)

lemma show_base_16: "n < 256 \<Longrightarrow> length (show_base 16 n) \<le> 2"
proof -
  assume "n < 256"
  then have "n div 16 < 16" by (simp add: less_mult_imp_div_less)
  then show ?thesis by (subst show_base.simps) (subst show_base.simps, simp)
qed

lemma unat_u8: "unat (b :: u8) < 256"
  using unsigned_less[of b] by simp

lemma setup_le16_bound: "setup_le16 s k < 65536"
  using unat_u8[of "s ! k"] unat_u8[of "s ! (k + 1)"] by (simp add: setup_le16_def)

section \<open>Names are short and plain\<close>

definition name_ok :: "nat \<Rightarrow> string option \<Rightarrow> bool" where
  "name_ok n o' = (case o' of None \<Rightarrow> True | Some s \<Rightarrow> length s \<le> n \<and> plain s)"

lemma map_of_name_ok: "list_all (\<lambda>(k, s). length s \<le> n \<and> plain s) xs \<Longrightarrow> name_ok n (map_of xs k)"
  by (induction xs) (auto simp: name_ok_def)

lemmas plain_lit = DQ_def BS_def

lemma names_ok:
  "name_ok 17 (std_req_name r)" "name_ok 17 (req_name r t p)" "name_ok 20 (feature_name t p v)"
  "name_ok 16 (desc_type_name d)" "name_ok 2 (link_state_name i)"
proof -
  show s: "name_ok 17 (std_req_name r)"
    unfolding std_req_name_def by (rule map_of_name_ok) (simp add: plain_lit)
  then show "name_ok 17 (req_name r t p)" by (simp add: req_name_def name_ok_def plain_lit)
  have "name_ok 20 (map_of [(1, ''DEVICE_REMOTE_WAKEUP''), (2, ''TEST_MODE''), (48, ''U1_ENABLE''), (49, ''U2_ENABLE''), (50, ''LTM_ENABLE'')] v)"
    "name_ok 20 (map_of [(1, ''PORT_ENABLE''), (2, ''PORT_SUSPEND''), (4, ''PORT_RESET''), (5, ''PORT_LINK_STATE''), (8, ''PORT_POWER'')] v)"
    by (rule map_of_name_ok; simp add: plain_lit)+
  then show "name_ok 20 (feature_name t p v)" unfolding feature_name_def by (simp add: name_ok_def plain_lit)
  show "name_ok 16 (desc_type_name d)"
    unfolding desc_type_name_def by (rule map_of_name_ok) (simp add: plain_lit)
  show "name_ok 2 (link_state_name i)" by (simp add: link_state_name_def name_ok_def plain_lit Let_def)
qed

lemma name_okD: "name_ok n o' \<Longrightarrow> o' = Some s \<Longrightarrow> length s \<le> n \<and> plain s"
  by (simp add: name_ok_def)

lemma hex02_ok: "length (hex02 w) = 2" "plain (hex02 w)"
proof -
  have "length (show_base 16 (unat w)) \<le> 2" using unat_u8[of w] by (intro show_base_16) simp
  then show "length (hex02 w) = 2" by (simp add: hex02_def Let_def)
  have "plain (replicate k CHR ''0'')" for k by (induction k) (simp_all add: plain_lit)
  then show "plain (hex02 w)" by (simp add: hex02_def Let_def show_base_plain)
qed

section \<open>The text\<close>

lemma setup_text_ok: "length (setup_text s) < 96 \<and> plain (setup_text s)"
proof -
  define rt req v i l where "rt = s ! 0" and "req = s ! 1" and "v = setup_le16 s 2" and "i = setup_le16 s 4" and "l = setup_le16 s 6"
  define t p where "t = unat rt div 32 mod 4" and "p = unat rt mod 32"
  have b: "length (show_dec v) \<le> 5" "length (show_dec i) \<le> 5" "length (show_dec l) \<le> 5"
    using setup_le16_bound by (simp_all add: v_def i_def l_def length_dec16)
  have b8: "length (show_dec (i mod 256)) \<le> 3" "length (show_dec (v div 256)) \<le> 5" "length (show_dec p) \<le> 3"
    using setup_le16_bound[of s 2] by (simp_all add: length_dec8 length_dec16 p_def v_def)
  note S = setup_text_def Let_def rt_def[symmetric] req_def[symmetric] v_def[symmetric] i_def[symmetric] l_def[symmetric]
    t_def[symmetric] p_def[symmetric]
  show ?thesis
  proof (cases "req_name req t p")
    case None
    then show ?thesis using b unfolding S by (simp add: hex02_ok plain_lit)
  next
    case (Some rname)
    note rn = name_okD[OF names_ok(2) Some]
    consider (feat) "req = 0x03 \<or> req = 0x01" | (desc) "\<not> (req = 0x03 \<or> req = 0x01)" "t = 0 \<and> (req = 0x06 \<or> req = 0x07)"
      | (other) "\<not> (req = 0x03 \<or> req = 0x01)" "\<not> (t = 0 \<and> (req = 0x06 \<or> req = 0x07))" by blast
    then show ?thesis
    proof cases
      case feat
      show ?thesis
      proof (cases "feature_name t p v")
        case None
        then show ?thesis using b rn feat unfolding S Some by (simp add: plain_lit)
      next
        case F: (Some fname)
        note fn = name_okD[OF names_ok(3) F]
        show ?thesis
          using b b8 rn fn feat name_okD[OF names_ok(5), of i] unfolding S Some option.case F
          by (cases "link_state_name i") (auto simp: plain_lit)
      qed
    next
      case desc
      then show ?thesis
        using b b8 rn name_okD[OF names_ok(4), of "v div 256"] unfolding S Some
        by (cases "desc_type_name (v div 256)") (auto simp: plain_lit)
    next
      case other
      then show ?thesis using b b8 rn unfolding S Some option.case if_not_P[OF other(1)] if_not_P[OF other(2)]
        by (simp add: plain_lit)
    qed
  qed
qed

lemma jesc_plain:
  assumes "plain s" "length s + 1 < n"
  shows "jesc_str n s = s"
proof -
  have "CHR 0x00 \<notin> set s" using assms(1) by (auto simp: plain_def list_all_iff)
  then have "jesc_str n s = escape_loop n s []" using assms(2) by (simp add: jesc_str_def usbtrace_json_escape_def)
  moreover obtain k where "escape_loop n s [] = escs (take k s)" "length (escs s) + 1 < n \<longrightarrow> k = length s"
    using escape_loop_prefix[of s n "[]"] unfolding escs_def by auto
  ultimately show ?thesis using assms by (simp add: escs_plain)
qed

text \<open>The text naming a control request is never cut by its 96-byte buffer, and as it needs no escaping the JSON
  line carries the same text. For a hub request that sets a port's link state the text shows the state modulo
  four: the states 4 (SS.Disabled), 5 (Rx.Detect), ... are shown as U0, U1, ...\<close>

theorem urb_request_text:
  "format_setup s 96 = setup_text s \<and> jesc_str 193 (format_setup s 96) = setup_text s
   \<and> format_setup [0x23, 0x03, 5, 0, port, ls, 0, 0] 96
       = ''SET_FEATURE PORT_LINK_STATE U'' @ show_dec (unat ls mod 4) @ '' port'' @ show_dec (unat port)"
proof -
  have cut: "format_setup s 96 = setup_text s" for s using setup_text_ok[of s] by (simp add: format_setup_def snprintf_s_def)
  have "jesc_str 193 (setup_text s) = setup_text s" using setup_text_ok[of s] by (intro jesc_plain) auto
  moreover have "setup_text [0x23, 0x03, 5, 0, port, ls, 0, 0]
      = ''SET_FEATURE PORT_LINK_STATE U'' @ show_dec (unat ls mod 4) @ '' port'' @ show_dec (unat port)"
  proof -
    have idx: "setup_le16 [0x23, 0x03, 5, 0, port, ls, 0, 0] 4 = unat port + 256 * unat ls"
      "setup_le16 [0x23, 0x03, 5, 0, port, ls, 0, 0] 2 = 5" by (simp_all add: setup_le16_def)
    have port: "unat port < 256" by (rule unat_u8)
    then have parts: "(unat port + 256 * unat ls) mod 256 = unat port" "(unat port + 256 * unat ls) div 256 = unat ls" by simp_all
    have "unat ls mod 4 < 4" by simp
    then consider "unat ls mod 4 = 0" | "unat ls mod 4 = 1" | "unat ls mod 4 = 2" | "unat ls mod 4 = 3" by linarith
    then have "link_state_name (unat port + 256 * unat ls) = Some (''U'' @ show_dec (unat ls mod 4))"
      by cases (simp_all add: link_state_name_def parts show_dec_def show_base_10 digit_char_def)
    then show ?thesis
      by (simp add: setup_text_def Let_def idx parts port req_name_def feature_name_def)
  qed
  ultimately show ?thesis by (simp add: cut)
qed

end
