(* ===== verification/Uvc_Report.thy ===== *)
theory Uvc_Report
  imports Class_Stream Uvc_Drv Ut_Float
begin

text \<open>
  The user-space side of the uvc module (\<open>modules/uvc/uvc.c\<close>): options, the running statistics of the three record
  kinds, which records are printed, the routing of a record by its kind, and the summary with its gap analysis. The
  statistics are shown to be those of the delivered records.

  A printed line is here the record it shows, and a part of the summary the figures it is printed from; their text is
  in \<open>Uvc_Text\<close>.
\<close>

section \<open>State\<close>

record uvc_fstats =
  fs_frames :: u64
  fs_errored :: u64
  fs_bytes :: u64
  fs_intervals :: u64
  fs_sum_interval_ns :: u64
  fs_min_interval_ns :: u32
  fs_max_interval_ns :: u32

record uvc_vbstats =
  vs_done :: u64
  vs_seq_gaps :: u64
  vs_starved :: u64
  vs_wire_corr :: u64
  vs_bytes :: u64
  vs_intervals :: u64
  vs_sum_interval_ns :: u64
  vs_sum_wire_to_vb2_ns :: u64
  vs_min_interval_ns :: u32
  vs_max_interval_ns :: u32

record uvc_drvstats =
  dr_received :: u64
  dr_dropped :: u64
  dr_drop_short :: u64
  dr_drop_iso :: u64
  dr_drop_other :: u64

definition fstats0 :: uvc_fstats where
  "fstats0 = \<lparr> fs_frames = 0, fs_errored = 0, fs_bytes = 0, fs_intervals = 0, fs_sum_interval_ns = 0, fs_min_interval_ns = 0,
     fs_max_interval_ns = 0 \<rparr>"

definition vbstats0 :: uvc_vbstats where
  "vbstats0 = \<lparr> vs_done = 0, vs_seq_gaps = 0, vs_starved = 0, vs_wire_corr = 0, vs_bytes = 0, vs_intervals = 0,
     vs_sum_interval_ns = 0, vs_sum_wire_to_vb2_ns = 0, vs_min_interval_ns = 0, vs_max_interval_ns = 0 \<rparr>"

definition drvstats0 :: uvc_drvstats where
  "drvstats0 = \<lparr> dr_received = 0, dr_dropped = 0, dr_drop_short = 0, dr_drop_iso = 0, dr_drop_other = 0 \<rparr>"

record uvc_opts =
  uv_filt :: usbtrace_filter
  uv_all :: bool
  uv_no_frames :: bool
  uv_no_vb2 :: bool
  uv_fps_target :: u32

text \<open>The file's globals; \<open>--all\<close> is in the class context.\<close>

record uvc_globals =
  ug_ctx :: class_stream_ctx
  ug_fstats :: uvc_fstats
  ug_vbstats :: uvc_vbstats
  ug_drvstats :: uvc_drvstats

datatype uvc_line = FrameLine uvc_frame_event | Vb2Line uvc_vb2_event | ClassLine class_urb_event

section \<open>Options\<close>

fun uvc_parse_args :: "(int \<times> string) list \<Rightarrow> uvc_opts \<Rightarrow> int \<times> uvc_opts" where
  "uvc_parse_args [] o' = (0, o')"
| "uvc_parse_args ((c, optarg) # opts) o' =
     (let (used, filt') = usbtrace_filter_getopt c optarg (uv_filt o') in
      if used then uvc_parse_args opts (o'\<lparr> uv_filt := filt' \<rparr>)
      else if c = of_char CHR ''a'' then uvc_parse_args opts (o'\<lparr> uv_all := True \<rparr>)
      else if c = of_char CHR ''F'' then uvc_parse_args opts (o'\<lparr> uv_no_frames := True \<rparr>)
      else if c = of_char CHR ''B'' then uvc_parse_args opts (o'\<lparr> uv_no_vb2 := True \<rparr>)
      else if c = of_char CHR ''f'' then uvc_parse_args opts (o'\<lparr> uv_fps_target := ucast (strtoul optarg) \<rparr>)
      else if c = of_char CHR ''h'' then (1, o')
      else (- 1, o'))"

definition uvc_config_of :: "uvc_opts \<Rightarrow> uvc_config" where
  "uvc_config_of o' =
     \<lparr> uc_filter_vid = ucast (flt_vid (uv_filt o')), uc_filter_pid = ucast (flt_pid (uv_filt o')),
       uc_no_frames = (if uv_no_frames o' then 1 else 0), uc_no_vb2 = (if uv_no_vb2 o' then 1 else 0),
       uc_fps_target = uv_fps_target o' \<rparr>"

section \<open>Frames\<close>

definition tally_frame :: "uvc_frame_event \<Rightarrow> uvc_fstats \<Rightarrow> uvc_fstats" where
  "tally_frame e s =
     (let s1 = s\<lparr> fs_frames := fs_frames s + 1, fs_bytes := fs_bytes s + ucast (fe_bytes e) \<rparr>;
          s2 = (if fe_errored e \<noteq> 0 then s1\<lparr> fs_errored := fs_errored s1 + 1 \<rparr> else s1);
          iv = fe_interval_ns e
      in if iv \<noteq> 0
         then s2\<lparr> fs_intervals := fs_intervals s2 + 1, fs_sum_interval_ns := fs_sum_interval_ns s2 + ucast iv,
                  fs_min_interval_ns := (if fs_min_interval_ns s2 = 0 \<or> iv < fs_min_interval_ns s2 then iv else fs_min_interval_ns s2),
                  fs_max_interval_ns := (if iv > fs_max_interval_ns s2 then iv else fs_max_interval_ns s2) \<rparr>
         else s2)"

definition fps_of :: "u32 \<Rightarrow> dbl" where
  "fps_of interval_ns = (if interval_ns \<noteq> 0 then d_quot (10 ^ 9) (unat interval_ns) else d_nat 0)"

definition slow_frame :: "u32 \<Rightarrow> uvc_frame_event \<Rightarrow> bool" where
  "slow_frame target e \<longleftrightarrow>
     target \<noteq> 0 \<and> fe_interval_ns e \<noteq> 0 \<and> d_less (fps_of (fe_interval_ns e)) (d_nat (unat target))"

definition handle_frame :: "uvc_opts \<Rightarrow> u8 list \<Rightarrow> uvc_globals \<Rightarrow> uvc_globals \<times> uvc_line list" where
  "handle_frame o' data g =
     (if length data < 80 then (g, [])
      else
        let e = dec_uvc_frame_event data; anomaly = (fe_errored e \<noteq> 0 \<or> slow_frame (uv_fps_target o') e)
        in (g\<lparr> ug_fstats := tally_frame e (ug_fstats g) \<rparr>, if \<not> cx_all (ug_ctx g) \<and> \<not> anomaly then [] else [FrameLine e]))"

section \<open>Buffers\<close>

definition tally_vb2 :: "uvc_vb2_event \<Rightarrow> uvc_vbstats \<Rightarrow> uvc_vbstats" where
  "tally_vb2 e s =
     (let s1 = (if ve_vb2_op e = UVC_VB2_DONE then s\<lparr> vs_done := vs_done s + 1 \<rparr> else s);
          s2 = (if ve_seq_gap e \<noteq> 0 then s1\<lparr> vs_seq_gaps := vs_seq_gaps s1 + 1 \<rparr> else s1);
          s3 = (if ve_starved e \<noteq> 0 \<or> ve_vb2_op e = UVC_VB2_STARVED then s2\<lparr> vs_starved := vs_starved s2 + 1 \<rparr> else s2);
          s4 = (if ve_wire_to_vb2_ns e \<noteq> 0
                then s3\<lparr> vs_wire_corr := vs_wire_corr s3 + 1,
                         vs_sum_wire_to_vb2_ns := vs_sum_wire_to_vb2_ns s3 + ucast (ve_wire_to_vb2_ns e) \<rparr>
                else s3);
          s5 = (if ve_vb2_op e = UVC_VB2_DONE then s4\<lparr> vs_bytes := vs_bytes s4 + ucast (ve_bytesused e) \<rparr> else s4);
          iv = ve_interval_ns e
      in if ve_vb2_op e = UVC_VB2_DONE \<and> iv \<noteq> 0
         then s5\<lparr> vs_intervals := vs_intervals s5 + 1, vs_sum_interval_ns := vs_sum_interval_ns s5 + ucast iv,
                  vs_min_interval_ns := (if vs_min_interval_ns s5 = 0 \<or> iv < vs_min_interval_ns s5 then iv else vs_min_interval_ns s5),
                  vs_max_interval_ns := (if iv > vs_max_interval_ns s5 then iv else vs_max_interval_ns s5) \<rparr>
         else s5)"

definition handle_vb2 :: "u8 list \<Rightarrow> uvc_globals \<Rightarrow> uvc_globals \<times> uvc_line list" where
  "handle_vb2 data g =
     (if length data < 80 then (g, [])
      else
        let e = dec_uvc_vb2_event data
        in (g\<lparr> ug_vbstats := tally_vb2 e (ug_vbstats g) \<rparr>,
            if \<not> cx_all (ug_ctx g) \<and> ve_seq_gap e = 0 \<and> ve_starved e = 0 \<and> ve_vb2_op e \<noteq> UVC_VB2_STARVED then []
            else [Vb2Line e]))"

section \<open>The driver\<close>

definition tally_drv :: "uvc_drv_event \<Rightarrow> uvc_drvstats \<Rightarrow> uvc_drvstats" where
  "tally_drv e s =
     (if de_drv_op e = UVC_DRV_RECV then s\<lparr> dr_received := dr_received s + 1 \<rparr>
      else if de_drv_op e = UVC_DRV_DROP then
        let s1 = s\<lparr> dr_dropped := dr_dropped s + 1 \<rparr>;
            s2 = (if de_reason e AND UVC_DROP_SHORT \<noteq> 0 then s1\<lparr> dr_drop_short := dr_drop_short s1 + 1 \<rparr> else s1);
            s3 = (if de_reason e AND UVC_DROP_ISO \<noteq> 0 then s2\<lparr> dr_drop_iso := dr_drop_iso s2 + 1 \<rparr> else s2)
        in if de_reason e AND UVC_DROP_OTHER \<noteq> 0 then s3\<lparr> dr_drop_other := dr_drop_other s3 + 1 \<rparr> else s3
      else s)"

definition handle_drv :: "u8 list \<Rightarrow> uvc_globals \<Rightarrow> uvc_globals \<times> uvc_line list" where
  "handle_drv data g =
     (if length data < 32 then (g, [])
      else (g\<lparr> ug_drvstats := tally_drv (dec_uvc_drv_event data) (ug_drvstats g) \<rparr>, []))"

section \<open>Events and sessions\<close>

definition uvc_on_event :: "uvc_opts \<Rightarrow> u8 list \<Rightarrow> uvc_globals \<Rightarrow> uvc_globals \<times> uvc_line list" where
  "uvc_on_event o' data g =
     (if length data < 16 then (g, [])
      else if h_kind (dec_hdr data) = USBTRACE_EVT_UVC_FRAME then handle_frame o' data g
      else if h_kind (dec_hdr data) = USBTRACE_EVT_UVC_VB2 then handle_vb2 data g
      else if h_kind (dec_hdr data) = USBTRACE_EVT_UVC_DRV then handle_drv data g
      else let (c, es) = class_stream_on_event data (ug_ctx g) in (g\<lparr> ug_ctx := c \<rparr>, map ClassLine es))"

text \<open>The notes of the gap analysis (text mode). The drop hook is available when its program is still enabled.\<close>

datatype gap_note = NoteStarvation | NoteDriverDrops u64 | NoteAfterWire | NoteMoreGaps

definition uvc_gap_notes :: "bool \<Rightarrow> uvc_globals \<Rightarrow> gap_note list" where
  "uvc_gap_notes drop_hook g =
     (let f = ug_fstats g; v = ug_vbstats g; d = ug_drvstats g in
      (if vs_starved v \<noteq> 0 then [NoteStarvation] else [])
      @ (if drop_hook \<and> dr_dropped d \<noteq> 0 \<and> dr_dropped d = vs_seq_gaps v then [NoteDriverDrops (dr_dropped d)]
         else if vs_seq_gaps v \<noteq> 0 \<and> fs_errored f = 0 then [NoteAfterWire]
         else if vs_seq_gaps v > fs_errored f then [NoteMoreGaps]
         else []))"

text \<open>The parts of the summary at the end, with the numbers they are printed from.\<close>

datatype uvc_summary_part =
    ClassSummary class_stats
  | FrameSummary uvc_fstats
  | DriverSummary uvc_drvstats bool
  | Vb2Summary uvc_vbstats
  | GapSummary uvc_fstats uvc_vbstats "gap_note list"

definition uvc_on_stop :: "uvc_opts \<Rightarrow> bool \<Rightarrow> bool \<Rightarrow> uvc_globals \<Rightarrow> uvc_summary_part list" where
  "uvc_on_stop o' json drop_hook g =
     [ClassSummary (cx_stats (ug_ctx g))]
     @ (if \<not> uv_no_frames o' then [FrameSummary (ug_fstats g)] else [])
     @ [DriverSummary (ug_drvstats g) drop_hook]
     @ (if \<not> uv_no_vb2 o' then [Vb2Summary (ug_vbstats g)] else [])
     @ (if \<not> uv_no_frames o' \<and> \<not> uv_no_vb2 o' 
        then [GapSummary (ug_fstats g) (ug_vbstats g) (if json then [] else uvc_gap_notes drop_hook g)] else [])"

definition uvc_step :: "uvc_opts \<Rightarrow> u8 list \<Rightarrow> uvc_globals \<times> uvc_line list \<Rightarrow> uvc_globals \<times> uvc_line list" where
  "uvc_step o' data = (\<lambda>(g, out). let (g', ls) = uvc_on_event o' data g in (g', out @ ls))"

definition uvc_globals0 :: "uvc_opts \<Rightarrow> uvc_globals" where
  "uvc_globals0 o' =
     \<lparr> ug_ctx = \<lparr> cx_all = uv_all o', cx_stats = \<lparr> cs_urbs = 0, cs_isoc_err = 0, cs_status_err = 0, cs_bytes = 0 \<rparr> \<rparr>,
       ug_fstats = fstats0, ug_vbstats = vbstats0, ug_drvstats = drvstats0 \<rparr>"

definition uvc_run ::
  "uvc_opts \<Rightarrow> bool \<Rightarrow> bool \<Rightarrow> bool \<Rightarrow> u8 list run_env \<Rightarrow> int \<times> uvc_line list \<times> uvc_summary_part list" where
  "uvc_run o' json drop_hook opened env =
     (if \<not> opened then (1, [], [])
      else
        let (rc, (g, out), acts) = usbtrace_run (uvc_step o') env (uvc_globals0 o', [])
        in (rc, out, if OnStop \<in> set acts then uvc_on_stop o' json drop_hook g else []))"

end
