(* ===== verification/Uvc_Report_Props.thy ===== *)
theory Uvc_Report_Props
  imports Uvc_Report
begin

text \<open>
  The statistics of a uvc session are those of the delivered records, kind by kind, and its printed lines are the
  delivered records that qualify, in order.
\<close>

section \<open>Closed forms of the tallies\<close>

definition ivs_min :: "u32 list \<Rightarrow> u32" where "ivs_min xs = (if xs = [] then 0 else Min (set xs))"
definition ivs_max :: "u32 list \<Rightarrow> u32" where "ivs_max xs = (if xs = [] then 0 else Max (set xs))"

definition frame_ivs :: "uvc_frame_event list \<Rightarrow> u32 list" where
  "frame_ivs es = filter (\<lambda>iv. iv \<noteq> 0) (map fe_interval_ns es)"

definition done_ivs :: "uvc_vb2_event list \<Rightarrow> u32 list" where
  "done_ivs es = filter (\<lambda>iv. iv \<noteq> 0) (map ve_interval_ns (filter (\<lambda>e. ve_vb2_op e = UVC_VB2_DONE) es))"

definition count :: "('e \<Rightarrow> bool) \<Rightarrow> 'e list \<Rightarrow> u64" where
  "count P es = of_nat (length (filter P es))"

definition total :: "u32 list \<Rightarrow> u64" where
  "total xs = sum_list (map ucast xs)"

definition frame_totals :: "uvc_frame_event list \<Rightarrow> uvc_fstats" where
  "frame_totals es =
     \<lparr> fs_frames = of_nat (length es), fs_errored = count (\<lambda>e. fe_errored e \<noteq> 0) es, fs_bytes = total (map fe_bytes es),
       fs_intervals = of_nat (length (frame_ivs es)), fs_sum_interval_ns = total (frame_ivs es),
       fs_min_interval_ns = ivs_min (frame_ivs es), fs_max_interval_ns = ivs_max (frame_ivs es) \<rparr>"

definition vb2_totals :: "uvc_vb2_event list \<Rightarrow> uvc_vbstats" where
  "vb2_totals es =
     (let fin = filter (\<lambda>e. ve_vb2_op e = UVC_VB2_DONE) es;
          corr = filter (\<lambda>x. x \<noteq> 0) (map ve_wire_to_vb2_ns es)
      in \<lparr> vs_done = of_nat (length fin), vs_seq_gaps = count (\<lambda>e. ve_seq_gap e \<noteq> 0) es,
           vs_starved = count (\<lambda>e. ve_starved e \<noteq> 0 \<or> ve_vb2_op e = UVC_VB2_STARVED) es,
           vs_wire_corr = of_nat (length corr), vs_bytes = total (map ve_bytesused fin),
           vs_intervals = of_nat (length (done_ivs es)), vs_sum_interval_ns = total (done_ivs es),
           vs_sum_wire_to_vb2_ns = total corr, vs_min_interval_ns = ivs_min (done_ivs es),
           vs_max_interval_ns = ivs_max (done_ivs es) \<rparr>)"

definition drv_totals :: "uvc_drv_event list \<Rightarrow> uvc_drvstats" where
  "drv_totals es =
     (let drops = filter (\<lambda>e. de_drv_op e = UVC_DRV_DROP) es in
      \<lparr> dr_received = count (\<lambda>e. de_drv_op e = UVC_DRV_RECV) es, dr_dropped = of_nat (length drops),
        dr_drop_short = count (\<lambda>e. de_reason e AND UVC_DROP_SHORT \<noteq> 0) drops,
        dr_drop_iso = count (\<lambda>e. de_reason e AND UVC_DROP_ISO \<noteq> 0) drops,
        dr_drop_other = count (\<lambda>e. de_reason e AND UVC_DROP_OTHER \<noteq> 0) drops \<rparr>)"

lemma ivs_snoc:
  assumes "0 \<notin> set xs" "iv \<noteq> 0"
  shows "ivs_min (xs @ [iv]) = (if ivs_min xs = 0 \<or> iv < ivs_min xs then iv else ivs_min xs)"
    "ivs_max (xs @ [iv]) = (if iv > ivs_max xs then iv else ivs_max xs)"
proof -
  have iv: "0 < iv" using assms(2) by (simp add: word_gt_0)
  show "ivs_min (xs @ [iv]) = (if ivs_min xs = 0 \<or> iv < ivs_min xs then iv else ivs_min xs)"
  proof (cases "xs = []")
    case False
    define M where "M = Min (set xs)"
    have "M \<noteq> 0" using assms(1) False unfolding M_def by (metis Min_in List.finite_set set_empty)
    moreover have "ivs_min xs = M" "ivs_min (xs @ [iv]) = min iv M" using False by (simp_all add: ivs_min_def M_def)
    ultimately show ?thesis by (auto simp: min_def)
  qed (simp add: ivs_min_def)
  show "ivs_max (xs @ [iv]) = (if iv > ivs_max xs then iv else ivs_max xs)"
  proof (cases "xs = []")
    case False
    define M where "M = Max (set xs)"
    have "ivs_max xs = M" "ivs_max (xs @ [iv]) = max iv M" using False by (simp_all add: ivs_max_def M_def)
    then show ?thesis by (auto simp: max_def)
  qed (simp add: ivs_max_def iv)
qed

lemma ivs_nonzero [simp]: "0 \<notin> set (frame_ivs es)" "0 \<notin> set (done_ivs vs)"
  by (auto simp: frame_ivs_def done_ivs_def)

lemma snoc_simps [simp]:
  "frame_ivs (es @ [e]) = frame_ivs es @ (if fe_interval_ns e \<noteq> 0 then [fe_interval_ns e] else [])"
  "done_ivs (vs @ [v]) = done_ivs vs @ (if ve_vb2_op v = UVC_VB2_DONE \<and> ve_interval_ns v \<noteq> 0 then [ve_interval_ns v] else [])"
  "count P (xs @ [x]) = count P xs + (if P x then 1 else 0)" "total (ys @ [y]) = total ys + ucast y"
  by (simp_all add: frame_ivs_def done_ivs_def count_def total_def)

lemma frame_fold: "fold tally_frame es fstats0 = frame_totals es"
proof (induction es rule: rev_induct)
  case Nil
  then show ?case by (simp add: fstats0_def frame_totals_def count_def total_def frame_ivs_def ivs_min_def ivs_max_def)
next
  case (snoc e es)
  then show ?case
    using ivs_snoc[of "frame_ivs es" "fe_interval_ns e"]
    by (simp add: tally_frame_def frame_totals_def Let_def add.commute)
qed

lemma tally_vb2_fields:
  defines "fin e \<equiv> ve_vb2_op e = UVC_VB2_DONE"
  shows "tally_vb2 e s =
    \<lparr> vs_done = vs_done s + (if fin e then 1 else 0), vs_seq_gaps = vs_seq_gaps s + (if ve_seq_gap e \<noteq> 0 then 1 else 0),
      vs_starved = vs_starved s + (if ve_starved e \<noteq> 0 \<or> ve_vb2_op e = UVC_VB2_STARVED then 1 else 0),
      vs_wire_corr = vs_wire_corr s + (if ve_wire_to_vb2_ns e \<noteq> 0 then 1 else 0),
      vs_bytes = vs_bytes s + (if fin e then ucast (ve_bytesused e) else 0),
      vs_intervals = vs_intervals s + (if fin e \<and> ve_interval_ns e \<noteq> 0 then 1 else 0),
      vs_sum_interval_ns = vs_sum_interval_ns s + (if fin e \<and> ve_interval_ns e \<noteq> 0 then ucast (ve_interval_ns e) else 0),
      vs_sum_wire_to_vb2_ns = vs_sum_wire_to_vb2_ns s + ucast (ve_wire_to_vb2_ns e),
      vs_min_interval_ns =
        (if fin e \<and> ve_interval_ns e \<noteq> 0 \<and> (vs_min_interval_ns s = 0 \<or> ve_interval_ns e < vs_min_interval_ns s)
         then ve_interval_ns e else vs_min_interval_ns s),
      vs_max_interval_ns =
        (if fin e \<and> ve_interval_ns e \<noteq> 0 \<and> ve_interval_ns e > vs_max_interval_ns s
         then ve_interval_ns e else vs_max_interval_ns s) \<rparr>"
proof -
  define g where "g = (ve_seq_gap e \<noteq> 0)"
  define h where "h = (ve_starved e \<noteq> 0 \<or> ve_vb2_op e = UVC_VB2_STARVED)"
  define s3 where "s3 = s\<lparr> vs_done := vs_done s + (if fin e then 1 else 0), vs_seq_gaps := vs_seq_gaps s + (if g then 1 else 0),
    vs_starved := vs_starved s + (if h then 1 else 0) \<rparr>"
  define s5 where "s5 = s3\<lparr> vs_wire_corr := vs_wire_corr s3 + (if ve_wire_to_vb2_ns e \<noteq> 0 then 1 else 0),
    vs_sum_wire_to_vb2_ns := vs_sum_wire_to_vb2_ns s3 + ucast (ve_wire_to_vb2_ns e),
    vs_bytes := vs_bytes s3 + (if fin e then ucast (ve_bytesused e) else 0) \<rparr>"
  have three: "(let s1 = (if fin e then s\<lparr> vs_done := vs_done s + 1 \<rparr> else s);
          s2 = (if g then s1\<lparr> vs_seq_gaps := vs_seq_gaps s1 + 1 \<rparr> else s1)
        in if h then s2\<lparr> vs_starved := vs_starved s2 + 1 \<rparr> else s2) = s3"
    by (cases "fin e"; cases g; cases h) (simp_all add: s3_def)
  have five: "(let s4 = (if ve_wire_to_vb2_ns e \<noteq> 0
                then s3\<lparr> vs_wire_corr := vs_wire_corr s3 + 1,
                         vs_sum_wire_to_vb2_ns := vs_sum_wire_to_vb2_ns s3 + ucast (ve_wire_to_vb2_ns e) \<rparr>
                else s3)
        in if fin e then s4\<lparr> vs_bytes := vs_bytes s4 + ucast (ve_bytesused e) \<rparr> else s4) = s5"
    by (cases "fin e"; cases "ve_wire_to_vb2_ns e = 0") (simp_all add: s5_def)
  have "tally_vb2 e s =
      (if fin e \<and> ve_interval_ns e \<noteq> 0
       then s5\<lparr> vs_intervals := vs_intervals s5 + 1, vs_sum_interval_ns := vs_sum_interval_ns s5 + ucast (ve_interval_ns e),
                vs_min_interval_ns := (if vs_min_interval_ns s5 = 0 \<or> ve_interval_ns e < vs_min_interval_ns s5 then ve_interval_ns e else vs_min_interval_ns s5),
                vs_max_interval_ns := (if ve_interval_ns e > vs_max_interval_ns s5 then ve_interval_ns e else vs_max_interval_ns s5) \<rparr>
       else s5)"
    unfolding tally_vb2_def fin_def[symmetric] g_def[symmetric] h_def[symmetric] Let_def
      three[unfolded Let_def] five[unfolded Let_def] by (rule refl)
  then show ?thesis
    by (cases s; cases "fin e"; cases "ve_interval_ns e = 0") (simp_all add: s5_def s3_def g_def h_def)
qed

lemma vb2_fold: "fold tally_vb2 es vbstats0 = vb2_totals es"
proof (induction es rule: rev_induct)
  case Nil
  then show ?case
    by (simp add: vbstats0_def vb2_totals_def count_def total_def done_ivs_def ivs_min_def ivs_max_def)
next
  case (snoc e es)
  have iv: "ivs_min (done_ivs (es @ [e])) =
      (if ve_vb2_op e = UVC_VB2_DONE \<and> ve_interval_ns e \<noteq> 0 \<and> (ivs_min (done_ivs es) = 0 \<or> ve_interval_ns e < ivs_min (done_ivs es))
       then ve_interval_ns e else ivs_min (done_ivs es))"
    "ivs_max (done_ivs (es @ [e])) =
      (if ve_vb2_op e = UVC_VB2_DONE \<and> ve_interval_ns e \<noteq> 0 \<and> ve_interval_ns e > ivs_max (done_ivs es)
       then ve_interval_ns e else ivs_max (done_ivs es))"
    using ivs_snoc[of "done_ivs es" "ve_interval_ns e"] by auto
  have eq: "vb2_totals (es @ [e]) = tally_vb2 e (vb2_totals es)"
    unfolding tally_vb2_fields vb2_totals_def Let_def iv uvc_vbstats.simps
    by (cases "ve_vb2_op e = UVC_VB2_DONE"; cases "ve_interval_ns e = 0"; cases "ve_wire_to_vb2_ns e = 0") (simp_all add: add.commute)
  show ?case using snoc by (simp add: eq)
qed

lemma drv_fold: "fold tally_drv es drvstats0 = drv_totals es"
proof (induction es rule: rev_induct)
  case (snoc e es)
  have "UVC_DRV_RECV \<noteq> UVC_DRV_DROP" by (simp add: UVC_DRV_RECV_def UVC_DRV_DROP_def)
  then show ?case using snoc by (simp add: tally_drv_def drv_totals_def Let_def add.commute)
qed (simp add: drvstats0_def drv_totals_def count_def)

section \<open>The records of a session\<close>

definition kind_records :: "u32 \<Rightarrow> nat \<Rightarrow> (u8 list \<Rightarrow> 'e) \<Rightarrow> u8 list list \<Rightarrow> 'e list" where
  "kind_records kind sz dec ds = map dec (filter (\<lambda>d. sz \<le> length d \<and> h_kind (dec_hdr d) = kind) ds)"

abbreviation "frame_records \<equiv> kind_records USBTRACE_EVT_UVC_FRAME 80 dec_uvc_frame_event"
abbreviation "vb2_records \<equiv> kind_records USBTRACE_EVT_UVC_VB2 80 dec_uvc_vb2_event"
abbreviation "drv_records \<equiv> kind_records USBTRACE_EVT_UVC_DRV 32 dec_uvc_drv_event"

text \<open>Which record is printed: all with \<open>--all\<close>, else bad or slow frames, sequence gaps and starvation, and bad URBs.\<close>

definition uvc_shown :: "uvc_opts \<Rightarrow> u8 list \<Rightarrow> uvc_line list" where
  "uvc_shown o' d =
     map FrameLine (filter (\<lambda>e. uv_all o' \<or> fe_errored e \<noteq> 0 \<or> slow_frame (uv_fps_target o') e) (frame_records [d]))
     @ map Vb2Line (filter (\<lambda>e. uv_all o' \<or> ve_seq_gap e \<noteq> 0 \<or> ve_starved e \<noteq> 0 \<or> ve_vb2_op e = UVC_VB2_STARVED) (vb2_records [d]))
     @ map ClassLine (filter (\<lambda>e. uv_all o' \<or> is_anomaly e) (class_records [d]))"

definition uvc_seen :: "uvc_opts \<Rightarrow> u8 list list \<Rightarrow> uvc_globals" where
  "uvc_seen o' ds =
     \<lparr> ug_ctx = \<lparr> cx_all = uv_all o', cx_stats = tally (class_records ds) \<lparr> cs_urbs = 0, cs_isoc_err = 0, cs_status_err = 0, cs_bytes = 0 \<rparr> \<rparr>,
       ug_fstats = frame_totals (frame_records ds), ug_vbstats = vb2_totals (vb2_records ds),
       ug_drvstats = drv_totals (drv_records ds) \<rparr>"

lemma records_snoc:
  "kind_records k n dec (ds @ [d]) = kind_records k n dec ds @ kind_records k n dec [d]"
  "class_records (ds @ [d]) = class_records ds @ class_records [d]"
  by (simp_all add: kind_records_def class_records_def)

lemma tally_append: "tally (es @ fs) st = tally fs (tally es st)"
  by (simp add: tally_def add.assoc)

lemma kinds_apart:
  "USBTRACE_EVT_UVC_FRAME \<noteq> USBTRACE_EVT_UVC_VB2" "USBTRACE_EVT_UVC_FRAME \<noteq> USBTRACE_EVT_UVC_DRV"
  "USBTRACE_EVT_UVC_FRAME \<noteq> USBTRACE_EVT_CLASS" "USBTRACE_EVT_UVC_VB2 \<noteq> USBTRACE_EVT_UVC_DRV"
  "USBTRACE_EVT_UVC_VB2 \<noteq> USBTRACE_EVT_CLASS" "USBTRACE_EVT_UVC_DRV \<noteq> USBTRACE_EVT_CLASS"
  by (simp_all add: ut_const)

lemma uvc_event:
  "uvc_on_event o' d (uvc_seen o' ds) = (uvc_seen o' (ds @ [d]), uvc_shown o' d)"
proof -
  let ?k = "h_kind (dec_hdr d)"
  note frame = frame_fold[of "frame_records ds @ [e]" for e, unfolded fold_append comp_apply frame_fold, simplified]
  note vb2 = vb2_fold[of "vb2_records ds @ [e]" for e, unfolded fold_append comp_apply vb2_fold, simplified]
  note drv = drv_fold[of "drv_records ds @ [e]" for e, unfolded fold_append comp_apply drv_fold, simplified]
  note defs = uvc_on_event_def uvc_seen_def uvc_shown_def records_snoc
  consider "?k = USBTRACE_EVT_UVC_FRAME" | "?k = USBTRACE_EVT_UVC_VB2" | "?k = USBTRACE_EVT_UVC_DRV"
    | "?k \<noteq> USBTRACE_EVT_UVC_FRAME" "?k \<noteq> USBTRACE_EVT_UVC_VB2" "?k \<noteq> USBTRACE_EVT_UVC_DRV" by blast
  then show ?thesis
  proof cases
    case 1
    then show ?thesis
      by (auto simp: defs handle_frame_def kind_records_def[of _ _ _ "[d]"] class_records_def[of "[d]"] kinds_apart frame Let_def)
  next
    case 2
    then show ?thesis using kinds_apart
      by (auto simp: defs handle_vb2_def kind_records_def[of _ _ _ "[d]"] class_records_def[of "[d]"] vb2 Let_def)
  next
    case 3
    then show ?thesis using kinds_apart
      by (auto simp: defs handle_drv_def kind_records_def[of _ _ _ "[d]"] class_records_def[of "[d]"] drv Let_def)
  next
    case 4
    obtain c es where c: "class_stream_on_event d (ug_ctx (uvc_seen o' ds)) = (c, es)" by fastforce
    have "fold class_step [d] (ug_ctx (uvc_seen o' ds), []) = (c, es)" using c by (simp add: class_step_def)
    then have "c = ug_ctx (uvc_seen o' (ds @ [d]))" "es = filter (\<lambda>e. uv_all o' \<or> is_anomaly e) (class_records [d])"
      unfolding class_fold by (auto simp: uvc_seen_def records_snoc tally_append)
    then show ?thesis using 4 c
      by (auto simp: uvc_on_event_def uvc_seen_def uvc_shown_def records_snoc kind_records_def[of _ _ _ "[d]"] class_records_def[of "[d]"])
  qed
qed

lemma uvc_fold: "fold (uvc_step o') ds (uvc_globals0 o', []) = (uvc_seen o' ds, concat (map (uvc_shown o') ds))"
proof (induction ds rule: rev_induct)
  case Nil
  have "uvc_globals0 o' = uvc_seen o' []"
    using frame_fold[of "[]"] vb2_fold[of "[]"] drv_fold[of "[]"]
    by (simp add: uvc_globals0_def uvc_seen_def kind_records_def class_records_def)
  then show ?case by simp
qed (simp add: uvc_step_def uvc_event)

text \<open>A uvc session fails with exit code 1 and prints nothing when its program cannot be set up. Otherwise it
  prints exactly the delivered records that qualify, in order, and its summary gives for every kind the figures of the
  delivered records of that kind and full size: frames, bad frames, bytes, number, sum, minimum and maximum of the
  measured intervals; completed buffers, sequence gaps, starvations and the wire delays; frames received and dropped
  by the driver with the causes; URBs and their errors. A frame with no interval does not enter the interval figures.\<close>

theorem uvc_session_report:
  "uvc_run o' json drop_hook opened env =
     (if opened \<and> run_ready env
      then (if list_ex fatal_poll (re_polls env) then 1 else 0, concat (map (uvc_shown o') (delivered env)),
            uvc_on_stop o' json drop_hook (uvc_seen o' (delivered env)))
      else (1, [], []))"
proof (cases "opened \<and> run_ready env")
  case True
  then show ?thesis
    using usbtrace_run_ready[of env "uvc_step o'" "(uvc_globals0 o', [])"] by (simp add: uvc_run_def uvc_fold)
next
  case False
  then show ?thesis
    using usbtrace_run_not_ready[of env "uvc_step o'" "(uvc_globals0 o', [])"] by (auto simp: uvc_run_def)
qed

end
