(* ===== verification/Uvc_Text.thy ===== *)
theory Uvc_Text
  imports Uvc_Report Dev_Consumer
begin

text \<open>
  What the uvc module prints (\<open>modules/uvc/uvc.c\<close>): the text and JSON lines of frames and buffers, and the parts
  of the summary. Times and rates are computed in double as the sources do and printed with a fixed number of decimals
  (\<open>Ut_Float\<close>). JSON goes to standard output, the text summary to standard error.
\<close>

section \<open>Numbers\<close>

text \<open>\<open>x / 1000.0\<close> and \<open>x / 1e6\<close> of an interval in nanoseconds.\<close>

definition us_of :: "u32 \<Rightarrow> dbl" where "us_of ns = d_quot (unat ns) 1000"
definition ms_of :: "u32 \<Rightarrow> dbl" where "ms_of ns = d_quot (unat ns) (10 ^ 6)"

text \<open>The rate of the average interval; the average of 32-bit intervals converts to 32 bits without overflow.\<close>

definition avg_fps :: "u64 \<Rightarrow> u64 \<Rightarrow> dbl" where
  "avg_fps sum_ns intervals =
     (let avg = (if intervals \<noteq> 0 then d_quot (unat sum_ns) (unat intervals) else d_nat 0)
      in fps_of (word_of_nat (d_trunc avg)))"

definition vb2_op_str :: "u8 \<Rightarrow> string" where
  "vb2_op_str op =
     (if op = UVC_VB2_QUEUE then ''queue'' else if op = UVC_VB2_QBUF then ''qbuf'' else if op = UVC_VB2_DQBUF then ''dqbuf''
      else if op = UVC_VB2_STARVED then ''starve'' else ''done'')"

section \<open>Lines\<close>

definition print_frame :: "bool \<Rightarrow> uvc_frame_event \<Rightarrow> string" where
  "print_frame json e =
     (if json then
        json_obj [(''event'', jstr ''uvc_frame''), (''errored'', fmt_u (fe_errored e)), (''eof'', fmt_u (fe_eof e)),
          (''bytes'', fmt_u (fe_bytes e)), (''packets'', fmt_u (fe_packets e)), (''err_packets'', fmt_u (fe_err_packets e)),
          (''duration_us'', fmt_f 1 (us_of (fe_duration_ns e))), (''interval_us'', fmt_f 1 (us_of (fe_interval_ns e))),
          (''fps'', fmt_f 1 (fps_of (fe_interval_ns e))), (''pts'', fmt_u (fe_pts e)), (''scr_stc'', fmt_u (fe_scr_stc e)),
          (''vid'', hex_id (fe_vid e)), (''pid'', hex_id (fe_product e)), (''bus'', fmt_u (fe_busnum e)),
          (''dev'', fmt_u (fe_devnum e)), (''comm'', jstr (jesc 33 (fe_comm e)))]
      else
        ''frame  '' @ pad_right 4 (if fe_errored e \<noteq> 0 then ''DROP'' else ''ok'') @ '' '' @ pad_left 7 (fmt_u (fe_bytes e))
        @ ''B pkts='' @ pad_right 3 (fmt_u (fe_packets e)) @ '' dur='' @ pad_left 5 (fmt_f 1 (ms_of (fe_duration_ns e)))
        @ ''ms intv='' @ pad_left 6 (fmt_f 1 (ms_of (fe_interval_ns e))) @ ''ms fps=''
        @ pad_left 5 (fmt_f 1 (fps_of (fe_interval_ns e))) @ '' pts='' @ pad_right 10 (fmt_u (fe_pts e)) @ '' ''
        @ dev_cols (fe_vid e) (fe_product e) (fe_busnum e) (fe_devnum e) @ '' '' @ bytes_cstr (fe_comm e) @ [LF])"

definition vb2_pool :: "uvc_vb2_event \<Rightarrow> string" where
  "vb2_pool e = ''pool='' @ fmt_u (ve_num_buffers e) @ '' q='' @ fmt_u (ve_queued e) @ '' drv='' @ fmt_u (ve_drv_owned e)"

definition print_vb2 :: "bool \<Rightarrow> uvc_vb2_event \<Rightarrow> string" where
  "print_vb2 json e =
     (if json then
        json_obj [(''event'', jstr ''uvc_vb2''), (''op'', jstr (vb2_op_str (ve_vb2_op e))), (''sequence'', fmt_u (ve_sequence e)),
          (''seq_gap'', fmt_u (ve_seq_gap e)), (''starved'', fmt_u (ve_starved e)), (''num_buffers'', fmt_u (ve_num_buffers e)),
          (''queued'', fmt_u (ve_queued e)), (''drv_owned'', fmt_u (ve_drv_owned e)), (''bytesused'', fmt_u (ve_bytesused e)),
          (''interval_us'', fmt_f 1 (us_of (ve_interval_ns e))), (''fps'', fmt_f 1 (fps_of (ve_interval_ns e))),
          (''wire_to_vb2_us'', fmt_f 1 (us_of (ve_wire_to_vb2_ns e))), (''state'', fmt_u (ve_state e)),
          (''buf_index'', fmt_u (ve_buf_index e)), (''vb2_ts'', fmt_u (ve_vb2_timestamp e)), (''vid'', hex_id (ve_vid e)),
          (''pid'', hex_id (ve_product e)), (''bus'', fmt_u (ve_busnum e)), (''dev'', fmt_u (ve_devnum e)),
          (''comm'', jstr (jesc 33 (ve_comm e)))]
      else if ve_vb2_op e = UVC_VB2_STARVED \<or> ve_starved e \<noteq> 0 then
        ''vb2    STARVE '' @ vb2_pool e @ ''  (wire frame, no queued buffer) ''
        @ dev_cols (ve_vid e) (ve_product e) (ve_busnum e) (ve_devnum e) @ [LF]
      else if ve_vb2_op e \<noteq> UVC_VB2_DONE then
        ''vb2    '' @ pad_right 5 (vb2_op_str (ve_vb2_op e)) @ '' idx='' @ fmt_u (ve_buf_index e) @ '' '' @ vb2_pool e @ '' ''
        @ bytes_cstr (ve_comm e) @ [LF]
      else
        ''vb2    '' @ pad_right 4 (if ve_seq_gap e \<noteq> 0 then ''GAP'' else ''ok'') @ '' seq='' @ pad_right 5 (fmt_u (ve_sequence e))
        @ '' '' @ pad_left 7 (fmt_u (ve_bytesused e)) @ ''B intv='' @ pad_left 6 (fmt_f 1 (ms_of (ve_interval_ns e)))
        @ ''ms fps='' @ pad_left 5 (fmt_f 1 (fps_of (ve_interval_ns e))) @ '' w2v=''
        @ pad_left 5 (fmt_f 1 (ms_of (ve_wire_to_vb2_ns e))) @ ''ms '' @ vb2_pool e @ '' idx='' @ fmt_u (ve_buf_index e) @ '' ''
        @ bytes_cstr (ve_comm e) @ [LF])"

fun uvc_line_text :: "bool \<Rightarrow> uvc_line \<Rightarrow> string" where
  "uvc_line_text json (FrameLine e) = print_frame json e"
| "uvc_line_text json (Vb2Line e) = print_vb2 json e"
| "uvc_line_text json (ClassLine e) = class_print_event json e"

section \<open>The summary\<close>

text \<open>The three rates both the frame and the buffer summary show, in text only when an interval was measured.\<close>

definition fps_members :: "u64 \<Rightarrow> u64 \<Rightarrow> u32 \<Rightarrow> u32 \<Rightarrow> (string \<times> string) list" where
  "fps_members sum_ns intervals lo hi =
     [(''avg_fps'', fmt_f 1 (avg_fps sum_ns intervals)), (''min_fps'', fmt_f 1 (fps_of hi)), (''max_fps'', fmt_f 1 (fps_of lo))]"

definition fps_lines :: "u64 \<Rightarrow> u64 \<Rightarrow> u32 \<Rightarrow> u32 \<Rightarrow> string" where
  "fps_lines sum_ns intervals lo hi =
     (if intervals \<noteq> 0 then
        ''fps (avg):       '' @ fmt_f 1 (avg_fps sum_ns intervals) @ [LF]
        @ ''fps (worst):     '' @ fmt_f 1 (fps_of hi) @ ''  (max interval '' @ fmt_f 1 (ms_of hi) @ ''ms)'' @ [LF]
        @ ''fps (best):      '' @ fmt_f 1 (fps_of lo) @ ''  (min interval '' @ fmt_f 1 (ms_of lo) @ ''ms)'' @ [LF]
      else [])"

definition uvc_frame_summary :: "bool \<Rightarrow> uvc_fstats \<Rightarrow> string" where
  "uvc_frame_summary json s =
     (if json then
        json_obj ([(''event'', jstr ''uvc_frame_summary''), (''frames'', fmt_u (fs_frames s)), (''errored'', fmt_u (fs_errored s)),
            (''bytes'', fmt_u (fs_bytes s))]
          @ fps_members (fs_sum_interval_ns s) (fs_intervals s) (fs_min_interval_ns s) (fs_max_interval_ns s))
      else
        [LF] @ ''--- uvc frame summary ---'' @ [LF]
        @ ''frames:          '' @ fmt_u (fs_frames s) @ [LF]
        @ ''dropped/corrupt: '' @ fmt_u (fs_errored s) @ [LF]
        @ ''avg frame size:  '' @ fmt_u (if fs_frames s \<noteq> 0 then fs_bytes s div fs_frames s else 0) @ '' B'' @ [LF]
        @ fps_lines (fs_sum_interval_ns s) (fs_intervals s) (fs_min_interval_ns s) (fs_max_interval_ns s))"

definition uvc_vb2_summary :: "bool \<Rightarrow> uvc_vbstats \<Rightarrow> string" where
  "uvc_vb2_summary json s =
     (if json then
        json_obj ([(''event'', jstr ''uvc_vb2_summary''), (''done'', fmt_u (vs_done s)), (''seq_gaps'', fmt_u (vs_seq_gaps s)),
            (''starved'', fmt_u (vs_starved s)), (''bytes'', fmt_u (vs_bytes s))]
          @ fps_members (vs_sum_interval_ns s) (vs_intervals s) (vs_min_interval_ns s) (vs_max_interval_ns s))
      else
        [LF] @ ''--- uvc vb2 summary ---'' @ [LF]
        @ ''buffers done:    '' @ fmt_u (vs_done s) @ [LF]
        @ ''seq gaps:        '' @ fmt_u (vs_seq_gaps s) @ [LF]
        @ ''starvation:      '' @ fmt_u (vs_starved s) @ [LF]
        @ ''avg bytesused:   '' @ fmt_u (if vs_done s \<noteq> 0 then vs_bytes s div vs_done s else 0) @ '' B'' @ [LF]
        @ fps_lines (vs_sum_interval_ns s) (vs_intervals s) (vs_min_interval_ns s) (vs_max_interval_ns s))"

definition uvc_drv_summary :: "bool \<Rightarrow> bool \<Rightarrow> uvc_drvstats \<Rightarrow> string" where
  "uvc_drv_summary json drop_ok s =
     (if json then
        json_obj [(''event'', jstr ''uvc_drv_summary''), (''received'', fmt_u (dr_received s)), (''dropped'', fmt_u (dr_dropped s)),
          (''drop_short'', fmt_u (dr_drop_short s)), (''drop_iso'', fmt_u (dr_drop_iso s)), (''drop_other'', fmt_u (dr_drop_other s)),
          (''drop_hook'', if drop_ok then ''true'' else ''false'')]
      else
        [LF] @ ''--- uvc driver summary ---'' @ [LF] @ ''frames received: '' @ fmt_u (dr_received s) @ [LF]
        @ (if \<not> drop_ok then
             ''frames dropped:  n/a  (uvc_queue_buffer_complete hook unavailable on this kernel)'' @ [LF]
           else
             ''frames dropped:  '' @ fmt_u (dr_dropped s) @ [LF]
             @ (if dr_dropped s \<noteq> 0 then
                  ''  short frame:   '' @ fmt_u (dr_drop_short s) @ ''  (bytesused != dwMaxVideoFrameSize)'' @ [LF]
                  @ ''  isoc loss:     '' @ fmt_u (dr_drop_iso s) @ ''  (USB packet status < 0)'' @ [LF]
                  @ ''  other:         '' @ fmt_u (dr_drop_other s) @ ''  (header error bit / overflow / lost EOF)'' @ [LF]
                else [])))"

text \<open>The dash of the notes, in UTF-8.\<close>

definition em_dash :: string where "em_dash = [CHR 0x20, CHR 0xE2, CHR 0x80, CHR 0x94, CHR 0x20]"

fun gap_note_text :: "gap_note \<Rightarrow> string" where
  "gap_note_text NoteStarvation =
     ''note: vb2 starvation'' @ em_dash @ ''app may be slow to QBUF; driver had no queued buffer at wire EOF.'' @ [LF]"
| "gap_note_text (NoteDriverDrops n) =
     ''note: '' @ fmt_u n @ '' frame(s) dropped by uvcvideo (DROP_CORRUPTED requeue)'' @ em_dash
       @ ''matches vb2 seq gaps; not a USB-wire loss.'' @ [LF]"
| "gap_note_text NoteAfterWire =
     ''note: vb2 gaps with no wire drops'' @ em_dash @ ''USB path may be fine; check driver queue / scheduling.'' @ [LF]"
| "gap_note_text NoteMoreGaps =
     ''note: more vb2 gaps than wire drops'' @ em_dash @ ''losses likely after USB (driver/vb2/host).'' @ [LF]"

definition uvc_gap_summary :: "bool \<Rightarrow> uvc_fstats \<Rightarrow> uvc_vbstats \<Rightarrow> gap_note list \<Rightarrow> string" where
  "uvc_gap_summary json f v notes =
     (let wire_fps = (if fs_intervals f \<noteq> 0 then avg_fps (fs_sum_interval_ns f) (fs_intervals f) else d_nat 0);
          vb2_fps = (if vs_intervals v \<noteq> 0 then avg_fps (vs_sum_interval_ns v) (vs_intervals v) else d_nat 0);
          wire_vb2_ms = (if vs_wire_corr v \<noteq> 0
                         then d_div (d_quot (unat (vs_sum_wire_to_vb2_ns v)) (unat (vs_wire_corr v))) (d_nat (10 ^ 6))
                         else d_nat 0)
      in if json then
           json_obj [(''event'', jstr ''uvc_gap_summary''), (''wire_fps'', fmt_f 1 wire_fps), (''vb2_fps'', fmt_f 1 vb2_fps),
             (''wire_drops'', fmt_u (fs_errored f)), (''vb2_seq_gaps'', fmt_u (vs_seq_gaps v)), (''vb2_starved'', fmt_u (vs_starved v)),
             (''avg_wire_to_vb2_ms'', fmt_f 2 wire_vb2_ms)]
         else
           [LF] @ ''--- uvc wire vs vb2 (gap analysis) ---'' @ [LF]
           @ ''wire fps (avg):      '' @ fmt_f 1 wire_fps @ [LF]
           @ ''vb2 fps (avg):       '' @ fmt_f 1 vb2_fps @ [LF]
           @ ''wire drops:          '' @ fmt_u (fs_errored f) @ [LF]
           @ ''vb2 seq gaps:        '' @ fmt_u (vs_seq_gaps v) @ [LF]
           @ ''vb2 starvation:      '' @ fmt_u (vs_starved v) @ [LF]
           @ ''wire->vb2 (avg):     '' @ fmt_f 2 wire_vb2_ms @ '' ms  ('' @ fmt_u (vs_wire_corr v) @ '' paired)'' @ [LF]
           @ concat (map gap_note_text notes))"

fun uvc_part_text :: "bool \<Rightarrow> uvc_summary_part \<Rightarrow> string" where
  "uvc_part_text json (ClassSummary s) = (if json then class_stream_summary True ''uvc'' s else class_stream_summary_err ''uvc'' s)"
| "uvc_part_text json (FrameSummary s) = uvc_frame_summary json s"
| "uvc_part_text json (DriverSummary s drop_ok) = uvc_drv_summary json drop_ok s"
| "uvc_part_text json (Vb2Summary s) = uvc_vb2_summary json s"
| "uvc_part_text json (GapSummary f v notes) = uvc_gap_summary json f v notes"

text \<open>What a session writes to standard output and, as its summary, to standard error.\<close>

definition uvc_output :: "bool \<Rightarrow> uvc_line list \<times> uvc_summary_part list \<Rightarrow> string \<times> string" where
  "uvc_output json r =
     (let lines = concat (map (uvc_line_text json) (fst r)); parts = concat (map (uvc_part_text json) (snd r))
      in if json then (lines @ parts, []) else (lines, parts))"

end
