(* ===== verification/Hid_Text.thy ===== *)
theory Hid_Text
  imports Hid_Rate Dev_Consumer
begin

text \<open>
  What the hid module prints (\<open>modules/hid/hid.c\<close>), and a whole session: rate lines with the rate in Hz and the
  intervals in microseconds, the class records of the shared consumer, and the summary per endpoint.
\<close>

section \<open>Rates\<close>

fun role_str :: "hid_role \<Rightarrow> string" where
  "role_str HID_ROLE_MOUSE = ''mouse''"
| "role_str HID_ROLE_KBD = ''kbd''"
| "role_str HID_ROLE_UNK = ''hid''"

text \<open>The mean interval in microseconds, 0 when none was measured; a 32-bit interval in microseconds.\<close>

definition avg_us :: "u64 \<Rightarrow> u64 \<Rightarrow> dbl" where
  "avg_us sum_ns n = (if n \<noteq> 0 then d_div (d_quot (unat sum_ns) (unat n)) (d_nat 1000) else d_nat 0)"

definition iv_us :: "u32 \<Rightarrow> dbl" where
  "iv_us ns = d_quot (unat ns) 1000"

definition win_hz :: "u64 \<Rightarrow> u64 \<Rightarrow> dbl" where
  "win_hz count win_ns = d_div (d_nat (unat count)) (win_seconds win_ns)"

text \<open>The rate of the whole session, from its mean interval.\<close>

definition total_hz :: "u64 \<Rightarrow> u64 \<Rightarrow> dbl" where
  "total_hz sum_ns n =
     (if n \<noteq> 0 \<and> d_less (d_nat 0) (avg_us sum_ns n) then d_div (d_nat (10 ^ 6)) (avg_us sum_ns n) else d_nat 0)"

section \<open>Lines\<close>

definition slot_dev_members :: "hid_rate_slot \<Rightarrow> (string \<times> string) list" where
  "slot_dev_members s =
     [(''vid'', hex_id (hs_vid s)), (''pid'', hex_id (hs_product s)), (''bus'', fmt_u (hs_busnum s)), (''dev'', fmt_u (hs_devnum s))]"

definition slot_cols :: "hid_rate_slot \<Rightarrow> string" where
  "slot_cols s = dev_cols (hs_vid s) (hs_product s) (hs_busnum s) (hs_devnum s)"

definition rate_line_text :: "bool \<Rightarrow> hid_opts \<Rightarrow> rate_line \<Rightarrow> string" where
  "rate_line_text json ho line =
     (let s = fst line; hz = win_hz (hs_win_count s) (snd line); avg = avg_us (hs_win_sum_iv_ns s) (hs_win_iv_count s);
          gaps = (if hs_win_gaps s \<noteq> 0 then snprintf_s 32 ('' gaps='' @ fmt_u (hs_win_gaps s)) else [])
      in if json then
           json_obj ([(''event'', jstr ''hid_rate''), (''role'', jstr (role_str (hs_role s))), (''ep'', fmt_u (hs_ep s)),
             (''hz'', fmt_f 1 hz), (''avg_us'', fmt_f 1 avg), (''min_us'', fmt_f 1 (iv_us (hs_win_min_iv_ns s))),
             (''max_us'', fmt_f 1 (iv_us (hs_win_max_iv_ns s))), (''reports'', fmt_u (hs_win_count s)),
             (''gaps'', fmt_u (hs_win_gaps s)), (''window_s'', fmt_u (ho_rate_sec ho))] @ slot_dev_members s)
         else
           ''rate   '' @ pad_right 5 (role_str (hs_role s)) @ '' ep'' @ pad_right 2 (fmt_u (hs_ep s)) @ '' ''
           @ pad_left 7 (fmt_f 1 hz) @ '' Hz  avg='' @ pad_left 6 (fmt_f 1 avg) @ ''us min=''
           @ pad_left 6 (fmt_f 1 (iv_us (hs_win_min_iv_ns s))) @ '' max='' @ pad_left 6 (fmt_f 1 (iv_us (hs_win_max_iv_ns s)))
           @ ''  '' @ slot_cols s @ gaps @ [LF])"

definition slot_summary_text :: "bool \<Rightarrow> hid_rate_slot \<Rightarrow> string" where
  "slot_summary_text json s =
     (let avg = avg_us (hs_total_sum_iv_ns s) (hs_total_iv_count s); hz = total_hz (hs_total_sum_iv_ns s) (hs_total_iv_count s);
          extra = (if hs_total_gaps s \<noteq> 0 \<or> hs_err_urbs s \<noteq> 0
                   then snprintf_s 64 (''  gaps='' @ fmt_u (hs_total_gaps s) @ '' err='' @ fmt_u (hs_err_urbs s)) else [])
      in if json then
           json_obj ([(''event'', jstr ''hid_rate_summary''), (''role'', jstr (role_str (hs_role s))), (''ep'', fmt_u (hs_ep s)),
             (''hz'', fmt_f 1 hz), (''avg_us'', fmt_f 1 avg), (''min_us'', fmt_f 1 (iv_us (hs_total_min_iv_ns s))),
             (''max_us'', fmt_f 1 (iv_us (hs_total_max_iv_ns s))), (''reports'', fmt_u (hs_total_count s)),
             (''gaps'', fmt_u (hs_total_gaps s)), (''err_urbs'', fmt_u (hs_err_urbs s))] @ slot_dev_members s)
         else
           pad_right 5 (role_str (hs_role s)) @ '' ep'' @ pad_right 2 (fmt_u (hs_ep s)) @ ''  ~'' @ fmt_f 1 hz @ '' Hz  avg=''
           @ fmt_f 1 avg @ ''us min='' @ fmt_f 1 (iv_us (hs_total_min_iv_ns s)) @ '' max=''
           @ fmt_f 1 (iv_us (hs_total_max_iv_ns s)) @ ''  reports='' @ fmt_u (hs_total_count s) @ extra @ ''  '' @ slot_cols s @ [LF])"

text \<open>The summary: JSON on standard output, text with a title on standard error.\<close>

definition rate_summary_text :: "bool \<Rightarrow> hid_opts \<Rightarrow> hid_state \<Rightarrow> string" where
  "rate_summary_text json ho st =
     (if rate_summary ho st = [] then []
      else (if json then [] else [LF] @ ''--- hid rate summary ---'' @ [LF])
           @ concat (map (slot_summary_text json) (rate_summary ho st)))"

section \<open>A session\<close>

text \<open>An event prints its rate lines before its class line.\<close>

definition hid_step ::
  "bool \<Rightarrow> hid_opts \<Rightarrow> u8 list \<Rightarrow> (hid_state \<times> class_stream_ctx) \<times> string \<Rightarrow> (hid_state \<times> class_stream_ctx) \<times> string" where
  "hid_step json ho data = (\<lambda>(s, out).
     let (s', lines, evs) = hid_on_event ho data s
     in (s', out @ concat (map (rate_line_text json ho) lines) @ concat (map (class_print_event json) evs)))"

definition hid_on_start :: "bool \<Rightarrow> hid_opts \<Rightarrow> string" where
  "hid_on_start json ho =
     (if ho_rate ho \<and> \<not> json
      then ''# rate lines: role ep Hz avg/min/max interval ('' @ fmt_u (ho_rate_sec ho) @ ''s window)'' @ [LF] else [])"

definition hid_config_of :: "usbtrace_filter \<Rightarrow> usbtrace_class_config" where
  "hid_config_of f = \<lparr> cl_filter_vid = ucast (flt_vid f), cl_filter_pid = ucast (flt_pid f) \<rparr>"

definition hid_ctx0 :: "bool \<Rightarrow> class_stream_ctx" where
  "hid_ctx0 all = \<lparr> cx_all = all, cx_stats = \<lparr> cs_urbs = 0, cs_isoc_err = 0, cs_status_err = 0, cs_bytes = 0 \<rparr> \<rparr>"

text \<open>Exit code, standard output and (but for log messages) standard error.\<close>

definition hid_run :: "bool \<Rightarrow> hid_opts \<Rightarrow> bool \<Rightarrow> bool \<Rightarrow> u8 list run_env \<Rightarrow> int \<times> string \<times> string" where
  "hid_run json ho all opened env =
     (if \<not> opened then (1, [], [])
      else
        let (rc, ((st, c), out), acts) = usbtrace_run (hid_step json ho) env ((hid_state0, hid_ctx0 all), []);
            start = (if OnStart \<in> set acts then hid_on_start json ho else [])
        in if OnStop \<in> set acts then
             let (st', lines) = hid_on_stop ho st; out' = out @ concat (map (rate_line_text json ho) lines) in
             if json then (rc, out' @ class_stream_summary True ''hid'' (cx_stats c) @ rate_summary_text True ho st', start)
             else (rc, out', start @ class_stream_summary_err ''hid'' (cx_stats c) @ rate_summary_text False ho st')
           else (rc, out, start))"

end
