(* ===== verification/Stream_Text_Props.thy ===== *)
theory Stream_Text_Props
  imports Uvc_Text Dev_Consumer_Props Urb_Text_Props Hid_Text
begin

text \<open>
  The printed rates and times are within half a unit of their last decimal, and the rounding of a double, of the exact
  values; the comparison of a frame with the target rate is the exact one; and the JSON lines read back.
\<close>

section \<open>Rates and times\<close>

declare of_nat_unat [simp del]

lemma unat_u32: "unat (w :: u32) < 2 ^ 53"
proof -
  have "unat w < 2 ^ 32" using unsigned_less[of w] by simp
  then show ?thesis by simp
qed

lemma fps_of_quot: "iv \<noteq> 0 \<Longrightarrow> fps_of iv = d_quot (10 ^ 9) (unat iv)"
  by (simp add: fps_of_def)

lemma unat_pos: "iv \<noteq> 0 \<Longrightarrow> 0 < unat iv"
  by (simp add: unat_gt_0)

text \<open>The frame rate printed for an interval, in the text and the JSON lines of frames and buffers, differs from
  10^9 divided by the interval by at most half of its last decimal and a relative error of 2^-53, and is 0.0 for
  an unknown interval. The same holds for the printed intervals in microseconds and milliseconds, and for the latency of an
  URB, up to 2^-51 for latencies of 2^53 ns and more. A frame counts as slow exactly when its interval times the target rate exceeds
  one second, computed without rounding.\<close>

theorem printed_rates_accurate:
  "(\<exists>n. fmt_f 1 (fps_of iv) = dec_str 1 n
      \<and> \<bar>real n / 10 - (if iv = 0 then 0 else 10 ^ 9 / real (unat iv))\<bar>
          \<le> 1 / 20 + (if iv = 0 then 0 else 10 ^ 9 / real (unat iv)) / 2 ^ 53)
   \<and> (\<exists>n. fmt_f 1 (us_of iv) = dec_str 1 n \<and> \<bar>real n / 10 - real (unat iv) / 10 ^ 3\<bar> \<le> 1 / 20 + real (unat iv) / 10 ^ 3 / 2 ^ 53)
   \<and> (\<exists>n. fmt_f 1 (ms_of iv) = dec_str 1 n \<and> \<bar>real n / 10 - real (unat iv) / 10 ^ 6\<bar> \<le> 1 / 20 + real (unat iv) / 10 ^ 6 / 2 ^ 53)
   \<and> (\<exists>n. fmt_f 1 (latency_us l) = dec_str 1 n \<and> \<bar>real n / 10 - real (unat l) / 10 ^ 3\<bar>
          \<le> 1 / 20 + real (unat l) / 10 ^ 3 / 2 ^ (if unat l < 2 ^ 53 then 53 else 51))
   \<and> (slow_frame target e
        \<longleftrightarrow> target \<noteq> 0 \<and> fe_interval_ns e \<noteq> 0 \<and> 10 ^ 9 < unat target * unat (fe_interval_ns e))"
proof (intro conjI)
  show "\<exists>n. fmt_f 1 (fps_of iv) = dec_str 1 n
      \<and> \<bar>real n / 10 - (if iv = 0 then 0 else 10 ^ 9 / real (unat iv))\<bar>
          \<le> 1 / 20 + (if iv = 0 then 0 else 10 ^ 9 / real (unat iv)) / 2 ^ 53"
  proof (cases "iv = 0")
    case True
    have "scaled 1 (d_nat 0) = 0" by (simp add: scaled_def d_nat_def fl_def round_div_def)
    then show ?thesis using True by (intro exI[of _ 0]) (simp add: fps_of_def fmt_f_def)
  next
    case False
    then show ?thesis
      using printed_quot_error[OF unat_pos unat_u32, of iv 1 "10 ^ 9"]
      by (intro exI[of _ "scaled 1 (fps_of iv)"]) (simp add: fmt_f_def fps_of_quot)
  qed
  show "\<exists>n. fmt_f 1 (us_of iv) = dec_str 1 n \<and> \<bar>real n / 10 - real (unat iv) / 10 ^ 3\<bar> \<le> 1 / 20 + real (unat iv) / 10 ^ 3 / 2 ^ 53"
    using printed_quot_error[of 1000 1 "unat iv"] unat_u32[of iv]
    by (intro exI[of _ "scaled 1 (us_of iv)"]) (simp add: fmt_f_def us_of_def)
  show "\<exists>n. fmt_f 1 (ms_of iv) = dec_str 1 n \<and> \<bar>real n / 10 - real (unat iv) / 10 ^ 6\<bar> \<le> 1 / 20 + real (unat iv) / 10 ^ 6 / 2 ^ 53"
    using printed_quot_error[of "10 ^ 6" 1 "unat iv"] unat_u32[of iv]
    by (intro exI[of _ "scaled 1 (ms_of iv)"]) (simp add: fmt_f_def ms_of_def)
  show "\<exists>n. fmt_f 1 (latency_us l) = dec_str 1 n \<and> \<bar>real n / 10 - real (unat l) / 10 ^ 3\<bar>
          \<le> 1 / 20 + real (unat l) / 10 ^ 3 / 2 ^ (if unat l < 2 ^ 53 then 53 else 51)"
    using printed_quot_error[of 1000 1 "unat l"]
    by (intro exI[of _ "scaled 1 (latency_us l)"]) (simp add: fmt_f_def latency_us_def)
  show "slow_frame target e
        \<longleftrightarrow> target \<noteq> 0 \<and> fe_interval_ns e \<noteq> 0 \<and> 10 ^ 9 < unat target * unat (fe_interval_ns e)"
    using quot_less_iff[OF unat_pos unat_u32 _ unat_u32, of "fe_interval_ns e" "10 ^ 9" target]
    by (auto simp: slow_frame_def fps_of_quot)
qed

lemma near_win_hz: "w \<noteq> 0 \<Longrightarrow> near 4 (win_hz c w) (real (unat c) / (real (unat w) / 10 ^ 9))"
proof -
  assume "w \<noteq> 0"
  then have "0 < unat w" by (simp add: unat_gt_0)
  have "near (1 + 0 + 1) (win_seconds w) (real (unat w) / real (10 ^ 9))"
    unfolding win_seconds_def d_quot_def by (intro near_div near_nat near_exact) simp_all
  from near_div[OF near_nat this, of "unat c"] \<open>0 < unat w\<close>
  have "near (1 + (1 + 0 + 1) + 1) (win_hz c w) (real (unat c) / (real (unat w) / 10 ^ 9))" by (simp add: win_hz_def)
  moreover have "1 + (1 + 0 + 1) + 1 = (4 :: nat)" by simp
  ultimately show ?thesis by metis
qed

lemma near_avg_us: "n \<noteq> 0 \<Longrightarrow> near 4 (avg_us s n) (real (unat s) / real (unat n) / 1000)"
proof -
  assume n: "n \<noteq> 0"
  then have "0 < unat n" by (simp add: unat_gt_0)
  then have "near (1 + 1 + 1) (d_quot (unat s) (unat n)) (real (unat s) / real (unat n))"
    unfolding d_quot_def by (intro near_div near_nat) simp_all
  from near_div[OF this near_exact[of 1000]] n
  have "near (1 + 1 + 1 + 0 + 1) (avg_us s n) (real (unat s) / real (unat n) / 1000)" by (simp add: avg_us_def)
  moreover have "1 + 1 + 1 + 0 + 1 = (4 :: nat)" by simp
  ultimately show ?thesis by metis
qed

text \<open>The report rate of a window and the rate over the whole session that the hid module prints differ from the number of
  reports per second, and from the inverse of the mean interval, by at most half of the last decimal and a relative error of
  2^-50; so does the mean interval in microseconds. The session rate is 0.0 when no interval was measured.\<close>

theorem hid_rates_accurate:
  assumes "w \<noteq> 0"
  shows "(\<exists>n. fmt_f 1 (win_hz c w) = dec_str 1 n
      \<and> \<bar>real n / 10 - real (unat c) * 10 ^ 9 / real (unat w)\<bar> \<le> 1 / 20 + real (unat c) * 10 ^ 9 / real (unat w) / 2 ^ 50)
   \<and> (\<exists>n. fmt_f 1 (avg_us s k) = dec_str 1 n
      \<and> \<bar>real n / 10 - (if k = 0 then 0 else real (unat s) / real (unat k) / 1000)\<bar>
          \<le> 1 / 20 + (if k = 0 then 0 else real (unat s) / real (unat k) / 1000) / 2 ^ 50)
   \<and> (\<exists>n. fmt_f 1 (total_hz s k) = dec_str 1 n
      \<and> \<bar>real n / 10 - (if k = 0 \<or> s = 0 then 0 else real (unat k) * 10 ^ 9 / real (unat s))\<bar>
          \<le> 1 / 20 + (if k = 0 \<or> s = 0 then 0 else real (unat k) * 10 ^ 9 / real (unat s)) / 2 ^ 50)"
proof (intro conjI)
  have zero: "scaled 1 (d_nat 0) = 0" by (simp add: scaled_def d_nat_def fl_def round_div_def)
  show "\<exists>n. fmt_f 1 (win_hz c w) = dec_str 1 n
      \<and> \<bar>real n / 10 - real (unat c) * 10 ^ 9 / real (unat w)\<bar> \<le> 1 / 20 + real (unat c) * 10 ^ 9 / real (unat w) / 2 ^ 50"
    using printed_near[OF near_win_hz[OF assms, of c], of 1]
    by (intro exI[of _ "scaled 1 (win_hz c w)"]) (simp add: fmt_f_def)
  show "\<exists>n. fmt_f 1 (avg_us s k) = dec_str 1 n
      \<and> \<bar>real n / 10 - (if k = 0 then 0 else real (unat s) / real (unat k) / 1000)\<bar>
          \<le> 1 / 20 + (if k = 0 then 0 else real (unat s) / real (unat k) / 1000) / 2 ^ 50"
  proof (cases "k = 0")
    case True
    then show ?thesis using zero by (intro exI[of _ 0]) (simp add: avg_us_def fmt_f_def)
  next
    case False
    then show ?thesis using printed_near[OF near_avg_us[OF False, of s], of 1]
      by (intro exI[of _ "scaled 1 (avg_us s k)"]) (simp add: fmt_f_def)
  qed
  show "\<exists>n. fmt_f 1 (total_hz s k) = dec_str 1 n
      \<and> \<bar>real n / 10 - (if k = 0 \<or> s = 0 then 0 else real (unat k) * 10 ^ 9 / real (unat s))\<bar>
          \<le> 1 / 20 + (if k = 0 \<or> s = 0 then 0 else real (unat k) * 10 ^ 9 / real (unat s)) / 2 ^ 50"
  proof (cases "k = 0 \<or> s = 0")
    case True
    moreover have "s = 0 \<Longrightarrow> k \<noteq> 0 \<Longrightarrow> \<not> d_less (d_nat 0) (avg_us s k)"
      using near_pos[OF near_avg_us[of k s]] by (simp add: d_less_def d_nat_def[of 0] fl_def)
    ultimately have "total_hz s k = d_nat 0" by (auto simp: total_hz_def)
    then show ?thesis using True zero by (intro exI[of _ 0]) (auto simp: fmt_f_def)
  next
    case False
    then have pos: "0 < real (unat s) / real (unat k) / 1000" by (simp add: unat_gt_0)
    have k: "k \<noteq> 0" using False by simp
    have "near (0 + 4 + 1) (d_div (d_nat (10 ^ 6)) (avg_us s k)) (real (10 ^ 6) / (real (unat s) / real (unat k) / 1000))"
      by (rule near_div[OF near_exact near_avg_us[OF k] _ pos]) simp_all
    moreover have "real (10 ^ 6) / (real (unat s) / real (unat k) / 1000) = real (unat k) * 10 ^ 9 / real (unat s)"
      by (simp add: mult.commute)
    moreover have "d_less (d_nat 0) (avg_us s k)"
      using near_pos[OF near_avg_us[OF k, of s]] pos near_avg_us[OF k, of s] by (simp add: d_less_def d_nat_def[of 0] fl_def near_def)
    then have "total_hz s k = d_div (d_nat (10 ^ 6)) (avg_us s k)" using k by (simp add: total_hz_def)
    ultimately have n: "near 5 (total_hz s k) (real (unat k) * 10 ^ 9 / real (unat s))" by (simp add: mult.commute)
    show ?thesis using printed_near[OF n, of 1] False
      by (intro exI[of _ "scaled 1 (total_hz s k)"]) (simp add: fmt_f_def)
  qed
qed

theorem hid_rates_accurate_witness:
  "\<exists>n. fmt_f 1 (win_hz 125 1000000000) = dec_str 1 n \<and> \<bar>real n / 10 - 125\<bar> \<le> 1 / 20 + 125 / 2 ^ 50"
  using hid_rates_accurate[of 1000000000 125 0 0] by simp

section \<open>JSON lines\<close>

lemma decimal_members [simp]:
  "plain k \<Longrightarrow> (k, fmt_f (Suc 0) x) = jmember (k, JF 0 (scaled (Suc 0) x))"
  "plain k \<Longrightarrow> (k, fmt_f 2 x) = jmember (k, JF 1 (scaled 2 x))"
  "plain k \<Longrightarrow> (k, if b then ''true'' else ''false'') = jmember (k, JB b)"
  by (simp_all add: jmember_def escs_plain fmt_f_render)

lemma vb2_op_plain [simp]: "plain (vb2_op_str p)"
  by (simp add: vb2_op_str_def DQ_def BS_def)

definition fps_vals :: "u64 \<Rightarrow> u64 \<Rightarrow> u32 \<Rightarrow> u32 \<Rightarrow> (string \<times> jval) list" where
  "fps_vals s n lo hi =
     [(''avg_fps'', JF 0 (scaled 1 (avg_fps s n))), (''min_fps'', JF 0 (scaled 1 (fps_of hi))), (''max_fps'', JF 0 (scaled 1 (fps_of lo)))]"

lemma fps_members_vals: "fps_members s n lo hi = map jmember (fps_vals s n lo hi)"
  by (simp add: fps_members_def fps_vals_def DQ_def BS_def)


definition gap_vals :: "uvc_fstats \<Rightarrow> uvc_vbstats \<Rightarrow> (string \<times> jval) list" where
  "gap_vals f v =
     [(''event'', JS ''uvc_gap_summary''), (''wire_fps'', JF 0 (scaled 1 (avg_fps (fs_sum_interval_ns f) (fs_intervals f)))),
      (''vb2_fps'', JF 0 (scaled 1 (avg_fps (vs_sum_interval_ns v) (vs_intervals v)))),
      (''wire_drops'', JN (int (unat (fs_errored f)))), (''vb2_seq_gaps'', JN (int (unat (vs_seq_gaps v)))),
      (''vb2_starved'', JN (int (unat (vs_starved v)))),
      (''avg_wire_to_vb2_ms'',
       JF 1 (scaled 2 (if vs_wire_corr v \<noteq> 0
                       then d_div (d_quot (unat (vs_sum_wire_to_vb2_ns v)) (unat (vs_wire_corr v))) (d_nat (10 ^ 6)) else d_nat 0)))]"

lemma avg_fps_0: "(if n \<noteq> 0 then avg_fps s n else d_nat 0) = avg_fps s n"
  by (simp add: avg_fps_def fps_of_def d_trunc_def d_nat_def fl_def)

lemma show_dec_member: "plain k \<Longrightarrow> (k, show_dec n) = jmember (k, JN (int n))"
  by (simp add: jmember_def escs_plain show_long_def)

lemma request_member:
  assumes "ue_has_setup u \<noteq> 0" "plain k"
  shows "(k, jstr (jesc_str 193 (request_text u))) = jmember (k, JS (setup_text (ue_setup u)))"
proof -
  have "request_text u = setup_text (ue_setup u)"
    using assms(1) setup_text_ok[of "ue_setup u"] by (simp add: request_text_def format_setup_def snprintf_s_def)
  moreover have "jesc_str 193 (setup_text (ue_setup u)) = setup_text (ue_setup u)"
    using setup_text_ok[of "ue_setup u"] by (intro jesc_plain) auto
  ultimately show ?thesis using assms(2) setup_text_ok[of "ue_setup u"] by simp
qed

lemma role_plain [simp]: "plain (role_str r)"
  by (cases r) (simp_all add: DQ_def BS_def)

definition slot_dev_vals :: "hid_rate_slot \<Rightarrow> (string \<times> jval) list" where
  "slot_dev_vals s =
     [(''vid'', JS (''0x'' @ hex04 (hs_vid s))), (''pid'', JS (''0x'' @ hex04 (hs_product s))),
      (''bus'', JN (int (unat (hs_busnum s)))), (''dev'', JN (int (unat (hs_devnum s))))]"

lemma slot_dev_members_vals: "slot_dev_members s = map jmember (slot_dev_vals s)"
  by (simp add: slot_dev_members_def slot_dev_vals_def DQ_def BS_def)

text \<open>C36: The JSON lines of the uvc, urb and hid modules are well-formed objects that read back to the names and numbers of the
  record, or of the statistics, they were printed from: frames, buffers, the parts of the uvc summary, URBs, report rates and the hid summary.\<close>

theorem stream_json_reads_back:
  "json_parse (print_frame True e) =
     Some [(''event'', JS ''uvc_frame''), (''errored'', JN (int (unat (fe_errored e)))), (''eof'', JN (int (unat (fe_eof e)))),
       (''bytes'', JN (int (unat (fe_bytes e)))), (''packets'', JN (int (unat (fe_packets e)))),
       (''err_packets'', JN (int (unat (fe_err_packets e)))), (''duration_us'', JF 0 (scaled 1 (us_of (fe_duration_ns e)))),
       (''interval_us'', JF 0 (scaled 1 (us_of (fe_interval_ns e)))), (''fps'', JF 0 (scaled 1 (fps_of (fe_interval_ns e)))),
       (''pts'', JN (int (unat (fe_pts e)))), (''scr_stc'', JN (int (unat (fe_scr_stc e)))), (''vid'', JS (''0x'' @ hex04 (fe_vid e))),
       (''pid'', JS (''0x'' @ hex04 (fe_product e))), (''bus'', JN (int (unat (fe_busnum e)))),
       (''dev'', JN (int (unat (fe_devnum e)))), (''comm'', JS (shown (fe_comm e)))]
   \<and> json_parse (print_vb2 True v) =
     Some [(''event'', JS ''uvc_vb2''), (''op'', JS (vb2_op_str (ve_vb2_op v))), (''sequence'', JN (int (unat (ve_sequence v)))),
       (''seq_gap'', JN (int (unat (ve_seq_gap v)))), (''starved'', JN (int (unat (ve_starved v)))),
       (''num_buffers'', JN (int (unat (ve_num_buffers v)))), (''queued'', JN (int (unat (ve_queued v)))),
       (''drv_owned'', JN (int (unat (ve_drv_owned v)))), (''bytesused'', JN (int (unat (ve_bytesused v)))),
       (''interval_us'', JF 0 (scaled 1 (us_of (ve_interval_ns v)))), (''fps'', JF 0 (scaled 1 (fps_of (ve_interval_ns v)))),
       (''wire_to_vb2_us'', JF 0 (scaled 1 (us_of (ve_wire_to_vb2_ns v)))), (''state'', JN (int (unat (ve_state v)))),
       (''buf_index'', JN (int (unat (ve_buf_index v)))), (''vb2_ts'', JN (int (unat (ve_vb2_timestamp v)))),
       (''vid'', JS (''0x'' @ hex04 (ve_vid v))), (''pid'', JS (''0x'' @ hex04 (ve_product v))),
       (''bus'', JN (int (unat (ve_busnum v)))), (''dev'', JN (int (unat (ve_devnum v)))), (''comm'', JS (shown (ve_comm v)))]
   \<and> json_parse (uvc_frame_summary True fs) =
     Some ([(''event'', JS ''uvc_frame_summary''), (''frames'', JN (int (unat (fs_frames fs)))),
        (''errored'', JN (int (unat (fs_errored fs)))), (''bytes'', JN (int (unat (fs_bytes fs))))]
      @ fps_vals (fs_sum_interval_ns fs) (fs_intervals fs) (fs_min_interval_ns fs) (fs_max_interval_ns fs))
   \<and> json_parse (uvc_vb2_summary True vs) =
     Some ([(''event'', JS ''uvc_vb2_summary''), (''done'', JN (int (unat (vs_done vs)))),
        (''seq_gaps'', JN (int (unat (vs_seq_gaps vs)))), (''starved'', JN (int (unat (vs_starved vs)))),
        (''bytes'', JN (int (unat (vs_bytes vs))))]
      @ fps_vals (vs_sum_interval_ns vs) (vs_intervals vs) (vs_min_interval_ns vs) (vs_max_interval_ns vs))
   \<and> json_parse (uvc_drv_summary True drop_ok ds) =
     Some [(''event'', JS ''uvc_drv_summary''), (''received'', JN (int (unat (dr_received ds)))),
       (''dropped'', JN (int (unat (dr_dropped ds)))), (''drop_short'', JN (int (unat (dr_drop_short ds)))),
       (''drop_iso'', JN (int (unat (dr_drop_iso ds)))), (''drop_other'', JN (int (unat (dr_drop_other ds)))),
       (''drop_hook'', JB drop_ok)]
   \<and> json_parse (uvc_gap_summary True fs vs notes) = Some (gap_vals fs vs)
   \<and> json_parse (urb_print_json u) =
     Some ([(''event'', JS (if ue_is_submit u \<noteq> 0 then ''submit'' else ''complete'')), (''type'', JS (xfer_str (ue_xfer_type u))),
       (''ep'', JN (int (unat (ue_ep u)))), (''dir'', JS (if ue_dir_in u \<noteq> 0 then ''in'' else ''out'')),
       (''actual'', JN (int (unat (ue_actual u)))), (''length'', JN (int (unat (ue_length u)))), (''status'', JN (sint (ue_status u))),
       (''latency_us'', JF 0 (scaled 1 (latency_us (ue_latency_ns u)))), (''vid'', JS (''0x'' @ hex04 (ue_vid u))),
       (''pid'', JS (''0x'' @ hex04 (ue_product u))), (''bus'', JN (int (unat (ue_busnum u)))), (''dev'', JN (int (unat (ue_devnum u)))),
       (''comm'', JS (shown (ue_comm u)))]
      @ (if ue_has_setup u \<noteq> 0
         then [(''bmRequestType'', JS (''0x'' @ hex02 (ue_setup u ! 0))), (''bRequest'', JN (int (unat (ue_setup u ! 1)))),
               (''wValue'', JN (int (setup_le16 (ue_setup u) 2))), (''wIndex'', JN (int (setup_le16 (ue_setup u) 4))),
               (''wLength'', JN (int (setup_le16 (ue_setup u) 6))), (''request'', JS (setup_text (ue_setup u)))]
         else []))
   \<and> json_parse (rate_line_text True ho (s, w)) =
     Some ([(''event'', JS ''hid_rate''), (''role'', JS (role_str (hs_role s))), (''ep'', JN (int (unat (hs_ep s)))),
       (''hz'', JF 0 (scaled 1 (win_hz (hs_win_count s) w))),
       (''avg_us'', JF 0 (scaled 1 (avg_us (hs_win_sum_iv_ns s) (hs_win_iv_count s)))),
       (''min_us'', JF 0 (scaled 1 (iv_us (hs_win_min_iv_ns s)))), (''max_us'', JF 0 (scaled 1 (iv_us (hs_win_max_iv_ns s)))),
       (''reports'', JN (int (unat (hs_win_count s)))), (''gaps'', JN (int (unat (hs_win_gaps s)))),
       (''window_s'', JN (int (unat (ho_rate_sec ho))))] @ slot_dev_vals s)
   \<and> json_parse (slot_summary_text True s) =
     Some ([(''event'', JS ''hid_rate_summary''), (''role'', JS (role_str (hs_role s))), (''ep'', JN (int (unat (hs_ep s)))),
       (''hz'', JF 0 (scaled 1 (total_hz (hs_total_sum_iv_ns s) (hs_total_iv_count s)))),
       (''avg_us'', JF 0 (scaled 1 (avg_us (hs_total_sum_iv_ns s) (hs_total_iv_count s)))),
       (''min_us'', JF 0 (scaled 1 (iv_us (hs_total_min_iv_ns s)))), (''max_us'', JF 0 (scaled 1 (iv_us (hs_total_max_iv_ns s)))),
       (''reports'', JN (int (unat (hs_total_count s)))), (''gaps'', JN (int (unat (hs_total_gaps s)))),
       (''err_urbs'', JN (int (unat (hs_err_urbs s))))] @ slot_dev_vals s)"
proof (intro conjI)
  show "json_parse (print_frame True e) =
     Some [(''event'', JS ''uvc_frame''), (''errored'', JN (int (unat (fe_errored e)))), (''eof'', JN (int (unat (fe_eof e)))),
       (''bytes'', JN (int (unat (fe_bytes e)))), (''packets'', JN (int (unat (fe_packets e)))),
       (''err_packets'', JN (int (unat (fe_err_packets e)))), (''duration_us'', JF 0 (scaled 1 (us_of (fe_duration_ns e)))),
       (''interval_us'', JF 0 (scaled 1 (us_of (fe_interval_ns e)))), (''fps'', JF 0 (scaled 1 (fps_of (fe_interval_ns e)))),
       (''pts'', JN (int (unat (fe_pts e)))), (''scr_stc'', JN (int (unat (fe_scr_stc e)))), (''vid'', JS (''0x'' @ hex04 (fe_vid e))),
       (''pid'', JS (''0x'' @ hex04 (fe_product e))), (''bus'', JN (int (unat (fe_busnum e)))),
       (''dev'', JN (int (unat (fe_devnum e)))), (''comm'', JS (shown (fe_comm e)))]"
    unfolding print_frame_def if_True by (rule json_obj_vals) (simp_all add: fps_members_vals DQ_def BS_def)
  show "json_parse (print_vb2 True v) =
     Some [(''event'', JS ''uvc_vb2''), (''op'', JS (vb2_op_str (ve_vb2_op v))), (''sequence'', JN (int (unat (ve_sequence v)))),
       (''seq_gap'', JN (int (unat (ve_seq_gap v)))), (''starved'', JN (int (unat (ve_starved v)))),
       (''num_buffers'', JN (int (unat (ve_num_buffers v)))), (''queued'', JN (int (unat (ve_queued v)))),
       (''drv_owned'', JN (int (unat (ve_drv_owned v)))), (''bytesused'', JN (int (unat (ve_bytesused v)))),
       (''interval_us'', JF 0 (scaled 1 (us_of (ve_interval_ns v)))), (''fps'', JF 0 (scaled 1 (fps_of (ve_interval_ns v)))),
       (''wire_to_vb2_us'', JF 0 (scaled 1 (us_of (ve_wire_to_vb2_ns v)))), (''state'', JN (int (unat (ve_state v)))),
       (''buf_index'', JN (int (unat (ve_buf_index v)))), (''vb2_ts'', JN (int (unat (ve_vb2_timestamp v)))),
       (''vid'', JS (''0x'' @ hex04 (ve_vid v))), (''pid'', JS (''0x'' @ hex04 (ve_product v))),
       (''bus'', JN (int (unat (ve_busnum v)))), (''dev'', JN (int (unat (ve_devnum v)))), (''comm'', JS (shown (ve_comm v)))]"
    unfolding print_vb2_def if_True by (rule json_obj_vals) (simp_all add: fps_members_vals DQ_def BS_def)
  show "json_parse (uvc_frame_summary True fs) =
     Some ([(''event'', JS ''uvc_frame_summary''), (''frames'', JN (int (unat (fs_frames fs)))),
        (''errored'', JN (int (unat (fs_errored fs)))), (''bytes'', JN (int (unat (fs_bytes fs))))]
      @ fps_vals (fs_sum_interval_ns fs) (fs_intervals fs) (fs_min_interval_ns fs) (fs_max_interval_ns fs))"
    unfolding uvc_frame_summary_def if_True by (rule json_obj_vals) (simp_all add: fps_members_vals DQ_def BS_def)
  show "json_parse (uvc_vb2_summary True vs) =
     Some ([(''event'', JS ''uvc_vb2_summary''), (''done'', JN (int (unat (vs_done vs)))),
        (''seq_gaps'', JN (int (unat (vs_seq_gaps vs)))), (''starved'', JN (int (unat (vs_starved vs)))),
        (''bytes'', JN (int (unat (vs_bytes vs))))]
      @ fps_vals (vs_sum_interval_ns vs) (vs_intervals vs) (vs_min_interval_ns vs) (vs_max_interval_ns vs))"
    unfolding uvc_vb2_summary_def if_True by (rule json_obj_vals) (simp_all add: fps_members_vals DQ_def BS_def)
  show "json_parse (uvc_drv_summary True drop_ok ds) =
     Some [(''event'', JS ''uvc_drv_summary''), (''received'', JN (int (unat (dr_received ds)))),
       (''dropped'', JN (int (unat (dr_dropped ds)))), (''drop_short'', JN (int (unat (dr_drop_short ds)))),
       (''drop_iso'', JN (int (unat (dr_drop_iso ds)))), (''drop_other'', JN (int (unat (dr_drop_other ds)))),
       (''drop_hook'', JB drop_ok)]"
    unfolding uvc_drv_summary_def if_True by (rule json_obj_vals) (simp_all add: fps_members_vals DQ_def BS_def)
  show "json_parse (uvc_gap_summary True fs vs notes) = Some (gap_vals fs vs)"
    unfolding uvc_gap_summary_def Let_def if_True avg_fps_0 gap_vals_def by (rule json_obj_vals) (simp_all add: DQ_def BS_def)
  show "json_parse (urb_print_json u) =
     Some ([(''event'', JS (if ue_is_submit u \<noteq> 0 then ''submit'' else ''complete'')), (''type'', JS (xfer_str (ue_xfer_type u))),
       (''ep'', JN (int (unat (ue_ep u)))), (''dir'', JS (if ue_dir_in u \<noteq> 0 then ''in'' else ''out'')),
       (''actual'', JN (int (unat (ue_actual u)))), (''length'', JN (int (unat (ue_length u)))), (''status'', JN (sint (ue_status u))),
       (''latency_us'', JF 0 (scaled 1 (latency_us (ue_latency_ns u)))), (''vid'', JS (''0x'' @ hex04 (ue_vid u))),
       (''pid'', JS (''0x'' @ hex04 (ue_product u))), (''bus'', JN (int (unat (ue_busnum u)))), (''dev'', JN (int (unat (ue_devnum u)))),
       (''comm'', JS (shown (ue_comm u)))]
      @ (if ue_has_setup u \<noteq> 0
         then [(''bmRequestType'', JS (''0x'' @ hex02 (ue_setup u ! 0))), (''bRequest'', JN (int (unat (ue_setup u ! 1)))),
               (''wValue'', JN (int (setup_le16 (ue_setup u) 2))), (''wIndex'', JN (int (setup_le16 (ue_setup u) 4))),
               (''wLength'', JN (int (setup_le16 (ue_setup u) 6))), (''request'', JS (setup_text (ue_setup u)))]
         else []))"
    unfolding urb_print_json_def hex_id_def[symmetric]
    by (rule json_obj_vals, cases "ue_has_setup u = 0")
      (simp_all add: hex02_ok show_dec_member request_member DQ_def BS_def)
qed (simp_all only: rate_line_text_def slot_summary_text_def fst_conv snd_conv Let_def if_True,
  (rule json_obj_vals; simp add: slot_dev_members_vals DQ_def BS_def)+)

end
