(* ===== verification/Diag_Text.thy ===== *)
theory Diag_Text
  imports Diag_Session Dev_Consumer Ut_Float
begin

text \<open>
  What the rule engine prints (\<open>print_finding\<close> and \<open>diag_engine_report\<close> in \<open>engine.c\<close>): a finding with its evidence,
  as text and as a JSON line with a nested array, and the summary. Findings go to standard output, the text summary to
  standard error.
\<close>

section \<open>Names\<close>

definition vb2_op_label :: "u8 \<Rightarrow> string" where
  "vb2_op_label op =
     (if op = 1 then ''queue'' else if op = 2 then ''qbuf'' else if op = 3 then ''dqbuf'' else if op = 4 then ''STARVE'' else ''done'')"

definition diag_power_action_str :: "u8 \<Rightarrow> string" where
  "diag_power_action_str a =
     (if a = 0 then ''autosuspend'' else if a = 1 then ''autoresume'' else if a = 2 then ''port_suspend''
      else if a = 3 then ''port_resume'' else ''?'')"

definition kind_str :: "u32 \<Rightarrow> string" where
  "kind_str k =
     (if k = 1 then ''urb'' else if k = 2 then ''enum'' else if k = 3 then ''power'' else if k = 4 then ''lifecycle''
      else if k = 5 then ''class'' else if k = 6 then ''uvc_frame'' else if k = 7 then ''uvc_vb2''
      else if k = USBTRACE_EVT_HUB then ''hub'' else ''?'')"

section \<open>Evidence\<close>

definition ev_fps :: "u32 \<Rightarrow> dbl" where
  "ev_fps interval_ns = (if interval_ns \<noteq> 0 then d_quot (10 ^ 9) (unat interval_ns) else d_nat 0)"

definition ev_ms :: "u32 \<Rightarrow> dbl" where
  "ev_ms ns = d_quot (unat ns) (10 ^ 6)"

text \<open>The distance of an event from the reference time, in milliseconds and in seconds.\<close>

definition ev_dt_ms :: "u64 \<Rightarrow> diag_event \<Rightarrow> dbl" where
  "ev_dt_ms ref_ns x = d_quot (unat (ref_ns - ev_ts_ns x)) (10 ^ 6)"

definition ev_dt_s :: "u64 \<Rightarrow> diag_event \<Rightarrow> dbl" where
  "ev_dt_s ref_ns x = d_quot (unat (ref_ns - ev_ts_ns x)) (10 ^ 9)"

definition evidence_json :: "u64 \<Rightarrow> diag_event \<Rightarrow> string" where
  "evidence_json ref_ns x =
     (let dt = (''dt_ms'', fmt_f 1 (ev_dt_ms ref_ns x)) in
      if ev_kind x = USBTRACE_EVT_UVC_FRAME then
        json_sub [dt, (''kind'', jstr ''uvc_frame''), (''fps'', fmt_f 1 (ev_fps (ev_frame_interval_ns x))),
          (''interval_ms'', fmt_f 1 (ev_ms (ev_frame_interval_ns x))), (''bytes'', fmt_u (ev_frame_bytes x)),
          (''errored'', fmt_u (ev_frame_errored x))]
      else if ev_kind x = USBTRACE_EVT_UVC_VB2 then
        json_sub [dt, (''kind'', jstr ''uvc_vb2''), (''op'', jstr (vb2_op_label (ev_vb2_op x))), (''seq'', fmt_u (ev_vb2_sequence x)),
          (''seq_gap'', fmt_u (ev_vb2_seq_gap x)), (''starved'', fmt_u (ev_vb2_starved x)), (''pool'', fmt_u (ev_vb2_num_buffers x)),
          (''queued'', fmt_u (ev_vb2_queued x)), (''drv_owned'', fmt_u (ev_vb2_drv_owned x)),
          (''fps'', fmt_f 1 (ev_fps (ev_vb2_interval_ns x))), (''interval_ms'', fmt_f 1 (ev_ms (ev_vb2_interval_ns x))),
          (''bytes'', fmt_u (ev_vb2_bytesused x)), (''wire_to_vb2_ms'', fmt_f 3 (ev_ms (ev_wire_to_vb2_ns x)))]
      else if ev_kind x = USBTRACE_EVT_POWER then
        json_sub [dt, (''kind'', jstr ''power''), (''action'', jstr (diag_power_action_str (ev_action x)))]
      else json_sub [dt, (''kind'', jstr (kind_str (ev_kind x))), (''status'', fmt_d (ev_status x))])"

text \<open>\<open>"    %+8.3fs "\<close> of the negated distance: a negative zero keeps its sign.\<close>

definition ev_when :: "u64 \<Rightarrow> diag_event \<Rightarrow> string" where
  "ev_when ref_ns x = ''    '' @ pad_left 8 (CHR ''-'' # fmt_f 3 (ev_dt_s ref_ns x)) @ ''s ''"

definition ev_pool :: "diag_event \<Rightarrow> string" where
  "ev_pool x =
     ''pool='' @ fmt_u (ev_vb2_num_buffers x) @ '' q='' @ fmt_u (ev_vb2_queued x) @ '' drv='' @ fmt_u (ev_vb2_drv_owned x)"

definition vb2_evidence_text :: "diag_event \<Rightarrow> string" where
  "vb2_evidence_text x =
     (if ev_vb2_starved x \<noteq> 0 \<or> ev_vb2_op x = 4 \<or> (ev_vb2_op x \<noteq> 0 \<and> ev_vb2_op x \<noteq> 4)
      then ''uvc_vb2 '' @ pad_right 6 (vb2_op_label (ev_vb2_op x)) @ '' '' @ ev_pool x
      else ''uvc_vb2 '' @ pad_right 4 (if ev_vb2_seq_gap x \<noteq> 0 then ''GAP'' else ''ok'') @ '' seq='' @ fmt_u (ev_vb2_sequence x) @ '' ''
             @ pad_left 5 (fmt_f 1 (ev_fps (ev_vb2_interval_ns x))) @ ''fps intv=''
             @ pad_left 5 (fmt_f 1 (ev_ms (ev_vb2_interval_ns x))) @ ''ms '' @ fmt_u (ev_vb2_bytesused x) @ ''B '' @ ev_pool x
             @ (if ev_wire_to_vb2_ns x \<noteq> 0 then '' w2v='' @ fmt_f 2 (ev_ms (ev_wire_to_vb2_ns x)) @ ''ms'' else []))"

definition evidence_text :: "u64 \<Rightarrow> diag_event \<Rightarrow> string" where
  "evidence_text ref_ns x =
     ev_when ref_ns x @
     (if ev_kind x = USBTRACE_EVT_URB then
        ''urb '' @ pad_right 8 (if ev_is_submit x \<noteq> 0 then ''submit'' else ''complete'') @ '' ep'' @ fmt_u (ev_ep x) @ '' ''
        @ (if ev_dir_in x \<noteq> 0 then ''IN'' else ''OUT'') @ '' status='' @ fmt_d (ev_status x)
        @ (if ev_has_setup x \<noteq> 0 then '' setup'' else [])
      else if ev_kind x = USBTRACE_EVT_UVC_FRAME then
        ''uvc_frame '' @ pad_right 4 (if ev_frame_errored x \<noteq> 0 then ''DROP'' else ''ok'') @ '' ''
        @ pad_left 5 (fmt_f 1 (ev_fps (ev_frame_interval_ns x))) @ ''fps intv=''
        @ pad_left 5 (fmt_f 1 (ev_ms (ev_frame_interval_ns x))) @ ''ms '' @ fmt_u (ev_frame_bytes x) @ ''B''
      else if ev_kind x = USBTRACE_EVT_UVC_VB2 then vb2_evidence_text x
      else if ev_kind x = USBTRACE_EVT_POWER then ''power '' @ diag_power_action_str (ev_action x)
      else if ev_kind x = USBTRACE_EVT_HUB then ''hub action='' @ fmt_u (ev_action x) @ '' port='' @ fmt_u (ev_portnum x)
      else if ev_kind x = USBTRACE_EVT_LIFECYCLE then
        ''lifecycle action='' @ fmt_u (ev_action x) @ '' reset_resume='' @ fmt_u (ev_reset_resume x)
      else if ev_kind x = USBTRACE_EVT_ENUM then
        ''enum step='' @ fmt_u (ev_step x) @ '' status='' @ fmt_d (ev_status x) @ '' '' @ fmt_u (ev_old_state x) @ ''->''
        @ fmt_u (ev_new_state x)
      else kind_str (ev_kind x)) @ [LF]"

section \<open>Findings and the summary\<close>

text \<open>A rule always has an id once loaded (\<open>parse_rule\<close> refuses one without); the C library prints a null string as \<open>(null)\<close>.\<close>

definition id_str :: "string option \<Rightarrow> string" where
  "id_str i = (case i of Some s \<Rightarrow> s | None \<Rightarrow> ''(null)'')"

text \<open>The line for the rule the finding comes from, which says whether there is a fix to show.\<close>

definition finding_text :: "bool \<Rightarrow> diag_rule \<Rightarrow> finding \<Rightarrow> string" where
  "finding_text json r fd =
     (if json then
        json_obj [(''event'', jstr ''diag''), (''severity'', jstr (sev_str (fd_severity fd))), (''rule'', jstr (id_str (fd_id fd))),
          (''vid'', hex_id (fd_vid fd)), (''pid'', hex_id (fd_pid fd)), (''bus'', fmt_u (key_busnum (fd_key fd))),
          (''dev'', fmt_u (key_devnum (fd_key fd))), (''count'', show_long (fd_count fd)),
          (''conclusion'', jstr (jesc_str 1024 (fd_conclusion fd))), (''fix'', jstr (jesc_str 1024 (fd_fix fd))),
          (''evidence'', json_array (map (evidence_json (fd_ref_ns fd)) (fd_evidence fd)))]
      else
        [LF] @ ''[DIAG] '' @ pad_right 5 (sev_str (fd_severity fd)) @ '' '' @ pad_right 22 (id_str (fd_id fd)) @ '' ''
        @ hex04 (fd_vid fd) @ '':'' @ hex04 (fd_pid fd) @ '' bus'' @ fmt_u (key_busnum (fd_key fd)) @ ''-dev''
        @ fmt_u (key_devnum (fd_key fd)) @ [LF]
        @ ''  conclusion: '' @ fd_conclusion fd @ [LF]
        @ (if r_fix r \<noteq> None \<and> r_fix r \<noteq> Some [] then ''  fix:        '' @ fd_fix fd @ [LF] else [])
        @ (if fd_evidence fd \<noteq> [] then
             ''  evidence:'' @ [LF] @ concat (map (evidence_text (fd_ref_ns fd)) (fd_evidence fd)) else []))"

definition findings_text :: "bool \<Rightarrow> diag_rule list \<Rightarrow> finding list \<Rightarrow> string" where
  "findings_text json rules fds = concat (map (\<lambda>fd. finding_text json (rules ! fd_rule fd) fd) fds)"

fun summary_text :: "bool \<Rightarrow> summary \<Rightarrow> string" where
  "summary_text True NoFindings = []"
| "summary_text True (Summary hits rows) =
     json_obj [(''event'', jstr ''diag_summary''), (''total'', fmt_u hits),
       (''rules'', json_array (map (\<lambda>(i, n). json_sub [(''rule'', jstr (id_str i)), (''hits'', fmt_u n)]) rows))]"
| "summary_text False NoFindings = [LF] @ ''--- diag summary ---'' @ [LF] @ ''no findings.'' @ [LF]"
| "summary_text False (Summary hits rows) =
     [LF] @ ''--- diag summary ---'' @ [LF] @ ''total findings: '' @ fmt_u hits @ [LF]
     @ concat (map (\<lambda>(i, n). ''  '' @ pad_right 24 (id_str i) @ '' '' @ fmt_u n @ [LF]) rows)"

text \<open>What a run writes: standard output, and the text summary on standard error.\<close>

definition diag_output :: "bool \<Rightarrow> diag_rule list \<Rightarrow> diag_result \<Rightarrow> string \<times> string" where
  "diag_output json rules r =
     (let lines = findings_text json rules (dg_findings r);
          sm = (case dg_summary r of None \<Rightarrow> [] | Some s \<Rightarrow> summary_text json s)
      in if json then (lines @ sm, []) else (lines, sm))"

end
