(* ===== verification/Diag_Text_Props.thy ===== *)
theory Diag_Text_Props
  imports Diag_Text Dev_Consumer_Props
begin

text \<open>
  The JSON lines of the rule engine: a finding with its evidence and the summary read back to what they were printed from,
  provided the rule ids need no escaping, which the engine does not apply to them.
\<close>

section \<open>Members\<close>

text \<open>What a reader gets back of a C string printed through an escape buffer of \<open>n\<close> bytes.\<close>

definition shown_str :: "nat \<Rightarrow> string \<Rightarrow> string" where
  "shown_str n s = (case json_decode (jesc_str n s) of Some t \<Rightarrow> t | None \<Rightarrow> [])"

lemma jesc_str_spec:
  assumes "0 < n"
  obtains k where "jesc_str n s = escs (take k (cstr s))" "length (escs (cstr s)) + 1 < n \<longrightarrow> take k (cstr s) = cstr s"
proof -
  have "jesc_str n s = escape_loop n (cstr s) []" using assms by (simp add: jesc_str_def usbtrace_json_escape_def)
  moreover obtain k where "escape_loop n (cstr s) [] = escs (take k (cstr s))"
    "length (escs (cstr s)) + 1 < n \<longrightarrow> k = length (cstr s)"
    using escape_loop_prefix[of "cstr s" n "[]"] unfolding escs_def by auto
  ultimately show thesis using that by auto
qed

lemma jesc_shown_str:
  assumes "0 < n"
  shows "jesc_str n s = escs (shown_str n s)" "\<exists>k. shown_str n s = take k (cstr s)"
    "length (escs (cstr s)) + 1 < n \<Longrightarrow> shown_str n s = cstr s"
proof -
  obtain k where k: "jesc_str n s = escs (take k (cstr s))" "length (escs (cstr s)) + 1 < n \<longrightarrow> take k (cstr s) = cstr s"
    using jesc_str_spec[OF assms] by blast
  then have sh: "shown_str n s = take k (cstr s)" by (simp add: shown_str_def escs_def decode_escape_all)
  then show "jesc_str n s = escs (shown_str n s)" "\<exists>k. shown_str n s = take k (cstr s)"
    "length (escs (cstr s)) + 1 < n \<Longrightarrow> shown_str n s = cstr s"
    using k by auto
qed

lemma diag_plain [simp]: "plain (sev_str s)" "plain (vb2_op_label p)" "plain (diag_power_action_str a)" "plain (kind_str k)"
  by (cases s) (simp_all add: vb2_op_label_def diag_power_action_str_def kind_str_def DQ_def BS_def)

lemma fmt_f_3: "fmt_f 3 x = jrender (JF 2 (scaled 3 x))"
  using fmt_f_render(1)[of 2 x] by simp

lemma diag_members [simp]:
  "plain k \<Longrightarrow> (k, fmt_f (Suc 0) x) = jmember (k, JF 0 (scaled (Suc 0) x))"
  "plain k \<Longrightarrow> (k, fmt_f 3 x) = jmember (k, JF 2 (scaled 3 x))"
  "plain k \<Longrightarrow> (k, show_long i) = jmember (k, JN i)"
  "plain k \<Longrightarrow> (k, jstr (jesc_str 1024 s)) = jmember (k, JS (shown_str 1024 s))"
  by (simp_all add: jmember_def escs_plain fmt_f_render fmt_f_3 jesc_shown_str(1))

lemma array_member:
  assumes "plain k" "\<And>x. x \<in> set xs \<Longrightarrow> f x = json_sub (map jmember (g x))"
  shows "(k, json_array (map f xs)) = jmember (k, JA (map g xs))"
proof -
  have "map f xs = map (\<lambda>ms. json_sub (map jmember ms)) (map g xs)" using assms(2) by simp
  then have "json_array (map f xs) = jrender (JA (map g xs))" by (simp only: jrender_array)
  then show ?thesis using assms(1) by (simp add: jmember_def escs_plain)
qed

text \<open>A good member is consumed; a string value with a bare quote in it makes the line unreadable.\<close>

lemma parse_members_step:
  assumes "length (jrender v) \<le> n"
  shows "parse_members (Suc n) (jstr (escs k) @ CHR '':'' # jrender v @ CHR '','' # rest)
    = map_option (\<lambda>(ms, u). ((k, v) # ms, u)) (parse_members n rest)"
  using parse_render_all(1)[of "CHR '','' # rest" v n] assms by (simp add: parse_str_escs)

lemma parse_members_bad: "parse_members n (jstr (escs k) @ CHR '':'' # DQ # CHR ''a'' # DQ # CHR ''b'' # rest) = None"
proof (cases n)
  case (Suc m)
  have "parse_str (DQ # CHR ''a'' # DQ # CHR ''b'' # rest) = Some (''a'', CHR ''b'' # rest)"
    by (simp add: parse_str_def) (simp add: DQ_def BS_def)
  then show ?thesis by (cases m) (simp_all add: Suc parse_str_escs)
qed simp

lemma bad_third_member:
  assumes "ms \<noteq> []"
  shows "json_parse (json_obj (jmember (k1, v1) # jmember (k2, v2) # (escs k, jstr [CHR ''a'', DQ, CHR ''b'']) # ms)) = None"
proof -
  define bad where "bad = jstr (escs k) @ CHR '':'' # DQ # CHR ''a'' # DQ # CHR ''b'' # DQ # CHR '','' # json_members ms @ [CHR ''}'', LF]"
  define two where "two = jstr (escs k2) @ CHR '':'' # jrender v2 @ CHR '','' # bad"
  define one where "one = jstr (escs k1) @ CHR '':'' # jrender v1 @ CHR '','' # two"
  have obj: "json_obj (jmember (k1, v1) # jmember (k2, v2) # (escs k, jstr [CHR ''a'', DQ, CHR ''b'']) # ms) = CHR ''{'' # one"
    using assms by (cases ms) (simp_all add: json_obj_def jmember_def one_def two_def bad_def jstr_def)
  define m where "m = length one - 1"
  have n: "length (CHR ''{'' # one) = Suc (Suc m)" by (simp add: m_def one_def)
  have len: "length (jrender v1) \<le> Suc m" "length (jrender v2) \<le> m" by (simp_all add: m_def one_def two_def)
  have "parse_members m bad = None" unfolding bad_def by (rule parse_members_bad)
  then have "parse_members (Suc m) two = None" unfolding two_def parse_members_step[OF len(2)] by (simp only: option.map)
  then have "parse_members (Suc (Suc m)) one = None" unfolding one_def parse_members_step[OF len(1)] by (simp only: option.map)
  then show ?thesis unfolding obj json_parse_def n by (simp del: parse_members.simps)
qed

section \<open>Evidence\<close>

definition evidence_vals :: "u64 \<Rightarrow> diag_event \<Rightarrow> (string \<times> jval) list" where
  "evidence_vals ref_ns x =
     (''dt_ms'', JF 0 (scaled 1 (ev_dt_ms ref_ns x))) #
     (if ev_kind x = USBTRACE_EVT_UVC_FRAME then
        [(''kind'', JS ''uvc_frame''), (''fps'', JF 0 (scaled 1 (ev_fps (ev_frame_interval_ns x)))),
         (''interval_ms'', JF 0 (scaled 1 (ev_ms (ev_frame_interval_ns x)))), (''bytes'', JN (int (unat (ev_frame_bytes x)))),
         (''errored'', JN (int (unat (ev_frame_errored x))))]
      else if ev_kind x = USBTRACE_EVT_UVC_VB2 then
        [(''kind'', JS ''uvc_vb2''), (''op'', JS (vb2_op_label (ev_vb2_op x))), (''seq'', JN (int (unat (ev_vb2_sequence x)))),
         (''seq_gap'', JN (int (unat (ev_vb2_seq_gap x)))), (''starved'', JN (int (unat (ev_vb2_starved x)))),
         (''pool'', JN (int (unat (ev_vb2_num_buffers x)))), (''queued'', JN (int (unat (ev_vb2_queued x)))),
         (''drv_owned'', JN (int (unat (ev_vb2_drv_owned x)))), (''fps'', JF 0 (scaled 1 (ev_fps (ev_vb2_interval_ns x)))),
         (''interval_ms'', JF 0 (scaled 1 (ev_ms (ev_vb2_interval_ns x)))), (''bytes'', JN (int (unat (ev_vb2_bytesused x)))),
         (''wire_to_vb2_ms'', JF 2 (scaled 3 (ev_ms (ev_wire_to_vb2_ns x))))]
      else if ev_kind x = USBTRACE_EVT_POWER then [(''kind'', JS ''power''), (''action'', JS (diag_power_action_str (ev_action x)))]
      else [(''kind'', JS (kind_str (ev_kind x))), (''status'', JN (sint (ev_status x)))])"

lemma evidence_members: "evidence_json ref_ns x = json_sub (map jmember (evidence_vals ref_ns x))"
  by (simp add: evidence_json_def evidence_vals_def Let_def DQ_def BS_def)

text \<open>C16: A finding's JSON line, and the JSON summary, are well-formed objects that read back to the finding: severity, rule,
  device, count, the two messages (a prefix of each, the whole message whenever its escaping fits 1024 bytes) and every piece of
  evidence with its distance in time, rates and times. This holds for rules whose id has no quote, backslash or control
  character: ids are printed unescaped, and a line with the id a"b is not JSON.\<close>

theorem finding_json_reads_back:
  assumes "plain (id_str (fd_id fd))" "list_all (\<lambda>(i, n). plain (id_str i)) rows"
  shows "json_parse (finding_text True r fd) =
      Some [(''event'', JS ''diag''), (''severity'', JS (sev_str (fd_severity fd))), (''rule'', JS (id_str (fd_id fd))),
        (''vid'', JS (''0x'' @ hex04 (fd_vid fd))), (''pid'', JS (''0x'' @ hex04 (fd_pid fd))),
        (''bus'', JN (int (unat (key_busnum (fd_key fd))))), (''dev'', JN (int (unat (key_devnum (fd_key fd))))),
        (''count'', JN (fd_count fd)), (''conclusion'', JS (shown_str 1024 (fd_conclusion fd))),
        (''fix'', JS (shown_str 1024 (fd_fix fd))), (''evidence'', JA (map (evidence_vals (fd_ref_ns fd)) (fd_evidence fd)))]
    \<and> json_parse (summary_text True (Summary hits rows)) =
      Some [(''event'', JS ''diag_summary''), (''total'', JN (int (unat hits))),
        (''rules'', JA (map (\<lambda>(i, n). [(''rule'', JS (id_str i)), (''hits'', JN (int (unat n)))]) rows))]
    \<and> (\<exists>k. shown_str 1024 s = take (if length (escs (cstr s)) + 1 < 1024 then length (cstr s) else k) (cstr s))
    \<and> json_parse (finding_text True r (fd\<lparr> fd_id := Some [CHR ''a'', DQ, CHR ''b''] \<rparr>)) = None"
proof (intro conjI)
  have ev: "(''evidence'', json_array (map (evidence_json (fd_ref_ns fd)) (fd_evidence fd)))
      = jmember (''evidence'', JA (map (evidence_vals (fd_ref_ns fd)) (fd_evidence fd)))"
    by (rule array_member) (simp_all add: evidence_members DQ_def BS_def)
  show "json_parse (finding_text True r fd) =
      Some [(''event'', JS ''diag''), (''severity'', JS (sev_str (fd_severity fd))), (''rule'', JS (id_str (fd_id fd))),
        (''vid'', JS (''0x'' @ hex04 (fd_vid fd))), (''pid'', JS (''0x'' @ hex04 (fd_pid fd))),
        (''bus'', JN (int (unat (key_busnum (fd_key fd))))), (''dev'', JN (int (unat (key_devnum (fd_key fd))))),
        (''count'', JN (fd_count fd)), (''conclusion'', JS (shown_str 1024 (fd_conclusion fd))),
        (''fix'', JS (shown_str 1024 (fd_fix fd))), (''evidence'', JA (map (evidence_vals (fd_ref_ns fd)) (fd_evidence fd)))]"
    unfolding finding_text_def if_True ev by (rule json_obj_vals) (simp_all add: assms(1) DQ_def BS_def)
  have rows: "(''rules'', json_array (map (\<lambda>(i, n). json_sub [(''rule'', jstr (id_str i)), (''hits'', fmt_u n)]) rows))
      = jmember (''rules'', JA (map (\<lambda>(i, n). [(''rule'', JS (id_str i)), (''hits'', JN (int (unat n)))]) rows))"
    using assms(2) by (intro array_member) (auto simp: list_all_iff DQ_def BS_def)
  show "json_parse (summary_text True (Summary hits rows)) =
      Some [(''event'', JS ''diag_summary''), (''total'', JN (int (unat hits))),
        (''rules'', JA (map (\<lambda>(i, n). [(''rule'', JS (id_str i)), (''hits'', JN (int (unat n)))]) rows))]"
    unfolding summary_text.simps rows by (rule json_obj_vals) (simp_all add: DQ_def BS_def)
  show "\<exists>k. shown_str 1024 s = take (if length (escs (cstr s)) + 1 < 1024 then length (cstr s) else k) (cstr s)"
    using jesc_shown_str(2,3)[of 1024 s] by (cases "length (escs (cstr s)) + 1 < 1024") simp_all
  show "json_parse (finding_text True r (fd\<lparr> fd_id := Some [CHR ''a'', DQ, CHR ''b''] \<rparr>)) = None"
  proof -
    have m: "(''event'', jstr ''diag'') = jmember (''event'', JS ''diag'')"
      "(''severity'', jstr (sev_str (fd_severity fd))) = jmember (''severity'', JS (sev_str (fd_severity fd)))"
      "''rule'' = escs ''rule''" by (simp_all add: escs_plain DQ_def BS_def)
    let ?bad = "fd\<lparr> fd_id := Some [CHR ''a'', DQ, CHR ''b''] \<rparr>"
    have "\<exists>ms. ms \<noteq> [] \<and> finding_text True r x = json_obj ((''event'', jstr ''diag'')
        # (''severity'', jstr (sev_str (fd_severity x))) # (''rule'', jstr (id_str (fd_id x))) # ms)" for x
      unfolding finding_text_def if_True by (rule exI, rule conjI[OF _ refl]) simp
    from this[of ?bad] obtain ms where "ms \<noteq> []" "finding_text True r ?bad = json_obj ((''event'', jstr ''diag'')
        # (''severity'', jstr (sev_str (fd_severity fd))) # (''rule'', jstr [CHR ''a'', DQ, CHR ''b'']) # ms)"
      by (auto simp: id_str_def simp del: members diag_members)
    then show ?thesis unfolding m(1,2)
      using bad_third_member[where k = "''rule''", unfolded m(3)[symmetric], of ms] by metis
  qed
qed

theorem finding_json_reads_back_witness:
  "map_option (map fst) (json_parse (finding_text True undefined
       \<lparr> fd_rule = 0, fd_severity = SEV_WARN, fd_id = Some ''slow-enum'', fd_vid = 1, fd_pid = 2, fd_key = undefined, fd_ref_ns = 0,
          fd_count = 1, fd_conclusion = ''c'', fd_fix = ''f'', fd_evidence = [] \<rparr>))
   = Some [''event'', ''severity'', ''rule'', ''vid'', ''pid'', ''bus'', ''dev'', ''count'', ''conclusion'', ''fix'', ''evidence'']"
  using finding_json_reads_back[of "\<lparr> fd_rule = 0, fd_severity = SEV_WARN, fd_id = Some ''slow-enum'', fd_vid = 1, fd_pid = 2,
      fd_key = undefined, fd_ref_ns = 0, fd_count = 1, fd_conclusion = ''c'', fd_fix = ''f'', fd_evidence = [] \<rparr>" "[]" undefined]
  by (simp add: id_str_def DQ_def BS_def)

end
