(* ===== verification/Record_Types.thy ===== *)
theory Record_Types
  imports Urb_Probe Dev_Probes Uvc_Drv Class_Stream
begin

text \<open>
  The typing of the records between the programs and the consumers: whatever a program reads from the kernel and whatever
  its maps hold, every record it submits carries the kind and the size of its structure in its header and strings of the
  declared lengths, so its bytes decode, by the kind, to the record that was submitted.
\<close>

section \<open>Records of all kinds\<close>

datatype any_rec =
    UrbR urb_event | EnumR enum_event | PowerR power_rec | LifecycleR lifecycle_event | HubR hub_event
  | ClassR class_urb_event | FrameR uvc_frame_event | Vb2R uvc_vb2_event | DrvR uvc_drv_event

fun rec_wf :: "any_rec \<Rightarrow> bool" where
  "rec_wf (UrbR e) = wf_urb_event e" | "rec_wf (EnumR e) = wf_enum_event e" | "rec_wf (PowerR e) = wf_power_rec e"
| "rec_wf (LifecycleR e) = wf_lifecycle_event e" | "rec_wf (HubR e) = wf_hub_event e"
| "rec_wf (ClassR e) = wf_class_urb_event e" | "rec_wf (FrameR e) = wf_uvc_frame_event e"
| "rec_wf (Vb2R e) = wf_uvc_vb2_event e" | "rec_wf (DrvR e) = wf_uvc_drv_event e"

fun rec_hdr :: "any_rec \<Rightarrow> usbtrace_event_hdr" where
  "rec_hdr (UrbR e) = ue_hdr e" | "rec_hdr (EnumR e) = ee_hdr e" | "rec_hdr (PowerR e) = pe_hdr e"
| "rec_hdr (LifecycleR e) = le_hdr e" | "rec_hdr (HubR e) = he_hdr e" | "rec_hdr (ClassR e) = ce_hdr e"
| "rec_hdr (FrameR e) = fe_hdr e" | "rec_hdr (Vb2R e) = ve_hdr e" | "rec_hdr (DrvR e) = de_hdr e"

text \<open>The kind and the size of the structure of each kind of record.\<close>

fun rec_kind :: "any_rec \<Rightarrow> u32" where
  "rec_kind (UrbR e) = USBTRACE_EVT_URB" | "rec_kind (EnumR e) = USBTRACE_EVT_ENUM" | "rec_kind (PowerR e) = USBTRACE_EVT_POWER"
| "rec_kind (LifecycleR e) = USBTRACE_EVT_LIFECYCLE" | "rec_kind (HubR e) = USBTRACE_EVT_HUB"
| "rec_kind (ClassR e) = USBTRACE_EVT_CLASS" | "rec_kind (FrameR e) = USBTRACE_EVT_UVC_FRAME"
| "rec_kind (Vb2R e) = USBTRACE_EVT_UVC_VB2" | "rec_kind (DrvR e) = USBTRACE_EVT_UVC_DRV"

fun rec_sizeof :: "any_rec \<Rightarrow> nat" where
  "rec_sizeof (UrbR e) = 80" | "rec_sizeof (EnumR e) = 72" | "rec_sizeof (PowerR e) = 64" | "rec_sizeof (LifecycleR e) = 64"
| "rec_sizeof (HubR e) = 72" | "rec_sizeof (ClassR e) = 72" | "rec_sizeof (FrameR e) = 80" | "rec_sizeof (Vb2R e) = 80"
| "rec_sizeof (DrvR e) = 32"

fun rec_bytes :: "any_rec \<Rightarrow> u8 list" where
  "rec_bytes (UrbR e) = enc_urb_event e" | "rec_bytes (EnumR e) = enc_enum_event e" | "rec_bytes (PowerR e) = enc_power_rec e"
| "rec_bytes (LifecycleR e) = enc_lifecycle_event e" | "rec_bytes (HubR e) = enc_hub_event e"
| "rec_bytes (ClassR e) = enc_class_urb_event e" | "rec_bytes (FrameR e) = enc_uvc_frame_event e"
| "rec_bytes (Vb2R e) = enc_uvc_vb2_event e" | "rec_bytes (DrvR e) = enc_uvc_drv_event e"

text \<open>What a consumer does with the bytes it is handed: the kind in the header selects the structure, which must fit.\<close>

definition rec_read :: "u8 list \<Rightarrow> any_rec option" where
  "rec_read bs =
     (let k = h_kind (dec_hdr bs); fits = (\<lambda>n r. if n \<le> length bs then Some r else None) in
      if length bs < 16 then None
      else if k = USBTRACE_EVT_URB then fits 80 (UrbR (dec_urb_event bs))
      else if k = USBTRACE_EVT_ENUM then fits 72 (EnumR (dec_enum_event bs))
      else if k = USBTRACE_EVT_POWER then fits 64 (PowerR (dec_power_rec bs))
      else if k = USBTRACE_EVT_LIFECYCLE then fits 64 (LifecycleR (dec_lifecycle_event bs))
      else if k = USBTRACE_EVT_HUB then fits 72 (HubR (dec_hub_event bs))
      else if k = USBTRACE_EVT_CLASS then fits 72 (ClassR (dec_class_urb_event bs))
      else if k = USBTRACE_EVT_UVC_FRAME then fits 80 (FrameR (dec_uvc_frame_event bs))
      else if k = USBTRACE_EVT_UVC_VB2 then fits 80 (Vb2R (dec_uvc_vb2_event bs))
      else if k = USBTRACE_EVT_UVC_DRV then fits 32 (DrvR (dec_uvc_drv_event bs))
      else None)"

definition rec_ok :: "any_rec \<Rightarrow> bool" where
  "rec_ok r \<longleftrightarrow> rec_wf r \<and> h_kind (rec_hdr r) = rec_kind r \<and> unat (h_size (rec_hdr r)) = rec_sizeof r"

lemma rec_bytes_hdr: "dec_hdr (rec_bytes r @ bs) = rec_hdr r"
  by (cases r) (simp_all add: enc_urb_event_def enc_enum_event_def enc_power_rec_def enc_lifecycle_event_def enc_hub_event_def
      enc_class_urb_event_def enc_uvc_frame_event_def enc_uvc_vb2_event_def enc_uvc_drv_event_def dec_hdr_append)

lemma rec_ok_reads:
  assumes "rec_ok r"
  shows "length (rec_bytes r) = rec_sizeof r" "rec_read (rec_bytes r @ bs) = Some r"
proof -
  have wf: "rec_wf r" and k: "h_kind (rec_hdr r) = rec_kind r" using assms by (simp_all add: rec_ok_def)
  show len: "length (rec_bytes r) = rec_sizeof r"
    using wf by (cases r) (simp_all add: ue.enc_length ee.enc_length pe.enc_length le.enc_length he.enc_length
        ce.enc_length fe.enc_length ve.enc_length de.enc_length)
  show "rec_read (rec_bytes r @ bs) = Some r"
    unfolding rec_read_def Let_def rec_bytes_hdr k using len wf
    by (cases r) (simp_all add: ut_const ue.dec_enc_append ee.dec_enc_append pe.dec_enc_append le.dec_enc_append he.dec_enc_append
        ce.dec_enc_append fe.dec_enc_append ve.dec_enc_append de.dec_enc_append)
qed

section \<open>The programs\<close>

text \<open>What the kernel and its helpers guarantee of the sizes of what they hand out: the command name has
  \<open>TASK_COMM_LEN\<close> bytes, \<open>usb_device.devpath\<close> is \<open>char[16]\<close>, a successful read of eight bytes yields eight.\<close>

definition kernel_sizes :: "'x bpf_env_scheme \<Rightarrow> bool" where
  "kernel_sizes en \<longleftrightarrow>
     length (en_comm en) = 16 \<and> (\<forall>p. length (ud_devpath (en_usb_device en p)) = 16)
     \<and> (\<forall>p bs. en_probe_read en p 8 = Some bs \<longrightarrow> length bs = 8)"

datatype hub_hook = Port_reset u64 u64 u64 | Port_disable u64 u64 | Set_port_power u64 u64 u64 u64 | Overcurrent u64

fun hub_hit :: "dev_config \<Rightarrow> dev_env \<times> hub_hook \<Rightarrow> hub_event list" where
  "hub_hit cfg (en, Port_reset a b c) = on_port_reset cfg en a b c"
| "hub_hit cfg (en, Port_disable a b) = on_port_disable cfg en a b"
| "hub_hit cfg (en, Set_port_power a b c d) = on_set_port_power cfg en a b c d"
| "hub_hit cfg (en, Overcurrent a) = on_overcurrent cfg en a"

datatype class_hook = Hid_irq_in u64 | Hid_irq_out u64 | Uac_complete u64 | Storage_complete u64

fun class_hit :: "usbtrace_class_config \<Rightarrow> bpf_env \<times> class_hook \<Rightarrow> class_urb_event list" where
  "class_hit cfg (en, Hid_irq_in a) = on_irq_in cfg en a"
| "class_hit cfg (en, Hid_irq_out a) = on_irq_out cfg en a"
| "class_hit cfg (en, Uac_complete a) = uac_on_complete cfg en a"
| "class_hit cfg (en, Storage_complete a) = storage_on_complete cfg en a"

fun uvc_rec :: "uvc_out \<Rightarrow> any_rec" where
  "uvc_rec (ClassRec e) = ClassR e" | "uvc_rec (FrameRec e) = FrameR e" | "uvc_rec (Vb2Rec e) = Vb2R e" | "uvc_rec (DrvRec e) = DrvR e"

text \<open>A hit of a hook of one of the nine programs, with its configuration, environment and the maps it finds.\<close>

datatype prog_hit =
    Urb_hit urb_config "bpf_env \<times> urb_hook" "u64 \<rightharpoonup> u64"
  | Enum_hit dev_config "dev_env \<times> enum_hook" enum_maps
  | Lifecycle_hit dev_config "dev_env \<times> lifecycle_hook" "u64 \<rightharpoonup> u64"
  | Power_hit dev_config dev_env power_hook u64
  | Hub_hit dev_config "dev_env \<times> hub_hook"
  | Class_hit usbtrace_class_config "bpf_env \<times> class_hook"
  | Uvc_hit uvc_config "drv_env \<times> uvc_hook" uvc_maps

fun submitted :: "prog_hit \<Rightarrow> any_rec list" where
  "submitted (Urb_hit cfg h m) = map UrbR (snd (urb_hit cfg h m))"
| "submitted (Enum_hit cfg h m) = map EnumR (snd (enum_hit cfg h m))"
| "submitted (Lifecycle_hit cfg h m) = map LifecycleR (snd (lifecycle_hit cfg h m))"
| "submitted (Power_hit cfg en k a) = map PowerR (power_hit cfg en k a)"
| "submitted (Hub_hit cfg h) = map HubR (hub_hit cfg h)"
| "submitted (Class_hit cfg h) = map ClassR (class_hit cfg h)"
| "submitted (Uvc_hit cfg h m) = map uvc_rec (snd (uvc_hit cfg h m))"

fun hit_sizes :: "prog_hit \<Rightarrow> bool" where
  "hit_sizes (Urb_hit cfg h m) = kernel_sizes (fst h)"
| "hit_sizes (Enum_hit cfg h m) = kernel_sizes (fst h)"
| "hit_sizes (Lifecycle_hit cfg h m) = kernel_sizes (fst h)"
| "hit_sizes (Power_hit cfg en k a) = kernel_sizes en"
| "hit_sizes (Hub_hit cfg h) = kernel_sizes (fst h)"
| "hit_sizes (Class_hit cfg h) = kernel_sizes (fst h)"
| "hit_sizes (Uvc_hit cfg h m) = kernel_sizes (fst h)"

section \<open>Every program\<close>

lemmas rec_ok_simps = rec_ok_def wf_urb_event_def wf_enum_event_def wf_power_rec_def wf_lifecycle_event_def wf_hub_event_def
  wf_class_urb_event_def wf_uvc_frame_event_def wf_uvc_vb2_event_def wf_uvc_drv_event_def

lemma fill_common_ok:
  assumes "kernel_sizes en"
  shows "rec_ok (UrbR (fill_common en u vid pid
      (event0\<lparr> ue_hdr := \<lparr> h_kind = USBTRACE_EVT_URB, h_size = 80, h_ts_ns = ts \<rparr>, ue_is_submit := 1 \<rparr>)))"
    "rec_ok (UrbR (fill_common en u vid pid
      (event0\<lparr> ue_hdr := \<lparr> h_kind = USBTRACE_EVT_URB, h_size = 80, h_ts_ns = ts \<rparr>, ue_is_submit := 0, ue_latency_ns := l,
         ue_status := st, ue_actual := ac \<rparr>)))"
  using assms by (auto simp: kernel_sizes_def rec_ok_simps fill_common_def fill_setup_def event0_def Let_def split: option.splits)

lemma class_emit_ok: "kernel_sizes en \<Longrightarrow> list_all (\<lambda>e. rec_ok (ClassR e)) (usbtrace_class_urb_emit en p v d k)"
  by (auto simp: usbtrace_class_urb_emit_def kernel_sizes_def rec_ok_simps Let_def split: option.splits)

lemma enum_ok: "kernel_sizes en \<Longrightarrow> list_all (\<lambda>e. rec_ok (EnumR e)) (emit_enum cfg en u a b c d)"
  by (auto simp: emit_enum_def kernel_sizes_def rec_ok_simps Let_def split: option.splits)

lemma lifecycle_ok: "kernel_sizes en \<Longrightarrow> list_all (\<lambda>e. rec_ok (LifecycleR e)) (lifecycle_emit cfg en u a)"
  by (auto simp: lifecycle_emit_def kernel_sizes_def rec_ok_simps Let_def split: option.splits)

lemma power_ok: "kernel_sizes en \<Longrightarrow> list_all (\<lambda>e. rec_ok (PowerR e)) (power_emit cfg en u a)"
  by (auto simp: power_emit_def kernel_sizes_def rec_ok_simps Let_def split: option.splits)

lemma hub_ok: "kernel_sizes en \<Longrightarrow> list_all (\<lambda>e. rec_ok (HubR e)) (emit_dev cfg en u a b c d)"
  by (auto simp: emit_dev_def kernel_sizes_def rec_ok_simps Let_def split: option.splits)

abbreviation "outs_ok \<equiv> list_all (\<lambda>o'. rec_ok (uvc_rec o'))"

lemma vb2_submit_ok: "kernel_sizes en \<Longrightarrow> outs_ok (snd (uvc_vb2_submit en q b op st sv now sq gap iv w ms))"
  by (auto simp: uvc_vb2_submit_def uvc_vb2_fill_device_def vb2_record_def kernel_sizes_def rec_ok_simps Let_def
      split: option.splits prod.splits)

lemma starvation_ok: "kernel_sizes en \<Longrightarrow> outs_ok (snd (uvc_check_starvation en bus dev now ms))"
  using vb2_submit_ok by (auto simp: uvc_check_starvation_def split: option.splits prod.splits)

lemma emit_frame_ok:
  assumes "kernel_sizes en" "outs_ok (snd (snd s))"
  shows "outs_ok (snd (snd (uvc_emit_frame en ids eof now s)))"
  using assms starvation_ok[OF assms(1)]
  by (auto simp: uvc_emit_frame_def frame_record_def kernel_sizes_def rec_ok_simps Let_def split_beta)

lemma payload_ok:
  assumes "kernel_sizes en" "outs_ok (snd (snd s))"
  shows "outs_ok (snd (snd (uvc_payload en ids now hdr len s)))"
  using assms emit_frame_ok[OF assms(1)]
  by (cases s) (auto simp: uvc_payload_def Let_def split_beta)

lemma packet_ok:
  assumes "kernel_sizes en" "outs_ok (snd (snd s))"
  shows "outs_ok (snd (snd (uvc_packet en ids now tb tlen od s)))"
  using assms payload_ok[OF assms(1)]
  by (cases s) (auto simp: uvc_packet_def Let_def split: option.splits)

lemma packets_ok:
  assumes "kernel_sizes en" "outs_ok (snd (snd s))"
  shows "outs_ok (snd (snd (fold (\<lambda>i. uvc_packet en ids now tb tlen (od i)) is s)))"
  using assms(2) by (induction "is" arbitrary: s) (simp_all add: packet_ok[OF assms(1)])

lemma parse_frames_ok: "kernel_sizes en \<Longrightarrow> outs_ok (snd (uvc_parse_frames cfg en p ms))"
  by (simp add: uvc_parse_frames_def Let_def split_beta packets_ok split: option.split)

lemma video_complete_ok: "kernel_sizes en \<Longrightarrow> outs_ok (snd (on_video_complete cfg en a ms))"
  using class_emit_ok[of en] by (simp add: on_video_complete_def Let_def split_beta parse_frames_ok list.pred_map comp_def)

lemma vb2_hit_ok: "kernel_sizes en \<Longrightarrow> outs_ok (snd (vb2_tracepoint_hit tp cfg en q b ms))"
  using vb2_submit_ok
  by (cases tp) (auto simp: uvc_vb2_raw_done_def uvc_vb2_raw_qvb_def uvc_emit_vb2_done_def uvc_emit_vb2_xact_def Let_def
      split: option.splits prod.splits)

lemma drv_hits_ok:
  "outs_ok (snd (on_queue_next cfg en a b ms))" "outs_ok (snd (on_decode_isoc cfg en a b ms))"
  "outs_ok (snd (on_queue_complete cfg en a ms))"
  by (auto simp: on_queue_next_def on_decode_isoc_def on_queue_complete_def uvc_drv_emit_def rec_ok_simps Let_def
      split: option.splits prod.splits)

lemma uvc_hit_ok: "kernel_sizes (fst h) \<Longrightarrow> outs_ok (snd (uvc_hit cfg h ms))"
  using video_complete_ok vb2_hit_ok drv_hits_ok by (cases h; cases "snd h") auto

lemma submitted_ok: "hit_sizes hit \<Longrightarrow> list_all rec_ok (submitted hit)"
proof (induction hit)
  case (Urb_hit cfg h m)
  then show ?case using fill_common_ok
    by (cases h; cases "snd h") (auto simp: on_submit_def on_giveback_def Let_def split: option.splits)
next
  case (Enum_hit cfg h m)
  have "list_all (\<lambda>e. rec_ok (EnumR e)) (snd (pop_emit cfg (fst h) rc k mm))" for rc k mm
    using enum_ok Enum_hit by (auto simp: pop_emit_def Let_def split: option.splits)
  moreover have "list_all (\<lambda>e. rec_ok (EnumR e)) (on_set_state cfg (fst h) a s)" for a s
    using Enum_hit by (simp add: on_set_state_def Let_def enum_ok)
  ultimately show ?case
    by (cases "(cfg, h, m)" rule: enum_hit.cases) (auto simp: list_all_iff Let_def split_beta)
next
  case (Lifecycle_hit cfg h m)
  then show ?case
    by (cases h; cases "snd h")
      (auto simp: list.pred_map comp_def lifecycle_ok on_new_device_exit_def on_disconnect_def on_reset_def Let_def split: option.splits)
next
  case (Power_hit cfg en k a)
  then show ?case by (cases k) (simp_all add: list.pred_map comp_def power_ok)
next
  case (Hub_hit cfg h)
  then show ?case
    by (cases h; cases "snd h")
      (simp_all add: list.pred_map comp_def hub_ok on_port_reset_def on_port_disable_def on_set_port_power_def on_overcurrent_def
        emit_hub_port_def Let_def)
next
  case (Class_hit cfg h)
  then show ?case
    by (cases h; cases "snd h")
      (simp_all add: list.pred_map comp_def class_emit_ok on_irq_in_def on_irq_out_def uac_on_complete_def storage_on_complete_def)
next
  case (Uvc_hit cfg h m)
  then show ?case by (simp add: list.pred_map comp_def uvc_hit_ok)
qed

text \<open>C37: Whatever a hook of one of the nine programs reads and finds in its maps, every record it submits is of its
  type: its header has the kind and the size of its structure, it is written in exactly that many bytes, and a consumer
  that selects the structure by the kind reads back the submitted record, also when more bytes follow.\<close>

theorem submitted_records_typed:
  assumes "hit_sizes hit" "r \<in> set (submitted hit)"
  shows "h_kind (rec_hdr r) = rec_kind r \<and> unat (h_size (rec_hdr r)) = rec_sizeof r
    \<and> length (rec_bytes r) = rec_sizeof r \<and> rec_read (rec_bytes r @ bs) = Some r"
proof -
  have ok: "rec_ok r" using submitted_ok[OF assms(1)] assms(2) by (simp add: list_all_iff)
  then show ?thesis using rec_ok_reads by (simp add: rec_ok_def)
qed

text \<open>A storage completion of a 31-byte command block on device 0781:5583.\<close>

definition demo_kernel :: bpf_env where
  "demo_kernel =
     \<lparr> en_arch32 = False, en_ktime = 7, en_pid_tgid = 0, en_comm = replicate 16 0, en_room = (\<lambda>_ _. True),
       en_usb_device = (\<lambda>_. \<lparr> ud_id_vendor = 0x0781, ud_id_product = 0x5583, ud_busnum = 1, ud_devnum = 2, ud_state = 7, ud_speed = 5,
         ud_portnum = 1, ud_reset_resume = 0, ud_devpath = replicate 16 0 \<rparr>),
       en_urb = (\<lambda>_. \<lparr> urb_dev = 1, urb_pipe = 0, urb_status = 0, urb_error_count = 0, urb_number_of_packets = 0,
         urb_actual_length = 31, urb_transfer_buffer_length = 31, urb_start_frame = 0, urb_transfer_buffer = 0,
         urb_setup_packet = 0, urb_iso_frame_desc = (\<lambda>_. None) \<rparr>),
       en_probe_read = (\<lambda>_ _. None) \<rparr>"

definition demo_completion :: prog_hit where
  "demo_completion = Class_hit \<lparr> cl_filter_vid = 0, cl_filter_pid = 0 \<rparr> (demo_kernel, Storage_complete 4096)"

theorem submitted_records_typed_witness:
  "\<exists>r. submitted demo_completion = [r] \<and> length (rec_bytes r) = 72 \<and> rec_read (rec_bytes r @ [1, 2]) = Some r"
proof -
  have sizes: "hit_sizes demo_completion" by (simp add: demo_completion_def demo_kernel_def kernel_sizes_def)
  have dm: "usbtrace_dev_match (en_usb_device demo_kernel p) 0 0 = Some (0x0781, 0x5583)" for p
    by (simp add: demo_kernel_def usbtrace_dev_match_def Let_def)
  have "en_arch32 demo_kernel = False" by (simp add: demo_kernel_def)
  then obtain e where e: "submitted demo_completion = [ClassR e]"
    using that by (simp add: demo_completion_def storage_on_complete_def usbtrace_class_urb_emit_def USBTRACE_KPTR_def
        USBTRACE_PTR_KEY_def dm Let_def)
  then show ?thesis using submitted_records_typed[OF sizes, of "ClassR e" "[1, 2]"] by simp
qed

end
