(* ===== verification/Poll_Loop.thy ===== *)
theory Poll_Loop
  imports Module_Core Diag_Session
begin

text \<open>
  The two polling loops as they are written, \<open>while (*running)\<close> over an environment without end: \<open>running i\<close> is what the
  \<open>i\<close>-th test of the flag sees and \<open>poll i\<close> what the \<open>i\<close>-th poll delivers and returns. A loop may run forever, which is the
  value \<open>None\<close>. It returns exactly when the flag is cleared or a poll fails for good, and then with the result of the
  model over the list of the polls that took place, on which the other theories build.
\<close>

section \<open>The loop of the harness (run.c)\<close>

partial_function (option) usbtrace_poll_loop ::
  "('r \<Rightarrow> 'c \<Rightarrow> 'c) \<Rightarrow> (nat \<Rightarrow> bool) \<Rightarrow> (nat \<Rightarrow> 'r list \<times> int) \<Rightarrow> nat \<Rightarrow> int \<Rightarrow> 'c \<Rightarrow> (int \<times> 'c \<times> run_act list) option" where
  "usbtrace_poll_loop handle running poll i err ctx =
     (if \<not> running i then Some (err, ctx, [])
      else
        let recs = fst (poll i); err' = snd (poll i); ctx' = fold handle recs ctx in
        if err' < 0 then
          (if err' = - EINTR \<or> err' = - EAGAIN then
             Option.bind (usbtrace_poll_loop handle running poll (i + 1) 0 ctx')
               (\<lambda>(e, c, acts). Some (e, c, PollInterrupted err' # acts))
           else Some (err', ctx', [PollError err']))
        else usbtrace_poll_loop handle running poll (i + 1) err' ctx')"

text \<open>The first index at which the loop stops, and the polls it made.\<close>

definition goes_on :: "(nat \<Rightarrow> bool) \<Rightarrow> (nat \<Rightarrow> bool) \<Rightarrow> nat \<Rightarrow> bool" where
  "goes_on running fatal i \<longleftrightarrow> running i \<and> \<not> fatal i"

definition polls_until :: "(nat \<Rightarrow> bool) \<Rightarrow> (nat \<Rightarrow> 'p) \<Rightarrow> nat \<Rightarrow> nat \<Rightarrow> 'p list" where
  "polls_until running poll i n = map poll [i..<(if running n then Suc n else n)]"

lemma polls_until_step: "i < n \<Longrightarrow> polls_until running poll i n = poll i # polls_until running poll (Suc i) n"
  by (simp add: polls_until_def upt_rec)

lemma polls_until_end: "polls_until running poll n n = (if running n then [poll n] else [])"
  by (simp add: polls_until_def)

lemma harness_loop_returns:
  assumes "i \<le> n" "\<And>k. i \<le> k \<Longrightarrow> k < n \<Longrightarrow> goes_on running (\<lambda>j. fatal_poll (poll j)) k"
    "\<not> goes_on running (\<lambda>j. fatal_poll (poll j)) n"
  shows "usbtrace_poll_loop oe running poll i err ctx = Some (run_loop oe (polls_until running poll i n) err ctx)"
  using assms
proof (induction "n - i" arbitrary: i err ctx)
  case 0
  then have i: "i = n" by simp
  obtain recs e where p: "poll n = (recs, e)" by (cases "poll n")
  show ?case
    unfolding i polls_until_end using 0(4) p
    by (subst usbtrace_poll_loop.simps) (auto simp: goes_on_def fatal_poll_def Let_def)
next
  case (Suc d)
  then have lt: "i < n" by simp
  then have go: "running i" "\<not> fatal_poll (poll i)" using Suc.prems(2)[of i] by (simp_all add: goes_on_def)
  obtain recs e where p: "poll i = (recs, e)" by (cases "poll i")
  have IH: "usbtrace_poll_loop oe running poll (Suc i) err' ctx' = Some (run_loop oe (polls_until running poll (Suc i) n) err' ctx')"
    for err' ctx'
    using Suc.hyps(2) Suc.prems lt by (intro Suc.hyps(1)) auto
  show ?case
    unfolding polls_until_step[OF lt] using go p IH
    by (subst usbtrace_poll_loop.simps) (auto simp: fatal_poll_def Let_def split: prod.split)
qed

lemma harness_loop_stops:
  assumes "usbtrace_poll_loop oe running poll i err ctx = Some y"
  shows "\<exists>n \<ge> i. \<not> goes_on running (\<lambda>j. fatal_poll (poll j)) n"
proof (rule usbtrace_poll_loop.raw_induct
    [where P = "\<lambda>oe running poll i err ctx y. \<exists>n \<ge> i. \<not> goes_on running (\<lambda>j. fatal_poll (poll j)) n", OF _ assms])
  fix f :: "('r \<Rightarrow> 'c \<Rightarrow> 'c) \<Rightarrow> (nat \<Rightarrow> bool) \<Rightarrow> (nat \<Rightarrow> 'r list \<times> int) \<Rightarrow> nat \<Rightarrow> int \<Rightarrow> 'c \<Rightarrow> (int \<times> 'c \<times> run_act list) option"
  fix oe running poll i err ctx y
  assume IH: "\<And>oe running poll i err ctx y. f oe running poll i err ctx = Some y \<Longrightarrow> \<exists>n \<ge> i. \<not> goes_on running (\<lambda>j. fatal_poll (poll j)) n"
    and eq: "(if \<not> running i then Some (err, ctx, [])
      else
        let recs = fst (poll i); err' = snd (poll i); ctx' = fold oe recs ctx in
        if err' < 0 then
          (if err' = - EINTR \<or> err' = - EAGAIN then
             Option.bind (f oe running poll (i + 1) 0 ctx')
               (\<lambda>(e, c, acts). Some (e, c, PollInterrupted err' # acts))
           else Some (err', ctx', [PollError err']))
        else f oe running poll (i + 1) err' ctx') = Some y"
  show "\<exists>n \<ge> i. \<not> goes_on running (\<lambda>j. fatal_poll (poll j)) n"
  proof (cases "goes_on running (\<lambda>j. fatal_poll (poll j)) i")
    case True
    then have "\<exists>err' ctx' y'. f oe running poll (i + 1) err' ctx' = Some y'"
      using eq by (auto simp: goes_on_def fatal_poll_def Let_def bind_eq_Some_conv simp del: split_paired_Ex split: if_splits)
    then show ?thesis using IH by (meson add_leD1)
  qed blast
qed

section \<open>The loop of diag (diag.c)\<close>

partial_function (option) diag_poll_loop :: "(nat \<Rightarrow> bool) \<Rightarrow> (nat \<Rightarrow> poll_result) \<Rightarrow> nat \<Rightarrow> run_st \<Rightarrow> run_st option" where
  "diag_poll_loop running poll i st =
     (if \<not> running i then Some st
      else
        let p = poll i; st1 = (deliver (pl_records p) st)\<lparr> rs_err := pl_err p \<rparr> in
        if pl_err p < 0 then
          (if pl_err p = - EINTR \<or> pl_err p = - EAGAIN then diag_poll_loop running poll (i + 1) (st1\<lparr> rs_err := 0 \<rparr>)
           else Some st1)
        else if pl_now p - rs_last_tick st1 \<ge> TICK_INTERVAL_NS then
          diag_poll_loop running poll (i + 1)
            (st1\<lparr> rs_engine := fst (diag_engine_tick (pl_now p) (rs_engine st1)),
                  rs_out := rs_out st1 @ snd (diag_engine_tick (pl_now p) (rs_engine st1)), rs_last_tick := pl_now p \<rparr>)
        else diag_poll_loop running poll (i + 1) st1)"

definition fatal_result :: "poll_result \<Rightarrow> bool" where
  "fatal_result p \<longleftrightarrow> pl_err p < 0 \<and> pl_err p \<noteq> - EINTR \<and> pl_err p \<noteq> - EAGAIN"

lemma diag_loop_returns:
  assumes "i \<le> n" "\<And>k. i \<le> k \<Longrightarrow> k < n \<Longrightarrow> goes_on running (\<lambda>j. fatal_result (poll j)) k"
    "\<not> goes_on running (\<lambda>j. fatal_result (poll j)) n"
  shows "diag_poll_loop running poll i st = Some (poll_loop (polls_until running poll i n) st)"
  using assms
proof (induction "n - i" arbitrary: i st)
  case 0
  then have i: "i = n" by simp
  show ?case
    unfolding i polls_until_end using 0(4)
    by (subst diag_poll_loop.simps) (auto simp: goes_on_def fatal_result_def Let_def)
next
  case (Suc d)
  then have lt: "i < n" by simp
  then have go: "running i" "\<not> fatal_result (poll i)" using Suc.prems(2)[of i] by (simp_all add: goes_on_def)
  have IH: "diag_poll_loop running poll (Suc i) st' = Some (poll_loop (polls_until running poll (Suc i) n) st')" for st'
    using Suc.hyps(2) Suc.prems lt by (intro Suc.hyps(1)) auto
  show ?case
    unfolding polls_until_step[OF lt] using go IH
    by (subst diag_poll_loop.simps) (auto simp: fatal_result_def Let_def split_beta)
qed

lemma diag_loop_stops:
  assumes "diag_poll_loop running poll i st = Some y"
  shows "\<exists>n \<ge> i. \<not> goes_on running (\<lambda>j. fatal_result (poll j)) n"
proof (rule diag_poll_loop.raw_induct
    [where P = "\<lambda>running poll i st y. \<exists>n \<ge> i. \<not> goes_on running (\<lambda>j. fatal_result (poll j)) n", OF _ assms])
  fix f running poll i st y
  assume IH: "\<And>running poll i st y. f running poll i st = Some y \<Longrightarrow> \<exists>n \<ge> i. \<not> goes_on running (\<lambda>j. fatal_result (poll j)) n"
    and eq: "(if \<not> running i then Some st
      else
        let p = poll i; st1 = (deliver (pl_records p) st)\<lparr> rs_err := pl_err p \<rparr> in
        if pl_err p < 0 then
          (if pl_err p = - EINTR \<or> pl_err p = - EAGAIN then f running poll (i + 1) (st1\<lparr> rs_err := 0 \<rparr>)
           else Some st1)
        else if pl_now p - rs_last_tick st1 \<ge> TICK_INTERVAL_NS then
          f running poll (i + 1)
            (st1\<lparr> rs_engine := fst (diag_engine_tick (pl_now p) (rs_engine st1)),
                  rs_out := rs_out st1 @ snd (diag_engine_tick (pl_now p) (rs_engine st1)), rs_last_tick := pl_now p \<rparr>)
        else f running poll (i + 1) st1) = Some y"
  show "\<exists>n \<ge> i. \<not> goes_on running (\<lambda>j. fatal_result (poll j)) n"
  proof (cases "goes_on running (\<lambda>j. fatal_result (poll j)) i")
    case True
    then have "\<exists>st'. f running poll (i + 1) st' = Some y"
      using eq by (auto simp: goes_on_def fatal_result_def Let_def split: if_splits)
    then show ?thesis using IH by (meson add_leD1)
  qed blast
qed

section \<open>When they return\<close>

lemma first_stop:
  assumes "\<not> go (n :: nat)"
  obtains m where "\<not> go m" "\<And>k. k < m \<Longrightarrow> go k"
  using assms exists_least_iff[of "\<lambda>n. \<not> go n"] by blast

text \<open>C38: The polling loops of the harness and of diag return exactly when at some point the flag is found cleared or a
  poll fails for another reason than an interruption; interruptions alone never end them. The first such point ends the loop,
  and the result is that of the model over the list of the polls made until then, the failing one included.\<close>

theorem poll_loops_terminate:
  "(case usbtrace_poll_loop oe running poll 0 err ctx of
      None \<Rightarrow> (\<nexists>n. \<not> goes_on running (\<lambda>j. fatal_poll (poll j)) n)
    | Some y \<Rightarrow> (\<exists>n. \<not> goes_on running (\<lambda>j. fatal_poll (poll j)) n \<and> list_all (goes_on running (\<lambda>j. fatal_poll (poll j))) [0..<n]
        \<and> y = run_loop oe (map poll [0..<(if running n then Suc n else n)]) err ctx))
   \<and> (case diag_poll_loop running dpoll 0 st of
      None \<Rightarrow> (\<nexists>n. \<not> goes_on running (\<lambda>j. fatal_result (dpoll j)) n)
    | Some y \<Rightarrow> (\<exists>n. \<not> goes_on running (\<lambda>j. fatal_result (dpoll j)) n
        \<and> list_all (goes_on running (\<lambda>j. fatal_result (dpoll j))) [0..<n]
        \<and> y = poll_loop (map dpoll [0..<(if running n then Suc n else n)]) st))"
proof (intro conjI)
  let ?g = "goes_on running (\<lambda>j. fatal_poll (poll j))"
  have stop: "usbtrace_poll_loop oe running poll 0 err ctx = Some (run_loop oe (map poll [0..<(if running m then Suc m else m)]) err ctx)"
    if "\<not> ?g m" "\<And>k. k < m \<Longrightarrow> ?g k" for m
    using harness_loop_returns[of 0 m running poll oe err ctx] that by (simp add: polls_until_def)
  show "case usbtrace_poll_loop oe running poll 0 err ctx of
      None \<Rightarrow> (\<nexists>n. \<not> ?g n)
    | Some y \<Rightarrow> (\<exists>n. \<not> ?g n \<and> list_all ?g [0..<n] \<and> y = run_loop oe (map poll [0..<(if running n then Suc n else n)]) err ctx)"
  proof (cases "\<exists>n. \<not> ?g n")
    case True
    then obtain m where m: "\<not> ?g m" "\<And>k. k < m \<Longrightarrow> ?g k" using first_stop[of ?g] by blast
    show ?thesis using stop[OF m] m by (auto simp: list_all_iff intro!: exI[of _ m])
  next
    case False
    then have "usbtrace_poll_loop oe running poll 0 err ctx = None"
      using harness_loop_stops[of oe running poll 0 err ctx] by (cases "usbtrace_poll_loop oe running poll 0 err ctx") auto
    then show ?thesis using False by simp
  qed
  let ?d = "goes_on running (\<lambda>j. fatal_result (dpoll j))"
  have dstop: "diag_poll_loop running dpoll 0 st = Some (poll_loop (map dpoll [0..<(if running m then Suc m else m)]) st)"
    if "\<not> ?d m" "\<And>k. k < m \<Longrightarrow> ?d k" for m
    using diag_loop_returns[of 0 m running dpoll st] that by (simp add: polls_until_def)
  show "case diag_poll_loop running dpoll 0 st of
      None \<Rightarrow> (\<nexists>n. \<not> ?d n)
    | Some y \<Rightarrow> (\<exists>n. \<not> ?d n \<and> list_all ?d [0..<n] \<and> y = poll_loop (map dpoll [0..<(if running n then Suc n else n)]) st)"
  proof (cases "\<exists>n. \<not> ?d n")
    case True
    then obtain m where m: "\<not> ?d m" "\<And>k. k < m \<Longrightarrow> ?d k" using first_stop[of ?d] by blast
    show ?thesis using dstop[OF m] m by (auto simp: list_all_iff intro!: exI[of _ m])
  next
    case False
    then have "diag_poll_loop running dpoll 0 st = None"
      using diag_loop_stops[of running dpoll 0 st] by (cases "diag_poll_loop running dpoll 0 st") auto
    then show ?thesis using False by simp
  qed
qed

end
