(* ===== verification/Class_Text.thy ===== *)
theory Class_Text
  imports Dev_Consumer
begin

text \<open>
  The user-space modules of the audio and storage classes (\<open>modules/uac/uac.c\<close>, \<open>modules/storage/storage.c\<close>): options,
  configuration and a session of each over the shared class consumer, with what it writes.
\<close>

definition class_ctx0 :: "bool \<Rightarrow> class_stream_ctx" where
  "class_ctx0 all = \<lparr> cx_all = all, cx_stats = \<lparr> cs_urbs = 0, cs_isoc_err = 0, cs_status_err = 0, cs_bytes = 0 \<rparr> \<rparr>"

definition class_output :: "bool \<Rightarrow> string \<Rightarrow> int \<times> class_urb_event list \<times> class_stats option \<Rightarrow> int \<times> string \<times> string" where
  "class_output json modname = (\<lambda>(rc, es, stats).
     let lines = concat (map (class_print_event json) es) in
     case stats of
       None \<Rightarrow> (rc, lines, [])
     | Some st \<Rightarrow>
         if json then (rc, lines @ class_stream_summary True modname st, [])
         else (rc, lines, class_stream_summary_err modname st))"

definition uac_parse_args :: "(int \<times> string) list \<Rightarrow> usbtrace_filter \<times> bool \<Rightarrow> int \<times> usbtrace_filter \<times> bool" where
  "uac_parse_args argv = class_stream_parse_args argv"

definition uac_config_of :: "usbtrace_filter \<Rightarrow> usbtrace_class_config" where
  "uac_config_of f = \<lparr> cl_filter_vid = ucast (flt_vid f), cl_filter_pid = ucast (flt_pid f) \<rparr>"

definition uac_run :: "bool \<Rightarrow> bool \<Rightarrow> bool \<Rightarrow> u8 list run_env \<Rightarrow> int \<times> string \<times> string" where
  "uac_run json all opened env = class_output json ''uac'' (class_run opened env (class_ctx0 all))"

definition storage_parse_args :: "(int \<times> string) list \<Rightarrow> usbtrace_filter \<times> bool \<Rightarrow> int \<times> usbtrace_filter \<times> bool" where
  "storage_parse_args argv = class_stream_parse_args argv"

definition storage_config_of :: "usbtrace_filter \<Rightarrow> usbtrace_class_config" where
  "storage_config_of f = \<lparr> cl_filter_vid = ucast (flt_vid f), cl_filter_pid = ucast (flt_pid f) \<rparr>"

definition storage_run :: "bool \<Rightarrow> bool \<Rightarrow> bool \<Rightarrow> u8 list run_env \<Rightarrow> int \<times> string \<times> string" where
  "storage_run json all opened env = class_output json ''storage'' (class_run opened env (class_ctx0 all))"

end
