(* ===== verification/Getopt.thy ===== *)
theory Getopt
  imports Ut_Cli
begin

text \<open>
  The C library's \<open>getopt_long\<close> as the option parsers of the modules use it: no flag pointers, no optional arguments, and
  an option string that starts with neither a colon nor a sign. It is run to its end: the list of the codes it returns, each
  with \<open>optarg\<close>, before it returns -1. An unknown or ambiguous option, an argument that is missing and one that is not
  wanted give the code of \<open>?\<close>. Words that are not options are skipped, or end the options when \<open>POSIXLY_CORRECT\<close> is set.
\<close>

section \<open>The function\<close>

datatype has_arg = no_argument | required_argument

type_synonym long_option = "string \<times> has_arg \<times> int"

definition GETOPT_ERR :: int where "GETOPT_ERR = of_char CHR ''?''"

text \<open>A character in the option string; a colon after it asks for an argument.\<close>

fun short_opt :: "string \<Rightarrow> char \<Rightarrow> has_arg option" where
  "short_opt [] c = None"
| "short_opt (d # ds) c =
     (if c = CHR '':'' \<or> c = CHR '';'' then None
      else if d = c then Some (if ds \<noteq> [] \<and> hd ds = CHR '':'' then required_argument else no_argument)
      else short_opt ds c)"

text \<open>A long option: the one of that name, or the only one whose name starts with it.\<close>

definition long_opt :: "long_option list \<Rightarrow> string \<Rightarrow> (has_arg \<times> int) option" where
  "long_opt lo name =
     (case filter (\<lambda>(n, _). n = name) lo of
        (_, r) # _ \<Rightarrow> Some r
      | [] \<Rightarrow>
          (case filter (\<lambda>(n, _). take (length name) n = name) lo of
             [(_, r)] \<Rightarrow> Some r
           | _ \<Rightarrow> None))"

text \<open>The rest of a word of short options, with the words that follow it.\<close>

fun short_cluster :: "string \<Rightarrow> string \<Rightarrow> string list \<Rightarrow> (int \<times> string) list \<times> string list" where
  "short_cluster os [] rest = ([], rest)"
| "short_cluster os (c # cs) rest =
     (case short_opt os c of
        None \<Rightarrow> (let (r, rest') = short_cluster os cs rest in ((GETOPT_ERR, []) # r, rest'))
      | Some no_argument \<Rightarrow> (let (r, rest') = short_cluster os cs rest in ((of_char c, []) # r, rest'))
      | Some required_argument \<Rightarrow>
          if cs \<noteq> [] then ([(of_char c, cs)], rest)
          else (case rest of [] \<Rightarrow> ([(GETOPT_ERR, [])], []) | a # rest' \<Rightarrow> ([(of_char c, a)], rest')))"

text \<open>A word \<open>--name\<close> or \<open>--name=value\<close>, without its dashes.\<close>

definition long_word :: "long_option list \<Rightarrow> string \<Rightarrow> string list \<Rightarrow> (int \<times> string) \<times> string list" where
  "long_word lo w rest =
     (let name = takeWhile (\<lambda>c. c \<noteq> CHR ''='') w; val = dropWhile (\<lambda>c. c \<noteq> CHR ''='') w in
      case long_opt lo name of
        None \<Rightarrow> ((GETOPT_ERR, []), rest)
      | Some (no_argument, code) \<Rightarrow> if val \<noteq> [] then ((GETOPT_ERR, []), rest) else ((code, []), rest)
      | Some (required_argument, code) \<Rightarrow>
          if val \<noteq> [] then ((code, tl val), rest)
          else (case rest of [] \<Rightarrow> ((GETOPT_ERR, []), []) | a # rest' \<Rightarrow> ((code, a), rest')))"

lemma short_cluster_shrinks: "length (snd (short_cluster os cs rest)) \<le> length rest"
  by (induction cs) (auto split: option.split has_arg.split list.split prod.split)

lemma long_word_shrinks: "length (snd (long_word lo w rest)) \<le> length rest"
  by (auto simp: long_word_def Let_def split: option.split has_arg.split list.split)

function getopt_long :: "bool \<Rightarrow> string \<Rightarrow> long_option list \<Rightarrow> string list \<Rightarrow> (int \<times> string) list" where
  "getopt_long posix os lo [] = []"
| "getopt_long posix os lo (a # rest) =
     (if a = ''--'' then []
      else if length a < 2 \<or> hd a \<noteq> CHR ''-'' then (if posix then [] else getopt_long posix os lo rest)
      else if take 2 a = ''--'' then fst (long_word lo (drop 2 a) rest) # getopt_long posix os lo (snd (long_word lo (drop 2 a) rest))
      else fst (short_cluster os (tl a) rest) @ getopt_long posix os lo (snd (short_cluster os (tl a) rest)))"
  by pat_completeness auto

termination
  by (relation "measure (\<lambda>(_, _, _, args). length args)")
    (auto simp: less_Suc_eq_le short_cluster_shrinks long_word_shrinks)

section \<open>Lines of well-formed options\<close>

text \<open>A word that is an option on its own, and one given by its value.\<close>

lemma getopt_flag:
  assumes "long_opt lo n = Some (no_argument, c)" "n \<noteq> []" "CHR ''='' \<notin> set n"
  shows "getopt_long posix os lo ((''--'' @ n) # rest) = (c, []) # getopt_long posix os lo rest"
proof -
  have "takeWhile (\<lambda>c. c \<noteq> CHR ''='') n = n" "dropWhile (\<lambda>c. c \<noteq> CHR ''='') n = []"
    using assms(3) by (auto simp: takeWhile_eq_all_conv)
  then show ?thesis using assms(1,2) by (cases n) (simp_all add: long_word_def)
qed

lemma getopt_value:
  assumes "long_opt lo n = Some (required_argument, c)" "n \<noteq> []" "CHR ''='' \<notin> set n"
  shows "getopt_long posix os lo ((''--'' @ n @ ''='' @ v) # rest) = (c, v) # getopt_long posix os lo rest"
    and "getopt_long posix os lo ((''--'' @ n) # v # rest) = (c, v) # getopt_long posix os lo rest"
proof -
  have cut: "takeWhile (\<lambda>c. c \<noteq> CHR ''='') (n @ ''='' @ v) = n" "dropWhile (\<lambda>c. c \<noteq> CHR ''='') (n @ ''='' @ v) = ''='' @ v"
    using assms(3) by (subst takeWhile_append2 dropWhile_append2; auto)+
  show "getopt_long posix os lo ((''--'' @ n @ ''='' @ v) # rest) = (c, v) # getopt_long posix os lo rest"
    using assms(1,2) cut by (cases n) (simp_all add: long_word_def)
  have "takeWhile (\<lambda>c. c \<noteq> CHR ''='') n = n" "dropWhile (\<lambda>c. c \<noteq> CHR ''='') n = []"
    using assms(3) by (auto simp: takeWhile_eq_all_conv)
  then show "getopt_long posix os lo ((''--'' @ n) # v # rest) = (c, v) # getopt_long posix os lo rest"
    using assms(1,2) by (cases n) (simp_all add: long_word_def)
qed

lemma getopt_word:
  assumes "a = [] \<or> hd a \<noteq> CHR ''-''"
  shows "getopt_long False os lo (a # rest) = getopt_long False os lo rest"
  using assms by auto

text \<open>An option as words: a flag, or a value after an equals sign.\<close>

fun opt_word :: "string \<times> string option \<Rightarrow> string" where
  "opt_word (n, None) = ''--'' @ n"
| "opt_word (n, Some v) = ''--'' @ n @ ''='' @ v"

definition known_opt :: "long_option list \<Rightarrow> string \<times> string option \<Rightarrow> bool" where
  "known_opt lo = (\<lambda>(n, v).
     n \<noteq> [] \<and> CHR ''='' \<notin> set n
     \<and> map_option fst (long_opt lo n) = Some (if v = None then no_argument else required_argument))"

definition opt_code :: "long_option list \<Rightarrow> string \<times> string option \<Rightarrow> int \<times> string" where
  "opt_code lo = (\<lambda>(n, v). (snd (the (long_opt lo n)), case v of None \<Rightarrow> [] | Some x \<Rightarrow> x))"

lemma getopt_known:
  "list_all (known_opt lo) ws \<Longrightarrow>
   getopt_long posix os lo (map opt_word ws @ rest) = map (opt_code lo) ws @ getopt_long posix os lo rest"
proof (induction ws)
  case (Cons w ws)
  obtain n v where w: "w = (n, v)" by (cases w)
  show ?case
  proof (cases v)
    case None
    then obtain c where c: "long_opt lo n = Some (no_argument, c)" "n \<noteq> []" "CHR ''='' \<notin> set n"
      using Cons.prems w by (auto simp: known_opt_def)
    then show ?thesis using Cons getopt_flag[OF c] by (simp add: w None opt_code_def del: getopt_long.simps)
  next
    case (Some x)
    then obtain c where c: "long_opt lo n = Some (required_argument, c)" "n \<noteq> []" "CHR ''='' \<notin> set n"
      using Cons.prems w by (auto simp: known_opt_def)
    then show ?thesis using Cons getopt_value(1)[OF c] by (simp add: w Some opt_code_def del: getopt_long.simps)
  qed
qed simp

text \<open>A word that names no option, and is not the argument of one, is reported.\<close>

lemma getopt_unknown:
  assumes "long_opt lo n = None" "n \<noteq> []" "CHR ''='' \<notin> set n"
  shows "getopt_long posix os lo ((''--'' @ n) # rest) = (GETOPT_ERR, []) # getopt_long posix os lo rest"
proof -
  have "takeWhile (\<lambda>c. c \<noteq> CHR ''='') n = n" using assms(3) by (auto simp: takeWhile_eq_all_conv)
  then show ?thesis using assms(1,2) by (cases n) (simp_all add: long_word_def)
qed

end
