(* ===== verification/Ut_Options.thy ===== *)
theory Ut_Options
  imports Getopt Urb_Text Class_Text Hid_Text Uvc_Text Diag_Session
begin

text \<open>
  The options of the ten modules from the words of the command line: the tables given to \<open>getopt_long\<close>, the parsers over
  its results, and the usage texts, line by line. The usage text of every module lists exactly the long options of its
  table; a line of options built from a table parses to those options, and an unknown option is refused.
\<close>

section \<open>The option tables\<close>

definition USBTRACE_FILTER_LONGOPTS :: "long_option list" where
  "USBTRACE_FILTER_LONGOPTS = [(''vid'', required_argument, USBTRACE_OPT_VID), (''pid'', required_argument, USBTRACE_OPT_PID)]"

definition filter_lo :: "long_option list" where
  "filter_lo = USBTRACE_FILTER_LONGOPTS @ [(''help'', no_argument, of_char CHR ''h'')]"

definition class_stream_lo :: "long_option list" where
  "class_stream_lo = USBTRACE_FILTER_LONGOPTS @ [(''all'', no_argument, of_char CHR ''a''), (''help'', no_argument, of_char CHR ''h'')]"

definition urb_lo :: "long_option list" where
  "urb_lo = USBTRACE_FILTER_LONGOPTS @
     [(''submit'', no_argument, of_char CHR ''s''), (''ctrl'', no_argument, of_char CHR ''c''),
      (''help'', no_argument, of_char CHR ''h'')]"

definition uvc_lo :: "long_option list" where
  "uvc_lo = USBTRACE_FILTER_LONGOPTS @
     [(''all'', no_argument, of_char CHR ''a''), (''no-frames'', no_argument, of_char CHR ''F''),
      (''no-vb2'', no_argument, of_char CHR ''B''), (''fps'', required_argument, of_char CHR ''f''),
      (''help'', no_argument, of_char CHR ''h'')]"

definition hid_lo :: "long_option list" where
  "hid_lo = USBTRACE_FILTER_LONGOPTS @
     [(''all'', no_argument, of_char CHR ''a''), (''rate'', no_argument, of_char CHR ''R''),
      (''no-rate'', no_argument, of_char CHR ''N''), (''interval'', required_argument, of_char CHR ''I''),
      (''help'', no_argument, of_char CHR ''h'')]"

definition diag_lo :: "long_option list" where
  "diag_lo = USBTRACE_FILTER_LONGOPTS @
     [(''rules'', required_argument, of_char CHR ''r''), (''help'', no_argument, of_char CHR ''h'')]"

section \<open>From words to options\<close>

text \<open>\<open>args\<close> starts with the module's name, which \<open>optind = 1\<close> skips; \<open>px\<close>: whether \<open>POSIXLY_CORRECT\<close> is set.\<close>

definition filter_args :: "bool \<Rightarrow> string list \<Rightarrow> usbtrace_filter \<Rightarrow> int \<times> usbtrace_filter" where
  "filter_args px args f = usbtrace_filter_parse (getopt_long px ''h'' filter_lo (tl args)) f"

definition class_stream_args :: "bool \<Rightarrow> string list \<Rightarrow> usbtrace_filter \<times> bool \<Rightarrow> int \<times> usbtrace_filter \<times> bool" where
  "class_stream_args px args f = class_stream_parse_args (getopt_long px ''ah'' class_stream_lo (tl args)) f"

definition urb_args :: "bool \<Rightarrow> string list \<Rightarrow> urb_opts \<Rightarrow> int \<times> urb_opts" where
  "urb_args px args f = urb_parse_args (getopt_long px ''h'' urb_lo (tl args)) f"

definition uvc_args :: "bool \<Rightarrow> string list \<Rightarrow> uvc_opts \<Rightarrow> int \<times> uvc_opts" where
  "uvc_args px args f = uvc_parse_args (getopt_long px ''ah'' uvc_lo (tl args)) f"

definition hid_args ::
  "bool \<Rightarrow> string list \<Rightarrow> usbtrace_filter \<times> hid_opts \<times> bool \<Rightarrow> int \<times> usbtrace_filter \<times> hid_opts \<times> bool" where
  "hid_args px args f = hid_parse_args (getopt_long px ''ah'' hid_lo (tl args)) f"

definition diag_args :: "bool \<Rightarrow> string list \<Rightarrow> diag_opts \<Rightarrow> int \<times> diag_opts" where
  "diag_args px args f = diag_parse_args (getopt_long px ''hr:'' diag_lo (tl args)) f"

section \<open>Usage texts\<close>

definition urb_usage :: "string list" where
  "urb_usage =
     [''usbtrace urb - trace USB Request Block submit/complete'',
      [],
      ''Control URBs include the 8-byte setup packet, decoded as'',
      ''SET_FEATURE / CLEAR_FEATURE / GET_STATUS / ... so suspend'',
      ''and resume control traffic is visible by name.'',
      [],
      ''Options:'',
      ''  --vid <hex>     filter by idVendor (e.g. 0x0403)'',
      ''  --pid <hex>     filter by idProduct'',
      ''  --submit        also print submission records'',
      ''  --ctrl          only control (ep0) URBs'',
      ''  -h, --help      this help'',
      [],
      ''Example:'',
      ''  sudo usbtrace urb --vid 0x0403'',
      ''  sudo usbtrace urb --ctrl --submit --vid 0x1a2c'',
      ''  sudo usbtrace --json urb --vid 0x0403'']"

definition enum_usage :: "string list" where
  "enum_usage =
     [''usbtrace enum - trace USB enumeration state timeline and ep0 milestones'',
      [],
      ''Options:'',
      ''  --vid <hex>     filter by idVendor (e.g. 0x0403)'',
      ''  --pid <hex>     filter by idProduct'',
      ''  -h, --help      this help'',
      [],
      ''Example:'',
      ''  sudo usbtrace enum --vid 0x04ca'',
      ''  sudo usbtrace --json enum'']"

definition power_usage :: "string list" where
  "power_usage =
     [''usbtrace power - trace USB autosuspend/autoresume and port suspend/resume'',
      [],
      ''PORT_SUSPEND / PORT_RESUME fire for both runtime PM and system'',
      ''sleep (S3). Combine with: sudo usbtrace urb --ctrl --submit'',
      ''to see SET_FEATURE / CLEAR_FEATURE on the wire.'',
      [],
      ''Options:'',
      ''  --vid <hex>     filter by idVendor (e.g. 0x0403)'',
      ''  --pid <hex>     filter by idProduct'',
      ''  -h, --help      this help'',
      [],
      ''Example:'',
      ''  sudo usbtrace power'',
      ''  sudo usbtrace --json power'']"

definition lifecycle_usage :: "string list" where
  "lifecycle_usage =
     [''usbtrace lifecycle - trace USB connect/disconnect/reset events'',
      [],
      ''Options:'',
      ''  --vid <hex>     filter by idVendor (e.g. 0x0403)'',
      ''  --pid <hex>     filter by idProduct'',
      ''  -h, --help      this help'',
      [],
      ''Example:'',
      ''  sudo usbtrace lifecycle'',
      ''  sudo usbtrace --json lifecycle'']"

definition hub_usage :: "string list" where
  "hub_usage =
     [''usbtrace hub - trace USB hub port reset/disable/power/overcurrent'',
      [],
      ''Options:'',
      ''  --vid <hex>     filter by idVendor (child device, or hub if empty)'',
      ''  --pid <hex>     filter by idProduct'',
      ''  -h, --help      this help'',
      [],
      ''Example:'',
      ''  sudo usbtrace hub'',
      ''  sudo usbtrace --json hub'']"

definition uvc_usage :: "string list" where
  "uvc_usage =
     [''usbtrace uvc - trace USB Video Class streaming + frame health'',
      [],
      ''Hooks uvc_video_complete and reports per-URB isoc health AND'',
      ''reconstructs video frames from UVC payload headers: real FPS,'',
      ''frame drops/corruption, frame size and PTS/SCR. Requires uvcvideo'',
      ''loaded and a UVC camera streaming.'',
      [],
      ''Options:'',
      ''  --vid <hex>     filter by idVendor (e.g. 0x046d)'',
      ''  --pid <hex>     filter by idProduct'',
      ''  --all           print every URB and every frame (default:'',
      ''                  anomalies only)'',
      ''  --no-frames     URB transfer health only (skip frame parsing)'',
      ''  --no-vb2        skip vb2 buffer-done tracepoint (wire layer only)'',
      ''  --fps <n>       target fps; frames slower than this are flagged'',
      ''  -h, --help      this help'',
      [],
      ''Example:'',
      ''  sudo usbtrace uvc --all --vid 0x046d'',
      ''  sudo usbtrace uvc --fps 30 --vid 0x046d'',
      ''  sudo usbtrace --json uvc | jq'']"

definition uac_usage :: "string list" where
  "uac_usage =
     [''usbtrace uac - trace USB Audio Class streaming health'',
      [],
      ''Hooks snd_complete_urb (snd-usb-audio URB callback) and reports'',
      ''per-URB status, isoc error_count, packets and bytes for both'',
      ''playback (OUT) and capture (IN). Requires snd-usb-audio loaded'',
      ''and audio streaming.'',
      [],
      ''Options:'',
      ''  --vid <hex>     filter by idVendor'',
      ''  --pid <hex>     filter by idProduct'',
      ''  --all           print every URB (default: anomalies only)'',
      ''  -h, --help      this help'',
      [],
      ''Example:'',
      ''  sudo usbtrace uac --all'',
      ''  sudo usbtrace --json uac | jq'']"

definition hid_usage :: "string list" where
  "hid_usage =
     [''usbtrace hid - trace USB HID report flow + report rate'',
      [],
      ''Hooks hid_irq_in / hid_irq_out (usbhid interrupt URB callbacks).'',
      ''By default prints a realtime report-rate line per IN endpoint'',
      ''(keyboard vs mouse guessed from report size). Requires usbhid.'',
      [],
      ''Options:'',
      ''  --vid <hex>     filter by idVendor'',
      ''  --pid <hex>     filter by idProduct'',
      ''  --all           print every report (default: anomalies only)'',
      ''  --rate          enable realtime Hz (default)'',
      ''  --no-rate       disable realtime Hz meter'',
      ''  --interval <s>  rate print period in seconds (default: 1)'',
      ''  -h, --help      this help'',
      [],
      ''Example:'',
      ''  sudo usbtrace hid --vid 0x1c4f'',
      ''  sudo usbtrace hid --interval 5 --vid 0x0ffe --pid 0x0001'',
      ''  sudo usbtrace hid --all --no-rate --vid 0x1c4f'',
      ''  sudo usbtrace --json hid --vid 0x1c4f | jq'']"

definition storage_usage :: "string list" where
  "storage_usage =
     [''usbtrace storage - trace USB Mass Storage transport health'',
      [],
      ''Hooks usb_stor_blocking_completion (usb-storage bulk URB'',
      ''callback) and reports per-URB status and bytes across the'',
      ''CBW/data/CSW phases. Requires usb-storage loaded and a BOT mass'',
      ''storage device (note: UAS devices use a different driver).'',
      [],
      ''Options:'',
      ''  --vid <hex>     filter by idVendor'',
      ''  --pid <hex>     filter by idProduct'',
      ''  --all           print every URB (default: anomalies only)'',
      ''  -h, --help      this help'',
      [],
      ''Example:'',
      ''  sudo usbtrace storage --all'',
      ''  sudo usbtrace --json storage | jq'']"

definition diag_usage :: "string list" where
  "diag_usage =
     [''usbtrace diag - correlate USB events into diagnoses'',
      [],
      ''Loads the urb/enum/lifecycle/power/hub probes together and runs a'',
      ''YAML rule engine over the merged, per-device event stream,'',
      ''emitting conclusions + evidence live and a summary at exit.'',
      [],
      ''Options:'',
      ''  --vid <hex>     filter by idVendor (e.g. 0x0403)'',
      ''  --pid <hex>     filter by idProduct'',
      ''  --rules <path>  load rules from a YAML file (else built-in)'',
      ''  -h, --help      this help'',
      [],
      ''Example:'',
      ''  sudo usbtrace diag'',
      ''  sudo usbtrace diag --vid 0x0403 --rules ./rules.yaml'',
      ''  sudo usbtrace --json diag | jq'']"

text \<open>The text a usage function writes to standard error.\<close>

definition usage_text :: "string list \<Rightarrow> string" where
  "usage_text ls = concat (map (\<lambda>l. l @ [NL]) ls)"

end
