(* ===== verification/Ut_Program.thy ===== *)
theory Ut_Program
  imports Ut_Options Hook_Probe Urb_Probe Diag_Text
begin

text \<open>
  The program as a whole: the ten modules with their static variables, how each configures its BPF program and which hooks
  that program has, what a session writes to standard output, as texts to standard error and as log lines, and \<open>main\<close> over
  the registered modules. The kernel and the libraries are a \<open>ut_world\<close>; the records a session gets may depend on the
  configuration the module gave its program.
\<close>

section \<open>Static variables\<close>

record ut_globals =
  gl_urb :: urb_opts
  gl_enum :: usbtrace_filter
  gl_power :: usbtrace_filter
  gl_lifecycle :: usbtrace_filter
  gl_hub :: usbtrace_filter
  gl_uvc :: uvc_opts
  gl_uac :: "usbtrace_filter \<times> bool"
  gl_hid :: "usbtrace_filter \<times> hid_opts \<times> bool"
  gl_storage :: "usbtrace_filter \<times> bool"
  gl_diag :: diag_opts

definition no_filter :: usbtrace_filter where
  "no_filter = \<lparr> flt_vid = 0, flt_pid = 0 \<rparr>"

definition urb_opts0 :: urb_opts where
  "urb_opts0 = \<lparr> uo_filt = no_filter, uo_emit_submit = False, uo_ctrl_only = False \<rparr>"

definition uvc_opts0 :: uvc_opts where
  "uvc_opts0 = \<lparr> uv_filt = no_filter, uv_all = False, uv_no_frames = False, uv_no_vb2 = False, uv_fps_target = 0 \<rparr>"

definition HID_RATE_DEFAULT_SEC :: u32 where "HID_RATE_DEFAULT_SEC = 1"

definition hid_opts0 :: hid_opts where
  "hid_opts0 = \<lparr> ho_rate = True, ho_rate_sec = HID_RATE_DEFAULT_SEC \<rparr>"

definition diag_opts0 :: diag_opts where
  "diag_opts0 = \<lparr> do_filt = no_filter, do_rules_path = None \<rparr>"

definition ut_globals0 :: ut_globals where
  "ut_globals0 =
     \<lparr> gl_urb = urb_opts0, gl_enum = no_filter, gl_power = no_filter, gl_lifecycle = no_filter, gl_hub = no_filter,
       gl_uvc = uvc_opts0, gl_uac = (no_filter, False), gl_hid = (no_filter, hid_opts0, False),
       gl_storage = (no_filter, False), gl_diag = diag_opts0 \<rparr>"

section \<open>Configuration and hooks of the BPF programs\<close>

definition urb_config_of :: "urb_opts \<Rightarrow> urb_config" where
  "urb_config_of o' =
     \<lparr> uf_filter_vid = ucast (flt_vid (uo_filt o')), uf_filter_pid = ucast (flt_pid (uo_filt o')),
       uf_emit_submit = uo_emit_submit o', uf_ctrl_only = uo_ctrl_only o' \<rparr>"

text \<open>What diag gives its programs: submissions are reported, for the rules that need them.\<close>

definition diag_urb_config :: "usbtrace_filter \<Rightarrow> urb_config" where
  "diag_urb_config f =
     \<lparr> uf_filter_vid = ucast (flt_vid f), uf_filter_pid = ucast (flt_pid f), uf_emit_submit = True, uf_ctrl_only = False \<rparr>"

datatype bpf_cfg =
    Urb_cfg urb_config
  | Dev_cfg dev_config
  | Class_cfg usbtrace_class_config
  | Uvc_cfg uvc_config

text \<open>The section names of the programs, by module.\<close>

definition urb_secs :: "string list" where
  "urb_secs = [''kprobe/usb_submit_urb'', ''kprobe/usb_hcd_giveback_urb'']"

definition enum_secs :: "string list" where
  "enum_secs =
     [''kprobe/usb_set_device_state'', ''kprobe/usb_get_device_descriptor'', ''kretprobe/usb_get_device_descriptor'',
      ''kprobe/hub_set_address'', ''kretprobe/hub_set_address'', ''kprobe/usb_set_configuration'',
      ''kretprobe/usb_set_configuration'']"

definition power_secs :: "string list" where
  "power_secs =
     [''kprobe/usb_autosuspend_device'', ''kprobe/usb_autoresume_device'', ''kprobe/usb_port_suspend'', ''kprobe/usb_port_resume'']"

definition lifecycle_secs :: "string list" where
  "lifecycle_secs =
     [''kprobe/usb_new_device'', ''kretprobe/usb_new_device'', ''kprobe/usb_disconnect'', ''kprobe/usb_reset_device'']"

definition hub_secs :: "string list" where
  "hub_secs =
     [''kprobe/hub_port_reset'', ''kprobe/hub_port_disable'', ''kprobe/usb_hub_set_port_power'', ''kprobe/port_over_current_notify'']"

definition uvc_complete_sec :: string where
  "uvc_complete_sec = ''kprobe/uvc_queue_buffer_complete''"

definition uvc_secs :: "string list" where
  "uvc_secs =
     [''raw_tracepoint/vb2_v4l2_buf_done'', ''raw_tracepoint/vb2_buf_done'', ''raw_tracepoint/vb2_buf_queue'',
      ''raw_tracepoint/vb2_qbuf'', ''raw_tracepoint/vb2_dqbuf'', ''kprobe/uvc_video_complete'',
      ''kprobe/uvc_queue_next_buffer'', ''kprobe/uvc_video_decode_isoc'', uvc_complete_sec]"

definition uac_secs :: "string list" where "uac_secs = [''kprobe/snd_complete_urb'']"
definition hid_secs :: "string list" where "hid_secs = [''kprobe/hid_irq_in'', ''kprobe/hid_irq_out'']"
definition storage_secs :: "string list" where "storage_secs = [''kprobe/usb_stor_blocking_completion'']"

section \<open>The world\<close>

text \<open>By the name of a module: whether its skeleton opens, and the results of load, attach and of adding its map. The polls of
  a session, with the records they deliver, may depend on the configuration.\<close>

record ut_world =
  uw_posix :: bool
  uw_fs :: probe_fs
  uw_open :: "string \<Rightarrow> bool"
  uw_load :: "string \<Rightarrow> int"
  uw_attach :: "string \<Rightarrow> int"
  uw_mux :: bool
  uw_add :: "string \<Rightarrow> int"
  uw_polls :: "string \<Rightarrow> bpf_cfg \<Rightarrow> (u8 list list \<times> int) list"
  uw_yaml :: yaml_env
  uw_files :: "string \<Rightarrow> rules_file"
  uw_builtin :: string
  uw_engine_mem :: bool
  uw_now :: u64
  uw_diag_polls :: "usbtrace_filter \<Rightarrow> poll_result list"

definition hooks_usable :: "ut_world \<Rightarrow> string list \<Rightarrow> int" where
  "hooks_usable w secs = int (fst (usbtrace_autoload_filter (uw_fs w) (map Some secs)))"

definition session_env :: "ut_world \<Rightarrow> string \<Rightarrow> string list \<Rightarrow> bpf_cfg \<Rightarrow> u8 list run_env" where
  "session_env w name secs cfg =
     \<lparr> re_hooks = hooks_usable w secs, re_load = uw_load w name, re_attach = uw_attach w name, re_mux = uw_mux w,
       re_add = uw_add w name, re_polls = uw_polls w name cfg \<rparr>"

section \<open>Log lines\<close>

text \<open>\<open>"0x%04x"\<close> of an \<open>unsigned int\<close>.\<close>

definition hex_u32 :: "u32 \<Rightarrow> string" where
  "hex_u32 v = (let s = show_base 16 (unat v) in ''0x'' @ replicate (4 - length s) CHR ''0'' @ s)"

definition ids_log :: "usbtrace_filter \<Rightarrow> string" where
  "ids_log f = '' vid='' @ hex_u32 (flt_vid f) @ '' pid='' @ hex_u32 (flt_pid f)"

definition ctrl_c :: string where "ctrl_c = '' (Ctrl-C to stop)''"

definition skip_log :: "probe_fs \<Rightarrow> string list \<Rightarrow> string" where
  "skip_log fs secs =
     concat (map (\<lambda>s. if sec_available fs (Some s) = Absent
                      then ut_warn (''hook '' @ [CHR 0x27] @ s @ [CHR 0x27] @ '' not present on this kernel; skipping'') else []) secs)"

text \<open>The log of a session: the hooks left out, then what the harness logs, with the start message in its place.\<close>

definition session_log :: "ut_world \<Rightarrow> bool \<Rightarrow> string \<Rightarrow> string \<Rightarrow> string list \<Rightarrow> u8 list run_env \<Rightarrow> string" where
  "session_log w verbose start name secs env =
     (if \<not> uw_open w name then ut_err ''failed to open BPF skeleton''
      else skip_log (uw_fs w) secs
        @ concat (map (\<lambda>a. if a = OnStart then ut_info start else run_log verbose a)
            (snd (snd (usbtrace_run (\<lambda>r c. c) env ())))))"

section \<open>The modules\<close>

text \<open>What a run writes: standard output, the texts and the log lines on standard error.\<close>

type_synonym ut_out = "string \<times> string \<times> string"

definition bool_d :: "bool \<Rightarrow> string" where "bool_d b = (if b then ''1'' else ''0'')"

definition urb_main :: "ut_world \<Rightarrow> main_flags \<Rightarrow> urb_opts \<Rightarrow> int \<times> ut_out" where
  "urb_main w sw o' =
     (let env = session_env w ''urb'' urb_secs (Urb_cfg (urb_config_of o'));
          (rc, out) = urb_run (mf_json sw) (uw_open w ''urb'') env;
          start = ''tracing URBs...'' @ ids_log (uo_filt o') @ '' submit='' @ bool_d (uo_emit_submit o') @ '' ctrl=''
            @ bool_d (uo_ctrl_only o') @ ctrl_c
      in (rc, out, [], session_log w (mf_verbose sw) start ''urb'' urb_secs env))"

definition dev_main ::
  "(bool \<Rightarrow> bool \<Rightarrow> u8 list run_env \<Rightarrow> int \<times> string) \<Rightarrow> string \<Rightarrow> string \<Rightarrow> string list \<Rightarrow> ut_world \<Rightarrow> main_flags
    \<Rightarrow> usbtrace_filter \<Rightarrow> int \<times> ut_out" where
  "dev_main run what name secs w sw f =
     (let env = session_env w name secs (Dev_cfg (dev_config_of f));
          (rc, out) = run (mf_json sw) (uw_open w name) env
      in (rc, out, [], session_log w (mf_verbose sw) (what @ ids_log f @ ctrl_c) name secs env))"

definition enum_main where "enum_main = dev_main enum_run ''tracing USB enumeration...'' ''enum'' enum_secs"
definition power_main where "power_main = dev_main power_run ''tracing USB power events...'' ''power'' power_secs"
definition lifecycle_main where
  "lifecycle_main = dev_main lifecycle_run ''tracing USB connect/disconnect/reset...'' ''lifecycle'' lifecycle_secs"
definition hub_main where "hub_main = dev_main hub_run ''tracing USB hub port events...'' ''hub'' hub_secs"

definition uac_main :: "ut_world \<Rightarrow> main_flags \<Rightarrow> usbtrace_filter \<times> bool \<Rightarrow> int \<times> ut_out" where
  "uac_main w sw = (\<lambda>(f, all).
     let env = session_env w ''uac'' uac_secs (Class_cfg (uac_config_of f));
         (rc, out, txt) = uac_run (mf_json sw) all (uw_open w ''uac'') env
     in (rc, out, txt, session_log w (mf_verbose sw) (''tracing UAC streaming...'' @ ids_log f @ ctrl_c) ''uac'' uac_secs env))"

definition storage_main :: "ut_world \<Rightarrow> main_flags \<Rightarrow> usbtrace_filter \<times> bool \<Rightarrow> int \<times> ut_out" where
  "storage_main w sw = (\<lambda>(f, all).
     let env = session_env w ''storage'' storage_secs (Class_cfg (storage_config_of f));
         (rc, out, txt) = storage_run (mf_json sw) all (uw_open w ''storage'') env
     in (rc, out, txt, session_log w (mf_verbose sw) (''tracing USB storage...'' @ ids_log f @ ctrl_c) ''storage'' storage_secs env))"

definition hid_main :: "ut_world \<Rightarrow> main_flags \<Rightarrow> usbtrace_filter \<times> hid_opts \<times> bool \<Rightarrow> int \<times> ut_out" where
  "hid_main w sw = (\<lambda>(f, ho, all).
     let env = session_env w ''hid'' hid_secs (Class_cfg (hid_config_of f));
         (rc, out, txt) = hid_run (mf_json sw) ho all (uw_open w ''hid'') env;
         start = ''tracing HID reports...'' @ ids_log f @ '' rate='' @ (if ho_rate ho then ''on'' else ''off'')
           @ '' interval='' @ fmt_u (ho_rate_sec ho) @ ''s'' @ ctrl_c
     in (rc, out, txt, session_log w (mf_verbose sw) start ''hid'' hid_secs env))"

definition uvc_mode :: "uvc_opts \<Rightarrow> string" where
  "uvc_mode o' =
     (if uv_no_frames o' \<and> uv_no_vb2 o' then '' (URB health only)''
      else if uv_no_frames o' then '' + vb2''
      else if uv_no_vb2 o' then '' + frames''
      else '' + frames + vb2'')"

text \<open>The drop hook is active when its program was not switched off.\<close>

definition uvc_drop_hook_active :: "ut_world \<Rightarrow> bool" where
  "uvc_drop_hook_active w \<longleftrightarrow> sec_available (uw_fs w) (Some uvc_complete_sec) \<noteq> Absent"

definition uvc_main :: "ut_world \<Rightarrow> main_flags \<Rightarrow> uvc_opts \<Rightarrow> int \<times> ut_out" where
  "uvc_main w sw o' =
     (let env = session_env w ''uvc'' uvc_secs (Uvc_cfg (uvc_config_of o'));
          (rc, parts) = Uvc_Report.uvc_run o' (mf_json sw) (uvc_drop_hook_active w) (uw_open w ''uvc'') env;
          (out, txt) = uvc_output (mf_json sw) parts
      in (rc, out, txt,
          session_log w (mf_verbose sw) (''tracing UVC stream'' @ uvc_mode o' @ ''...'' @ ids_log (uv_filt o') @ ctrl_c)
            ''uvc'' uvc_secs env))"

text \<open>The sources of diag, by name.\<close>

definition diag_secs :: "string \<Rightarrow> string list" where
  "diag_secs n =
     (if n = ''urb'' then urb_secs else if n = ''enum'' then enum_secs else if n = ''lifecycle'' then lifecycle_secs
      else if n = ''power'' then power_secs else if n = ''hub'' then hub_secs else if n = ''uvc'' then uvc_secs
      else if n = ''uac'' then uac_secs else if n = ''hid'' then hid_secs else storage_secs)"

definition diag_src :: "ut_world \<Rightarrow> string \<Rightarrow> diag_src_env" where
  "diag_src w n =
     \<lparr> sr_open = uw_open w n, sr_hooks = hooks_usable w (diag_secs n), sr_load = uw_load w n, sr_attach = uw_attach w n,
       sr_add = uw_add w n \<rparr>"

text \<open>Bringing a source up logs its missing hooks, and that it is left out; the other messages come once.\<close>

definition diag_src_log :: "ut_world \<Rightarrow> string \<Rightarrow> string" where
  "diag_src_log w n =
     (if \<not> uw_open w n then []
      else skip_log (uw_fs w) (diag_secs n)
        @ (if src_up (diag_src w n) then [] else ut_warn (''diag: '' @ n @ '' probe unavailable, skipping'')))"

fun diag_msg_log :: "diag_msg \<Rightarrow> string" where
  "diag_msg_log (RulesFailed e) = ut_err (''diag: failed to load rules: '' @ e)"
| "diag_msg_log OutOfMemory = ut_err ''diag: out of memory''"
| "diag_msg_log NoEvmux = ut_err ''diag: out of memory (evmux)''"
| "diag_msg_log NoProbes = ut_err ''diag: no probes could be attached (need root + BTF?)''"
| "diag_msg_log (Skipped n) = []"

fun diag_poll_log :: "bool \<Rightarrow> poll_result list \<Rightarrow> string" where
  "diag_poll_log verbose [] = []"
| "diag_poll_log verbose (p # ps) =
     (if pl_err p < 0 then
        (if pl_err p = - EINTR \<or> pl_err p = - EAGAIN
         then ut_dbg verbose (''diag: event buffer poll interrupted: '' @ show_long (pl_err p)) @ diag_poll_log verbose ps
         else ut_err (''diag: event buffer poll error: '' @ show_long (pl_err p)))
      else diag_poll_log verbose ps)"

definition diag_main :: "ut_world \<Rightarrow> main_flags \<Rightarrow> diag_opts \<Rightarrow> int \<times> ut_out" where
  "diag_main w sw o' =
     (let loaded = diag_load (uw_yaml w) (uw_files w) (uw_builtin w) o';
          ps = uw_diag_polls w (do_filt o');
          r = diag_run loaded (uw_engine_mem w) (diag_src w) (uw_mux w) (uw_now w) (mf_json sw) ps;
          (out, txt) = diag_output (mf_json sw) (case loaded of Inl e \<Rightarrow> [] | Inr rules \<Rightarrow> rules) r;
          nsrc = length (filter (\<lambda>n. src_up (diag_src w n) \<and> uw_add w n = 0) (diag_core_srcs @ diag_class_srcs));
          log = (case loaded of Inl e \<Rightarrow> []
                 | Inr rules \<Rightarrow> ut_info (''diag: loaded '' @ show_dec (length rules) @ '' rule(s)''
                     @ (if do_rules_path o' = None then '' (built-in)'' else []))
                     @ (if uw_engine_mem w then concat (map (diag_src_log w) (diag_core_srcs @ diag_class_srcs)) else []))
            @ concat (map diag_msg_log (dg_msgs r))
            @ (if dg_summary r = None then []
               else ut_info (''diag: '' @ show_dec nsrc @ '' source(s) active,'' @ ids_log (do_filt o') @ ctrl_c)
                 @ diag_poll_log (mf_verbose sw) ps)
      in (dg_exit r, out, txt, log))"

section \<open>The registered modules\<close>

text \<open>A module file's registration: its parser works on its own variables (\<open>get\<close>, \<open>put\<close>).\<close>

definition ut_module ::
  "string \<Rightarrow> string \<Rightarrow> string list \<Rightarrow> (ut_globals \<Rightarrow> 'v) \<Rightarrow> ('v \<Rightarrow> ut_globals \<Rightarrow> ut_globals) \<Rightarrow> (string list \<Rightarrow> 'v \<Rightarrow> int \<times> 'v)
    \<Rightarrow> (main_flags \<Rightarrow> 'v \<Rightarrow> int \<times> ut_out) \<Rightarrow> (ut_globals, ut_out) usbtrace_module" where
  "ut_module name summary usage get put parse run =
     \<lparr> md_name = name, md_summary = Some summary,
       md_parse_args = Some (\<lambda>args g. let (rc, v) = parse args (get g) in (rc, put v g)),
       md_usage = Some (usage_text usage), md_run = (\<lambda>sw g. run sw (get g)) \<rparr>"

definition urb_module where
  "urb_module w = ut_module ''urb'' ''trace USB Request Block submit/complete + latency'' urb_usage
     gl_urb (\<lambda>v g. g\<lparr> gl_urb := v \<rparr>) (urb_args (uw_posix w)) (urb_main w)"

definition enum_module where
  "enum_module w = ut_module ''enum'' ''trace USB enumeration state timeline and ep0 milestones'' enum_usage
     gl_enum (\<lambda>v g. g\<lparr> gl_enum := v \<rparr>) (filter_args (uw_posix w)) (enum_main w)"

definition power_module where
  "power_module w = ut_module ''power'' ''trace USB autosuspend/autoresume and port suspend/resume'' power_usage
     gl_power (\<lambda>v g. g\<lparr> gl_power := v \<rparr>) (filter_args (uw_posix w)) (power_main w)"

definition lifecycle_module where
  "lifecycle_module w = ut_module ''lifecycle'' ''trace USB connect/disconnect/reset events'' lifecycle_usage
     gl_lifecycle (\<lambda>v g. g\<lparr> gl_lifecycle := v \<rparr>) (filter_args (uw_posix w)) (lifecycle_main w)"

definition hub_module where
  "hub_module w = ut_module ''hub'' ''trace USB hub port reset/disable/power/overcurrent'' hub_usage
     gl_hub (\<lambda>v g. g\<lparr> gl_hub := v \<rparr>) (filter_args (uw_posix w)) (hub_main w)"

definition uvc_module where
  "uvc_module w = ut_module ''uvc'' ''trace UVC streaming + frames + vb2 (fps, drops, PTS/SCR)'' uvc_usage
     gl_uvc (\<lambda>v g. g\<lparr> gl_uvc := v \<rparr>) (uvc_args (uw_posix w)) (uvc_main w)"

definition uac_module where
  "uac_module w = ut_module ''uac'' ''trace USB Audio Class streaming health (isoc errors, xruns)'' uac_usage
     gl_uac (\<lambda>v g. g\<lparr> gl_uac := v \<rparr>) (class_stream_args (uw_posix w)) (uac_main w)"

definition hid_module where
  "hid_module w = ut_module ''hid'' ''trace USB HID report flow + realtime kbd/mouse Hz'' hid_usage
     gl_hid (\<lambda>v g. g\<lparr> gl_hid := v \<rparr>) (hid_args (uw_posix w)) (hid_main w)"

definition storage_module where
  "storage_module w = ut_module ''storage'' ''trace USB Mass Storage transport health (stalls, errors)'' storage_usage
     gl_storage (\<lambda>v g. g\<lparr> gl_storage := v \<rparr>) (class_stream_args (uw_posix w)) (storage_main w)"

definition diag_module where
  "diag_module w = ut_module ''diag'' ''correlate URB/enum/lifecycle/power/hub/class into diagnoses (rule engine)'' diag_usage
     gl_diag (\<lambda>v g. g\<lparr> gl_diag := v \<rparr>) (diag_args (uw_posix w)) (diag_main w)"

text \<open>The constructors run in the order the object files are linked, which the sources leave open: \<open>mods\<close> is any order of
  the ten modules, and the registry is filled one by one.\<close>

definition ut_modules :: "ut_world \<Rightarrow> (ut_globals, ut_out) usbtrace_module list" where
  "ut_modules w =
     [diag_module w, enum_module w, hid_module w, hub_module w, lifecycle_module w, power_module w, storage_module w,
      uac_module w, urb_module w, uvc_module w]"

definition usbtrace_main ::
  "(ut_globals, ut_out) usbtrace_module list \<Rightarrow> string list \<Rightarrow> main_act list \<times> int \<times> ut_out option" where
  "usbtrace_main mods args = ut_main (fold usbtrace_register_module mods []) ut_globals0 args"

section \<open>What main prints\<close>

text \<open>The version comes from the build.\<close>

definition print_modules :: "(ut_globals, ut_out) usbtrace_module list \<Rightarrow> string" where
  "print_modules mods =
     ''Available modules:'' @ [NL]
     @ concat (map (\<lambda>m. ''  '' @ pad_right 12 (md_name m) @ '' '' @ (case md_summary m of Some s \<Rightarrow> s | None \<Rightarrow> []) @ [NL]) mods)"

definition main_usage :: "string \<Rightarrow> string list" where
  "main_usage version =
     [''usbtrace '' @ version @ '' - eBPF USB subsystem tracer & diagnostic tool'',
      [],
      ''Usage:'',
      ''  usbtrace [global-opts] <module> [module-opts]'',
      ''  usbtrace list'',
      ''  usbtrace help [module]'',
      [],
      ''Global options:'',
      ''  -v, --verbose   verbose/debug logging'',
      ''  -j, --json      emit one JSON object per event (machine-readable)'',
      ''  -V, --version   print version and exit'',
      ''  -h, --help      this help'',
      []]"

text \<open>Standard output and standard error of \<open>main\<close> itself, by action.\<close>

fun main_text :: "string \<Rightarrow> (ut_globals, ut_out) usbtrace_module list \<Rightarrow> main_act \<Rightarrow> string \<times> string" where
  "main_text version mods PrintVersion = (''usbtrace '' @ version @ [NL], [])"
| "main_text version mods Usage = ([], usage_text (main_usage version) @ print_modules mods)"
| "main_text version mods PrintModules = ([], print_modules mods)"
| "main_text version mods (UnknownOption a) = ([], ut_err (''unknown global option: '' @ a))"
| "main_text version mods (UnknownModule n) = ([], ut_err (''unknown module: '' @ n))"
| "main_text version mods (ModuleUsage u) = ([], u)"
| "main_text version mods (ModuleSummary n s) = ([], n @ '': '' @ s @ [NL])"
| "main_text version mods (RunModule n sw args) = ([], [])"

end
