(* ===== verification/Ut_Program_Props.thy ===== *)
theory Ut_Program_Props
  imports Ut_Program "HOL-Library.Multiset"
begin

text \<open>
  Properties of the command line: the usage texts list exactly the options, a line of options reads back to the options it was
  made from, an option no table has is refused before anything runs, and the modules are found in any order of registration.
\<close>

section \<open>Usage texts\<close>

text \<open>The option a line of a usage text documents: its long name, and whether an argument is shown.\<close>

definition opt_entry :: "string \<Rightarrow> string \<times> bool" where
  "opt_entry s = (takeWhile (\<lambda>c. c \<noteq> CHR '' '') s, take 2 (dropWhile (\<lambda>c. c \<noteq> CHR '' '') s) = '' <'')"

definition line_opt :: "string \<Rightarrow> (string \<times> bool) list" where
  "line_opt l =
     (if take 4 l = ''  --'' then [opt_entry (drop 4 l)] else if take 8 l = ''  -h, --'' then [opt_entry (drop 8 l)] else [])"

definition documented :: "string list \<Rightarrow> (string \<times> bool) list" where
  "documented ls = concat (map line_opt ls)"

definition table_opts :: "long_option list \<Rightarrow> (string \<times> bool) list" where
  "table_opts lo = map (\<lambda>(n, a, _). (n, a = required_argument)) lo"

lemmas table_defs = urb_lo_def filter_lo_def uvc_lo_def class_stream_lo_def hid_lo_def diag_lo_def USBTRACE_FILTER_LONGOPTS_def

text \<open>The usage text of each of the ten modules documents exactly the long options of the table its parser uses, in order,
  showing an argument for those that need one.\<close>

theorem usage_documents_options:
  "documented urb_usage = table_opts urb_lo
   \<and> documented enum_usage = table_opts filter_lo \<and> documented power_usage = table_opts filter_lo
   \<and> documented lifecycle_usage = table_opts filter_lo \<and> documented hub_usage = table_opts filter_lo
   \<and> documented uvc_usage = table_opts uvc_lo
   \<and> documented uac_usage = table_opts class_stream_lo \<and> documented storage_usage = table_opts class_stream_lo
   \<and> documented hid_usage = table_opts hid_lo
   \<and> documented diag_usage = table_opts diag_lo"
  by (intro conjI)
    (simp_all add: documented_def line_opt_def opt_entry_def table_opts_def table_defs urb_usage_def enum_usage_def
      power_usage_def lifecycle_usage_def hub_usage_def uvc_usage_def uac_usage_def storage_usage_def hid_usage_def diag_usage_def)

section \<open>Registration\<close>

lemma find_module_mset:
  assumes "distinct (map md_name mods)" "mset mods = mset mods'"
  shows "usbtrace_find_module mods n = usbtrace_find_module mods' n"
proof -
  have d': "distinct (map md_name mods')" by (metis assms distinct_map mset_eq_setD mset_map mset_eq_imp_distinct_iff)
  have s: "set mods = set mods'" using assms(2) by (rule mset_eq_setD)
  have find: "usbtrace_find_module xs n = Some m \<longleftrightarrow> m \<in> set xs \<and> md_name m = n" if "distinct (map md_name xs)" for xs m
    using that by (induction xs) auto
  show ?thesis using find[OF assms(1)] find[OF d'] s by (cases "usbtrace_find_module mods n"; cases "usbtrace_find_module mods' n") auto
qed

lemmas module_defs = ut_modules_def ut_module_def urb_module_def enum_module_def power_module_def lifecycle_module_def
  hub_module_def uvc_module_def uac_module_def hid_module_def storage_module_def diag_module_def

lemma module_names:
  "map md_name (ut_modules w) =
     [''diag'', ''enum'', ''hid'', ''hub'', ''lifecycle'', ''power'', ''storage'', ''uac'', ''urb'', ''uvc'']"
  by (simp add: module_defs)

lemma find_registered:
  assumes "mset mods = mset (ut_modules w)"
  shows "usbtrace_find_module mods n = usbtrace_find_module (ut_modules w) n"
proof (rule find_module_mset)
  have "distinct (map md_name (ut_modules w))" by (simp add: module_names)
  then show "distinct (map md_name mods)" using assms by (metis mset_eq_imp_distinct_iff mset_map)
qed (rule assms)

section \<open>A line of options reads back\<close>

text \<open>Options as words.\<close>

definition filter_words :: "usbtrace_filter \<Rightarrow> (string \<times> string option) list" where
  "filter_words f = [(''vid'', Some (show_dec (unat (flt_vid f)))), (''pid'', Some (show_dec (unat (flt_pid f))))]"

definition flag_word :: "bool \<Rightarrow> string \<Rightarrow> (string \<times> string option) list" where
  "flag_word b n = (if b then [(n, None)] else [])"

definition urb_words :: "urb_opts \<Rightarrow> (string \<times> string option) list" where
  "urb_words u = filter_words (uo_filt u) @ flag_word (uo_emit_submit u) ''submit'' @ flag_word (uo_ctrl_only u) ''ctrl''"

definition uvc_words :: "uvc_opts \<Rightarrow> (string \<times> string option) list" where
  "uvc_words u = filter_words (uv_filt u) @ flag_word (uv_all u) ''all'' @ flag_word (uv_no_frames u) ''no-frames''
     @ flag_word (uv_no_vb2 u) ''no-vb2'' @ [(''fps'', Some (show_dec (unat (uv_fps_target u))))]"

definition class_words :: "usbtrace_filter \<times> bool \<Rightarrow> (string \<times> string option) list" where
  "class_words = (\<lambda>(f, all). filter_words f @ flag_word all ''all'')"

definition hid_words :: "usbtrace_filter \<times> hid_opts \<times> bool \<Rightarrow> (string \<times> string option) list" where
  "hid_words = (\<lambda>(f, ho, all). filter_words f @ flag_word all ''all'' @ [(if ho_rate ho then ''rate'' else ''no-rate'', None)]
     @ [(''interval'', Some (show_dec (unat (ho_rate_sec ho))))])"

definition diag_words :: "diag_opts \<Rightarrow> (string \<times> string option) list" where
  "diag_words d = filter_words (do_filt d)
     @ (case do_rules_path d of None \<Rightarrow> [] | Some p \<Rightarrow> [(''rules'', Some p)])"

lemma strtoul_u32 [simp]: "ucast (strtoul (show_dec (unat (v :: u32)))) = v"
proof -
  have "unat v < 2 ^ 32" using unsigned_less[of v] by simp
  then have "strtoul (show_dec (unat v)) = word_of_nat (unat v)" by (intro strtoul_show_dec) (simp add: ULONG_MAX_def)
  moreover have "(ucast (word_of_nat (unat v) :: u64) :: u32) = word_of_nat (unat v)" by (rule bit_word_eqI) (simp add: bit_simps)
  ultimately show ?thesis by simp
qed

lemma getopt_words:
  "list_all (known_opt lo) ws \<Longrightarrow> getopt_long px os lo (map opt_word ws) = map (opt_code lo) ws"
  using getopt_known[of lo ws px os "[]"] by simp

lemmas word_defs = filter_words_def flag_word_def known_opt_def opt_code_def long_opt_def table_defs USBTRACE_OPT_VID_def USBTRACE_OPT_PID_def

lemma filter_args_read:
  "filter_args px (n # map opt_word (filter_words f)) no_filter = (0, f)"
proof -
  have "list_all (known_opt filter_lo) (filter_words f)" by (simp add: word_defs)
  from getopt_words[OF this] show ?thesis
    by (cases f) (simp add: filter_args_def word_defs usbtrace_filter_getopt_def)
qed

lemma class_args_read:
  "class_stream_args px (n # map opt_word (class_words (f, all))) (no_filter, False) = (0, f, all)"
proof -
  have "list_all (known_opt class_stream_lo) (class_words (f, all))" by (simp add: class_words_def word_defs)
  from getopt_words[OF this] show ?thesis
    by (cases f) (simp add: class_stream_args_def class_words_def word_defs usbtrace_filter_getopt_def)
qed

lemma urb_args_read: "urb_args px (n # map opt_word (urb_words u)) urb_opts0 = (0, u)"
proof -
  have "list_all (known_opt urb_lo) (urb_words u)" by (simp add: urb_words_def word_defs)
  from getopt_words[OF this] show ?thesis
    by (cases u; cases "uo_filt u") (simp add: urb_args_def urb_words_def word_defs usbtrace_filter_getopt_def urb_opts0_def)
qed

lemma uvc_args_read: "uvc_args px (n # map opt_word (uvc_words u)) uvc_opts0 = (0, u)"
proof -
  have "list_all (known_opt uvc_lo) (uvc_words u)" by (simp add: uvc_words_def word_defs)
  from getopt_words[OF this] show ?thesis
    by (cases u; cases "uv_filt u") (simp add: uvc_args_def uvc_words_def word_defs usbtrace_filter_getopt_def uvc_opts0_def)
qed

lemma diag_args_read: "diag_args px (n # map opt_word (diag_words u)) diag_opts0 = (0, u)"
proof -
  have "list_all (known_opt diag_lo) (diag_words u)" by (simp add: diag_words_def word_defs split: option.split)
  from getopt_words[OF this] show ?thesis
    by (cases u; cases "do_filt u") (simp add: diag_args_def diag_words_def word_defs usbtrace_filter_getopt_def diag_opts0_def
        split: option.split)
qed

lemma hid_args_read:
  assumes "ho_rate_sec ho \<noteq> 0" "ho_rate_sec ho \<le> 3600"
  shows "hid_args px (n # map opt_word (hid_words (f, ho, all))) (no_filter, hid_opts0, False) = (0, f, ho, all)"
proof -
  have "unat (ho_rate_sec ho) < 2 ^ 32" using unsigned_less[of "ho_rate_sec ho"] by simp
  then have s: "strtoul (show_dec (unat (ho_rate_sec ho))) = word_of_nat (unat (ho_rate_sec ho))"
    "unat (word_of_nat (unat (ho_rate_sec ho)) :: u64) = unat (ho_rate_sec ho)"
    by (simp_all add: strtoul_show_dec ULONG_MAX_def unsigned_ucast_eq take_bit_nat_eq_self)
  have v: "strtoul (show_dec (unat (ho_rate_sec ho))) \<noteq> 0" "\<not> strtoul (show_dec (unat (ho_rate_sec ho))) > 3600"
    unfolding s(1) using assms s(2) by (auto simp: word_less_nat_alt word_le_nat_alt unat_eq_0 dest: arg_cong[of _ _ unat])
  have "list_all (known_opt hid_lo) (hid_words (f, ho, all))" by (simp add: hid_words_def word_defs)
  from getopt_words[OF this] show ?thesis
    using v by (cases ho; cases f) (simp add: hid_args_def hid_words_def word_defs usbtrace_filter_getopt_def hid_opts0_def)
qed

section \<open>Through main\<close>

lemma globals_then_module:
  assumes "list_all global_flag gs" "not_option cmd"
  shows "main_globals (gs @ cmd # rest) fs = Inr (flags_after fs gs, cmd # rest)"
  using assms main_globals_Inr[of "gs @ cmd # rest" fs "flags_after fs gs" "cmd # rest"] by (auto simp: not_option_def)

text \<open>A command line whose module is registered: what its parser answers decides.\<close>

lemma main_with_module:
  assumes "list_all global_flag gs" "not_option cmd" "cmd \<noteq> ''list''" "cmd \<noteq> ''help''"
    and "usbtrace_find_module mods cmd = Some m" "parse_module m (cmd # rest) g = (rc, g')"
  shows "ut_main mods g (gs @ cmd # rest) =
    (let sw = flags_after \<lparr> mf_verbose = False, mf_json = False \<rparr> gs in
     if rc > 0 then ((case md_usage m of Some u \<Rightarrow> [ModuleUsage u] | None \<Rightarrow> []), 0, None)
     else if rc < 0 then ([], 2, None)
     else ([RunModule cmd sw (cmd # rest)], fst (md_run m sw g'), Some (snd (md_run m sw g'))))"
proof -
  let ?sw = "flags_after \<lparr> mf_verbose = False, mf_json = False \<rparr> gs"
  have "ut_main mods g (gs @ cmd # rest) = main_module mods g ?sw cmd rest"
    using assms(3,4) by (simp only: ut_main_def globals_then_module[OF assms(1,2)] sum.case prod.case list.case if_False)
  also have "main_module mods g ?sw cmd rest = (let (rc, g') = parse_module m (cmd # rest) g in
      if rc > 0 then ((case md_usage m of Some u \<Rightarrow> [ModuleUsage u] | None \<Rightarrow> []), 0, None)
      else if rc < 0 then ([], 2, None)
      else ([RunModule cmd ?sw (cmd # rest)], fst (md_run m ?sw g'), Some (snd (md_run m ?sw g'))))"
    using assms(5) by (simp add: main_module_def parse_module_def split_beta)
  finally show ?thesis by (simp add: assms(6) Let_def)
qed

definition flag_args :: "main_flags \<Rightarrow> string list" where
  "flag_args sw = (if mf_verbose sw then [''-v''] else []) @ (if mf_json sw then [''--json''] else [])"

lemma flag_args_read [simp]:
  "list_all global_flag (flag_args sw)"
  "flags_after \<lparr> mf_verbose = False, mf_json = False \<rparr> (flag_args sw) = sw"
  by (simp_all add: flag_args_def global_flag_def flags_after_def)

lemma main_finds:
  assumes "mset mods = mset (ut_modules w)" "usbtrace_find_module (ut_modules w) cmd = Some m"
    "cmd \<noteq> ''list''" "cmd \<noteq> ''help''" "not_option cmd" "parse_module m (cmd # rest) ut_globals0 = (rc, g')"
    "list_all global_flag gs"
  shows "usbtrace_main mods (gs @ cmd # rest) =
    (let sw = flags_after \<lparr> mf_verbose = False, mf_json = False \<rparr> gs in
     if rc > 0 then ((case md_usage m of Some u \<Rightarrow> [ModuleUsage u] | None \<Rightarrow> []), 0, None)
     else if rc < 0 then ([], 2, None)
     else ([RunModule cmd sw (cmd # rest)], fst (md_run m sw g'), Some (snd (md_run m sw g'))))"
proof -
  have "usbtrace_find_module (fold usbtrace_register_module mods []) cmd = Some m"
    unfolding register_all find_registered[OF assms(1)] by (rule assms(2))
  from main_with_module[OF assms(7,5,3,4) this assms(6)] show ?thesis unfolding usbtrace_main_def .
qed

definition runs_as :: "string \<Rightarrow> main_flags \<Rightarrow> (string \<times> string option) list \<Rightarrow> int \<times> ut_out \<Rightarrow> main_act list \<times> int \<times> ut_out option" where
  "runs_as cmd sw ws r = ([RunModule cmd sw (cmd # map opt_word ws)], fst r, Some (snd r))"

lemma command_line_runs:
  assumes "mset mods = mset (ut_modules w)" "usbtrace_find_module (ut_modules w) cmd = Some m"
    "cmd \<noteq> ''list''" "cmd \<noteq> ''help''" "not_option cmd" "parse_module m (cmd # map opt_word ws) ut_globals0 = (0, g')"
  shows "usbtrace_main mods (flag_args sw @ cmd # map opt_word ws) = runs_as cmd sw ws (md_run m sw g')"
  using main_finds[OF assms flag_args_read(1)[of sw]] by (simp add: runs_as_def)

lemma ut_module_runs:
  assumes "mset mods = mset (ut_modules w)"
    and "usbtrace_find_module (ut_modules w) cmd = Some (ut_module cmd smry usage get put parse run)"
    and "parse (cmd # map opt_word ws) (get ut_globals0) = (0, v)" "get (put v ut_globals0) = v"
    and "cmd \<noteq> ''list''" "cmd \<noteq> ''help''" "not_option cmd"
  shows "usbtrace_main mods (flag_args sw @ cmd # map opt_word ws) = runs_as cmd sw ws (run sw v)"
proof -
  have "parse_module (ut_module cmd smry usage get put parse run) (cmd # map opt_word ws) ut_globals0 = (0, put v ut_globals0)"
    using assms(3) by (simp add: parse_module_def ut_module_def)
  from command_line_runs[OF assms(1,2,5,6,7) this, of sw] show ?thesis using assms(4) by (simp add: ut_module_def)
qed

lemma registered_as:
  "usbtrace_find_module (ut_modules w) ''urb'' = Some (urb_module w)"
  "usbtrace_find_module (ut_modules w) ''enum'' = Some (enum_module w)"
  "usbtrace_find_module (ut_modules w) ''power'' = Some (power_module w)"
  "usbtrace_find_module (ut_modules w) ''lifecycle'' = Some (lifecycle_module w)"
  "usbtrace_find_module (ut_modules w) ''hub'' = Some (hub_module w)"
  "usbtrace_find_module (ut_modules w) ''uvc'' = Some (uvc_module w)"
  "usbtrace_find_module (ut_modules w) ''uac'' = Some (uac_module w)"
  "usbtrace_find_module (ut_modules w) ''storage'' = Some (storage_module w)"
  "usbtrace_find_module (ut_modules w) ''hid'' = Some (hid_module w)"
  "usbtrace_find_module (ut_modules w) ''diag'' = Some (diag_module w)"
  by (simp_all add: module_defs)

lemmas registered_defs = registered_as[unfolded urb_module_def enum_module_def power_module_def lifecycle_module_def
  hub_module_def uvc_module_def uac_module_def storage_module_def hid_module_def diag_module_def]

lemma globals0_simps:
  "gl_urb ut_globals0 = urb_opts0" "gl_enum ut_globals0 = no_filter" "gl_power ut_globals0 = no_filter"
  "gl_lifecycle ut_globals0 = no_filter" "gl_hub ut_globals0 = no_filter" "gl_uvc ut_globals0 = uvc_opts0"
  "gl_uac ut_globals0 = (no_filter, False)" "gl_hid ut_globals0 = (no_filter, hid_opts0, False)"
  "gl_storage ut_globals0 = (no_filter, False)" "gl_diag ut_globals0 = diag_opts0"
  by (simp_all add: ut_globals0_def)

lemmas reads = globals0_simps urb_args_read filter_args_read uvc_args_read class_args_read diag_args_read

lemma module_commands:
  assumes "mset mods = mset (ut_modules w)"
  shows "usbtrace_main mods (flag_args sw @ ''urb'' # map opt_word (urb_words u)) = runs_as ''urb'' sw (urb_words u) (urb_main w sw u)"
    "usbtrace_main mods (flag_args sw @ ''enum'' # map opt_word (filter_words f)) = runs_as ''enum'' sw (filter_words f) (enum_main w sw f)"
    "usbtrace_main mods (flag_args sw @ ''power'' # map opt_word (filter_words f)) = runs_as ''power'' sw (filter_words f) (power_main w sw f)"
    "usbtrace_main mods (flag_args sw @ ''lifecycle'' # map opt_word (filter_words f))
      = runs_as ''lifecycle'' sw (filter_words f) (lifecycle_main w sw f)"
    "usbtrace_main mods (flag_args sw @ ''hub'' # map opt_word (filter_words f)) = runs_as ''hub'' sw (filter_words f) (hub_main w sw f)"
    "usbtrace_main mods (flag_args sw @ ''uvc'' # map opt_word (uvc_words v)) = runs_as ''uvc'' sw (uvc_words v) (uvc_main w sw v)"
    "usbtrace_main mods (flag_args sw @ ''uac'' # map opt_word (class_words (f, all)))
      = runs_as ''uac'' sw (class_words (f, all)) (uac_main w sw (f, all))"
    "usbtrace_main mods (flag_args sw @ ''storage'' # map opt_word (class_words (f, all)))
      = runs_as ''storage'' sw (class_words (f, all)) (storage_main w sw (f, all))"
    "usbtrace_main mods (flag_args sw @ ''diag'' # map opt_word (diag_words d)) = runs_as ''diag'' sw (diag_words d) (diag_main w sw d)"
    "ho_rate_sec ho \<noteq> 0 \<Longrightarrow> ho_rate_sec ho \<le> 3600 \<Longrightarrow>
      usbtrace_main mods (flag_args sw @ ''hid'' # map opt_word (hid_words (f, ho, all)))
      = runs_as ''hid'' sw (hid_words (f, ho, all)) (hid_main w sw (f, ho, all))"
  by (rule ut_module_runs[OF assms(1) registered_defs(1)] ut_module_runs[OF assms(1) registered_defs(2)]
        ut_module_runs[OF assms(1) registered_defs(3)] ut_module_runs[OF assms(1) registered_defs(4)]
        ut_module_runs[OF assms(1) registered_defs(5)] ut_module_runs[OF assms(1) registered_defs(6)]
        ut_module_runs[OF assms(1) registered_defs(7)] ut_module_runs[OF assms(1) registered_defs(8)]
        ut_module_runs[OF assms(1) registered_defs(9)] ut_module_runs[OF assms(1) registered_defs(10)];
      simp add: reads hid_args_read not_option_def)+

text \<open>C17: Whatever options a module can have, some command line chooses them: with the modules registered in any order, the global
  switches and the options of the module written out as words make \<open>main\<close> run that module with exactly these switches and
  options, so that the program's configuration follows them, and the program exits with the module's code and output.\<close>

theorem command_line_selects_options:
  assumes "mset mods = mset (ut_modules w)" "ho_rate_sec ho \<noteq> 0" "ho_rate_sec ho \<le> 3600"
  shows "usbtrace_main mods (flag_args sw @ ''urb'' # map opt_word (urb_words u)) = runs_as ''urb'' sw (urb_words u) (urb_main w sw u)
   \<and> usbtrace_main mods (flag_args sw @ ''enum'' # map opt_word (filter_words f)) = runs_as ''enum'' sw (filter_words f) (enum_main w sw f)
   \<and> usbtrace_main mods (flag_args sw @ ''power'' # map opt_word (filter_words f)) = runs_as ''power'' sw (filter_words f) (power_main w sw f)
   \<and> usbtrace_main mods (flag_args sw @ ''lifecycle'' # map opt_word (filter_words f))
       = runs_as ''lifecycle'' sw (filter_words f) (lifecycle_main w sw f)
   \<and> usbtrace_main mods (flag_args sw @ ''hub'' # map opt_word (filter_words f)) = runs_as ''hub'' sw (filter_words f) (hub_main w sw f)
   \<and> usbtrace_main mods (flag_args sw @ ''uvc'' # map opt_word (uvc_words v)) = runs_as ''uvc'' sw (uvc_words v) (uvc_main w sw v)
   \<and> usbtrace_main mods (flag_args sw @ ''uac'' # map opt_word (class_words (f, all)))
       = runs_as ''uac'' sw (class_words (f, all)) (uac_main w sw (f, all))
   \<and> usbtrace_main mods (flag_args sw @ ''storage'' # map opt_word (class_words (f, all)))
       = runs_as ''storage'' sw (class_words (f, all)) (storage_main w sw (f, all))
   \<and> usbtrace_main mods (flag_args sw @ ''hid'' # map opt_word (hid_words (f, ho, all)))
       = runs_as ''hid'' sw (hid_words (f, ho, all)) (hid_main w sw (f, ho, all))
   \<and> usbtrace_main mods (flag_args sw @ ''diag'' # map opt_word (diag_words d)) = runs_as ''diag'' sw (diag_words d) (diag_main w sw d)"
  by (intro conjI module_commands[OF assms(1)] assms(2,3))

section \<open>What decides an exit\<close>

definition module_tables :: "(string \<times> string \<times> long_option list \<times> string list) list" where
  "module_tables =
     [(''urb'', ''h'', urb_lo, urb_usage), (''enum'', ''h'', filter_lo, enum_usage), (''power'', ''h'', filter_lo, power_usage),
      (''lifecycle'', ''h'', filter_lo, lifecycle_usage), (''hub'', ''h'', filter_lo, hub_usage),
      (''uvc'', ''ah'', uvc_lo, uvc_usage), (''uac'', ''ah'', class_stream_lo, uac_usage),
      (''storage'', ''ah'', class_stream_lo, storage_usage), (''hid'', ''ah'', hid_lo, hid_usage),
      (''diag'', ''hr:'', diag_lo, diag_usage)]"

text \<open>The codes \<open>getopt_long\<close> can return.\<close>

definition codes :: "string \<Rightarrow> long_option list \<Rightarrow> int list" where
  "codes os lo = GETOPT_ERR # map of_char (filter (\<lambda>c. c \<noteq> CHR '':'') os) @ map (\<lambda>(_, _, c). c) lo"

lemma short_opt_in: "short_opt os c = Some a \<Longrightarrow> c \<in> set os \<and> c \<noteq> CHR '':''"
  by (induction os) (auto split: if_splits)

lemma long_opt_in: "long_opt lo n = Some (a, c) \<Longrightarrow> \<exists>m. (m, a, c) \<in> set lo"
proof -
  assume l: "long_opt lo n = Some (a, c)"
  have f: "filter P lo = (m, a, c) # xs \<Longrightarrow> (m, a, c) \<in> set lo" for P m xs
    by (auto simp: filter_eq_Cons_iff)
  show ?thesis using l unfolding long_opt_def by (auto split: list.splits dest!: f)
qed

lemma short_cluster_codes: "(c, a) \<in> set (fst (short_cluster os w rest)) \<Longrightarrow> c \<in> set (codes os lo)"
  by (induction w) (auto simp: codes_def split: option.splits has_arg.splits list.splits prod.splits if_splits dest: short_opt_in)

lemma long_word_codes: "fst (long_word lo w rest) = (c, a) \<Longrightarrow> c \<in> set (codes os lo)"
  by (auto simp: long_word_def codes_def Let_def split: option.splits has_arg.splits list.splits if_splits dest!: long_opt_in)
    (force split: option.splits has_arg.splits list.splits if_splits dest!: long_opt_in)+

lemma getopt_codes: "list_all (\<lambda>(c, _). c \<in> set (codes os lo)) (getopt_long px os lo args)"
proof (induction px os lo args rule: getopt_long.induct)
  case (2 px os lo a rest)
  show ?case
    using 2 long_word_codes[of lo "drop 2 a" rest] short_cluster_codes[of _ _ os "tl a" rest lo]
    by (auto simp: list_all_iff split: prod.split)
qed simp

definition stops :: "string \<Rightarrow> int \<times> string \<Rightarrow> bool" where
  "stops cmd = (\<lambda>(c, arg). c = of_char CHR ''h'' \<or> c = GETOPT_ERR
     \<or> (cmd = ''hid'' \<and> c = of_char CHR ''I'' \<and> (strtoul arg = 0 \<or> strtoul arg > 3600)))"

definition outcome :: "string \<Rightarrow> (int \<times> string) list \<Rightarrow> int" where
  "outcome cmd rs =
     (case find (stops cmd) rs of None \<Rightarrow> 0 | Some (c, _) \<Rightarrow> if c = of_char CHR ''h'' then 1 else - 1)"

lemma outcome_simps [simp]:
  "outcome cmd [] = 0"
  "outcome cmd (r # rs) = (if stops cmd r then if fst r = of_char CHR ''h'' then 1 else - 1 else outcome cmd rs)"
  by (simp_all add: outcome_def split_beta)

lemmas code_defs = codes_def GETOPT_ERR_def table_defs USBTRACE_OPT_VID_def USBTRACE_OPT_PID_def

lemma filter_outcome:
  "list_all (\<lambda>(c, _). c \<in> set (codes ''h'' filter_lo)) rs \<Longrightarrow> cmd \<noteq> ''hid'' \<Longrightarrow> fst (usbtrace_filter_parse rs f) = outcome cmd rs"
  by (induction rs arbitrary: f) (auto simp: stops_def code_defs usbtrace_filter_getopt_def)

lemma class_outcome:
  "list_all (\<lambda>(c, _). c \<in> set (codes ''ah'' class_stream_lo)) rs \<Longrightarrow> cmd \<noteq> ''hid'' \<Longrightarrow>
   fst (class_stream_parse_args rs (f, all)) = outcome cmd rs"
  by (induction rs arbitrary: f all) (auto simp: stops_def code_defs usbtrace_filter_getopt_def)

lemma urb_outcome:
  "list_all (\<lambda>(c, _). c \<in> set (codes ''h'' urb_lo)) rs \<Longrightarrow> fst (urb_parse_args rs f) = outcome ''urb'' rs"
  by (induction rs arbitrary: f) (auto simp: stops_def code_defs usbtrace_filter_getopt_def)

lemma uvc_outcome:
  "list_all (\<lambda>(c, _). c \<in> set (codes ''ah'' uvc_lo)) rs \<Longrightarrow> fst (uvc_parse_args rs f) = outcome ''uvc'' rs"
  by (induction rs arbitrary: f) (auto simp: stops_def code_defs usbtrace_filter_getopt_def)

lemma hid_outcome:
  "list_all (\<lambda>(c, _). c \<in> set (codes ''ah'' hid_lo)) rs \<Longrightarrow> fst (hid_parse_args rs (f, ho, all)) = outcome ''hid'' rs"
  by (induction rs arbitrary: f ho all) (auto simp: stops_def code_defs usbtrace_filter_getopt_def Let_def split: if_splits)

lemma diag_outcome:
  "list_all (\<lambda>(c, _). c \<in> set (codes ''hr:'' diag_lo)) rs \<Longrightarrow> fst (diag_parse_args rs f) = outcome ''diag'' rs"
  by (induction rs arbitrary: f) (auto simp: stops_def code_defs usbtrace_filter_getopt_def)

lemma tables_outcome:
  assumes "(cmd, os, lo, us) \<in> set module_tables" "usbtrace_find_module (ut_modules w) cmd = Some m"
  shows "fst (parse_module m (cmd # rest) ut_globals0) = outcome cmd (getopt_long (uw_posix w) os lo rest)"
    and "md_usage m = Some (usage_text us)" and "cmd \<noteq> ''list''" "cmd \<noteq> ''help''" "not_option cmd"
proof -
  note oc = filter_outcome[OF getopt_codes] class_outcome[OF getopt_codes] urb_outcome[OF getopt_codes] uvc_outcome[OF getopt_codes]
    hid_outcome[OF getopt_codes] diag_outcome[OF getopt_codes]
  have "(cmd, os, lo, us) \<in> set module_tables \<Longrightarrow> usbtrace_find_module (ut_modules w) cmd = Some m \<Longrightarrow>
      fst (parse_module m (cmd # rest) ut_globals0) = outcome cmd (getopt_long (uw_posix w) os lo rest)
      \<and> md_usage m = Some (usage_text us) \<and> cmd \<noteq> ''list'' \<and> cmd \<noteq> ''help'' \<and> not_option cmd"
    unfolding module_tables_def list.set insert_iff empty_iff prod.inject
    by (elim disjE conjE FalseE; hypsubst)
      (simp_all only: registered_defs option.inject, auto simp: parse_module_def ut_module_def split_beta not_option_def
        globals0_simps urb_args_def filter_args_def uvc_args_def class_stream_args_def hid_args_def diag_args_def oc)
  then show "fst (parse_module m (cmd # rest) ut_globals0) = outcome cmd (getopt_long (uw_posix w) os lo rest)"
    and "md_usage m = Some (usage_text us)" and "cmd \<noteq> ''list''" "cmd \<noteq> ''help''" "not_option cmd"
    using assms by auto
qed

lemma tables_registered:
  "(cmd, os, lo, us) \<in> set module_tables \<Longrightarrow> \<exists>m. usbtrace_find_module (ut_modules w) cmd = Some m"
  unfolding module_tables_def list.set insert_iff empty_iff prod.inject by (elim disjE conjE FalseE; hypsubst) (auto simp: registered_as)

text \<open>C39: The command line of any module, whatever words follow its name: the first result of \<open>getopt_long\<close> that asks for help,
  is an error, or is an interval out of range decides. Help prints the module's usage text and exits with 0, an error exits
  with 2, in both cases without running anything; with no such result the module runs. In particular a long option that is not in the
  module's table, nor the start of exactly one name there, is refused.\<close>

theorem options_decide_outcome:
  assumes "mset mods = mset (ut_modules w)" "(cmd, os, lo, us) \<in> set module_tables" "list_all global_flag gs"
  shows "(case find (stops cmd) (getopt_long (uw_posix w) os lo rest) of
      None \<Rightarrow> (\<exists>sw code out. usbtrace_main mods (gs @ cmd # rest) = ([RunModule cmd sw (cmd # rest)], code, Some out))
    | Some (c, arg) \<Rightarrow> usbtrace_main mods (gs @ cmd # rest)
        = (if c = of_char CHR ''h'' then ([ModuleUsage (usage_text us)], 0, None) else ([], 2, None)))
    \<and> (long_opt lo n = None \<and> n \<noteq> [] \<and> CHR ''='' \<notin> set n \<and> list_all (known_opt lo) ws
        \<and> find (stops cmd) (map (opt_code lo) ws) = None \<longrightarrow>
      usbtrace_main mods (gs @ cmd # map opt_word ws @ (''--'' @ n) # rest2) = ([], 2, None))"
proof -
  obtain m where m: "usbtrace_find_module (ut_modules w) cmd = Some m" using tables_registered[OF assms(2)] by blast
  note t = tables_outcome[OF assms(2) m]
  have p: "parse_module m (cmd # rest) ut_globals0 =
      (outcome cmd (getopt_long (uw_posix w) os lo rest), snd (parse_module m (cmd # rest) ut_globals0))" for rest
    by (rule prod_eqI) (simp_all add: t(1))
  have main: "usbtrace_main mods (gs @ cmd # rest) =
      (let sw = flags_after \<lparr> mf_verbose = False, mf_json = False \<rparr> gs; rc = outcome cmd (getopt_long (uw_posix w) os lo rest) in
       if rc > 0 then ([ModuleUsage (usage_text us)], 0, None)
       else if rc < 0 then ([], 2, None)
       else ([RunModule cmd sw (cmd # rest)], fst (md_run m sw (snd (parse_module m (cmd # rest) ut_globals0))),
             Some (snd (md_run m sw (snd (parse_module m (cmd # rest) ut_globals0))))))" for rest
    using main_finds[OF assms(1) m t(3,4,5) p[of rest] assms(3)] by (simp add: t(2) Let_def)
  have "outcome cmd (getopt_long (uw_posix w) os lo (map opt_word ws @ (''--'' @ n) # rest2)) = - 1"
    if "long_opt lo n = None" "n \<noteq> []" "CHR ''='' \<notin> set n" "list_all (known_opt lo) ws" "find (stops cmd) (map (opt_code lo) ws) = None"
  proof -
    have "outcome cmd (xs @ (GETOPT_ERR, a) # ys) = - 1" if "find (stops cmd) xs = None" for xs a ys
      using that by (induction xs) (auto simp: stops_def GETOPT_ERR_def split: if_splits)
    then show ?thesis unfolding getopt_known[OF that(4)] getopt_unknown[OF that(1,2,3)] using that(5) by blast
  qed
  moreover have "outcome cmd rs = (case find (stops cmd) rs of None \<Rightarrow> 0 | Some (c, _) \<Rightarrow> if c = of_char CHR ''h'' then 1 else - 1)" for rs
    by (simp only: outcome_def)
  ultimately show ?thesis unfolding main by (simp add: Let_def del: split_paired_Ex split: option.split)
qed

section \<open>Concrete runs\<close>

text \<open>A machine where every skeleton opens, loads and attaches, no symbol listing can be read, and nothing is delivered.\<close>

definition demo_world :: ut_world where
  "demo_world =
     \<lparr> uw_posix = False, uw_fs = \<lparr> fs_read = (\<lambda>_. None), fs_access = (\<lambda>_. False), fs_dir = (\<lambda>_. None) \<rparr>,
       uw_open = (\<lambda>_. True), uw_load = (\<lambda>_. 0), uw_attach = (\<lambda>_. 0), uw_mux = True, uw_add = (\<lambda>_. 0),
       uw_polls = (\<lambda>_ _. []), uw_yaml = \<lparr> y_init = False, y_load = (\<lambda>_. Inl (0, None)), y_calloc = False \<rparr>,
       uw_files = (\<lambda>_. NoMemory), uw_builtin = [], uw_engine_mem = True, uw_now = 0, uw_diag_polls = (\<lambda>_. []) \<rparr>"

lemma show_dec_eval: "show_dec 5 = ''5''" "show_dec 0 = ''0''"
  by (simp_all add: show_dec_def show_base_10 digit_char_def)

theorem command_line_selects_options_witness:
  "usbtrace_main (rev (ut_modules demo_world)) [''--json'', ''hid'', ''--vid=5'', ''--pid=0'', ''--all'', ''--no-rate'', ''--interval=5'']
   = ([RunModule ''hid'' \<lparr> mf_verbose = False, mf_json = True \<rparr>
        [''hid'', ''--vid=5'', ''--pid=0'', ''--all'', ''--no-rate'', ''--interval=5'']],
      fst (hid_main demo_world \<lparr> mf_verbose = False, mf_json = True \<rparr>
        (\<lparr> flt_vid = 5, flt_pid = 0 \<rparr>, \<lparr> ho_rate = False, ho_rate_sec = 5 \<rparr>, True)),
      Some (snd (hid_main demo_world \<lparr> mf_verbose = False, mf_json = True \<rparr>
        (\<lparr> flt_vid = 5, flt_pid = 0 \<rparr>, \<lparr> ho_rate = False, ho_rate_sec = 5 \<rparr>, True))))"
proof -
  have m: "mset (rev (ut_modules demo_world)) = mset (ut_modules demo_world)" by simp
  have "ho_rate_sec \<lparr> ho_rate = False, ho_rate_sec = 5 \<rparr> \<noteq> 0" "ho_rate_sec \<lparr> ho_rate = False, ho_rate_sec = 5 \<rparr> \<le> 3600" by simp_all
  from command_line_selects_options[OF m this, of "\<lparr> mf_verbose = False, mf_json = True \<rparr>" _ "\<lparr> flt_vid = 5, flt_pid = 0 \<rparr>" _ True]
  show ?thesis by (simp add: runs_as_def flag_args_def hid_words_def filter_words_def flag_word_def show_dec_eval)
qed

theorem options_decide_outcome_witness:
  "usbtrace_main (rev (ut_modules demo_world)) [''-v'', ''urb'', ''--ctrl'', ''--verbose''] = ([], 2, None)
   \<and> usbtrace_main (rev (ut_modules demo_world)) [''urb'', ''-h''] = ([ModuleUsage (usage_text urb_usage)], 0, None)"
proof -
  have m: "mset (rev (ut_modules demo_world)) = mset (ut_modules demo_world)" by simp
  have t: "(''urb'', ''h'', urb_lo, urb_usage) \<in> set module_tables" by (simp add: module_tables_def)
  have g: "list_all global_flag [''-v'']" "list_all global_flag []" by (simp_all add: global_flag_def)
  have "usbtrace_main (rev (ut_modules demo_world)) ([''-v''] @ ''urb'' # map opt_word [(''ctrl'', None)] @ (''--'' @ ''verbose'') # []) = ([], 2, None)"
    using options_decide_outcome[OF m t g(1), of "[]" "''verbose''" "[(''ctrl'', None)]" "[]"]
    by (simp add: known_opt_def opt_code_def long_opt_def table_defs stops_def GETOPT_ERR_def)
  moreover have "usbtrace_main (rev (ut_modules demo_world)) ([] @ ''urb'' # [''-h'']) = ([ModuleUsage (usage_text urb_usage)], 0, None)"
    using options_decide_outcome[OF m t g(2), of "[''-h'']"]
    by (simp add: demo_world_def stops_def)
  ultimately show ?thesis by simp
qed

end
