(* ===== verification/Ut_System.thy ===== *)
theory Ut_System
  imports Ut_Program_Props Class_Text Record_Types Dev_Consumer_Props Dev_Props "HOL-Library.Sublist"
begin

text \<open>
  From the hooks in the kernel to standard output. A story of a run is a sequence of steps: a hook of the program fires, and
  each record it submits gets space in the event buffer or not (\<open>events.bpf.h\<close>), or the consumer polls and takes what it
  takes from the front. The world of such a story delivers what the module's own program, configured from the command line,
  left in the buffer.
\<close>

section \<open>The event buffer (events.bpf.h)\<close>

text \<open>The ring buffer: \<open>space\<close> is whether \<open>bpf_ringbuf_reserve\<close> succeeds; the record is copied and submitted, or lost.\<close>

definition ringbuf_output :: "bool \<Rightarrow> u8 list \<Rightarrow> u8 list list \<Rightarrow> u8 list list" where
  "ringbuf_output space rec q = (if space then q @ [rec] else q)"

text \<open>The perf buffers, one per CPU: the record goes to that of the current CPU unless \<open>bpf_perf_event_output\<close> fails; its result is
  not looked at.\<close>

definition perf_output :: "nat \<times> int \<Rightarrow> u8 list \<Rightarrow> (nat \<Rightarrow> u8 list list) \<Rightarrow> (nat \<Rightarrow> u8 list list)" where
  "perf_output = (\<lambda>(cpu, err) rec q. if err = 0 then q(cpu := q cpu @ [rec]) else q)"

section \<open>Steps\<close>

datatype 'h sys_step = Fires 'h "nat \<Rightarrow> bool" | Polled nat int

text \<open>The records of one hook, the \<open>i\<close>-th with space as \<open>space i\<close>.\<close>

fun outputs :: "(nat \<Rightarrow> bool) \<Rightarrow> any_rec list \<Rightarrow> u8 list list \<Rightarrow> u8 list list" where
  "outputs space [] q = q"
| "outputs space (r # rs) q = outputs (\<lambda>i. space (Suc i)) rs (ringbuf_output (space 0) (rec_bytes r) q)"

text \<open>What the polls of a story deliver, and what is left in the buffer.\<close>

fun sys_polls :: "('h \<Rightarrow> 's \<Rightarrow> 's \<times> any_rec list) \<Rightarrow> 'h sys_step list \<Rightarrow> 's \<Rightarrow> u8 list list \<Rightarrow> (u8 list list \<times> int) list \<times> u8 list list" where
  "sys_polls prog [] s q = ([], q)"
| "sys_polls prog (Fires h space # st) s q = (let (s', rs) = prog h s in sys_polls prog st s' (outputs space rs q))"
| "sys_polls prog (Polled n err # st) s q = (let (ps, q') = sys_polls prog st s (drop n q) in ((take n q, err) # ps, q'))"

text \<open>The records submitted, and those that got space.\<close>

fun sys_submitted :: "('h \<Rightarrow> 's \<Rightarrow> 's \<times> any_rec list) \<Rightarrow> 'h sys_step list \<Rightarrow> 's \<Rightarrow> any_rec list" where
  "sys_submitted prog [] s = []"
| "sys_submitted prog (Fires h space # st) s = (let (s', rs) = prog h s in rs @ sys_submitted prog st s')"
| "sys_submitted prog (Polled n err # st) s = sys_submitted prog st s"

fun with_space :: "(nat \<Rightarrow> bool) \<Rightarrow> 'r list \<Rightarrow> 'r list" where
  "with_space space [] = []"
| "with_space space (r # rs) = (if space 0 then [r] else []) @ with_space (\<lambda>i. space (Suc i)) rs"

fun sys_kept :: "('h \<Rightarrow> 's \<Rightarrow> 's \<times> any_rec list) \<Rightarrow> 'h sys_step list \<Rightarrow> 's \<Rightarrow> any_rec list" where
  "sys_kept prog [] s = []"
| "sys_kept prog (Fires h space # st) s = (let (s', rs) = prog h s in with_space space rs @ sys_kept prog st s')"
| "sys_kept prog (Polled n err # st) s = sys_kept prog st s"

lemma outputs_app: "outputs space rs q = q @ map rec_bytes (with_space space rs)"
  by (induction space rs q rule: outputs.induct) (simp_all add: ringbuf_output_def)

text \<open>The buffer is first in, first out: the deliveries, and then what is left, are the records that got space.\<close>

lemma sys_fifo:
  "concat (map fst (fst (sys_polls prog st s q))) @ snd (sys_polls prog st s q) = q @ map rec_bytes (sys_kept prog st s)"
proof (induction prog st s q rule: sys_polls.induct)
  case (3 prog n err st s q)
  then show ?case by (simp add: split_beta)
qed (simp_all add: split_beta outputs_app)

lemma with_space_subseq: "subseq (with_space space rs) rs"
  by (induction space rs rule: with_space.induct) auto

lemma kept_subseq: "subseq (sys_kept prog st s) (sys_submitted prog st s)"
proof (induction st arbitrary: s)
  case (Cons x st)
  then show ?case by (cases x) (simp_all add: split_beta with_space_subseq list_emb_append_mono)
qed simp

lemma all_space: "(\<And>i. space i) \<Longrightarrow> with_space space rs = rs"
  by (induction space rs rule: with_space.induct) auto

text \<open>No record is lost for want of space.\<close>

fun spacious :: "'h sys_step \<Rightarrow> bool" where
  "spacious (Fires h space) = (\<forall>i. space i)"
| "spacious (Polled n err) = True"

lemma kept_all: "list_all spacious st \<Longrightarrow> sys_kept prog st s = sys_submitted prog st s"
proof (induction st arbitrary: s)
  case (Cons x st)
  then show ?case by (cases x) (simp_all add: split_beta all_space)
qed simp

section \<open>The programs and their stories\<close>

definition urb_prog :: "urb_config \<Rightarrow> bpf_env \<times> urb_hook \<Rightarrow> (u64 \<rightharpoonup> u64) \<Rightarrow> (u64 \<rightharpoonup> u64) \<times> any_rec list" where
  "urb_prog cfg h m = (fst (urb_hit cfg h m), submitted (Urb_hit cfg h m))"

definition enum_prog :: "dev_config \<Rightarrow> dev_env \<times> enum_hook \<Rightarrow> enum_maps \<Rightarrow> enum_maps \<times> any_rec list" where
  "enum_prog cfg h m = (fst (enum_hit cfg h m), submitted (Enum_hit cfg h m))"

definition lifecycle_prog :: "dev_config \<Rightarrow> dev_env \<times> lifecycle_hook \<Rightarrow> (u64 \<rightharpoonup> u64) \<Rightarrow> (u64 \<rightharpoonup> u64) \<times> any_rec list" where
  "lifecycle_prog cfg h m = (fst (lifecycle_hit cfg h m), submitted (Lifecycle_hit cfg h m))"

definition power_prog :: "dev_config \<Rightarrow> dev_env \<times> power_hook \<times> u64 \<Rightarrow> unit \<Rightarrow> unit \<times> any_rec list" where
  "power_prog cfg = (\<lambda>(en, k, a) m. (m, submitted (Power_hit cfg en k a)))"

definition hub_prog :: "dev_config \<Rightarrow> dev_env \<times> hub_hook \<Rightarrow> unit \<Rightarrow> unit \<times> any_rec list" where
  "hub_prog cfg h m = (m, submitted (Hub_hit cfg h))"

fun class_module :: "class_hook \<Rightarrow> string" where
  "class_module (Hid_irq_in a) = ''hid''"
| "class_module (Hid_irq_out a) = ''hid''"
| "class_module (Uac_complete a) = ''uac''"
| "class_module (Storage_complete a) = ''storage''"

text \<open>A hook of another module's program does not concern this one.\<close>

definition class_prog :: "string \<Rightarrow> usbtrace_class_config \<Rightarrow> bpf_env \<times> class_hook \<Rightarrow> unit \<Rightarrow> unit \<times> any_rec list" where
  "class_prog name cfg h m = (m, if class_module (snd h) = name then submitted (Class_hit cfg h) else [])"

definition uvc_prog :: "uvc_config \<Rightarrow> drv_env \<times> uvc_hook \<Rightarrow> uvc_maps \<Rightarrow> uvc_maps \<times> any_rec list" where
  "uvc_prog cfg h m = (fst (uvc_hit cfg h m), submitted (Uvc_hit cfg h m))"

record ut_kernel =
  k_urb :: "(bpf_env \<times> urb_hook) sys_step list"
  k_enum :: "(dev_env \<times> enum_hook) sys_step list"
  k_lifecycle :: "(dev_env \<times> lifecycle_hook) sys_step list"
  k_power :: "(dev_env \<times> power_hook \<times> u64) sys_step list"
  k_hub :: "(dev_env \<times> hub_hook) sys_step list"
  k_class :: "(bpf_env \<times> class_hook) sys_step list"
  k_uvc :: "(drv_env \<times> uvc_hook) sys_step list"

definition kernel_polls :: "ut_kernel \<Rightarrow> string \<Rightarrow> bpf_cfg \<Rightarrow> (u8 list list \<times> int) list \<times> u8 list list" where
  "kernel_polls k name cfg =
     (case cfg of
        Urb_cfg c \<Rightarrow> sys_polls (urb_prog c) (k_urb k) Map.empty []
      | Dev_cfg c \<Rightarrow>
          if name = ''enum'' then sys_polls (enum_prog c) (k_enum k) maps0 []
          else if name = ''lifecycle'' then sys_polls (lifecycle_prog c) (k_lifecycle k) Map.empty []
          else if name = ''power'' then sys_polls (power_prog c) (k_power k) () []
          else sys_polls (hub_prog c) (k_hub k) () []
      | Class_cfg c \<Rightarrow> sys_polls (class_prog name c) (k_class k) () []
      | Uvc_cfg c \<Rightarrow> sys_polls (uvc_prog c) (k_uvc k) uvc_maps0 [])"

text \<open>The records of the module's program that got space, in order.\<close>

definition kernel_kept :: "ut_kernel \<Rightarrow> string \<Rightarrow> bpf_cfg \<Rightarrow> any_rec list" where
  "kernel_kept k name cfg =
     (case cfg of
        Urb_cfg c \<Rightarrow> sys_kept (urb_prog c) (k_urb k) Map.empty
      | Dev_cfg c \<Rightarrow>
          if name = ''enum'' then sys_kept (enum_prog c) (k_enum k) maps0
          else if name = ''lifecycle'' then sys_kept (lifecycle_prog c) (k_lifecycle k) Map.empty
          else if name = ''power'' then sys_kept (power_prog c) (k_power k) ()
          else sys_kept (hub_prog c) (k_hub k) ()
      | Class_cfg c \<Rightarrow> sys_kept (class_prog name c) (k_class k) ()
      | Uvc_cfg c \<Rightarrow> sys_kept (uvc_prog c) (k_uvc k) uvc_maps0)"

definition kernel_world :: "ut_kernel \<Rightarrow> ut_world \<Rightarrow> ut_world" where
  "kernel_world k w = w\<lparr> uw_polls := (\<lambda>name cfg. fst (kernel_polls k name cfg)) \<rparr>"

text \<open>What the kernel guarantees of sizes, in every hook of the story.\<close>

fun step_sizes :: "('x bpf_env_scheme \<times> 'k) sys_step \<Rightarrow> bool" where
  "step_sizes (Fires h space) = kernel_sizes (fst h)"
| "step_sizes (Polled n err) = True"

definition story_sizes :: "ut_kernel \<Rightarrow> bool" where
  "story_sizes k \<longleftrightarrow> list_all step_sizes (k_urb k) \<and> list_all step_sizes (k_enum k) \<and> list_all step_sizes (k_lifecycle k)
     \<and> list_all step_sizes (k_power k) \<and> list_all step_sizes (k_hub k) \<and> list_all step_sizes (k_class k)
     \<and> list_all step_sizes (k_uvc k)"

lemma with_space_set: "set (with_space space rs) \<subseteq> set rs"
  by (induction space rs rule: with_space.induct) auto

lemma kept_all_in:
  assumes "\<And>h s. kernel_sizes (fst h) \<Longrightarrow> list_all P (snd (prog h s))" "list_all step_sizes st"
  shows "list_all P (sys_kept prog st s)"
  using assms(2)
proof (induction st arbitrary: s)
  case (Cons x st)
  show ?case
  proof (cases x)
    case (Fires h space)
    have "list_all P (snd (prog h s))" using assms(1)[of h s] Cons.prems Fires by simp
    then have "list_all P (with_space space (snd (prog h s)))" using with_space_set[of space "snd (prog h s)"] by (auto simp: list_all_iff subset_iff)
    then show ?thesis using Cons Fires by (simp add: split_beta)
  qed (use Cons in simp)
qed simp

section \<open>What is delivered\<close>

lemma polls_done_prefix: "\<exists>n. polls_done ps = take n ps"
proof -
  have "takeWhile P ps @ take 1 (dropWhile P ps) = take (length (takeWhile P ps) + 1) ps" for P :: "'a list \<times> int \<Rightarrow> bool"
    by (induction ps) auto
  then show ?thesis unfolding polls_done_def by blast
qed

text \<open>A session gets the records that got space, in order, up to some point; all of them when the polls empty the buffer.\<close>

definition fifo_pair :: "(u8 list list \<times> int) list \<times> u8 list list \<Rightarrow> any_rec list \<Rightarrow> bool" where
  "fifo_pair x kept \<longleftrightarrow> concat (map fst (fst x)) @ snd x = map rec_bytes kept"

lemma kernel_fifo: "fifo_pair (kernel_polls k name cfg) (kernel_kept k name cfg)"
  by (cases cfg) (simp_all add: fifo_pair_def kernel_polls_def kernel_kept_def sys_fifo)

lemma delivered_kept:
  assumes "re_polls env = fst x" "fifo_pair x kept"
  shows "delivered env = map rec_bytes (take (length (delivered env)) kept)"
    and "\<not> list_ex fatal_poll (re_polls env) \<Longrightarrow> snd x = [] \<Longrightarrow> length (delivered env) = length kept"
proof -
  let ?ps = "fst x"
  have all: "concat (map fst ?ps) @ snd x = map rec_bytes kept"
    using assms(2) by (simp add: fifo_pair_def)
  obtain n where n: "polls_done (re_polls env) = take n ?ps" using polls_done_prefix assms(1) by metis
  have "concat (map fst ?ps) = concat (map fst (take n ?ps)) @ concat (map fst (drop n ?ps))"
    by (metis append_take_drop_id concat_append map_append)
  then have d: "delivered env @ concat (map fst (drop n ?ps)) @ snd x = map rec_bytes kept"
    using all by (simp add: delivered_def n)
  have "take (length (delivered env)) (map rec_bytes kept) = delivered env" unfolding d[symmetric] by simp
  then show "delivered env = map rec_bytes (take (length (delivered env)) kept)" by (simp add: take_map)
  assume nf: "\<not> list_ex fatal_poll (re_polls env)" and e: "snd x = []"
  have "takeWhile (\<lambda>p. \<not> fatal_poll p) (re_polls env) = re_polls env"
    using nf by (subst takeWhile_eq_all_conv) (simp add: list_ex_iff)
  moreover have "dropWhile (\<lambda>p. \<not> fatal_poll p) (re_polls env) = []"
    using nf by (subst dropWhile_eq_Nil_conv) (simp add: list_ex_iff)
  ultimately have "polls_done (re_polls env) = re_polls env" by (simp only: polls_done_def take_Nil append_Nil2)
  then have "delivered env = map rec_bytes kept" using all e assms(1) by (simp add: delivered_def)
  then show "length (delivered env) = length kept" by simp
qed

section \<open>From the command line to standard output\<close>

text \<open>What a line-per-record module prints for a record.\<close>

fun rec_print :: "bool \<Rightarrow> bool \<Rightarrow> any_rec \<Rightarrow> string" where
  "rec_print json all (UrbR e) = (if json then urb_print_json e else urb_print_text e)"
| "rec_print json all (EnumR e) = enum_print json e"
| "rec_print json all (PowerR e) = power_print json e"
| "rec_print json all (LifecycleR e) = lifecycle_print json e"
| "rec_print json all (HubR e) = hub_print json e"
| "rec_print json all (ClassR e) = (if all \<or> is_anomaly e then class_print_event json e else [])"
| "rec_print json all r = []"

lemma rec_bytes_dec:
  assumes "rec_ok r"
  shows "length (rec_bytes r) = rec_sizeof r" "h_kind (dec_hdr (rec_bytes r)) = rec_kind r"
proof -
  show "length (rec_bytes r) = rec_sizeof r" by (rule rec_ok_reads(1)[OF assms])
  show "h_kind (dec_hdr (rec_bytes r)) = rec_kind r" using rec_bytes_hdr[of r "[]"] assms by (simp add: rec_ok_def)
qed

lemma records_of_kind:
  assumes "list_all rec_ok rs" "list_all (\<lambda>r. rec_sizeof r = sz \<and> rec_kind r = kind \<and> pr (dec (rec_bytes r)) = pr' r) rs"
  shows "concat (map pr (records kind sz dec (map rec_bytes rs))) = concat (map pr' rs)"
proof -
  have "records kind sz dec (map rec_bytes rs) = map (dec \<circ> rec_bytes) rs"
    using assms by (induction rs) (simp_all add: records_def rec_bytes_dec)
  moreover have "map (pr \<circ> (dec \<circ> rec_bytes)) rs = map pr' rs" using assms(2) by (simp add: list_all_iff)
  ultimately show ?thesis by (simp only: map_map)
qed

lemma class_records_of:
  assumes "list_all rec_ok rs" "list_all (\<lambda>r. \<exists>e. r = ClassR e) rs"
  shows "map ClassR (class_records (map rec_bytes rs)) = rs"
  using assms
proof (induction rs)
  case (Cons r rs)
  then obtain e where r: "r = ClassR e" by auto
  have ok: "rec_ok (ClassR e)" using Cons.prems r by simp
  have "dec_class_urb_event (enc_class_urb_event e) = e"
    using ok ce.dec_enc_append[of e "[]"] by (simp add: rec_ok_def)
  then show ?case using Cons rec_bytes_dec[OF ok] by (simp add: r class_records_def)
qed (simp add: class_records_def)

definition class_stats0 :: class_stats where
  "class_stats0 = \<lparr> cs_urbs = 0, cs_isoc_err = 0, cs_status_err = 0, cs_bytes = 0 \<rparr>"

text \<open>A session that is set up, and the records of its program that it is given.\<close>

definition session_up :: "ut_world \<Rightarrow> string \<Rightarrow> string list \<Rightarrow> bpf_cfg \<Rightarrow> bool" where
  "session_up w name secs cfg \<longleftrightarrow> uw_open w name \<and> run_ready (session_env w name secs cfg)"

definition given :: "ut_kernel \<Rightarrow> ut_world \<Rightarrow> string \<Rightarrow> string list \<Rightarrow> bpf_cfg \<Rightarrow> any_rec list" where
  "given k w name secs cfg =
     take (length (delivered (session_env (kernel_world k w) name secs cfg))) (kernel_kept k name cfg)"

lemma session_env_polls: "re_polls (session_env (kernel_world k w) name secs cfg) = fst (kernel_polls k name cfg)"
  by (simp add: session_env_def kernel_world_def)

lemma delivered_given: "delivered (session_env (kernel_world k w) name secs cfg) = map rec_bytes (given k w name secs cfg)"
  unfolding given_def by (rule delivered_kept(1)[OF session_env_polls kernel_fifo])

lemma given_all:
  assumes "\<not> list_ex fatal_poll (fst (kernel_polls k name cfg))" "snd (kernel_polls k name cfg) = []"
  shows "given k w name secs cfg = kernel_kept k name cfg"
  using delivered_kept(2)[OF session_env_polls kernel_fifo, of k w name secs cfg] assms
  by (simp add: given_def session_env_polls)

text \<open>All records the module's program submitted, and whether none is lost: the buffer always had space, no poll failed for
  good, and the polls emptied the buffer.\<close>

definition kernel_submitted :: "ut_kernel \<Rightarrow> string \<Rightarrow> bpf_cfg \<Rightarrow> any_rec list" where
  "kernel_submitted k name cfg =
     (case cfg of
        Urb_cfg c \<Rightarrow> sys_submitted (urb_prog c) (k_urb k) Map.empty
      | Dev_cfg c \<Rightarrow>
          if name = ''enum'' then sys_submitted (enum_prog c) (k_enum k) maps0
          else if name = ''lifecycle'' then sys_submitted (lifecycle_prog c) (k_lifecycle k) Map.empty
          else if name = ''power'' then sys_submitted (power_prog c) (k_power k) ()
          else sys_submitted (hub_prog c) (k_hub k) ()
      | Class_cfg c \<Rightarrow> sys_submitted (class_prog name c) (k_class k) ()
      | Uvc_cfg c \<Rightarrow> sys_submitted (uvc_prog c) (k_uvc k) uvc_maps0)"

definition always_space :: "ut_kernel \<Rightarrow> bool" where
  "always_space k \<longleftrightarrow> list_all spacious (k_urb k) \<and> list_all spacious (k_enum k) \<and> list_all spacious (k_lifecycle k)
     \<and> list_all spacious (k_power k) \<and> list_all spacious (k_hub k) \<and> list_all spacious (k_class k) \<and> list_all spacious (k_uvc k)"

definition no_loss :: "ut_kernel \<Rightarrow> string \<Rightarrow> bpf_cfg \<Rightarrow> bool" where
  "no_loss k name cfg \<longleftrightarrow> always_space k \<and> \<not> list_ex fatal_poll (fst (kernel_polls k name cfg)) \<and> snd (kernel_polls k name cfg) = []"

lemma given_submitted:
  "subseq (given k w name secs cfg) (kernel_submitted k name cfg)"
  "no_loss k name cfg \<Longrightarrow> given k w name secs cfg = kernel_submitted k name cfg"
proof -
  have "subseq (kernel_kept k name cfg) (kernel_submitted k name cfg)"
    by (cases cfg) (simp_all add: kernel_kept_def kernel_submitted_def kept_subseq)
  moreover have "subseq (given k w name secs cfg) (kernel_kept k name cfg)"
    unfolding given_def by (rule prefix_imp_subseq[OF take_is_prefix])
  ultimately show "subseq (given k w name secs cfg) (kernel_submitted k name cfg)" by (rule subseq_order.trans[rotated])
  assume "no_loss k name cfg"
  then show "given k w name secs cfg = kernel_submitted k name cfg"
    by (cases cfg) (simp_all add: no_loss_def given_all always_space_def kernel_kept_def kernel_submitted_def kept_all)
qed

lemma kept_ok:
  assumes "story_sizes k"
  shows "list_all (\<lambda>r. rec_ok r \<and> (\<exists>e. r = UrbR e)) (kernel_kept k ''urb'' (Urb_cfg c))"
    "list_all (\<lambda>r. rec_ok r \<and> (\<exists>e. r = EnumR e)) (kernel_kept k ''enum'' (Dev_cfg d))"
    "list_all (\<lambda>r. rec_ok r \<and> (\<exists>e. r = LifecycleR e)) (kernel_kept k ''lifecycle'' (Dev_cfg d))"
    "list_all (\<lambda>r. rec_ok r \<and> (\<exists>e. r = PowerR e)) (kernel_kept k ''power'' (Dev_cfg d))"
    "list_all (\<lambda>r. rec_ok r \<and> (\<exists>e. r = HubR e)) (kernel_kept k ''hub'' (Dev_cfg d))"
    "list_all (\<lambda>r. rec_ok r \<and> (\<exists>e. r = ClassR e)) (kernel_kept k name (Class_cfg cc))"
proof -
  have st: "list_all step_sizes (k_urb k)" "list_all step_sizes (k_enum k)" "list_all step_sizes (k_lifecycle k)"
    "list_all step_sizes (k_power k)" "list_all step_sizes (k_hub k)" "list_all step_sizes (k_class k)"
    using assms by (simp_all add: story_sizes_def)
  note ok = submitted_ok[unfolded list_all_iff]
  have "list_all (\<lambda>r. rec_ok r \<and> (\<exists>e. r = UrbR e)) (snd (urb_prog c h s))" if "kernel_sizes (fst h)" for h s
    using ok[of "Urb_hit c h s"] that by (auto simp: urb_prog_def list_all_iff)
  from kept_all_in[OF this st(1)] show "list_all (\<lambda>r. rec_ok r \<and> (\<exists>e. r = UrbR e)) (kernel_kept k ''urb'' (Urb_cfg c))"
    by (simp add: kernel_kept_def)
  have "list_all (\<lambda>r. rec_ok r \<and> (\<exists>e. r = EnumR e)) (snd (enum_prog d h s))" if "kernel_sizes (fst h)" for h s
    using ok[of "Enum_hit d h s"] that by (auto simp: enum_prog_def list_all_iff)
  from kept_all_in[OF this st(2)] show "list_all (\<lambda>r. rec_ok r \<and> (\<exists>e. r = EnumR e)) (kernel_kept k ''enum'' (Dev_cfg d))"
    by (simp add: kernel_kept_def)
  have "list_all (\<lambda>r. rec_ok r \<and> (\<exists>e. r = LifecycleR e)) (snd (lifecycle_prog d h s))" if "kernel_sizes (fst h)" for h s
    using ok[of "Lifecycle_hit d h s"] that by (auto simp: lifecycle_prog_def list_all_iff)
  from kept_all_in[OF this st(3)]
  show "list_all (\<lambda>r. rec_ok r \<and> (\<exists>e. r = LifecycleR e)) (kernel_kept k ''lifecycle'' (Dev_cfg d))"
    by (simp add: kernel_kept_def)
  have "list_all (\<lambda>r. rec_ok r \<and> (\<exists>e. r = PowerR e)) (snd (power_prog d h s))" if "kernel_sizes (fst h)" for h s
    using ok[of "Power_hit d (fst h) (fst (snd h)) (snd (snd h))"] that by (auto simp: power_prog_def list_all_iff split_beta)
  from kept_all_in[OF this st(4)] show "list_all (\<lambda>r. rec_ok r \<and> (\<exists>e. r = PowerR e)) (kernel_kept k ''power'' (Dev_cfg d))"
    by (simp add: kernel_kept_def)
  have "list_all (\<lambda>r. rec_ok r \<and> (\<exists>e. r = HubR e)) (snd (hub_prog d h s))" if "kernel_sizes (fst h)" for h s
    using ok[of "Hub_hit d h"] that by (auto simp: hub_prog_def list_all_iff)
  from kept_all_in[OF this st(5)] show "list_all (\<lambda>r. rec_ok r \<and> (\<exists>e. r = HubR e)) (kernel_kept k ''hub'' (Dev_cfg d))"
    by (simp add: kernel_kept_def)
  have "list_all (\<lambda>r. rec_ok r \<and> (\<exists>e. r = ClassR e)) (snd (class_prog name cc h s))" if "kernel_sizes (fst h)" for h s
    using ok[of "Class_hit cc h"] that by (auto simp: class_prog_def list_all_iff)
  from kept_all_in[OF this st(6)] show "list_all (\<lambda>r. rec_ok r \<and> (\<exists>e. r = ClassR e)) (kernel_kept k name (Class_cfg cc))"
    by (simp add: kernel_kept_def)
qed

section \<open>From the command line to standard output\<close>

lemma session_up_world [simp]: "run_ready (session_env (kernel_world k w) name secs cfg) = run_ready (session_env w name secs cfg)"
  "uw_open (kernel_world k w) = uw_open w"
  by (simp_all add: run_ready_def session_env_def kernel_world_def hooks_usable_def)

lemma given_in: "list_all P (kernel_kept k name cfg) \<Longrightarrow> list_all P (given k w name secs cfg)"
  by (auto simp: given_def list_all_iff dest: in_set_takeD)

text \<open>The modules that print a line per record.\<close>

lemma printed_records:
  assumes "\<And>d out. h d out = (if sz \<le> length d \<and> h_kind (dec_hdr d) = kind then out @ pr (dec d) else out)"
    and "list_all (\<lambda>r. rec_ok r \<and> P r) (kernel_kept k name cfg)"
    and "\<And>r. rec_ok r \<Longrightarrow> P r \<Longrightarrow> rec_sizeof r = sz \<and> rec_kind r = kind \<and> pr (dec (rec_bytes r)) = rec_print json True r"
  shows "snd (dev_run h header (uw_open w name) (session_env (kernel_world k w) name secs cfg)) =
    (if session_up w name secs cfg then header @ concat (map (rec_print json True) (given k w name secs cfg)) else [])"
proof -
  have g: "list_all (\<lambda>r. rec_ok r \<and> P r) (given k w name secs cfg)" by (rule given_in[OF assms(2)])
  have "list_all rec_ok (given k w name secs cfg)" using g by (simp add: list_all_iff)
  moreover have "list_all (\<lambda>r. rec_sizeof r = sz \<and> rec_kind r = kind \<and> pr (dec (rec_bytes r)) = rec_print json True r)
      (given k w name secs cfg)" using g assms(3) by (simp add: list_all_iff)
  ultimately have "concat (map pr (records kind sz dec (delivered (session_env (kernel_world k w) name secs cfg)))) =
      concat (map (rec_print json True) (given k w name secs cfg))"
    unfolding delivered_given by (rule records_of_kind[where pr = pr and dec = dec])
  then show ?thesis by (simp add: dev_session[of h sz kind pr dec, OF assms(1)] session_up_def)
qed

lemma dec_rec_bytes:
  "rec_ok (UrbR u) \<Longrightarrow> dec_urb_event (enc_urb_event u) = u"
  "rec_ok (EnumR e) \<Longrightarrow> dec_enum_event (enc_enum_event e) = e"
  "rec_ok (PowerR p) \<Longrightarrow> dec_power_rec (enc_power_rec p) = p"
  "rec_ok (LifecycleR l) \<Longrightarrow> dec_lifecycle_event (enc_lifecycle_event l) = l"
  "rec_ok (HubR h) \<Longrightarrow> dec_hub_event (enc_hub_event h) = h"
  using ue.dec_enc_append[of u "[]"] ee.dec_enc_append[of e "[]"] pe.dec_enc_append[of p "[]"] le.dec_enc_append[of l "[]"]
    he.dec_enc_append[of h "[]"] by (simp_all add: rec_ok_def)

definition line_stdout :: "ut_kernel \<Rightarrow> ut_world \<Rightarrow> bool \<Rightarrow> string \<Rightarrow> string list \<Rightarrow> bpf_cfg \<Rightarrow> string \<Rightarrow> string" where
  "line_stdout k w json name secs cfg header =
     (if session_up w name secs cfg then header @ concat (map (rec_print json True) (given k w name secs cfg)) else [])"

lemma urb_run_dev: "urb_run json = dev_run (urb_handle_event json) (urb_on_start json)"
  by (intro ext) (simp add: urb_run_def dev_run_def)

lemma urb_stdout:
  assumes "story_sizes k"
  shows "fst (snd (urb_main (kernel_world k w) sw u)) =
    line_stdout k w (mf_json sw) ''urb'' urb_secs (Urb_cfg (urb_config_of u)) (urb_on_start (mf_json sw))"
proof -
  have "snd (dev_run (urb_handle_event (mf_json sw)) (urb_on_start (mf_json sw)) (uw_open w ''urb'')
      (session_env (kernel_world k w) ''urb'' urb_secs (Urb_cfg (urb_config_of u)))) =
    line_stdout k w (mf_json sw) ''urb'' urb_secs (Urb_cfg (urb_config_of u)) (urb_on_start (mf_json sw))"
    unfolding line_stdout_def
    by (rule printed_records[where sz = 80 and kind = USBTRACE_EVT_URB and dec = dec_urb_event
          and pr = "\<lambda>e. if mf_json sw then urb_print_json e else urb_print_text e", OF _ kept_ok(1)[OF assms]])
      (auto simp: urb_handle_event_def dec_rec_bytes)
  then show ?thesis by (simp add: urb_main_def urb_run_dev Let_def split_beta)
qed

lemma dev_main_stdout:
  assumes "\<And>d out. h d out = (if sz \<le> length d \<and> h_kind (dec_hdr d) = kind then out @ pr (dec d) else out)"
    and "list_all (\<lambda>r. rec_ok r \<and> P r) (kernel_kept k name (Dev_cfg (dev_config_of f)))"
    and "\<And>r. rec_ok r \<Longrightarrow> P r \<Longrightarrow> rec_sizeof r = sz \<and> rec_kind r = kind \<and> pr (dec (rec_bytes r)) = rec_print (mf_json sw) True r"
    and "run (mf_json sw) = dev_run h header"
  shows "fst (snd (dev_main run what name secs (kernel_world k w) sw f)) =
    line_stdout k w (mf_json sw) name secs (Dev_cfg (dev_config_of f)) header"
  using printed_records[where sz = sz and kind = kind and pr = pr and dec = dec and P = P and h = h and header = header
      and w = w and secs = secs, OF assms(1,2,3)] assms(4)
  by (simp add: dev_main_def line_stdout_def Let_def split_beta)

lemma dev_stdout:
  assumes "story_sizes k"
  shows "fst (snd (enum_main (kernel_world k w) sw f)) =
      line_stdout k w (mf_json sw) ''enum'' enum_secs (Dev_cfg (dev_config_of f)) (enum_on_start (mf_json sw))"
    "fst (snd (power_main (kernel_world k w) sw f)) =
      line_stdout k w (mf_json sw) ''power'' power_secs (Dev_cfg (dev_config_of f)) (power_on_start (mf_json sw))"
    "fst (snd (lifecycle_main (kernel_world k w) sw f)) =
      line_stdout k w (mf_json sw) ''lifecycle'' lifecycle_secs (Dev_cfg (dev_config_of f)) (lifecycle_on_start (mf_json sw))"
    "fst (snd (hub_main (kernel_world k w) sw f)) =
      line_stdout k w (mf_json sw) ''hub'' hub_secs (Dev_cfg (dev_config_of f)) (hub_on_start (mf_json sw))"
  unfolding enum_main_def power_main_def lifecycle_main_def hub_main_def
  by (rule dev_main_stdout[where sz = 72 and kind = USBTRACE_EVT_ENUM and dec = dec_enum_event and pr = "enum_print (mf_json sw)"
        and h = "enum_handle_event (mf_json sw)", OF _ kept_ok(2)[OF assms]]
      dev_main_stdout[where sz = 64 and kind = USBTRACE_EVT_POWER and dec = dec_power_rec and pr = "power_print (mf_json sw)"
        and h = "power_handle_event (mf_json sw)", OF _ kept_ok(4)[OF assms]]
      dev_main_stdout[where sz = 64 and kind = USBTRACE_EVT_LIFECYCLE and dec = dec_lifecycle_event
        and pr = "lifecycle_print (mf_json sw)" and h = "lifecycle_handle_event (mf_json sw)", OF _ kept_ok(3)[OF assms]]
      dev_main_stdout[where sz = 72 and kind = USBTRACE_EVT_HUB and dec = dec_hub_event and pr = "hub_print (mf_json sw)"
        and h = "hub_handle_event (mf_json sw)", OF _ kept_ok(5)[OF assms]];
      auto simp: enum_handle_event_def power_handle_event_def lifecycle_handle_event_def hub_handle_event_def dec_rec_bytes
        enum_run_def power_run_def lifecycle_run_def hub_run_def)+

text \<open>The class modules print the records that are anomalies, all with \<open>--all\<close>, and in JSON end with the summary of all
  they were given.\<close>

definition class_stdout :: "ut_kernel \<Rightarrow> ut_world \<Rightarrow> bool \<Rightarrow> string \<Rightarrow> string list \<Rightarrow> bpf_cfg \<Rightarrow> bool \<Rightarrow> string" where
  "class_stdout k w json name secs cfg all =
     (if session_up w name secs cfg
      then concat (map (rec_print json all) (given k w name secs cfg))
        @ (if json then class_stream_summary True name
             (tally (class_records (map rec_bytes (given k w name secs cfg))) class_stats0) else [])
      else [])"

lemma class_lines:
  "concat (map (class_print_event json) (filter (\<lambda>e. all \<or> is_anomaly e) es)) = concat (map (rec_print json all) (map ClassR es))"
  by (induction es) auto

lemma class_run_out:
  assumes "story_sizes k"
  shows "fst (snd (class_output json name (class_run (uw_open w name) (session_env (kernel_world k w) name secs (Class_cfg c)) (class_ctx0 all))))
    = class_stdout k w json name secs (Class_cfg c) all"
proof -
  let ?g = "given k w name secs (Class_cfg c)"
  have "list_all (\<lambda>r. rec_ok r \<and> (\<exists>e. r = ClassR e)) ?g" by (rule given_in[OF kept_ok(6)[OF assms]])
  then have "map ClassR (class_records (map rec_bytes ?g)) = ?g" by (intro class_records_of) (simp_all add: list_all_iff)
  then have lines: "concat (map (class_print_event json) (filter (\<lambda>e. all \<or> is_anomaly e) (class_records (map rec_bytes ?g))))
      = concat (map (rec_print json all) ?g)" by (simp only: class_lines)
  show ?thesis
    unfolding class_session_report
    by (simp add: class_output_def class_stdout_def session_up_def delivered_given class_ctx0_def class_stats0_def lines)
qed

lemma class_main_stdout:
  assumes "story_sizes k"
  shows "fst (snd (uac_main (kernel_world k w) sw (f, all))) =
      class_stdout k w (mf_json sw) ''uac'' uac_secs (Class_cfg (uac_config_of f)) all"
    "fst (snd (storage_main (kernel_world k w) sw (f, all))) =
      class_stdout k w (mf_json sw) ''storage'' storage_secs (Class_cfg (storage_config_of f)) all"
  using class_run_out[OF assms]
  by (simp_all add: uac_main_def storage_main_def uac_run_def storage_run_def Let_def split_beta)

text \<open>What the module that a command line runs writes to standard output.\<close>

definition stdout_of :: "main_act list \<times> int \<times> ut_out option \<Rightarrow> string" where
  "stdout_of r = (case snd (snd r) of None \<Rightarrow> [] | Some out \<Rightarrow> fst out)"

lemma stdout_runs: "stdout_of (runs_as cmd sw ws r) = fst (snd r)"
  by (simp add: stdout_of_def runs_as_def)

text \<open>C4: From the hooks in the kernel to standard output: whatever the program's hooks meet and however the buffer fills and is polled,
  the command line of a module with its filter and options written out prints, once its session is set up, the module's header
  and then the line of each of the records the program, configured by these options, submitted, in the order of submission and
  each at most once: those that got space in the buffer and were polled before a poll failed for good. When the buffer always has
  space and is polled empty, that is every record submitted. Nothing else is printed, but for the summary of the class modules in
  JSON, which print anomalies only unless all are asked for.\<close>

theorem hooks_to_stdout:
  assumes "mset mods = mset (ut_modules (kernel_world k w))" "story_sizes k"
  shows "stdout_of (usbtrace_main mods (flag_args sw @ ''urb'' # map opt_word (urb_words u))) =
      line_stdout k w (mf_json sw) ''urb'' urb_secs (Urb_cfg (urb_config_of u)) (urb_on_start (mf_json sw))
    \<and> stdout_of (usbtrace_main mods (flag_args sw @ ''enum'' # map opt_word (filter_words f))) =
      line_stdout k w (mf_json sw) ''enum'' enum_secs (Dev_cfg (dev_config_of f)) (enum_on_start (mf_json sw))
    \<and> stdout_of (usbtrace_main mods (flag_args sw @ ''power'' # map opt_word (filter_words f))) =
      line_stdout k w (mf_json sw) ''power'' power_secs (Dev_cfg (dev_config_of f)) (power_on_start (mf_json sw))
    \<and> stdout_of (usbtrace_main mods (flag_args sw @ ''lifecycle'' # map opt_word (filter_words f))) =
      line_stdout k w (mf_json sw) ''lifecycle'' lifecycle_secs (Dev_cfg (dev_config_of f)) (lifecycle_on_start (mf_json sw))
    \<and> stdout_of (usbtrace_main mods (flag_args sw @ ''hub'' # map opt_word (filter_words f))) =
      line_stdout k w (mf_json sw) ''hub'' hub_secs (Dev_cfg (dev_config_of f)) (hub_on_start (mf_json sw))
    \<and> stdout_of (usbtrace_main mods (flag_args sw @ ''uac'' # map opt_word (class_words (f, all)))) =
      class_stdout k w (mf_json sw) ''uac'' uac_secs (Class_cfg (uac_config_of f)) all
    \<and> stdout_of (usbtrace_main mods (flag_args sw @ ''storage'' # map opt_word (class_words (f, all)))) =
      class_stdout k w (mf_json sw) ''storage'' storage_secs (Class_cfg (storage_config_of f)) all
    \<and> subseq (given k w name secs cfg) (kernel_submitted k name cfg)
    \<and> (no_loss k name cfg \<longrightarrow> given k w name secs cfg = kernel_submitted k name cfg)"
  unfolding module_commands[OF assms(1)] stdout_runs
  by (intro conjI urb_stdout[OF assms(2)] dev_stdout[OF assms(2)] class_main_stdout[OF assms(2)] given_submitted impI)

text \<open>One completion of a storage transfer, polled once.\<close>

definition demo_story :: ut_kernel where
  "demo_story =
     \<lparr> k_urb = [], k_enum = [], k_lifecycle = [], k_power = [], k_hub = [],
       k_class = [Fires (demo_kernel, Storage_complete 4096) (\<lambda>_. True), Polled 1 1], k_uvc = [] \<rparr>"

theorem hooks_to_stdout_witness:
  "\<exists>e. kernel_submitted demo_story ''storage'' (Class_cfg (storage_config_of no_filter)) = [ClassR e]
     \<and> stdout_of (usbtrace_main (ut_modules (kernel_world demo_story demo_world)) [''storage'', ''--vid=0'', ''--pid=0'', ''--all''])
       = class_print_event False e"
proof -
  let ?cfg = "Class_cfg (storage_config_of no_filter)"
  have cfg0: "storage_config_of no_filter = \<lparr> cl_filter_vid = 0, cl_filter_pid = 0 \<rparr>" by (simp add: storage_config_of_def no_filter_def)
  have sizes: "story_sizes demo_story" by (simp add: story_sizes_def demo_story_def demo_kernel_def kernel_sizes_def)
  have dm: "usbtrace_dev_match (en_usb_device demo_kernel p) 0 0 = Some (0x0781, 0x5583)" for p
    by (simp add: demo_kernel_def usbtrace_dev_match_def Let_def)
  have "en_arch32 demo_kernel = False" by (simp add: demo_kernel_def)
  then obtain e where e: "storage_on_complete \<lparr> cl_filter_vid = 0, cl_filter_pid = 0 \<rparr> demo_kernel 4096 = [e]"
    using that
    by (simp add: storage_on_complete_def usbtrace_class_urb_emit_def USBTRACE_KPTR_def USBTRACE_PTR_KEY_def dm Let_def)
  have sub: "kernel_submitted demo_story ''storage'' ?cfg = [ClassR e]"
    by (simp add: kernel_submitted_def demo_story_def class_prog_def e cfg0)
  have loss: "no_loss demo_story ''storage'' ?cfg"
    by (simp add: no_loss_def always_space_def kernel_polls_def demo_story_def class_prog_def e cfg0 ringbuf_output_def fatal_poll_def)
  note run = hooks_to_stdout[OF refl sizes, where sw = "\<lparr> mf_verbose = False, mf_json = False \<rparr>" and f = no_filter and all = True
      and name = "''storage''" and cfg = ?cfg and w = demo_world and secs = storage_secs]
  have g: "given demo_story demo_world ''storage'' storage_secs ?cfg = [ClassR e]" using run loss sub by simp
  have "sec_available (uw_fs demo_world) (Some ''kprobe/usb_stor_blocking_completion'') = Unknown"
    by (simp add: sec_available_def after_slash_def starts_with_def usbtrace_kfunc_available_def symbol_in_file_def demo_world_def TRACEFS_def)
  then have up: "session_up demo_world ''storage'' storage_secs ?cfg"
    by (simp add: session_up_def run_ready_def session_env_def hooks_usable_def autoload_filter_spec storage_secs_def)
      (simp add: demo_world_def)
  have "stdout_of (usbtrace_main (ut_modules (kernel_world demo_story demo_world))
      (flag_args \<lparr> mf_verbose = False, mf_json = False \<rparr> @ ''storage'' # map opt_word (class_words (no_filter, True))))
    = class_stdout demo_story demo_world False ''storage'' storage_secs ?cfg True"
    using run by simp
  then have "stdout_of (usbtrace_main (ut_modules (kernel_world demo_story demo_world)) [''storage'', ''--vid=0'', ''--pid=0'', ''--all''])
      = class_print_event False e"
    unfolding class_stdout_def if_P[OF up] g
    by (simp add: flag_args_def class_words_def filter_words_def flag_word_def no_filter_def show_dec_eval)
  then show ?thesis using sub by blast
qed

end
