(* ===== verification/Filter_Props.thy ===== *)
theory Filter_Props
  imports Record_Types Uvc_Props
begin

text \<open>
  What the \<open>--vid\<close> and \<open>--pid\<close> filter keeps out. Every record that carries the ids of a device, of any of the nine programs,
  passes the filter the program was configured with, with one exception: the vb2 records of the uvc program come from every
  capture queue of the machine and have the ids of the device the latest frame on the wire came from, or none.
\<close>

definition ids_pass :: "u16 \<Rightarrow> u16 \<Rightarrow> u16 \<Rightarrow> u16 \<Rightarrow> bool" where
  "ids_pass fvid fpid vid pid \<longleftrightarrow> (fvid = 0 \<or> vid = fvid) \<and> (fpid = 0 \<or> pid = fpid)"

lemma match_pass: "usbtrace_dev_match dev fvid fpid = Some (vid, pid) \<Longrightarrow> ids_pass fvid fpid vid pid"
  by (auto simp: dev_match_Some ids_pass_def)

text \<open>The ids of the device a record names.\<close>

fun rec_dev :: "any_rec \<Rightarrow> u16 \<times> u16" where
  "rec_dev (UrbR e) = (ue_vid e, ue_product e)" | "rec_dev (EnumR e) = (ee_vid e, ee_product e)"
| "rec_dev (PowerR e) = (pe_vid e, pe_product e)" | "rec_dev (LifecycleR e) = (le_vid e, le_product e)"
| "rec_dev (HubR e) = (he_vid e, he_product e)" | "rec_dev (ClassR e) = (ce_vid e, ce_product e)"
| "rec_dev (FrameR e) = (fe_vid e, fe_product e)" | "rec_dev (Vb2R e) = (ve_vid e, ve_product e)"
| "rec_dev (DrvR e) = (de_vid e, de_product e)"

fun hit_filter :: "prog_hit \<Rightarrow> u16 \<times> u16" where
  "hit_filter (Urb_hit c h m) = (uf_filter_vid c, uf_filter_pid c)"
| "hit_filter (Enum_hit c h m) = (df_filter_vid c, df_filter_pid c)"
| "hit_filter (Lifecycle_hit c h m) = (df_filter_vid c, df_filter_pid c)"
| "hit_filter (Power_hit c en k a) = (df_filter_vid c, df_filter_pid c)"
| "hit_filter (Hub_hit c h) = (df_filter_vid c, df_filter_pid c)"
| "hit_filter (Class_hit c h) = (cl_filter_vid c, cl_filter_pid c)"
| "hit_filter (Uvc_hit c h m) = (uc_filter_vid c, uc_filter_pid c)"

definition passes :: "u16 \<times> u16 \<Rightarrow> any_rec \<Rightarrow> bool" where
  "passes f r = ids_pass (fst f) (snd f) (fst (rec_dev r)) (snd (rec_dev r))"

section \<open>The programs without vb2\<close>

lemma class_emit_pass: "list_all (\<lambda>e. passes (v, p) (ClassR e)) (usbtrace_class_urb_emit en a v p k)"
  by (auto simp: usbtrace_class_urb_emit_def passes_def Let_def dest: match_pass split: option.splits)

lemma enum_pass: "list_all (\<lambda>e. passes (df_filter_vid cfg, df_filter_pid cfg) (EnumR e)) (emit_enum cfg en u a b c d)"
  by (auto simp: emit_enum_def passes_def Let_def dest: match_pass split: option.splits)

lemma lifecycle_pass: "list_all (\<lambda>e. passes (df_filter_vid cfg, df_filter_pid cfg) (LifecycleR e)) (lifecycle_emit cfg en u a)"
  by (auto simp: lifecycle_emit_def passes_def Let_def dest: match_pass split: option.splits)

lemma power_pass: "list_all (\<lambda>e. passes (df_filter_vid cfg, df_filter_pid cfg) (PowerR e)) (power_emit cfg en u a)"
  by (auto simp: power_emit_def passes_def Let_def dest: match_pass split: option.splits)

lemma hub_pass: "list_all (\<lambda>e. passes (df_filter_vid cfg, df_filter_pid cfg) (HubR e)) (emit_dev cfg en u a b c d)"
  by (auto simp: emit_dev_def passes_def Let_def dest: match_pass split: option.splits)

lemma urb_pass:
  "urb_passes_filter cfg en u = Some (vid, pid) \<Longrightarrow> passes (uf_filter_vid cfg, uf_filter_pid cfg) (UrbR (fill_common en u vid pid e))"
  by (auto simp: urb_passes_filter_def fill_common_def fill_setup_def passes_def Let_def dest: match_pass split: option.splits)

lemma simple_hits_pass:
  "list_all (passes (hit_filter (Urb_hit c1 h1 m1))) (submitted (Urb_hit c1 h1 m1))"
  "list_all (passes (hit_filter (Enum_hit c2 h2 m2))) (submitted (Enum_hit c2 h2 m2))"
  "list_all (passes (hit_filter (Lifecycle_hit c3 h3 m3))) (submitted (Lifecycle_hit c3 h3 m3))"
  "list_all (passes (hit_filter (Power_hit c4 en k a))) (submitted (Power_hit c4 en k a))"
  "list_all (passes (hit_filter (Hub_hit c5 h5))) (submitted (Hub_hit c5 h5))"
  "list_all (passes (hit_filter (Class_hit c6 h6))) (submitted (Class_hit c6 h6))"
proof -
  show "list_all (passes (hit_filter (Urb_hit c1 h1 m1))) (submitted (Urb_hit c1 h1 m1))"
    by (cases h1; cases "snd h1") (auto simp: on_submit_def on_giveback_def Let_def urb_pass split: option.splits)
  have "list_all (\<lambda>e. passes (df_filter_vid c2, df_filter_pid c2) (EnumR e)) (snd (pop_emit c2 (fst h2) rc k mm))" for rc k mm
    using enum_pass by (auto simp: pop_emit_def Let_def split: option.splits)
  moreover have "list_all (\<lambda>e. passes (df_filter_vid c2, df_filter_pid c2) (EnumR e)) (on_set_state c2 (fst h2) a s)" for a s
    by (simp add: on_set_state_def Let_def enum_pass)
  ultimately show "list_all (passes (hit_filter (Enum_hit c2 h2 m2))) (submitted (Enum_hit c2 h2 m2))"
    by (cases "(c2, h2, m2)" rule: enum_hit.cases) (auto simp: list_all_iff Let_def split_beta)
  show "list_all (passes (hit_filter (Lifecycle_hit c3 h3 m3))) (submitted (Lifecycle_hit c3 h3 m3))"
    by (cases h3; cases "snd h3")
      (auto simp: list.pred_map comp_def lifecycle_pass on_new_device_exit_def on_disconnect_def on_reset_def Let_def split: option.splits)
  show "list_all (passes (hit_filter (Power_hit c4 en k a))) (submitted (Power_hit c4 en k a))"
    by (cases k) (simp_all add: list.pred_map comp_def power_pass)
  show "list_all (passes (hit_filter (Hub_hit c5 h5))) (submitted (Hub_hit c5 h5))"
    by (cases h5; cases "snd h5")
      (simp_all add: list.pred_map comp_def hub_pass on_port_reset_def on_port_disable_def on_set_port_power_def on_overcurrent_def
        emit_hub_port_def Let_def)
  show "list_all (passes (hit_filter (Class_hit c6 h6))) (submitted (Class_hit c6 h6))"
    by (cases h6; cases "snd h6")
      (simp_all add: list.pred_map comp_def class_emit_pass on_irq_in_def on_irq_out_def uac_on_complete_def storage_on_complete_def)
qed

section \<open>The uvc program\<close>

text \<open>The ids the correlation map remembers pass the filter; a vb2 record has such ids or none.\<close>

definition corr_ok :: "u16 \<times> u16 \<Rightarrow> uvc_maps \<Rightarrow> bool" where
  "corr_ok f ms \<longleftrightarrow> (\<forall>k c. um_stream_corr ms k = Some c \<longrightarrow> ids_pass (fst f) (snd f) (sc_vid c) (sc_pid c))"

definition out_ok :: "u16 \<times> u16 \<Rightarrow> any_rec \<Rightarrow> bool" where
  "out_ok f r \<longleftrightarrow> passes f r \<or> (case r of Vb2R v \<Rightarrow> rec_dev r = (0, 0) | _ \<Rightarrow> False)"

abbreviation outs_pass :: "u16 \<times> u16 \<Rightarrow> uvc_out list \<Rightarrow> bool" where
  "outs_pass f \<equiv> list_all (\<lambda>o'. out_ok f (uvc_rec o'))"

abbreviation keeps :: "u16 \<times> u16 \<Rightarrow> uvc_maps \<times> uvc_out list \<Rightarrow> bool" where
  "keeps f r \<equiv> corr_ok f (fst r) \<and> outs_pass f (snd r)"

abbreviation keeps3 :: "u16 \<times> u16 \<Rightarrow> uvc_stream_state \<times> uvc_maps \<times> uvc_out list \<Rightarrow> bool" where
  "keeps3 f r \<equiv> keeps f (snd r)"

lemma corr_ok_same: "um_stream_corr ms' = um_stream_corr ms \<Longrightarrow> corr_ok f ms' = corr_ok f ms"
  by (simp add: corr_ok_def)

lemma store_ok:
  assumes "corr_ok f ms" "ids_pass (fst f) (snd f) vid pid"
  shows "corr_ok f (uvc_corr_store en key vid pid bus dev bytes now ms)"
proof -
  let ?i = "\<lparr> sc_last_wire_done_ns = 0, sc_last_wire_bytes = 0, sc_vid = 0, sc_pid = 0, sc_busnum = 0, sc_devnum = 0 \<rparr>"
  let ?m = "bpf_map_update_elem (en_room en ''stream_corr'' (ucast key)) key ?i (um_stream_corr ms)"
  have "?m k = um_stream_corr ms k" if "k \<noteq> key" for k using that by simp
  then show ?thesis using assms by (auto simp: corr_ok_def uvc_corr_store_def Let_def split: option.splits)
      (auto simp: bpf_map_update_elem_def split: if_splits)
qed

lemma note_ok:
  assumes "corr_ok f ms" "ids_pass (fst f) (snd f) vid pid"
  shows "corr_ok f (uvc_note_wire_frame en bus dev vid pid bytes now ms)"
  using assms by (simp add: uvc_note_wire_frame_def store_ok)

lemma bind_corr [simp]: "um_stream_corr (uvc_vb2_bind_dev en q bus dev ms) = um_stream_corr ms"
  by (simp add: uvc_vb2_bind_dev_def)

lemma qstate_corr [simp]: "um_stream_corr (fst (uvc_vb2_qstate en q ms)) = um_stream_corr ms"
  "um_stream_corr (put_qstate q st ms) = um_stream_corr ms"
  by (simp_all add: uvc_vb2_qstate_def put_qstate_def Let_def split: option.split)

lemma vb2_submit_keeps: "corr_ok f ms \<Longrightarrow> keeps f (uvc_vb2_submit en q b op st sv now sq gap iv w ms)"
  by (auto simp: uvc_vb2_submit_def uvc_vb2_fill_device_def vb2_record_def corr_ok_def out_ok_def passes_def Let_def
      split: option.splits prod.splits)

lemma starvation_passes:
  assumes "corr_ok f ms"
  shows "keeps f (uvc_check_starvation en bus dev now ms)"
proof -
  have qs: "corr_ok f ms1" if "uvc_vb2_qstate en q ms = (ms1, ost)" for q ms1 ost
    using assms corr_ok_same[OF qstate_corr(1), of f en q ms] that by simp
  have sub: "keeps f (uvc_vb2_submit en q 0 UVC_VB2_STARVED 0 1 now 0 0 0 0 (put_qstate q st m))" if "corr_ok f m" for q st m
    using that by (intro vb2_submit_keeps) (simp add: corr_ok_same[OF qstate_corr(2)])
  show ?thesis
    using assms by (auto simp: uvc_check_starvation_def Let_def sub[OF qs] split: option.split prod.split dest: qs)
qed

lemma emit_frame_passes:
  assumes "keeps3 f s" "ids_pass (fst f) (snd f) (ui_vid ids) (ui_pid ids)"
  shows "keeps3 f (uvc_emit_frame en ids eof now s)"
  using assms starvation_passes[OF note_ok, of f "fst (snd s)" "ui_vid ids" "ui_pid ids"]
  by (simp add: uvc_emit_frame_def frame_record_def out_ok_def passes_def Let_def split_beta)

lemma payload_passes:
  assumes "keeps3 f s" "ids_pass (fst f) (snd f) (ui_vid ids) (ui_pid ids)"
  shows "keeps3 f (uvc_payload en ids now hdr len s)"
proof -
  obtain st ms out where s: "s = (st, ms, out)" by (cases s)
  have cut: "keeps f (m, o')" if "uvc_emit_frame en ids False now (st, ms, out) = (x, m, o')" for x m o'
    using emit_frame_passes[OF assms, of en False now] that unfolding s by simp
  have eof: "keeps f (snd (uvc_emit_frame en ids True now (x, r)))" if "keeps f r" for x r
    using that by (intro emit_frame_passes[OF _ assms(2)]) simp
  show ?thesis using assms(1) unfolding s
    by (auto simp: uvc_payload_def Let_def intro!: eof[THEN conjunct1] eof[THEN conjunct2] split: prod.splits if_splits dest: cut)
qed

lemma packets_keep:
  assumes "keeps3 f s" "ids_pass (fst f) (snd f) (ui_vid ids) (ui_pid ids)"
  shows "keeps3 f (fold (\<lambda>i. uvc_packet en ids now tb tlen (od i)) js s)"
  using assms(1)
proof (induction js arbitrary: s)
  case (Cons j js)
  obtain st ms out where s: "s = (st, ms, out)" by (cases s)
  have pay: "keeps3 f (uvc_payload en ids now hdr len (x, ms, out))" for hdr len x
    using Cons.prems unfolding s by (intro payload_passes[OF _ assms(2)]) simp
  have "keeps3 f (uvc_packet en ids now tb tlen (od j) s)"
    using Cons.prems unfolding s by (simp add: uvc_packet_def Let_def pay split: option.split)
  then show ?case using Cons.IH by simp
qed simp

lemma parse_frames_keep:
  assumes "corr_ok (uc_filter_vid cfg, uc_filter_pid cfg) ms"
  shows "keeps (uc_filter_vid cfg, uc_filter_pid cfg) (uvc_parse_frames cfg en urbp ms)"
proof (cases "urb_ids cfg en urbp")
  case (Some ids)
  let ?f = "(uc_filter_vid cfg, uc_filter_pid cfg)"
  from Some have ids: "ids_pass (fst ?f) (snd ?f) (ui_vid ids) (ui_pid ids)"
    by (auto simp: urb_ids_def Let_def dest: match_pass)
  have corr: "corr_ok ?f (ms\<lparr> um_streams := x \<rparr>) = corr_ok ?f ms" for x ms by (simp add: corr_ok_def)
  have "keeps3 ?f (fold (\<lambda>i. uvc_packet en ids now tb tlen (od i)) js (st, ms\<lparr> um_streams := x \<rparr>, []))" for now tb tlen od st x and js :: "nat list"
    using assms by (intro packets_keep ids) (simp add: corr)
  then show ?thesis using assms by (simp add: uvc_parse_frames_def Some Let_def corr split_beta split: option.split)
next
  case None
  then show ?thesis using assms by (simp add: uvc_parse_frames_def)
qed

lemma tracepoint_keeps:
  assumes "corr_ok f ms"
  shows "keeps f (vb2_tracepoint_hit tp cfg en q b ms)"
proof -
  have qs: "corr_ok f ms1" if "uvc_vb2_qstate en q ms = (ms1, ost)" for q ms1 ost
    using assms corr_ok_same[OF qstate_corr(1), of f en q ms] that by simp
  have sub: "keeps f (uvc_vb2_submit en q b op s sv now sq gap iv w (put_qstate q st m))" if "corr_ok f m" for q s op b now sv sq gap iv w st m
    using that by (intro vb2_submit_keeps) (simp add: corr_ok_same[OF qstate_corr(2)])
  have "keeps f (uvc_vb2_raw_done cfg en b ms)" using assms
    by (auto simp: uvc_vb2_raw_done_def uvc_emit_vb2_done_def Let_def split: option.split prod.split intro!: sub[THEN conjunct1] sub[THEN conjunct2] dest: qs)
  moreover have "keeps f (uvc_vb2_raw_qvb cfg en q b op s ms)" for op s using assms
    by (simp add: uvc_vb2_raw_qvb_def uvc_emit_vb2_xact_def Let_def vb2_submit_keeps)
  ultimately show ?thesis by (cases tp) simp_all
qed

lemma stream_usb_pass:
  "uvc_stream_usb cfg en s = Some (vid, pid, b, d) \<Longrightarrow> ids_pass (uc_filter_vid cfg) (uc_filter_pid cfg) vid pid"
  by (auto simp: uvc_stream_usb_def Let_def dest: match_pass split: if_splits option.splits)

lemma drv_emit_pass: "ids_pass (fst f) (snd f) v p \<Longrightarrow> out_ok f (uvc_rec (uvc_drv_emit op r v p b d now))"
  by (simp add: uvc_drv_emit_def out_ok_def passes_def)

lemma uvc_hit_keeps:
  assumes "corr_ok (uc_filter_vid cfg, uc_filter_pid cfg) ms"
  shows "keeps (uc_filter_vid cfg, uc_filter_pid cfg) (uvc_hit cfg h ms)"
proof -
  let ?f = "(uc_filter_vid cfg, uc_filter_pid cfg)"
  have cause: "corr_ok ?f (fst (uvc_drop_cause_take b ms))" "corr_ok ?f (uvc_drop_cause_add en b r ms)" for b r and en :: drv_env
    using assms by (auto simp: corr_ok_def uvc_drop_cause_take_def uvc_drop_cause_add_def Let_def split: option.splits)
  have cls: "list_all (\<lambda>e. out_ok ?f (ClassR e)) (usbtrace_class_urb_emit en a (uc_filter_vid cfg) (uc_filter_pid cfg) k)"
    for a k and en :: drv_env
    by (rule list.pred_mono_strong[OF class_emit_pass]) (simp add: out_ok_def)
  show ?thesis
  proof (cases "(cfg, h, ms)" rule: uvc_hit.cases)
    case (1 c en a m)
    then show ?thesis using assms cls
      by (auto simp: on_video_complete_def Let_def list.pred_map comp_def split_beta parse_frames_keep)
  next
    case (2 c en tp q b m)
    then show ?thesis using tracepoint_keeps[OF assms] by simp
  next
    case (3 c en q b m)
    then show ?thesis using assms by (auto simp: on_queue_next_def Let_def split: option.splits intro!: drv_emit_pass dest: stream_usb_pass)
  next
    case (4 c en u b m)
    then show ?thesis using assms cause by (auto simp: on_decode_isoc_def Let_def split: option.splits)
  next
    case (5 c en r m)
    then show ?thesis using assms cause
      by (auto simp: on_queue_complete_def Let_def split_beta split: option.splits intro!: drv_emit_pass dest: stream_usb_pass)
  qed
qed

lemma uvc_run_keeps:
  "corr_ok (uc_filter_vid cfg, uc_filter_pid cfg) ms \<Longrightarrow> keeps (uc_filter_vid cfg, uc_filter_pid cfg) (uvc_run cfg hs ms)"
proof (induction hs arbitrary: ms)
  case (Cons h hs)
  obtain ms1 out where h: "uvc_hit cfg h ms = (ms1, out)" by (cases "uvc_hit cfg h ms")
  then show ?case using uvc_hit_keeps[OF Cons.prems, of h] Cons.IH[of ms1] by (simp add: split_beta)
qed simp

section \<open>Every program\<close>

text \<open>The maps a hit finds: for the uvc program those a run of its hooks, loaded with empty maps, leaves.\<close>

definition maps_reached :: "prog_hit \<Rightarrow> bool" where
  "maps_reached hit = (case hit of Uvc_hit c h m \<Rightarrow> \<exists>hs. m = fst (uvc_run c hs uvc_maps0) | _ \<Rightarrow> True)"

lemma passes_out_ok: "list_all (passes f) rs \<Longrightarrow> list_all (out_ok f) rs"
  by (erule list.pred_mono_strong) (simp add: out_ok_def)

text \<open>C11: Every record of every hook of the nine programs carries device ids that pass the vendor and product
  filter its program was configured with, whatever the kernel's memory holds and whatever hooks ran before;
  only a vb2 record of the uvc program may carry no ids instead.\<close>

theorem filter_respected:
  assumes "maps_reached h"
  shows "list_all (out_ok (hit_filter h)) (submitted h)"
proof (cases h)
  case (Uvc_hit c x m)
  then obtain hs where m: "m = fst (uvc_run c hs uvc_maps0)" using assms by (auto simp: maps_reached_def)
  have "corr_ok (uc_filter_vid c, uc_filter_pid c) uvc_maps0" by (simp add: corr_ok_def uvc_maps0_def)
  then have "corr_ok (uc_filter_vid c, uc_filter_pid c) m" unfolding m by (rule uvc_run_keeps[THEN conjunct1])
  then show ?thesis using uvc_hit_keeps[of c m x] by (simp add: Uvc_hit list.pred_map comp_def)
qed (simp_all del: submitted.simps hit_filter.simps add: passes_out_ok simple_hits_pass)

text \<open>A buffer queued to some camera by a program, with only Logitech devices asked for: the record has no ids.\<close>

theorem filter_respected_witness:
  "let h = Uvc_hit demo_cfg (demo_env 1000 [], Vb2_tracepoint Raw_vb2_qbuf 0x4000 3) uvc_maps0 in
     list_all (out_ok (0x046d, 0)) (submitted h) \<and> \<not> list_all (passes (0x046d, 0)) (submitted h)"
proof -
  let ?h = "Uvc_hit demo_cfg (demo_env 1000 [], Vb2_tracepoint Raw_vb2_qbuf 0x4000 3) uvc_maps0"
  have "uvc_maps0 = fst (uvc_run demo_cfg [] uvc_maps0)" by simp
  then have "maps_reached ?h" unfolding maps_reached_def prog_hit.case by blast
  from filter_respected[OF this] have "list_all (out_ok (0x046d, 0)) (submitted ?h)" by (simp add: demo_cfg_def)
  moreover have "\<not> list_all (passes (0x046d, 0)) (submitted ?h)"
    by (simp add: demo_cfg_def demo_env_def uvc_vb2_raw_qvb_def uvc_emit_vb2_xact_def vb2_is_capture_def uvc_vb2_submit_def
        uvc_vb2_fill_device_def vb2_record_def vb2_read_pool_def uvc_maps0_def passes_def ids_pass_def ut_const Let_def)
  ultimately show ?thesis by (simp add: Let_def)
qed

end
