(* ===== verification/Hook_Entry.thy ===== *)
theory Hook_Entry
  imports Ut_Program Record_Types Class_Stream
begin

text \<open>
  From the registers saved at a probe to the hook of a program: the access macros of \<open>pt_regs.bpf.h\<close> and which arguments each
  program reads, by its section. On arm the hooks see the arguments of the probed function, by name, and its result; so they do
  on 64-bit targets, where libbpf's macros are taken to do as documented; on i386 they do not.
\<close>

section \<open>Registers (pt_regs.bpf.h)\<close>

text \<open>The 32-bit words of \<open>struct pt_regs\<close>, read on arm and i386; what libbpf's \<open>PT_REGS_PARMn\<close> and \<open>PT_REGS_RC\<close> read on other
  targets; and the arguments of a raw tracepoint.\<close>

record pt_ctx =
  px_words :: "nat \<Rightarrow> u32"
  px_parm :: "nat \<Rightarrow> u64"
  px_rc :: u64
  px_args :: "nat \<Rightarrow> u64"

definition usbtrace_pt_parm :: "pt_ctx \<Rightarrow> nat \<Rightarrow> u64" where
  "usbtrace_pt_parm ctx idx = ucast (px_words ctx idx)"

definition USBTRACE_PT_PARM1 :: "bool \<Rightarrow> pt_ctx \<Rightarrow> u64" where
  "USBTRACE_PT_PARM1 arch32 ctx = (if arch32 then usbtrace_pt_parm ctx 0 else px_parm ctx 1)"

definition USBTRACE_PT_PARM2 :: "bool \<Rightarrow> pt_ctx \<Rightarrow> u64" where
  "USBTRACE_PT_PARM2 arch32 ctx = (if arch32 then usbtrace_pt_parm ctx 1 else px_parm ctx 2)"

definition USBTRACE_PT_PARM3 :: "bool \<Rightarrow> pt_ctx \<Rightarrow> u64" where
  "USBTRACE_PT_PARM3 arch32 ctx = (if arch32 then usbtrace_pt_parm ctx 2 else px_parm ctx 3)"

definition USBTRACE_PT_PARM4 :: "bool \<Rightarrow> pt_ctx \<Rightarrow> u64" where
  "USBTRACE_PT_PARM4 arch32 ctx = (if arch32 then usbtrace_pt_parm ctx 3 else px_parm ctx 4)"

definition USBTRACE_PT_RET :: "bool \<Rightarrow> pt_ctx \<Rightarrow> u64" where
  "USBTRACE_PT_RET arch32 ctx = (if arch32 then USBTRACE_PT_PARM1 arch32 ctx else px_rc ctx)"

section \<open>The programs' sections\<close>

definition urb_entries :: "bool \<Rightarrow> pt_ctx \<Rightarrow> (string \<times> urb_hook) list" where
  "urb_entries a ctx =
     [(''kprobe/usb_submit_urb'', Submit_urb (USBTRACE_PT_PARM1 a ctx)),
      (''kprobe/usb_hcd_giveback_urb'', Giveback_urb (USBTRACE_PT_PARM2 a ctx) (USBTRACE_PT_PARM3 a ctx))]"

definition enum_entries :: "bool \<Rightarrow> pt_ctx \<Rightarrow> (string \<times> enum_hook) list" where
  "enum_entries a ctx =
     [(''kprobe/usb_set_device_state'', Set_state (USBTRACE_PT_PARM1 a ctx) (USBTRACE_PT_PARM2 a ctx)),
      (''kprobe/usb_get_device_descriptor'', Call_entry Get_desc (USBTRACE_PT_PARM1 a ctx)),
      (''kretprobe/usb_get_device_descriptor'', Call_exit Get_desc (USBTRACE_PT_RET a ctx)),
      (''kprobe/hub_set_address'', Call_entry Set_addr (USBTRACE_PT_PARM1 a ctx)),
      (''kretprobe/hub_set_address'', Call_exit Set_addr (USBTRACE_PT_RET a ctx)),
      (''kprobe/usb_set_configuration'', Call_entry Set_config (USBTRACE_PT_PARM1 a ctx)),
      (''kretprobe/usb_set_configuration'', Call_exit Set_config (USBTRACE_PT_RET a ctx))]"

definition power_entries :: "bool \<Rightarrow> pt_ctx \<Rightarrow> (string \<times> power_hook \<times> u64) list" where
  "power_entries a ctx =
     [(''kprobe/usb_autosuspend_device'', Autosuspend, USBTRACE_PT_PARM1 a ctx),
      (''kprobe/usb_autoresume_device'', Autoresume, USBTRACE_PT_PARM1 a ctx),
      (''kprobe/usb_port_suspend'', Port_suspend, USBTRACE_PT_PARM1 a ctx),
      (''kprobe/usb_port_resume'', Port_resume, USBTRACE_PT_PARM1 a ctx)]"

definition lifecycle_entries :: "bool \<Rightarrow> pt_ctx \<Rightarrow> (string \<times> lifecycle_hook) list" where
  "lifecycle_entries a ctx =
     [(''kprobe/usb_new_device'', New_device (USBTRACE_PT_PARM1 a ctx)),
      (''kretprobe/usb_new_device'', New_device_exit (USBTRACE_PT_RET a ctx)),
      (''kprobe/usb_disconnect'', Usb_disconnect (USBTRACE_PT_PARM1 a ctx)),
      (''kprobe/usb_reset_device'', Usb_reset_device (USBTRACE_PT_PARM1 a ctx))]"

definition hub_entries :: "bool \<Rightarrow> pt_ctx \<Rightarrow> (string \<times> hub_hook) list" where
  "hub_entries a ctx =
     [(''kprobe/hub_port_reset'', Port_reset (USBTRACE_PT_PARM1 a ctx) (USBTRACE_PT_PARM2 a ctx) (USBTRACE_PT_PARM3 a ctx)),
      (''kprobe/hub_port_disable'', Port_disable (USBTRACE_PT_PARM1 a ctx) (USBTRACE_PT_PARM2 a ctx)),
      (''kprobe/usb_hub_set_port_power'',
       Set_port_power (USBTRACE_PT_PARM1 a ctx) (USBTRACE_PT_PARM2 a ctx) (USBTRACE_PT_PARM3 a ctx) (USBTRACE_PT_PARM4 a ctx)),
      (''kprobe/port_over_current_notify'', Overcurrent (USBTRACE_PT_PARM1 a ctx))]"

definition uvc_entries :: "bool \<Rightarrow> pt_ctx \<Rightarrow> (string \<times> uvc_hook) list" where
  "uvc_entries a ctx =
     [(''raw_tracepoint/vb2_v4l2_buf_done'', Vb2_tracepoint Raw_vb2_v4l2_buf_done (px_args ctx 0) (px_args ctx 1)),
      (''raw_tracepoint/vb2_buf_done'', Vb2_tracepoint Raw_vb2_buf_done (px_args ctx 0) (px_args ctx 1)),
      (''raw_tracepoint/vb2_buf_queue'', Vb2_tracepoint Raw_vb2_buf_queue (px_args ctx 0) (px_args ctx 1)),
      (''raw_tracepoint/vb2_qbuf'', Vb2_tracepoint Raw_vb2_qbuf (px_args ctx 0) (px_args ctx 1)),
      (''raw_tracepoint/vb2_dqbuf'', Vb2_tracepoint Raw_vb2_dqbuf (px_args ctx 0) (px_args ctx 1)),
      (''kprobe/uvc_video_complete'', Video_complete (USBTRACE_PT_PARM1 a ctx)),
      (''kprobe/uvc_queue_next_buffer'', Queue_next (USBTRACE_PT_PARM1 a ctx) (USBTRACE_PT_PARM2 a ctx)),
      (''kprobe/uvc_video_decode_isoc'', Decode_isoc (USBTRACE_PT_PARM1 a ctx) (USBTRACE_PT_PARM2 a ctx)),
      (''kprobe/uvc_queue_buffer_complete'', Queue_complete (USBTRACE_PT_PARM1 a ctx))]"

definition hid_entries :: "bool \<Rightarrow> pt_ctx \<Rightarrow> (string \<times> class_hook) list" where
  "hid_entries a ctx =
     [(''kprobe/hid_irq_in'', Hid_irq_in (USBTRACE_PT_PARM1 a ctx)), (''kprobe/hid_irq_out'', Hid_irq_out (USBTRACE_PT_PARM1 a ctx))]"

definition uac_entries :: "bool \<Rightarrow> pt_ctx \<Rightarrow> (string \<times> class_hook) list" where
  "uac_entries a ctx = [(''kprobe/snd_complete_urb'', Uac_complete (USBTRACE_PT_PARM1 a ctx))]"

definition storage_entries :: "bool \<Rightarrow> pt_ctx \<Rightarrow> (string \<times> class_hook) list" where
  "storage_entries a ctx = [(''kprobe/usb_stor_blocking_completion'', Storage_complete (USBTRACE_PT_PARM1 a ctx))]"

text \<open>The sections are those whose hooks are probed before loading.\<close>

lemma entries_probed:
  "map fst (urb_entries a ctx) = urb_secs" "map fst (enum_entries a ctx) = enum_secs" "map fst (power_entries a ctx) = power_secs"
  "map fst (lifecycle_entries a ctx) = lifecycle_secs" "map fst (hub_entries a ctx) = hub_secs" "map fst (uvc_entries a ctx) = uvc_secs"
  "map fst (hid_entries a ctx) = hid_secs" "map fst (uac_entries a ctx) = uac_secs" "map fst (storage_entries a ctx) = storage_secs"
  by (simp_all add: urb_entries_def urb_secs_def enum_entries_def enum_secs_def power_entries_def power_secs_def lifecycle_entries_def
      lifecycle_secs_def hub_entries_def hub_secs_def uvc_entries_def uvc_secs_def uvc_complete_sec_def hid_entries_def hid_secs_def
      uac_entries_def uac_secs_def storage_entries_def storage_secs_def)

section \<open>Arguments by name\<close>

datatype any_hook =
    UrbH urb_hook
  | EnumH enum_hook
  | PowerH "power_hook \<times> u64"
  | LifecycleH lifecycle_hook
  | HubH hub_hook
  | UvcH uvc_hook
  | ClassH class_hook

definition program_entries :: "bool \<Rightarrow> pt_ctx \<Rightarrow> (string \<times> any_hook) list" where
  "program_entries a ctx =
     map (apsnd UrbH) (urb_entries a ctx) @ map (apsnd EnumH) (enum_entries a ctx) @ map (apsnd PowerH) (power_entries a ctx)
     @ map (apsnd LifecycleH) (lifecycle_entries a ctx) @ map (apsnd HubH) (hub_entries a ctx) @ map (apsnd UvcH) (uvc_entries a ctx)
     @ map (apsnd ClassH) (hid_entries a ctx @ uac_entries a ctx @ storage_entries a ctx)"

fun hook_args :: "any_hook \<Rightarrow> u64 list" where
  "hook_args (UrbH (Submit_urb a)) = [a]" | "hook_args (UrbH (Giveback_urb a b)) = [a, b]"
| "hook_args (EnumH (Set_state a b)) = [a, b]" | "hook_args (EnumH (Call_entry c a)) = [a]" | "hook_args (EnumH (Call_exit c a)) = [a]"
| "hook_args (PowerH (k, a)) = [a]"
| "hook_args (LifecycleH (New_device a)) = [a]" | "hook_args (LifecycleH (New_device_exit a)) = [a]"
| "hook_args (LifecycleH (Usb_disconnect a)) = [a]" | "hook_args (LifecycleH (Usb_reset_device a)) = [a]"
| "hook_args (HubH (Port_reset a b c)) = [a, b, c]" | "hook_args (HubH (Port_disable a b)) = [a, b]"
| "hook_args (HubH (Set_port_power a b c d)) = [a, b, c, d]" | "hook_args (HubH (Overcurrent a)) = [a]"
| "hook_args (UvcH (Video_complete a)) = [a]" | "hook_args (UvcH (Vb2_tracepoint t a b)) = [a, b]"
| "hook_args (UvcH (Queue_next a b)) = [a, b]" | "hook_args (UvcH (Decode_isoc a b)) = [a, b]"
| "hook_args (UvcH (Queue_complete a)) = [a]"
| "hook_args (ClassH (Hid_irq_in a)) = [a]" | "hook_args (ClassH (Hid_irq_out a)) = [a]"
| "hook_args (ClassH (Uac_complete a)) = [a]" | "hook_args (ClassH (Storage_complete a)) = [a]"

text \<open>By section: the parameters of the kernel function or tracepoint, and those its hook is about.\<close>

definition kernel_params :: "(string \<times> string list \<times> string list) list" where
  "kernel_params =
     [(''kprobe/usb_submit_urb'', [''urb'', ''mem_flags''], [''urb'']),
      (''kprobe/usb_hcd_giveback_urb'', [''hcd'', ''urb'', ''status''], [''urb'', ''status'']),
      (''kprobe/usb_set_device_state'', [''udev'', ''new_state''], [''udev'', ''new_state'']),
      (''kprobe/usb_get_device_descriptor'', [''udev''], [''udev'']),
      (''kretprobe/usb_get_device_descriptor'', [''return''], [''return'']),
      (''kprobe/hub_set_address'', [''udev'', ''devnum''], [''udev'']),
      (''kretprobe/hub_set_address'', [''return''], [''return'']),
      (''kprobe/usb_set_configuration'', [''dev'', ''configuration''], [''dev'']),
      (''kretprobe/usb_set_configuration'', [''return''], [''return'']),
      (''kprobe/usb_autosuspend_device'', [''udev''], [''udev'']),
      (''kprobe/usb_autoresume_device'', [''udev''], [''udev'']),
      (''kprobe/usb_port_suspend'', [''udev'', ''msg''], [''udev'']),
      (''kprobe/usb_port_resume'', [''udev'', ''msg''], [''udev'']),
      (''kprobe/usb_new_device'', [''udev''], [''udev'']),
      (''kretprobe/usb_new_device'', [''return''], [''return'']),
      (''kprobe/usb_disconnect'', [''pdev''], [''pdev'']),
      (''kprobe/usb_reset_device'', [''udev''], [''udev'']),
      (''kprobe/hub_port_reset'', [''hub'', ''port1'', ''udev'', ''delay'', ''warm''], [''hub'', ''port1'', ''udev'']),
      (''kprobe/hub_port_disable'', [''hub'', ''port1'', ''set_state''], [''hub'', ''port1'']),
      (''kprobe/usb_hub_set_port_power'', [''hdev'', ''hub'', ''port1'', ''set''], [''hdev'', ''hub'', ''port1'', ''set'']),
      (''kprobe/port_over_current_notify'', [''port_dev''], [''port_dev'']),
      (''raw_tracepoint/vb2_v4l2_buf_done'', [''q'', ''vb''], [''q'', ''vb'']),
      (''raw_tracepoint/vb2_buf_done'', [''q'', ''vb''], [''q'', ''vb'']),
      (''raw_tracepoint/vb2_buf_queue'', [''q'', ''vb''], [''q'', ''vb'']),
      (''raw_tracepoint/vb2_qbuf'', [''q'', ''vb''], [''q'', ''vb'']),
      (''raw_tracepoint/vb2_dqbuf'', [''q'', ''vb''], [''q'', ''vb'']),
      (''kprobe/uvc_video_complete'', [''urb''], [''urb'']),
      (''kprobe/uvc_queue_next_buffer'', [''queue'', ''buf''], [''queue'', ''buf'']),
      (''kprobe/uvc_video_decode_isoc'', [''uvc_urb'', ''buf'', ''meta_buf''], [''uvc_urb'', ''buf'']),
      (''kprobe/uvc_queue_buffer_complete'', [''ref''], [''ref'']),
      (''kprobe/hid_irq_in'', [''urb''], [''urb'']),
      (''kprobe/hid_irq_out'', [''urb''], [''urb'']),
      (''kprobe/snd_complete_urb'', [''urb''], [''urb'']),
      (''kprobe/usb_stor_blocking_completion'', [''urb''], [''urb''])]"

definition arg_named :: "string list \<Rightarrow> u64 list \<Rightarrow> string \<Rightarrow> u64" where
  "arg_named ps vs p = (case map_of (zip ps vs) p of Some v \<Rightarrow> v | None \<Rightarrow> 0)"

text \<open>How a call is saved: on arm its first four arguments, or its result, in the first registers; elsewhere where libbpf's macros
  look for them; the arguments of a tracepoint in its context. On a 32-bit target the values have 32 bits.\<close>

definition call_saved :: "bool \<Rightarrow> pt_ctx \<Rightarrow> string \<Rightarrow> u64 list \<Rightarrow> bool" where
  "call_saved arch32 ctx sec vs \<longleftrightarrow>
     (if starts_with ''raw_tracepoint/'' sec then list_all (\<lambda>i. px_args ctx i = vs ! i) [0..<length vs]
      else if starts_with ''kretprobe/'' sec then (if arch32 then ucast (px_words ctx 0) else px_rc ctx) = vs ! 0
      else list_all (\<lambda>i. (if arch32 then ucast (px_words ctx i) else px_parm ctx (Suc i)) = vs ! i) [0..<min 4 (length vs)])"

text \<open>How i386 saves a call of three arguments, passed in ax, dx and cx: \<open>struct pt_regs\<close> starts with bx, cx, dx, si, di, bp, ax.\<close>

definition i386_saved :: "pt_ctx \<Rightarrow> u32 list \<Rightarrow> bool" where
  "i386_saved ctx vs \<longleftrightarrow> map (px_words ctx) [6, 2, 1] = vs"

lemmas entry_defs = urb_entries_def enum_entries_def power_entries_def lifecycle_entries_def hub_entries_def uvc_entries_def
  hid_entries_def uac_entries_def storage_entries_def

lemmas parm_defs = USBTRACE_PT_PARM1_def USBTRACE_PT_PARM2_def USBTRACE_PT_PARM3_def USBTRACE_PT_PARM4_def USBTRACE_PT_RET_def
  usbtrace_pt_parm_def

lemma upt_small: "[0..<Suc 0] = [0]" "[0..<2] = [0, 1]" "[0..<3] = [0, 1, 2]" "[0..<4] = [0, 1, 2, 3]"
  by (simp_all add: upt_rec numeral_eq_Suc)

text \<open>The hook of a section, on a call its registers hold.\<close>

definition sees :: "bool \<Rightarrow> pt_ctx \<Rightarrow> string \<times> any_hook \<Rightarrow> bool" where
  "sees a ctx = (\<lambda>(sec, h).
     \<exists>ps ws. map_of kernel_params sec = Some (ps, ws)
       \<and> (\<forall>vs. call_saved a ctx sec vs \<longrightarrow> length vs = length ps \<longrightarrow> hook_args h = map (arg_named ps vs) ws))"

lemmas see_defs = sees_def kernel_params_def call_saved_def starts_with_def arg_named_def parm_defs length_Suc_conv
  eval_nat_numeral

lemma all_see:
  "list_all (sees a ctx) (map (apsnd UrbH) (urb_entries a ctx))"
  "list_all (sees a ctx) (map (apsnd PowerH) (power_entries a ctx))"
  "list_all (sees a ctx) (map (apsnd LifecycleH) (lifecycle_entries a ctx))"
  "list_all (sees a ctx) (map (apsnd HubH) (hub_entries a ctx))"
  "list_all (sees a ctx) (map (apsnd EnumH) (enum_entries a ctx))"
  "list_all (sees a ctx) (map (apsnd UvcH) (uvc_entries a ctx))"
  "list_all (sees a ctx) (map (apsnd ClassH) (hid_entries a ctx @ uac_entries a ctx @ storage_entries a ctx))"
  unfolding entry_defs by (auto simp: see_defs)

lemma entries_see: "x \<in> set (program_entries a ctx) \<Longrightarrow> sees a ctx x"
  using all_see[of a ctx] unfolding program_entries_def list_all_iff set_append by blast

text \<open>C40: Every hook of every program is handed the arguments of the kernel function it probes that it is about, in their roles, and
  at a return the function's result: on arm, and on 64-bit targets as far as libbpf's macros do what they say. On i386, where the
  saved registers start with bx and not with the first argument, the completion hook takes the status for the URB and the URB for
  the status: a URB that completed without an error is never reported.\<close>

theorem hooks_see_arguments:
  assumes "(sec, h) \<in> set (program_entries a ctx)" "map_of kernel_params sec = Some (ps, ws)"
    and "call_saved a ctx sec vs" "length vs = length ps"
    and "i386_saved ctx' [hcd, urbp, 0]" "(''kprobe/usb_hcd_giveback_urb'', g) \<in> set (urb_entries True ctx')"
  shows "hook_args h = map (arg_named ps vs) ws \<and> urb_hit cfg (en, g) m = (m, [])"
proof
  show "hook_args h = map (arg_named ps vs) ws"
    using entries_see[OF assms(1)] assms(2-4) by (simp add: sees_def)
  have "g = Giveback_urb 0 (ucast urbp)" using assms(5,6) by (simp add: i386_saved_def urb_entries_def parm_defs)
  then show "urb_hit cfg (en, g) m = (m, [])" by (simp add: on_giveback_def USBTRACE_KPTR_def USBTRACE_PTR_KEY_def)
qed

text \<open>A completion of the URB at 0x2000 with status 0, on arm and on i386.\<close>

theorem hooks_see_arguments_witness:
  "let arm = \<lparr> px_words = (\<lambda>i. [0x1000, 0x2000, 0] ! i), px_parm = (\<lambda>_. 0), px_rc = 0, px_args = (\<lambda>_. 0) \<rparr>;
       i386 = \<lparr> px_words = (\<lambda>i. [7, 0, 0x2000, 8, 9, 10, 0x1000] ! i), px_parm = (\<lambda>_. 0), px_rc = 0, px_args = (\<lambda>_. 0) \<rparr>
   in snd (urb_entries True arm ! 1) = Giveback_urb 0x2000 0
     \<and> (\<forall>cfg en. urb_hit cfg (en, snd (urb_entries True i386 ! 1)) Map.empty = (Map.empty, []))"
proof -
  let ?arm = "\<lparr> px_words = (\<lambda>i. [0x1000, 0x2000, 0] ! i), px_parm = (\<lambda>_. 0), px_rc = 0, px_args = (\<lambda>_. 0) \<rparr>"
  let ?i386 = "\<lparr> px_words = (\<lambda>i. [7, 0, 0x2000, 8, 9, 10, 0x1000] ! i), px_parm = (\<lambda>_. 0), px_rc = 0, px_args = (\<lambda>_. 0) \<rparr>"
  let ?h = "snd (urb_entries True ?arm ! 1)" and ?g = "snd (urb_entries True ?i386 ! 1)"
  have "hook_args (UrbH ?h) = map (arg_named [''hcd'', ''urb'', ''status''] [0x1000, 0x2000, 0]) [''urb'', ''status'']
      \<and> urb_hit cfg (en, ?g) Map.empty = (Map.empty, [])" for cfg en
    by (rule hooks_see_arguments[where sec = "''kprobe/usb_hcd_giveback_urb''" and a = True and ctx = ?arm and ctx' = ?i386
          and hcd = "0x1000" and urbp = "0x2000"])
      (simp_all add: program_entries_def urb_entries_def kernel_params_def call_saved_def starts_with_def i386_saved_def upt_small)
  moreover have "\<exists>x y. ?h = Giveback_urb x y" by (simp add: urb_entries_def)
  ultimately show ?thesis by (auto simp: Let_def arg_named_def)
qed

end
