(* ===== verification/Rule_Docs.thy ===== *)
theory Rule_Docs
  imports Diag_Rules_Props
begin

text \<open>
  The rule loader over the tree of a document. A node of a document stands for a tree as an address stands for a list on a
  heap; the loader's result depends on that tree alone, however libyaml numbers the nodes, and is a reference loader's over
  trees.
\<close>

section \<open>Trees\<close>

datatype ytree = YStr string | YSeq "ytree list" | YMap "(string \<times> ytree) list"

fun stands :: "yaml_doc \<Rightarrow> yaml_node option \<Rightarrow> ytree \<Rightarrow> bool"
  and stands_seq :: "yaml_doc \<Rightarrow> int list \<Rightarrow> ytree list \<Rightarrow> bool"
  and stands_map :: "yaml_doc \<Rightarrow> (int \<times> int) list \<Rightarrow> (string \<times> ytree) list \<Rightarrow> bool" where
  "stands doc n (YStr s) = (n = Some (YAML_SCALAR_NODE s))"
| "stands doc n (YSeq ts) = (case n of Some (YAML_SEQUENCE_NODE its) \<Rightarrow> stands_seq doc its ts | _ \<Rightarrow> False)"
| "stands doc n (YMap ps) = (case n of Some (YAML_MAPPING_NODE kvs) \<Rightarrow> stands_map doc kvs ps | _ \<Rightarrow> False)"
| "stands_seq doc [] [] = True"
| "stands_seq doc (i # its) (t # ts) = (stands doc (doc i) t \<and> stands_seq doc its ts)"
| "stands_seq doc its ts = False"
| "stands_map doc [] [] = True"
| "stands_map doc ((k, v) # kvs) ((s, t) # ps) =
     (doc k = Some (YAML_SCALAR_NODE s) \<and> stands doc (doc v) t \<and> stands_map doc kvs ps)"
| "stands_map doc kvs ps = False"

section \<open>The reference loader\<close>

definition tree_str :: "ytree option \<Rightarrow> string option" where
  "tree_str n = (case n of Some (YStr s) \<Rightarrow> Some (cstr s) | _ \<Rightarrow> None)"

fun assoc_get :: "(string \<times> ytree) list \<Rightarrow> string \<Rightarrow> ytree option" where
  "assoc_get [] key = None"
| "assoc_get ((s, t) # ps) key = (if cstr s = key then Some t else assoc_get ps key)"

definition tree_get :: "ytree \<Rightarrow> string \<Rightarrow> ytree option" where
  "tree_get n key = (case n of YMap ps \<Rightarrow> assoc_get ps key | _ \<Rightarrow> None)"

fun tree_status :: "ytree list \<Rightarrow> diag_cond \<Rightarrow> string + diag_cond" where
  "tree_status [] c = Inr c"
| "tree_status (t # ts) c =
     (case Option.bind (tree_str (Some t)) resolve_value of
        None \<Rightarrow> Inl ''bad status_in entry''
      | Some v \<Rightarrow>
          if length (c_status_in c) \<ge> DIAG_MAX_STATUS then Inl ''too many status_in entries''
          else tree_status ts (c\<lparr> c_status_in := c_status_in c @ [v] \<rparr>))"

fun tree_match :: "(string \<times> ytree) list \<Rightarrow> diag_cond \<Rightarrow> string + diag_cond" where
  "tree_match [] c = Inr c"
| "tree_match ((s, t) # ps) c =
     (case tree_str (Some t) of
        Some vs \<Rightarrow> (case add_match c (cstr s) vs of Inl e \<Rightarrow> Inl e | Inr c' \<Rightarrow> tree_match ps c')
      | None \<Rightarrow> Inl ''match entries must be scalars'')"

fun tree_trigger_pairs :: "(string \<times> ytree) list \<Rightarrow> diag_cond \<Rightarrow> string + diag_cond" where
  "tree_trigger_pairs [] c = Inr c"
| "tree_trigger_pairs ((s, t) # ps) c =
     (case tree_str (Some t) of
        None \<Rightarrow> Inl ''trigger entries must be scalars''
      | Some vs \<Rightarrow>
          if cstr s = ''kind'' then
            (case resolve_value vs of
               None \<Rightarrow> Inl (bad_kind vs)
             | Some v \<Rightarrow> tree_trigger_pairs ps (c\<lparr> c_has_kind := True, c_kind := word_of_int v \<rparr>))
          else (case add_match c (cstr s) vs of Inl e \<Rightarrow> Inl e | Inr c' \<Rightarrow> tree_trigger_pairs ps c'))"

definition tree_trigger :: "ytree option \<Rightarrow> diag_cond \<Rightarrow> string + diag_cond" where
  "tree_trigger n c =
     (case n of
        Some (YMap ps) \<Rightarrow>
          (case tree_trigger_pairs ps c of
             Inl e \<Rightarrow> Inl e
           | Inr c' \<Rightarrow> if \<not> c_has_kind c' then Inl ''trigger requires a kind'' else Inr c')
      | _ \<Rightarrow> Inl ''trigger must be a mapping'')"

definition tree_number :: "ytree \<Rightarrow> string \<Rightarrow> (int \<Rightarrow> diag_cond \<Rightarrow> diag_cond) \<Rightarrow> diag_cond \<Rightarrow> diag_cond" where
  "tree_number t key put c = (case tree_str (tree_get t key) of None \<Rightarrow> c | Some s \<Rightarrow> put (fst (strtol s)) c)"

definition tree_numbers :: "ytree \<Rightarrow> diag_cond \<Rightarrow> diag_cond" where
  "tree_numbers t c =
     tree_number t ''cluster_ms'' (\<lambda>v c. c\<lparr> c_has_cluster_ms := True, c_cluster_ms := v \<rparr>)
       (tree_number t ''min_span_ms'' (\<lambda>v c. c\<lparr> c_has_min_span_ms := True, c_min_span_ms := v \<rparr>)
         (tree_number t ''count_gte'' (\<lambda>v c. c\<lparr> c_has_count_gte := True, c_count_gte := v \<rparr>)
           (tree_number t ''within_ms'' (\<lambda>v c. c\<lparr> c_has_within_ms := True, c_within_ms := v \<rparr>) c)))"

definition tree_when :: "ytree \<Rightarrow> string + diag_cond" where
  "tree_when t =
     (case t of
        YMap _ \<Rightarrow>
          let kinds = (case tree_str (tree_get t ''kind'') of
                         None \<Rightarrow> Inr zero_cond
                       | Some s \<Rightarrow> (case resolve_value s of
                                      None \<Rightarrow> Inl (bad_kind s)
                                    | Some v \<Rightarrow> Inr (zero_cond\<lparr> c_has_kind := True, c_kind := word_of_int v \<rparr>)));
              matches = (\<lambda>c. case tree_get t ''match'' of
                           None \<Rightarrow> Inr c | Some (YMap ps) \<Rightarrow> tree_match ps c | Some _ \<Rightarrow> Inl ''match must be a mapping'');
              status = (\<lambda>c. case tree_get t ''status_in'' of
                          None \<Rightarrow> Inr c | Some (YSeq ts) \<Rightarrow> tree_status ts c | Some _ \<Rightarrow> Inl ''status_in must be a list'')
          in (case kinds of Inl e \<Rightarrow> Inl e | Inr c1 \<Rightarrow>
               (case matches c1 of Inl e \<Rightarrow> Inl e | Inr c2 \<Rightarrow>
                 (case status c2 of Inl e \<Rightarrow> Inl e | Inr c3 \<Rightarrow> Inr (tree_numbers t c3))))
      | _ \<Rightarrow> Inl ''when item must be a mapping'')"

fun tree_whens :: "ytree list \<Rightarrow> diag_rule \<Rightarrow> string + diag_rule" where
  "tree_whens [] r = Inr r"
| "tree_whens (t # ts) r =
     (if length (r_when r) \<ge> DIAG_MAX_WHEN then Inl ''too many when conditions''
      else (case tree_when t of Inl e \<Rightarrow> Inl e | Inr c \<Rightarrow> tree_whens ts (r\<lparr> r_when := r_when r @ [c] \<rparr>)))"

definition tree_deadline :: "ytree \<Rightarrow> diag_rule \<Rightarrow> string + diag_rule" where
  "tree_deadline dl r =
     (case Option.bind (tree_str (tree_get dl ''reached_state'')) resolve_value of
        None \<Rightarrow> Inl ''deadline needs reached_state''
      | Some v \<Rightarrow>
          (case tree_str (tree_get dl ''timeout_ms'') of
             None \<Rightarrow> Inl ''deadline needs timeout_ms''
           | Some s \<Rightarrow>
               Inr (r\<lparr> r_type := RULE_DEADLINE, r_dl_reached_state := to_int32 v,
                      r_dl_without_state := (case Option.bind (tree_str (tree_get dl ''without_state'')) resolve_value of
                                               None \<Rightarrow> - 1 | Some v2 \<Rightarrow> to_int32 v2),
                      r_dl_timeout_ms := fst (strtol s) \<rparr>)))"

definition tree_rule :: "ytree \<Rightarrow> string + diag_rule" where
  "tree_rule t =
     (let r = zero_rule\<lparr> r_id := tree_str (tree_get t ''id''), r_name := tree_str (tree_get t ''name''),
                r_conclusion := tree_str (tree_get t ''conclusion''), r_fix := tree_str (tree_get t ''fix''),
                r_severity := parse_severity (tree_str (tree_get t ''severity'')) \<rparr> in
      if r_id r = None then Inl ''rule missing id''
      else (case tree_get t ''deadline'' of
              Some dl \<Rightarrow> tree_deadline dl r
            | None \<Rightarrow>
                (case tree_trigger (tree_get t ''trigger'') zero_cond of
                   Inl e \<Rightarrow> Inl e
                 | Inr c \<Rightarrow>
                     (case tree_get t ''when'' of
                        None \<Rightarrow> Inr (r\<lparr> r_trigger := c \<rparr>)
                      | Some (YSeq ts) \<Rightarrow> tree_whens ts (r\<lparr> r_trigger := c \<rparr>)
                      | Some _ \<Rightarrow> Inl ''when must be a list''))))"

text \<open>The first 64 rules; the first error is the result.\<close>

fun tree_rules :: "nat \<Rightarrow> ytree list \<Rightarrow> string + diag_rule list" where
  "tree_rules n [] = Inr []"
| "tree_rules 0 (t # ts) = Inr []"
| "tree_rules (Suc n) (t # ts) =
     (case tree_rule t of
        Inl e \<Rightarrow> Inl e
      | Inr r \<Rightarrow> (case tree_rules n ts of Inl e \<Rightarrow> Inl e | Inr rs \<Rightarrow> Inr (r # rs)))"

definition tree_load :: "ytree \<Rightarrow> string + diag_rule list" where
  "tree_load t =
     (case tree_get t ''rules'' of
        Some (YSeq ts) \<Rightarrow> tree_rules DIAG_MAX_RULES ts
      | _ \<Rightarrow> Inl (''top-level '' @ [CHR 0x27] @ ''rules:'' @ [CHR 0x27] @ '' list required''))"

section \<open>Members of a tree\<close>

definition opt_stands :: "yaml_doc \<Rightarrow> yaml_node option \<Rightarrow> ytree option \<Rightarrow> bool" where
  "opt_stands doc n ot = (case ot of None \<Rightarrow> n = None | Some t \<Rightarrow> stands doc n t)"

lemma stands_cases:
  "stands doc n t \<Longrightarrow> (\<exists>s. t = YStr s \<and> n = Some (YAML_SCALAR_NODE s))
     \<or> (\<exists>its ts. t = YSeq ts \<and> n = Some (YAML_SEQUENCE_NODE its) \<and> stands_seq doc its ts)
     \<or> (\<exists>kvs ps. t = YMap ps \<and> n = Some (YAML_MAPPING_NODE kvs) \<and> stands_map doc kvs ps)"
  by (cases t) (auto split: option.splits yaml_node.splits)

lemma str_of: "opt_stands doc n ot \<Longrightarrow> node_scalar n = tree_str ot"
  by (cases ot) (auto simp: opt_stands_def node_scalar_def tree_str_def dest!: stands_cases)

lemma str_of_node: "stands doc n t \<Longrightarrow> node_scalar n = tree_str (Some t)"
  by (rule str_of[of doc]) (simp add: opt_stands_def)

lemma stands_seq_Cons: "stands_seq doc its (t # ts) \<longleftrightarrow> (\<exists>i js. its = i # js \<and> stands doc (doc i) t \<and> stands_seq doc js ts)"
  "stands_seq doc its [] \<longleftrightarrow> its = []"
  by (cases its; auto)+

lemma stands_map_Cons: "stands_map doc kvs ((s, t) # ps) \<longleftrightarrow>
    (\<exists>k v rest. kvs = (k, v) # rest \<and> doc k = Some (YAML_SCALAR_NODE s) \<and> stands doc (doc v) t \<and> stands_map doc rest ps)"
  "stands_map doc kvs [] \<longleftrightarrow> kvs = []"
  by (cases kvs; auto)+

lemma pairs_get_stands: "stands_map doc kvs ps \<Longrightarrow> opt_stands doc (pairs_get doc kvs key) (assoc_get ps key)"
proof (induction ps arbitrary: kvs)
  case (Cons p ps)
  obtain s t where p: "p = (s, t)" by (cases p)
  then obtain k v rest where kvs: "kvs = (k, v) # rest" "node_scalar (doc k) = Some (cstr s)"
    "stands doc (doc v) t" "stands_map doc rest ps"
    using Cons.prems by (auto simp: stands_map_Cons node_scalar_def)
  show ?case using Cons.IH[OF kvs(4)] kvs(2,3) unfolding p kvs(1) by (simp add: opt_stands_def)
qed (simp add: stands_map_Cons opt_stands_def)

lemma get_of: "stands doc n t \<Longrightarrow> opt_stands doc (map_get doc n key) (tree_get t key)"
  by (drule stands_cases) (auto simp: map_get_def tree_get_def pairs_get_stands, simp_all add: opt_stands_def)

lemmas get_str = str_of[OF get_of]

lemma key_of: "doc k = Some (YAML_SCALAR_NODE s) \<Longrightarrow> node_scalar (doc k) = Some (cstr s)"
  by (simp add: node_scalar_def)

section \<open>The loader computes it\<close>

lemma status_tree: "stands_seq doc its ts \<Longrightarrow> status_items doc its c = tree_status ts c"
  by (induction ts arbitrary: its c) (auto simp: stands_seq_Cons str_of_node split: option.split)

lemma match_tree: "stands_map doc kvs ps \<Longrightarrow> match_pairs doc kvs c = tree_match ps c"
  by (induction ps arbitrary: kvs c) (auto simp: stands_map_Cons str_of_node key_of split: option.split sum.split)

lemma trigger_pairs_tree: "stands_map doc kvs ps \<Longrightarrow> trigger_pairs doc kvs c = tree_trigger_pairs ps c"
  by (induction ps arbitrary: kvs c) (auto simp: stands_map_Cons str_of_node key_of split: option.split sum.split)

lemma trigger_tree: "opt_stands doc n ot \<Longrightarrow> parse_trigger doc n c = tree_trigger ot c"
  by (cases ot) (auto simp: opt_stands_def parse_trigger_def tree_trigger_def trigger_pairs_tree dest!: stands_cases)

lemma numbers_tree: "stands doc n t \<Longrightarrow> when_numbers doc n c = tree_numbers t c"
  by (simp add: when_numbers_def tree_numbers_def tree_number_def get_str Let_def)

lemma when_match_tree:
  "stands doc n t \<Longrightarrow> when_match doc n c =
    (case tree_get t ''match'' of
       None \<Rightarrow> Inr c | Some (YMap ps) \<Rightarrow> tree_match ps c | Some _ \<Rightarrow> Inl ''match must be a mapping'')"
  using get_of[of doc n t "''match''"]
  by (auto simp: when_match_def parse_match_map_def opt_stands_def match_tree dest!: stands_cases split: option.splits)

lemma when_status_tree:
  "stands doc n t \<Longrightarrow> when_status doc n c =
    (case tree_get t ''status_in'' of
       None \<Rightarrow> Inr c | Some (YSeq ts) \<Rightarrow> tree_status ts c | Some _ \<Rightarrow> Inl ''status_in must be a list'')"
  using get_of[of doc n t "''status_in''"]
  by (auto simp: when_status_def parse_status_in_def opt_stands_def status_tree dest!: stands_cases split: option.splits)

lemma when_tree: "stands doc n t \<Longrightarrow> parse_when doc n zero_cond = tree_when t"
proof -
  assume s: "stands doc n t"
  show ?thesis
  proof (cases t)
    case (YMap ps)
    then obtain kvs where n: "n = Some (YAML_MAPPING_NODE kvs)" using s by (auto split: option.splits yaml_node.splits)
    note s' = s[unfolded n YMap]
    show ?thesis unfolding parse_when_def tree_when_def n YMap Let_def when_kind_def get_str[OF s'] when_match_tree[OF s']
        when_status_tree[OF s'] numbers_tree[OF s'] by simp
  qed (use s in \<open>auto simp: parse_when_def tree_when_def split: option.splits yaml_node.splits\<close>)
qed

lemma whens_tree: "stands_seq doc its ts \<Longrightarrow> when_items doc its r = tree_whens ts r"
  by (induction ts arbitrary: its r) (auto simp: stands_seq_Cons when_tree split: sum.split)

lemma deadline_tree: "stands doc n t \<Longrightarrow> parse_deadline doc n r = tree_deadline t r"
  by (auto simp: parse_deadline_def tree_deadline_def get_str Let_def split: option.split)

lemma rule_tree: "stands doc n t \<Longrightarrow> parse_rule doc n = tree_rule t"
proof -
  assume s: "stands doc n t"
  note dl = get_of[OF s, of "''deadline''"] and w = get_of[OF s, of "''when''"]
  note trig = trigger_tree[OF get_of[OF s], of "''trigger''"]
  let ?h = "rule_header doc n"
  have h: "?h = zero_rule\<lparr> r_id := tree_str (tree_get t ''id''), r_name := tree_str (tree_get t ''name''),
      r_conclusion := tree_str (tree_get t ''conclusion''), r_fix := tree_str (tree_get t ''fix''),
      r_severity := parse_severity (tree_str (tree_get t ''severity'')) \<rparr>"
    by (simp add: rule_header_def dup_scalar_def get_str[OF s])
  have z: "?h\<lparr> r_type := RULE_EVENT \<rparr> = ?h" "r_trigger ?h = zero_cond" by (simp_all add: rule_header_def zero_rule_def)
  have whens: "(case map_get doc n ''when'' of
        None \<Rightarrow> Inr r | Some (YAML_SEQUENCE_NODE its) \<Rightarrow> when_items doc its r | Some _ \<Rightarrow> Inl ''when must be a list'')
      = (case tree_get t ''when'' of
        None \<Rightarrow> Inr r | Some (YSeq ts) \<Rightarrow> tree_whens ts r | Some _ \<Rightarrow> Inl ''when must be a list'')" for r
    using w by (cases "tree_get t ''when''") (auto simp: opt_stands_def whens_tree dest!: stands_cases)
  show ?thesis
  proof (cases "tree_get t ''deadline''")
    case None
    then have "map_get doc n ''deadline'' = None" using dl by (simp add: opt_stands_def)
    then show ?thesis unfolding parse_rule_def tree_rule_def Let_def z trig whens h[symmetric] None by simp
  next
    case (Some d)
    then obtain m where "map_get doc n ''deadline'' = Some m" "stands doc (Some m) d"
      using dl by (cases "map_get doc n ''deadline''") (auto simp: opt_stands_def dest!: stands_cases)
    then show ?thesis unfolding parse_rule_def tree_rule_def Let_def h[symmetric] Some by (simp add: deadline_tree)
  qed
qed

lemma rules_tree:
  "stands_seq doc its ts \<Longrightarrow> length arr \<le> DIAG_MAX_RULES \<Longrightarrow>
   rule_items doc its arr = map_sum id ((@) arr) (tree_rules (DIAG_MAX_RULES - length arr) ts)"
proof (induction ts arbitrary: its arr)
  case (Cons t ts)
  then obtain i js where its: "its = i # js" "stands doc (doc i) t" "stands_seq doc js ts" by (auto simp: stands_seq_Cons)
  show ?case
  proof (cases "DIAG_MAX_RULES - length arr")
    case 0
    then show ?thesis by (simp add: its(1))
  next
    case (Suc n)
    then have n: "\<not> DIAG_MAX_RULES \<le> length arr" "DIAG_MAX_RULES - Suc (length arr) = n" by arith+
    then show ?thesis using Cons.IH[OF its(3)] unfolding its(1) Suc
      by (simp add: rule_tree[OF its(2)] map_sum_def comp_def split: sum.split)
  qed
qed (simp add: stands_seq_Cons)

section \<open>A document for every tree\<close>

text \<open>libyaml numbers the nodes from 1 on; here in the order of the text, each node before its members.\<close>

fun tree_size :: "ytree \<Rightarrow> nat" and trees_size :: "ytree list \<Rightarrow> nat" and pairs_size :: "(string \<times> ytree) list \<Rightarrow> nat" where
  "tree_size (YStr s) = 1"
| "tree_size (YSeq ts) = 1 + trees_size ts"
| "tree_size (YMap ps) = 1 + pairs_size ps"
| "trees_size [] = 0"
| "trees_size (t # ts) = tree_size t + trees_size ts"
| "pairs_size [] = 0"
| "pairs_size ((s, t) # ps) = 1 + tree_size t + pairs_size ps"

fun seq_ids :: "int \<Rightarrow> ytree list \<Rightarrow> int list" where
  "seq_ids b [] = []"
| "seq_ids b (t # ts) = b # seq_ids (b + int (tree_size t)) ts"

fun map_ids :: "int \<Rightarrow> (string \<times> ytree) list \<Rightarrow> (int \<times> int) list" where
  "map_ids b [] = []"
| "map_ids b ((s, t) # ps) = (b, b + 1) # map_ids (b + 1 + int (tree_size t)) ps"

fun nodes_of :: "int \<Rightarrow> ytree \<Rightarrow> yaml_node list"
  and nodes_seq :: "int \<Rightarrow> ytree list \<Rightarrow> yaml_node list"
  and nodes_map :: "int \<Rightarrow> (string \<times> ytree) list \<Rightarrow> yaml_node list" where
  "nodes_of b (YStr s) = [YAML_SCALAR_NODE s]"
| "nodes_of b (YSeq ts) = YAML_SEQUENCE_NODE (seq_ids (b + 1) ts) # nodes_seq (b + 1) ts"
| "nodes_of b (YMap ps) = YAML_MAPPING_NODE (map_ids (b + 1) ps) # nodes_map (b + 1) ps"
| "nodes_seq b [] = []"
| "nodes_seq b (t # ts) = nodes_of b t @ nodes_seq (b + int (tree_size t)) ts"
| "nodes_map b [] = []"
| "nodes_map b ((s, t) # ps) = YAML_SCALAR_NODE s # nodes_of (b + 1) t @ nodes_map (b + 1 + int (tree_size t)) ps"

definition doc_of :: "ytree \<Rightarrow> yaml_doc" where
  "doc_of t i = (if 1 \<le> i \<and> nat i \<le> tree_size t then Some (nodes_of 1 t ! nat (i - 1)) else None)"

fun holds_at :: "yaml_doc \<Rightarrow> int \<Rightarrow> yaml_node list \<Rightarrow> bool" where
  "holds_at doc b [] = True"
| "holds_at doc b (n # ns) = (doc b = Some n \<and> holds_at doc (b + 1) ns)"

lemma holds_at_append: "holds_at doc b (ms @ ns) \<longleftrightarrow> holds_at doc b ms \<and> holds_at doc (b + int (length ms)) ns"
  by (induction ms arbitrary: b) (auto simp: algebra_simps)

lemma length_nodes: "length (nodes_of b t) = tree_size t" "length (nodes_seq b ts) = trees_size ts"
  "length (nodes_map b ps) = pairs_size ps"
  by (induction b t and b ts and b ps rule: nodes_of_nodes_seq_nodes_map.induct) auto

lemma nodes_stand:
  "holds_at doc b (nodes_of b t) \<Longrightarrow> stands doc (doc b) t"
  "holds_at doc b (nodes_seq b ts) \<Longrightarrow> stands_seq doc (seq_ids b ts) ts"
  "holds_at doc b (nodes_map b ps) \<Longrightarrow> stands_map doc (map_ids b ps) ps"
  by (induction b t and b ts and b ps rule: nodes_of_nodes_seq_nodes_map.induct)
    (auto simp: holds_at_append length_nodes)

lemma holds_atI: "(\<And>i. i < length ns \<Longrightarrow> doc (b + int i) = Some (ns ! i)) \<Longrightarrow> holds_at doc b ns"
proof (induction ns arbitrary: b)
  case (Cons n ns)
  show ?case using Cons.prems[of 0] Cons.IH[of "b + 1"] Cons.prems[of "Suc i" for i] by (simp add: algebra_simps)
qed simp

lemma doc_of_stands: "stands (doc_of t) (doc_of t 1) t"
  by (rule nodes_stand(1), rule holds_atI) (auto simp: doc_of_def length_nodes nat_add_distrib)

lemma doc_of_root: "\<exists>n. doc_of t 1 = Some n"
  by (cases t) (simp_all add: doc_of_def)

definition tree_env :: "ytree \<Rightarrow> yaml_env" where
  "tree_env t = \<lparr> y_init = True, y_load = (\<lambda>_. Inr (doc_of t, doc_of t 1)), y_calloc = True \<rparr>"

section \<open>Loading a document\<close>

lemma load_tree:
  assumes "y_init env" "y_calloc env" "y_load env text = Inr (doc, Some root)" "stands doc (Some root) t"
  shows "diag_rules_parse env text n = (case tree_load t of Inl e \<Rightarrow> Inl (snprintf_s n e) | Inr rules \<Rightarrow> Inr rules)"
proof -
  have "opt_stands doc (map_get doc (Some root) ''rules'') (tree_get t ''rules'')" by (rule get_of[OF assms(4)])
  then have "rules_of_document env text = tree_load t"
    using assms(1-3) rules_tree[of doc _ _ "[]"]
    by (auto simp: rules_of_document_def tree_load_def opt_stands_def map_sum.id[unfolded id_def] dest!: stands_cases
        split: option.splits) (simp_all add: map_sum_def split: sum.split)
  then show ?thesis by (simp add: diag_rules_parse_def)
qed

lemma tree_env_load:
  "diag_rules_parse (tree_env t) text n = (case tree_load t of Inl e \<Rightarrow> Inl (snprintf_s n e) | Inr rules \<Rightarrow> Inr rules)"
proof -
  obtain r where r: "doc_of t 1 = Some r" using doc_of_root by blast
  then show ?thesis using doc_of_stands[of t] by (intro load_tree) (auto simp: tree_env_def)
qed

text \<open>C22: The rules loaded from a document depend only on the tree it stands for: whatever numbers libyaml gave the nodes, and
  whether equal parts are shared, the result is that of the reference loader over the tree, errors included.\<close>

theorem loader_reads_tree:
  assumes "y_init env" "y_calloc env" "y_load env text = Inr (doc, Some root)" "stands doc (Some root) t"
  shows "diag_rules_parse env text n = (case tree_load t of Inl e \<Rightarrow> Inl (snprintf_s n e) | Inr rules \<Rightarrow> Inr rules)"
  by (rule load_tree[OF assms])

theorem loader_reads_tree_witness:
  "diag_rules_parse (tree_env (YMap [(''rules'', YSeq [YMap []])])) [] 256 = Inl ''rule missing id''"
proof -
  let ?t = "YMap [(''rules'', YSeq [YMap []])]"
  obtain r where r: "doc_of ?t 1 = Some r" using doc_of_root by blast
  have "diag_rules_parse (tree_env ?t) [] 256 = (case tree_load ?t of Inl e \<Rightarrow> Inl (snprintf_s 256 e) | Inr rules \<Rightarrow> Inr rules)"
    by (rule loader_reads_tree[of _ _ "doc_of ?t" r]) (use doc_of_stands[of ?t] r in \<open>simp_all add: tree_env_def\<close>)
  also have "tree_load ?t = Inl ''rule missing id''"
    by (simp add: tree_load_def tree_get_def cstr_def DIAG_MAX_RULES_def tree_rules.simps numeral_eq_Suc tree_rule_def
        tree_str_def zero_rule_def Let_def)
  finally show ?thesis by (simp add: snprintf_s_def)
qed

end
