(* ===== verification/Builtin_Rules.thy ===== *)
theory Builtin_Rules
  imports Rule_Docs
begin

text \<open>
  The knowledge base that the program embeds (\<open>rules.yaml\<close>): each rule as the tree of its lines, and the rule set the loader
  makes of any document with that tree. The em dash and the arrow of the texts are their UTF-8 bytes.
\<close>

section \<open>The document\<close>

definition yaml_disconnect_after_errors :: ytree where
  "yaml_disconnect_after_errors =
     YMap
      [(''id'', YStr ''disconnect-after-errors''),
       (''name'', YStr ''Disconnect preceded by transfer errors''),
       (''severity'', YStr ''error''),
       (''trigger'', YMap [(''kind'', YStr ''lifecycle''), (''action'', YStr ''disconnect'')]),
       (''when'', YSeq [YMap [(''kind'', YStr ''urb''), (''match'', YMap [(''is_submit'', YStr ''0'')]), (''status_in'', YSeq [YStr ''-71'', YStr ''-84'', YStr ''-110'', YStr ''-32'', YStr ''-19'']), (''within_ms'', YStr ''2000''), (''count_gte'', YStr ''3'')]]),
       (''conclusion'', YStr ''Device {vid}:{pid} (bus{bus}-dev{dev}) disconnected after {count} transfer errors within {window}ms; suspect cable/link/power.''),
       (''fix'', YStr ''Check cable/connector and port power budget, reseat the device, try another port, and rule out EMI.'')]"

definition yaml_autosuspend_mid_transfer :: ytree where
  "yaml_autosuspend_mid_transfer =
     YMap
      [(''id'', YStr ''autosuspend-mid-transfer''),
       (''name'', YStr ''Autosuspend during active transfers''),
       (''severity'', YStr ''warn''),
       (''trigger'', YMap [(''kind'', YStr ''power''), (''action'', YStr ''autosuspend'')]),
       (''when'', YSeq [YMap [(''kind'', YStr ''urb''), (''match'', YMap [(''xfer_type'', YStr ''!2'')]), (''within_ms'', YStr ''200''), (''count_gte'', YStr ''2'')]]),
       (''conclusion'', YStr ''Device {vid}:{pid} autosuspended while {count} data URB(s) were active in the last {window}ms; transfers may stall.''),
       (''fix'', YStr ''Disable runtime autosuspend for this device (power/control = on) or raise autosuspend_delay_ms.'')]"

definition yaml_resume_storm :: ytree where
  "yaml_resume_storm =
     YMap
      [(''id'', YStr ''resume-storm''),
       (''name'', YStr ''Autoresume storm''),
       (''severity'', YStr ''warn''),
       (''trigger'', YMap [(''kind'', YStr ''power''), (''action'', YStr ''autoresume'')]),
       (''when'', YSeq [YMap [(''kind'', YStr ''power''), (''match'', YMap [(''action'', YStr ''autoresume'')]), (''within_ms'', YStr ''5000''), (''count_gte'', YStr ''5''), (''cluster_ms'', YStr ''50'')]]),
       (''conclusion'', YStr ''Device {vid}:{pid} had {count} autoresume bursts within {window}ms; power state is thrashing.''),
       (''fix'', YStr ''Investigate the wakeup source / chatty driver; consider pinning power state or fixing remote-wakeup.'')]"

definition yaml_enum_stall :: ytree where
  "yaml_enum_stall =
     YMap
      [(''id'', YStr ''enum-stall''),
       (''name'', YStr ''Enumeration stalled before CONFIGURED''),
       (''severity'', YStr ''error''),
       (''deadline'', YMap [(''kind'', YStr ''enum''), (''reached_state'', YStr ''ADDRESS''), (''without_state'', YStr ''CONFIGURED''), (''timeout_ms'', YStr ''3000'')]),
       (''conclusion'', YStr ''Device {vid}:{pid} (bus{bus}-dev{dev}) reached ADDRESS but never CONFIGURED within {window}ms; enumeration stalled.''),
       (''fix'', YStr ''Check descriptor fetch / SET_CONFIGURATION; suspect power negotiation, marginal cable, or a flaky device controller.'')]"

definition yaml_video_isoc_errors :: ytree where
  "yaml_video_isoc_errors =
     YMap
      [(''id'', YStr ''video-isoc-errors''),
       (''name'', YStr ''UVC isoc errors (frame corruption)''),
       (''severity'', YStr ''warn''),
       (''trigger'', YMap [(''kind'', YStr ''class''), (''class'', YStr ''video'')]),
       (''when'', YSeq [YMap [(''kind'', YStr ''class''), (''match'', YMap [(''class'', YStr ''video''), (''error_count'', YStr ''!0'')]), (''within_ms'', YStr ''1000''), (''count_gte'', YStr ''5'')]]),
       (''conclusion'', YStr ''Video device {vid}:{pid} saw {count} isoc-error URBs within {window}ms; expect dropped/corrupt frames. Suspect bandwidth, marginal cable, or EMI.''),
       (''fix'', YStr (''Lower resolution/FPS or move to a dedicated bus/port (avoid sharing a hub), check the cable, and verify the controller'' @ [CHR 0x27] @ ''s isoc bandwidth budget.''))]"

definition yaml_audio_isoc_errors :: ytree where
  "yaml_audio_isoc_errors =
     YMap
      [(''id'', YStr ''audio-isoc-errors''),
       (''name'', YStr ''UAC isoc errors (xrun risk)''),
       (''severity'', YStr ''warn''),
       (''trigger'', YMap [(''kind'', YStr ''class''), (''class'', YStr ''audio'')]),
       (''when'', YSeq [YMap [(''kind'', YStr ''class''), (''match'', YMap [(''class'', YStr ''audio''), (''error_count'', YStr ''!0'')]), (''within_ms'', YStr ''1000''), (''count_gte'', YStr ''5'')]]),
       (''conclusion'', YStr ''Audio device {vid}:{pid} saw {count} isoc-error URBs within {window}ms; audio may glitch/underrun.''),
       (''fix'', YStr ''Reduce sample rate/channels, avoid sharing the bus with other isoc devices, and check the cable/port.'')]"

definition yaml_storage_transfer_errors :: ytree where
  "yaml_storage_transfer_errors =
     YMap
      [(''id'', YStr ''storage-transfer-errors''),
       (''name'', YStr ''Mass-storage transfer errors''),
       (''severity'', YStr ''error''),
       (''trigger'', YMap [(''kind'', YStr ''class''), (''class'', YStr ''storage'')]),
       (''when'', YSeq [YMap [(''kind'', YStr ''class''), (''match'', YMap [(''class'', YStr ''storage'')]), (''status_in'', YSeq [YStr ''-71'', YStr ''-84'', YStr ''-110'', YStr ''-32'', YStr ''-19'']), (''within_ms'', YStr ''3000''), (''count_gte'', YStr ''2'')]]),
       (''conclusion'', YStr ''Storage device {vid}:{pid} had {count} bulk transfer errors within {window}ms; SCSI error recovery / bus reset likely. Suspect cable/power or a failing device.''),
       (''fix'', YStr ''Reseat/replace the cable, try a powered port/hub, and check dmesg for reset/IO errors.'')]"

definition yaml_video_frame_drops :: ytree where
  "yaml_video_frame_drops =
     YMap
      [(''id'', YStr ''video-frame-drops''),
       (''name'', YStr ''UVC frame drops''),
       (''severity'', YStr ''warn''),
       (''trigger'', YMap [(''kind'', YStr ''uvc_frame'')]),
       (''when'', YSeq [YMap [(''kind'', YStr ''uvc_frame''), (''match'', YMap [(''frame_errored'', YStr ''1'')]), (''within_ms'', YStr ''2000''), (''count_gte'', YStr ''5'')]]),
       (''conclusion'', YStr ''Video device {vid}:{pid} dropped/corrupted {count} frames within {window}ms; expect visible glitches or stutter.''),
       (''fix'', YStr ''Lower resolution/FPS, use a dedicated bus/port (avoid shared hubs), and check the cable / EMI / isoc bandwidth budget.'')]"

definition yaml_video_low_fps :: ytree where
  "yaml_video_low_fps =
     YMap
      [(''id'', YStr ''video-low-fps''),
       (''name'', YStr ''UVC low frame rate''),
       (''severity'', YStr ''warn''),
       (''trigger'', YMap [(''kind'', YStr ''uvc_frame'')]),
       (''when'', YSeq [YMap [(''kind'', YStr ''uvc_frame''), (''match'', YMap [(''frame_interval_ns'', YStr ''>=66000000'')]), (''within_ms'', YStr ''3000''), (''count_gte'', YStr ''10'')]]),
       (''conclusion'', YStr ''Video device {vid}:{pid} delivered {count} frames slower than ~15fps within {window}ms; bandwidth or format-negotiation issue.''),
       (''fix'', YStr ''Check the negotiated format/frame interval, the isoc bandwidth budget, and contention from other devices on the same bus.'')]"

definition yaml_video_vb2_drops :: ytree where
  "yaml_video_vb2_drops =
     YMap
      [(''id'', YStr ''video-vb2-drops''),
       (''name'', YStr ''UVC vb2 sequence gaps''),
       (''severity'', YStr ''warn''),
       (''trigger'', YMap [(''kind'', YStr ''uvc_vb2'')]),
       (''when'', YSeq [YMap [(''kind'', YStr ''uvc_vb2''), (''match'', YMap [(''vb2_seq_gap'', YStr ''1'')]), (''within_ms'', YStr ''3000''), (''count_gte'', YStr ''3'')]]),
       (''conclusion'', YStr (''Video device {vid}:{pid} saw {count} vb2 sequence gap(s) within {window}ms; USB wire may be fine '' @ [CHR 0xE2, CHR 0x80, CHR 0x94] @ '' suspect driver queue or host scheduling.'')),
       (''fix'', YStr ''Check buffer count in the capturing app, CPU load, and whether other processes hold vb2 buffers.'')]"

definition yaml_video_wire_ok_vb2_drops :: ytree where
  "yaml_video_wire_ok_vb2_drops =
     YMap
      [(''id'', YStr ''video-wire-ok-vb2-drops''),
       (''name'', YStr ''USB OK but vb2 dropping''),
       (''severity'', YStr ''warn''),
       (''trigger'', YMap [(''kind'', YStr ''uvc_vb2'')]),
       (''when'', YSeq [YMap [(''kind'', YStr ''uvc_frame''), (''match'', YMap [(''frame_errored'', YStr ''!1'')]), (''within_ms'', YStr ''3000''), (''count_gte'', YStr ''10'')],
        YMap [(''kind'', YStr ''uvc_vb2''), (''match'', YMap [(''vb2_seq_gap'', YStr ''1'')]), (''within_ms'', YStr ''3000''), (''count_gte'', YStr ''3'')]]),
       (''conclusion'', YStr (''Device {vid}:{pid}: USB wire frames look clean within {window}ms but vb2 sequence gaps detected '' @ [CHR 0xE2, CHR 0x80, CHR 0x94] @ '' not a USB/cable issue.'')),
       (''fix'', YStr ''Raise vb2 buffer count, reduce CPU contention, and check whether userspace is slow to dequeue buffers.'')]"

definition yaml_video_vb2_starved :: ytree where
  "yaml_video_vb2_starved =
     YMap
      [(''id'', YStr ''video-vb2-starved''),
       (''name'', YStr ''UVC vb2 buffer starvation''),
       (''severity'', YStr ''warn''),
       (''trigger'', YMap [(''kind'', YStr ''uvc_vb2'')]),
       (''when'', YSeq [YMap [(''kind'', YStr ''uvc_vb2''), (''match'', YMap [(''vb2_starved'', YStr ''1'')]), (''within_ms'', YStr ''3000''), (''count_gte'', YStr ''3'')]]),
       (''conclusion'', YStr (''Video device {vid}:{pid}: wire frames arrived {count} times with no vb2 queued buffer within {window}ms '' @ [CHR 0xE2, CHR 0x80, CHR 0x94] @ '' app likely slow to QBUF.'')),
       (''fix'', YStr (''Increase buffer count in the capturing app; check DQBUF'' @ [CHR 0xE2, CHR 0x86, CHR 0x92] @ ''QBUF latency and CPU load.''))]"

definition yaml_enum_power_cycle :: ytree where
  "yaml_enum_power_cycle =
     YMap
      [(''id'', YStr ''enum-power-cycle''),
       (''name'', YStr ''GET_DESCRIPTOR failures then port power-off''),
       (''severity'', YStr ''error''),
       (''trigger'', YMap [(''kind'', YStr ''hub''), (''action'', YStr ''hub_power_off'')]),
       (''when'', YSeq [YMap [(''kind'', YStr ''enum''), (''match'', YMap [(''step'', YStr ''get_descriptor'')]), (''status_in'', YSeq [YStr ''-71'']), (''within_ms'', YStr ''3000''), (''count_gte'', YStr ''2'')]]),
       (''conclusion'', YStr ''Device {vid}:{pid} (bus{bus}-dev{dev}) hit {count} GET_DESCRIPTOR EPROTO (-71) then the hub powered the port off; enumeration is retrying via a VBUS cycle.''),
       (''fix'', YStr ''Check the cable/connector and port power budget; try another port.'')]"

definition yaml_reset_resume_disconnect :: ytree where
  "yaml_reset_resume_disconnect =
     YMap
      [(''id'', YStr ''reset-resume-disconnect''),
       (''name'', YStr ''reset_resume then disconnect''),
       (''severity'', YStr ''error''),
       (''trigger'', YMap [(''kind'', YStr ''lifecycle''), (''action'', YStr ''disconnect'')]),
       (''when'', YSeq [YMap [(''kind'', YStr ''lifecycle''), (''match'', YMap [(''action'', YStr ''reset''), (''reset_resume'', YStr ''1'')]), (''within_ms'', YStr ''2000''), (''count_gte'', YStr ''1'')]]),
       (''conclusion'', YStr ''Device {vid}:{pid} disconnected within {window}ms of a reset_resume reset; the resume-time re-verify failed.''),
       (''fix'', YStr ''Check whether the device survives system/runtime resume; look for a VBUS drop or a missing reset_resume quirk.'')]"

definition yaml_reset_storm :: ytree where
  "yaml_reset_storm =
     YMap
      [(''id'', YStr ''reset-storm''),
       (''name'', YStr ''usb_reset_device storm''),
       (''severity'', YStr ''warn''),
       (''trigger'', YMap [(''kind'', YStr ''lifecycle''), (''action'', YStr ''reset'')]),
       (''when'', YSeq [YMap [(''kind'', YStr ''lifecycle''), (''match'', YMap [(''action'', YStr ''reset'')]), (''within_ms'', YStr ''5000''), (''count_gte'', YStr ''4''), (''cluster_ms'', YStr ''50'')]]),
       (''conclusion'', YStr ''Device {vid}:{pid} was reset {count} times within {window}ms; error recovery is looping.''),
       (''fix'', YStr ''Check dmesg for who is calling usb_reset_device, then inspect cable/power before blaming the HCD.'')]"

definition yaml_set_interface_nospc :: ytree where
  "yaml_set_interface_nospc =
     YMap
      [(''id'', YStr ''set-interface-nospc''),
       (''name'', YStr ''SET_INTERFACE failed with ENOSPC''),
       (''severity'', YStr ''error''),
       (''trigger'', YMap [(''kind'', YStr ''urb''), (''brequest'', YStr ''SET_INTERFACE''), (''is_submit'', YStr ''0'')]),
       (''when'', YSeq [YMap [(''kind'', YStr ''urb''), (''match'', YMap [(''brequest'', YStr ''SET_INTERFACE''), (''is_submit'', YStr ''0'')]), (''status_in'', YSeq [YStr ''-28'']), (''within_ms'', YStr ''2000''), (''count_gte'', YStr ''1'')]]),
       (''conclusion'', YStr ''Device {vid}:{pid} SET_INTERFACE returned -ENOSPC ({count} time(s) in {window}ms); the host could not reserve periodic bandwidth for the altsetting.''),
       (''fix'', YStr ''Lower the altsetting bandwidth, unplug other isoc/interrupt devices on the same bus, or move this device to another controller port.'')]"

definition yaml_port_overcurrent :: ytree where
  "yaml_port_overcurrent =
     YMap
      [(''id'', YStr ''port-overcurrent''),
       (''name'', YStr ''Hub port overcurrent''),
       (''severity'', YStr ''error''),
       (''trigger'', YMap [(''kind'', YStr ''hub''), (''action'', YStr ''hub_overcurrent'')]),
       (''conclusion'', YStr ''Device {vid}:{pid} (bus{bus}-dev{dev}) saw a hub port overcurrent; VBUS was likely shut off.''),
       (''fix'', YStr ''Unplug other devices on that hub, check the cable/device for a short, and use a powered hub if the port budget is too small.'')]"

definition rules_yaml :: ytree where
  "rules_yaml = YMap [(''rules'', YSeq
     [yaml_disconnect_after_errors,
      yaml_autosuspend_mid_transfer,
      yaml_resume_storm,
      yaml_enum_stall,
      yaml_video_isoc_errors,
      yaml_audio_isoc_errors,
      yaml_storage_transfer_errors,
      yaml_video_frame_drops,
      yaml_video_low_fps,
      yaml_video_vb2_drops,
      yaml_video_wire_ok_vb2_drops,
      yaml_video_vb2_starved,
      yaml_enum_power_cycle,
      yaml_reset_resume_disconnect,
      yaml_reset_storm,
      yaml_set_interface_nospc,
      yaml_port_overcurrent])]"

section \<open>The rules\<close>

definition rule_disconnect_after_errors :: diag_rule where
  "rule_disconnect_after_errors =
     zero_rule\<lparr> r_id := Some ''disconnect-after-errors'',
       r_name := Some (''Disconnect preceded by transfer errors''),
       r_severity := SEV_ERROR,
       r_trigger := zero_cond\<lparr> c_has_kind := True, c_kind := USBTRACE_EVT_LIFECYCLE, c_match := [\<lparr> m_field = F_ACTION, m_value = 1, m_op = OP_EQ \<rparr>] \<rparr>,
       r_when := [zero_cond\<lparr> c_has_kind := True, c_kind := USBTRACE_EVT_URB, c_match := [\<lparr> m_field = F_IS_SUBMIT, m_value = 0, m_op = OP_EQ \<rparr>], c_status_in := [- 71, - 84, - 110, - 32, - 19], c_has_within_ms := True, c_within_ms := 2000, c_has_count_gte := True, c_count_gte := 3 \<rparr>],
       r_conclusion := Some (''Device {vid}:{pid} (bus{bus}-dev{dev}) disconnected after {count} transfer errors within {window}ms; suspect cable/link/power.''),
       r_fix := Some (''Check cable/connector and port power budget, reseat the device, try another port, and rule out EMI.'') \<rparr>"

definition rule_autosuspend_mid_transfer :: diag_rule where
  "rule_autosuspend_mid_transfer =
     zero_rule\<lparr> r_id := Some ''autosuspend-mid-transfer'',
       r_name := Some (''Autosuspend during active transfers''),
       r_severity := SEV_WARN,
       r_trigger := zero_cond\<lparr> c_has_kind := True, c_kind := USBTRACE_EVT_POWER, c_match := [\<lparr> m_field = F_ACTION, m_value = 0, m_op = OP_EQ \<rparr>] \<rparr>,
       r_when := [zero_cond\<lparr> c_has_kind := True, c_kind := USBTRACE_EVT_URB, c_match := [\<lparr> m_field = F_XFER_TYPE, m_value = 2, m_op = OP_NE \<rparr>], c_has_within_ms := True, c_within_ms := 200, c_has_count_gte := True, c_count_gte := 2 \<rparr>],
       r_conclusion := Some (''Device {vid}:{pid} autosuspended while {count} data URB(s) were active in the last {window}ms; transfers may stall.''),
       r_fix := Some (''Disable runtime autosuspend for this device (power/control = on) or raise autosuspend_delay_ms.'') \<rparr>"

definition rule_resume_storm :: diag_rule where
  "rule_resume_storm =
     zero_rule\<lparr> r_id := Some ''resume-storm'',
       r_name := Some (''Autoresume storm''),
       r_severity := SEV_WARN,
       r_trigger := zero_cond\<lparr> c_has_kind := True, c_kind := USBTRACE_EVT_POWER, c_match := [\<lparr> m_field = F_ACTION, m_value = 1, m_op = OP_EQ \<rparr>] \<rparr>,
       r_when := [zero_cond\<lparr> c_has_kind := True, c_kind := USBTRACE_EVT_POWER, c_match := [\<lparr> m_field = F_ACTION, m_value = 1, m_op = OP_EQ \<rparr>], c_has_within_ms := True, c_within_ms := 5000, c_has_count_gte := True, c_count_gte := 5, c_has_cluster_ms := True, c_cluster_ms := 50 \<rparr>],
       r_conclusion := Some (''Device {vid}:{pid} had {count} autoresume bursts within {window}ms; power state is thrashing.''),
       r_fix := Some (''Investigate the wakeup source / chatty driver; consider pinning power state or fixing remote-wakeup.'') \<rparr>"

definition rule_enum_stall :: diag_rule where
  "rule_enum_stall =
     zero_rule\<lparr> r_id := Some ''enum-stall'',
       r_name := Some (''Enumeration stalled before CONFIGURED''),
       r_severity := SEV_ERROR,
       r_type := RULE_DEADLINE,
       r_dl_reached_state := 6,
       r_dl_without_state := 7,
       r_dl_timeout_ms := 3000,
       r_conclusion := Some (''Device {vid}:{pid} (bus{bus}-dev{dev}) reached ADDRESS but never CONFIGURED within {window}ms; enumeration stalled.''),
       r_fix := Some (''Check descriptor fetch / SET_CONFIGURATION; suspect power negotiation, marginal cable, or a flaky device controller.'') \<rparr>"

definition rule_video_isoc_errors :: diag_rule where
  "rule_video_isoc_errors =
     zero_rule\<lparr> r_id := Some ''video-isoc-errors'',
       r_name := Some (''UVC isoc errors (frame corruption)''),
       r_severity := SEV_WARN,
       r_trigger := zero_cond\<lparr> c_has_kind := True, c_kind := USBTRACE_EVT_CLASS, c_match := [\<lparr> m_field = F_CLASS, m_value = 0, m_op = OP_EQ \<rparr>] \<rparr>,
       r_when := [zero_cond\<lparr> c_has_kind := True, c_kind := USBTRACE_EVT_CLASS, c_match := [\<lparr> m_field = F_CLASS, m_value = 0, m_op = OP_EQ \<rparr>, \<lparr> m_field = F_ERROR_COUNT, m_value = 0, m_op = OP_NE \<rparr>], c_has_within_ms := True, c_within_ms := 1000, c_has_count_gte := True, c_count_gte := 5 \<rparr>],
       r_conclusion := Some (''Video device {vid}:{pid} saw {count} isoc-error URBs within {window}ms; expect dropped/corrupt frames. Suspect bandwidth, marginal cable, or EMI.''),
       r_fix := Some (''Lower resolution/FPS or move to a dedicated bus/port (avoid sharing a hub), check the cable, and verify the controller'' @ [CHR 0x27] @ ''s isoc bandwidth budget.'') \<rparr>"

definition rule_audio_isoc_errors :: diag_rule where
  "rule_audio_isoc_errors =
     zero_rule\<lparr> r_id := Some ''audio-isoc-errors'',
       r_name := Some (''UAC isoc errors (xrun risk)''),
       r_severity := SEV_WARN,
       r_trigger := zero_cond\<lparr> c_has_kind := True, c_kind := USBTRACE_EVT_CLASS, c_match := [\<lparr> m_field = F_CLASS, m_value = 1, m_op = OP_EQ \<rparr>] \<rparr>,
       r_when := [zero_cond\<lparr> c_has_kind := True, c_kind := USBTRACE_EVT_CLASS, c_match := [\<lparr> m_field = F_CLASS, m_value = 1, m_op = OP_EQ \<rparr>, \<lparr> m_field = F_ERROR_COUNT, m_value = 0, m_op = OP_NE \<rparr>], c_has_within_ms := True, c_within_ms := 1000, c_has_count_gte := True, c_count_gte := 5 \<rparr>],
       r_conclusion := Some (''Audio device {vid}:{pid} saw {count} isoc-error URBs within {window}ms; audio may glitch/underrun.''),
       r_fix := Some (''Reduce sample rate/channels, avoid sharing the bus with other isoc devices, and check the cable/port.'') \<rparr>"

definition rule_storage_transfer_errors :: diag_rule where
  "rule_storage_transfer_errors =
     zero_rule\<lparr> r_id := Some ''storage-transfer-errors'',
       r_name := Some (''Mass-storage transfer errors''),
       r_severity := SEV_ERROR,
       r_trigger := zero_cond\<lparr> c_has_kind := True, c_kind := USBTRACE_EVT_CLASS, c_match := [\<lparr> m_field = F_CLASS, m_value = 3, m_op = OP_EQ \<rparr>] \<rparr>,
       r_when := [zero_cond\<lparr> c_has_kind := True, c_kind := USBTRACE_EVT_CLASS, c_match := [\<lparr> m_field = F_CLASS, m_value = 3, m_op = OP_EQ \<rparr>], c_status_in := [- 71, - 84, - 110, - 32, - 19], c_has_within_ms := True, c_within_ms := 3000, c_has_count_gte := True, c_count_gte := 2 \<rparr>],
       r_conclusion := Some (''Storage device {vid}:{pid} had {count} bulk transfer errors within {window}ms; SCSI error recovery / bus reset likely. Suspect cable/power or a failing device.''),
       r_fix := Some (''Reseat/replace the cable, try a powered port/hub, and check dmesg for reset/IO errors.'') \<rparr>"

definition rule_video_frame_drops :: diag_rule where
  "rule_video_frame_drops =
     zero_rule\<lparr> r_id := Some ''video-frame-drops'',
       r_name := Some (''UVC frame drops''),
       r_severity := SEV_WARN,
       r_trigger := zero_cond\<lparr> c_has_kind := True, c_kind := USBTRACE_EVT_UVC_FRAME \<rparr>,
       r_when := [zero_cond\<lparr> c_has_kind := True, c_kind := USBTRACE_EVT_UVC_FRAME, c_match := [\<lparr> m_field = F_FRAME_ERRORED, m_value = 1, m_op = OP_EQ \<rparr>], c_has_within_ms := True, c_within_ms := 2000, c_has_count_gte := True, c_count_gte := 5 \<rparr>],
       r_conclusion := Some (''Video device {vid}:{pid} dropped/corrupted {count} frames within {window}ms; expect visible glitches or stutter.''),
       r_fix := Some (''Lower resolution/FPS, use a dedicated bus/port (avoid shared hubs), and check the cable / EMI / isoc bandwidth budget.'') \<rparr>"

definition rule_video_low_fps :: diag_rule where
  "rule_video_low_fps =
     zero_rule\<lparr> r_id := Some ''video-low-fps'',
       r_name := Some (''UVC low frame rate''),
       r_severity := SEV_WARN,
       r_trigger := zero_cond\<lparr> c_has_kind := True, c_kind := USBTRACE_EVT_UVC_FRAME \<rparr>,
       r_when := [zero_cond\<lparr> c_has_kind := True, c_kind := USBTRACE_EVT_UVC_FRAME, c_match := [\<lparr> m_field = F_FRAME_INTERVAL, m_value = 66000000, m_op = OP_GTE \<rparr>], c_has_within_ms := True, c_within_ms := 3000, c_has_count_gte := True, c_count_gte := 10 \<rparr>],
       r_conclusion := Some (''Video device {vid}:{pid} delivered {count} frames slower than ~15fps within {window}ms; bandwidth or format-negotiation issue.''),
       r_fix := Some (''Check the negotiated format/frame interval, the isoc bandwidth budget, and contention from other devices on the same bus.'') \<rparr>"

definition rule_video_vb2_drops :: diag_rule where
  "rule_video_vb2_drops =
     zero_rule\<lparr> r_id := Some ''video-vb2-drops'',
       r_name := Some (''UVC vb2 sequence gaps''),
       r_severity := SEV_WARN,
       r_trigger := zero_cond\<lparr> c_has_kind := True, c_kind := USBTRACE_EVT_UVC_VB2 \<rparr>,
       r_when := [zero_cond\<lparr> c_has_kind := True, c_kind := USBTRACE_EVT_UVC_VB2, c_match := [\<lparr> m_field = F_VB2_SEQ_GAP, m_value = 1, m_op = OP_EQ \<rparr>], c_has_within_ms := True, c_within_ms := 3000, c_has_count_gte := True, c_count_gte := 3 \<rparr>],
       r_conclusion := Some (''Video device {vid}:{pid} saw {count} vb2 sequence gap(s) within {window}ms; USB wire may be fine '' @ [CHR 0xE2, CHR 0x80, CHR 0x94] @ '' suspect driver queue or host scheduling.''),
       r_fix := Some (''Check buffer count in the capturing app, CPU load, and whether other processes hold vb2 buffers.'') \<rparr>"

definition rule_video_wire_ok_vb2_drops :: diag_rule where
  "rule_video_wire_ok_vb2_drops =
     zero_rule\<lparr> r_id := Some ''video-wire-ok-vb2-drops'',
       r_name := Some (''USB OK but vb2 dropping''),
       r_severity := SEV_WARN,
       r_trigger := zero_cond\<lparr> c_has_kind := True, c_kind := USBTRACE_EVT_UVC_VB2 \<rparr>,
       r_when := [zero_cond\<lparr> c_has_kind := True, c_kind := USBTRACE_EVT_UVC_FRAME, c_match := [\<lparr> m_field = F_FRAME_ERRORED, m_value = 1, m_op = OP_NE \<rparr>], c_has_within_ms := True, c_within_ms := 3000, c_has_count_gte := True, c_count_gte := 10 \<rparr>,
         zero_cond\<lparr> c_has_kind := True, c_kind := USBTRACE_EVT_UVC_VB2, c_match := [\<lparr> m_field = F_VB2_SEQ_GAP, m_value = 1, m_op = OP_EQ \<rparr>], c_has_within_ms := True, c_within_ms := 3000, c_has_count_gte := True, c_count_gte := 3 \<rparr>],
       r_conclusion := Some (''Device {vid}:{pid}: USB wire frames look clean within {window}ms but vb2 sequence gaps detected '' @ [CHR 0xE2, CHR 0x80, CHR 0x94] @ '' not a USB/cable issue.''),
       r_fix := Some (''Raise vb2 buffer count, reduce CPU contention, and check whether userspace is slow to dequeue buffers.'') \<rparr>"

definition rule_video_vb2_starved :: diag_rule where
  "rule_video_vb2_starved =
     zero_rule\<lparr> r_id := Some ''video-vb2-starved'',
       r_name := Some (''UVC vb2 buffer starvation''),
       r_severity := SEV_WARN,
       r_trigger := zero_cond\<lparr> c_has_kind := True, c_kind := USBTRACE_EVT_UVC_VB2 \<rparr>,
       r_when := [zero_cond\<lparr> c_has_kind := True, c_kind := USBTRACE_EVT_UVC_VB2, c_match := [\<lparr> m_field = F_VB2_STARVED, m_value = 1, m_op = OP_EQ \<rparr>], c_has_within_ms := True, c_within_ms := 3000, c_has_count_gte := True, c_count_gte := 3 \<rparr>],
       r_conclusion := Some (''Video device {vid}:{pid}: wire frames arrived {count} times with no vb2 queued buffer within {window}ms '' @ [CHR 0xE2, CHR 0x80, CHR 0x94] @ '' app likely slow to QBUF.''),
       r_fix := Some (''Increase buffer count in the capturing app; check DQBUF'' @ [CHR 0xE2, CHR 0x86, CHR 0x92] @ ''QBUF latency and CPU load.'') \<rparr>"

definition rule_enum_power_cycle :: diag_rule where
  "rule_enum_power_cycle =
     zero_rule\<lparr> r_id := Some ''enum-power-cycle'',
       r_name := Some (''GET_DESCRIPTOR failures then port power-off''),
       r_severity := SEV_ERROR,
       r_trigger := zero_cond\<lparr> c_has_kind := True, c_kind := USBTRACE_EVT_HUB, c_match := [\<lparr> m_field = F_ACTION, m_value = 2, m_op = OP_EQ \<rparr>] \<rparr>,
       r_when := [zero_cond\<lparr> c_has_kind := True, c_kind := USBTRACE_EVT_ENUM, c_match := [\<lparr> m_field = F_STEP, m_value = 1, m_op = OP_EQ \<rparr>], c_status_in := [- 71], c_has_within_ms := True, c_within_ms := 3000, c_has_count_gte := True, c_count_gte := 2 \<rparr>],
       r_conclusion := Some (''Device {vid}:{pid} (bus{bus}-dev{dev}) hit {count} GET_DESCRIPTOR EPROTO (-71) then the hub powered the port off; enumeration is retrying via a VBUS cycle.''),
       r_fix := Some (''Check the cable/connector and port power budget; try another port.'') \<rparr>"

definition rule_reset_resume_disconnect :: diag_rule where
  "rule_reset_resume_disconnect =
     zero_rule\<lparr> r_id := Some ''reset-resume-disconnect'',
       r_name := Some (''reset_resume then disconnect''),
       r_severity := SEV_ERROR,
       r_trigger := zero_cond\<lparr> c_has_kind := True, c_kind := USBTRACE_EVT_LIFECYCLE, c_match := [\<lparr> m_field = F_ACTION, m_value = 1, m_op = OP_EQ \<rparr>] \<rparr>,
       r_when := [zero_cond\<lparr> c_has_kind := True, c_kind := USBTRACE_EVT_LIFECYCLE, c_match := [\<lparr> m_field = F_ACTION, m_value = 2, m_op = OP_EQ \<rparr>, \<lparr> m_field = F_RESET_RESUME, m_value = 1, m_op = OP_EQ \<rparr>], c_has_within_ms := True, c_within_ms := 2000, c_has_count_gte := True, c_count_gte := 1 \<rparr>],
       r_conclusion := Some (''Device {vid}:{pid} disconnected within {window}ms of a reset_resume reset; the resume-time re-verify failed.''),
       r_fix := Some (''Check whether the device survives system/runtime resume; look for a VBUS drop or a missing reset_resume quirk.'') \<rparr>"

definition rule_reset_storm :: diag_rule where
  "rule_reset_storm =
     zero_rule\<lparr> r_id := Some ''reset-storm'',
       r_name := Some (''usb_reset_device storm''),
       r_severity := SEV_WARN,
       r_trigger := zero_cond\<lparr> c_has_kind := True, c_kind := USBTRACE_EVT_LIFECYCLE, c_match := [\<lparr> m_field = F_ACTION, m_value = 2, m_op = OP_EQ \<rparr>] \<rparr>,
       r_when := [zero_cond\<lparr> c_has_kind := True, c_kind := USBTRACE_EVT_LIFECYCLE, c_match := [\<lparr> m_field = F_ACTION, m_value = 2, m_op = OP_EQ \<rparr>], c_has_within_ms := True, c_within_ms := 5000, c_has_count_gte := True, c_count_gte := 4, c_has_cluster_ms := True, c_cluster_ms := 50 \<rparr>],
       r_conclusion := Some (''Device {vid}:{pid} was reset {count} times within {window}ms; error recovery is looping.''),
       r_fix := Some (''Check dmesg for who is calling usb_reset_device, then inspect cable/power before blaming the HCD.'') \<rparr>"

definition rule_set_interface_nospc :: diag_rule where
  "rule_set_interface_nospc =
     zero_rule\<lparr> r_id := Some ''set-interface-nospc'',
       r_name := Some (''SET_INTERFACE failed with ENOSPC''),
       r_severity := SEV_ERROR,
       r_trigger := zero_cond\<lparr> c_has_kind := True, c_kind := USBTRACE_EVT_URB, c_match := [\<lparr> m_field = F_BREQUEST, m_value = 11, m_op = OP_EQ \<rparr>, \<lparr> m_field = F_IS_SUBMIT, m_value = 0, m_op = OP_EQ \<rparr>] \<rparr>,
       r_when := [zero_cond\<lparr> c_has_kind := True, c_kind := USBTRACE_EVT_URB, c_match := [\<lparr> m_field = F_BREQUEST, m_value = 11, m_op = OP_EQ \<rparr>, \<lparr> m_field = F_IS_SUBMIT, m_value = 0, m_op = OP_EQ \<rparr>], c_status_in := [- 28], c_has_within_ms := True, c_within_ms := 2000, c_has_count_gte := True, c_count_gte := 1 \<rparr>],
       r_conclusion := Some (''Device {vid}:{pid} SET_INTERFACE returned -ENOSPC ({count} time(s) in {window}ms); the host could not reserve periodic bandwidth for the altsetting.''),
       r_fix := Some (''Lower the altsetting bandwidth, unplug other isoc/interrupt devices on the same bus, or move this device to another controller port.'') \<rparr>"

definition rule_port_overcurrent :: diag_rule where
  "rule_port_overcurrent =
     zero_rule\<lparr> r_id := Some ''port-overcurrent'',
       r_name := Some (''Hub port overcurrent''),
       r_severity := SEV_ERROR,
       r_trigger := zero_cond\<lparr> c_has_kind := True, c_kind := USBTRACE_EVT_HUB, c_match := [\<lparr> m_field = F_ACTION, m_value = 4, m_op = OP_EQ \<rparr>] \<rparr>,
       r_conclusion := Some (''Device {vid}:{pid} (bus{bus}-dev{dev}) saw a hub port overcurrent; VBUS was likely shut off.''),
       r_fix := Some (''Unplug other devices on that hub, check the cable/device for a short, and use a powered hub if the port budget is too small.'') \<rparr>"

definition builtin_rules :: "diag_rule list" where
  "builtin_rules =
     [rule_disconnect_after_errors,
      rule_autosuspend_mid_transfer,
      rule_resume_storm,
      rule_enum_stall,
      rule_video_isoc_errors,
      rule_audio_isoc_errors,
      rule_storage_transfer_errors,
      rule_video_frame_drops,
      rule_video_low_fps,
      rule_video_vb2_drops,
      rule_video_wire_ok_vb2_drops,
      rule_video_vb2_starved,
      rule_enum_power_cycle,
      rule_reset_resume_disconnect,
      rule_reset_storm,
      rule_set_interface_nospc,
      rule_port_overcurrent]"

section \<open>The loader on them\<close>

lemma load_disconnect_after_errors: "tree_rule yaml_disconnect_after_errors = Inr rule_disconnect_after_errors"
  by code_simp

lemma load_autosuspend_mid_transfer: "tree_rule yaml_autosuspend_mid_transfer = Inr rule_autosuspend_mid_transfer"
  by code_simp

lemma load_resume_storm: "tree_rule yaml_resume_storm = Inr rule_resume_storm"
  by code_simp

lemma load_enum_stall: "tree_rule yaml_enum_stall = Inr rule_enum_stall"
  by code_simp

lemma load_video_isoc_errors: "tree_rule yaml_video_isoc_errors = Inr rule_video_isoc_errors"
  by code_simp

lemma load_audio_isoc_errors: "tree_rule yaml_audio_isoc_errors = Inr rule_audio_isoc_errors"
  by code_simp

lemma load_storage_transfer_errors: "tree_rule yaml_storage_transfer_errors = Inr rule_storage_transfer_errors"
  by code_simp

lemma load_video_frame_drops: "tree_rule yaml_video_frame_drops = Inr rule_video_frame_drops"
  by code_simp

text \<open>The evaluation of the threshold 66000000 is kept away from the unary naturals of the code equations.\<close>

lemma resolve_numbers:
  "resolve_value ''66000000'' = Some 66000000" "strtol ''3000'' = (3000, [], False)" "strtol ''10'' = (10, [], False)"
  by (simp_all add: resolve_value_def strtol_def read_sign_def read_magnitude_def is_space_def is_digit_def digit_val_def
      Let_def LONG_MAX_def LONG_MIN_def)

lemma resolve_uvc_frame: "resolve_value ''uvc_frame'' = Some 6"
  using symbols_unambiguous by (simp add: kind_syms_def ut_const)

lemma load_video_low_fps: "tree_rule yaml_video_low_fps = Inr rule_video_low_fps"
  by (simp add: tree_rule_def yaml_video_low_fps_def rule_video_low_fps_def tree_get_def tree_str_def cstr_def Let_def
      tree_trigger_def tree_when_def tree_numbers_def tree_number_def add_match_def op_prefix_def field_syms_def
      resolve_numbers resolve_uvc_frame parse_severity_def zero_rule_def zero_cond_def DIAG_MAX_MATCH_def DIAG_MAX_WHEN_def ut_const)

lemma load_video_vb2_drops: "tree_rule yaml_video_vb2_drops = Inr rule_video_vb2_drops"
  by code_simp

lemma load_video_wire_ok_vb2_drops: "tree_rule yaml_video_wire_ok_vb2_drops = Inr rule_video_wire_ok_vb2_drops"
  by code_simp

lemma load_video_vb2_starved: "tree_rule yaml_video_vb2_starved = Inr rule_video_vb2_starved"
  by code_simp

lemma load_enum_power_cycle: "tree_rule yaml_enum_power_cycle = Inr rule_enum_power_cycle"
  by code_simp

lemma load_reset_resume_disconnect: "tree_rule yaml_reset_resume_disconnect = Inr rule_reset_resume_disconnect"
  by code_simp

lemma load_reset_storm: "tree_rule yaml_reset_storm = Inr rule_reset_storm"
  by code_simp

lemma load_set_interface_nospc: "tree_rule yaml_set_interface_nospc = Inr rule_set_interface_nospc"
  by code_simp

lemma load_port_overcurrent: "tree_rule yaml_port_overcurrent = Inr rule_port_overcurrent"
  by code_simp

lemmas load_each = load_disconnect_after_errors
  load_autosuspend_mid_transfer
  load_resume_storm
  load_enum_stall
  load_video_isoc_errors
  load_audio_isoc_errors
  load_storage_transfer_errors
  load_video_frame_drops
  load_video_low_fps
  load_video_vb2_drops
  load_video_wire_ok_vb2_drops
  load_video_vb2_starved
  load_enum_power_cycle
  load_reset_resume_disconnect
  load_reset_storm
  load_set_interface_nospc
  load_port_overcurrent

lemma tree_rules_all:
  "list_all2 (\<lambda>t r. tree_rule t = Inr r) ts rs \<Longrightarrow> length ts \<le> n \<Longrightarrow> tree_rules n ts = Inr rs"
proof (induction ts rs arbitrary: n rule: list_all2_induct)
  case (Cons t ts r rs)
  then show ?case by (cases n) simp_all
qed simp

lemma load_builtin: "tree_load rules_yaml = Inr builtin_rules"
proof -
  have "tree_get rules_yaml ''rules'' = Some (YSeq
     [yaml_disconnect_after_errors,
      yaml_autosuspend_mid_transfer,
      yaml_resume_storm,
      yaml_enum_stall,
      yaml_video_isoc_errors,
      yaml_audio_isoc_errors,
      yaml_storage_transfer_errors,
      yaml_video_frame_drops,
      yaml_video_low_fps,
      yaml_video_vb2_drops,
      yaml_video_wire_ok_vb2_drops,
      yaml_video_vb2_starved,
      yaml_enum_power_cycle,
      yaml_reset_resume_disconnect,
      yaml_reset_storm,
      yaml_set_interface_nospc,
      yaml_port_overcurrent])"
    by (simp add: rules_yaml_def tree_get_def cstr_def)
  then show ?thesis
    by (simp add: tree_load_def DIAG_MAX_RULES_def builtin_rules_def load_each tree_rules_all)
qed

end
