(* ===== verification/Builtin_Props.thy ===== *)
theory Builtin_Props
  imports Builtin_Rules Diag_Props Record_Types
begin

text \<open>
  What the embedded rules say and what the engine makes of them: the rule set is what the loader reads from the embedded
  document; each event rule, stated over the members of events and the constants of the BPF programs, reports exactly when
  its statement holds; and the texts of the findings are complete.
\<close>

section \<open>The statements of the rules\<close>

text \<open>A condition in plain terms: how far to look back, the distance within which events are one episode, how many are
  needed, and which events count.\<close>

type_synonym plain_when = "u64 \<times> u64 \<times> nat \<times> (diag_event \<Rightarrow> bool)"

definition plain_count :: "u64 \<Rightarrow> u64 \<Rightarrow> (diag_event \<Rightarrow> bool) \<Rightarrow> u64 \<Rightarrow> diag_event list \<Rightarrow> nat" where
  "plain_count within apart P ref_ns evs =
     (let hits = filter (\<lambda>x. ev_ts_ns x \<le> ref_ns \<and> ref_ns - ev_ts_ns x \<le> within \<and> P x) evs
      in length (if apart = 0 then hits else cluster_heads apart None hits))"

text \<open>EPROTO, EILSEQ, ETIMEDOUT, EPIPE, ENODEV.\<close>

definition link_error :: "diag_event \<Rightarrow> bool" where
  "link_error x \<longleftrightarrow> sint (ev_status x) \<in> {-71, -84, -110, -32, -19}"

definition is_lifecycle :: "u8 \<Rightarrow> diag_event \<Rightarrow> bool" where
  "is_lifecycle a x \<longleftrightarrow> ev_kind x = USBTRACE_EVT_LIFECYCLE \<and> ev_action x = a"

definition is_power :: "u8 \<Rightarrow> diag_event \<Rightarrow> bool" where
  "is_power a x \<longleftrightarrow> ev_kind x = USBTRACE_EVT_POWER \<and> ev_action x = a"

definition is_hub :: "u8 \<Rightarrow> diag_event \<Rightarrow> bool" where
  "is_hub a x \<longleftrightarrow> ev_kind x = USBTRACE_EVT_HUB \<and> ev_action x = a"

definition is_class :: "u8 \<Rightarrow> diag_event \<Rightarrow> bool" where
  "is_class k x \<longleftrightarrow> ev_kind x = USBTRACE_EVT_CLASS \<and> ev_cls x = k"

definition is_set_interface :: "diag_event \<Rightarrow> bool" where
  "is_set_interface x \<longleftrightarrow>
     ev_kind x = USBTRACE_EVT_URB \<and> ev_has_setup x \<noteq> 0 \<and> ev_brequest x = 11 \<and> ev_is_submit x = 0"

definition plain_rules :: "(string \<times> (diag_event \<Rightarrow> bool) \<times> plain_when list) list" where
  "plain_rules =
     [(''disconnect-after-errors'', is_lifecycle LIFECYCLE_DISCONNECT,
       [(2000000000, 0, 3, \<lambda>x. ev_kind x = USBTRACE_EVT_URB \<and> ev_is_submit x = 0 \<and> link_error x)]),
      (''autosuspend-mid-transfer'', is_power POWER_AUTOSUSPEND,
       [(200000000, 0, 2, \<lambda>x. ev_kind x = USBTRACE_EVT_URB \<and> ev_xfer_type x \<noteq> USBTRACE_XFER_CONTROL)]),
      (''resume-storm'', is_power POWER_AUTORESUME, [(5000000000, 50000000, 5, is_power POWER_AUTORESUME)]),
      (''enum-stall'', \<lambda>_. False, []),
      (''video-isoc-errors'', is_class Uvc_Frames.USBTRACE_CLASS_VIDEO,
       [(1000000000, 0, 5, \<lambda>x. is_class Uvc_Frames.USBTRACE_CLASS_VIDEO x \<and> ev_error_count x \<noteq> 0)]),
      (''audio-isoc-errors'', is_class USBTRACE_CLASS_AUDIO,
       [(1000000000, 0, 5, \<lambda>x. is_class USBTRACE_CLASS_AUDIO x \<and> ev_error_count x \<noteq> 0)]),
      (''storage-transfer-errors'', is_class USBTRACE_CLASS_STORAGE,
       [(3000000000, 0, 2, \<lambda>x. is_class USBTRACE_CLASS_STORAGE x \<and> link_error x)]),
      (''video-frame-drops'', \<lambda>x. ev_kind x = USBTRACE_EVT_UVC_FRAME,
       [(2000000000, 0, 5, \<lambda>x. ev_kind x = USBTRACE_EVT_UVC_FRAME \<and> ev_frame_errored x = 1)]),
      (''video-low-fps'', \<lambda>x. ev_kind x = USBTRACE_EVT_UVC_FRAME,
       [(3000000000, 0, 10, \<lambda>x. ev_kind x = USBTRACE_EVT_UVC_FRAME \<and> 66000000 \<le> ev_frame_interval_ns x)]),
      (''video-vb2-drops'', \<lambda>x. ev_kind x = USBTRACE_EVT_UVC_VB2,
       [(3000000000, 0, 3, \<lambda>x. ev_kind x = USBTRACE_EVT_UVC_VB2 \<and> ev_vb2_seq_gap x = 1)]),
      (''video-wire-ok-vb2-drops'', \<lambda>x. ev_kind x = USBTRACE_EVT_UVC_VB2,
       [(3000000000, 0, 10, \<lambda>x. ev_kind x = USBTRACE_EVT_UVC_FRAME \<and> ev_frame_errored x \<noteq> 1),
        (3000000000, 0, 3, \<lambda>x. ev_kind x = USBTRACE_EVT_UVC_VB2 \<and> ev_vb2_seq_gap x = 1)]),
      (''video-vb2-starved'', \<lambda>x. ev_kind x = USBTRACE_EVT_UVC_VB2,
       [(3000000000, 0, 3, \<lambda>x. ev_kind x = USBTRACE_EVT_UVC_VB2 \<and> ev_vb2_starved x = 1)]),
      (''enum-power-cycle'', is_hub HUB_POWER_OFF,
       [(3000000000, 0, 2, \<lambda>x. ev_kind x = USBTRACE_EVT_ENUM \<and> ev_step x = ENUM_STEP_GET_DESC \<and> sint (ev_status x) = - 71)]),
      (''reset-resume-disconnect'', is_lifecycle LIFECYCLE_DISCONNECT,
       [(2000000000, 0, 1, \<lambda>x. is_lifecycle LIFECYCLE_RESET x \<and> ev_reset_resume x = 1)]),
      (''reset-storm'', is_lifecycle LIFECYCLE_RESET, [(5000000000, 50000000, 4, is_lifecycle LIFECYCLE_RESET)]),
      (''set-interface-nospc'', is_set_interface,
       [(2000000000, 0, 1, \<lambda>x. is_set_interface x \<and> sint (ev_status x) = - 28)]),
      (''port-overcurrent'', is_hub HUB_OVERCURRENT, [])]"

section \<open>The rules say it\<close>

fun when_plain :: "diag_cond \<Rightarrow> plain_when \<Rightarrow> bool" where
  "when_plain c (within, apart, n, P) \<longleftrightarrow>
     \<not> c_has_min_span_ms c \<and> c_has_within_ms c \<and> ms_to_ns (c_within_ms c) = within \<and> cluster_ns c = apart
     \<and> cond_need c = int n \<and> (\<forall>x. cond_event_pred c x = P x)"

fun rule_plain :: "diag_rule \<Rightarrow> string \<times> (diag_event \<Rightarrow> bool) \<times> plain_when list \<Rightarrow> bool" where
  "rule_plain r (rid, trig, ws) \<longleftrightarrow>
     r_id r = Some rid \<and> (\<forall>x. (r_type r = RULE_EVENT \<and> trigger_match (r_trigger r) x) = trig x)
     \<and> list_all2 when_plain (r_when r) ws"

lemma when_plain_count:
  assumes "when_plain c (within, apart, n, P)"
  shows "cond_need c \<le> cond_value c ref_ns evs \<longleftrightarrow> n \<le> plain_count within apart P ref_ns evs"
proof -
  have "cond_hits c ref_ns evs = filter (\<lambda>x. ev_ts_ns x \<le> ref_ns \<and> ref_ns - ev_ts_ns x \<le> within \<and> P x) evs"
    unfolding cond_hits_def by (rule filter_cong) (use assms in \<open>auto simp: cond_hit_def\<close>)
  then show ?thesis using assms by (auto simp: cond_value_def span_ok_def cond_reps_def plain_count_def Let_def)
qed

lemma uint_small:
  "uint (x :: u8) = 1 \<longleftrightarrow> x = 1" "uint (x :: u8) = 2 \<longleftrightarrow> x = 2" "uint (x :: u8) = 3 \<longleftrightarrow> x = 3" "uint (x :: u8) = 4 \<longleftrightarrow> x = 4"
  "uint (x :: u8) = 11 \<longleftrightarrow> x = 11" "66000000 \<le> uint (y :: u32) \<longleftrightarrow> 66000000 \<le> y"
  by (simp_all add: word_uint_eq_iff word_le_def)

lemma word_zero: "uint (x :: u8) = 0 \<longleftrightarrow> x = 0" "sint (z :: s32) = 0 \<longleftrightarrow> z = 0"
  by (rule unsigned_eq_0_iff, rule signed_eq_0_iff)

lemmas plain_defs = is_lifecycle_def is_power_def is_hub_def is_class_def is_set_interface_def link_error_def
  zero_rule_def zero_cond_def ms_to_ns_def cluster_ns_def cond_need_def diag_pred_iffs match_one_def uint_small word_zero
  USBTRACE_XFER_CONTROL_def

lemma plain_core:
  "rule_plain rule_disconnect_after_errors (plain_rules ! 0)" "rule_plain rule_autosuspend_mid_transfer (plain_rules ! 1)"
  "rule_plain rule_resume_storm (plain_rules ! 2)" "rule_plain rule_enum_stall (plain_rules ! 3)"
  by (auto simp: rule_disconnect_after_errors_def rule_autosuspend_mid_transfer_def rule_resume_storm_def rule_enum_stall_def
      plain_rules_def plain_defs ut_const)

lemma plain_class:
  "rule_plain rule_video_isoc_errors (plain_rules ! 4)" "rule_plain rule_audio_isoc_errors (plain_rules ! 5)"
  "rule_plain rule_storage_transfer_errors (plain_rules ! 6)"
  by (auto simp: rule_video_isoc_errors_def rule_audio_isoc_errors_def rule_storage_transfer_errors_def
      plain_rules_def plain_defs ut_const)

lemma plain_frames:
  "rule_plain rule_video_frame_drops (plain_rules ! 7)" "rule_plain rule_video_low_fps (plain_rules ! 8)"
  "rule_plain rule_video_vb2_drops (plain_rules ! 9)" "rule_plain rule_video_wire_ok_vb2_drops (plain_rules ! 10)"
  "rule_plain rule_video_vb2_starved (plain_rules ! 11)"
  by (auto simp: rule_video_frame_drops_def rule_video_low_fps_def rule_video_vb2_drops_def rule_video_wire_ok_vb2_drops_def
      rule_video_vb2_starved_def plain_rules_def plain_defs ut_const)

lemma plain_ports:
  "rule_plain rule_enum_power_cycle (plain_rules ! 12)" "rule_plain rule_reset_resume_disconnect (plain_rules ! 13)"
  "rule_plain rule_reset_storm (plain_rules ! 14)" "rule_plain rule_set_interface_nospc (plain_rules ! 15)"
  "rule_plain rule_port_overcurrent (plain_rules ! 16)"
  by (auto simp: rule_enum_power_cycle_def rule_reset_resume_disconnect_def rule_reset_storm_def rule_set_interface_nospc_def
      rule_port_overcurrent_def plain_rules_def plain_defs ut_const split: if_splits)

lemma length_builtin: "length builtin_rules = 17" "length plain_rules = 17"
  by (simp_all add: builtin_rules_def plain_rules_def)

lemma builtin_plain: "ri < 17 \<Longrightarrow> rule_plain (builtin_rules ! ri) (plain_rules ! ri)"
  using plain_core plain_class plain_frames plain_ports
  by (auto simp: builtin_rules_def numeral_eq_Suc less_Suc_eq simp del: rule_plain.simps)

text \<open>The statement of rule \<open>ri\<close> holds of an event and the newest-first list of its device's events.\<close>

definition plain_holds :: "nat \<Rightarrow> diag_event \<Rightarrow> diag_event list \<Rightarrow> bool" where
  "plain_holds ri evt evs =
     (case plain_rules ! ri of (_, trig, ws) \<Rightarrow>
        trig evt \<and> list_all (\<lambda>(within, apart, n, P). n \<le> plain_count within apart P (ev_ts_ns evt) evs) ws)"

lemma whens_plain:
  "list_all2 when_plain cs ws \<Longrightarrow>
   (\<forall>c \<in> set cs. cond_need c \<le> cond_value c ref_ns evs) \<longleftrightarrow>
   list_all (\<lambda>(within, apart, n, P). n \<le> plain_count within apart P ref_ns evs) ws"
  by (induction cs ws rule: list_all2_induct) (auto simp: when_plain_count simp del: when_plain.simps)

lemma builtin_holds:
  assumes "ri < 17"
  shows "(r_type (builtin_rules ! ri) = RULE_EVENT \<and> trigger_match (r_trigger (builtin_rules ! ri)) evt
      \<and> (\<forall>c \<in> set (r_when (builtin_rules ! ri)). cond_need c \<le> cond_value c (ev_ts_ns evt) evs)) \<longleftrightarrow> plain_holds ri evt evs"
proof -
  obtain rid trig ws where p: "plain_rules ! ri = (rid, trig, ws)" by (cases "plain_rules ! ri")
  have trig: "(r_type (builtin_rules ! ri) = RULE_EVENT \<and> trigger_match (r_trigger (builtin_rules ! ri)) evt) = trig evt"
    and ws: "list_all2 when_plain (r_when (builtin_rules ! ri)) ws"
    using builtin_plain[OF assms] by (simp_all add: p)
  show ?thesis using trig unfolding whens_plain[OF ws] by (auto simp: plain_holds_def p)
qed

section \<open>What the built-in rules report\<close>

text \<open>C12: What the built-in rules report. On any engine state in which the embedded rules are loaded, ingesting an event makes
  an event rule report exactly when its statement in plain terms holds of the event and the newest 1024 events of the device
  (which kinds of record, which members and constants of the BPF programs, how many of them and how far back), and the
  rule has not reported the device within the cooldown.\<close>

theorem builtin_rules_mean:
  assumes "eng_ok e" "g_rules e = builtin_rules" "ri < 17"
  shows "(\<exists>f \<in> set (snd (diag_engine_ingest clk evt e)). fd_rule f = ri) \<longleftrightarrow>
    plain_holds ri evt (take WIN_MAX_EVENTS (evt # dev_log e (diag_event_key evt)))
    \<and> (last_fire e (diag_event_key evt) ri = 0 \<or> COOLDOWN_NS \<le> clk ri - last_fire e (diag_event_key evt) ri)"
proof -
  have "ri < length (g_rules e)" using assms by (simp add: length_builtin)
  from ingest_fires[OF assms(1) this, of clk evt] show ?thesis
    using builtin_holds[OF assms(3), of evt] by (auto simp: assms(2))
qed

theorem builtin_rules_mean_witness:
  "\<exists>f \<in> set (snd (diag_engine_ingest (\<lambda>_. 9) (zero_event\<lparr> ev_kind := USBTRACE_EVT_HUB, ev_action := HUB_OVERCURRENT \<rparr>)
      (diag_engine_create builtin_rules))). fd_rule f = 16"
  by (subst builtin_rules_mean)
    (simp_all add: eng_ok_create plain_holds_def plain_rules_def is_hub_def last_fire_def eng_win_create)

text \<open>The rule \<open>video-wire-ok-vb2-drops\<close> looks at clean frames only: ten of them and three sequence gaps within three
  seconds are enough, however many frames of those seconds were errored.\<close>

lemma wire_ok_despite_errored_frames:
  assumes "eng_ok e" "g_rules e = builtin_rules" "last_fire e (diag_event_key evt) 10 = 0" "ev_kind evt = USBTRACE_EVT_UVC_VB2"
    and "10 \<le> plain_count 3000000000 0 (\<lambda>x. ev_kind x = USBTRACE_EVT_UVC_FRAME \<and> ev_frame_errored x \<noteq> 1) (ev_ts_ns evt)
           (take WIN_MAX_EVENTS (evt # dev_log e (diag_event_key evt)))"
    and "3 \<le> plain_count 3000000000 0 (\<lambda>x. ev_kind x = USBTRACE_EVT_UVC_VB2 \<and> ev_vb2_seq_gap x = 1) (ev_ts_ns evt)
           (take WIN_MAX_EVENTS (evt # dev_log e (diag_event_key evt)))"
  shows "\<exists>f \<in> set (snd (diag_engine_ingest clk evt e)). fd_rule f = 10"
  using builtin_holds[of 10 evt "take WIN_MAX_EVENTS (evt # dev_log e (diag_event_key evt))"]
    ingest_fires[OF assms(1), of 10 clk evt] assms(2-6)
  by (simp add: length_builtin plain_holds_def plain_rules_def)

text \<open>One data URB that was submitted and has already completed is two events of the rule \<open>autosuspend-mid-transfer\<close>.\<close>

lemma finished_transfer_counts_twice:
  assumes "ev_kind sub = USBTRACE_EVT_URB" "ev_xfer_type sub = 3" "ev_kind cmp = USBTRACE_EVT_URB" "ev_xfer_type cmp = 3"
    and "ev_is_submit sub = 1" "ev_is_submit cmp = 0" "is_power POWER_AUTOSUSPEND evt"
    and "ev_ts_ns sub \<le> ev_ts_ns evt" "ev_ts_ns evt - ev_ts_ns sub \<le> 200000000"
    and "ev_ts_ns cmp \<le> ev_ts_ns evt" "ev_ts_ns evt - ev_ts_ns cmp \<le> 200000000"
  shows "plain_holds 1 evt [evt, cmp, sub]"
  using assms by (simp add: plain_holds_def plain_rules_def plain_count_def USBTRACE_XFER_CONTROL_def is_power_def ut_const)

section \<open>Loading them\<close>

text \<open>C23: The embedded rule set is accepted and is the one stated: whichever document libyaml builds for \<open>rules.yaml\<close>, loading
  it yields exactly the seventeen rules, in the order of the file, with their triggers, conditions, deadlines and texts.\<close>

theorem builtin_rules_load:
  assumes "y_init env" "y_calloc env" "y_load env text = Inr (doc, Some root)" "stands doc (Some root) rules_yaml"
  shows "diag_rules_load_default env text n = Inr builtin_rules"
  using load_tree[OF assms, of n] by (simp add: diag_rules_load_default_def load_builtin)

theorem builtin_rules_load_witness: "diag_rules_load_default (tree_env rules_yaml) [] 256 = Inr builtin_rules"
proof -
  obtain r where r: "doc_of rules_yaml 1 = Some r" using doc_of_root by blast
  then show ?thesis using doc_of_stands[of rules_yaml]
    by (intro builtin_rules_load[of _ _ "doc_of rules_yaml" r]) (simp_all add: tree_env_def)
qed

section \<open>Their texts\<close>

definition template_keys :: "string list" where
  "template_keys = [''vid'', ''pid'', ''bus'', ''dev'', ''count'', ''window'']"

text \<open>Every brace of a text opens one of these keys.\<close>

function text_ok :: "string \<Rightarrow> bool" where
  "text_ok [] = True"
| "text_ok (c # cs) =
     (if c = CHR ''{'' then (case brace_key cs of Some key \<Rightarrow> key \<in> set template_keys \<and> text_ok (after_brace cs) | None \<Rightarrow> False)
      else text_ok cs)"
  by pat_completeness auto
termination by (relation "measure length") (auto simp: le_imp_less_Suc)

text \<open>The longest a text can become: a value has at most 63 characters.\<close>

function text_room :: "string \<Rightarrow> int" where
  "text_room [] = 0"
| "text_room (c # cs) = (if c = CHR ''{'' then 63 + text_room (after_brace cs) else 1 + text_room cs)"
  by pat_completeness auto
termination by (relation "measure length") (auto simp: le_imp_less_Suc)

lemma text_length: "text_ok p \<Longrightarrow> (\<And>key. length (val key) \<le> 63) \<Longrightarrow> int (length (expand_full val p)) \<le> text_room p"
proof (induction val p rule: expand_full.induct)
  case (2 val c cs)
  show ?case
  proof (cases "c = CHR ''{''")
    case True
    then obtain key where k: "brace_key cs = Some key" "text_ok (after_brace cs)"
      using 2(4) by (auto split: option.splits)
    show ?thesis using 2(2)[OF True k(1) k(2) 2(5)] 2(5)[of key] by (simp add: True k(1))
  next
    case False
    then show ?thesis using 2(3)[OF False _ 2(5)] 2(4) by simp
  qed
qed simp

lemma text_no_brace:
  "text_ok p \<Longrightarrow> (\<And>key. key \<in> set template_keys \<Longrightarrow> CHR ''{'' \<notin> set (val key)) \<Longrightarrow> CHR ''{'' \<notin> set (expand_full val p)"
proof (induction val p rule: expand_full.induct)
  case (2 val c cs)
  show ?case
  proof (cases "c = CHR ''{''")
    case True
    then obtain key where k: "brace_key cs = Some key" "text_ok (after_brace cs)" "key \<in> set template_keys"
      using 2(4) by (auto split: option.splits)
    show ?thesis using 2(2)[OF True k(1) k(2) 2(5)] 2(5)[OF k(3)] by (simp add: True k(1))
  next
    case False
    then show ?thesis using 2(3)[OF False _ 2(5)] 2(4) by auto
  qed
qed simp

lemma val_no_brace: "key \<in> set template_keys \<Longrightarrow> CHR ''{'' \<notin> set (expand_val w count window_ms comm key)"
proof -
  have s: "CHR ''{'' \<notin> set (show_base b n)" if "1 < b" "b \<le> 36" for b n
    using that
  proof (induction b n rule: show_base.induct)
    case (1 b n)
    have d: "digit_char k \<noteq> CHR ''{''" if "k < 36" for k
    proof -
      have "digit_char k \<in> set ''0123456789abcdefghijklmnopqrstuvwxyz''"
        unfolding digit_char_def using that by (intro nth_mem) simp
      then show ?thesis by auto
    qed
    have "n mod b < 36" using mod_less_divisor[of b n] 1(2,3) by linarith
    then show ?case using 1 d[of "n mod b"] d[of n] by (subst show_base.simps) auto
  qed
  have t: "CHR ''{'' \<notin> set (snprintf_s 64 x)" if "CHR ''{'' \<notin> set x" for x
    using that by (auto simp: snprintf_s_def dest: in_set_takeD)
  show "key \<in> set template_keys \<Longrightarrow> CHR ''{'' \<notin> set (expand_val w count window_ms comm key)"
    unfolding expand_val_def by (rule t) (auto simp: template_keys_def hex04_def show_long_def show_dec_def Let_def s)
qed

lemma text_expands:
  assumes "text_ok p" "text_room p < 512"
  shows "expand (Some p) w count window_ms comm 512 = expand_full (expand_val w count window_ms comm) p"
    and "CHR ''{'' \<notin> set (expand_full (expand_val w count window_ms comm) p)"
proof -
  have l: "length (expand_val w count window_ms comm key) \<le> 63" for key
    by (simp add: expand_val_def snprintf_s_def)
  have "length (expand_full (expand_val w count window_ms comm) p) < 512"
    using text_length[OF assms(1), of "expand_val w count window_ms comm"] l assms(2) by force
  then show "expand (Some p) w count window_ms comm 512 = expand_full (expand_val w count window_ms comm) p"
    using expand_loop_spec[of 512 "[]" "[]" 0 "expand_val w count window_ms comm" p] by (simp add: expand_def split_def)
  show "CHR ''{'' \<notin> set (expand_full (expand_val w count window_ms comm) p)"
    by (rule text_no_brace[OF assms(1) val_no_brace])
qed

definition texts_fit :: "diag_rule \<Rightarrow> bool" where
  "texts_fit r = (case (r_conclusion r, r_fix r) of
     (Some c, Some f) \<Rightarrow> text_ok c \<and> text_room c < 512 \<and> text_ok f \<and> text_room f < 512 | _ \<Rightarrow> False)"

lemma builtin_texts: "list_all texts_fit builtin_rules"
  by code_simp

text \<open>C27: The texts of the built-in rules are complete: for every rule, device, count, window and process name, the conclusion and
  the fix printed are the whole texts with every placeholder replaced, never cut by the buffers of 512 characters, and no brace
  is left in them.\<close>

theorem builtin_texts_complete:
  "list_all (\<lambda>r. case (r_conclusion r, r_fix r) of
      (Some c, Some f) \<Rightarrow>
        (let fd = print_finding ri r w ref_ns count window_ms comm ev; val = expand_val w count window_ms comm in
         fd_conclusion fd = expand_full val c \<and> fd_fix fd = expand_full val f
         \<and> CHR ''{'' \<notin> set (fd_conclusion fd) \<and> CHR ''{'' \<notin> set (fd_fix fd))
    | _ \<Rightarrow> False) builtin_rules"
  using builtin_texts
  by (auto simp: list_all_iff texts_fit_def print_finding_def Let_def text_expands split: option.splits)

end
