(* ===== verification/Builtin_Reach.thy ===== *)
theory Builtin_Reach
  imports Builtin_Props Diag_Liveness Diag_Session
begin

text \<open>
  From the records of the BPF programs to the findings of the built-in rules: what the rules see of every kind of record,
  that a rule whose statement has come true has been reported whatever the clocks and the other devices, and the paths of an
  over-current condition and of the power cycle of a port from the hook to the finding.
\<close>

section \<open>What the rules see of a record\<close>

fun event_of :: "any_rec \<Rightarrow> diag_event option" where
  "event_of (UrbR e) =
     (let o1 = zero_event\<lparr> ev_kind := USBTRACE_EVT_URB, ev_ts_ns := h_ts_ns (ue_hdr e), ev_vid := ue_vid e, ev_pid := ue_product e,
        ev_busnum := ue_busnum e, ev_devnum := ue_devnum e, ev_status := ue_status e, ev_latency_ns := ucast (ue_latency_ns e),
        ev_actual := ue_actual e, ev_length := ue_length e, ev_xfer_type := ue_xfer_type e, ev_dir_in := ue_dir_in e,
        ev_ep := ue_ep e, ev_is_submit := ue_is_submit e, ev_has_setup := ue_has_setup e, ev_comm := ue_comm e \<rparr>
      in Some (if ue_has_setup e = 0 then o1
               else o1\<lparr> ev_brequest := ue_setup e ! 1,
                        ev_wvalue := ucast (ue_setup e ! 2) OR push_bit 8 (ucast (ue_setup e ! 3)) \<rparr>))"
| "event_of (EnumR e) = Some (zero_event\<lparr> ev_kind := USBTRACE_EVT_ENUM, ev_ts_ns := h_ts_ns (ee_hdr e), ev_vid := ee_vid e,
     ev_pid := ee_product e, ev_busnum := ee_busnum e, ev_devnum := ee_devnum e, ev_speed := ee_speed e, ev_portnum := ee_portnum e,
     ev_old_state := ee_old_state e, ev_new_state := ee_new_state e, ev_step := ee_step e, ev_status := ee_status e,
     ev_devpath := ee_devpath e, ev_comm := ee_comm e \<rparr>)"
| "event_of (PowerR e) = Some (zero_event\<lparr> ev_kind := USBTRACE_EVT_POWER, ev_ts_ns := h_ts_ns (pe_hdr e), ev_vid := pe_vid e,
     ev_pid := pe_product e, ev_busnum := pe_busnum e, ev_devnum := pe_devnum e, ev_speed := pe_speed e, ev_portnum := pe_portnum e,
     ev_action := pe_action e, ev_devpath := pe_devpath e, ev_comm := pe_comm e \<rparr>)"
| "event_of (LifecycleR e) = Some (zero_event\<lparr> ev_kind := USBTRACE_EVT_LIFECYCLE, ev_ts_ns := h_ts_ns (le_hdr e), ev_vid := le_vid e,
     ev_pid := le_product e, ev_busnum := le_busnum e, ev_devnum := le_devnum e, ev_speed := le_speed e, ev_portnum := le_portnum e,
     ev_action := le_action e, ev_reset_resume := le_reset_resume e, ev_devpath := le_devpath e, ev_comm := le_comm e \<rparr>)"
| "event_of (HubR e) = Some (zero_event\<lparr> ev_kind := USBTRACE_EVT_HUB, ev_ts_ns := h_ts_ns (he_hdr e), ev_vid := he_vid e,
     ev_pid := he_product e, ev_busnum := he_busnum e, ev_devnum := he_devnum e, ev_speed := he_speed e, ev_portnum := he_portnum e,
     ev_action := he_action e, ev_devpath := he_devpath e, ev_comm := he_comm e \<rparr>)"
| "event_of (ClassR e) = Some (zero_event\<lparr> ev_kind := USBTRACE_EVT_CLASS, ev_ts_ns := h_ts_ns (ce_hdr e), ev_vid := ce_vid e,
     ev_pid := ce_product e, ev_busnum := ce_busnum e, ev_devnum := ce_devnum e, ev_status := ce_status e,
     ev_error_count := ce_error_count e, ev_actual := ce_actual_length e, ev_length := ce_actual_length e,
     ev_xfer_type := ce_xfer_type e, ev_dir_in := ce_dir_in e, ev_ep := ce_ep e, ev_cls := ce_klass e, ev_comm := ce_comm e \<rparr>)"
| "event_of (FrameR e) = Some (zero_event\<lparr> ev_kind := USBTRACE_EVT_UVC_FRAME, ev_ts_ns := h_ts_ns (fe_hdr e), ev_vid := fe_vid e,
     ev_pid := fe_product e, ev_busnum := fe_busnum e, ev_devnum := fe_devnum e, ev_ep := fe_ep e, ev_actual := fe_bytes e,
     ev_frame_bytes := fe_bytes e, ev_frame_interval_ns := fe_interval_ns e, ev_frame_errored := fe_errored e, ev_comm := fe_comm e \<rparr>)"
| "event_of (Vb2R e) = Some (zero_event\<lparr> ev_kind := USBTRACE_EVT_UVC_VB2, ev_ts_ns := h_ts_ns (ve_hdr e), ev_vid := ve_vid e,
     ev_pid := ve_product e, ev_busnum := ve_busnum e, ev_devnum := ve_devnum e, ev_actual := ve_bytesused e,
     ev_vb2_sequence := ve_sequence e, ev_vb2_bytesused := ve_bytesused e, ev_vb2_interval_ns := ve_interval_ns e,
     ev_vb2_seq_gap := ve_seq_gap e, ev_wire_to_vb2_ns := ve_wire_to_vb2_ns e, ev_vb2_op := ve_vb2_op e,
     ev_vb2_starved := ve_starved e, ev_vb2_num_buffers := ve_num_buffers e, ev_vb2_queued := ve_queued e,
     ev_vb2_drv_owned := ve_drv_owned e, ev_comm := ve_comm e \<rparr>)"
| "event_of (DrvR e) = None"

lemma normalize_rec:
  assumes "rec_ok r"
  shows "normalize_ev (rec_bytes r) = event_of r"
proof -
  have h: "dec_hdr (rec_bytes r) = rec_hdr r" using rec_bytes_hdr[of r "[]"] by simp
  have k: "h_kind (rec_hdr r) = rec_kind r" "length (rec_bytes r) = rec_sizeof r" "rec_wf r"
    using assms rec_ok_reads(1)[OF assms] by (simp_all add: rec_ok_def)
  show ?thesis
    unfolding normalize_ev_def h k Let_def using k(2,3)
    by (cases r) (simp_all add: norm_defs ut_const Let_def Diag_Normalize.USBTRACE_CLASS_VIDEO_def zero_event_def
        ue.dec_enc_append[where bs = "[]", simplified] ee.dec_enc_append[where bs = "[]", simplified]
        pe.dec_enc_append[where bs = "[]", simplified] le.dec_enc_append[where bs = "[]", simplified]
        he.dec_enc_append[where bs = "[]", simplified] ce.dec_enc_append[where bs = "[]", simplified]
        fe.dec_enc_append[where bs = "[]", simplified] ve.dec_enc_append[where bs = "[]", simplified])
qed

section \<open>A rule whose statement came true has been reported\<close>

lemma last_fire_next:
  assumes "eng_ok e" "last_fire (engine_next (Ingest clk evt) e) k ri \<noteq> 0" "ri < length (g_rules e)"
  shows "last_fire e k ri \<noteq> 0 \<or> (\<exists>f \<in> set (snd (engine_step (Ingest clk evt) e)). fd_rule f = ri \<and> fd_key f = k)"
proof (cases "k = diag_event_key evt")
  case True
  let ?w = "ingest_win evt (base_win e k)"
  have w: "eng_win (engine_next (Ingest clk evt) e) k = Some (fired_win clk evt (g_rules e) ?w)"
    using ingest_tracks[OF assms(1)] True by simp
  have out: "snd (engine_step (Ingest clk evt) e) = ingest_out clk evt (g_rules e) ?w"
    using ingest_abs[OF assms(1) True, of clk] by simp
  show ?thesis
  proof (cases "rule_fires clk evt (g_rules e ! ri) ri ?w")
    case True
    then have "rule_finding evt (g_rules e ! ri) ri ?w \<in> set (snd (engine_step (Ingest clk evt) e))"
      unfolding out set_ingest_outs using assms(3) by blast
    then show ?thesis using ingest_outs_key[OF assms(1)] \<open>k = diag_event_key evt\<close> by (metis finding_sel(1))
  next
    case False
    then have "w_last_fire_ns (fired_win clk evt (g_rules e) ?w) ri = last_fire e k ri"
      using ingest_win_base(2)[OF assms(1), of evt k ri] by (simp add: fired_win_def)
    then show ?thesis using assms(2) by (simp add: last_fire_def[of "engine_next _ _"] w)
  qed
next
  case False
  then have "eng_win e k = Some w" if "eng_win (engine_next (Ingest clk evt) e) k = Some w" for w
    by (rule ingest_other[OF assms(1) that])
  then show ?thesis using assms(2) by (auto simp: last_fire_def split: option.splits)
qed

lemma run_reported:
  "eng_ok e \<Longrightarrow> ri < length (g_rules e) \<Longrightarrow> last_fire (engine_run (ingests xs) e) k ri \<noteq> 0 \<Longrightarrow>
   last_fire e k ri \<noteq> 0 \<or> (\<exists>f \<in> set (engine_outs (ingests xs) e). fd_rule f = ri \<and> fd_key f = k)"
proof (induction xs arbitrary: e)
  case (Cons x xs)
  obtain clk evt where x: "x = (clk, evt)" by (cases x)
  have "eng_ok (engine_next (Ingest clk evt) e)" by (rule eng_ok_next[OF Cons.prems(1)])
  from Cons.IH[OF this] Cons.prems last_fire_next[OF Cons.prems(1), of clk evt k ri]
  show ?case by (auto simp: x ingests_def)
qed (simp add: ingests_def)

lemma statement_reported:
  assumes "card (keys_of xs) \<le> WIN_MAX_DEVS" "ri < 17"
    and "plain_holds ri evt (take WIN_MAX_EVENTS (rev (events_of (diag_event_key evt) (xs @ [(clk, evt)]))))"
  shows "\<exists>f \<in> set (engine_outs (ingests (xs @ [(clk, evt)])) (diag_engine_create builtin_rules)).
     fd_rule f = ri \<and> fd_key f = diag_event_key evt"
proof -
  let ?e = "engine_run (ingests xs) (diag_engine_create builtin_rules)" and ?k = "diag_event_key evt"
  have ok: "eng_ok ?e" "g_rules ?e = builtin_rules" by (simp_all add: eng_ok_run eng_ok_create)
  have outs: "engine_outs (ingests (xs @ [(clk, evt)])) (diag_engine_create builtin_rules)
      = engine_outs (ingests xs) (diag_engine_create builtin_rules) @ snd (diag_engine_ingest clk evt ?e)"
    by (simp add: ingests_def engine_outs_append)
  show ?thesis
  proof (cases "last_fire ?e ?k ri = 0")
    case True
    have "take WIN_MAX_EVENTS (evt # dev_log ?e ?k) = take WIN_MAX_EVENTS (rev (events_of ?k (xs @ [(clk, evt)])))"
      unfolding dev_log_run[OF assms(1)] by (simp add: events_of_def take_Cons' take_take WIN_MAX_EVENTS_def)
    then have "\<exists>f \<in> set (snd (diag_engine_ingest clk evt ?e)). fd_rule f = ri"
      using ingest_fires[OF ok(1), of ri clk evt] builtin_holds[OF assms(2), of evt] True assms(2,3)
      by (auto simp: ok(2) length_builtin)
    then show ?thesis using ingest_outs_key[OF ok(1), of _ clk evt] unfolding outs by auto
  next
    case False
    then show ?thesis using run_reported[of "diag_engine_create builtin_rules" ri xs ?k] assms(2) unfolding outs
      by (auto simp: eng_ok_create length_builtin last_fire_def[of "diag_engine_create _"])
  qed
qed

section \<open>The rule a finding names\<close>

lemma finding_ids_step:
  assumes "eng_ok e" "f \<in> set (snd (engine_step op e))"
  shows "fd_id f = r_id (g_rules e ! fd_rule f)"
proof (cases op)
  case (Ingest clk evt)
  then show ?thesis using assms ingest_abs[OF assms(1) refl, of clk evt]
    by (auto simp: set_ingest_outs rule_finding_def print_finding_def)
next
  case (Tick now)
  then show ?thesis using assms by (auto simp: set_tick_outs dl_finding_def print_finding_def)
qed

lemma finding_ids:
  "f \<in> set (engine_outs ops (diag_engine_create rules)) \<Longrightarrow> fd_id f = r_id (rules ! fd_rule f)"
proof -
  have "eng_ok e \<Longrightarrow> f \<in> set (engine_outs ops e) \<Longrightarrow> fd_id f = r_id (g_rules e ! fd_rule f)" for e
  proof (induction ops arbitrary: e)
    case (Cons op ops)
    then show ?case using finding_ids_step[of e f op] Cons.IH[OF eng_ok_next[of e op]] by auto
  qed simp
  from this[OF eng_ok_create] show "f \<in> set (engine_outs ops (diag_engine_create rules)) \<Longrightarrow> fd_id f = r_id (rules ! fd_rule f)"
    by simp
qed

section \<open>An over-current condition\<close>

lemma on_overcurrent_out:
  assumes "port = USBTRACE_KPTR (en_arch32 en) a" "child = USBTRACE_KPTR (en_arch32 en) (px_port_child en port)"
  shows "on_overcurrent cfg en a = (if port = 0 \<or> child = 0 then []
    else emit_dev cfg en child (ucast (px_port_portnum en port)) HUB_OVERCURRENT 0 (px_port_over_current_count en port))"
  by (simp add: on_overcurrent_def assms Let_def)

text \<open>The header comment of the hub program promises the hub itself for an empty port; this hook submits nothing.\<close>

lemma empty_port_overcurrent_lost:
  "px_port_child en (USBTRACE_KPTR (en_arch32 en) a) = 0 \<Longrightarrow> on_overcurrent cfg en a = []"
  by (simp add: on_overcurrent_def USBTRACE_KPTR_def USBTRACE_PTR_KEY_def Let_def)

text \<open>C9: From an over-current condition to the user: when the kernel reports it for a port with a device that passes the filter, the
  hub program submits one record, and after any history of events of at most 128 devices the delivery of its bytes leaves
  a finding of the built-in rule \<open>port-overcurrent\<close> for the device on that port, whatever the clocks.\<close>

theorem overcurrent_reaches_user:
  assumes "kernel_sizes en" "port = USBTRACE_KPTR (en_arch32 en) a" "port \<noteq> 0"
    and "child = USBTRACE_KPTR (en_arch32 en) (px_port_child en port)" "child \<noteq> 0"
    and "usbtrace_dev_match (en_usb_device en child) (df_filter_vid cfg) (df_filter_pid cfg) \<noteq> None"
    and "card (keys_of xs) \<le> WIN_MAX_DEVS"
  shows "\<exists>r ev. on_overcurrent cfg en a = [r] \<and> normalize_ev (rec_bytes (HubR r)) = Some ev
    \<and> (\<exists>f \<in> set (engine_outs (ingests (xs @ [(clk, ev)])) (diag_engine_create builtin_rules)).
         fd_rule f = 16 \<and> fd_id f = Some ''port-overcurrent''
         \<and> fd_key f = \<lparr> key_busnum = ucast (ud_busnum (en_usb_device en child)),
                        key_devnum = ucast (ud_devnum (en_usb_device en child)) \<rparr>)"
proof -
  have c: "USBTRACE_KPTR (en_arch32 en) child = child"
    unfolding assms(4) using kptr_idem by (simp add: USBTRACE_KPTR_def)
  obtain v p where vp: "usbtrace_dev_match (en_usb_device en child) (df_filter_vid cfg) (df_filter_pid cfg) = Some (v, p)"
    using assms(6) by auto
  obtain r where r: "on_overcurrent cfg en a = [r]" "he_action r = HUB_OVERCURRENT"
    "he_busnum r = ucast (ud_busnum (en_usb_device en child))" "he_devnum r = ucast (ud_devnum (en_usb_device en child))"
    unfolding on_overcurrent_out[OF assms(2,4)] using assms(3,5) vp by (simp add: emit_dev_def c Let_def)
  have "rec_ok (HubR r)"
    using hub_ok[OF assms(1), of cfg child "ucast (px_port_portnum en port)" HUB_OVERCURRENT 0 "px_port_over_current_count en port"]
      r(1) assms(3,5) unfolding on_overcurrent_out[OF assms(2,4)] by simp
  then have n: "normalize_ev (rec_bytes (HubR r)) = event_of (HubR r)" by (rule normalize_rec)
  then obtain ev where ev: "normalize_ev (rec_bytes (HubR r)) = Some ev" "is_hub HUB_OVERCURRENT ev"
    "diag_event_key ev = \<lparr> key_busnum = he_busnum r, key_devnum = he_devnum r \<rparr>"
    by (simp add: is_hub_def r(2) diag_event_key_def)
  have "plain_holds 16 ev evs" for evs by (simp add: plain_holds_def plain_rules_def ev(2))
  from statement_reported[OF assms(7) _ this, of clk] obtain f where f:
    "f \<in> set (engine_outs (ingests (xs @ [(clk, ev)])) (diag_engine_create builtin_rules))" "fd_rule f = 16" "fd_key f = diag_event_key ev"
    by auto
  have "fd_id f = r_id (builtin_rules ! 16)"
    using finding_ids[OF f(1)] f(2) by simp
  then have "fd_id f = Some ''port-overcurrent''" by (simp add: builtin_rules_def rule_port_overcurrent_def)
  then show ?thesis using r ev f by (intro exI[of _ r] exI[of _ ev] conjI bexI[of _ f]) simp_all
qed

definition port_env :: dev_env where
  "port_env =
     \<lparr> en_arch32 = False, en_ktime = 5000, en_pid_tgid = 0, en_comm = replicate 16 0, en_room = (\<lambda>_ _. True),
       en_usb_device = (\<lambda>_. \<lparr> ud_id_vendor = 0x046d, ud_id_product = 0x0825, ud_busnum = 1, ud_devnum = 4, ud_state = 7,
          ud_speed = 3, ud_portnum = 2, ud_reset_resume = 0, ud_devpath = replicate 16 0 \<rparr>),
       en_urb = (\<lambda>_. \<lparr> urb_dev = 0, urb_pipe = 0, urb_status = 0, urb_error_count = 0, urb_number_of_packets = 0,
          urb_actual_length = 0, urb_transfer_buffer_length = 0, urb_start_frame = 0, urb_transfer_buffer = 0,
          urb_setup_packet = 0, urb_iso_frame_desc = (\<lambda>_. None) \<rparr>),
       en_probe_read = (\<lambda>_ _. None), px_read_kptr = (\<lambda>_. 0), px_hub_ports = (\<lambda>_. 0), px_hub_hdev = (\<lambda>_. 0),
       px_port_child = (\<lambda>_. 0x7000), px_port_portnum = (\<lambda>_. 2), px_port_over_current_count = (\<lambda>_. 1) \<rparr>"

theorem overcurrent_reaches_user_witness:
  "\<exists>r ev. on_overcurrent \<lparr> df_filter_vid = 0x046d, df_filter_pid = 0 \<rparr> port_env 0x9000 = [r]
     \<and> (\<exists>f \<in> set (engine_outs (ingests [(\<lambda>_. 9, ev)]) (diag_engine_create builtin_rules)).
          fd_id f = Some ''port-overcurrent'' \<and> fd_key f = \<lparr> key_busnum = 1, key_devnum = 4 \<rparr>)"
proof -
  have k: "USBTRACE_KPTR (en_arch32 port_env) p = p" for p
    by (simp add: port_env_def USBTRACE_KPTR_def USBTRACE_PTR_KEY_def)
  have s: "kernel_sizes port_env" by (simp add: kernel_sizes_def port_env_def)
  have m: "usbtrace_dev_match (en_usb_device port_env p) 0x046d 0 \<noteq> None" for p
    by (simp add: port_env_def usbtrace_dev_match_def)
  have c: "px_port_child port_env p = 0x7000" for p by (simp add: port_env_def)
  have d: "ucast (ud_busnum (en_usb_device port_env p)) = (1 :: u16)" "ucast (ud_devnum (en_usb_device port_env p)) = (4 :: u16)"
    for p by (simp_all add: port_env_def)
  have x: "card (keys_of []) \<le> WIN_MAX_DEVS" by (simp add: keys_of_def)
  show ?thesis
    using overcurrent_reaches_user[OF s, of "0x9000" "0x9000" "0x7000" "\<lparr> df_filter_vid = 0x046d, df_filter_pid = 0 \<rparr>" "[]" "\<lambda>_. 9"] m x
    unfolding k c d by auto
qed

section \<open>A power cycle of a port\<close>

text \<open>While the kernel retries an enumeration the port has no child yet: the power-off is then a record of the hub, and the
  failed \<open>GET_DESCRIPTOR\<close> calls of the new device are not in the hub's window, so the rule \<open>enum-power-cycle\<close> is silent.\<close>

lemma power_off_names_hub:
  assumes "on_set_port_power cfg en hdev hub port1 0 = [r]" "hub_child en (USBTRACE_KPTR (en_arch32 en) hub) (ucast port1) = 0"
  shows "he_busnum r = ucast (ud_busnum (en_usb_device en (USBTRACE_KPTR (en_arch32 en) hdev)))"
    "he_devnum r = ucast (ud_devnum (en_usb_device en (USBTRACE_KPTR (en_arch32 en) hdev)))"
proof -
  have k: "USBTRACE_KPTR b (USBTRACE_KPTR b x) = USBTRACE_KPTR b x" for b x
    using kptr_idem(1)[of b x] by (simp add: USBTRACE_KPTR_def)
  show "he_busnum r = ucast (ud_busnum (en_usb_device en (USBTRACE_KPTR (en_arch32 en) hdev)))"
    "he_devnum r = ucast (ud_devnum (en_usb_device en (USBTRACE_KPTR (en_arch32 en) hdev)))"
    using assms by (auto simp: on_set_port_power_def emit_dev_def k Let_def split: if_splits option.splits)
qed

lemma power_cycle_of_empty_port_unseen:
  assumes "on_set_port_power cfg en hdev hub port1 0 = [r]" "hub_child en (USBTRACE_KPTR (en_arch32 en) hub) (ucast port1) = 0"
    and "rec_ok (HubR r)" "normalize_ev (rec_bytes (HubR r)) = Some ev" "card (keys_of xs) \<le> WIN_MAX_DEVS"
    and "\<And>x. x \<in> snd ` set xs \<Longrightarrow> ev_kind x = USBTRACE_EVT_ENUM \<Longrightarrow> diag_event_key x \<noteq>
      \<lparr> key_busnum = ucast (ud_busnum (en_usb_device en (USBTRACE_KPTR (en_arch32 en) hdev))),
        key_devnum = ucast (ud_devnum (en_usb_device en (USBTRACE_KPTR (en_arch32 en) hdev))) \<rparr>"
  shows "\<not> (\<exists>f \<in> set (snd (diag_engine_ingest clk ev (engine_run (ingests xs) (diag_engine_create builtin_rules)))). fd_rule f = 12)"
proof -
  let ?e = "engine_run (ingests xs) (diag_engine_create builtin_rules)" and ?k = "diag_event_key ev"
  have ok: "eng_ok ?e" "g_rules ?e = builtin_rules" by (simp_all add: eng_ok_run eng_ok_create)
  have ev: "ev_kind ev = USBTRACE_EVT_HUB" "?k = \<lparr> key_busnum = he_busnum r, key_devnum = he_devnum r \<rparr>"
    using normalize_rec[OF assms(3)] assms(4) by (auto simp: diag_event_key_def)
  have log: "set (dev_log ?e ?k) \<subseteq> set (events_of ?k xs)"
    unfolding dev_log_run[OF assms(5)] by (auto dest: in_set_takeD)
  have "ev_kind x \<noteq> USBTRACE_EVT_ENUM" if "x \<in> set (take WIN_MAX_EVENTS (ev # dev_log ?e ?k))" for x
    using in_set_takeD[OF that] log assms(6)[of x] ev power_off_names_hub[OF assms(1,2)]
    by (auto simp: events_of_def ut_const)
  then have "plain_count w 0 (\<lambda>x. ev_kind x = USBTRACE_EVT_ENUM \<and> P x) t (take WIN_MAX_EVENTS (ev # dev_log ?e ?k)) = 0" for w P t
    by (auto simp: plain_count_def filter_empty_conv)
  then have "\<not> plain_holds 12 ev (take WIN_MAX_EVENTS (ev # dev_log ?e ?k))" by (simp add: plain_holds_def plain_rules_def)
  then show ?thesis
    using ingest_fires[OF ok(1), of 12 clk ev] builtin_holds[of 12 ev] by (auto simp: ok(2) length_builtin)
qed

end
