(* ===== verification/Diag_System.thy ===== *)
theory Diag_System
  imports Ut_System Filter_Props Builtin_Reach
begin

text \<open>
  The diag module from the hooks in the kernel to its findings. One story is a sequence of steps of the whole machine: a hook
  of one of the nine programs fires and each record it submits gets space in that program's buffer or not, or diag's loop
  polls, takes records from the fronts of the buffers of its active sources in some order, and reads the clock.
\<close>

section \<open>The nine programs under one filter\<close>

datatype diag_hook =
    In_urb "bpf_env \<times> urb_hook" | In_enum "dev_env \<times> enum_hook" | In_lifecycle "dev_env \<times> lifecycle_hook"
  | In_power "dev_env \<times> power_hook \<times> u64" | In_hub "dev_env \<times> hub_hook" | In_class "bpf_env \<times> class_hook"
  | In_uvc "drv_env \<times> uvc_hook"

fun hook_source :: "diag_hook \<Rightarrow> string" where
  "hook_source (In_urb h) = ''urb''"
| "hook_source (In_enum h) = ''enum''"
| "hook_source (In_lifecycle h) = ''lifecycle''"
| "hook_source (In_power h) = ''power''"
| "hook_source (In_hub h) = ''hub''"
| "hook_source (In_class h) = class_module (snd h)"
| "hook_source (In_uvc h) = ''uvc''"

record diag_kernel =
  dk_urb :: "u64 \<rightharpoonup> u64"
  dk_enum :: enum_maps
  dk_lifecycle :: "u64 \<rightharpoonup> u64"
  dk_uvc :: uvc_maps

definition diag_kernel0 :: diag_kernel where
  "diag_kernel0 = \<lparr> dk_urb = Map.empty, dk_enum = maps0, dk_lifecycle = Map.empty, dk_uvc = uvc_maps0 \<rparr>"

text \<open>The configuration diag writes into the skeletons: the filter everywhere, and nothing else but the submissions of urb. The
  class sources get it through \<open>struct usbtrace_class_config\<close>, the first members of \<open>struct uvc_config\<close>.\<close>

definition diag_class_config :: "usbtrace_filter \<Rightarrow> usbtrace_class_config" where
  "diag_class_config f = \<lparr> cl_filter_vid = ucast (flt_vid f), cl_filter_pid = ucast (flt_pid f) \<rparr>"

definition diag_uvc_config :: "usbtrace_filter \<Rightarrow> uvc_config" where
  "diag_uvc_config f = \<lparr> uc_filter_vid = cl_filter_vid (diag_class_config f), uc_filter_pid = cl_filter_pid (diag_class_config f),
     uc_no_frames = 0, uc_no_vb2 = 0, uc_fps_target = 0 \<rparr>"

fun diag_hit :: "usbtrace_filter \<Rightarrow> diag_hook \<Rightarrow> diag_kernel \<Rightarrow> prog_hit" where
  "diag_hit f (In_urb h) ms = Urb_hit (diag_urb_config f) h (dk_urb ms)"
| "diag_hit f (In_enum h) ms = Enum_hit (dev_config_of f) h (dk_enum ms)"
| "diag_hit f (In_lifecycle h) ms = Lifecycle_hit (dev_config_of f) h (dk_lifecycle ms)"
| "diag_hit f (In_power (en, k, a)) ms = Power_hit (dev_config_of f) en k a"
| "diag_hit f (In_hub h) ms = Hub_hit (dev_config_of f) h"
| "diag_hit f (In_class h) ms = Class_hit (diag_class_config f) h"
| "diag_hit f (In_uvc h) ms = Uvc_hit (diag_uvc_config f) h (dk_uvc ms)"

fun diag_next :: "usbtrace_filter \<Rightarrow> diag_hook \<Rightarrow> diag_kernel \<Rightarrow> diag_kernel" where
  "diag_next f (In_urb h) ms = ms\<lparr> dk_urb := fst (urb_hit (diag_urb_config f) h (dk_urb ms)) \<rparr>"
| "diag_next f (In_enum h) ms = ms\<lparr> dk_enum := fst (enum_hit (dev_config_of f) h (dk_enum ms)) \<rparr>"
| "diag_next f (In_lifecycle h) ms = ms\<lparr> dk_lifecycle := fst (lifecycle_hit (dev_config_of f) h (dk_lifecycle ms)) \<rparr>"
| "diag_next f (In_uvc h) ms = ms\<lparr> dk_uvc := fst (uvc_hit (diag_uvc_config f) h (dk_uvc ms)) \<rparr>"
| "diag_next f hk ms = ms"

section \<open>Stories\<close>

text \<open>The takes of a poll: from which source, and the clock values the rules read while the record is ingested.\<close>

datatype diag_step = DFires diag_hook "nat \<Rightarrow> bool" | DPolled "(string \<times> (nat \<Rightarrow> u64)) list" int u64

fun take_from :: "(string \<Rightarrow> bool) \<Rightarrow> (string \<times> (nat \<Rightarrow> u64)) list \<Rightarrow> (string \<Rightarrow> 'r list) \<Rightarrow>
    (string \<times> (nat \<Rightarrow> u64) \<times> 'r) list \<times> (string \<Rightarrow> 'r list)" where
  "take_from active [] q = ([], q)"
| "take_from active ((n, clk) # ts) q =
     (if active n \<and> q n \<noteq> []
      then (let (rs, q') = take_from active ts (q(n := tl (q n))) in ((n, clk, hd (q n)) # rs, q'))
      else take_from active ts q)"

text \<open>What the polls of a story deliver to \<open>diag_run\<close>. A program whose source is not up does not run.\<close>

fun diag_story :: "usbtrace_filter \<Rightarrow> (string \<Rightarrow> bool) \<Rightarrow> (string \<Rightarrow> bool) \<Rightarrow> diag_step list \<Rightarrow> diag_kernel \<Rightarrow>
    (string \<Rightarrow> u8 list list) \<Rightarrow> poll_result list" where
  "diag_story f up active [] ms q = []"
| "diag_story f up active (DFires hk space # st) ms q =
     (let n = hook_source hk in
      if up n then diag_story f up active st (diag_next f hk ms) (q(n := outputs space (submitted (diag_hit f hk ms)) (q n)))
      else diag_story f up active st ms q)"
| "diag_story f up active (DPolled ts err now # st) ms q =
     (let (rs, q') = take_from active ts q
      in \<lparr> pl_records = map snd rs, pl_err = err, pl_now = now \<rparr> # diag_story f up active st ms q')"

text \<open>The same story over records: what a program submits, what of it gets space, and what is taken, with its source.\<close>

fun story_submitted :: "usbtrace_filter \<Rightarrow> (string \<Rightarrow> bool) \<Rightarrow> diag_step list \<Rightarrow> diag_kernel \<Rightarrow> (string \<times> any_rec) list" where
  "story_submitted f up [] ms = []"
| "story_submitted f up (DFires hk space # st) ms =
     (if up (hook_source hk)
      then map (Pair (hook_source hk)) (submitted (diag_hit f hk ms)) @ story_submitted f up st (diag_next f hk ms)
      else story_submitted f up st ms)"
| "story_submitted f up (DPolled ts err now # st) ms = story_submitted f up st ms"

fun story_kept :: "usbtrace_filter \<Rightarrow> (string \<Rightarrow> bool) \<Rightarrow> diag_step list \<Rightarrow> diag_kernel \<Rightarrow> (string \<times> any_rec) list" where
  "story_kept f up [] ms = []"
| "story_kept f up (DFires hk space # st) ms =
     (if up (hook_source hk)
      then map (Pair (hook_source hk)) (with_space space (submitted (diag_hit f hk ms))) @ story_kept f up st (diag_next f hk ms)
      else story_kept f up st ms)"
| "story_kept f up (DPolled ts err now # st) ms = story_kept f up st ms"

fun story_taken :: "usbtrace_filter \<Rightarrow> (string \<Rightarrow> bool) \<Rightarrow> (string \<Rightarrow> bool) \<Rightarrow> diag_step list \<Rightarrow> diag_kernel \<Rightarrow>
    (string \<Rightarrow> any_rec list) \<Rightarrow> (string \<times> (nat \<Rightarrow> u64) \<times> any_rec) list" where
  "story_taken f up active [] ms q = []"
| "story_taken f up active (DFires hk space # st) ms q =
     (let n = hook_source hk in
      if up n then story_taken f up active st (diag_next f hk ms) (q(n := q n @ with_space space (submitted (diag_hit f hk ms))))
      else story_taken f up active st ms q)"
| "story_taken f up active (DPolled ts err now # st) ms q =
     (let (rs, q') = take_from active ts q in rs @ story_taken f up active st ms q')"

definition of_source :: "string \<Rightarrow> (string \<times> 'r) list \<Rightarrow> 'r list" where
  "of_source n xs = map snd (filter (\<lambda>x. fst x = n) xs)"

lemma of_source_simps [simp]:
  "of_source n [] = []" "of_source n (xs @ ys) = of_source n xs @ of_source n ys"
  "of_source n (map (Pair m) rs) = (if m = n then rs else [])"
  "of_source n ((m, r) # xs) = (if m = n then r # of_source n xs else of_source n xs)"
  by (auto simp: of_source_def comp_def)

section \<open>Bytes and records\<close>

lemma take_from_bytes:
  "take_from active ts (\<lambda>n. map rec_bytes (q n)) =
     (map (\<lambda>(n, clk, r). (n, clk, rec_bytes r)) (fst (take_from active ts q)), \<lambda>n. map rec_bytes (snd (take_from active ts q) n))"
proof (induction active ts q rule: take_from.induct)
  case (2 active n clk ts q)
  have upd: "(\<lambda>m. map rec_bytes ((q(n := tl (q n))) m)) = (\<lambda>m. map rec_bytes (q m))(n := tl (map rec_bytes (q n)))"
    by (auto simp: map_tl)
  show ?case using 2 unfolding upd by (auto simp: split_beta hd_map fun_upd_def)
qed simp

lemma story_bytes:
  "concat (map pl_records (diag_story f up active st ms (\<lambda>n. map rec_bytes (q n))))
     = map (\<lambda>(n, clk, r). (clk, rec_bytes r)) (story_taken f up active st ms q)"
proof (induction f up active st ms q rule: story_taken.induct)
  case (2 f up active hk space st ms q)
  have upd: "(\<lambda>m. map rec_bytes ((q(n := q n @ rs)) m)) = (\<lambda>m. map rec_bytes (q m))(n := map rec_bytes (q n) @ map rec_bytes rs)"
    for n rs by auto
  show ?case using 2 unfolding upd by (auto simp: Let_def outputs_app fun_upd_def)
next
  case (3 f up active ts err now st ms q)
  obtain rs q' where t: "take_from active ts q = (rs, q')" by (cases "take_from active ts q")
  show ?case using 3[OF t[symmetric] refl] by (simp add: take_from_bytes t comp_def split_beta)
qed simp

text \<open>Every buffer is first in, first out.\<close>

definition sourced :: "(string \<times> (nat \<Rightarrow> u64) \<times> 'r) list \<Rightarrow> (string \<times> 'r) list" where
  "sourced xs = map (\<lambda>(n, clk, r). (n, r)) xs"

lemma take_from_fifo: "of_source n (sourced (fst (take_from active ts q))) @ snd (take_from active ts q) n = q n"
proof (induction active ts q rule: take_from.induct)
  case (2 active m clk ts q)
  then show ?case by (auto simp: split_beta sourced_def fun_upd_def)
qed (simp add: sourced_def)

lemma story_fifo: "prefix (of_source n (sourced (story_taken f up active st ms q))) (q n @ of_source n (story_kept f up st ms))"
proof (induction f up active st ms q rule: story_taken.induct)
  case (2 f up active hk space st ms q)
  then show ?case by (auto simp: Let_def fun_upd_def)
next
  case (3 f up active ts err now st ms q)
  obtain rs q' where t: "take_from active ts q = (rs, q')" by (cases "take_from active ts q")
  have q: "of_source n (sourced rs) @ q' n = q n" using take_from_fifo[of n active ts q] by (simp add: t)
  have "prefix (of_source n (sourced rs) @ of_source n (sourced (story_taken f up active st ms q')))
      (of_source n (sourced rs) @ q' n @ of_source n (story_kept f up st ms))"
    using 3[OF t[symmetric] refl] by simp
  then show ?case unfolding append_assoc[symmetric] q by (simp add: t sourced_def)
qed (simp add: sourced_def)

lemma of_source_subseq: "subseq rs rs' \<Longrightarrow> subseq (of_source n (map (Pair m) rs)) (of_source n (map (Pair m) rs'))"
  by simp

lemma story_kept_subseq: "subseq (of_source n (story_kept f up st ms)) (of_source n (story_submitted f up st ms))"
proof (induction f up st ms rule: story_kept.induct)
  case (2 f up hk space st ms)
  then show ?case
    using of_source_subseq[OF with_space_subseq[of space "submitted (diag_hit f hk ms)"], of n "hook_source hk"]
    by (auto intro: list_emb_append_mono)
qed simp_all

section \<open>What is submitted\<close>

fun hook_sizes :: "diag_hook \<Rightarrow> bool" where
  "hook_sizes (In_urb h) = kernel_sizes (fst h)"
| "hook_sizes (In_enum h) = kernel_sizes (fst h)"
| "hook_sizes (In_lifecycle h) = kernel_sizes (fst h)"
| "hook_sizes (In_power h) = kernel_sizes (fst h)"
| "hook_sizes (In_hub h) = kernel_sizes (fst h)"
| "hook_sizes (In_class h) = kernel_sizes (fst h)"
| "hook_sizes (In_uvc h) = kernel_sizes (fst h)"

fun diag_step_sizes :: "diag_step \<Rightarrow> bool" where
  "diag_step_sizes (DFires hk space) = hook_sizes hk"
| "diag_step_sizes (DPolled ts err now) = True"

definition filter_ids :: "usbtrace_filter \<Rightarrow> u16 \<times> u16" where
  "filter_ids f = (ucast (flt_vid f), ucast (flt_pid f))"

lemma hit_filter_ids: "hit_filter (diag_hit f hk ms) = filter_ids f"
  by (cases "(f, hk, ms)" rule: diag_hit.cases)
    (simp_all add: filter_ids_def diag_urb_config_def dev_config_of_def diag_class_config_def diag_uvc_config_def)

lemma diag_hit_ok:
  assumes "hook_sizes hk" "corr_ok (filter_ids f) (dk_uvc ms)"
  shows "list_all (\<lambda>r. rec_ok r \<and> out_ok (filter_ids f) r) (submitted (diag_hit f hk ms))"
    and "corr_ok (filter_ids f) (dk_uvc (diag_next f hk ms))"
proof -
  have cfg: "filter_ids f = (uc_filter_vid (diag_uvc_config f), uc_filter_pid (diag_uvc_config f))"
    by (simp add: filter_ids_def diag_uvc_config_def diag_class_config_def)
  have "hit_sizes (diag_hit f hk ms)" using assms(1) by (cases "(f, hk, ms)" rule: diag_hit.cases) simp_all
  then have ok: "list_all rec_ok (submitted (diag_hit f hk ms))" by (rule submitted_ok)
  have "list_all (out_ok (hit_filter (diag_hit f hk ms))) (submitted (diag_hit f hk ms))"
    using uvc_hit_keeps[of "diag_uvc_config f" "dk_uvc ms"] assms(2) unfolding cfg
    by (cases "(f, hk, ms)" rule: diag_hit.cases)
      (simp_all del: submitted.simps hit_filter.simps add: passes_out_ok simple_hits_pass,
       simp add: list.pred_map comp_def)
  then show "list_all (\<lambda>r. rec_ok r \<and> out_ok (filter_ids f) r) (submitted (diag_hit f hk ms))"
    using ok unfolding hit_filter_ids by (simp add: list_all_iff)
  show "corr_ok (filter_ids f) (dk_uvc (diag_next f hk ms))"
    using uvc_hit_keeps[of "diag_uvc_config f" "dk_uvc ms"] assms(2) unfolding cfg
    by (cases "(f, hk, ms)" rule: diag_next.cases) simp_all
qed

lemma story_ok:
  "list_all diag_step_sizes st \<Longrightarrow> corr_ok (filter_ids f) (dk_uvc ms) \<Longrightarrow>
   list_all (\<lambda>(n, r). rec_ok r \<and> out_ok (filter_ids f) r) (story_submitted f up st ms)"
proof (induction f up st ms rule: story_submitted.induct)
  case (2 f up hk space st ms)
  then show ?case using diag_hit_ok[of hk f ms] by (auto simp: list.pred_map comp_def)
qed simp_all

section \<open>From deliveries to the engine\<close>

fun ingested :: "engine_op list \<Rightarrow> ((nat \<Rightarrow> u64) \<times> diag_event) list" where
  "ingested [] = []"
| "ingested (Ingest clk ev # ops) = (clk, ev) # ingested ops"
| "ingested (Tick now # ops) = ingested ops"

lemma ingested_append: "ingested (xs @ ys) = ingested xs @ ingested ys"
  by (induction xs rule: ingested.induct) simp_all

lemma ops_of_append: "ops_of (xs @ ys) = ops_of xs @ ops_of ys"
  by (simp add: ops_of_def)

definition failed_poll :: "poll_result \<Rightarrow> bool" where
  "failed_poll p \<longleftrightarrow> pl_err p < 0 \<and> pl_err p \<noteq> - EINTR \<and> pl_err p \<noteq> - EAGAIN"

lemma ingested_polls:
  "prefix (ingested (poll_ops ps t)) (ingested (ops_of (concat (map pl_records ps))))
   \<and> (\<not> list_ex failed_poll ps \<longrightarrow> ingested (poll_ops ps t) = ingested (ops_of (concat (map pl_records ps))))"
proof (induction ps arbitrary: t)
  case (Cons p ps)
  show ?case using Cons[of t] Cons[of "pl_now p"]
    by (auto simp: ingested_append ops_of_append failed_poll_def)
qed (simp add: ops_of_def)

text \<open>The events of the records that are for the engine, with the clocks of their delivery.\<close>

definition events_taken :: "(string \<times> (nat \<Rightarrow> u64) \<times> any_rec) list \<Rightarrow> ((nat \<Rightarrow> u64) \<times> diag_event) list" where
  "events_taken xs = concat (map (\<lambda>(n, clk, r). case event_of r of None \<Rightarrow> [] | Some ev \<Rightarrow> [(clk, ev)]) xs)"

lemma events_taken_ops:
  "list_all (\<lambda>(n, clk, r). rec_ok r) xs \<Longrightarrow>
   ingested (ops_of (map (\<lambda>(n, clk, r). (clk, rec_bytes r)) xs)) = events_taken xs"
  by (induction xs) (auto simp: ops_of_def events_taken_def normalize_rec ingested_append split: option.split)

lemma taken_ok:
  assumes "list_all (\<lambda>(n, r). rec_ok r) (story_kept f up st ms)"
  shows "list_all (\<lambda>(n, clk, r). rec_ok r) (story_taken f up active st ms (\<lambda>_. []))"
proof -
  have "rec_ok r" if "(n, clk, r) \<in> set (story_taken f up active st ms (\<lambda>_. []))" for n clk r
  proof -
    have "(n, r) \<in> set (sourced (story_taken f up active st ms (\<lambda>_. [])))"
      using that by (force simp: sourced_def)
    then have "r \<in> set (of_source n (sourced (story_taken f up active st ms (\<lambda>_. []))))" by (force simp: of_source_def)
    then have "r \<in> set (of_source n (story_kept f up st ms))"
      using set_mono_prefix[OF story_fifo[of n f up active st ms "\<lambda>_. []"]] by auto
    then show ?thesis using assms by (auto simp: of_source_def list_all_iff)
  qed
  then show ?thesis by (auto simp: list_all_iff)
qed

lemma kept_submitted: "set (story_kept f up st ms) \<subseteq> set (story_submitted f up st ms)"
proof (induction f up st ms rule: story_kept.induct)
  case (2 f up hk space st ms)
  then show ?case using with_space_set[of space "submitted (diag_hit f hk ms)"] by auto
qed simp_all

section \<open>The command line\<close>

definition source_up :: "ut_world \<Rightarrow> string \<Rightarrow> bool" where
  "source_up w n \<longleftrightarrow> src_up (diag_src w n)"

definition source_active :: "ut_world \<Rightarrow> string \<Rightarrow> bool" where
  "source_active w n \<longleftrightarrow> src_up (diag_src w n) \<and> uw_add w n = 0"

definition diag_world :: "diag_step list \<Rightarrow> ut_world \<Rightarrow> ut_world" where
  "diag_world st w = w\<lparr> uw_diag_polls := (\<lambda>f. diag_story f (source_up w) (source_active w) st diag_kernel0 (\<lambda>_. [])) \<rparr>"

lemma diag_world_sel [simp]:
  "uw_yaml (diag_world st w) = uw_yaml w" "uw_files (diag_world st w) = uw_files w" "uw_builtin (diag_world st w) = uw_builtin w"
  "uw_engine_mem (diag_world st w) = uw_engine_mem w" "diag_src (diag_world st w) = diag_src w" "uw_mux (diag_world st w) = uw_mux w"
  "uw_now (diag_world st w) = uw_now w"
  "uw_diag_polls (diag_world st w) f = diag_story f (source_up w) (source_active w) st diag_kernel0 (\<lambda>_. [])"
  by (simp_all add: diag_world_def diag_src_def hooks_usable_def fun_eq_iff)

lemma diag_run_active:
  assumes "diag_active mem env mux"
  shows "dg_findings (diag_run (Inr rules) mem env mux now json ps) = fst (diag_session rules now json ps)"
    "dg_summary (diag_run (Inr rules) mem env mux now json ps) = Some (fst (snd (diag_session rules now json ps)))"
proof -
  have n: "length (filter (\<lambda>n. sr_add (env n) = 0) (snd (bring_up env ns))) \<noteq> 0
      \<longleftrightarrow> list_ex (\<lambda>n. src_up (env n) \<and> sr_add (env n) = 0) ns" for ns
    by (auto simp: bring_up_spec filter_empty_conv list_ex_iff)
  show "dg_findings (diag_run (Inr rules) mem env mux now json ps) = fst (diag_session rules now json ps)"
    "dg_summary (diag_run (Inr rules) mem env mux now json ps) = Some (fst (snd (diag_session rules now json ps)))"
    using assms n[of "diag_core_srcs @ diag_class_srcs"] by (simp_all add: diag_run_def diag_active_def Let_def split_beta)
qed

text \<open>The path of the diag module as one fact about the operations its engine performs.\<close>

definition diag_path :: "usbtrace_filter \<Rightarrow> ut_world \<Rightarrow> diag_step list \<Rightarrow> engine_op list \<Rightarrow> bool" where
  "diag_path f w st ops \<longleftrightarrow>
     (let ps = diag_story f (source_up w) (source_active w) st diag_kernel0 (\<lambda>_. []);
          taken = story_taken f (source_up w) (source_active w) st diag_kernel0 (\<lambda>_. []);
          kept = story_kept f (source_up w) st diag_kernel0; subm = story_submitted f (source_up w) st diag_kernel0
      in prefix (ingested ops) (events_taken taken)
       \<and> (\<not> list_ex failed_poll ps \<longrightarrow> ingested ops = events_taken taken)
       \<and> (\<forall>n. prefix (of_source n (sourced taken)) (of_source n kept) \<and> subseq (of_source n kept) (of_source n subm))
       \<and> list_all (\<lambda>(n, r). rec_ok r \<and> out_ok (filter_ids f) r) subm
       \<and> successively (\<lambda>a b. TICK_INTERVAL_NS \<le> b - a) (uw_now w # tick_times ops))"

lemma story_path:
  assumes "list_all diag_step_sizes st"
  shows "diag_path f w st (poll_ops (diag_story f (source_up w) (source_active w) st diag_kernel0 (\<lambda>_. [])) (uw_now w))"
proof -
  let ?ps = "diag_story f (source_up w) (source_active w) st diag_kernel0 (\<lambda>_. [])"
  let ?taken = "story_taken f (source_up w) (source_active w) st diag_kernel0 (\<lambda>_. [])"
  have "corr_ok (filter_ids f) (dk_uvc diag_kernel0)" by (simp add: corr_ok_def diag_kernel0_def uvc_maps0_def)
  note ok = story_ok[OF assms this, of "source_up w"]
  then have "list_all (\<lambda>(n, r). rec_ok r) (story_kept f (source_up w) st diag_kernel0)"
    using kept_submitted[of f "source_up w" st diag_kernel0] by (auto simp: list_all_iff)
  note taken = taken_ok[OF this, of "source_active w"]
  have "concat (map pl_records ?ps) = map (\<lambda>(n, clk, r). (clk, rec_bytes r)) ?taken"
    using story_bytes[of f "source_up w" "source_active w" st diag_kernel0 "\<lambda>_. []"] by simp
  then have ev: "ingested (ops_of (concat (map pl_records ?ps))) = events_taken ?taken"
    using events_taken_ops[OF taken] by simp
  show ?thesis
    using ingested_polls[of ?ps "uw_now w"] ok poll_ops_spaced[of "uw_now w" ?ps] story_kept_subseq
      story_fifo[of _ f "source_up w" "source_active w" st diag_kernel0 "\<lambda>_. []"]
    unfolding diag_path_def Let_def ev by simp
qed

text \<open>C5: From the hooks in the kernel to the findings: whatever hooks of the nine programs fire and however their buffers fill and are
  polled, \<open>usbtrace diag\<close> with any filter and rules prints the findings of its engine over a sequence of events and ticks:
  the events are those of the records taken from the buffers of the active sources, in that order, up to a poll that fails for
  good; each source's records are taken in order of submission, each at most once, from those that got space; all are of the
  shape their kind promises and, vb2 records without ids apart, of devices inside the filter; ticks are half a second apart.\<close>

theorem hooks_to_findings:
  assumes "mset mods = mset (ut_modules (diag_world st w))" "list_all diag_step_sizes st"
    and "diag_load (uw_yaml w) (uw_files w) (uw_builtin w) d = Inr rules"
    and "diag_active (uw_engine_mem w) (diag_src w) (uw_mux w)"
  shows "\<exists>ops. diag_path (do_filt d) w st ops \<and>
     stdout_of (usbtrace_main mods (flag_args sw @ ''diag'' # map opt_word (diag_words d)))
       = findings_text (mf_json sw) rules (engine_outs ops (diag_engine_create rules))
         @ (if mf_json sw then summary_text True (diag_engine_report True (engine_run ops (diag_engine_create rules))) else [])"
proof -
  let ?ps = "diag_story (do_filt d) (source_up w) (source_active w) st diag_kernel0 (\<lambda>_. [])"
  have run: "fst (diag_session rules (uw_now w) json ?ps) = engine_outs (poll_ops ?ps (uw_now w)) (diag_engine_create rules)"
    "fst (snd (diag_session rules (uw_now w) json ?ps))
       = diag_engine_report json (engine_run (poll_ops ?ps (uw_now w)) (diag_engine_create rules))" for json
    using diag_session_runs_engine[of rules "uw_now w" json ?ps] by simp_all
  have "stdout_of (usbtrace_main mods (flag_args sw @ ''diag'' # map opt_word (diag_words d)))
       = findings_text (mf_json sw) rules (engine_outs (poll_ops ?ps (uw_now w)) (diag_engine_create rules))
         @ (if mf_json sw then summary_text True (diag_engine_report True
              (engine_run (poll_ops ?ps (uw_now w)) (diag_engine_create rules))) else [])"
    unfolding module_commands(9)[OF assms(1)] stdout_runs
    by (simp add: diag_main_def assms(3) diag_run_active[OF assms(4)] diag_output_def run Let_def split_beta)
  then show ?thesis using story_path[OF assms(2)] by blast
qed

text \<open>One over-current condition, polled once, by \<open>usbtrace diag\<close> without options.\<close>

definition oc_story :: "diag_step list" where
  "oc_story = [DFires (In_hub (port_env, Overcurrent 0x9000)) (\<lambda>_. True), DPolled [(''hub'', \<lambda>_. 9)] 1 1]"

definition oc_world :: ut_world where
  "oc_world = demo_world\<lparr> uw_yaml := tree_env rules_yaml \<rparr>"

lemma oc_sources: "source_up oc_world ''hub''" "source_active oc_world ''hub''" "diag_active True (diag_src oc_world) True"
proof -
  have "sec_available (uw_fs oc_world) (Some s) = Unknown" if "s \<in> set hub_secs" for s
    using that by (auto simp: hub_secs_def sec_available_def after_slash_def starts_with_def usbtrace_kfunc_available_def
        symbol_in_file_def demo_world_def oc_world_def TRACEFS_def)
  then have "hooks_usable oc_world hub_secs \<noteq> 0"
    by (simp add: hooks_usable_def usbtrace_autoload_filter_def hub_secs_def)
  then show up: "source_up oc_world ''hub''" by (simp add: source_up_def src_up_def diag_src_def diag_secs_def oc_world_def demo_world_def)
  show "source_active oc_world ''hub''" using up by (simp add: source_active_def source_up_def oc_world_def demo_world_def)
  show "diag_active True (diag_src oc_world) True"
    using up by (simp add: diag_active_def source_up_def diag_core_srcs_def) (simp add: diag_src_def oc_world_def demo_world_def)
qed

theorem hooks_to_findings_witness:
  "\<exists>ops ev. ingested ops = [(\<lambda>_. 9, ev)] \<and> is_hub HUB_OVERCURRENT ev
     \<and> stdout_of (usbtrace_main (ut_modules (diag_world oc_story oc_world)) [''diag'', ''--vid=0'', ''--pid=0''])
       = findings_text False builtin_rules (engine_outs ops (diag_engine_create builtin_rules))"
proof -
  let ?d = "\<lparr> do_filt = no_filter, do_rules_path = None \<rparr>" and ?sw = "\<lparr> mf_verbose = False, mf_json = False \<rparr>"
  let ?st = "story_taken no_filter (source_up oc_world) (source_active oc_world) oc_story diag_kernel0 (\<lambda>_. [])"
  obtain r where root: "doc_of rules_yaml 1 = Some r" using doc_of_root by blast
  have load: "diag_load (uw_yaml oc_world) (uw_files oc_world) (uw_builtin oc_world) ?d = Inr builtin_rules"
    using tree_env_load[of rules_yaml "uw_builtin oc_world" 256]
    by (simp add: diag_load_def diag_rules_load_default_def load_builtin oc_world_def demo_world_def)
  have sizes: "list_all diag_step_sizes oc_story" by (simp add: oc_story_def kernel_sizes_def port_env_def)
  obtain ops where ops: "diag_path no_filter oc_world oc_story ops"
    "stdout_of (usbtrace_main (ut_modules (diag_world oc_story oc_world)) (flag_args ?sw @ ''diag'' # map opt_word (diag_words ?d)))
       = findings_text False builtin_rules (engine_outs ops (diag_engine_create builtin_rules))"
    using hooks_to_findings[OF refl sizes load, of "?sw"] oc_sources(3) by (auto simp: oc_world_def demo_world_def)
  have "\<exists>ev. events_taken ?st = [(\<lambda>_. 9, ev)] \<and> is_hub HUB_OVERCURRENT ev"
    by (simp add: oc_story_def oc_sources events_taken_def is_hub_def on_overcurrent_def emit_dev_def dev_config_of_def no_filter_def
        port_env_def USBTRACE_KPTR_def USBTRACE_PTR_KEY_def usbtrace_dev_match_def Let_def)
  moreover have "ingested ops = events_taken ?st"
    using ops(1) by (simp add: diag_path_def Let_def oc_story_def oc_sources failed_poll_def split_beta)
  moreover have "flag_args ?sw @ ''diag'' # map opt_word (diag_words ?d) = [''diag'', ''--vid=0'', ''--pid=0'']"
    by (simp add: flag_args_def diag_words_def filter_words_def flag_word_def no_filter_def show_dec_eval)
  ultimately show ?thesis using ops(2) by metis
qed

end
