(* ===== verification/Builtin_Stories.thy ===== *)
theory Builtin_Stories
  imports Diag_System Uvc_Starvation
begin

text \<open>
  Stories that end in a finding of each built-in rule: hooks of the BPF programs fire on a kernel that is written down here,
  what they submit goes through their buffers, and a diag session with the embedded rules takes it in one poll.
\<close>

section \<open>The kernel of the stories\<close>

text \<open>A device at 0x7000, address 4 on bus 1, behind port 2 of the hub at any other address.\<close>

definition story_dev :: "u8 \<Rightarrow> u64 \<Rightarrow> usb_device" where
  "story_dev resume p = \<lparr> ud_id_vendor = 0x046d, ud_id_product = 0x0825, ud_busnum = 1,
     ud_devnum = (if p = 0x7000 then 4 else 1), ud_state = 5, ud_speed = 3, ud_portnum = 2, ud_reset_resume = resume,
     ud_devpath = replicate 16 0 \<rparr>"

definition story_env :: "u8 \<Rightarrow> u64 \<Rightarrow> dev_env" where
  "story_env resume t = port_env\<lparr> en_ktime := t, en_usb_device := story_dev resume, px_read_kptr := (\<lambda>_. 0x7000),
     px_hub_ports := (\<lambda>_. 0x100) \<rparr>"

text \<open>A URB of the device, with its pipe, status and number of isochronous errors; the setup packet is SET_INTERFACE.\<close>

definition urb_env :: "u32 \<Rightarrow> s32 \<Rightarrow> s32 \<Rightarrow> u64 \<Rightarrow> bpf_env" where
  "urb_env pipe st ec t =
     \<lparr> en_arch32 = False, en_ktime = t, en_pid_tgid = 7, en_comm = replicate 16 0, en_room = (\<lambda>_ _. True),
       en_usb_device = story_dev 0,
       en_urb = (\<lambda>_. \<lparr> urb_dev = 0x7000, urb_pipe = pipe, urb_status = st, urb_error_count = ec, urb_number_of_packets = 8,
          urb_actual_length = 100, urb_transfer_buffer_length = 100, urb_start_frame = 0, urb_transfer_buffer = 0x1000,
          urb_setup_packet = 0x2000, urb_iso_frame_desc = (\<lambda>_. None) \<rparr>),
       en_probe_read = (\<lambda>_ n. Some (take n [1, 11, 0, 0, 0, 0, 0, 0])) \<rparr>"

definition CTRL_PIPE :: u32 where "CTRL_PIPE = 0x80000000"
definition BULK_PIPE :: u32 where "BULK_PIPE = 0xc0000080"

text \<open>The camera, address 5 on bus 1: every payload header read says a frame's last payload without a time stamp.\<close>

definition cam_env :: "u64 \<Rightarrow> usb_iso_packet_descriptor list \<Rightarrow> drv_env" where
  "cam_env t ds = (Uvc_Props.demo_env t ds)\<lparr> en_probe_read := (\<lambda>_ n. Some (take n ([2, 2] @ replicate 10 0))) \<rparr>"

text \<open>A video frame of one packet, with or without an isochronous error, and a buffer completed with a sequence number.\<close>

definition frame_at :: "s32 \<Rightarrow> u64 \<Rightarrow> diag_hook" where
  "frame_at st t = In_uvc (cam_env t [Uvc_Props.demo_desc 100 st], Video_complete 1)"

definition buffer_done :: "u64 \<Rightarrow> u64 \<Rightarrow> diag_hook" where
  "buffer_done t seq = In_uvc (cam_env t [], Vb2_tracepoint Raw_vb2_buf_done 0 seq)"

definition video_errors_at :: "u64 \<Rightarrow> diag_hook" where
  "video_errors_at t = In_uvc ((cam_env t [])\<lparr> en_urb := (\<lambda>_. (Uvc_Props.demo_urb [])\<lparr> urb_error_count := 2 \<rparr>) \<rparr>, Video_complete 1)"

section \<open>The stories\<close>

definition every_ms :: "nat \<Rightarrow> nat \<Rightarrow> u64 list" where
  "every_ms gap n = map (\<lambda>i. of_nat (Suc i * gap) * 1000000) [0..<n]"

text \<open>The hooks of each rule, and the buffers in the order in which the poll takes their records.\<close>

definition rule_hooks :: "(diag_hook list \<times> string list) list" where
  "rule_hooks =
     [(map (\<lambda>t. In_urb (urb_env BULK_PIPE 0 0 t, Giveback_urb 0x3000 (- 71))) (every_ms 1 3)
         @ [In_lifecycle (story_env 0 4000000, Usb_disconnect 0x6000)], replicate 3 ''urb'' @ [''lifecycle'']),
      ([In_urb (urb_env BULK_PIPE 0 0 1000, Submit_urb 0x3000), In_urb (urb_env BULK_PIPE 0 0 1500, Giveback_urb 0x3000 0),
        In_power (story_env 0 2000, Autosuspend, 0x7000)], [''urb'', ''urb'', ''power'']),
      (map (\<lambda>t. In_power (story_env 0 t, Autoresume, 0x7000)) (every_ms 100 5), replicate 5 ''power''),
      ([In_enum (story_env 0 1000, Set_state 0x7000 6)], [''enum'']),
      (map video_errors_at (every_ms 1 5), replicate 5 ''uvc''),
      (map (\<lambda>t. In_class (urb_env 0x80 0 2 t, Uac_complete 0x3000)) (every_ms 1 5), replicate 5 ''uac''),
      (map (\<lambda>t. In_class (urb_env BULK_PIPE (- 110) 0 t, Storage_complete 0x3000)) (every_ms 1 2), replicate 2 ''storage''),
      (map (frame_at (- 71)) (every_ms 33 5), replicate 10 ''uvc''),
      (map (frame_at 0) (every_ms 70 11), replicate 22 ''uvc''),
      ([frame_at 0 1000, buffer_done 2000 1, buffer_done 3000 3, buffer_done 4000 5, buffer_done 5000 7], replicate 6 ''uvc''),
      (map (frame_at 0) (every_ms 33 10) @ map (\<lambda>i. buffer_done (340000000 + i) (2 * i)) [1, 2, 3, 4], replicate 24 ''uvc''),
      ([frame_at 0 1000, buffer_done 2000 1] @ map (frame_at 0) (every_ms 200 3), replicate 12 ''uvc''),
      (concat (map (\<lambda>t. [In_enum (story_env 0 t, Call_entry Get_desc 0x7000),
          In_enum (story_env 0 (t + 1000), Call_exit Get_desc (- 71))]) (every_ms 1 2))
         @ [In_hub (story_env 0 4000000, Set_port_power 0x5000 0x4000 2 0)], [''enum'', ''enum'', ''hub'']),
      ([In_lifecycle (story_env 1 1000, Usb_reset_device 0x7000), In_lifecycle (story_env 1 2000, Usb_disconnect 0x6000)],
       replicate 2 ''lifecycle''),
      (map (\<lambda>t. In_lifecycle (story_env 0 t, Usb_reset_device 0x7000)) (every_ms 100 4), replicate 4 ''lifecycle''),
      ([In_urb (urb_env CTRL_PIPE 0 0 1000, Giveback_urb 0x3000 (- 28))], [''urb'']),
      ([In_hub (story_env 0 1000, Overcurrent 0x9000)], [''hub''])]"

definition rule_story :: "nat \<Rightarrow> diag_step list" where
  "rule_story ri =
     (case rule_hooks ! ri of (hks, from) \<Rightarrow>
        map (\<lambda>h. DFires h (\<lambda>_. True)) hks @ [DPolled (map (\<lambda>n. (n, \<lambda>_. 4000000000)) from) 1 4000000000])"

definition story_events :: "nat \<Rightarrow> diag_event list" where
  "story_events ri = map snd (events_taken (story_taken no_filter (\<lambda>_. True) (\<lambda>_. True) (rule_story ri) diag_kernel0 (\<lambda>_. [])))"

text \<open>The events of one device after which the statement of rule \<open>ri\<close> holds.\<close>

definition story_holds :: "nat \<Rightarrow> bool" where
  "story_holds ri \<longleftrightarrow>
     (let xs = story_events ri in
      xs \<noteq> [] \<and> length xs \<le> 30 \<and> list_all (\<lambda>x. diag_event_key x = diag_event_key (last xs)) xs
      \<and> plain_holds ri (last xs) (rev xs))"

lemma stories_ok_device: "list_all story_holds [0, 1, 2, 5, 6, 12, 13, 14, 15, 16]"
  by code_simp

lemma stories_ok_video: "list_all story_holds [4, 7, 9, 11]"
  by code_simp

section \<open>Long runs of frames\<close>

text \<open>The story of many frames is followed symbolically: no frame is open, and the last one ended at \<open>p\<close>.\<close>

definition idle :: "u64 \<Rightarrow> uvc_maps \<Rightarrow> bool" where
  "idle p ms \<longleftrightarrow> um_vb2_dev_queue ms = Map.empty \<and> um_vb2_queues ms = Map.empty
     \<and> (case um_streams ms (stream_key 1 5 1) of
          None \<Rightarrow> p = 0
        | Some S \<Rightarrow> \<not> ss_active S \<and> \<not> ss_saw_err S \<and> ss_last_frame_end_ts S = p)"

definition noted :: "u64 \<Rightarrow> uvc_maps \<Rightarrow> bool" where
  "noted t ms \<longleftrightarrow> (\<exists>c. um_stream_corr ms 0 = Some c \<and> sc_last_wire_done_ns c = t \<and> sc_busnum c = 1 \<and> sc_devnum c = 5)"

definition fr :: "u64 \<Rightarrow> drv_env \<times> uvc_hook" where
  "fr t = (cam_env t [Uvc_Props.demo_desc 100 0], Video_complete 1)"

definition frame_event :: "u64 \<Rightarrow> u64 \<Rightarrow> diag_event \<Rightarrow> bool" where
  "frame_event p t y \<longleftrightarrow> ev_kind y = USBTRACE_EVT_UVC_FRAME \<and> ev_ts_ns y = t \<and> ev_frame_errored y = 0
     \<and> ev_frame_interval_ns y = (if p \<noteq> 0 then ucast (t - p) else 0) \<and> ev_busnum y = 1 \<and> ev_devnum y = 5"

definition class_event :: "diag_event \<Rightarrow> bool" where
  "class_event x \<longleftrightarrow> ev_kind x = USBTRACE_EVT_CLASS \<and> ev_busnum x = 1 \<and> ev_devnum x = 5"

definition fr_ids :: uvc_ids where
  "fr_ids = \<lparr> ui_vid = 0x046d, ui_pid = 0x0825, ui_bus = 1, ui_dev = 5, ui_ep = 1 \<rparr>"

lemma fr_urb_ids: "urb_ids (diag_uvc_config no_filter) (cam_env t ds) 1 = Some fr_ids"
  by (simp add: urb_ids_def cam_env_def Uvc_Props.demo_defs diag_uvc_config_def diag_class_config_def no_filter_def usbtrace_dev_match_def
      pipe_endpoint_def fr_ids_def)

lemma fr_packet:
  assumes "\<not> ss_active S" "\<not> ss_saw_err S"
  obtains S1 where "\<not> ss_saw_err S1" "ss_last_frame_end_ts S1 = ss_last_frame_end_ts S"
    "uvc_packet (cam_env t ds) fr_ids t 0x1000 1000 (Some (Uvc_Props.demo_desc 100 0)) (S, ms, out)
       = uvc_emit_frame (cam_env t ds) fr_ids True t (S1, ms, out)"
proof
  let ?hdr = "[2, 2] @ replicate 10 0 :: u8 list"
  let ?S1 = "add_payload ?hdr 100 (open_frame 0 t S)"
  show "\<not> ss_saw_err ?S1" "ss_last_frame_end_ts ?S1 = ss_last_frame_end_ts S"
    using assms by (simp_all add: add_payload_def open_frame_def UVC_ERR_def UVC_PTS_def UVC_SCR_def Let_def)
  have h: "packet_header (cam_env t ds) 0x1000 1000 (Uvc_Props.demo_desc 100 0) = Some ?hdr"
    by (simp add: packet_header_def cam_env_def Uvc_Props.demo_defs read_hdr_def Let_def)
  have d: "d_status (Uvc_Props.demo_desc 100 0) = 0" "d_actual_length (Uvc_Props.demo_desc 100 0) = 100"
    by (simp_all add: Uvc_Props.demo_desc_def)
  show "uvc_packet (cam_env t ds) fr_ids t 0x1000 1000 (Some (Uvc_Props.demo_desc 100 0)) (S, ms, out)
       = uvc_emit_frame (cam_env t ds) fr_ids True t (?S1, ms, out)"
    using assms by (simp add: uvc_packet_def h d uvc_payload_def UVC_FID_def UVC_EOF_def Let_def)
qed

lemma no_filter_config:
  "uc_no_frames (diag_uvc_config f) = 0" "uc_no_vb2 (diag_uvc_config f) = 0"
  "uc_filter_vid (diag_uvc_config no_filter) = 0" "uc_filter_pid (diag_uvc_config no_filter) = 0"
  by (simp_all add: diag_uvc_config_def diag_class_config_def no_filter_def)

lemma frame_hit:
  assumes "idle p ms" and run: "uvc_hit (diag_uvc_config no_filter) (fr t) ms = (ms', out)"
  shows "idle t ms' \<and> noted t ms'
     \<and> (\<exists>x y. map (event_of \<circ> uvc_rec) out = [Some x, Some y] \<and> class_event x \<and> frame_event p t y)"
proof -
  let ?k = "stream_key 1 5 1" and ?en = "cam_env t [Uvc_Props.demo_desc 100 0]"
  define S where "S = (case um_streams ms ?k of None \<Rightarrow> stream0 | Some S \<Rightarrow> S)"
  have S: "\<not> ss_active S" "\<not> ss_saw_err S" "ss_last_frame_end_ts S = p"
    using assms by (auto simp: idle_def S_def stream0_def split: option.splits)
  have en: "en_room ?en n q" "en_arch32 ?en = False" "ux_frame_ktime ?en = t" "urb_transfer_buffer (en_urb ?en u) = 0x1000"
    "urb_transfer_buffer_length (en_urb ?en u) = 1000" "urb_number_of_packets (en_urb ?en u) = 1"
    "urb_iso_frame_desc (en_urb ?en u) 0 = Some (Uvc_Props.demo_desc 100 0)" for n q u
    by (simp_all add: cam_env_def Uvc_Props.demo_env_def Uvc_Props.demo_urb_def)
  define m where "m = with_stream ?en ?k (um_streams ms)"
  have m: "m ?k = Some S" by (auto simp: m_def with_stream_def S_def en split: option.splits)
  define ms1 where "ms1 = ms\<lparr> um_streams := m \<rparr>"
  obtain S1 where S1: "\<not> ss_saw_err S1" "ss_last_frame_end_ts S1 = p"
    "uvc_packet ?en fr_ids t 0x1000 1000 (Some (Uvc_Props.demo_desc 100 0)) (S, ms1, [])
       = uvc_emit_frame ?en fr_ids True t (S1, ms1, [])"
    using fr_packet[OF S(1,2), of t "[Uvc_Props.demo_desc 100 0]" ms1 "[]"] S(3) by metis
  define ms2 where "ms2 = uvc_note_wire_frame ?en 1 5 0x046d 0x0825 (ss_cur_bytes S1) t ms1"
  have dq: "um_vb2_dev_queue ms2 = Map.empty" "um_vb2_queues ms2 = Map.empty"
    using assms(1) by (simp_all add: ms2_def uvc_note_wire_frame_def ms1_def idle_def)
  then have chk: "uvc_check_starvation ?en 1 5 t ms2 = (ms2, [])" by (simp add: uvc_check_starvation_def)
  define f where "f = frame_record ?en fr_ids True t S1"
  have emit: "uvc_emit_frame ?en fr_ids True t (S1, ms1, []) = (reset_stream t S1, ms2, [FrameRec f])"
    by (simp add: uvc_emit_frame_def fr_ids_def ms2_def[symmetric] chk f_def)
  have range: "packet_range 1 = [0]" by (simp add: packet_range_def UVC_MAX_ISOC_PKTS_def upt_rec)
  have key: "ids_key fr_ids = ?k" by (simp add: ids_key_def fr_ids_def)
  have parse: "uvc_parse_frames (diag_uvc_config no_filter) ?en 1 ms
      = (ms2\<lparr> um_streams := (um_streams ms2)(?k \<mapsto> reset_stream t S1) \<rparr>, [FrameRec f])"
    by (simp add: uvc_parse_frames_def fr_urb_ids key m_def[symmetric] m ms1_def[symmetric] en range S1(3) emit Let_def)
  obtain c where c: "usbtrace_class_urb_emit ?en 1 0 0 Uvc_Frames.USBTRACE_CLASS_VIDEO = [c]"
    "ce_busnum c = 1" "ce_devnum c = 5"
    by (simp add: usbtrace_class_urb_emit_def cam_env_def Uvc_Props.demo_defs USBTRACE_KPTR_def USBTRACE_PTR_KEY_def usbtrace_dev_match_def Let_def)
  have out: "ms' = ms2\<lparr> um_streams := (um_streams ms2)(?k \<mapsto> reset_stream t S1) \<rparr>" "out = [ClassRec c, FrameRec f]"
    using run parse c(1)
    by (simp_all add: fr_def on_video_complete_def en USBTRACE_KPTR_def USBTRACE_PTR_KEY_def no_filter_config)
  have "idle t ms'" using dq by (simp add: out idle_def reset_stream_def)
  moreover have "noted t ms'"
    by (simp add: out noted_def ms2_def uvc_note_wire_frame_def uvc_corr_store_def en dev_key_def Let_def)
  moreover have "map (event_of \<circ> uvc_rec) out = [event_of (ClassR c), event_of (FrameR f)]" by (simp add: out)
  moreover have "\<exists>x. event_of (ClassR c) = Some x \<and> class_event x" using c by (simp add: class_event_def)
  moreover have "\<exists>y. event_of (FrameR f) = Some y \<and> frame_event p t y"
    using S1 by (simp add: frame_event_def f_def frame_record_def fr_ids_def)
  ultimately show ?thesis by auto
qed

text \<open>Buffers completed with a sequence number, after a frame that ended at \<open>w\<close>.\<close>

definition counting :: "u32 option \<Rightarrow> uvc_maps \<Rightarrow> bool" where
  "counting pv ms \<longleftrightarrow>
     (case um_vb2_queues ms 0x4000 of
        None \<Rightarrow> pv = None
      | Some st \<Rightarrow> qs_have_last_seq st \<and> pv = Some (qs_last_sequence st))"

definition dn :: "u64 \<times> u64 \<Rightarrow> drv_env \<times> uvc_hook" where
  "dn tb = (cam_env (fst tb) [], Vb2_tracepoint Raw_vb2_buf_done 0 (snd tb))"

definition vb2_event :: "u32 option \<Rightarrow> u64 \<times> u64 \<Rightarrow> diag_event \<Rightarrow> bool" where
  "vb2_event pv tb y \<longleftrightarrow> ev_kind y = USBTRACE_EVT_UVC_VB2 \<and> ev_ts_ns y = fst tb \<and> ev_busnum y = 1 \<and> ev_devnum y = 5
     \<and> ev_vb2_seq_gap y = (case pv of None \<Rightarrow> 0 | Some s \<Rightarrow> vb2_seq_gap s (ucast (snd tb)))"

lemma done_hit:
  assumes "counting pv ms" "noted w ms" "w \<noteq> 0" "snd tb \<noteq> 0" "fst tb - w \<le> WIRE_VB2_MAX_NS"
    and run: "uvc_hit (diag_uvc_config no_filter) (dn tb) ms = (ms', out)"
  shows "counting (Some (ucast (snd tb))) ms' \<and> noted w ms'
     \<and> (\<exists>y. map (event_of \<circ> uvc_rec) out = [Some y] \<and> vb2_event pv tb y)"
proof -
  let ?en = "cam_env (fst tb) []" and ?q = "0x4000 :: u64"
  have en: "en_room ?en n q" "en_ktime ?en = fst tb" "vb_bytesused (ux_vb2_buffer ?en b) = 0"
    "vb_vb2_queue (ux_vb2_buffer ?en b) = ?q" for n q b
    by (simp_all add: cam_env_def Uvc_Props.demo_env_def)
  have seq: "vb2_kernel_sequence ?en (snd tb) = Some (ucast (snd tb))"
    using assms(4) by (simp add: vb2_kernel_sequence_def cam_env_def Uvc_Props.demo_env_def Let_def)
  obtain st ms1 where g: "uvc_vb2_qstate ?en ?q ms = (ms1, Some st)" "um_stream_corr ms1 = um_stream_corr ms"
    "pv = (if qs_have_last_seq st then Some (qs_last_sequence st) else None)"
    using assms(1) by (cases "um_vb2_queues ms ?q")
      (auto simp: uvc_vb2_qstate_def en counting_def qstate0_def Let_def)
  obtain st' gap iv where step: "vb2_done_step ?en (snd tb) (fst tb) st = (st', ucast (snd tb), gap, iv)"
    "qs_have_last_seq st'" "qs_last_sequence st' = ucast (snd tb)"
    "gap = (case pv of None \<Rightarrow> 0 | Some s \<Rightarrow> vb2_seq_gap s (ucast (snd tb)))"
    using g(3) by (simp add: vb2_done_step_def seq Let_def)
  define ms2 where "ms2 = put_qstate ?q st' ms1"
  obtain wire where eq: "uvc_hit (diag_uvc_config no_filter) (dn tb) ms
      = uvc_vb2_submit ?en ?q (snd tb) UVC_VB2_DONE VB2_BUF_STATE_DONE 0 (fst tb) (ucast (snd tb)) gap iv wire ms2"
    using assms(4) by (simp add: dn_def uvc_vb2_raw_done_def no_filter_config uvc_emit_vb2_done_def en g step(1) ms2_def Let_def)
  obtain c where c: "um_stream_corr ms2 0 = Some c" "sc_last_wire_done_ns c = w" "sc_busnum c = 1" "sc_devnum c = 5"
    using assms(2) g(2) by (auto simp: noted_def ms2_def put_qstate_def)
  define v where "v = uvc_vb2_fill_device ms2 (fst tb) (vb2_record ?en ?q (snd tb) UVC_VB2_DONE VB2_BUF_STATE_DONE 0 (fst tb)
      (ucast (snd tb)) gap iv wire)"
  have v: "ve_busnum v = 1" "ve_devnum v = 5" "h_ts_ns (ve_hdr v) = fst tb" "ve_seq_gap v = gap"
    using assms(3,5) c by (simp_all add: v_def uvc_vb2_fill_device_def not_less vb2_record_def Let_def split: prod.splits)
  have out: "out = [Vb2Rec v]" and ms': "um_vb2_queues ms' = um_vb2_queues ms2" "um_stream_corr ms' = um_stream_corr ms2"
    using run unfolding eq by (auto simp: uvc_vb2_submit_def v_def[symmetric] uvc_vb2_bind_dev_def Let_def split: if_splits)
  have "counting (Some (ucast (snd tb))) ms'" using step by (simp add: counting_def ms' ms2_def put_qstate_def)
  moreover have "noted w ms'" using c by (simp add: noted_def ms')
  moreover have "\<exists>y. event_of (Vb2R v) = Some y \<and> vb2_event pv tb y" using v step(4) by (simp add: vb2_event_def)
  ultimately show ?thesis by (auto simp: out)
qed

fun frame_events :: "u64 \<Rightarrow> u64 list \<Rightarrow> diag_event list \<Rightarrow> bool" where
  "frame_events p [] xs \<longleftrightarrow> xs = []"
| "frame_events p (t # ts) xs \<longleftrightarrow>
     (\<exists>x y zs. xs = x # y # zs \<and> class_event x \<and> frame_event p t y \<and> frame_events t ts zs)"

fun vb2_events :: "u32 option \<Rightarrow> (u64 \<times> u64) list \<Rightarrow> diag_event list \<Rightarrow> bool" where
  "vb2_events pv [] xs \<longleftrightarrow> xs = []"
| "vb2_events pv (tb # tbs) xs \<longleftrightarrow>
     (\<exists>y zs. xs = y # zs \<and> vb2_event pv tb y \<and> vb2_events (Some (ucast (snd tb))) tbs zs)"

definition uvc_events :: "uvc_out list \<Rightarrow> diag_event option list" where
  "uvc_events out = map (event_of \<circ> uvc_rec) out"

lemma frames_run:
  "idle p ms \<Longrightarrow> p = 0 \<or> noted p ms \<Longrightarrow> Uvc_Drv.uvc_run (diag_uvc_config no_filter) (map fr ts) ms = (ms', out) \<Longrightarrow>
   \<exists>xs. uvc_events out = map Some xs \<and> frame_events p ts xs
     \<and> idle (last (p # ts)) ms' \<and> (last (p # ts) = 0 \<or> noted (last (p # ts)) ms')"
proof (induction ts arbitrary: p ms out)
  case (Cons t ts)
  obtain ms1 o1 where 1: "uvc_hit (diag_uvc_config no_filter) (fr t) ms = (ms1, o1)"
    by (cases "uvc_hit (diag_uvc_config no_filter) (fr t) ms")
  obtain o2 where 2: "Uvc_Drv.uvc_run (diag_uvc_config no_filter) (map fr ts) ms1 = (ms', o2)" "out = o1 @ o2"
    using Cons.prems(3) by (auto simp: 1 split: prod.splits)
  obtain x y where f: "idle t ms1" "noted t ms1" "uvc_events o1 = [Some x, Some y]" "class_event x" "frame_event p t y"
    using frame_hit[OF Cons.prems(1) 1] by (auto simp: uvc_events_def)
  obtain xs where xs: "uvc_events o2 = map Some xs" "frame_events t ts xs" "idle (last (t # ts)) ms'"
    "last (t # ts) = 0 \<or> noted (last (t # ts)) ms'"
    using Cons.IH[OF f(1) _ 2(1)] f(2) by blast
  have "uvc_events out = map Some (x # y # xs)" using f(3) xs(1) by (simp add: 2(2) uvc_events_def)
  then show ?case using f(4,5) xs(2-4) by (intro exI[of _ "x # y # xs"]) simp
qed (simp add: uvc_events_def)

lemma dones_run:
  "counting pv ms \<Longrightarrow> noted w ms \<Longrightarrow> w \<noteq> 0 \<Longrightarrow>
   list_all (\<lambda>tb. snd tb \<noteq> 0 \<and> fst tb - w \<le> WIRE_VB2_MAX_NS) tbs \<Longrightarrow>
   \<exists>xs. uvc_events (snd (Uvc_Drv.uvc_run (diag_uvc_config no_filter) (map dn tbs) ms)) = map Some xs \<and> vb2_events pv tbs xs"
proof (induction tbs arbitrary: pv ms)
  case (Cons tb tbs)
  obtain ms1 o1 where 1: "uvc_hit (diag_uvc_config no_filter) (dn tb) ms = (ms1, o1)"
    by (cases "uvc_hit (diag_uvc_config no_filter) (dn tb) ms")
  obtain y where y: "counting (Some (ucast (snd tb))) ms1" "noted w ms1" "uvc_events o1 = [Some y]" "vb2_event pv tb y"
    using done_hit[OF Cons.prems(1-3) _ _ 1] Cons.prems(4) unfolding uvc_events_def by auto
  obtain xs where xs: "uvc_events (snd (Uvc_Drv.uvc_run (diag_uvc_config no_filter) (map dn tbs) ms1)) = map Some xs"
    "vb2_events (Some (ucast (snd tb))) tbs xs"
    using Cons.IH[OF y(1,2) Cons.prems(3)] Cons.prems(4) by auto
  then show ?case using y by (intro exI[of _ "y # xs"]) (auto simp: 1 uvc_events_def Let_def split: prod.splits)
qed (simp add: uvc_events_def)

section \<open>A story of one program\<close>

lemma take_replicate:
  "take_from (\<lambda>_. True) (replicate n (m, clk)) q = (map (\<lambda>r. (m, clk, r)) (take n (q m)), q(m := drop n (q m)))"
proof (induction n arbitrary: q)
  case (Suc n)
  then show ?case by (cases "q m") auto
qed simp

lemma with_all_space: "with_space (\<lambda>_. True) rs = rs"
  by (induction rs) auto

lemma uvc_story:
  "story_taken f (\<lambda>_. True) (\<lambda>_. True) (map (\<lambda>h. DFires (In_uvc h) (\<lambda>_. True)) hs
       @ [DPolled (replicate n (''uvc'', clk)) err now]) ms q
     = map (\<lambda>r. (''uvc'', clk, r)) (take n (q ''uvc'' @ map uvc_rec (snd (Uvc_Drv.uvc_run (diag_uvc_config f) hs (dk_uvc ms)))))"
proof (induction hs arbitrary: ms q)
  case Nil
  show ?case by (simp add: take_replicate)
next
  case (Cons h hs)
  obtain ms1 o1 where 1: "uvc_hit (diag_uvc_config f) h (dk_uvc ms) = (ms1, o1)"
    by (cases "uvc_hit (diag_uvc_config f) h (dk_uvc ms)")
  show ?case using Cons by (simp add: Let_def with_all_space 1 split_def)
qed

lemma story_uvc:
  assumes "rule_hooks ! ri = (map In_uvc hs, replicate n ''uvc'')"
    and "uvc_events (snd (Uvc_Drv.uvc_run (diag_uvc_config no_filter) hs uvc_maps0)) = map Some xs" "length xs \<le> n"
  shows "story_events ri = xs"
proof -
  let ?out = "snd (Uvc_Drv.uvc_run (diag_uvc_config no_filter) hs uvc_maps0)"
  have "length ?out = length xs" using arg_cong[OF assms(2), of length] by (simp add: uvc_events_def)
  then have t: "take n (map uvc_rec ?out) = map uvc_rec ?out" using assms(3) by simp
  have e: "map snd (events_taken (map (\<lambda>x. (s, clk, g x)) rs)) = ys" if "map (\<lambda>x. event_of (g x)) rs = map Some ys"
    for s clk rs ys and g :: "uvc_out \<Rightarrow> any_rec"
    using that by (induction rs arbitrary: ys) (auto simp: events_taken_def)
  show ?thesis
    unfolding story_events_def rule_story_def assms(1)
    using uvc_story[of no_filter hs n "\<lambda>_. 4000000000" 1 4000000000 diag_kernel0 "\<lambda>_. []"] assms(2) t
    by (simp add: comp_def map_replicate_const[symmetric] diag_kernel0_def uvc_events_def e)
qed

lemma every_ms_eval:
  "every_ms 70 11 = [70000000, 140000000, 210000000, 280000000, 350000000, 420000000, 490000000, 560000000, 630000000,
     700000000, 770000000]"
  "every_ms 33 10 = [33000000, 66000000, 99000000, 132000000, 165000000, 198000000, 231000000, 264000000, 297000000, 330000000]"
  by (simp_all add: every_ms_def upt_rec)

lemma start: "idle 0 uvc_maps0"
  by (simp add: idle_def uvc_maps0_def)

lemma slow_frames: "story_holds 8"
proof -
  have hks: "rule_hooks ! 8 = (map In_uvc (map fr (every_ms 70 11)), replicate 22 ''uvc'')"
    by (simp add: rule_hooks_def frame_at_def fr_def)
  obtain xs where xs: "uvc_events (snd (Uvc_Drv.uvc_run (diag_uvc_config no_filter) (map fr (every_ms 70 11)) uvc_maps0)) = map Some xs"
    "frame_events 0 (every_ms 70 11) xs"
    using frames_run[OF start, of "every_ms 70 11"] by (metis prod.collapse)
  have ev: "story_events 8 = xs" by (rule story_uvc[OF hks xs(1)]) (use xs(2) in \<open>auto simp: every_ms_eval\<close>)
  show ?thesis
    using xs(2) unfolding story_holds_def ev
    by (auto simp: every_ms_eval frame_event_def class_event_def diag_event_key_def plain_holds_def plain_rules_def plain_count_def
        Let_def ut_const)
qed

lemma uvc_run_app:
  "Uvc_Drv.uvc_run cfg (hs @ hs') ms =
     (let (ms1, o1) = Uvc_Drv.uvc_run cfg hs ms; (ms2, o2) = Uvc_Drv.uvc_run cfg hs' ms1 in (ms2, o1 @ o2))"
  by (induction hs arbitrary: ms) (auto simp: Let_def split: prod.splits)

lemma clean_frames_and_gaps: "story_holds 10"
proof -
  define tbs :: "(u64 \<times> u64) list" where "tbs = [(340000001, 2), (340000002, 4), (340000003, 6), (340000004, 8)]"
  have hks: "rule_hooks ! 10 = (map In_uvc (map fr (every_ms 33 10) @ map dn tbs), replicate 24 ''uvc'')"
    by (simp add: rule_hooks_def frame_at_def fr_def buffer_done_def dn_def tbs_def)
  obtain ms1 o1 where 1: "Uvc_Drv.uvc_run (diag_uvc_config no_filter) (map fr (every_ms 33 10)) uvc_maps0 = (ms1, o1)"
    by (cases "Uvc_Drv.uvc_run (diag_uvc_config no_filter) (map fr (every_ms 33 10)) uvc_maps0")
  obtain xs where xs: "uvc_events o1 = map Some xs" "frame_events 0 (every_ms 33 10) xs" "idle 330000000 ms1" "noted 330000000 ms1"
  proof -
    have l: "last (0 # every_ms 33 10) = 330000000" by (simp add: every_ms_eval)
    show ?thesis using frames_run[OF start _ 1] unfolding l by (auto intro: that)
  qed
  have c: "counting None ms1" using xs(3) by (simp add: idle_def counting_def)
  obtain ys where ys: "uvc_events (snd (Uvc_Drv.uvc_run (diag_uvc_config no_filter) (map dn tbs) ms1)) = map Some ys" "vb2_events None tbs ys"
  proof -
    have "list_all (\<lambda>tb. snd tb \<noteq> 0 \<and> fst tb - 330000000 \<le> WIRE_VB2_MAX_NS) tbs" by (simp add: tbs_def WIRE_VB2_MAX_NS_def)
    from dones_run[OF c xs(4) _ this] show ?thesis by (auto intro: that)
  qed
  have all: "uvc_events (snd (Uvc_Drv.uvc_run (diag_uvc_config no_filter) (map fr (every_ms 33 10) @ map dn tbs) uvc_maps0)) = map Some (xs @ ys)"
  proof -
    obtain ms2 o2 where 2: "Uvc_Drv.uvc_run (diag_uvc_config no_filter) (map dn tbs) ms1 = (ms2, o2)"
      by (cases "Uvc_Drv.uvc_run (diag_uvc_config no_filter) (map dn tbs) ms1")
    have "uvc_events (o1 @ o2) = map Some (xs @ ys)" using xs(1) ys(1) by (simp add: 2 uvc_events_def)
    then show ?thesis unfolding uvc_run_app 1 by (simp add: 2)
  qed
  have ev: "story_events 10 = xs @ ys"
    by (rule story_uvc[OF hks all]) (use xs(2) ys(2) in \<open>auto simp: every_ms_eval tbs_def\<close>)
  show ?thesis
    using xs(2) ys(2) unfolding story_holds_def ev
    by (auto simp: every_ms_eval tbs_def frame_event_def class_event_def vb2_event_def vb2_seq_gap_def diag_event_key_def
        plain_holds_def plain_rules_def plain_count_def Let_def ut_const)
qed

section \<open>The session\<close>

lemma story_sizes: "list_all (\<lambda>x. list_all hook_sizes (fst x)) rule_hooks"
proof -
  have s: "kernel_sizes (story_env r t)" "kernel_sizes (urb_env p st ec t)" "kernel_sizes (cam_env t ds)"
    "kernel_sizes ((cam_env t ds)\<lparr> en_urb := u \<rparr>)" for r t p st ec ds u
    by (auto simp: kernel_sizes_def story_env_def port_env_def story_dev_def urb_env_def cam_env_def Uvc_Props.demo_env_def
        Uvc_Props.demo_dev_def)
  show ?thesis
    by (auto simp: rule_hooks_def list_all_iff frame_at_def buffer_done_def video_errors_at_def s)
qed

lemma ops_ingests: "ops_of xs = ingests (ingested (ops_of xs))"
proof (induction xs)
  case (Cons x xs)
  then show ?case by (cases x) (auto simp: ops_of_def ingests_def ingested_append split: option.split)
qed (simp add: ops_of_def ingests_def)

lemma one_poll_story:
  "\<exists>recs. diag_story f up act (map (\<lambda>h. DFires h space) hks @ [DPolled ts err now]) ms q
     = [\<lparr> pl_records = recs, pl_err = err, pl_now = now \<rparr>]"
  by (induction hks arbitrary: ms q) (auto simp: Let_def split: prod.split)

lemma rule_story_ops:
  assumes "ri < length rule_hooks"
  shows "poll_ops (diag_story no_filter (\<lambda>_. True) (\<lambda>_. True) (rule_story ri) diag_kernel0 (\<lambda>_. [])) 0
     = ingests (events_taken (story_taken no_filter (\<lambda>_. True) (\<lambda>_. True) (rule_story ri) diag_kernel0 (\<lambda>_. []))) @ [Tick 4000000000]"
proof -
  let ?taken = "story_taken no_filter (\<lambda>_. True) (\<lambda>_. True) (rule_story ri) diag_kernel0 (\<lambda>_. [])"
  obtain hks from' where h: "rule_hooks ! ri = (hks, from')" by (cases "rule_hooks ! ri")
  have "list_all hook_sizes hks" using story_sizes assms h by (metis fst_conv list_all_length)
  then have sizes: "list_all diag_step_sizes (rule_story ri)" by (simp add: rule_story_def h list.pred_map comp_def)
  have corr: "corr_ok (filter_ids no_filter) (dk_uvc diag_kernel0)" by (simp add: corr_ok_def diag_kernel0_def uvc_maps0_def)
  have "list_all (\<lambda>(n, r). rec_ok r) (story_kept no_filter (\<lambda>_. True) (rule_story ri) diag_kernel0)"
    using Diag_System.story_ok[OF sizes corr, of "\<lambda>_. True"] kept_submitted[of no_filter "\<lambda>_. True" "rule_story ri" diag_kernel0]
    by (auto simp: list_all_iff)
  note ok = taken_ok[OF this, of "\<lambda>_. True"]
  obtain recs where p: "diag_story no_filter (\<lambda>_. True) (\<lambda>_. True) (rule_story ri) diag_kernel0 (\<lambda>_. [])
      = [\<lparr> pl_records = recs, pl_err = 1, pl_now = 4000000000 \<rparr>]"
    unfolding rule_story_def h prod.case using one_poll_story by blast
  have recs: "recs = map (\<lambda>(n, clk, r). (clk, rec_bytes r)) ?taken"
    using story_bytes[of no_filter "\<lambda>_. True" "\<lambda>_. True" "rule_story ri" diag_kernel0 "\<lambda>_. []"] by (simp add: p)
  have "ops_of recs = ingests (events_taken ?taken)"
    using ops_ingests[of recs] events_taken_ops[OF ok] unfolding recs by simp
  then show ?thesis by (simp add: p TICK_INTERVAL_NS_def)
qed

lemma story_reports:
  assumes "story_holds ri" "ri < 17"
  shows "\<exists>f \<in> set (fst (diag_session builtin_rules 0 json
     (diag_story no_filter (\<lambda>_. True) (\<lambda>_. True) (rule_story ri) diag_kernel0 (\<lambda>_. [])))). fd_rule f = ri"
proof -
  let ?ps = "diag_story no_filter (\<lambda>_. True) (\<lambda>_. True) (rule_story ri) diag_kernel0 (\<lambda>_. [])"
  define evs where "evs = events_taken (story_taken no_filter (\<lambda>_. True) (\<lambda>_. True) (rule_story ri) diag_kernel0 (\<lambda>_. []))"
  have xs: "story_events ri = map snd evs" by (simp add: story_events_def evs_def)
  have ne: "evs \<noteq> []" using assms(1) by (auto simp: story_holds_def xs Let_def)
  then obtain es clk ev where evs: "evs = es @ [(clk, ev)]" by (cases evs rule: rev_cases) auto
  have h: "length evs \<le> 30" "\<And>x. x \<in> set evs \<Longrightarrow> diag_event_key (snd x) = diag_event_key ev"
    "plain_holds ri ev (rev (map snd evs))"
    using assms(1) by (auto simp: story_holds_def xs Let_def evs list_all_iff)
  have own: "events_of (diag_event_key ev) evs = map snd evs"
    unfolding events_of_def by (subst filter_True) (auto simp: h(2))
  have "keys_of es \<subseteq> {diag_event_key ev}" using h(2) by (auto simp: keys_of_def evs)
  then have "card (keys_of es) \<le> card {diag_event_key ev}" by (intro card_mono) auto
  then have card: "card (keys_of es) \<le> WIN_MAX_DEVS" by (simp add: WIN_MAX_DEVS_def)
  have "\<exists>f \<in> set (engine_outs (ingests evs) (diag_engine_create builtin_rules)). fd_rule f = ri"
    using statement_reported[OF card assms(2), of ev clk] h(1,3) unfolding evs[symmetric] own by (auto simp: WIN_MAX_EVENTS_def)
  moreover have "ri < length rule_hooks" using assms(2) by (simp add: rule_hooks_def)
  ultimately show ?thesis
    using rule_story_ops[of ri] diag_session_runs_engine[of builtin_rules 0 json ?ps]
    by (auto simp: engine_outs_append evs_def)
qed

text \<open>The rule \<open>enum-stall\<close> waits for a deadline: its finding comes with the tick after the poll.\<close>

lemma stall_reports:
  "\<exists>f \<in> set (fst (diag_session builtin_rules 0 json
     (diag_story no_filter (\<lambda>_. True) (\<lambda>_. True) (rule_story 3) diag_kernel0 (\<lambda>_. [])))). fd_rule f = 3"
proof -
  let ?k = "\<lparr> key_busnum = 1, key_devnum = 4 \<rparr> :: diag_devkey"
  let ?ps = "diag_story no_filter (\<lambda>_. True) (\<lambda>_. True) (rule_story 3) diag_kernel0 (\<lambda>_. [])"
  define evs where "evs = events_taken (story_taken no_filter (\<lambda>_. True) (\<lambda>_. True) (rule_story 3) diag_kernel0 (\<lambda>_. []))"
  have "map (\<lambda>x. (ev_kind x, ev_step x, ev_new_state x, ev_ts_ns x, ev_busnum x, ev_devnum x)) (story_events 3)
      = [(USBTRACE_EVT_ENUM, ENUM_STEP_STATE, 6, 1000, 1, 4)]"
    by code_simp
  then obtain clk x where evs: "evs = [(clk, x)]" and x: "ev_kind x = USBTRACE_EVT_ENUM" "ev_step x = ENUM_STEP_STATE"
    "ev_new_state x = 6" "ev_ts_ns x = 1000" "diag_event_key x = ?k"
    by (auto simp: story_events_def evs_def[symmetric] diag_event_key_def)
  have es: "events_of ?k evs = [x]" by (simp add: events_of_def evs x)
  have st: "is_state x" "\<not> starts_episode x" by (simp_all add: is_state_def starts_episode_def x ut_const)
  have ep: "episode [x] = [x]" using st by (simp add: episode_def episode_step_def)
  have r: "builtin_rules ! 3 = rule_enum_stall" by (simp add: builtin_rules_def)
  have dl: "r_type rule_enum_stall = RULE_DEADLINE" "r_dl_reached_state rule_enum_stall = int 6"
    "r_dl_without_state rule_enum_stall = int 7" "ms_to_ns (r_dl_timeout_ms rule_enum_stall) = 3000000000"
    by (simp_all add: rule_enum_stall_def ms_to_ns_def)
  have card: "card (keys_of evs) \<le> WIN_MAX_DEVS" by (simp add: keys_of_def evs WIN_MAX_DEVS_def)
  have "\<exists>f \<in> set (snd (diag_engine_tick 4000000000 (engine_run (ingests evs) (diag_engine_create builtin_rules)))).
      fd_rule f = 3 \<and> fd_key f = ?k"
    by (subst stuck_reported[OF card, where s = 6 and u = 7])
      (simp_all add: length_builtin r dl es ep state_seen_def entered_single st x)
  moreover have "3 < length rule_hooks" by (simp add: rule_hooks_def)
  ultimately show ?thesis
    using rule_story_ops[of 3] diag_session_runs_engine[of builtin_rules 0 json ?ps]
    by (auto simp: engine_outs_append evs_def)
qed

text \<open>C15: No built-in rule is dead: for every one of the seventeen, the hooks of its story, run through the BPF programs as
  \<open>usbtrace diag\<close> configures them without a filter, submit records which, taken from the programs' buffers in one poll of a session
  with the embedded rules, make it print a finding of that rule. In the story of \<open>enum-power-cycle\<close> the port still has
  its child when it is powered off; without one the rule stays silent.\<close>

theorem builtin_rules_can_report:
  "list_all (\<lambda>ri. \<exists>f \<in> set (fst (diag_session builtin_rules 0 json
       (diag_story no_filter (\<lambda>_. True) (\<lambda>_. True) (rule_story ri) diag_kernel0 (\<lambda>_. [])))).
     fd_rule f = ri \<and> fd_id f = r_id (builtin_rules ! ri)) [0..<length builtin_rules]"
proof -
  have "\<exists>f \<in> set (fst (diag_session builtin_rules 0 json
       (diag_story no_filter (\<lambda>_. True) (\<lambda>_. True) (rule_story ri) diag_kernel0 (\<lambda>_. [])))). fd_rule f = ri" if ri: "ri < 17" for ri
  proof (cases "ri = 3")
    case False
    then have "ri \<in> set [0, 1, 2, 4, 5, 6, 7, 8, 9, 10, 11, 12, 13, 14, 15, 16]" using ri by (simp del: One_nat_def) arith
    then have "story_holds ri"
      using stories_ok_device stories_ok_video slow_frames clean_frames_and_gaps by (auto simp del: One_nat_def)
    then show ?thesis using story_reports[OF _ ri] by blast
  qed (use stall_reports in blast)
  moreover have "fd_id f = r_id (builtin_rules ! fd_rule f)" if "f \<in> set (fst (diag_session builtin_rules 0 json ps))" for f ps
    using that finding_ids[of f] diag_session_runs_engine[of builtin_rules 0 json ps] by simp
  ultimately show ?thesis unfolding list_all_iff length_builtin by (metis atLeastLessThan_iff set_upt)
qed

end
