(* ===== verification/Spec2Isabelle.thy ===== *)
theory Spec2Isabelle
  imports Diag_Props Diag_Normalize Diag_Rules_Props Diag_Session Diag_Liveness Ut_Cli Module_Core Hook_Probe Evmux
    Uvc_Vb2_Props Uvc_Starvation Urb_Probe_Props Dev_Props Hid_Props Dev_Consumer_Props Urb_Text_Props Uvc_Report_Props
    Stream_Text_Props Diag_Text_Props Record_Types Poll_Loop Class_Text Ut_Program_Props Ut_System Filter_Props Hook_Entry
    Rule_Docs Builtin_Rules Builtin_Props Builtin_Reach Diag_System Builtin_Stories
begin

text \<open>
  usbtrace: a verification library for the USB tracer of this repository.

  The program. usbtrace is one binary with a module per subsystem of the Linux USB stack. A module is a BPF program
  (\<open>src/modules/*/*.bpf.c\<close>) that runs in the kernel at probes and tracepoints, keeps what it must remember in
  hash maps, and submits fixed-layout records to a ring or perf buffer; and a user-space side
  (\<open>src/modules/*/*.c\<close>) that parses options, runs the shared harness \<open>usbtrace_run\<close>
  (\<open>src/run.c\<close>: probe the hooks, load, attach, poll) and prints the records it is called with. The diag
  module has no program of its own: it runs those of the other modules, normalises their records into one event type and
  feeds a rule engine that keeps a window of recent events per device and prints findings.

  \<^bold>\<open>Theories and what they model\<close>

  \<^item> \<open>Ut_Prelude\<close>: integer types, C strings, number printing and
    \<open>strtol\<close>/\<open>strtoul\<close>, the locale of machines run over inputs (\<open>step_machine\<close>),
    shared lemmas on folds, lists and words.
  \<^item> \<open>Ut_Wire\<close>: the nine record structs (\<open>urb.h\<close>, \<open>enum.h\<close>,
    \<open>power.h\<close>, \<open>lifecycle.h\<close>, \<open>hub.h\<close>, \<open>class.h\<close>,
    \<open>uvc.h\<close>) as bytes: an encoder and a decoder per struct with its C layout, each an interpretation of the
    locale \<open>record_codec\<close>.
  \<^item> \<open>Diag_Model\<close>, \<open>Diag_Window\<close>, \<open>Diag_Expand\<close>, \<open>Diag_Engine\<close>:
    \<open>diag.h\<close>, \<open>engine.h\<close>, \<open>engine.c\<close>. Rules, conditions and the predicates on
    events; the per-device ring of 1024 events and the evaluation of a condition over it; placeholder expansion;
    \<open>diag_engine_ingest\<close>, \<open>diag_engine_tick\<close>, \<open>diag_engine_report\<close>.
    \<open>Diag_Eval\<close>, \<open>Diag_Engine_Facts\<close>, \<open>Diag_Tick\<close>, \<open>Diag_Machine\<close>,
    \<open>Diag_Run\<close>, \<open>Diag_Trace\<close> hold specifications and lemmas: the condition over a plain list,
    closed forms of one ingest and one tick, the device table as a map from devices, whole runs. \<open>Diag_Props\<close>
    and \<open>Diag_Liveness\<close> state the properties.
  \<^item> \<open>Diag_Normalize\<close>: \<open>diag.c\<close>, from record bytes to an event, \<open>on_event\<close>,
    and the poll loop with its ticks. \<open>Diag_Session\<close>: \<open>diag_run\<close> with its options, the rules it
    loads and its nine sources.
  \<^item> \<open>Diag_Rules\<close>, \<open>Diag_Rules_Props\<close>: \<open>rules.c\<close>, the loader over a parsed
    YAML document. \<open>Rule_Docs\<close>: the tree a document stands for, and a reference loader over trees.
    \<open>Builtin_Rules\<close>: the embedded rules (\<open>rules.yaml\<close>), each as the tree of its lines and as the
    rule the loader makes of it. \<open>Builtin_Props\<close>, \<open>Builtin_Reach\<close>: what these rules report, their
    texts, and the way from the hooks and records of the BPF programs to their findings. \<open>Builtin_Stories\<close>: for
    each rule a run of hooks that ends in its finding.
  \<^item> \<open>Ut_Cli\<close>: \<open>usbtrace_cli.c\<close>, filter options and JSON escaping.
    \<open>Json_Line\<close>: the shape of a JSON line (strings, numbers, booleans, arrays of objects) and a reader for
    it. \<open>Ut_Float\<close>: the part of C's \<open>double\<close> the sources use, with the rounding error of a
    quotient and of its printed decimals.
  \<^item> \<open>Module_Core\<close>: \<open>module.c\<close>, \<open>main.c\<close>, \<open>run.c\<close>.
    \<open>Poll_Loop\<close>: the two poll loops as loops that may not return, and that they do.
    \<open>Hook_Probe\<close>: \<open>probe.c\<close>. \<open>Evmux\<close>: \<open>evmux.c\<close>, both transports.
  \<^item> \<open>Getopt\<close>: \<open>getopt_long\<close> as the modules use it. \<open>Ut_Options\<close>: the option tables,
    the parsers over the words of the command line, the usage texts. \<open>Ut_Program\<close>: the ten registered modules
    with their static variables, configurations, hooks, outputs and log lines (\<open>log.h\<close>), and \<open>main\<close>
    over them. \<open>Ut_Program_Props\<close>: from the command line to the module that runs.
  \<^item> \<open>Ut_System\<close>: the emit macro of \<open>events.bpf.h\<close> and stories of hooks and polls in any order,
    from the hooks in the kernel to standard output. \<open>Filter_Props\<close>: what the device filter keeps out.
    \<open>Diag_System\<close>: the diag module over the nine programs together, from any story of their hooks and of diag's
    polls to its findings on standard output.
    \<open>Hook_Entry\<close>: the register macros of \<open>pt_regs.bpf.h\<close> and the sections of the programs, from
    saved registers to a hook.
  \<^item> \<open>Bpf_Core\<close>: \<open>pt_regs.bpf.h\<close>, \<open>filter.bpf.h\<close>,
    \<open>class_urb.bpf.h\<close> and the hash maps. \<open>Pending_Map\<close>: the pairing of a call with its return.
  \<^item> \<open>Uvc_Vb2\<close>, \<open>Uvc_Frames\<close>, \<open>Uvc_Drv\<close>: \<open>uvc.bpf.c\<close> by layer
    (videobuf2 queues, frame reconstruction from isochronous packets, driver drops), all hooks together as
    \<open>uvc_hit\<close>. \<open>Uvc_Frame_Spec\<close>: what a frame is, as a cutting of a token sequence.
    \<open>Uvc_Props\<close>, \<open>Uvc_Vb2_Props\<close>, \<open>Uvc_Starvation\<close>: properties.
  \<^item> \<open>Urb_Probe\<close>, \<open>Dev_Probes\<close> with \<open>Urb_Probe_Props\<close>,
    \<open>Dev_Props\<close>: \<open>urb.bpf.c\<close>, \<open>enum.bpf.c\<close>, \<open>lifecycle.bpf.c\<close>,
    \<open>power.bpf.c\<close>, \<open>hub.bpf.c\<close>. \<open>Record_Types\<close>: all programs together, and the
    records each may submit.
  \<^item> \<open>Class_Stream\<close>: the class programs (\<open>hid.bpf.c\<close>, \<open>uac.bpf.c\<close>,
    \<open>storage.bpf.c\<close>) and \<open>class_stream.c\<close>. \<open>Hid_Rate\<close>, \<open>Hid_Props\<close>:
    the report-rate meter of \<open>hid.c\<close>.
  \<^item> \<open>Dev_Consumer\<close>, \<open>Urb_Text\<close>, \<open>Uvc_Report\<close> with
    \<open>Dev_Consumer_Props\<close>, \<open>Urb_Text_Props\<close>, \<open>Uvc_Report_Props\<close>: the user-space
    sides (\<open>enum.c\<close>, \<open>power.c\<close>, \<open>lifecycle.c\<close>, \<open>hub.c\<close>, the printers
    of \<open>class_stream.c\<close>; \<open>urb.c\<close>; \<open>uvc.c\<close>). \<open>Class_Text\<close>
    (\<open>uac.c\<close>, \<open>storage.c\<close>), \<open>Hid_Text\<close> (\<open>hid.c\<close>),
    \<open>Uvc_Text\<close> (\<open>uvc.c\<close>), \<open>Diag_Text\<close> (the finding lines and the summary of
    \<open>engine.c\<close>): the printed text; \<open>Stream_Text_Props\<close> and \<open>Diag_Text_Props\<close>: its
    properties.

  \<^bold>\<open>State and effects\<close>

  A C struct is a record with the source's members, an integer a word of its width, a \<open>long\<close> an
  \<open>int\<close> converted with the truncation written out. A handler takes its state and returns it updated, with the
  records or lines it emits in order; a pointer result that may be NULL is an option; an error text or code is a sum or
  the returned number. A BPF hash map is a partial function whose update of a new key fails when the map is full. Kernel
  memory, the clock, the task and the capacity of the maps are fields of an environment argument of each hook run, so a
  run is a list of hooks with their environments. Hooks run one after another: races of one program between CPUs are not
  modelled. libbpf, libyaml and the files of tracefs and kallsyms are arguments holding what they answer; for a whole
  program they are the fields of one \<open>ut_world\<close>, in which the records a session is given may depend on how it
  configured its BPF program.

  \<^bold>\<open>What the lemmas show\<close>

  \<^item> The engine: the window of a device is the newest 1024 events of that device (\<open>sliding_window\<close>,
    interpreted on the ring buffer); a rule condition computes its specification; ingest and tick report a rule exactly
    when the rule's conditions hold over the history, with the largest count of a condition and the first six of the
    counted events; the cooldown holds over any sequence of events and ticks, and so does the latch of a deadline rule until
    a new episode begins or the engine forgets the device, after ten silent seconds or for a new device; a device stuck in
    enumeration is reported; counters equal the reports; other devices are not disturbed except by eviction of the device
    seen longest ago.
  \<^item> The path of a record: the probe's record, encoded, decodes and normalises to the event the rules see; a diag
    session is a run of the engine on the normalised records and the tick times.
  \<^item> The loader accepts only rules that fit the engine's fixed arrays, keeps their order, and a trigger means its
    document; it computes the reference loader of the document's tree, whatever the numbering of the nodes.
  \<^item> The embedded rules load as stated; each event rule reports exactly when its statement in terms of the programs'
    records and constants holds; a rule whose statement came true has been reported whatever the clocks; none of them is
    dead, as a run of the programs' hooks shows for each; their texts are never cut. Lemmas show where they differ from what they say: the power cycle of a port without a
    child, the over-current of an empty port, errored frames beside clean ones, a finished transfer counted twice.
  \<^item> The uvc program: emitted frames are the specification's frames of the packet stream and account for every
    payload and error; drop causes are used once; completions carry the gap and interval of their queue's own history;
    over any run the starvation records are exactly the reports due for frames that found the pool of their queue empty,
    a cooldown apart.
  \<^item> Pairings (URB submission and completion, enumeration calls, connects) are those of the locale
    \<open>pending_map\<close>.
  \<^item> Consumers: exactly the delivered records of a kind are printed and counted; JSON lines read back, of findings
    and summaries too when their identifiers need no escape; printed rates and times are within half a unit of their last
    decimal, and the rounding of a double, of the exact quotient; the meter's totals are those of each endpoint alone and
    its windows partition the reports; both transports hand out each record once (\<open>event_mux\<close>).
  \<^item> A submitted record has the kind, size and flag values its consumer relies on, whatever the kernel memory holds;
    the poll loops return once the stop flag is set or the deadline passes.

  \<^item> The command line: any switches and options of any module can be written as words that select them, whatever the
    order of registration; the first option that asks for help or is in error decides the exit; the usage texts document
    the option tables.
  \<^item> Hook probing: exactly the programs whose function or tracepoint is known to be absent are switched off, whatever the
    form of the section name and whatever could not be read.
  \<^item> The whole path: whatever the hooks meet and however the event buffer fills and is polled, a module of one line
    per record prints the lines of the records its configured program submitted that got space, in order and at most once,
    and all of them when none is lost; no record of a device outside the filter is submitted, except that vb2 records carry
    the ids of the latest wire frame or none; hooks see the arguments of the functions they probe, but not on i386.

  \<^item> The same for diag: its findings are those of the engine over the events of the records its nine programs submitted
    under its filter, those that got space and were taken, each source in its order.

  \<^bold>\<open>Bounds\<close>

  Loops of the sources are structural recursions or folds over the iterated range, with the source's bound (128 devices,
  16 endpoints, 16 event sources, 512-byte lines, the packet limits of the frame parser). The JSON reader takes fuel; the
  length of the line is enough, as every call takes a character. No definition can run out otherwise: the scaling of a
  quotient to 53 bits has a termination proof, and the poll loops are partial functions whose result is proved to exist.
  The doubles of the sources are quotients of integers below 2^64 and powers of ten, so they neither overflow nor become
  subnormal, and a double is a fraction rounded to 53 bits.

  \<^bold>\<open>Not modelled\<close>

  The order between log lines and other texts on standard error, which are kept apart, and what libbpf and
  \<open>getopt_long\<close> themselves print; the BPF skeletons libbpf generates; map declarations and the choice of the
  transport at build time (\<open>events.bpf.h\<close>, \<open>compat.bpf.h\<close>); signal handlers, beyond the flag
  that ends a poll loop; the scanning of YAML text (libyaml); freeing of memory and failure of \<open>strdup\<close>.
\<close>

end
